(* ===== verification/Prelude.thy ===== *)
theory Prelude
  imports
    Complex_Main
    "HOL-Library.AList"
    "HOL-Library.Char_ord"
    "HOL-Library.List_Lexorder"
begin

text \<open>
  Shared vocabulary of the development: how a Python call ends, how an operation that
  mutates an object and may raise is written, and the generic facts about lists, finite
  maps and early-return loops that the component theories use.

  A Python function that may raise returns \<^typ>\<open>'e + 'a\<close> with \<open>Inl\<close> for the exception. A
  method that also mutates its object is an \<open>action\<close>: it takes the state and returns the
  result together with the state as it was left, also when it raised, because Python does
  not roll an object back when an exception passes through it.
\<close>

section \<open>Exceptions and stateful calls\<close>

text \<open>
  \<open>Boundary code\<close> is \<open>BoundaryBlocked(code)\<close> of \<open>kernel.py\<close>; every other exception is
  \<open>Raised type message\<close>, the two facts about it that the code ever looks at
  (\<open>type(exc).__name__\<close> and \<open>str(exc)\<close>).
\<close>

datatype exn =
    Boundary (exn_code: string)
  | Raised (exn_type: string) (exn_message: string)

abbreviation value_error :: "string \<Rightarrow> exn" where
  "value_error msg \<equiv> Raised ''ValueError'' msg"

abbreviation key_error :: "string \<Rightarrow> exn" where
  "key_error msg \<equiv> Raised ''KeyError'' msg"

type_synonym 'a res = "exn + 'a"

type_synonym ('s, 'a) action = "'s \<Rightarrow> (exn + 'a) \<times> 's"

definition bind_res :: "'e + 'a \<Rightarrow> ('a \<Rightarrow> 'e + 'b) \<Rightarrow> 'e + 'b" where
  "bind_res r f = (case r of Inl e \<Rightarrow> Inl e | Inr a \<Rightarrow> f a)"

definition bind_act :: "('s, 'a) action \<Rightarrow> ('a \<Rightarrow> ('s, 'b) action) \<Rightarrow> ('s, 'b) action" where
  "bind_act m f s =
     (case m s of
        (Inl e, s') \<Rightarrow> (Inl e, s')
      | (Inr a, s') \<Rightarrow> f a s')"

text \<open>
  A call across an asynchronous boundary ends in one of three ways: it returns, it raises,
  or the deadline given to \<open>anyio.fail_after\<close> passes first.
\<close>

datatype 'a call = Done 'a | Failed exn | Late

named_theorems result_simps \<open>evaluation of results and stateful calls\<close>

lemma bind_res_simps [simp, result_simps]:
  "bind_res (Inl e) f = Inl e"
  "bind_res (Inr a) f = f a"
  by (simp_all add: bind_res_def)

lemma bind_res_Inr_iff:
  "bind_res r f = Inr b \<longleftrightarrow> (\<exists>a. r = Inr a \<and> f a = Inr b)"
  by (cases r) auto

lemma bind_res_Inl_iff:
  "bind_res r f = Inl e \<longleftrightarrow> r = Inl e \<or> (\<exists>a. r = Inr a \<and> f a = Inl e)"
  by (cases r) auto

lemma bind_act_Inl [result_simps]: "m s = (Inl e, s') \<Longrightarrow> bind_act m f s = (Inl e, s')"
  by (simp add: bind_act_def)

lemma bind_act_Inr [result_simps]: "m s = (Inr a, s') \<Longrightarrow> bind_act m f s = f a s'"
  by (simp add: bind_act_def)

lemma bind_act_cases:
  assumes "bind_act m f s = (r, t)"
  obtains (raised) e where "m s = (Inl e, t)" "r = Inl e"
    | (returned) a s' where "m s = (Inr a, s')" "f a s' = (r, t)"
  using assms by (auto simp: bind_act_def split: prod.splits sum.splits)

lemma bind_act_InrE:
  assumes "bind_act m f s = (Inr b, t)"
  obtains a s' where "m s = (Inr a, s')" "f a s' = (Inr b, t)"
  using assms by (rule bind_act_cases) auto

text \<open>A loop that threads a value through calls that may raise.\<close>

fun fold_res :: "('a \<Rightarrow> 's \<Rightarrow> 's res) \<Rightarrow> 'a list \<Rightarrow> 's \<Rightarrow> 's res" where
  "fold_res f [] s = Inr s"
| "fold_res f (x # xs) s = bind_res (f x s) (fold_res f xs)"

section \<open>Python containers\<close>

text \<open>
  A dictionary whose insertion order is observable is an association list: \<open>dict_set\<close>
  overwrites in place or appends at the end, as \<open>d[k] = v\<close> does. A dictionary that is only
  looked up is a map \<open>'k \<rightharpoonup> 'v\<close>.
\<close>

fun dict_set :: "'k \<Rightarrow> 'v \<Rightarrow> ('k \<times> 'v) list \<Rightarrow> ('k \<times> 'v) list" where
  "dict_set k v [] = [(k, v)]"
| "dict_set k v ((k', v') # xs) =
     (if k' = k then (k, v) # xs else (k', v') # dict_set k v xs)"

definition dict_pop :: "'k \<Rightarrow> ('k \<times> 'v) list \<Rightarrow> ('k \<times> 'v) list" where
  "dict_pop k xs = filter (\<lambda>(k', _). k' \<noteq> k) xs"

lemma map_of_dict_set [simp]: "map_of (dict_set k v xs) = (map_of xs)(k \<mapsto> v)"
  by (induction k v xs rule: dict_set.induct) auto

lemma map_of_dict_pop [simp]: "map_of (dict_pop k xs) = (map_of xs)(k := None)"
  unfolding dict_pop_def by (induction xs) (auto simp: fun_eq_iff)

lemma keys_dict_set: "fst ` set (dict_set k v xs) = insert k (fst ` set xs)"
  by (induction k v xs rule: dict_set.induct) auto

lemma distinct_dict_set: "distinct (map fst xs) \<Longrightarrow> distinct (map fst (dict_set k v xs))"
proof (induction k v xs rule: dict_set.induct)
  case (2 k v k' v' xs)
  then show ?case
    by (cases "k' = k") (simp_all add: keys_dict_set)
qed simp

lemma distinct_dict_pop: "distinct (map fst xs) \<Longrightarrow> distinct (map fst (dict_pop k xs))"
  unfolding dict_pop_def by (induction xs) auto

lemma find_SomeD: "find P xs = Some x \<Longrightarrow> x \<in> set xs \<and> P x"
  by (induction xs) (auto split: if_splits)

lemma find_append: "find P (xs @ ys) = (case find P xs of None \<Rightarrow> find P ys | Some x \<Rightarrow> Some x)"
  by (induction xs) auto

lemma find_None_set: "find P xs = None \<longleftrightarrow> (\<forall>x \<in> set xs. \<not> P x)"
  by (induction xs) auto

text \<open>The last element of a list, or \<open>None\<close>: \<open>xs[-1] if xs else None\<close>.\<close>

definition last_opt :: "'a list \<Rightarrow> 'a option" where
  "last_opt xs = (if xs = [] then None else Some (last xs))"

lemma last_opt_simps [simp]:
  "last_opt [] = None"
  "last_opt (xs @ [x]) = Some x"
  by (simp_all add: last_opt_def)

text \<open>\<open>str.startswith\<close> and the tail of a string after a prefix.\<close>

definition starts_with :: "string \<Rightarrow> string \<Rightarrow> bool" where
  "starts_with prefix s \<longleftrightarrow> take (length prefix) s = prefix"

lemma starts_with_append [simp]: "starts_with p (p @ s)"
  by (simp add: starts_with_def)

text \<open>\<open>sep.join(parts)\<close> and the removal of repeated entries that a Python \<open>set\<close> performs.\<close>

fun join :: "string \<Rightarrow> string list \<Rightarrow> string" where
  "join sep [] = []"
| "join sep [x] = x"
| "join sep (x # y # ys) = x @ sep @ join sep (y # ys)"

end
