(* ===== verification/Json.thy ===== *)
theory Json
  imports Prelude
begin

text \<open>
  Python values that cross a boundary of the runtime: the JSON-shaped values that
  \<open>dict[str, Any]\<close> fields hold, Python's \<open>==\<close> on them, and the encoders used by
  \<open>model_dump(mode="json")\<close>. Floats are represented by rationals (rounding is not
  modelled; NaN and infinities have no RFC 8785 form and are refused at the boundaries).
\<close>

section \<open>Values\<close>

datatype json =
    JNull
  | JBool bool
  | JInt int
  | JFloat rat
  | JStr string
  | JArr "json list"
  | JObj "(string \<times> json) list"

type_synonym dict = "(string \<times> json) list"

lemma size_json_value [termination_simp]:
  "(k, v) \<in> set xs \<Longrightarrow> size v < Suc (size_list (size_prod (\<lambda>_. 0) size) xs)"
  by (induction xs) auto

lemma size_json_value' [termination_simp]:
  "(k, v) \<in> set xs \<Longrightarrow> size v < Suc (size_list (\<lambda>p. Suc (size (snd p))) xs)"
  by (induction xs) auto

text \<open>
  The numeric value behind Python's \<open>==\<close>: \<open>True == 1 == 1.0\<close>.
\<close>

fun numeric :: "json \<Rightarrow> rat option" where
  "numeric (JBool b) = Some (if b then 1 else 0)"
| "numeric (JInt i) = Some (of_int i)"
| "numeric (JFloat q) = Some q"
| "numeric _ = None"

text \<open>
  Python equality: numbers by value, lists element by element, dictionaries by their keys
  whatever the order. A tuple is a list here: no compared value is a tuple.
\<close>

fun py_eq :: "json \<Rightarrow> json \<Rightarrow> bool" where
  "py_eq JNull y = (y = JNull)"
| "py_eq (JBool b) y = (numeric y = Some (if b then 1 else 0))"
| "py_eq (JInt i) y = (numeric y = Some (of_int i))"
| "py_eq (JFloat q) y = (numeric y = Some q)"
| "py_eq (JStr s) y = (y = JStr s)"
| "py_eq (JArr xs) y =
     (case y of JArr ys \<Rightarrow> list_all2 py_eq xs ys | _ \<Rightarrow> False)"
| "py_eq (JObj xs) y =
     (case y of
        JObj ys \<Rightarrow>
          length xs = length ys \<and>
          list_all (\<lambda>(k, v). case map_of ys k of None \<Rightarrow> False | Some w \<Rightarrow> py_eq v w) xs
      | _ \<Rightarrow> False)"

text \<open>Well-formed values: the keys of a dictionary are distinct, at every depth.\<close>

fun json_wf :: "json \<Rightarrow> bool" where
  "json_wf (JArr xs) = list_all json_wf xs"
| "json_wf (JObj xs) = (distinct (map fst xs) \<and> list_all (\<lambda>(k, v). json_wf v) xs)"
| "json_wf _ = True"

abbreviation dict_wf :: "dict \<Rightarrow> bool" where
  "dict_wf d \<equiv> json_wf (JObj d)"

lemma py_eq_refl: "json_wf v \<Longrightarrow> py_eq v v"
proof (induction v)
  case (JArr xs)
  then show ?case by (auto simp: list_all_iff list_all2_conv_all_nth)
next
  case (JObj xs)
  then show ?case by (fastforce simp: list_all_iff)
qed auto

section \<open>Encoders\<close>

text \<open>\<open>str(n)\<close> of a number.\<close>

fun nat_decimal :: "nat \<Rightarrow> string" where
  "nat_decimal n =
     (if n < 10 then [char_of (48 + n)] else nat_decimal (n div 10) @ [char_of (48 + n mod 10)])"

declare nat_decimal.simps [simp del]

fun opt_json :: "string option \<Rightarrow> json" where
  "opt_json None = JNull"
| "opt_json (Some s) = JStr s"

fun opt_bool_json :: "bool option \<Rightarrow> json" where
  "opt_bool_json None = JNull"
| "opt_bool_json (Some b) = JBool b"

definition strs_json :: "string list \<Rightarrow> json" where
  "strs_json xs = JArr (map JStr xs)"

lemma opt_json_inject [simp]: "opt_json x = opt_json y \<longleftrightarrow> x = y"
  by (cases x; cases y) auto

lemma opt_bool_json_inject [simp]: "opt_bool_json x = opt_bool_json y \<longleftrightarrow> x = y"
  by (cases x; cases y) auto

lemma inj_map_iff: "inj f \<Longrightarrow> map f xs = map f ys \<longleftrightarrow> xs = ys"
  by (simp add: inj_map_eq_map)

lemma strs_json_inject [simp]: "strs_json xs = strs_json ys \<longleftrightarrow> xs = ys"
  by (simp add: strs_json_def inj_map_iff inj_def)

text \<open>\<open>rfc8785.dumps\<close> and \<open>blake3\<close> are third-party code: whatever hashes or measures a value
  takes the digest function \<open>json \<Rightarrow> string\<close> or the size function \<open>json \<Rightarrow> nat option\<close> as an
  argument (\<open>None\<close> is \<open>rfc8785.CanonicalizationError\<close>).\<close>

type_synonym digest_fun = "json \<Rightarrow> string"

type_synonym size_fun = "json \<Rightarrow> nat option"

text \<open>An explicit pair of values a hash maps to the same digest.\<close>

definition collision :: "digest_fun \<Rightarrow> json \<Rightarrow> json \<Rightarrow> bool" where
  "collision H a b \<longleftrightarrow> a \<noteq> b \<and> H a = H b"

end
