(* ===== verification/Models.thy ===== *)
theory Models
  imports Json
begin

text \<open>
  The value types of \<open>src/gymact/models.py\<close> and \<open>src/gymact/limits.py\<close>: enumerations with
  their wire values, the frozen models as records, the model validators as functions that
  return the error they raise, and the JSON form \<open>model_dump(mode="json")\<close> gives a receipt.
  A field keeps its Python name behind a prefix that names its class, because several
  classes share field names (\<open>rc_episode_id\<close> is \<open>Receipt.episode_id\<close>).
\<close>

section \<open>Enumerations\<close>

datatype standing =
    UNKNOWN | CANDIDATE | STRUCTURAL | PARTIAL_ALIVE | ALIVE | ADOPTED | BLOCKED
  | BUILD_BROKEN | UNSUPPORTED | REQUIRES_CONFIGURATION | REFUSED | UNCERTAIN | STALE

datatype consequence = CONS_READ | CONS_DO

datatype operation =
    DISCOVER | MATERIALIZE | OBSERVE | ACT | VERIFY | CHECKPOINT | RESTORE | TEARDOWN

fun standing_value :: "standing \<Rightarrow> string" where
  "standing_value UNKNOWN = ''UNKNOWN''"
| "standing_value CANDIDATE = ''CANDIDATE''"
| "standing_value STRUCTURAL = ''STRUCTURAL''"
| "standing_value PARTIAL_ALIVE = ''PARTIAL_ALIVE''"
| "standing_value ALIVE = ''ALIVE''"
| "standing_value ADOPTED = ''ADOPTED''"
| "standing_value BLOCKED = ''BLOCKED''"
| "standing_value BUILD_BROKEN = ''BUILD_BROKEN''"
| "standing_value UNSUPPORTED = ''UNSUPPORTED''"
| "standing_value REQUIRES_CONFIGURATION = ''REQUIRES_CONFIGURATION''"
| "standing_value REFUSED = ''REFUSED''"
| "standing_value UNCERTAIN = ''UNCERTAIN''"
| "standing_value STALE = ''STALE''"

fun operation_value :: "operation \<Rightarrow> string" where
  "operation_value DISCOVER = ''discover''"
| "operation_value MATERIALIZE = ''materialize''"
| "operation_value OBSERVE = ''observe''"
| "operation_value ACT = ''act''"
| "operation_value VERIFY = ''verify''"
| "operation_value CHECKPOINT = ''checkpoint''"
| "operation_value RESTORE = ''restore''"
| "operation_value TEARDOWN = ''teardown''"

lemma standing_value_inject [simp]: "standing_value s = standing_value t \<longleftrightarrow> s = t"
  by (cases s; cases t) simp_all

lemma operation_value_inject [simp]: "operation_value s = operation_value t \<longleftrightarrow> s = t"
  by (cases s; cases t) simp_all

text \<open>A \<open>StrEnum\<close> is a string: \<open>sorted\<close> on operations orders them by their values.\<close>

instantiation operation :: linorder
begin

definition less_eq_operation :: "operation \<Rightarrow> operation \<Rightarrow> bool" where
  "less_eq_operation a b \<longleftrightarrow> operation_value a \<le> operation_value b"

definition less_operation :: "operation \<Rightarrow> operation \<Rightarrow> bool" where
  "less_operation a b \<longleftrightarrow> operation_value a < operation_value b"

instance
  by standard
    (auto simp: less_eq_operation_def less_operation_def less_le_not_le dest: antisym)

end

section \<open>Limits\<close>

record runtime_limits =
  max_input_bytes :: nat
  max_state_bytes :: nat
  max_checkpoint_bytes :: nat

definition default_limits :: runtime_limits where
  "default_limits =
     \<lparr>max_input_bytes = 1048576, max_state_bytes = 8388608, max_checkpoint_bytes = 8388608\<rparr>"

definition limits_valid :: "runtime_limits \<Rightarrow> bool" where
  "limits_valid l \<longleftrightarrow>
     1024 \<le> max_input_bytes l \<and> max_input_bytes l \<le> 64 * 1024 * 1024 \<and>
     1024 \<le> max_state_bytes l \<and> max_state_bytes l \<le> 256 * 1024 * 1024 \<and>
     1024 \<le> max_checkpoint_bytes l \<and> max_checkpoint_bytes l \<le> 256 * 1024 * 1024"

lemma default_limits_valid [simp]: "limits_valid default_limits"
  by (simp add: limits_valid_def default_limits_def)

section \<open>Models\<close>

datatype cost_kind = Declared_estimate | Observed_actual

record cost_dimension =
  cd_unit :: string
  cd_quantity :: rat
  cd_kind :: cost_kind
  cd_source :: string

record capability =
  cap_iri :: string
  cap_title :: string
  cap_consequence :: consequence
  cap_binding :: string
  cap_costs :: "cost_dimension list"

record episode =
  ep_episode_id :: string
  ep_provider :: string
  ep_environment_id :: string
  ep_scenario :: "string option"
  ep_standing :: standing

record observation =
  ob_episode_id :: string
  ob_state :: dict
  ob_state_digest :: string

record authority_request =
  aq_episode_id :: string
  aq_subject_ref :: string
  aq_operation :: operation
  aq_capability_ref :: string
  aq_payload :: dict
  aq_authority_ref :: "string option"
  aq_principal :: "string option"

record authority_decision =
  ad_admitted :: bool
  ad_reason :: string
  ad_evidence_ref :: "string option"

record materialization_intent =
  mi_provider :: string
  mi_scenario :: "string option"
  mi_config :: dict
  mi_authority_ref :: "string option"
  mi_principal :: "string option"
  mi_idempotency_key :: string

record actuation_intent =
  ai_episode_id :: string
  ai_capability :: string
  ai_payload :: dict
  ai_authority_ref :: "string option"
  ai_principal :: "string option"
  ai_planning_provenance_digest :: "string option"
  ai_idempotency_key :: string

record verification_result =
  vr_verification_id :: string
  vr_episode_id :: string
  vr_passed :: bool
  vr_expected :: dict
  vr_observed :: dict
  vr_state_digest :: string

record receipt =
  rc_receipt_id :: string
  rc_occurred_at :: string
  rc_episode_id :: string
  rc_operation :: operation
  rc_standing :: standing
  rc_subject_ref :: "string option"
  rc_capability_ref :: "string option"
  rc_authority_ref :: "string option"
  rc_authority_evidence_ref :: "string option"
  rc_principal :: "string option"
  rc_delegated_principal :: "string option"
  rc_policy_revision :: "string option"
  rc_intended_effects :: "dict list"
  rc_idempotency_key :: "string option"
  rc_planning_provenance_digest :: "string option"
  rc_pre_state_digest :: "string option"
  rc_post_state_digest :: "string option"
  rc_acknowledgement_status :: "string option"
  rc_world_changed :: "bool option"
  rc_verification_id :: "string option"
  rc_verified :: "bool option"
  rc_observation_confidence :: "string option"
  rc_possibility_graph_digest :: "string option"
  rc_possibility_exploration_digest :: "string option"
  rc_possibility_path_id :: "string option"
  rc_possibility_morphism_id :: "string option"
  rc_selection_digest :: "string option"
  rc_selection_basis_refs :: "string list"
  rc_parent_receipt_ids :: "string list"
  rc_error_digest :: "string option"
  rc_reason :: "string option"
  rc_costs :: "cost_dimension list"

record materialization_result =
  mr_accepted :: bool
  mr_standing :: standing
  mr_episode :: "episode option"
  mr_observation :: "observation option"
  mr_receipt :: receipt

record actuation_result =
  ar_accepted :: bool
  ar_standing :: standing
  ar_effect :: "dict option"
  ar_observation :: "observation option"
  ar_receipt :: receipt

text \<open>
  \<open>Receipt(...)\<close> with the two fields that come from default factories (a fresh uuid and the
  current time) and the three required ones; every other field has its declared default
  and the call sites set what they pass with a record update.
\<close>

definition new_receipt :: "string \<Rightarrow> string \<Rightarrow> string \<Rightarrow> operation \<Rightarrow> standing \<Rightarrow> receipt" where
  "new_receipt rid now eid op st =
     \<lparr>rc_receipt_id = rid, rc_occurred_at = now, rc_episode_id = eid, rc_operation = op,
      rc_standing = st, rc_subject_ref = None, rc_capability_ref = None,
      rc_authority_ref = None, rc_authority_evidence_ref = None, rc_principal = None,
      rc_delegated_principal = None, rc_policy_revision = None, rc_intended_effects = [],
      rc_idempotency_key = None, rc_planning_provenance_digest = None,
      rc_pre_state_digest = None, rc_post_state_digest = None,
      rc_acknowledgement_status = None, rc_world_changed = None, rc_verification_id = None,
      rc_verified = None, rc_observation_confidence = None,
      rc_possibility_graph_digest = None, rc_possibility_exploration_digest = None,
      rc_possibility_path_id = None, rc_possibility_morphism_id = None,
      rc_selection_digest = None, rc_selection_basis_refs = [], rc_parent_receipt_ids = [],
      rc_error_digest = None, rc_reason = None, rc_costs = []\<rparr>"

section \<open>Validators\<close>

text \<open>\<open>Receipt.combinatorial_binding_is_atomic\<close>.\<close>

definition receipt_core :: "receipt \<Rightarrow> string option list" where
  "receipt_core r =
     [rc_possibility_graph_digest r, rc_possibility_exploration_digest r,
      rc_possibility_path_id r, rc_possibility_morphism_id r, rc_selection_digest r]"

definition combinatorial_binding_is_atomic :: "receipt \<Rightarrow> receipt res" where
  "combinatorial_binding_is_atomic r =
     (if list_ex (\<lambda>x. x \<noteq> None) (receipt_core r) \<and> \<not> list_all (\<lambda>x. x \<noteq> None) (receipt_core r)
      then Inl (value_error ''INCOMPLETE_COMBINATORIAL_RECEIPT_BINDING'')
      else if rc_selection_basis_refs r \<noteq> [] \<and> rc_selection_digest r = None
      then Inl (value_error ''SELECTION_BASIS_REQUIRES_COMBINATORIAL_BINDING'')
      else if rc_receipt_id r \<in> set (rc_parent_receipt_ids r)
      then Inl (value_error ''PARENT_RECEIPT_SELF_REFERENCE'')
      else if \<not> distinct (rc_parent_receipt_ids r)
      then Inl (value_error ''PARENT_RECEIPT_IDS_DUPLICATE'')
      else Inr r)"

lemma combinatorial_binding_is_atomic_InrD:
  "combinatorial_binding_is_atomic r = Inr r' \<Longrightarrow>
     r' = r \<and>
     (rc_selection_digest r = None \<longleftrightarrow> rc_possibility_graph_digest r = None) \<and>
     (rc_selection_digest r = None \<longleftrightarrow> rc_possibility_exploration_digest r = None) \<and>
     (rc_selection_digest r = None \<longleftrightarrow> rc_possibility_path_id r = None) \<and>
     (rc_selection_digest r = None \<longleftrightarrow> rc_possibility_morphism_id r = None) \<and>
     (rc_selection_digest r = None \<longrightarrow> rc_selection_basis_refs r = []) \<and>
     rc_receipt_id r \<notin> set (rc_parent_receipt_ids r) \<and> distinct (rc_parent_receipt_ids r)"
  by (auto simp: combinatorial_binding_is_atomic_def receipt_core_def split: if_splits)

text \<open>A receipt that binds no selection and names no parent passes the validator.\<close>

lemma combinatorial_binding_is_atomic_plain:
  "receipt_core r = [None, None, None, None, None] \<Longrightarrow> rc_selection_basis_refs r = [] \<Longrightarrow>
   rc_parent_receipt_ids r = [] \<Longrightarrow> combinatorial_binding_is_atomic r = Inr r"
  by (simp add: combinatorial_binding_is_atomic_def)

text \<open>\<open>CanonicalInputModel.require_canonical_json\<close>: the input must have an RFC 8785 form.\<close>

definition require_canonical_json :: "size_fun \<Rightarrow> json \<Rightarrow> unit res" where
  "require_canonical_json size_of v =
     (case size_of v of
        None \<Rightarrow> Inl (value_error ''INPUT_NOT_RFC8785_CANONICAL'')
      | Some _ \<Rightarrow> Inr ())"

section \<open>JSON forms\<close>

fun cost_kind_value :: "cost_kind \<Rightarrow> string" where
  "cost_kind_value Declared_estimate = ''declared_estimate''"
| "cost_kind_value Observed_actual = ''observed_actual''"

definition cost_json :: "cost_dimension \<Rightarrow> json" where
  "cost_json c =
     JObj [(''unit'', JStr (cd_unit c)), (''quantity'', JFloat (cd_quantity c)),
       (''kind'', JStr (cost_kind_value (cd_kind c))), (''source'', JStr (cd_source c))]"

definition receipt_json :: "receipt \<Rightarrow> json" where
  "receipt_json r =
     JObj [(''receipt_id'', JStr (rc_receipt_id r)),
       (''occurred_at'', JStr (rc_occurred_at r)),
       (''episode_id'', JStr (rc_episode_id r)),
       (''operation'', JStr (operation_value (rc_operation r))),
       (''standing'', JStr (standing_value (rc_standing r))),
       (''subject_ref'', opt_json (rc_subject_ref r)),
       (''capability_ref'', opt_json (rc_capability_ref r)),
       (''authority_ref'', opt_json (rc_authority_ref r)),
       (''authority_evidence_ref'', opt_json (rc_authority_evidence_ref r)),
       (''principal'', opt_json (rc_principal r)),
       (''delegated_principal'', opt_json (rc_delegated_principal r)),
       (''policy_revision'', opt_json (rc_policy_revision r)),
       (''intended_effects'', JArr (map JObj (rc_intended_effects r))),
       (''idempotency_key'', opt_json (rc_idempotency_key r)),
       (''planning_provenance_digest'', opt_json (rc_planning_provenance_digest r)),
       (''pre_state_digest'', opt_json (rc_pre_state_digest r)),
       (''post_state_digest'', opt_json (rc_post_state_digest r)),
       (''acknowledgement_status'', opt_json (rc_acknowledgement_status r)),
       (''world_changed'', opt_bool_json (rc_world_changed r)),
       (''verification_id'', opt_json (rc_verification_id r)),
       (''verified'', opt_bool_json (rc_verified r)),
       (''observation_confidence'', opt_json (rc_observation_confidence r)),
       (''possibility_graph_digest'', opt_json (rc_possibility_graph_digest r)),
       (''possibility_exploration_digest'', opt_json (rc_possibility_exploration_digest r)),
       (''possibility_path_id'', opt_json (rc_possibility_path_id r)),
       (''possibility_morphism_id'', opt_json (rc_possibility_morphism_id r)),
       (''selection_digest'', opt_json (rc_selection_digest r)),
       (''selection_basis_refs'', strs_json (rc_selection_basis_refs r)),
       (''parent_receipt_ids'', strs_json (rc_parent_receipt_ids r)),
       (''error_digest'', opt_json (rc_error_digest r)),
       (''reason'', opt_json (rc_reason r)),
       (''costs'', JArr (map cost_json (rc_costs r)))]"

definition actuation_intent_json :: "actuation_intent \<Rightarrow> json" where
  "actuation_intent_json i =
     JObj [(''episode_id'', JStr (ai_episode_id i)), (''capability'', JStr (ai_capability i)),
       (''payload'', JObj (ai_payload i)), (''authority_ref'', opt_json (ai_authority_ref i)),
       (''principal'', opt_json (ai_principal i)),
       (''planning_provenance_digest'', opt_json (ai_planning_provenance_digest i)),
       (''idempotency_key'', JStr (ai_idempotency_key i)), (''operation'', JStr ''act'')]"

definition materialization_intent_json :: "materialization_intent \<Rightarrow> json" where
  "materialization_intent_json i =
     JObj [(''provider'', JStr (mi_provider i)), (''scenario'', opt_json (mi_scenario i)),
       (''config'', JObj (mi_config i)), (''authority_ref'', opt_json (mi_authority_ref i)),
       (''principal'', opt_json (mi_principal i)),
       (''idempotency_key'', JStr (mi_idempotency_key i)),
       (''operation'', JStr ''materialize'')]"

lemma cost_kind_value_inject [simp]: "cost_kind_value a = cost_kind_value b \<longleftrightarrow> a = b"
  by (cases a; cases b) simp_all

lemma inj_cost_json: "inj cost_json"
  by (auto simp: inj_def cost_json_def intro: cost_dimension.equality)

lemma receipt_json_inject [simp]: "receipt_json r = receipt_json s \<longleftrightarrow> r = s"
proof
  assume "receipt_json r = receipt_json s"
  then show "r = s"
    by (intro receipt.equality)
      (simp_all add: receipt_json_def inj_map_iff inj_cost_json inj_def [of JObj])
qed simp

lemma actuation_intent_json_inject [simp]:
  "actuation_intent_json i = actuation_intent_json j \<longleftrightarrow> i = j"
  by (auto simp: actuation_intent_json_def intro: actuation_intent.equality)

lemma materialization_intent_json_inject [simp]:
  "materialization_intent_json i = materialization_intent_json j \<longleftrightarrow> i = j"
  by (auto simp: materialization_intent_json_def intro: materialization_intent.equality)

end
