(* ===== verification/Evidence.thy ===== *)
theory Evidence
  imports Models
begin

text \<open>
  The receipt ledger of \<open>src/gymact/evidence.py\<close>: \<open>MemoryReceiptLedger\<close>, a hash chain of
  receipts with two indexes. The digest (BLAKE3 over RFC 8785, both third-party) is the
  argument \<open>H\<close> of every definition. The locale \<open>receipt_ledger\<close> is the \<open>ReceiptLedger\<close>
  protocol the kernel calls, with the promises the kernel relies on; it is interpreted on
  the in-memory ledger at the end.
\<close>

section \<open>Records and the chain\<close>

record evidence_record =
  er_sequence :: nat
  er_previous_digest :: "string option"
  er_receipt_digest :: string
  er_record_digest :: string
  er_receipt :: receipt

record memory_ledger =
  ml_records :: "evidence_record list"
  ml_by_receipt :: "string \<rightharpoonup> evidence_record"
  ml_by_idempotency_key :: "string \<rightharpoonup> evidence_record"

definition empty_ledger :: memory_ledger where
  "empty_ledger =
     \<lparr>ml_records = [], ml_by_receipt = (\<lambda>_. None), ml_by_idempotency_key = (\<lambda>_. None)\<rparr>"

definition same_intent :: "receipt \<Rightarrow> receipt \<Rightarrow> bool" where
  "same_intent a b \<longleftrightarrow>
     rc_episode_id a = rc_episode_id b \<and> rc_capability_ref a = rc_capability_ref b"

definition record_payload :: "nat \<Rightarrow> string option \<Rightarrow> string \<Rightarrow> json" where
  "record_payload sequence previous_digest receipt_digest =
     JObj [(''sequence'', JInt (int sequence)),
       (''previous_digest'', opt_json previous_digest),
       (''receipt_digest'', JStr receipt_digest)]"

definition record_digest :: "digest_fun \<Rightarrow> nat \<Rightarrow> string option \<Rightarrow> string \<Rightarrow> string" where
  "record_digest H sequence previous_digest receipt_digest =
     H (record_payload sequence previous_digest receipt_digest)"

text \<open>The record \<open>append\<close> builds for a receipt that is new to the ledger.\<close>

definition next_record :: "digest_fun \<Rightarrow> evidence_record list \<Rightarrow> receipt \<Rightarrow> evidence_record" where
  "next_record H records r =
     (let sequence = length records;
          previous = map_option er_record_digest (last_opt records);
          receipt_digest = H (receipt_json r)
      in \<lparr>er_sequence = sequence, er_previous_digest = previous,
          er_receipt_digest = receipt_digest,
          er_record_digest = record_digest H sequence previous receipt_digest,
          er_receipt = r\<rparr>)"

definition key_conflict :: "memory_ledger \<Rightarrow> receipt \<Rightarrow> bool" where
  "key_conflict led r =
     (case rc_idempotency_key r of
        None \<Rightarrow> False
      | Some key \<Rightarrow>
          (case ml_by_idempotency_key led key of
             None \<Rightarrow> False
           | Some key_prior \<Rightarrow> \<not> same_intent (er_receipt key_prior) r))"

definition ledger_append ::
    "digest_fun \<Rightarrow> memory_ledger \<Rightarrow> receipt \<Rightarrow> evidence_record res \<times> memory_ledger" where
  "ledger_append H led r =
     (case ml_by_receipt led (rc_receipt_id r) of
        Some prior \<Rightarrow>
          if er_receipt prior \<noteq> r then (Inl (value_error ''RECEIPT_ID_CONFLICT''), led)
          else (Inr prior, led)
      | None \<Rightarrow>
          if key_conflict led r
          then (Inl (value_error ''IDEMPOTENCY_KEY_REUSE_WITH_DIFFERENT_INTENT''), led)
          else
            (let record = next_record H (ml_records led) r
             in (Inr record,
                 \<lparr>ml_records = ml_records led @ [record],
                  ml_by_receipt = (ml_by_receipt led)(rc_receipt_id r \<mapsto> record),
                  ml_by_idempotency_key =
                    (case rc_idempotency_key r of
                       None \<Rightarrow> ml_by_idempotency_key led
                     | Some key \<Rightarrow>
                         (case ml_by_idempotency_key led key of
                            None \<Rightarrow> (ml_by_idempotency_key led)(key \<mapsto> record)
                          | Some _ \<Rightarrow> ml_by_idempotency_key led))\<rparr>)))"

definition ledger_find :: "memory_ledger \<Rightarrow> string \<Rightarrow> evidence_record option" where
  "ledger_find led receipt_id = ml_by_receipt led receipt_id"

text \<open>The loop of \<open>verify\<close>: the position and the previous record digest are its variables.\<close>

fun verify_from :: "digest_fun \<Rightarrow> nat \<Rightarrow> string option \<Rightarrow> evidence_record list \<Rightarrow> bool" where
  "verify_from H sequence previous [] = True"
| "verify_from H sequence previous (record # rest) =
     (if er_sequence record \<noteq> sequence \<or> er_previous_digest record \<noteq> previous then False
      else if er_receipt_digest record \<noteq> H (receipt_json (er_receipt record)) then False
      else if er_record_digest record \<noteq>
                record_digest H (er_sequence record) (er_previous_digest record)
                  (er_receipt_digest record) then False
      else verify_from H (Suc sequence) (Some (er_record_digest record)) rest)"

definition ledger_verify :: "digest_fun \<Rightarrow> memory_ledger \<Rightarrow> bool" where
  "ledger_verify H led = verify_from H 0 None (ml_records led)"

section \<open>Facts about the chain\<close>

abbreviation record_id :: "evidence_record \<Rightarrow> string" where
  "record_id e \<equiv> rc_receipt_id (er_receipt e)"

lemma record_payload_inject [simp]:
  "record_payload n p d = record_payload n' p' d' \<longleftrightarrow> n = n' \<and> p = p' \<and> d = d'"
  by (auto simp: record_payload_def)

definition chain_head :: "string option \<Rightarrow> evidence_record list \<Rightarrow> string option" where
  "chain_head previous records =
     (case last_opt records of None \<Rightarrow> previous | Some e \<Rightarrow> Some (er_record_digest e))"

lemma chain_head_simps [simp]:
  "chain_head p [] = p"
  "chain_head p (xs @ [x]) = Some (er_record_digest x)"
  "chain_head p (x # xs) = chain_head (Some (er_record_digest x)) xs"
  by (simp_all add: chain_head_def last_opt_def)

definition link_ok :: "digest_fun \<Rightarrow> nat \<Rightarrow> string option \<Rightarrow> evidence_record \<Rightarrow> bool" where
  "link_ok H n p x \<longleftrightarrow>
     er_sequence x = n \<and> er_previous_digest x = p \<and>
     er_receipt_digest x = H (receipt_json (er_receipt x)) \<and>
     er_record_digest x = record_digest H n p (er_receipt_digest x)"

lemma verify_from_append:
  "verify_from H n p (xs @ ys) \<longleftrightarrow>
     verify_from H n p xs \<and> verify_from H (n + length xs) (chain_head p xs) ys"
  by (induction xs arbitrary: n p) auto

lemma verify_from_single: "verify_from H n p [x] \<longleftrightarrow> link_ok H n p x"
  by (auto simp: link_ok_def)

lemma verify_from_snoc:
  "verify_from H n p (xs @ [x]) \<longleftrightarrow>
     verify_from H n p xs \<and> link_ok H (n + length xs) (chain_head p xs) x"
  by (simp only: verify_from_append verify_from_single)

lemma next_record_link:
  "link_ok H (length xs) (chain_head None xs) (next_record H xs r)"
  by (auto simp: link_ok_def next_record_def Let_def chain_head_def split: option.splits)

lemma next_record_receipt [simp]: "er_receipt (next_record H xs r) = r"
  by (simp add: next_record_def Let_def)

text \<open>Two links with the same record digest hold the same data, or a collision shows.\<close>

lemma link_ok_inject:
  assumes "link_ok H n p x" "link_ok H m q y" "er_record_digest x = er_record_digest y"
    and "\<nexists>a b. collision H a b"
  shows "x = y \<and> n = m \<and> p = q"
proof -
  have inj: "a = b" if "H a = H b" for a b
    using assms(4) that by (auto simp: collision_def)
  from assms(1-3) have "record_payload n p (er_receipt_digest x) =
      record_payload m q (er_receipt_digest y)"
    by (intro inj) (simp add: link_ok_def record_digest_def)
  then have eqs: "n = m" "p = q" "er_receipt_digest x = er_receipt_digest y" by auto
  with assms(1,2) have "receipt_json (er_receipt x) = receipt_json (er_receipt y)"
    by (intro inj) (simp add: link_ok_def)
  then have "er_receipt x = er_receipt y" by simp
  with assms(1-3) eqs show ?thesis
    by (auto simp: link_ok_def intro: evidence_record.equality)
qed

lemma verified_chains_equal:
  assumes "verify_from H 0 None xs" "verify_from H 0 None ys"
    and "chain_head None xs = chain_head None ys" "\<nexists>a b. collision H a b"
  shows "xs = ys"
  using assms(1-3)
proof (induction xs arbitrary: ys rule: rev_induct)
  case Nil
  then show ?case by (cases ys rule: rev_cases) auto
next
  case (snoc x xs)
  then obtain zs y where ys: "ys = zs @ [y]" by (cases ys rule: rev_cases) auto
  from snoc.prems ys have links:
    "link_ok H (length xs) (chain_head None xs) x" "link_ok H (length zs) (chain_head None zs) y"
    "er_record_digest x = er_record_digest y"
    by (auto simp: verify_from_snoc)
  from link_ok_inject [OF links assms(4)] have "x = y" "chain_head None xs = chain_head None zs"
    by auto
  moreover have "verify_from H 0 None xs" "verify_from H 0 None zs"
    using snoc.prems ys by (auto simp: verify_from_snoc)
  ultimately show ?case using snoc.IH [of zs] ys by simp
qed

section \<open>The representation invariant\<close>

text \<open>Every record under a key has the intent of the first record under that key.\<close>

definition keys_ok :: "memory_ledger \<Rightarrow> bool" where
  "keys_ok led \<longleftrightarrow>
     (\<forall>e \<in> set (ml_records led). \<forall>k. rc_idempotency_key (er_receipt e) = Some k \<longrightarrow>
        (\<exists>first. ml_by_idempotency_key led k = Some first \<and>
           same_intent (er_receipt first) (er_receipt e)))"

definition ledger_inv :: "digest_fun \<Rightarrow> memory_ledger \<Rightarrow> bool" where
  "ledger_inv H led \<longleftrightarrow>
     ledger_verify H led \<and> keys_ok led \<and>
     distinct (map record_id (ml_records led)) \<and>
     ml_by_receipt led = (\<lambda>i. find (\<lambda>e. record_id e = i) (ml_records led)) \<and>
     ml_by_idempotency_key led =
       (\<lambda>k. find (\<lambda>e. rc_idempotency_key (er_receipt e) = Some k) (ml_records led))"

lemma ledger_inv_empty [simp]: "ledger_inv H empty_ledger"
  by (simp add: ledger_inv_def empty_ledger_def ledger_verify_def keys_ok_def)

lemma ledger_inv_verify: "ledger_inv H led \<Longrightarrow> ledger_verify H led"
  by (simp add: ledger_inv_def)

lemma ledger_append_raises: "ledger_append H led r = (Inl e, led') \<Longrightarrow> led' = led"
  by (auto simp: ledger_append_def Let_def split: option.splits if_splits)

lemma ledger_append_returns:
  assumes "ledger_append H led r = (Inr e, led')"
  obtains (old) "ml_by_receipt led (rc_receipt_id r) = Some e" "er_receipt e = r" "led' = led"
    | (new) "ml_by_receipt led (rc_receipt_id r) = None" "\<not> key_conflict led r"
        "e = next_record H (ml_records led) r" "ml_records led' = ml_records led @ [e]"
        "ml_by_receipt led' = (ml_by_receipt led)(rc_receipt_id r \<mapsto> e)"
  using assms by (auto simp: ledger_append_def Let_def split: option.splits if_splits)

lemma keys_ok_append:
  assumes "keys_ok led" "ledger_append H led r = (x, led')"
  shows "keys_ok led'"
  using assms
  by (auto simp: keys_ok_def ledger_append_def Let_def key_conflict_def same_intent_def
      split: option.splits if_splits) fastforce+

lemma ledger_inv_append:
  assumes inv: "ledger_inv H led" and app: "ledger_append H led r = (x, led')"
  shows "ledger_inv H led'"
proof (cases x)
  case (Inl e)
  with app ledger_append_raises inv show ?thesis by blast
next
  case (Inr e)
  with app have app': "ledger_append H led r = (Inr e, led')" by simp
  then show ?thesis
  proof (cases rule: ledger_append_returns)
    case old
    with inv show ?thesis by simp
  next
    case new
    note byr = inv [unfolded ledger_inv_def, THEN conjunct2, THEN conjunct2, THEN conjunct2,
        THEN conjunct1]
    have rec: "er_receipt e = r" using new by simp
    have keys: "ml_by_idempotency_key led' =
        (\<lambda>k. find (\<lambda>e. rc_idempotency_key (er_receipt e) = Some k) (ml_records led'))"
      using app' new inv rec
      by (auto simp: ledger_append_def Let_def ledger_inv_def find_append fun_eq_iff
          split: option.splits)
    have "ledger_verify H led'"
      using inv new next_record_link [of H "ml_records led" r]
      by (simp add: ledger_inv_def ledger_verify_def verify_from_snoc)
    moreover have "record_id e \<notin> set (map record_id (ml_records led))"
      using new(1) byr rec by (auto simp: find_None_set)
    moreover have "ml_by_receipt led' = (\<lambda>i. find (\<lambda>e. record_id e = i) (ml_records led'))"
      using new byr rec by (auto simp: find_append fun_eq_iff split: option.splits)
    moreover have "keys_ok led'"
      using inv app by (auto simp: ledger_inv_def intro: keys_ok_append)
    ultimately show ?thesis
      using inv new keys by (simp add: ledger_inv_def)
  qed
qed

section \<open>The ledger protocol\<close>

locale receipt_ledger =
  fixes append :: "'l \<Rightarrow> receipt \<Rightarrow> evidence_record res \<times> 'l"
    and records :: "'l \<Rightarrow> evidence_record list"
    and verify :: "'l \<Rightarrow> bool"
    and lookup :: "'l \<Rightarrow> string \<Rightarrow> evidence_record option"
    and good :: "'l \<Rightarrow> bool"
  assumes good_append: "good l \<Longrightarrow> append l r = (x, l') \<Longrightarrow> good l'"
    and good_verify: "good l \<Longrightarrow> verify l"
    and good_lookup: "good l \<Longrightarrow> lookup l i = find (\<lambda>e. record_id e = i) (records l)"
    and append_raises: "append l r = (Inl err, l') \<Longrightarrow> l' = l"
    and append_returns: "good l \<Longrightarrow> append l r = (Inr e, l') \<Longrightarrow>
          er_receipt e = r \<and> e \<in> set (records l') \<and>
          (records l' = records l \<and> l' = l \<or> records l' = records l @ [e])"
    and append_again: "good l \<Longrightarrow> lookup l (rc_receipt_id r) = Some e \<Longrightarrow> er_receipt e = r \<Longrightarrow>
          append l r = (Inr e, l)"
begin

text \<open>Nothing an operation does removes or reorders evidence.\<close>

lemma append_only:
  assumes "good l" "append l r = (x, l')"
  shows "\<exists>suffix. records l' = records l @ suffix"
proof (cases x)
  case (Inl e)
  with assms append_raises show ?thesis by (metis append_Nil2)
next
  case (Inr e)
  with assms append_returns [of l r e l'] show ?thesis by auto
qed

lemma lookup_after_append:
  assumes "good l" "append l r = (Inr e, l')"
  shows "\<exists>e'. lookup l' (rc_receipt_id r) = Some e'"
proof -
  have "e \<in> set (records l')" "record_id e = rc_receipt_id r"
    using append_returns [OF assms] by auto
  then have "find (\<lambda>x. record_id x = rc_receipt_id r) (records l') \<noteq> None"
    by (auto simp: find_None_set)
  with good_lookup [OF good_append [OF assms]] show ?thesis by auto
qed

lemma lookup_stable:
  assumes "good l" "append l r = (x, l')" "lookup l i = Some e"
  shows "lookup l' i = Some e"
proof -
  obtain suffix where "records l' = records l @ suffix"
    using append_only [OF assms(1,2)] by blast
  with assms good_lookup [OF assms(1)] good_lookup [OF good_append [OF assms(1,2)]]
  show ?thesis by (simp add: find_append)
qed

text \<open>Recording a list of receipts one after the other, ignoring what is refused.\<close>

fun append_all :: "'l \<Rightarrow> receipt list \<Rightarrow> 'l" where
  "append_all l [] = l"
| "append_all l (r # rs) = append_all (snd (append l r)) rs"

lemma append_all_good: "good l \<Longrightarrow> good (append_all l rs)"
proof (induction rs arbitrary: l)
  case (Cons r rs)
  have "good (snd (append l r))"
    using good_append [OF Cons.prems] by (metis prod.collapse)
  with Cons.IH show ?case by simp
qed simp

lemma append_all_verifies: "good l \<Longrightarrow> verify (append_all l rs)"
  by (rule good_verify [OF append_all_good])

lemma append_all_lookup:
  "good l \<Longrightarrow> lookup l i = Some e \<Longrightarrow> lookup (append_all l rs) i = Some e"
proof (induction rs arbitrary: l)
  case (Cons r rs)
  obtain x l' where app: "append l r = (x, l')" by (cases "append l r")
  have "good l'" "lookup l' i = Some e"
    using good_append [OF Cons.prems(1) app] lookup_stable [OF Cons.prems(1) app Cons.prems(2)]
    by auto
  then have "lookup (append_all l' rs) i = Some e" by (rule Cons.IH)
  with app show ?case by simp
qed simp

end

interpretation memory: receipt_ledger "ledger_append H" ml_records "ledger_verify H" ledger_find
    "ledger_inv H" for H
proof
  fix l l' :: memory_ledger and r x
  assume "ledger_inv H l" "ledger_append H l r = (x, l')"
  then show "ledger_inv H l'" by (rule ledger_inv_append)
next
  fix l r e and l' :: memory_ledger
  assume inv: "ledger_inv H l" and app: "ledger_append H l r = (Inr e, l')"
  from app show "er_receipt e = r \<and> e \<in> set (ml_records l') \<and>
      (ml_records l' = ml_records l \<and> l' = l \<or> ml_records l' = ml_records l @ [e])"
  proof (cases rule: ledger_append_returns)
    case old
    moreover have "e \<in> set (ml_records l)"
      using old(1) inv by (auto simp: ledger_inv_def dest: find_SomeD)
    ultimately show ?thesis by simp
  qed auto
next
  fix l r e and l' :: memory_ledger
  show "ledger_append H l r = (Inl e, l') \<Longrightarrow> l' = l" by (rule ledger_append_raises)
qed (auto simp: ledger_inv_def ledger_find_def ledger_append_def)

lemmas ledger_rules =
  memory.good_append memory.append_raises memory.append_returns memory.lookup_stable

end
