(* ===== verification/Authority.thy ===== *)
theory Authority
  imports Models
begin

text \<open>
  The decision points the kernel consults: the authority resolvers of
  \<open>src/gymact/authority.py\<close> and the capability scopes of \<open>src/gymact/agent.py\<close>. A resolver
  is an injected object that may talk to the outside, so \<open>authorize\<close> acts on a world
  \<open>'w\<close> and may raise or time out. The locale \<open>authority_resolver\<close> states what the two
  bundled resolvers promise: nothing is admitted without an explicit, allowed reference.
\<close>

section \<open>Authority resolvers\<close>

definition deny_authorize :: "authority_request \<Rightarrow> 'w \<Rightarrow> authority_decision call \<times> 'w" where
  "deny_authorize request w =
     (if aq_authority_ref request = None
      then (Done \<lparr>ad_admitted = False, ad_reason = ''LIVE_AUTHORITY_REQUIRED'',
              ad_evidence_ref = None\<rparr>, w)
      else (Done \<lparr>ad_admitted = False, ad_reason = ''AUTHORITY_NOT_ADMITTED'',
              ad_evidence_ref = None\<rparr>, w))"

definition allow_list_authorize ::
    "string list \<Rightarrow> authority_request \<Rightarrow> 'w \<Rightarrow> authority_decision call \<times> 'w" where
  "allow_list_authorize allowed request w =
     (case aq_authority_ref request of
        None \<Rightarrow>
          (Done \<lparr>ad_admitted = False, ad_reason = ''LIVE_AUTHORITY_REQUIRED'',
             ad_evidence_ref = None\<rparr>, w)
      | Some ref \<Rightarrow>
          if ref \<notin> set allowed
          then (Done \<lparr>ad_admitted = False, ad_reason = ''AUTHORITY_NOT_ADMITTED'',
                  ad_evidence_ref = None\<rparr>, w)
          else (Done \<lparr>ad_admitted = True, ad_reason = ''AUTHORITY_ADMITTED'',
                  ad_evidence_ref = Some (''urn:gymact:authority-decision:'' @ ref)\<rparr>, w))"

locale authority_resolver =
  fixes authorize :: "authority_request \<Rightarrow> 'w \<Rightarrow> authority_decision call \<times> 'w"
    and allowed :: "string \<Rightarrow> bool"
  assumes admits_allowed: "authorize request w = (Done d, w') \<Longrightarrow> ad_admitted d \<Longrightarrow>
      \<exists>ref. aq_authority_ref request = Some ref \<and> allowed ref"
begin

lemma anonymous_not_admitted:
  "authorize request w = (Done d, w') \<Longrightarrow> aq_authority_ref request = None \<Longrightarrow> \<not> ad_admitted d"
  using admits_allowed by fastforce

end

interpretation deny: authority_resolver deny_authorize "\<lambda>_. False"
  by unfold_locales (auto simp: deny_authorize_def split: if_splits)

interpretation allow_list: authority_resolver "allow_list_authorize refs" "\<lambda>ref. ref \<in> set refs"
  for refs
  by unfold_locales (auto simp: allow_list_authorize_def split: option.splits if_splits)

section \<open>Capability scopes\<close>

type_synonym capability_scope = "string option \<Rightarrow> string \<Rightarrow> bool"

definition allow_all_permits :: capability_scope where
  "allow_all_permits caller capability_ref = True"

text \<open>
  \<open>AllowListCapabilityScope\<close>: a principal without an entry of its own falls back to the
  grants of \<open>None\<close>, and to nothing when there are none.
\<close>

definition allow_list_permits :: "(string option \<rightharpoonup> string list) \<Rightarrow> capability_scope" where
  "allow_list_permits grants caller capability_ref =
     (let allowed =
        (case grants caller of
           Some refs \<Rightarrow> refs
         | None \<Rightarrow> (case grants None of Some refs \<Rightarrow> refs | None \<Rightarrow> []))
      in capability_ref \<in> set allowed)"

lemma allow_list_permits_own [simp]:
  "grants p = Some refs \<Longrightarrow> allow_list_permits grants p c \<longleftrightarrow> c \<in> set refs"
  by (simp add: allow_list_permits_def)

lemma allow_list_permits_default:
  "grants p = None \<Longrightarrow>
   allow_list_permits grants p c \<longleftrightarrow> (\<exists>refs. grants None = Some refs \<and> c \<in> set refs)"
  by (cases "grants None") (simp_all add: allow_list_permits_def)

end
