(* ===== verification/Verification.thy ===== *)
theory Verification
  imports Models
begin

text \<open>
  Independent verification, \<open>src/gymact/verification.py\<close>: the recursive subset comparison
  \<open>_partial_match\<close>, the default judge \<open>DictSubsetVerifier\<close> built on it, and the relation
  \<open>subset_match\<close> that says what the judge decides. \<open>ShaclPostconditionVerifier\<close> is a thin
  call into pySHACL and is not modelled; any judge is a function
  \<open>dict \<Rightarrow> dict \<Rightarrow> bool \<times> string\<close> to the kernel.
\<close>

section \<open>The comparison and the judge\<close>

definition path_or_root :: "string \<Rightarrow> string" where
  "path_or_root path = (if path = [] then ''<root>'' else path)"

definition child_path :: "string \<Rightarrow> string \<Rightarrow> string" where
  "child_path path key = (if path = [] then key else path @ ''.'' @ key)"

fun is_object :: "json \<Rightarrow> bool" where
  "is_object (JObj _) = True"
| "is_object _ = False"

function (sequential) partial_match :: "json \<Rightarrow> json \<Rightarrow> string \<Rightarrow> string list" where
  "partial_match observed (JObj expected) path =
     (case observed of
        JObj obs \<Rightarrow>
          concat (map (\<lambda>(key, value).
            case map_of obs key of
              None \<Rightarrow> [child_path path key]
            | Some child \<Rightarrow> partial_match child value (child_path path key)) expected)
      | _ \<Rightarrow> [path_or_root path])"
| "partial_match observed expected path =
     (if py_eq observed expected then [] else [path_or_root path])"
  by pat_completeness auto
termination
  by (relation "measure (\<lambda>(_, expected, _). size expected)") (auto intro: size_json_value)

type_synonym judge = "dict \<Rightarrow> dict \<Rightarrow> bool \<times> string"

definition dict_subset_judge :: judge where
  "dict_subset_judge expected observed =
     (let mismatched = sort (partial_match (JObj observed) (JObj expected) [])
      in if mismatched \<noteq> [] then (False, ''VERIFY_MISMATCH:'' @ join '','' mismatched)
         else (True, ''VERIFIED:SUBSET_MATCH''))"

section \<open>What the judge decides\<close>

text \<open>
  \<open>subset_match expected observed\<close>: every key of an expected object is present in the
  observed object with a matching value; any other expected value must be equal.
\<close>

inductive subset_match :: "json \<Rightarrow> json \<Rightarrow> bool" where
  leaf: "\<not> is_object e \<Longrightarrow> py_eq obs e \<Longrightarrow> subset_match e obs"
| object: "(\<And>k v. (k, v) \<in> set es \<Longrightarrow> \<exists>w. map_of os k = Some w \<and> subset_match v w) \<Longrightarrow>
    subset_match (JObj es) (JObj os)"

inductive_cases subset_match_objectE: "subset_match (JObj es) obs"

inductive_simps subset_match_object [simp]: "subset_match (JObj es) (JObj os)"

lemma subset_match_leaf [simp]: "\<not> is_object e \<Longrightarrow> subset_match e obs \<longleftrightarrow> py_eq obs e"
  by (auto elim: subset_match.cases intro: subset_match.leaf)

lemma subset_match_object_leaf [simp]: "\<not> is_object obs \<Longrightarrow> \<not> subset_match (JObj es) obs"
  by (auto elim: subset_match_objectE)

lemma partial_match_iff: "partial_match obs e path = [] \<longleftrightarrow> subset_match e obs"
proof (induction obs e path rule: partial_match.induct)
  case (1 observed expected path)
  show ?case
  proof (cases observed)
    case (JObj os)
    have child: "(case map_of os k of None \<Rightarrow> [child_path path k]
          | Some w \<Rightarrow> partial_match w v (child_path path k)) = [] \<longleftrightarrow>
        (\<exists>w. map_of os k = Some w \<and> subset_match v w)" if "(k, v) \<in> set expected" for k v
      using "1.IH" [OF JObj that] by (auto split: option.splits)
    then show ?thesis
      by (auto simp: JObj)
  qed (auto simp: path_or_root_def)
qed (auto simp: path_or_root_def)

lemma dict_subset_judge_passes:
  "fst (dict_subset_judge expected observed) \<longleftrightarrow> subset_match (JObj expected) (JObj observed)"
proof -
  have "sort xs \<noteq> [] \<longleftrightarrow> xs \<noteq> []" for xs :: "string list"
    by (metis length_0_conv length_sort)
  then show ?thesis
    by (simp add: dict_subset_judge_def Let_def partial_match_iff del: partial_match.simps)
qed

text \<open>A state always satisfies itself, and the empty expectation holds of every state.\<close>

lemma subset_match_refl: "json_wf v \<Longrightarrow> subset_match v v"
proof (induction v)
  case (JObj xs)
  then show ?case
    by (fastforce simp: list_all_iff)
qed (simp_all add: py_eq_refl del: py_eq.simps)

end
