(* ===== verification/Providers.thy ===== *)
theory Providers
  imports Models
begin

text \<open>
  The provider interface and its reference implementation, \<open>src/gymact/providers.py\<close>.

  Environments are objects that only the runtime's calls and the outside world touch. The
  model keeps them in a world \<open>'w\<close> and passes handles \<open>'h\<close> (object references) around, so
  two episodes may share an environment and a call may change anything outside. A provider
  is a value \<open>'p\<close>. The record \<open>spi\<close> holds the methods of the two protocols; the locale
  \<open>recoverable_environment\<close> states what a well-behaved environment promises about its
  read-only calls and its checkpoints, and is interpreted on the in-memory environment.
\<close>

section \<open>The protocols\<close>

record ('p, 'h, 'w) spi =
  provider_name :: "'p \<Rightarrow> string"
  provider_requires_authority :: "'p \<Rightarrow> bool"
  provider_materialize :: "'p \<Rightarrow> string option \<Rightarrow> dict \<Rightarrow> 'w \<Rightarrow> 'h call \<times> 'w"
  env_id :: "'h \<Rightarrow> string"
  env_requires_authority :: "'h \<Rightarrow> bool"
  env_capabilities :: "'h \<Rightarrow> 'w \<Rightarrow> capability list res \<times> 'w"
  env_observe :: "'h \<Rightarrow> 'w \<Rightarrow> dict call \<times> 'w"
  env_actuate :: "'h \<Rightarrow> capability \<Rightarrow> dict \<Rightarrow> 'w \<Rightarrow> dict call \<times> 'w"
  env_verify :: "'h \<Rightarrow> dict \<Rightarrow> 'w \<Rightarrow> (bool \<times> dict) call \<times> 'w"
  env_checkpoint :: "'h \<Rightarrow> 'w \<Rightarrow> dict call \<times> 'w"
  env_restore :: "'h \<Rightarrow> dict \<Rightarrow> 'w \<Rightarrow> unit call \<times> 'w"
  env_teardown :: "'h \<Rightarrow> 'w \<Rightarrow> unit call \<times> 'w"

locale recoverable_environment =
  fixes spi :: "('p, 'h, 'w) spi"
  assumes observe_pure: "env_observe spi h w = (Done s, w') \<Longrightarrow> w' = w"
    and checkpoint_pure: "env_checkpoint spi h w = (Done c, w') \<Longrightarrow> w' = w"
    and restore_observe: "env_checkpoint spi h w = (Done c, w1) \<Longrightarrow>
          env_observe spi h w = (Done s, w2) \<Longrightarrow> env_restore spi h c w3 = (Done (), w4) \<Longrightarrow>
          env_observe spi h w4 = (Done s, w4)"

section \<open>The in-memory reference environment\<close>

definition memory_capabilities :: "capability list" where
  "memory_capabilities =
     [\<lparr>cap_iri = ''urn:gymact:memory:capability:set'',
        cap_title = ''Set a value in the bounded memory world. Payload: {\"key\": <str>, \"value\": <any>}.'',
        cap_consequence = CONS_DO, cap_binding = ''set'', cap_costs = []\<rparr>,
      \<lparr>cap_iri = ''urn:gymact:memory:capability:delete'',
        cap_title = ''Delete a value from the bounded memory world. Payload: {\"key\": <str>}.'',
        cap_consequence = CONS_DO, cap_binding = ''delete'', cap_costs = []\<rparr>,
      \<lparr>cap_iri = ''urn:gymact:memory:capability:increment'',
        cap_title = ''Increment a numeric value in the bounded memory world. '' @
          ''Payload: {\"key\": <str>, \"amount\": <number, default 1>}.'',
        cap_consequence = CONS_DO, cap_binding = ''increment'', cap_costs = []\<rparr>]"

record memory_environment =
  me_environment_id :: string
  me_requires_authority :: bool
  me_state :: dict
  me_closed :: bool

definition ensure_open :: "memory_environment \<Rightarrow> unit res" where
  "ensure_open env =
     (if me_closed env then Inl (Raised ''RuntimeError'' ''environment is torn down'') else Inr ())"

definition memory_observe :: "memory_environment \<Rightarrow> dict res" where
  "memory_observe env = bind_res (ensure_open env) (\<lambda>_. Inr (me_state env))"

text \<open>\<open>isinstance(v, (int, float)) and not isinstance(v, bool)\<close>, and \<open>+\<close> on such numbers.\<close>

fun is_number :: "json \<Rightarrow> bool" where
  "is_number (JInt _) = True"
| "is_number (JFloat _) = True"
| "is_number _ = False"

fun num_add :: "json \<Rightarrow> json \<Rightarrow> json" where
  "num_add (JInt a) (JInt b) = JInt (a + b)"
| "num_add (JInt a) (JFloat b) = JFloat (of_int a + b)"
| "num_add (JFloat a) (JInt b) = JFloat (a + of_int b)"
| "num_add (JFloat a) (JFloat b) = JFloat (a + b)"
| "num_add a _ = a"

text \<open>
  \<open>str(payload["key"])\<close>: the identity on strings; \<open>py_str\<close> is Python's \<open>str\<close> on other values.
\<close>

definition payload_key :: "(json \<Rightarrow> string) \<Rightarrow> dict \<Rightarrow> string res" where
  "payload_key py_str payload =
     (case map_of payload ''key'' of
        None \<Rightarrow> Inl (key_error (CHR 0x27 # ''key'' @ [CHR 0x27]))
      | Some (JStr s) \<Rightarrow> Inr s
      | Some v \<Rightarrow> Inr (py_str v))"

definition dict_value :: "dict \<Rightarrow> string \<Rightarrow> json \<Rightarrow> json" where
  "dict_value d key fallback = (case map_of d key of None \<Rightarrow> fallback | Some v \<Rightarrow> v)"

definition memory_increment :: "dict \<Rightarrow> string \<Rightarrow> json \<Rightarrow> dict res" where
  "memory_increment state key amount =
     (let current = dict_value state key (JInt 0)
      in if \<not> is_number current
         then Inl (Raised ''TypeError'' ''increment requires a numeric current value'')
         else if \<not> is_number amount
         then Inl (Raised ''TypeError'' ''increment requires a numeric amount'')
         else Inr (dict_set key (num_add current amount) state))"

definition memory_apply :: "(json \<Rightarrow> string) \<Rightarrow> string \<Rightarrow> dict \<Rightarrow> dict \<Rightarrow> dict res" where
  "memory_apply py_str binding payload state =
     (if binding = ''set'' then
        bind_res (payload_key py_str payload) (\<lambda>key.
          Inr (dict_set key (dict_value payload ''value'' JNull) state))
      else if binding = ''delete'' then
        bind_res (payload_key py_str payload) (\<lambda>key. Inr (dict_pop key state))
      else if binding = ''increment'' then
        bind_res (payload_key py_str payload) (\<lambda>key.
          memory_increment state key (dict_value payload ''amount'' (JInt 1)))
      else Inl (value_error (''unsupported provider binding: '' @ binding)))"

definition memory_actuate ::
    "(json \<Rightarrow> string) \<Rightarrow> capability \<Rightarrow> dict \<Rightarrow> memory_environment \<Rightarrow> dict res \<times> memory_environment" where
  "memory_actuate py_str cap payload env =
     (case ensure_open env of
        Inl e \<Rightarrow> (Inl e, env)
      | Inr _ \<Rightarrow>
          (let before = me_state env
           in case memory_apply py_str (cap_binding cap) payload before of
                Inl e \<Rightarrow> (Inl e, env)
              | Inr after \<Rightarrow>
                  (Inr [(''before'', JObj before), (''after'', JObj after),
                     (''capability'', JStr (cap_iri cap))],
                   env\<lparr>me_state := after\<rparr>)))"

text \<open>
  \<open>MemoryEnvironment.verify\<close> compares the top-level keys only; \<open>observed.get(key)\<close> is
  \<open>None\<close> for a missing key.
\<close>

definition memory_verify :: "dict \<Rightarrow> memory_environment \<Rightarrow> (bool \<times> dict) res" where
  "memory_verify expected env =
     bind_res (memory_observe env) (\<lambda>observed.
       Inr (list_all (\<lambda>(key, value). py_eq (dict_value observed key JNull) value) expected,
         observed))"

definition memory_checkpoint :: "memory_environment \<Rightarrow> dict res" where
  "memory_checkpoint env = bind_res (ensure_open env) (\<lambda>_. Inr (me_state env))"

definition memory_restore ::
    "dict \<Rightarrow> memory_environment \<Rightarrow> unit res \<times> memory_environment" where
  "memory_restore saved env =
     (case ensure_open env of
        Inl e \<Rightarrow> (Inl e, env)
      | Inr _ \<Rightarrow> (Inr (), env\<lparr>me_state := saved\<rparr>))"

definition memory_teardown :: "memory_environment \<Rightarrow> memory_environment" where
  "memory_teardown env = env\<lparr>me_closed := True\<rparr>"

section \<open>The in-memory provider over a world of environments\<close>

text \<open>
  The world holds the environments a provider has created, in creation order; a handle is
  an index together with the identity and the authority flag that \<open>__init__\<close> fixes. A
  handle without an environment cannot arise from the provider; every call on it raises.
\<close>

type_synonym memory_world = "memory_environment list"

record memory_handle =
  mh_index :: nat
  mh_environment_id :: string
  mh_requires_authority :: bool

definition memory_provider_materialize ::
    "(nat \<Rightarrow> string) \<Rightarrow> bool \<Rightarrow> string option \<Rightarrow> dict \<Rightarrow> memory_world \<Rightarrow>
       memory_handle call \<times> memory_world" where
  "memory_provider_materialize uuid requires_authority scenario config w =
     (case dict_value config ''initial'' (JObj []) of
        JObj initial \<Rightarrow>
          (case dict_value config ''requires_authority'' (JBool True) of
             JBool configured \<Rightarrow>
               (let eid = ''urn:gymact:memory:environment:'' @ uuid (length w);
                    required = (requires_authority \<or> configured)
                in (Done \<lparr>mh_index = length w, mh_environment_id = eid,
                          mh_requires_authority = required\<rparr>,
                    w @ [\<lparr>me_environment_id = eid, me_requires_authority = required,
                           me_state = initial, me_closed = False\<rparr>]))
           | _ \<Rightarrow>
               (Failed (Raised ''TypeError'' ''config.requires_authority must be a boolean''), w))
      | _ \<Rightarrow> (Failed (Raised ''TypeError'' ''config.initial must be an object''), w))"

definition call_of_res :: "'a res \<Rightarrow> 'a call" where
  "call_of_res r = (case r of Inl e \<Rightarrow> Failed e | Inr a \<Rightarrow> Done a)"

definition no_environment :: exn where
  "no_environment = Raised ''AttributeError'' ''no environment''"

definition on_memory :: "memory_handle \<Rightarrow> (memory_environment \<Rightarrow> 'a res \<times> memory_environment) \<Rightarrow>
    memory_world \<Rightarrow> 'a res \<times> memory_world" where
  "on_memory h f w =
     (if mh_index h < length w
      then (case f (w ! mh_index h) of (r, env) \<Rightarrow> (r, w[mh_index h := env]))
      else (Inl no_environment, w))"

definition memory_call :: "memory_handle \<Rightarrow> (memory_environment \<Rightarrow> 'a res \<times> memory_environment) \<Rightarrow>
    memory_world \<Rightarrow> 'a call \<times> memory_world" where
  "memory_call h f w = (case on_memory h f w of (r, w') \<Rightarrow> (call_of_res r, w'))"

definition memory_spi ::
    "(nat \<Rightarrow> string) \<Rightarrow> (json \<Rightarrow> string) \<Rightarrow> (bool, memory_handle, memory_world) spi" where
  "memory_spi uuid py_str =
     \<lparr>provider_name = (\<lambda>_. ''memory''),
      provider_requires_authority = (\<lambda>_. False),
      provider_materialize = memory_provider_materialize uuid,
      env_id = mh_environment_id,
      env_requires_authority = mh_requires_authority,
      env_capabilities = (\<lambda>h. on_memory h (\<lambda>env.
        (bind_res (ensure_open env) (\<lambda>_. Inr memory_capabilities), env))),
      env_observe = (\<lambda>h. memory_call h (\<lambda>env. (memory_observe env, env))),
      env_actuate = (\<lambda>h cap payload. memory_call h (memory_actuate py_str cap payload)),
      env_verify = (\<lambda>h expected. memory_call h (\<lambda>env. (memory_verify expected env, env))),
      env_checkpoint = (\<lambda>h. memory_call h (\<lambda>env. (memory_checkpoint env, env))),
      env_restore = (\<lambda>h saved. memory_call h (memory_restore saved)),
      env_teardown = (\<lambda>h. memory_call h (\<lambda>env. (Inr (), memory_teardown env)))\<rparr>"

section \<open>Facts about the in-memory environment\<close>

lemmas memory_defs =
  memory_call_def on_memory_def call_of_res_def memory_observe_def memory_checkpoint_def
  memory_restore_def ensure_open_def

lemma call_of_res_simps [simp]:
  "call_of_res (Inl e) = Failed e"
  "call_of_res (Inr a) = Done a"
  "call_of_res r = Done a \<longleftrightarrow> r = Inr a"
  "call_of_res r \<noteq> Late"
  by (auto simp: call_of_res_def split: sum.splits)

text \<open>A failing actuation leaves the environment as it was.\<close>

lemma memory_actuate_raises: "memory_actuate py_str c p env = (Inl e, env') \<Longrightarrow> env' = env"
  by (auto simp: memory_actuate_def Let_def split: sum.splits)

lemma memory_actuate_returns:
  assumes "memory_actuate py_str c p env = (Inr effect, env')"
  shows "\<not> me_closed env \<and> env' = env\<lparr>me_state := me_state env'\<rparr> \<and>
    memory_apply py_str (cap_binding c) p (me_state env) = Inr (me_state env') \<and>
    effect = [(''before'', JObj (me_state env)), (''after'', JObj (me_state env')),
      (''capability'', JStr (cap_iri c))]"
  using assms
  by (auto simp: memory_actuate_def ensure_open_def Let_def split: sum.splits if_splits)

lemma memory_set_get:
  assumes "cap_binding c = ''set''" "map_of p ''key'' = Some (JStr k)" "\<not> me_closed env"
  shows "map_of (me_state (snd (memory_actuate py_str c p env))) k =
    Some (dict_value p ''value'' JNull)"
  using assms
  by (simp add: memory_actuate_def ensure_open_def memory_apply_def payload_key_def Let_def)

interpretation memory_env: recoverable_environment "memory_spi uuid py_str" for uuid py_str
  by unfold_locales
    (auto simp: memory_spi_def memory_defs split: if_splits)

end
