(* ===== verification/Kernel.thy ===== *)
theory Kernel
  imports Evidence Authority Verification Providers
begin

text \<open>
  The semantic kernel, class \<open>GymAct\<close> of \<open>src/gymact/kernel.py\<close> with the overrides of
  \<open>src/gymact/runtime.py\<close> that turn a canonicalisation failure into a boundary refusal.
  The object is the record \<open>gym\<close>; its injected collaborators are the record \<open>gym_config\<close>;
  every method is an action on \<open>gym\<close> (result, state left behind).

  Time is not modelled: \<open>_bounded\<close> sees whether the deadline passed (\<open>Late\<close>) in the outcome
  of the call. Fresh uuids and timestamps are drawn from the streams \<open>gc_uuid\<close> and
  \<open>gc_now\<close> at the position \<open>g_ticks\<close>. A method that takes an episode's lock is a definition
  over the captured episode state (\<open>act_locked\<close> and so on), so that a call which looked the
  episode up and then waited for the lock is that definition run on a later state.
\<close>

section \<open>Configuration and state\<close>

record ('p, 'h, 'w) gym_config =
  gc_digest :: digest_fun
  gc_size :: size_fun
  gc_uuid :: "nat \<Rightarrow> string"
  gc_now :: "nat \<Rightarrow> string"
  gc_limits :: runtime_limits
  gc_authorize :: "authority_request \<Rightarrow> 'w \<Rightarrow> authority_decision call \<times> 'w"
  gc_permits :: capability_scope
  gc_judge :: judge
  gc_profile_conforms :: "capability list \<Rightarrow> bool res"
  gc_spi :: "('p, 'h, 'w) spi"

record 'h episode_state =
  es_episode :: episode
  es_environment :: 'h

record actuation_record =
  xr_intent_digest :: string
  xr_result :: actuation_result

record materialization_record =
  yr_intent_digest :: string
  yr_result :: materialization_result

record ('p, 'h, 'w) gym =
  g_providers :: "(string \<times> 'p) list"
  g_episodes :: "string \<rightharpoonup> 'h episode_state"
  g_actuation_idempotency :: "string \<times> string \<rightharpoonup> actuation_record"
  g_materialization_idempotency :: "string \<rightharpoonup> materialization_record"
  g_teardown_receipts :: "string \<rightharpoonup> receipt"
  g_receipts :: "string \<Rightarrow> receipt list"
  g_ledger :: memory_ledger
  g_verifications :: "verification_result list"
  g_ticks :: nat
  g_world :: 'w

definition init_gym :: "'w \<Rightarrow> ('p, 'h, 'w) gym" where
  "init_gym w =
     \<lparr>g_providers = [], g_episodes = (\<lambda>_. None), g_actuation_idempotency = (\<lambda>_. None),
      g_materialization_idempotency = (\<lambda>_. None), g_teardown_receipts = (\<lambda>_. None),
      g_receipts = (\<lambda>_. []), g_ledger = empty_ledger, g_verifications = [], g_ticks = 0,
      g_world = w\<rparr>"

section \<open>Boundary checks\<close>

definition ensure_size :: "size_fun \<Rightarrow> nat \<Rightarrow> string \<Rightarrow> string \<Rightarrow> json \<Rightarrow> unit res" where
  "ensure_size size_of limit exceeded not_canonical v =
     (case size_of v of
        None \<Rightarrow> Inl (Boundary not_canonical)
      | Some n \<Rightarrow> if n > limit then Inl (Boundary exceeded) else Inr ())"

definition ensure_input :: "('p, 'h, 'w) gym_config \<Rightarrow> json \<Rightarrow> unit res" where
  "ensure_input cfg =
     ensure_size (gc_size cfg) (max_input_bytes (gc_limits cfg))
       ''INPUT_LIMIT_EXCEEDED'' ''INPUT_NOT_RFC8785_CANONICAL''"

definition ensure_state :: "('p, 'h, 'w) gym_config \<Rightarrow> json \<Rightarrow> unit res" where
  "ensure_state cfg =
     ensure_size (gc_size cfg) (max_state_bytes (gc_limits cfg))
       ''STATE_LIMIT_EXCEEDED'' ''STATE_NOT_RFC8785_CANONICAL''"

definition ensure_checkpoint :: "('p, 'h, 'w) gym_config \<Rightarrow> json \<Rightarrow> unit res" where
  "ensure_checkpoint cfg =
     ensure_size (gc_size cfg) (max_checkpoint_bytes (gc_limits cfg))
       ''CHECKPOINT_LIMIT_EXCEEDED'' ''CHECKPOINT_NOT_RFC8785_CANONICAL''"

definition error_digest :: "('p, 'h, 'w) gym_config \<Rightarrow> exn \<Rightarrow> string option" where
  "error_digest cfg e =
     (case e of
        Boundary code \<Rightarrow> None
      | Raised t m \<Rightarrow>
          Some (gc_digest cfg (JObj [(''type'', JStr t), (''message'', JStr m)])))"

fun error_reason :: "exn \<Rightarrow> string" where
  "error_reason (Boundary code) = code"
| "error_reason (Raised t m) = ''PROVIDER_ERROR:'' @ t"

text \<open>\<open>_bounded\<close>: a passed deadline, or a \<open>TimeoutError\<close> the call itself raised, is a boundary block.\<close>

definition bounded :: "string \<Rightarrow> ('w \<Rightarrow> 'a call \<times> 'w) \<Rightarrow> (('p, 'h, 'w) gym, 'a) action" where
  "bounded code call g =
     (case call (g_world g) of
        (outcome, w) \<Rightarrow>
          (case outcome of
             Done a \<Rightarrow> Inr a
           | Late \<Rightarrow> Inl (Boundary code)
           | Failed (Boundary c) \<Rightarrow> Inl (Boundary c)
           | Failed (Raised t m) \<Rightarrow>
               if t = ''TimeoutError'' then Inl (Boundary code) else Inl (Raised t m),
           g\<lparr>g_world := w\<rparr>))"

definition pure_res :: "'a res \<Rightarrow> ('s, 'a) action" where
  "pure_res r s = (r, s)"

section \<open>Recording\<close>

definition tick :: "('p, 'h, 'w) gym \<Rightarrow> ('p, 'h, 'w) gym" where
  "tick g = g\<lparr>g_ticks := Suc (g_ticks g)\<rparr>"

definition fresh_uuid :: "('p, 'h, 'w) gym_config \<Rightarrow> ('p, 'h, 'w) gym \<Rightarrow> string" where
  "fresh_uuid cfg g = gc_uuid cfg (g_ticks g)"

text \<open>A receipt minted now: the caller updates its fields and moves the clock on.\<close>

definition mint :: "('p, 'h, 'w) gym_config \<Rightarrow> ('p, 'h, 'w) gym \<Rightarrow> string \<Rightarrow> operation \<Rightarrow>
    standing \<Rightarrow> receipt" where
  "mint cfg g = new_receipt (gc_uuid cfg (g_ticks g)) (gc_now cfg (g_ticks g))"

definition record_receipt ::
    "('p, 'h, 'w) gym_config \<Rightarrow> receipt \<Rightarrow> (('p, 'h, 'w) gym, receipt) action" where
  "record_receipt cfg r g =
     (case ledger_append (gc_digest cfg) (g_ledger g) r of
        (Inl e, led) \<Rightarrow> (Inl e, g\<lparr>g_ledger := led\<rparr>)
      | (Inr _, led) \<Rightarrow>
          (Inr r, g\<lparr>g_ledger := led,
             g_receipts := (g_receipts g)
               (rc_episode_id r := g_receipts g (rc_episode_id r) @ [r])\<rparr>))"

definition episode_receipts :: "('p, 'h, 'w) gym \<Rightarrow> string \<Rightarrow> receipt list" where
  "episode_receipts g eid = g_receipts g eid"

definition materialization_result ::
    "('p, 'h, 'w) gym_config \<Rightarrow> string \<Rightarrow> string \<Rightarrow> bool \<Rightarrow> materialization_result \<Rightarrow>
       (('p, 'h, 'w) gym, materialization_result) action" where
  "materialization_result cfg intent_digest key cache result =
     bind_act (record_receipt cfg (mr_receipt result)) (\<lambda>_ g.
       (Inr result,
        if cache
        then g\<lparr>g_materialization_idempotency := (g_materialization_idempotency g)
                 (key \<mapsto> \<lparr>yr_intent_digest = intent_digest, yr_result = result\<rparr>)\<rparr>
        else g))"

definition actuation_result ::
    "('p, 'h, 'w) gym_config \<Rightarrow> string \<Rightarrow> string \<times> string \<Rightarrow> bool \<Rightarrow> actuation_result \<Rightarrow>
       (('p, 'h, 'w) gym, actuation_result) action" where
  "actuation_result cfg intent_digest key cache result =
     bind_act (record_receipt cfg (ar_receipt result)) (\<lambda>_ g.
       (Inr result,
        if cache
        then g\<lparr>g_actuation_idempotency := (g_actuation_idempotency g)
                 (key \<mapsto> \<lparr>xr_intent_digest = intent_digest, xr_result = result\<rparr>)\<rparr>
        else g))"

section \<open>Providers\<close>

definition register_provider ::
    "('p, 'h, 'w) gym_config \<Rightarrow> 'p \<Rightarrow> (('p, 'h, 'w) gym, unit) action" where
  "register_provider cfg provider g =
     (let name = provider_name (gc_spi cfg) provider
      in if name \<in> fst ` set (g_providers g)
         then (Inl (value_error (''provider already registered: '' @ name)), g)
         else (Inr (), g\<lparr>g_providers := g_providers g @ [(name, provider)]\<rparr>))"

definition discover :: "('p, 'h, 'w) gym \<Rightarrow> string list" where
  "discover g = sort (map fst (g_providers g))"

section \<open>Authority\<close>

definition authority_decision ::
    "('p, 'h, 'w) gym_config \<Rightarrow> bool \<Rightarrow> authority_request \<Rightarrow>
       (('p, 'h, 'w) gym, authority_decision) action" where
  "authority_decision cfg required request g =
     (if \<not> required
      then (Inr \<lparr>ad_admitted = True, ad_reason = ''AUTHORITY_NOT_REQUIRED'',
              ad_evidence_ref = None\<rparr>, g)
      else bounded ''AUTHORITY_TIMEOUT'' (gc_authorize cfg request) g)"

section \<open>Materialization\<close>

definition materialize_capability :: string where
  "materialize_capability = ''urn:gymact:operation:materialize''"

definition provider_subject :: "string \<Rightarrow> string" where
  "provider_subject name = ''urn:gymact:provider:'' @ name"

text \<open>
  Every refused or blocked exit of \<open>materialize\<close> after the cache lookup: mint the receipt
  with the fields of that exit, record it and cache the result under the key.
\<close>

definition materialize_refuse ::
    "('p, 'h, 'w) gym_config \<Rightarrow> materialization_intent \<Rightarrow> string \<Rightarrow> standing \<Rightarrow> string \<Rightarrow>
       string option \<Rightarrow> string option \<Rightarrow> string option \<Rightarrow> string \<Rightarrow>
       (('p, 'h, 'w) gym, materialization_result) action" where
  "materialize_refuse cfg intent episode_id st subject_ref authority_ref evidence_ref err reason g =
     (let r = (mint cfg g episode_id MATERIALIZE st)
            \<lparr>rc_subject_ref := Some subject_ref,
             rc_capability_ref := Some materialize_capability,
             rc_authority_ref := authority_ref,
             rc_authority_evidence_ref := evidence_ref,
             rc_idempotency_key := Some (mi_idempotency_key intent),
             rc_principal := mi_principal intent,
             rc_error_digest := err,
             rc_reason := Some reason\<rparr>
      in materialization_result cfg (gc_digest cfg (materialization_intent_json intent))
           (mi_idempotency_key intent) True
           \<lparr>mr_accepted = False, mr_standing = st, mr_episode = None, mr_observation = None,
            mr_receipt = r\<rparr> (tick g))"

text \<open>The same key was used before for another intent: refused, and not cached.\<close>

definition materialize_conflict ::
    "('p, 'h, 'w) gym_config \<Rightarrow> materialization_intent \<Rightarrow> materialization_record \<Rightarrow>
       (('p, 'h, 'w) gym, materialization_result) action" where
  "materialize_conflict cfg intent cached g =
     (let prior = mr_receipt (yr_result cached);
          r = (mint cfg g (rc_episode_id prior) MATERIALIZE REFUSED)
            \<lparr>rc_subject_ref := rc_subject_ref prior,
             rc_capability_ref := Some materialize_capability,
             rc_authority_ref := mi_authority_ref intent,
             rc_idempotency_key := Some (mi_idempotency_key intent),
             rc_principal := mi_principal intent,
             rc_reason := Some ''IDEMPOTENCY_KEY_CONFLICT''\<rparr>
      in materialization_result cfg (gc_digest cfg (materialization_intent_json intent))
           (mi_idempotency_key intent) False
           \<lparr>mr_accepted = False, mr_standing = REFUSED, mr_episode = None,
            mr_observation = None, mr_receipt = r\<rparr> (tick g))"

text \<open>\<open>profile.validate_capabilities\<close> runs pySHACL; the kernel only looks at \<open>conforms\<close>.\<close>

definition admit_capabilities ::
    "('p, 'h, 'w) gym_config \<Rightarrow> 'h \<Rightarrow> (('p, 'h, 'w) gym, unit) action" where
  "admit_capabilities cfg h g =
     (case env_capabilities (gc_spi cfg) h (g_world g) of
        (Inl e, w) \<Rightarrow> (Inl e, g\<lparr>g_world := w\<rparr>)
      | (Inr capabilities, w) \<Rightarrow>
          (case gc_profile_conforms cfg capabilities of
             Inl e \<Rightarrow> (Inl e, g\<lparr>g_world := w\<rparr>)
           | Inr conforms \<Rightarrow>
               if conforms then (Inr (), g\<lparr>g_world := w\<rparr>)
               else (Inl (value_error
                       ''provider capabilities do not conform to GymAct profile''),
                     g\<lparr>g_world := w\<rparr>)))"

definition observe_environment ::
    "('p, 'h, 'w) gym_config \<Rightarrow> 'h \<Rightarrow> (('p, 'h, 'w) gym, dict) action" where
  "observe_environment cfg h =
     bind_act (bounded ''OBSERVATION_TIMEOUT'' (env_observe (gc_spi cfg) h)) (\<lambda>value.
       bind_act (pure_res (ensure_state cfg (JObj value))) (\<lambda>_. pure_res (Inr value)))"

text \<open>
  The admission of a fresh environment (capabilities, first observation, state limit). Any
  failure tears the environment down, ignoring what the teardown raises, and is blocked.
\<close>

definition materialize_admit ::
    "('p, 'h, 'w) gym_config \<Rightarrow> materialization_intent \<Rightarrow> string \<Rightarrow> string option \<Rightarrow> 'h \<Rightarrow>
       (('p, 'h, 'w) gym, materialization_result) action" where
  "materialize_admit cfg intent episode_id evidence_ref h g =
     (case bind_act (admit_capabilities cfg h) (\<lambda>_. observe_environment cfg h) g of
        (Inl e, g1) \<Rightarrow>
          (let g2 = snd (bounded ''TEARDOWN_TIMEOUT'' (env_teardown (gc_spi cfg) h) g1);
               reason = (case e of Boundary code \<Rightarrow> code
                                 | Raised _ _ \<Rightarrow> ''ENVIRONMENT_ADMISSION_FAILED'')
           in materialize_refuse cfg intent episode_id BLOCKED (env_id (gc_spi cfg) h)
                (mi_authority_ref intent) evidence_ref (error_digest cfg e) reason g2)
      | (Inr initial_state, g1) \<Rightarrow>
          (let ep = \<lparr>ep_episode_id = episode_id, ep_provider = mi_provider intent,
                  ep_environment_id = env_id (gc_spi cfg) h,
                  ep_scenario = mi_scenario intent, ep_standing = ALIVE\<rparr>;
               obs = \<lparr>ob_episode_id = episode_id, ob_state = initial_state,
                  ob_state_digest = gc_digest cfg (JObj initial_state)\<rparr>;
               g2 = g1\<lparr>g_episodes := (g_episodes g1)
                  (episode_id \<mapsto> \<lparr>es_episode = ep, es_environment = h\<rparr>)\<rparr>;
               r = (mint cfg g2 episode_id MATERIALIZE ALIVE)
                 \<lparr>rc_subject_ref := Some (env_id (gc_spi cfg) h),
                  rc_capability_ref := Some materialize_capability,
                  rc_authority_ref := mi_authority_ref intent,
                  rc_authority_evidence_ref := evidence_ref,
                  rc_idempotency_key := Some (mi_idempotency_key intent),
                  rc_principal := mi_principal intent,
                  rc_post_state_digest := Some (ob_state_digest obs)\<rparr>
           in materialization_result cfg (gc_digest cfg (materialization_intent_json intent))
                (mi_idempotency_key intent) True
                \<lparr>mr_accepted = True, mr_standing = ALIVE, mr_episode = Some ep,
                 mr_observation = Some obs, mr_receipt = r\<rparr> (tick g2)))"

text \<open>The authority gate, then the provider's factory under its deadline.\<close>

definition materialize_with ::
    "('p, 'h, 'w) gym_config \<Rightarrow> materialization_intent \<Rightarrow> string \<Rightarrow> 'p \<Rightarrow>
       (('p, 'h, 'w) gym, materialization_result) action" where
  "materialize_with cfg intent episode_id provider g =
     (let subject_ref = provider_subject (mi_provider intent);
          refuse = materialize_refuse cfg intent episode_id
      in case authority_decision cfg (provider_requires_authority (gc_spi cfg) provider)
           \<lparr>aq_episode_id = episode_id, aq_subject_ref = subject_ref,
            aq_operation = MATERIALIZE, aq_capability_ref = materialize_capability,
            aq_payload = [(''scenario'', opt_json (mi_scenario intent)),
                          (''config'', JObj (mi_config intent))],
            aq_authority_ref = mi_authority_ref intent, aq_principal = None\<rparr> g of
        (Inl (Boundary code), g1) \<Rightarrow>
          refuse BLOCKED subject_ref (mi_authority_ref intent) None None code g1
      | (Inl (Raised t m), g1) \<Rightarrow> (Inl (Raised t m), g1)
      | (Inr authority, g1) \<Rightarrow>
          if \<not> ad_admitted authority
          then refuse REFUSED subject_ref (mi_authority_ref intent) (ad_evidence_ref authority)
                 None (ad_reason authority) g1
          else
            (case bounded ''MATERIALIZATION_TIMEOUT''
                    (provider_materialize (gc_spi cfg) provider (mi_scenario intent)
                      (mi_config intent)) g1 of
               (Inl e, g2) \<Rightarrow>
                 refuse BLOCKED subject_ref (mi_authority_ref intent)
                   (ad_evidence_ref authority) (error_digest cfg e) (error_reason e) g2
             | (Inr h, g2) \<Rightarrow>
                 materialize_admit cfg intent episode_id (ad_evidence_ref authority) h g2))"

definition materialize ::
    "('p, 'h, 'w) gym_config \<Rightarrow> materialization_intent \<Rightarrow>
       (('p, 'h, 'w) gym, materialization_result) action" where
  "materialize cfg intent g =
     (case g_materialization_idempotency g (mi_idempotency_key intent) of
        Some cached \<Rightarrow>
          if yr_intent_digest cached = gc_digest cfg (materialization_intent_json intent)
          then (Inr (yr_result cached), g)
          else materialize_conflict cfg intent cached g
      | None \<Rightarrow>
          (let episode_id = fresh_uuid cfg g; g1 = tick g;
               subject_ref = provider_subject (mi_provider intent)
           in case ensure_input cfg (JObj [(''scenario'', opt_json (mi_scenario intent)),
                       (''config'', JObj (mi_config intent))]) of
                Inl e \<Rightarrow>
                  materialize_refuse cfg intent episode_id REFUSED subject_ref None None None
                    (exn_code e) g1
              | Inr _ \<Rightarrow>
                  (case map_of (g_providers g1) (mi_provider intent) of
                     None \<Rightarrow>
                       materialize_refuse cfg intent episode_id UNSUPPORTED subject_ref
                         (mi_authority_ref intent) None None ''UNKNOWN_PROVIDER'' g1
                   | Some provider \<Rightarrow>
                       materialize_with cfg intent episode_id provider g1)))"

text \<open>
  \<open>create_episode\<close> builds the intent, whose validator wants a canonical form; an omitted key is
  a fresh uuid.
\<close>

definition create_episode ::
    "('p, 'h, 'w) gym_config \<Rightarrow> string \<Rightarrow> string option \<Rightarrow> dict option \<Rightarrow> string option \<Rightarrow>
       string option \<Rightarrow> (('p, 'h, 'w) gym, materialization_result) action" where
  "create_episode cfg provider scenario config authority_ref idempotency_key g =
     (let (key, g1) = (case idempotency_key of
            Some k \<Rightarrow> (k, g)
          | None \<Rightarrow> (fresh_uuid cfg g, tick g));
          intent = \<lparr>mi_provider = provider, mi_scenario = scenario,
            mi_config = (case config of None \<Rightarrow> [] | Some c \<Rightarrow> c),
            mi_authority_ref = authority_ref, mi_principal = None,
            mi_idempotency_key = key\<rparr>
      in bind_act (pure_res (require_canonical_json (gc_size cfg)
             (materialization_intent_json intent))) (\<lambda>_. materialize cfg intent) g1)"

section \<open>Reading an episode\<close>

definition episode_state ::
    "string \<Rightarrow> (('p, 'h, 'w) gym, 'h episode_state) action" where
  "episode_state episode_id g =
     (case g_episodes g episode_id of
        None \<Rightarrow> (Inl (key_error (''unknown episode: '' @ episode_id)), g)
      | Some st \<Rightarrow> (Inr st, g))"

definition observe_unlocked ::
    "('p, 'h, 'w) gym_config \<Rightarrow> 'h episode_state \<Rightarrow> (('p, 'h, 'w) gym, observation) action" where
  "observe_unlocked cfg st =
     bind_act (observe_environment cfg (es_environment st)) (\<lambda>value.
       pure_res (Inr \<lparr>ob_episode_id = ep_episode_id (es_episode st), ob_state = value,
         ob_state_digest = gc_digest cfg (JObj value)\<rparr>))"

definition capabilities ::
    "('p, 'h, 'w) gym_config \<Rightarrow> 'h episode_state \<Rightarrow>
       (('p, 'h, 'w) gym, capability list) action" where
  "capabilities cfg st g =
     (case env_capabilities (gc_spi cfg) (es_environment st) (g_world g) of
        (r, w) \<Rightarrow> (r, g\<lparr>g_world := w\<rparr>))"

text \<open>\<open>{item.iri: item for item in capabilities}.get(iri)\<close>: the last item of an iri wins.\<close>

definition capability_named :: "capability list \<Rightarrow> string \<Rightarrow> capability option" where
  "capability_named items iri = find (\<lambda>item. cap_iri item = iri) (rev items)"

definition observe ::
    "('p, 'h, 'w) gym_config \<Rightarrow> string \<Rightarrow> (('p, 'h, 'w) gym, observation) action" where
  "observe cfg episode_id = bind_act (episode_state episode_id) (observe_unlocked cfg)"

definition read ::
    "('p, 'h, 'w) gym_config \<Rightarrow> string \<Rightarrow> string \<Rightarrow> dict option \<Rightarrow>
       (('p, 'h, 'w) gym, dict) action" where
  "read cfg episode_id capability_ref payload =
     bind_act (episode_state episode_id) (\<lambda>st.
       bind_act (capabilities cfg st) (\<lambda>items.
         case capability_named items capability_ref of
           None \<Rightarrow> pure_res (Inl (value_error (''unknown capability: '' @ capability_ref)))
         | Some cap \<Rightarrow>
             if cap_consequence cap \<noteq> CONS_READ
             then pure_res (Inl (value_error ''DO_CAPABILITY_IS_NOT_A_READ''))
             else bounded ''READ_TIMEOUT''
               (env_actuate (gc_spi cfg) (es_environment st) cap
                 (case payload of None \<Rightarrow> [] | Some p \<Rightarrow> p))))"

section \<open>Actuation\<close>

text \<open>The receipt fields every exit of \<open>act\<close> after the first observation shares.\<close>

definition act_receipt ::
    "('p, 'h, 'w) gym_config \<Rightarrow> 'h episode_state \<Rightarrow> actuation_intent \<Rightarrow> ('p, 'h, 'w) gym \<Rightarrow>
       standing \<Rightarrow> observation \<Rightarrow> observation \<Rightarrow> receipt" where
  "act_receipt cfg st intent g stand before after =
     (mint cfg g (ai_episode_id intent) ACT stand)
       \<lparr>rc_subject_ref := Some (env_id (gc_spi cfg) (es_environment st)),
        rc_capability_ref := Some (ai_capability intent),
        rc_idempotency_key := Some (ai_idempotency_key intent),
        rc_principal := ai_principal intent,
        rc_pre_state_digest := Some (ob_state_digest before),
        rc_post_state_digest := Some (ob_state_digest after)\<rparr>"

text \<open>A refused, unsupported or blocked exit.\<close>

definition act_refuse ::
    "('p, 'h, 'w) gym_config \<Rightarrow> 'h episode_state \<Rightarrow> actuation_intent \<Rightarrow> bool \<Rightarrow> standing \<Rightarrow>
       observation \<Rightarrow> observation \<Rightarrow> string option \<Rightarrow> string option \<Rightarrow> string option \<Rightarrow> string \<Rightarrow>
       (('p, 'h, 'w) gym, actuation_result) action" where
  "act_refuse cfg st intent cache stand before after authority_ref evidence_ref err reason g =
     actuation_result cfg (gc_digest cfg (actuation_intent_json intent))
       (ai_episode_id intent, ai_idempotency_key intent) cache
       \<lparr>ar_accepted = False, ar_standing = stand, ar_effect = None,
        ar_observation = Some after,
        ar_receipt = (act_receipt cfg st intent g stand before after)
          \<lparr>rc_authority_ref := authority_ref, rc_authority_evidence_ref := evidence_ref,
           rc_error_digest := err, rc_reason := Some reason\<rparr>\<rparr>
       (tick g)"

text \<open>The provider call: actuate, check the effect's size, observe again.\<close>

definition act_attempt ::
    "('p, 'h, 'w) gym_config \<Rightarrow> 'h episode_state \<Rightarrow> actuation_intent \<Rightarrow> capability \<Rightarrow>
       (('p, 'h, 'w) gym, dict \<times> observation) action" where
  "act_attempt cfg st intent cap =
     bind_act (bounded ''ACTUATION_TIMEOUT''
         (env_actuate (gc_spi cfg) (es_environment st) cap (ai_payload intent))) (\<lambda>effect.
       bind_act (pure_res (ensure_state cfg (JObj effect))) (\<lambda>_.
         bind_act (observe_unlocked cfg st) (\<lambda>after. pure_res (Inr (effect, after)))))"

text \<open>
  The consequential part, reached only when every gate has admitted the intent. A failed
  attempt is observed again, falling back to the state before, and blocked.
\<close>

definition act_do ::
    "('p, 'h, 'w) gym_config \<Rightarrow> 'h episode_state \<Rightarrow> actuation_intent \<Rightarrow> capability \<Rightarrow>
       observation \<Rightarrow> string option \<Rightarrow> (('p, 'h, 'w) gym, actuation_result) action" where
  "act_do cfg st intent cap before evidence_ref g =
     (case act_attempt cfg st intent cap g of
        (Inl e, g1) \<Rightarrow>
          (case observe_unlocked cfg st g1 of
             (seen, g2) \<Rightarrow>
               (let after = (case seen of Inr obs \<Rightarrow> obs | Inl _ \<Rightarrow> before)
                in act_refuse cfg st intent True BLOCKED before after (ai_authority_ref intent)
                     evidence_ref (error_digest cfg e) (error_reason e) g2))
      | (Inr (effect, after), g1) \<Rightarrow>
          actuation_result cfg (gc_digest cfg (actuation_intent_json intent))
            (ai_episode_id intent, ai_idempotency_key intent) True
            \<lparr>ar_accepted = True, ar_standing = ALIVE, ar_effect = Some effect,
             ar_observation = Some after,
             ar_receipt = (act_receipt cfg st intent g1 ALIVE before after)
               \<lparr>rc_authority_ref := ai_authority_ref intent,
                rc_authority_evidence_ref := evidence_ref,
                rc_costs := map (\<lambda>c. c\<lparr>cd_kind := Observed_actual\<rparr>) (cap_costs cap)\<rparr>\<rparr>
            (tick g1))"

text \<open>The authority gate of a DO capability that is in scope.\<close>

definition act_authorize ::
    "('p, 'h, 'w) gym_config \<Rightarrow> 'h episode_state \<Rightarrow> actuation_intent \<Rightarrow> capability \<Rightarrow>
       observation \<Rightarrow> (('p, 'h, 'w) gym, actuation_result) action" where
  "act_authorize cfg st intent cap before g =
     (case authority_decision cfg (env_requires_authority (gc_spi cfg) (es_environment st))
           \<lparr>aq_episode_id = ai_episode_id intent,
            aq_subject_ref = env_id (gc_spi cfg) (es_environment st), aq_operation = ACT,
            aq_capability_ref = cap_iri cap, aq_payload = ai_payload intent,
            aq_authority_ref = ai_authority_ref intent, aq_principal = None\<rparr> g of
        (Inl (Boundary code), g1) \<Rightarrow>
          act_refuse cfg st intent True BLOCKED before before (ai_authority_ref intent) None
            None code g1
      | (Inl (Raised t m), g1) \<Rightarrow> (Inl (Raised t m), g1)
      | (Inr authority, g1) \<Rightarrow>
          if \<not> ad_admitted authority
          then act_refuse cfg st intent True REFUSED before before (ai_authority_ref intent)
                 (ad_evidence_ref authority) None (ad_reason authority) g1
          else act_do cfg st intent cap before (ad_evidence_ref authority) g1)"

text \<open>The semantic gates: the capability exists, is a DO, and is in the principal's scope.\<close>

definition act_gates ::
    "('p, 'h, 'w) gym_config \<Rightarrow> 'h episode_state \<Rightarrow> actuation_intent \<Rightarrow> observation \<Rightarrow>
       capability list \<Rightarrow> (('p, 'h, 'w) gym, actuation_result) action" where
  "act_gates cfg st intent before items g =
     (let refuse = (\<lambda>stand. act_refuse cfg st intent True stand before before
            (ai_authority_ref intent) None None)
      in case capability_named items (ai_capability intent) of
           None \<Rightarrow> refuse UNSUPPORTED ''UNKNOWN_CAPABILITY'' g
         | Some cap \<Rightarrow>
             if cap_consequence cap \<noteq> CONS_DO
             then refuse REFUSED ''READ_CAPABILITY_IS_NOT_ACTUATION'' g
             else if \<not> gc_permits cfg (ai_principal intent) (cap_iri cap)
             then refuse REFUSED ''CAPABILITY_NOT_IN_SCOPE'' g
             else act_authorize cfg st intent cap before g)"

definition act_fresh ::
    "('p, 'h, 'w) gym_config \<Rightarrow> 'h episode_state \<Rightarrow> actuation_intent \<Rightarrow> observation \<Rightarrow>
       (('p, 'h, 'w) gym, actuation_result) action" where
  "act_fresh cfg st intent before g =
     (case ensure_input cfg (JObj (ai_payload intent)) of
        Inl e \<Rightarrow>
          act_refuse cfg st intent True REFUSED before before None None None (exn_code e) g
      | Inr _ \<Rightarrow> bind_act (capabilities cfg st) (act_gates cfg st intent before) g)"

definition act_locked ::
    "('p, 'h, 'w) gym_config \<Rightarrow> 'h episode_state \<Rightarrow> actuation_intent \<Rightarrow>
       (('p, 'h, 'w) gym, actuation_result) action" where
  "act_locked cfg st intent g =
     (case g_actuation_idempotency g (ai_episode_id intent, ai_idempotency_key intent) of
        Some cached \<Rightarrow>
          if xr_intent_digest cached = gc_digest cfg (actuation_intent_json intent)
          then (Inr (xr_result cached), g)
          else bind_act (observe_unlocked cfg st) (\<lambda>before.
                 act_refuse cfg st intent False REFUSED before before (ai_authority_ref intent)
                   None None ''IDEMPOTENCY_KEY_CONFLICT'') g
      | None \<Rightarrow> bind_act (observe_unlocked cfg st) (act_fresh cfg st intent) g)"

definition act ::
    "('p, 'h, 'w) gym_config \<Rightarrow> actuation_intent \<Rightarrow>
       (('p, 'h, 'w) gym, actuation_result) action" where
  "act cfg intent =
     bind_act (episode_state (ai_episode_id intent)) (\<lambda>st. act_locked cfg st intent)"

section \<open>Verification\<close>

definition py_bool :: "bool \<Rightarrow> string" where
  "py_bool b = (if b then ''True'' else ''False'')"

definition verification_reason :: "bool \<Rightarrow> bool \<Rightarrow> string \<Rightarrow> string" where
  "verification_reason provider_passed passed reason =
     (if provider_passed \<noteq> passed
      then reason @ '';PROVIDER_VERIFY_DIVERGENCE:provider_reported='' @ py_bool provider_passed
      else reason)"

text \<open>The verdict is the injected judge's, on the state the kernel itself observed.\<close>

definition verify_verdict ::
    "('p, 'h, 'w) gym_config \<Rightarrow> 'h episode_state \<Rightarrow> string \<Rightarrow> dict \<Rightarrow> bool \<Rightarrow> dict \<Rightarrow>
       observation \<Rightarrow> (('p, 'h, 'w) gym, verification_result) action" where
  "verify_verdict cfg st episode_id expected provider_passed observed observation g =
     (let (passed, reason) = gc_judge cfg expected (ob_state observation);
          result = \<lparr>vr_verification_id = fresh_uuid cfg g, vr_episode_id = episode_id,
            vr_passed = passed, vr_expected = expected, vr_observed = observed,
            vr_state_digest = gc_digest cfg (JObj observed)\<rparr>;
          g1 = (tick g)\<lparr>g_verifications := g_verifications g @ [result]\<rparr>;
          r = (mint cfg g1 episode_id VERIFY (if passed then ALIVE else UNCERTAIN))
            \<lparr>rc_subject_ref := Some (env_id (gc_spi cfg) (es_environment st)),
             rc_verification_id := Some (vr_verification_id result),
             rc_verified := Some passed,
             rc_post_state_digest := Some (vr_state_digest result),
             rc_reason := Some (verification_reason provider_passed passed reason)\<rparr>
      in bind_act (record_receipt cfg r) (\<lambda>_. pure_res (Inr result)) (tick g1))"

definition verify_locked ::
    "('p, 'h, 'w) gym_config \<Rightarrow> 'h episode_state \<Rightarrow> string \<Rightarrow> dict \<Rightarrow>
       (('p, 'h, 'w) gym, verification_result) action" where
  "verify_locked cfg st episode_id expected =
     bind_act (bounded ''VERIFICATION_TIMEOUT''
         (env_verify (gc_spi cfg) (es_environment st) expected)) (\<lambda>(provider_passed, observed).
       bind_act (pure_res (ensure_state cfg (JObj observed))) (\<lambda>_.
         bind_act (observe_unlocked cfg st)
           (verify_verdict cfg st episode_id expected provider_passed observed)))"

definition verify ::
    "('p, 'h, 'w) gym_config \<Rightarrow> string \<Rightarrow> dict \<Rightarrow>
       (('p, 'h, 'w) gym, verification_result) action" where
  "verify cfg episode_id expected =
     bind_act (pure_res (ensure_input cfg (JObj expected))) (\<lambda>_.
       bind_act (episode_state episode_id) (\<lambda>st. verify_locked cfg st episode_id expected))"

section \<open>Recovery\<close>

definition checkpoint ::
    "('p, 'h, 'w) gym_config \<Rightarrow> string \<Rightarrow> (('p, 'h, 'w) gym, dict) action" where
  "checkpoint cfg episode_id =
     bind_act (episode_state episode_id) (\<lambda>st.
       bind_act (bounded ''CHECKPOINT_TIMEOUT''
           (env_checkpoint (gc_spi cfg) (es_environment st))) (\<lambda>saved.
         bind_act (pure_res (ensure_checkpoint cfg (JObj saved))) (\<lambda>_. pure_res (Inr saved))))"

text \<open>
  The receipts of \<open>restore\<close> and \<open>teardown\<close>; \<open>post\<close> is absent on the exits of \<open>teardown\<close>
  that follow the provider call.
\<close>

definition recovery_receipt ::
    "('p, 'h, 'w) gym_config \<Rightarrow> 'h episode_state \<Rightarrow> string \<Rightarrow> operation \<Rightarrow> string \<Rightarrow>
       string option \<Rightarrow> ('p, 'h, 'w) gym \<Rightarrow> standing \<Rightarrow> string option \<Rightarrow> observation \<Rightarrow>
       observation option \<Rightarrow> string option \<Rightarrow> string option \<Rightarrow> receipt" where
  "recovery_receipt cfg st episode_id op capability_ref authority_ref g stand evidence_ref
       before post err reason =
     (mint cfg g episode_id op stand)
       \<lparr>rc_subject_ref := Some (env_id (gc_spi cfg) (es_environment st)),
        rc_capability_ref := Some capability_ref,
        rc_authority_ref := authority_ref,
        rc_authority_evidence_ref := evidence_ref,
        rc_pre_state_digest := Some (ob_state_digest before),
        rc_post_state_digest := map_option ob_state_digest post,
        rc_error_digest := err,
        rc_reason := reason\<rparr>"

definition restore_capability :: string where
  "restore_capability = ''urn:gymact:operation:restore''"

definition teardown_capability :: string where
  "teardown_capability = ''urn:gymact:operation:teardown''"

definition restore_receipt ::
    "('p, 'h, 'w) gym_config \<Rightarrow> 'h episode_state \<Rightarrow> string \<Rightarrow> string option \<Rightarrow> standing \<Rightarrow>
       string option \<Rightarrow> observation \<Rightarrow> observation \<Rightarrow> string option \<Rightarrow> string option \<Rightarrow>
       (('p, 'h, 'w) gym, receipt) action" where
  "restore_receipt cfg st episode_id authority_ref stand evidence_ref before after err reason g =
     record_receipt cfg
       (recovery_receipt cfg st episode_id RESTORE restore_capability authority_ref g stand
          evidence_ref before (Some after) err reason) (tick g)"

definition restore_attempt ::
    "('p, 'h, 'w) gym_config \<Rightarrow> 'h episode_state \<Rightarrow> dict \<Rightarrow>
       (('p, 'h, 'w) gym, observation) action" where
  "restore_attempt cfg st saved =
     bind_act (bounded ''RESTORE_TIMEOUT'' (env_restore (gc_spi cfg) (es_environment st) saved))
       (\<lambda>_. observe_unlocked cfg st)"

definition restore_do ::
    "('p, 'h, 'w) gym_config \<Rightarrow> 'h episode_state \<Rightarrow> string \<Rightarrow> dict \<Rightarrow> string option \<Rightarrow>
       observation \<Rightarrow> string option \<Rightarrow> (('p, 'h, 'w) gym, receipt) action" where
  "restore_do cfg st episode_id saved authority_ref before evidence_ref g =
     (case restore_attempt cfg st saved g of
        (Inl e, g1) \<Rightarrow>
          (case observe_unlocked cfg st g1 of
             (seen, g2) \<Rightarrow>
               restore_receipt cfg st episode_id authority_ref BLOCKED evidence_ref before
                 (case seen of Inr obs \<Rightarrow> obs | Inl _ \<Rightarrow> before)
                 (error_digest cfg e) (Some (error_reason e)) g2)
      | (Inr after, g1) \<Rightarrow>
          restore_receipt cfg st episode_id authority_ref ALIVE evidence_ref before after
            None None g1)"

definition restore_fresh ::
    "('p, 'h, 'w) gym_config \<Rightarrow> 'h episode_state \<Rightarrow> string \<Rightarrow> dict \<Rightarrow> string option \<Rightarrow>
       observation \<Rightarrow> (('p, 'h, 'w) gym, receipt) action" where
  "restore_fresh cfg st episode_id saved authority_ref before g =
     (let refuse = (\<lambda>stand evidence_ref reason. restore_receipt cfg st episode_id authority_ref
            stand evidence_ref before before None (Some reason))
      in case ensure_checkpoint cfg (JObj saved) of
           Inl e \<Rightarrow> refuse REFUSED None (exn_code e) g
         | Inr _ \<Rightarrow>
             (case authority_decision cfg
                     (env_requires_authority (gc_spi cfg) (es_environment st))
                     \<lparr>aq_episode_id = episode_id,
                      aq_subject_ref = env_id (gc_spi cfg) (es_environment st),
                      aq_operation = RESTORE, aq_capability_ref = restore_capability,
                      aq_payload =
                        [(''checkpoint_digest'', JStr (gc_digest cfg (JObj saved)))],
                      aq_authority_ref = authority_ref, aq_principal = None\<rparr> g of
                (Inl (Boundary code), g1) \<Rightarrow> refuse BLOCKED None code g1
              | (Inl (Raised t m), g1) \<Rightarrow> (Inl (Raised t m), g1)
              | (Inr authority, g1) \<Rightarrow>
                  if \<not> ad_admitted authority
                  then refuse REFUSED (ad_evidence_ref authority) (ad_reason authority) g1
                  else restore_do cfg st episode_id saved authority_ref before
                         (ad_evidence_ref authority) g1))"

definition restore ::
    "('p, 'h, 'w) gym_config \<Rightarrow> string \<Rightarrow> dict \<Rightarrow> string option \<Rightarrow>
       (('p, 'h, 'w) gym, receipt) action" where
  "restore cfg episode_id saved authority_ref =
     bind_act (episode_state episode_id) (\<lambda>st.
       bind_act (observe_unlocked cfg st)
         (restore_fresh cfg st episode_id saved authority_ref))"

section \<open>Teardown\<close>

definition teardown_receipt ::
    "('p, 'h, 'w) gym_config \<Rightarrow> 'h episode_state \<Rightarrow> string \<Rightarrow> string option \<Rightarrow> standing \<Rightarrow>
       string option \<Rightarrow> observation \<Rightarrow> observation option \<Rightarrow> string option \<Rightarrow> string option \<Rightarrow>
       (('p, 'h, 'w) gym, receipt) action" where
  "teardown_receipt cfg st episode_id authority_ref stand evidence_ref before post err reason g =
     record_receipt cfg
       (recovery_receipt cfg st episode_id TEARDOWN teardown_capability authority_ref g stand
          evidence_ref before post err reason) (tick g)"

definition teardown_do ::
    "('p, 'h, 'w) gym_config \<Rightarrow> 'h episode_state \<Rightarrow> string \<Rightarrow> string option \<Rightarrow> observation \<Rightarrow>
       string option \<Rightarrow> (('p, 'h, 'w) gym, receipt) action" where
  "teardown_do cfg st episode_id authority_ref before evidence_ref g =
     (case bounded ''TEARDOWN_TIMEOUT'' (env_teardown (gc_spi cfg) (es_environment st)) g of
        (Inl e, g1) \<Rightarrow>
          teardown_receipt cfg st episode_id authority_ref BLOCKED evidence_ref before None
            (error_digest cfg e) (Some (error_reason e)) g1
      | (Inr _, g1) \<Rightarrow>
          bind_act (teardown_receipt cfg st episode_id authority_ref ALIVE evidence_ref before
              None None None) (\<lambda>r g2.
            let g3 = g2\<lparr>g_teardown_receipts := (g_teardown_receipts g2)(episode_id \<mapsto> r)\<rparr>
            in if g_episodes g3 episode_id = None then (Inl (key_error episode_id), g3)
               else (Inr r, g3\<lparr>g_episodes := (g_episodes g3)(episode_id := None)\<rparr>)) g1)"

definition teardown_locked ::
    "('p, 'h, 'w) gym_config \<Rightarrow> 'h episode_state \<Rightarrow> string \<Rightarrow> string option \<Rightarrow>
       (('p, 'h, 'w) gym, receipt) action" where
  "teardown_locked cfg st episode_id authority_ref =
     bind_act (observe_unlocked cfg st) (\<lambda>before g.
       case authority_decision cfg (env_requires_authority (gc_spi cfg) (es_environment st))
              \<lparr>aq_episode_id = episode_id,
               aq_subject_ref = env_id (gc_spi cfg) (es_environment st),
               aq_operation = TEARDOWN, aq_capability_ref = teardown_capability,
               aq_payload = [], aq_authority_ref = authority_ref, aq_principal = None\<rparr> g of
         (Inl (Boundary code), g1) \<Rightarrow>
           teardown_receipt cfg st episode_id authority_ref BLOCKED None before (Some before)
             None (Some code) g1
       | (Inl (Raised t m), g1) \<Rightarrow> (Inl (Raised t m), g1)
       | (Inr authority, g1) \<Rightarrow>
           if \<not> ad_admitted authority
           then teardown_receipt cfg st episode_id authority_ref REFUSED
                  (ad_evidence_ref authority) before (Some before) None
                  (Some (ad_reason authority)) g1
           else teardown_do cfg st episode_id authority_ref before
                  (ad_evidence_ref authority) g1)"

text \<open>A second teardown of the same episode returns the first one's receipt.\<close>

definition teardown ::
    "('p, 'h, 'w) gym_config \<Rightarrow> string \<Rightarrow> string option \<Rightarrow>
       (('p, 'h, 'w) gym, receipt) action" where
  "teardown cfg episode_id authority_ref g =
     (case g_teardown_receipts g episode_id of
        Some prior \<Rightarrow> (Inr prior, g)
      | None \<Rightarrow>
          bind_act (episode_state episode_id) (\<lambda>st.
            teardown_locked cfg st episode_id authority_ref) g)"

section \<open>Evidence access\<close>

definition evidence_records :: "('p, 'h, 'w) gym \<Rightarrow> evidence_record list" where
  "evidence_records g = ml_records (g_ledger g)"

definition receipt_record :: "('p, 'h, 'w) gym \<Rightarrow> string \<Rightarrow> evidence_record option" where
  "receipt_record g receipt_id = ledger_find (g_ledger g) receipt_id"

definition verify_evidence_chain :: "('p, 'h, 'w) gym_config \<Rightarrow> ('p, 'h, 'w) gym \<Rightarrow> bool" where
  "verify_evidence_chain cfg g = ledger_verify (gc_digest cfg) (g_ledger g)"

end
