(* ===== verification/Kernel_Facts.thy ===== *)
theory Kernel_Facts
  imports Kernel
begin

text \<open>
  What every kernel method keeps: the lemma base of the kernel's properties.

  \<open>gym_inv\<close> ties the parts of the object together: the ledger's own invariant; every receipt
  of an episode's trail, every cached result's receipt and every teardown receipt is
  evidence in the ledger; cached actuations sit under the key of their own receipt. The
  preservation lemmas have the form \<open>op g = (x, g') \<Longrightarrow> gym_inv cfg g \<Longrightarrow> gym_inv cfg g'\<close>, so
  that \<open>auto\<close> can use them as destruction rules while it walks through a method.
\<close>

named_theorems inv_dests \<open>preservation of the kernel invariant, one rule per method\<close>

lemmas result_splits = prod.splits sum.splits exn.splits option.splits if_splits

definition in_ledger :: "('p, 'h, 'w) gym \<Rightarrow> receipt \<Rightarrow> bool" where
  "in_ledger g r \<longleftrightarrow> (\<exists>e. ledger_find (g_ledger g) (rc_receipt_id r) = Some e \<and> er_receipt e = r)"

definition gym_inv :: "('p, 'h, 'w) gym_config \<Rightarrow> ('p, 'h, 'w) gym \<Rightarrow> bool" where
  "gym_inv cfg g \<longleftrightarrow>
     ledger_inv (gc_digest cfg) (g_ledger g) \<and>
     (\<forall>eid. \<forall>r \<in> set (g_receipts g eid). rc_episode_id r = eid \<and> in_ledger g r) \<and>
     (\<forall>key x. g_actuation_idempotency g key = Some x \<longrightarrow>
        in_ledger g (ar_receipt (xr_result x)) \<and>
        rc_episode_id (ar_receipt (xr_result x)) = fst key \<and>
        rc_idempotency_key (ar_receipt (xr_result x)) = Some (snd key) \<and>
        (ar_accepted (xr_result x) \<longleftrightarrow> ar_standing (xr_result x) = ALIVE)) \<and>
     (\<forall>key y. g_materialization_idempotency g key = Some y \<longrightarrow>
        in_ledger g (mr_receipt (yr_result y))) \<and>
     (\<forall>eid r. g_teardown_receipts g eid = Some r \<longrightarrow> in_ledger g r)"

lemma gym_inv_init [simp]: "gym_inv cfg (init_gym w)"
  by (simp add: gym_inv_def init_gym_def)

text \<open>The invariant does not look at the world, the clock, the providers or the episodes.\<close>

lemma gym_inv_frame [simp]:
  "gym_inv cfg (g\<lparr>g_world := w\<rparr>) = gym_inv cfg g"
  "gym_inv cfg (g\<lparr>g_episodes := e\<rparr>) = gym_inv cfg g"
  "gym_inv cfg (g\<lparr>g_verifications := v\<rparr>) = gym_inv cfg g"
  "gym_inv cfg (g\<lparr>g_providers := p\<rparr>) = gym_inv cfg g"
  "gym_inv cfg (g\<lparr>g_ticks := n\<rparr>) = gym_inv cfg g"
  by (simp_all add: gym_inv_def in_ledger_def)

lemma gym_inv_tick [simp]: "gym_inv cfg (tick g) = gym_inv cfg g"
  by (simp add: tick_def)

lemma tick_simps [simp]:
  "g_ledger (tick g) = g_ledger g" "g_receipts (tick g) = g_receipts g"
  "g_world (tick g) = g_world g" "g_episodes (tick g) = g_episodes g"
  "g_actuation_idempotency (tick g) = g_actuation_idempotency g"
  "g_materialization_idempotency (tick g) = g_materialization_idempotency g"
  "g_teardown_receipts (tick g) = g_teardown_receipts g" "g_providers (tick g) = g_providers g"
  "g_verifications (tick g) = g_verifications g" "g_ticks (tick g) = Suc (g_ticks g)"
  by (simp_all add: tick_def)

section \<open>The building blocks\<close>

lemma bounded_frame: "bounded code call g = (x, g') \<Longrightarrow> \<exists>w. g' = g\<lparr>g_world := w\<rparr>"
  by (auto simp: bounded_def split: prod.splits)

lemma bounded_inv [inv_dests]:
  "bounded code call g = (x, g') \<Longrightarrow> gym_inv cfg g \<Longrightarrow> gym_inv cfg g'"
  by (auto dest: bounded_frame)

lemma pure_res_simp [simp]: "pure_res r g = (r, g)"
  by (simp add: pure_res_def)

lemma authority_decision_frame:
  "authority_decision cfg req q g = (x, g') \<Longrightarrow> \<exists>w. g' = g\<lparr>g_world := w\<rparr>"
proof -
  assume a: "authority_decision cfg req q g = (x, g')"
  show ?thesis
  proof (cases req)
    case True
    with a show ?thesis by (auto simp: authority_decision_def dest: bounded_frame)
  next
    case False
    with a have "g' = g\<lparr>g_world := g_world g\<rparr>" by (simp add: authority_decision_def)
    then show ?thesis by blast
  qed
qed

lemma authority_decision_inv [inv_dests]:
  "authority_decision cfg req q g = (x, g') \<Longrightarrow> gym_inv cfg' g \<Longrightarrow> gym_inv cfg' g'"
  by (auto dest: authority_decision_frame)

lemma observe_environment_frame:
  "observe_environment cfg h g = (x, g') \<Longrightarrow> \<exists>w. g' = g\<lparr>g_world := w\<rparr>"
  by (auto simp: observe_environment_def elim!: bind_act_cases dest: bounded_frame)

lemma observe_unlocked_frame:
  "observe_unlocked cfg st g = (x, g') \<Longrightarrow> \<exists>w. g' = g\<lparr>g_world := w\<rparr>"
  by (auto simp: observe_unlocked_def elim!: bind_act_cases dest: observe_environment_frame)

lemma capabilities_frame: "capabilities cfg st g = (x, g') \<Longrightarrow> \<exists>w. g' = g\<lparr>g_world := w\<rparr>"
  by (auto simp: capabilities_def split: prod.splits)

lemma admit_capabilities_frame:
  "admit_capabilities cfg h g = (x, g') \<Longrightarrow> \<exists>w. g' = g\<lparr>g_world := w\<rparr>"
  by (auto simp: admit_capabilities_def split: result_splits)

lemmas world_frames =
  bounded_frame authority_decision_frame observe_environment_frame observe_unlocked_frame
  capabilities_frame admit_capabilities_frame

lemma observe_environment_inv [inv_dests]:
  "observe_environment cfg h g = (x, g') \<Longrightarrow> gym_inv cfg' g \<Longrightarrow> gym_inv cfg' g'"
  "observe_unlocked cfg st g = (y, g') \<Longrightarrow> gym_inv cfg' g \<Longrightarrow> gym_inv cfg' g'"
  "capabilities cfg st g = (z, g') \<Longrightarrow> gym_inv cfg' g \<Longrightarrow> gym_inv cfg' g'"
  "admit_capabilities cfg h g = (u, g') \<Longrightarrow> gym_inv cfg' g \<Longrightarrow> gym_inv cfg' g'"
  by (auto dest: world_frames)

lemma episode_state_same: "episode_state eid g = (x, g') \<Longrightarrow> g' = g"
  by (auto simp: episode_state_def split: option.splits)

lemma episode_state_returns:
  "episode_state eid g = (Inr st, g') \<Longrightarrow> g' = g \<and> g_episodes g eid = Some st"
  by (auto simp: episode_state_def split: option.splits)

section \<open>Recording a receipt\<close>

lemma in_ledger_append:
  assumes "ledger_inv H (g_ledger g)" "ledger_append H (g_ledger g) r = (x, led)"
    and "in_ledger g s" "g_ledger g' = led"
  shows "in_ledger g' s"
  using assms memory.lookup_stable [of H "g_ledger g" r x led]
  by (auto simp: in_ledger_def)

lemma in_ledger_new:
  assumes "ledger_inv H (g_ledger g)" "ledger_append H (g_ledger g) r = (Inr e, led)"
    and "g_ledger g' = led"
  shows "in_ledger g' r"
  using assms(2)
proof (cases rule: ledger_append_returns)
  case old
  with assms(3) show ?thesis by (auto simp: in_ledger_def ledger_find_def)
next
  case new
  with assms(3) show ?thesis by (auto simp: in_ledger_def ledger_find_def)
qed

lemma record_receipt_raises:
  "record_receipt cfg r g = (Inl e, g') \<Longrightarrow> g' = g"
  by (auto simp: record_receipt_def dest!: ledger_append_raises split: prod.splits sum.splits)

lemma record_receipt_returns:
  assumes "record_receipt cfg r g = (Inr s, g')"
  shows "s = r \<and> (\<exists>e led. ledger_append (gc_digest cfg) (g_ledger g) r = (Inr e, led) \<and>
    g' = g\<lparr>g_ledger := led, g_receipts := (g_receipts g)
      (rc_episode_id r := g_receipts g (rc_episode_id r) @ [r])\<rparr>)"
  using assms by (auto simp: record_receipt_def split: prod.splits sum.splits)

lemma record_receipt_inv [inv_dests]:
  assumes "record_receipt cfg r g = (x, g')" "gym_inv cfg g"
  shows "gym_inv cfg g'"
proof (cases x)
  case (Inl e)
  with assms record_receipt_raises show ?thesis by blast
next
  case (Inr s)
  with assms(1) record_receipt_returns obtain e led where
    led: "ledger_append (gc_digest cfg) (g_ledger g) r = (Inr e, led)" and
    g': "g' = g\<lparr>g_ledger := led, g_receipts := (g_receipts g)
      (rc_episode_id r := g_receipts g (rc_episode_id r) @ [r])\<rparr>"
    by blast
  have inv: "ledger_inv (gc_digest cfg) (g_ledger g)" using assms(2) by (simp add: gym_inv_def)
  have keep: "in_ledger g s \<Longrightarrow> in_ledger g' s" for s
    by (rule in_ledger_append [OF inv led]) (simp_all add: g')
  have new: "in_ledger g' r"
    by (rule in_ledger_new [OF inv led]) (simp add: g')
  have led_inv: "ledger_inv (gc_digest cfg) (g_ledger g')"
    using ledger_inv_append [OF inv led] g' by simp
  have same: "g_actuation_idempotency g' = g_actuation_idempotency g"
    "g_materialization_idempotency g' = g_materialization_idempotency g"
    "g_teardown_receipts g' = g_teardown_receipts g"
    "g_receipts g' = (g_receipts g)
      (rc_episode_id r := g_receipts g (rc_episode_id r) @ [r])"
    using g' by simp_all
  show ?thesis
    using assms(2) led_inv keep new unfolding gym_inv_def same by auto
qed

text \<open>A receipt that was returned is evidence, at the end of its episode's trail.\<close>

lemma record_receipt_recorded:
  assumes "record_receipt cfg r g = (Inr s, g')" "gym_inv cfg g"
  shows "in_ledger g' r \<and>
    g_receipts g' = (g_receipts g)(rc_episode_id r := g_receipts g (rc_episode_id r) @ [r])"
proof -
  from record_receipt_returns [OF assms(1)] obtain e led where
    led: "ledger_append (gc_digest cfg) (g_ledger g) r = (Inr e, led)" and
    g': "g' = g\<lparr>g_ledger := led, g_receipts := (g_receipts g)
      (rc_episode_id r := g_receipts g (rc_episode_id r) @ [r])\<rparr>"
    by blast
  have "ledger_inv (gc_digest cfg) (g_ledger g)" using assms(2) by (simp add: gym_inv_def)
  with led g' show ?thesis by (auto intro: in_ledger_new)
qed

text \<open>What recording leaves alone.\<close>

lemma record_receipt_frame:
  "record_receipt cfg r g = (x, g') \<Longrightarrow>
     g_episodes g' = g_episodes g \<and> g_world g' = g_world g \<and> g_providers g' = g_providers g \<and>
     g_actuation_idempotency g' = g_actuation_idempotency g \<and>
     g_materialization_idempotency g' = g_materialization_idempotency g \<and>
     g_teardown_receipts g' = g_teardown_receipts g \<and> g_ticks g' = g_ticks g"
  by (auto simp: record_receipt_def split: prod.splits sum.splits)

lemma actuation_result_returns:
  assumes "actuation_result cfg d key cache r g = (Inr s, g')" "gym_inv cfg g"
  shows "s = r \<and> in_ledger g' (ar_receipt r) \<and> g_world g' = g_world g \<and>
    g_episodes g' = g_episodes g \<and>
    g_receipts g' = (g_receipts g)(rc_episode_id (ar_receipt r) :=
      g_receipts g (rc_episode_id (ar_receipt r)) @ [ar_receipt r]) \<and>
    g_actuation_idempotency g' = (if cache
      then (g_actuation_idempotency g)(key \<mapsto> \<lparr>xr_intent_digest = d, xr_result = r\<rparr>)
      else g_actuation_idempotency g)"
proof -
  obtain t g1 where rec: "record_receipt cfg (ar_receipt r) g = (Inr t, g1)"
    and g': "s = r" "g' = (if cache
        then g1\<lparr>g_actuation_idempotency := (g_actuation_idempotency g1)
                 (key \<mapsto> \<lparr>xr_intent_digest = d, xr_result = r\<rparr>)\<rparr> else g1)"
    using assms(1) unfolding actuation_result_def by (auto elim!: bind_act_InrE)
  with record_receipt_recorded [OF rec assms(2)] record_receipt_frame [OF rec]
  show ?thesis by (simp add: in_ledger_def)
qed

lemma actuation_result_inv [inv_dests]:
  assumes "actuation_result cfg d key cache r g = (x, g')" "gym_inv cfg g"
    and key: "rc_episode_id (ar_receipt r) = fst key"
      "rc_idempotency_key (ar_receipt r) = Some (snd key)"
      "ar_accepted r \<longleftrightarrow> ar_standing r = ALIVE"
  shows "gym_inv cfg g'"
  using assms(1) unfolding actuation_result_def
proof (cases rule: bind_act_cases)
  case (raised e)
  with assms(2) show ?thesis by (auto dest: inv_dests)
next
  case (returned s g1)
  have inv: "gym_inv cfg g1" "in_ledger g1 (ar_receipt r)"
    using record_receipt_inv [OF returned(1) assms(2)]
      record_receipt_recorded [OF returned(1) assms(2)] by auto
  have g': "g' = (if cache
        then g1\<lparr>g_actuation_idempotency := (g_actuation_idempotency g1)
                 (key \<mapsto> \<lparr>xr_intent_digest = d, xr_result = r\<rparr>)\<rparr> else g1)"
    using returned(2) by simp
  show ?thesis
    using inv key unfolding g' gym_inv_def in_ledger_def by auto
qed

lemma materialization_result_inv [inv_dests]:
  assumes "materialization_result cfg d key cache r g = (x, g')" "gym_inv cfg g"
  shows "gym_inv cfg g'"
  using assms(1) unfolding materialization_result_def
proof (cases rule: bind_act_cases)
  case (raised e)
  with assms(2) show ?thesis by (auto dest: inv_dests)
next
  case (returned s g1)
  have inv: "gym_inv cfg g1" "in_ledger g1 (mr_receipt r)"
    using record_receipt_inv [OF returned(1) assms(2)]
      record_receipt_recorded [OF returned(1) assms(2)] by auto
  have g': "g' = (if cache
        then g1\<lparr>g_materialization_idempotency := (g_materialization_idempotency g1)
                 (key \<mapsto> \<lparr>yr_intent_digest = d, yr_result = r\<rparr>)\<rparr> else g1)"
    using returned(2) by simp
  show ?thesis
    using inv unfolding g' gym_inv_def in_ledger_def by auto
qed

section \<open>Every method keeps the invariant\<close>

lemma register_provider_inv [inv_dests]:
  "register_provider cfg p g = (x, g') \<Longrightarrow> gym_inv cfg g \<Longrightarrow> gym_inv cfg g'"
  by (auto simp: register_provider_def Let_def split: if_splits)

lemma materialize_refuse_inv [inv_dests]:
  "materialize_refuse cfg i eid stand sub aut ev err reason g = (x, g') \<Longrightarrow>
     gym_inv cfg g \<Longrightarrow> gym_inv cfg g'"
  by (auto simp: materialize_refuse_def Let_def dest: materialization_result_inv)

lemma materialize_conflict_inv [inv_dests]:
  "materialize_conflict cfg i cached g = (x, g') \<Longrightarrow> gym_inv cfg g \<Longrightarrow> gym_inv cfg g'"
  by (auto simp: materialize_conflict_def Let_def dest: materialization_result_inv)

lemma snd_bounded_inv [simp]: "gym_inv cfg g \<Longrightarrow> gym_inv cfg (snd (bounded code call g))"
  by (cases "bounded code call g") (auto dest: inv_dests)

lemma materialize_admission_inv:
  "bind_act (admit_capabilities cfg h) (\<lambda>_. observe_environment cfg h) g = (x, g') \<Longrightarrow>
     gym_inv cfg g \<Longrightarrow> gym_inv cfg g'"
  by (erule bind_act_cases) (auto dest: inv_dests)

lemma materialize_admit_inv [inv_dests]:
  assumes "materialize_admit cfg i eid ev h g = (x, g')" "gym_inv cfg g"
  shows "gym_inv cfg g'"
  using assms unfolding materialize_admit_def Let_def
  by (auto split: prod.splits sum.splits dest!: materialize_admission_inv
      dest: materialize_refuse_inv materialization_result_inv)

lemma materialize_with_inv [inv_dests]:
  assumes "materialize_with cfg i eid p g = (x, g')" "gym_inv cfg g"
  shows "gym_inv cfg g'"
  using assms unfolding materialize_with_def Let_def
  by (auto split: result_splits dest!: authority_decision_inv bounded_inv
      dest: materialize_refuse_inv materialize_admit_inv)

lemma materialize_inv [inv_dests]:
  assumes "materialize cfg i g = (x, g')" "gym_inv cfg g"
  shows "gym_inv cfg g'"
  using assms unfolding materialize_def Let_def
  by (auto split: sum.splits option.splits if_splits
      dest: materialize_refuse_inv materialize_with_inv materialize_conflict_inv)

lemma create_episode_inv [inv_dests]:
  "create_episode cfg p sc c a k g = (x, g') \<Longrightarrow> gym_inv cfg g \<Longrightarrow> gym_inv cfg g'"
  by (auto simp: create_episode_def Let_def split: option.splits elim!: bind_act_cases
      dest: materialize_inv)

lemma observe_inv [inv_dests]:
  "observe cfg eid g = (x, g') \<Longrightarrow> gym_inv cfg g \<Longrightarrow> gym_inv cfg g'"
  by (auto simp: observe_def elim!: bind_act_cases dest: inv_dests dest!: episode_state_same)

lemma read_inv [inv_dests]:
  "read cfg eid c p g = (x, g') \<Longrightarrow> gym_inv cfg g \<Longrightarrow> gym_inv cfg g'"
  by (auto simp: read_def elim!: bind_act_cases
      dest!: episode_state_same capabilities_frame bounded_frame split: option.splits if_splits)

lemma act_refuse_inv [inv_dests]:
  "act_refuse cfg st i cache stand before after aut ev err reason g = (x, g') \<Longrightarrow>
     gym_inv cfg g \<Longrightarrow> stand \<noteq> ALIVE \<Longrightarrow> gym_inv cfg g'"
  unfolding act_refuse_def
  by (erule actuation_result_inv) (simp_all add: act_receipt_def mint_def new_receipt_def)

lemma act_attempt_frame:
  "act_attempt cfg st i cap g = (x, g') \<Longrightarrow> \<exists>w. g' = g\<lparr>g_world := w\<rparr>"
  by (auto simp: act_attempt_def elim!: bind_act_cases dest!: bounded_frame
      observe_unlocked_frame)

lemma act_do_inv [inv_dests]:
  assumes "act_do cfg st i cap before ev g = (x, g')" "gym_inv cfg g"
  shows "gym_inv cfg g'"
proof -
  obtain y g1 where att: "act_attempt cfg st i cap g = (y, g1)"
    by (cases "act_attempt cfg st i cap g")
  with assms(2) have inv: "gym_inv cfg g1" by (auto dest: act_attempt_frame)
  show ?thesis
  proof (cases y)
    case (Inl e)
    with assms(1) att inv show ?thesis
      by (auto simp: act_do_def Let_def split: prod.splits
          dest!: observe_unlocked_frame dest: act_refuse_inv)
  next
    case (Inr ea)
    with assms(1) att show ?thesis
      unfolding act_do_def
      by (cases ea) (auto intro: inv elim!: actuation_result_inv
          simp: act_receipt_def mint_def new_receipt_def)
  qed
qed

lemma act_authorize_inv [inv_dests]:
  assumes "act_authorize cfg st i cap before g = (x, g')" "gym_inv cfg g"
  shows "gym_inv cfg g'"
  using assms unfolding act_authorize_def Let_def
  by (auto split: result_splits dest!: authority_decision_inv dest: act_refuse_inv act_do_inv)

lemma act_gates_inv [inv_dests]:
  "act_gates cfg st i before items g = (x, g') \<Longrightarrow> gym_inv cfg g \<Longrightarrow> gym_inv cfg g'"
  by (auto simp: act_gates_def Let_def split: option.splits if_splits
      dest: act_refuse_inv act_authorize_inv)

lemma act_fresh_inv [inv_dests]:
  "act_fresh cfg st i before g = (x, g') \<Longrightarrow> gym_inv cfg g \<Longrightarrow> gym_inv cfg g'"
  by (auto simp: act_fresh_def split: sum.splits elim!: bind_act_cases
      dest: act_refuse_inv inv_dests)

lemma act_locked_inv [inv_dests]:
  "act_locked cfg st i g = (x, g') \<Longrightarrow> gym_inv cfg g \<Longrightarrow> gym_inv cfg g'"
  by (auto simp: act_locked_def split: option.splits if_splits elim!: bind_act_cases
      dest: act_refuse_inv inv_dests)

lemma act_inv [inv_dests]:
  "act cfg i g = (x, g') \<Longrightarrow> gym_inv cfg g \<Longrightarrow> gym_inv cfg g'"
  by (auto simp: act_def elim!: bind_act_cases dest: act_locked_inv dest!: episode_state_same)

lemma verify_verdict_inv [inv_dests]:
  "verify_verdict cfg st eid ex pp ob obs g = (x, g') \<Longrightarrow> gym_inv cfg g \<Longrightarrow> gym_inv cfg g'"
  by (auto simp: verify_verdict_def Let_def split: prod.splits elim!: bind_act_cases
      dest: record_receipt_inv)

lemma verify_locked_inv [inv_dests]:
  "verify_locked cfg st eid ex g = (x, g') \<Longrightarrow> gym_inv cfg g \<Longrightarrow> gym_inv cfg g'"
  by (auto simp: verify_locked_def split: prod.splits elim!: bind_act_cases
      dest!: bounded_frame observe_unlocked_frame dest: verify_verdict_inv)

lemma verify_inv [inv_dests]:
  "verify cfg eid ex g = (x, g') \<Longrightarrow> gym_inv cfg g \<Longrightarrow> gym_inv cfg g'"
  by (auto simp: verify_def elim!: bind_act_cases dest: verify_locked_inv
      dest!: episode_state_same)

lemma checkpoint_inv [inv_dests]:
  "checkpoint cfg eid g = (x, g') \<Longrightarrow> gym_inv cfg g \<Longrightarrow> gym_inv cfg g'"
  by (auto simp: checkpoint_def elim!: bind_act_cases dest: inv_dests dest!: episode_state_same)

lemma restore_receipt_inv [inv_dests]:
  "restore_receipt cfg st eid aut stand ev before after err reason g = (x, g') \<Longrightarrow>
     gym_inv cfg g \<Longrightarrow> gym_inv cfg g'"
  by (auto simp: restore_receipt_def dest: record_receipt_inv)

lemma restore_attempt_frame:
  "restore_attempt cfg st saved g = (x, g') \<Longrightarrow> \<exists>w. g' = g\<lparr>g_world := w\<rparr>"
  by (auto simp: restore_attempt_def elim!: bind_act_cases dest!: bounded_frame
      observe_unlocked_frame)

lemma restore_do_inv [inv_dests]:
  "restore_do cfg st eid saved aut before ev g = (x, g') \<Longrightarrow> gym_inv cfg g \<Longrightarrow> gym_inv cfg g'"
  by (auto simp: restore_do_def split: prod.splits sum.splits
      dest!: restore_attempt_frame observe_unlocked_frame dest: restore_receipt_inv)

lemma restore_fresh_inv [inv_dests]:
  assumes "restore_fresh cfg st eid saved aut before g = (x, g')" "gym_inv cfg g"
  shows "gym_inv cfg g'"
  using assms unfolding restore_fresh_def Let_def
  by (auto split: result_splits dest!: authority_decision_inv
      dest: restore_receipt_inv restore_do_inv)

lemma restore_inv [inv_dests]:
  "restore cfg eid saved aut g = (x, g') \<Longrightarrow> gym_inv cfg g \<Longrightarrow> gym_inv cfg g'"
  by (auto simp: restore_def elim!: bind_act_cases dest: inv_dests dest!: episode_state_same)

lemma teardown_receipt_inv [inv_dests]:
  "teardown_receipt cfg st eid aut stand ev before post err reason g = (x, g') \<Longrightarrow>
     gym_inv cfg g \<Longrightarrow> gym_inv cfg g'"
  by (auto simp: teardown_receipt_def dest: record_receipt_inv)

lemma teardown_do_inv [inv_dests]:
  assumes "teardown_do cfg st eid aut before ev g = (x, g')" "gym_inv cfg g"
  shows "gym_inv cfg g'"
proof -
  obtain y g1 where b: "bounded ''TEARDOWN_TIMEOUT''
      (env_teardown (gc_spi cfg) (es_environment st)) g = (y, g1)"
    by (cases "bounded ''TEARDOWN_TIMEOUT''
      (env_teardown (gc_spi cfg) (es_environment st)) g")
  with assms(2) have inv: "gym_inv cfg g1" by (auto dest: inv_dests)
  show ?thesis
  proof (cases y)
    case (Inl e)
    with assms(1) b inv show ?thesis by (auto simp: teardown_do_def dest: inv_dests)
  next
    case (Inr u)
    obtain z g2 where r: "teardown_receipt cfg st eid aut ALIVE ev before None None None g1 =
        (z, g2)"
      by (cases "teardown_receipt cfg st eid aut ALIVE ev before None None None g1")
    have inv2: "gym_inv cfg g2" using r inv by (rule teardown_receipt_inv)
    show ?thesis
    proof (cases z)
      case (Inl e)
      with assms(1) b Inr r inv2 show ?thesis by (simp add: teardown_do_def bind_act_def)
    next
      case (Inr rc)
      have "in_ledger g2 rc"
        using r inv Inr record_receipt_returns
        unfolding teardown_receipt_def by (metis gym_inv_tick record_receipt_recorded)
      with inv2 have inv3: "gym_inv cfg (g2\<lparr>g_teardown_receipts :=
          (g_teardown_receipts g2)(eid \<mapsto> rc)\<rparr>)"
        by (auto simp: gym_inv_def in_ledger_def)
      from assms(1) b \<open>y = Inr u\<close> r Inr
      have "g' = g2\<lparr>g_teardown_receipts := (g_teardown_receipts g2)(eid \<mapsto> rc)\<rparr> \<or>
        g' = g2\<lparr>g_teardown_receipts := (g_teardown_receipts g2)(eid \<mapsto> rc),
                g_episodes := (g_episodes g2)(eid := None)\<rparr>"
        by (auto simp: teardown_do_def bind_act_def Let_def split: if_splits)
      with inv3 show ?thesis
        by (metis gym_inv_frame(2))
    qed
  qed
qed

lemma teardown_locked_inv [inv_dests]:
  "teardown_locked cfg st eid aut g = (x, g') \<Longrightarrow> gym_inv cfg g \<Longrightarrow> gym_inv cfg g'"
  unfolding teardown_locked_def
  by (erule bind_act_cases) (auto split: result_splits
      dest!: authority_decision_inv observe_environment_inv(2)
      dest: teardown_receipt_inv teardown_do_inv)

lemma teardown_inv [inv_dests]:
  "teardown cfg eid aut g = (x, g') \<Longrightarrow> gym_inv cfg g \<Longrightarrow> gym_inv cfg g'"
  by (auto simp: teardown_def split: option.splits elim!: bind_act_cases
      dest: teardown_locked_inv dest!: episode_state_same)

end
