(* ===== verification/Kernel_Runs.thy ===== *)
theory Kernel_Runs
  imports Kernel_Facts
begin

text \<open>
  Runs of the kernel. \<open>evolves g g'\<close> says that nothing the object remembers is lost between
  two states: evidence, episode trails and verifications only grow at the end, cached
  results stay. \<open>gym_step\<close> is one call of a public method, one call that had waited for an
  episode's lock and now runs on the state it finds, or a change of the outside world;
  \<open>reachable\<close> collects the states some sequence of steps reaches from a fresh runtime.
\<close>

section \<open>Nothing is forgotten\<close>

definition evolves :: "('p, 'h, 'w) gym \<Rightarrow> ('p, 'h, 'w) gym \<Rightarrow> bool" where
  "evolves g g' \<longleftrightarrow>
     (\<exists>s. ml_records (g_ledger g') = ml_records (g_ledger g) @ s) \<and>
     (\<forall>eid. \<exists>s. g_receipts g' eid = g_receipts g eid @ s) \<and>
     (\<exists>s. g_verifications g' = g_verifications g @ s) \<and>
     g_actuation_idempotency g \<subseteq>\<^sub>m g_actuation_idempotency g' \<and>
     g_materialization_idempotency g \<subseteq>\<^sub>m g_materialization_idempotency g'"

lemma evolves_refl [simp]: "evolves g g"
  by (simp add: evolves_def)

lemma evolves_trans [trans]: "evolves g g1 \<Longrightarrow> evolves g1 g2 \<Longrightarrow> evolves g g2"
  unfolding evolves_def by (metis append.assoc map_le_trans)

lemma evolves_frame [simp]:
  "evolves g (g'\<lparr>g_world := w\<rparr>) = evolves g g'" "evolves g (g'\<lparr>g_episodes := e\<rparr>) = evolves g g'"
  "evolves g (g'\<lparr>g_providers := p\<rparr>) = evolves g g'" "evolves g (tick g') = evolves g g'"
  "evolves g (g'\<lparr>g_teardown_receipts := t\<rparr>) = evolves g g'"
  "evolves (g\<lparr>g_world := w\<rparr>) g' = evolves g g'" "evolves (tick g) g' = evolves g g'"
  "evolves (g\<lparr>g_episodes := e\<rparr>) g' = evolves g g'"
  by (simp_all add: evolves_def)

lemma ledger_append_grows:
  "ledger_append H led r = (x, led') \<Longrightarrow> \<exists>s. ml_records led' = ml_records led @ s"
  by (cases x) (auto dest: ledger_append_raises elim: ledger_append_returns)

lemma record_receipt_evolves:
  assumes "record_receipt cfg r g = (x, g')"
  shows "evolves g g'"
proof (cases x)
  case (Inl e)
  with assms record_receipt_raises evolves_refl show ?thesis by metis
next
  case (Inr s)
  with record_receipt_returns assms obtain e led where
    "ledger_append (gc_digest cfg) (g_ledger g) r = (Inr e, led)"
    "g' = g\<lparr>g_ledger := led, g_receipts := (g_receipts g)
      (rc_episode_id r := g_receipts g (rc_episode_id r) @ [r])\<rparr>"
    by blast
  with ledger_append_grows show ?thesis by (auto simp: evolves_def)
qed

lemma actuation_result_evolves:
  assumes "actuation_result cfg d key cache r g = (x, g')"
    and "cache \<Longrightarrow> g_actuation_idempotency g key = None"
  shows "evolves g g'"
  using assms(1) unfolding actuation_result_def
proof (cases rule: bind_act_cases)
  case (raised e)
  then show ?thesis by (auto dest: record_receipt_evolves)
next
  case (returned s g1)
  have "evolves g g1" using returned(1) by (rule record_receipt_evolves)
  moreover have "g_actuation_idempotency g1 = g_actuation_idempotency g"
    using record_receipt_frame [OF returned(1)] by simp
  ultimately show ?thesis using returned(2) assms(2)
    by (auto simp: evolves_def map_le_def dom_def split: if_splits)
qed

lemma materialization_result_evolves:
  assumes "materialization_result cfg d key cache r g = (x, g')"
    and "cache \<Longrightarrow> g_materialization_idempotency g key = None"
  shows "evolves g g'"
  using assms(1) unfolding materialization_result_def
proof (cases rule: bind_act_cases)
  case (raised e)
  then show ?thesis by (auto dest: record_receipt_evolves)
next
  case (returned s g1)
  have "evolves g g1" using returned(1) by (rule record_receipt_evolves)
  moreover have "g_materialization_idempotency g1 = g_materialization_idempotency g"
    using record_receipt_frame [OF returned(1)] by simp
  ultimately show ?thesis using returned(2) assms(2)
    by (auto simp: evolves_def map_le_def dom_def split: if_splits)
qed

section \<open>Every method evolves the object\<close>

lemma register_provider_evolves: "register_provider cfg p g = (x, g') \<Longrightarrow> evolves g g'"
  by (auto simp: register_provider_def Let_def split: if_splits)

lemma materialize_refuse_evolves:
  "materialize_refuse cfg i eid stand sub aut ev err reason g = (x, g') \<Longrightarrow>
     g_materialization_idempotency g (mi_idempotency_key i) = None \<Longrightarrow> evolves g g'"
  by (auto simp: materialize_refuse_def Let_def dest: materialization_result_evolves)

lemma materialize_conflict_evolves:
  "materialize_conflict cfg i cached g = (x, g') \<Longrightarrow> evolves g g'"
  by (auto simp: materialize_conflict_def Let_def dest: materialization_result_evolves)

lemma admission_frame:
  "bind_act (admit_capabilities cfg h) (\<lambda>_. observe_environment cfg h) g = (x, g') \<Longrightarrow>
     \<exists>w. g' = g\<lparr>g_world := w\<rparr>"
  by (erule bind_act_cases) (auto dest!: admit_capabilities_frame observe_environment_frame)

lemma snd_bounded_frame: "\<exists>w. snd (bounded code call g) = g\<lparr>g_world := w\<rparr>"
  by (cases "bounded code call g") (auto dest: bounded_frame)

lemma materialize_admit_evolves:
  assumes "materialize_admit cfg i eid ev h g = (x, g')"
    and "g_materialization_idempotency g (mi_idempotency_key i) = None"
  shows "evolves g g'"
proof -
  obtain y g1 where adm: "bind_act (admit_capabilities cfg h)
      (\<lambda>_. observe_environment cfg h) g = (y, g1)"
    by (cases "bind_act (admit_capabilities cfg h) (\<lambda>_. observe_environment cfg h) g")
  then obtain w where g1: "g1 = g\<lparr>g_world := w\<rparr>" by (blast dest: admission_frame)
  show ?thesis
  proof (cases y)
    case (Inl e)
    obtain w' where "snd (bounded ''TEARDOWN_TIMEOUT'' (env_teardown (gc_spi cfg) h) g1) =
        g1\<lparr>g_world := w'\<rparr>"
      by (rule exE [OF snd_bounded_frame])
    with assms adm Inl g1 show ?thesis
      by (auto simp: materialize_admit_def Let_def dest: materialize_refuse_evolves)
  next
    case (Inr s)
    with assms adm g1 show ?thesis
      by (auto simp: materialize_admit_def Let_def dest!: materialization_result_evolves)
  qed
qed

lemma materialize_with_evolves:
  assumes "materialize_with cfg i eid p g = (x, g')"
    and "g_materialization_idempotency g (mi_idempotency_key i) = None"
  shows "evolves g g'"
  using assms unfolding materialize_with_def Let_def
  by (auto split: result_splits dest!: authority_decision_frame bounded_frame
      materialize_refuse_evolves materialize_admit_evolves)

lemma materialize_evolves:
  assumes "materialize cfg i g = (x, g')"
  shows "evolves g g'"
  using assms unfolding materialize_def Let_def
  by (auto split: sum.splits option.splits if_splits
      dest!: materialize_refuse_evolves materialize_with_evolves materialize_conflict_evolves)

lemma create_episode_evolves: "create_episode cfg p sc c a k g = (x, g') \<Longrightarrow> evolves g g'"
  by (auto simp: create_episode_def Let_def split: option.splits elim!: bind_act_cases
      dest!: materialize_evolves)

lemma observe_evolves: "observe cfg eid g = (x, g') \<Longrightarrow> evolves g g'"
  by (auto simp: observe_def elim!: bind_act_cases
      dest!: episode_state_same observe_unlocked_frame)

lemma read_evolves: "read cfg eid c p g = (x, g') \<Longrightarrow> evolves g g'"
  by (auto simp: read_def elim!: bind_act_cases
      dest!: episode_state_same capabilities_frame bounded_frame split: option.splits if_splits)

abbreviation act_key :: "actuation_intent \<Rightarrow> string \<times> string" where
  "act_key i \<equiv> (ai_episode_id i, ai_idempotency_key i)"

lemma act_refuse_evolves:
  "act_refuse cfg st i cache stand before after aut ev err reason g = (x, g') \<Longrightarrow>
     (cache \<Longrightarrow> g_actuation_idempotency g (act_key i) = None) \<Longrightarrow> evolves g g'"
  unfolding act_refuse_def by (drule actuation_result_evolves) auto

lemma act_do_evolves:
  assumes "act_do cfg st i cap before ev g = (x, g')"
    and "g_actuation_idempotency g (act_key i) = None"
  shows "evolves g g'"
proof -
  obtain y g1 where att: "act_attempt cfg st i cap g = (y, g1)"
    by (cases "act_attempt cfg st i cap g")
  then obtain w where g1: "g1 = g\<lparr>g_world := w\<rparr>" by (blast dest: act_attempt_frame)
  show ?thesis
  proof (cases y)
    case (Inl e)
    with assms att g1 show ?thesis
      by (auto simp: act_do_def Let_def split: prod.splits
          dest!: observe_unlocked_frame act_refuse_evolves)
  next
    case (Inr ea)
    with assms att g1 show ?thesis
      by (cases ea) (auto simp: act_do_def dest!: actuation_result_evolves)
  qed
qed

lemma act_authorize_evolves:
  assumes "act_authorize cfg st i cap before g = (x, g')"
    and "g_actuation_idempotency g (act_key i) = None"
  shows "evolves g g'"
  using assms unfolding act_authorize_def Let_def
  by (auto split: result_splits
      dest!: authority_decision_frame act_refuse_evolves act_do_evolves)

lemma act_gates_evolves:
  "act_gates cfg st i before items g = (x, g') \<Longrightarrow>
     g_actuation_idempotency g (act_key i) = None \<Longrightarrow> evolves g g'"
  by (auto simp: act_gates_def Let_def split: option.splits if_splits
      dest!: act_refuse_evolves act_authorize_evolves)

lemma act_fresh_evolves:
  "act_fresh cfg st i before g = (x, g') \<Longrightarrow>
     g_actuation_idempotency g (act_key i) = None \<Longrightarrow> evolves g g'"
  by (auto simp: act_fresh_def split: sum.splits elim!: bind_act_cases
      dest!: capabilities_frame act_refuse_evolves act_gates_evolves)

lemma act_locked_evolves: "act_locked cfg st i g = (x, g') \<Longrightarrow> evolves g g'"
  by (auto simp: act_locked_def split: option.splits if_splits elim!: bind_act_cases
      dest!: observe_unlocked_frame act_refuse_evolves act_fresh_evolves)

lemma act_evolves: "act cfg i g = (x, g') \<Longrightarrow> evolves g g'"
  by (auto simp: act_def elim!: bind_act_cases dest!: act_locked_evolves episode_state_same)

lemma evolves_verifications:
  "evolves (tick ((tick g)\<lparr>g_verifications := g_verifications g @ v\<rparr>)) g' \<Longrightarrow> evolves g g'"
  by (auto simp: evolves_def)

lemma verify_verdict_evolves:
  "verify_verdict cfg st eid ex pp ob obs g = (x, g') \<Longrightarrow> evolves g g'"
  unfolding verify_verdict_def Let_def
  by (auto split: prod.splits elim!: bind_act_cases dest!: record_receipt_evolves
      intro: evolves_verifications simp del: evolves_frame)

lemma verify_locked_evolves: "verify_locked cfg st eid ex g = (x, g') \<Longrightarrow> evolves g g'"
  by (auto simp: verify_locked_def split: prod.splits elim!: bind_act_cases
      dest!: bounded_frame observe_unlocked_frame verify_verdict_evolves)

lemma verify_evolves: "verify cfg eid ex g = (x, g') \<Longrightarrow> evolves g g'"
  by (auto simp: verify_def elim!: bind_act_cases dest!: verify_locked_evolves
      episode_state_same)

lemma checkpoint_evolves: "checkpoint cfg eid g = (x, g') \<Longrightarrow> evolves g g'"
  by (auto simp: checkpoint_def elim!: bind_act_cases dest!: bounded_frame episode_state_same)

lemma restore_receipt_evolves:
  "restore_receipt cfg st eid aut stand ev before after err reason g = (x, g') \<Longrightarrow> evolves g g'"
  by (auto simp: restore_receipt_def dest: record_receipt_evolves)

lemma restore_do_evolves:
  "restore_do cfg st eid saved aut before ev g = (x, g') \<Longrightarrow> evolves g g'"
  by (auto simp: restore_do_def split: prod.splits sum.splits
      dest!: restore_attempt_frame observe_unlocked_frame restore_receipt_evolves)

lemma restore_fresh_evolves:
  "restore_fresh cfg st eid saved aut before g = (x, g') \<Longrightarrow> evolves g g'"
  unfolding restore_fresh_def Let_def
  by (auto split: result_splits
      dest!: authority_decision_frame restore_receipt_evolves restore_do_evolves)

lemma teardown_receipt_evolves:
  "teardown_receipt cfg st eid aut stand ev before post err reason g = (x, g') \<Longrightarrow> evolves g g'"
  by (auto simp: teardown_receipt_def dest: record_receipt_evolves)

lemma teardown_do_evolves:
  "teardown_do cfg st eid aut before ev g = (x, g') \<Longrightarrow> evolves g g'"
  unfolding teardown_do_def Let_def
  by (auto split: prod.splits sum.splits if_splits elim!: bind_act_cases
      dest!: bounded_frame teardown_receipt_evolves)

lemma teardown_locked_evolves:
  "teardown_locked cfg st eid aut g = (x, g') \<Longrightarrow> evolves g g'"
  unfolding teardown_locked_def
  by (erule bind_act_cases) (auto split: result_splits
      dest!: authority_decision_frame observe_unlocked_frame teardown_receipt_evolves
      teardown_do_evolves)

lemma teardown_evolves: "teardown cfg eid aut g = (x, g') \<Longrightarrow> evolves g g'"
  by (auto simp: teardown_def split: option.splits elim!: bind_act_cases
      dest!: teardown_locked_evolves episode_state_same)

section \<open>Steps and reachable states\<close>

text \<open>
  The rules named \<open>late_\<close> are calls that looked their episode up earlier (any \<open>st\<close>) and
  obtained its lock now; \<open>outside\<close> is everything the rest of the system does to the world;
  \<open>step_tick\<close> and \<open>step_record\<close> are what the layers above do to the runtime besides calling
  its methods: they draw a uuid for a receipt of their own and record it.
\<close>

inductive gym_step ::
    "('p, 'h, 'w) gym_config \<Rightarrow> ('p, 'h, 'w) gym \<Rightarrow> ('p, 'h, 'w) gym \<Rightarrow> bool" for cfg where
  outside: "gym_step cfg g (g\<lparr>g_world := w\<rparr>)"
| step_tick: "gym_step cfg g (tick g)"
| step_record: "record_receipt cfg r g = (rr, g') \<Longrightarrow> gym_step cfg g g'"
| step_register: "register_provider cfg p g = (x, g') \<Longrightarrow> gym_step cfg g g'"
| step_materialize: "materialize cfg i g = (y, g') \<Longrightarrow> gym_step cfg g g'"
| step_create: "create_episode cfg name sc conf aut key g = (y, g') \<Longrightarrow> gym_step cfg g g'"
| step_observe: "observe cfg eid g = (ob, g') \<Longrightarrow> gym_step cfg g g'"
| step_read: "read cfg eid cap payload g = (d, g') \<Longrightarrow> gym_step cfg g g'"
| step_act: "act cfg ai g = (a, g') \<Longrightarrow> gym_step cfg g g'"
| late_act: "act_locked cfg st ai g = (a, g') \<Longrightarrow> gym_step cfg g g'"
| step_verify: "verify cfg eid ex g = (v, g') \<Longrightarrow> gym_step cfg g g'"
| late_verify: "verify_locked cfg st eid ex g = (v, g') \<Longrightarrow> gym_step cfg g g'"
| step_checkpoint: "checkpoint cfg eid g = (d, g') \<Longrightarrow> gym_step cfg g g'"
| step_restore: "restore cfg eid saved aut g = (r, g') \<Longrightarrow> gym_step cfg g g'"
| late_restore: "bind_act (observe_unlocked cfg st) (restore_fresh cfg st eid saved aut) g = (r, g') \<Longrightarrow>
    gym_step cfg g g'"
| step_teardown: "teardown cfg eid aut g = (r, g') \<Longrightarrow> gym_step cfg g g'"
| late_teardown: "teardown_locked cfg st eid aut g = (r, g') \<Longrightarrow> gym_step cfg g g'"

inductive_cases gym_stepE: "gym_step cfg g g'"

definition reachable :: "('p, 'h, 'w) gym_config \<Rightarrow> ('p, 'h, 'w) gym \<Rightarrow> bool" where
  "reachable cfg g \<longleftrightarrow> (\<exists>w. (gym_step cfg)\<^sup>*\<^sup>* (init_gym w) g)"

lemma gym_step_inv: "gym_step cfg g g' \<Longrightarrow> gym_inv cfg g \<Longrightarrow> gym_inv cfg g'"
proof (induction rule: gym_step.induct)
  case (late_restore st eid saved aut g r g')
  then show ?case by (auto elim!: bind_act_cases dest: inv_dests)
qed (auto dest: inv_dests)

lemma gym_step_evolves: "gym_step cfg g g' \<Longrightarrow> evolves g g'"
proof (induction rule: gym_step.induct)
  case (late_restore st eid saved aut g r g')
  then show ?case
    by (auto elim!: bind_act_cases dest!: observe_unlocked_frame restore_fresh_evolves)
qed (auto dest: record_receipt_evolves register_provider_evolves materialize_evolves create_episode_evolves
    observe_evolves read_evolves act_evolves act_locked_evolves verify_evolves
    verify_locked_evolves checkpoint_evolves teardown_evolves teardown_locked_evolves
    simp: restore_def
    elim!: bind_act_cases dest!: episode_state_same observe_unlocked_frame restore_fresh_evolves)

lemma gym_steps_evolve: "(gym_step cfg)\<^sup>*\<^sup>* g g' \<Longrightarrow> evolves g g'"
  by (induction rule: rtranclp_induct) (auto intro: evolves_trans gym_step_evolves)

lemma gym_steps_inv: "(gym_step cfg)\<^sup>*\<^sup>* g g' \<Longrightarrow> gym_inv cfg g \<Longrightarrow> gym_inv cfg g'"
  by (induction rule: rtranclp_induct) (auto intro: gym_step_inv)

lemma reachable_inv: "reachable cfg g \<Longrightarrow> gym_inv cfg g"
  by (auto simp: reachable_def intro: gym_steps_inv)

lemma reachable_init [simp]: "reachable cfg (init_gym w)"
  by (auto simp: reachable_def)

lemma reachable_step: "reachable cfg g \<Longrightarrow> gym_step cfg g g' \<Longrightarrow> reachable cfg g'"
  by (auto simp: reachable_def intro: rtranclp.rtrancl_into_rtrancl)

end
