(* ===== verification/Kernel_Demo.thy ===== *)
theory Kernel_Demo
  imports Kernel_Runs
begin

text \<open>
  A concrete run of the kernel over the in-memory provider, at which the properties that
  have hypotheses are exercised: the provider is registered, an episode that needs authority
  is materialized, a value is set in it. The digest of the run is a small structural
  fingerprint (never unfolded by the proofs) and its uuids count.
\<close>

fun demo_digest :: digest_fun where
  "demo_digest JNull = ''-''"
| "demo_digest (JBool b) = (if b then ''t'' else ''f'')"
| "demo_digest (JInt i) = (if i = 0 then ''0'' else if i < 0 then ''m'' else ''p'')"
| "demo_digest (JFloat q) = ''q''"
| "demo_digest (JStr s) = take 1 s"
| "demo_digest (JArr xs) = ''['' @ concat (map demo_digest xs) @ '']''"
| "demo_digest (JObj xs) = ''{'' @ concat (map (\<lambda>(k, v). demo_digest v) xs) @ ''}''"

definition demo_uuid :: "nat \<Rightarrow> string" where
  "demo_uuid n = replicate (Suc n) (CHR ''u'')"

definition demo_cfg ::
    "string list \<Rightarrow> (bool, memory_handle, memory_world) gym_config" where
  "demo_cfg refs =
     \<lparr>gc_digest = demo_digest, gc_size = (\<lambda>v. case v of JObj xs \<Rightarrow> Some (length xs) | _ \<Rightarrow> Some 1),
      gc_uuid = demo_uuid, gc_now = (\<lambda>n. ''now''), gc_limits = default_limits,
      gc_authorize = allow_list_authorize refs, gc_permits = allow_all_permits,
      gc_judge = dict_subset_judge, gc_profile_conforms = (\<lambda>caps. Inr True),
      gc_spi = memory_spi demo_uuid (\<lambda>v. ''?'')\<rparr>"

definition demo_intent :: "string \<Rightarrow> bool \<Rightarrow> materialization_intent" where
  "demo_intent key needs_authority =
     \<lparr>mi_provider = ''memory'', mi_scenario = None,
      mi_config = [(''requires_authority'', JBool needs_authority)],
      mi_authority_ref = None, mi_principal = None, mi_idempotency_key = key\<rparr>"

definition demo_set :: "string \<Rightarrow> string \<Rightarrow> string option \<Rightarrow> actuation_intent" where
  "demo_set eid key ref =
     \<lparr>ai_episode_id = eid, ai_capability = ''urn:gymact:memory:capability:set'',
      ai_payload = [(''key'', JStr ''door''), (''value'', JStr ''open'')],
      ai_authority_ref = ref, ai_principal = None, ai_planning_provenance_digest = None,
      ai_idempotency_key = key\<rparr>"

abbreviation demo :: "(bool, memory_handle, memory_world) gym_config" where
  "demo \<equiv> demo_cfg [''board'']"

definition demo_g1 :: "(bool, memory_handle, memory_world) gym" where
  "demo_g1 = snd (register_provider demo False (init_gym []))"

definition demo_g2 :: "(bool, memory_handle, memory_world) gym" where
  "demo_g2 = snd (materialize demo (demo_intent ''m1'' True) demo_g1)"

definition demo_e1 :: string where "demo_e1 = ''u''"

definition demo_act :: actuation_intent where
  "demo_act = demo_set demo_e1 ''k1'' (Some ''board'')"

definition demo_g3 :: "(bool, memory_handle, memory_world) gym" where
  "demo_g3 = snd (act demo demo_act demo_g2)"

lemma reachable_demo_g1: "reachable demo demo_g1"
  unfolding demo_g1_def
  by (rule reachable_step [OF reachable_init]) (rule step_register, rule prod.collapse [symmetric])

lemma reachable_materialize:
  "reachable cfg g \<Longrightarrow> reachable cfg (snd (materialize cfg i g))"
  by (erule reachable_step) (rule step_materialize, rule prod.collapse [symmetric])

lemma reachable_act: "reachable cfg g \<Longrightarrow> reachable cfg (snd (act cfg i g))"
  by (erule reachable_step) (rule step_act, rule prod.collapse [symmetric])

lemma reachable_demo: "reachable demo demo_g2" "reachable demo demo_g3"
  unfolding demo_g3_def demo_g2_def
  by (intro reachable_act reachable_materialize reachable_demo_g1)+

section \<open>Evaluation\<close>

lemma demo_cfg_simps [simp]:
  "gc_digest (demo_cfg refs) = demo_digest" "gc_uuid (demo_cfg refs) = demo_uuid"
  "gc_now (demo_cfg refs) = (\<lambda>n. ''now'')" "gc_limits (demo_cfg refs) = default_limits"
  "gc_authorize (demo_cfg refs) = allow_list_authorize refs"
  "gc_permits (demo_cfg refs) = allow_all_permits"
  "gc_judge (demo_cfg refs) = dict_subset_judge"
  "gc_profile_conforms (demo_cfg refs) = (\<lambda>caps. Inr True)"
  "gc_spi (demo_cfg refs) = memory_spi demo_uuid (\<lambda>v. ''?'')"
  "gc_size (demo_cfg refs) v = (case v of JObj xs \<Rightarrow> Some (length xs) | _ \<Rightarrow> Some 1)"
  by (simp_all add: demo_cfg_def)

named_theorems demo_eval \<open>definitions unfolded to evaluate the concrete run\<close>

lemmas [demo_eval] =
  bind_act_def Let_def init_gym_def empty_ledger_def fresh_uuid_def tick_def
  demo_intent_def demo_set_def demo_uuid_def default_limits_def
  ensure_input_def ensure_state_def ensure_checkpoint_def ensure_size_def bounded_def pure_res_def
  mint_def new_receipt_def record_receipt_def ledger_append_def key_conflict_def same_intent_def
  materialization_result_def actuation_result_def register_provider_def
  authority_decision_def allow_list_authorize_def materialize_refuse_def admit_capabilities_def
  observe_environment_def materialize_admit_def materialize_with_def materialize_def
  provider_subject_def materialize_capability_def episode_state_def observe_unlocked_def
  capabilities_def capability_named_def memory_provider_materialize_def dict_value_def
  memory_spi_def memory_defs memory_capabilities_def memory_actuate_def memory_apply_def
  payload_key_def allow_all_permits_def
  act_def act_locked_def act_fresh_def act_gates_def act_authorize_def act_do_def
  act_attempt_def act_refuse_def act_receipt_def error_digest_def

lemma demo_g1_eq [demo_eval]: "demo_g1 = (init_gym [])\<lparr>g_providers := [(''memory'', False)]\<rparr>"
  by (simp add: demo_g1_def demo_cfg_def memory_spi_def register_provider_def init_gym_def)

definition demo_env :: memory_handle where
  "demo_env = \<lparr>mh_index = 0, mh_environment_id = ''urn:gymact:memory:environment:u'',
     mh_requires_authority = True\<rparr>"

definition demo_episode :: episode where
  "demo_episode = \<lparr>ep_episode_id = ''u'', ep_provider = ''memory'',
     ep_environment_id = ''urn:gymact:memory:environment:u'', ep_scenario = None,
     ep_standing = ALIVE\<rparr>"

definition demo_r1 :: receipt where
  "demo_r1 = (new_receipt ''uu'' ''now'' ''u'' MATERIALIZE ALIVE)
     \<lparr>rc_subject_ref := Some ''urn:gymact:memory:environment:u'',
      rc_capability_ref := Some ''urn:gymact:operation:materialize'',
      rc_idempotency_key := Some ''m1'', rc_post_state_digest := Some (demo_digest (JObj []))\<rparr>"

lemma demo_g2_eq [demo_eval]:
  "demo_g2 =
     \<lparr>g_providers = [(''memory'', False)],
      g_episodes = [''u'' \<mapsto> \<lparr>es_episode = demo_episode, es_environment = demo_env\<rparr>],
      g_actuation_idempotency = (\<lambda>_. None),
      g_materialization_idempotency = [''m1'' \<mapsto>
        \<lparr>yr_intent_digest = demo_digest (materialization_intent_json (demo_intent ''m1'' True)),
         yr_result = \<lparr>mr_accepted = True, mr_standing = ALIVE, mr_episode = Some demo_episode,
           mr_observation = Some \<lparr>ob_episode_id = ''u'', ob_state = [],
             ob_state_digest = demo_digest (JObj [])\<rparr>, mr_receipt = demo_r1\<rparr>\<rparr>],
      g_teardown_receipts = (\<lambda>_. None), g_receipts = (\<lambda>_. [])(''u'' := [demo_r1]),
      g_ledger = \<lparr>ml_records = [next_record demo_digest [] demo_r1],
        ml_by_receipt = [''uu'' \<mapsto> next_record demo_digest [] demo_r1],
        ml_by_idempotency_key = [''m1'' \<mapsto> next_record demo_digest [] demo_r1]\<rparr>,
      g_verifications = [], g_ticks = Suc (Suc 0),
      g_world = [\<lparr>me_environment_id = ''urn:gymact:memory:environment:u'',
        me_requires_authority = True, me_state = [], me_closed = False\<rparr>]\<rparr>"
  by (simp add: demo_g2_def demo_eval demo_r1_def demo_env_def demo_episode_def
      del: demo_digest.simps)

lemmas [demo_eval] = demo_e1_def demo_act_def demo_env_def demo_episode_def demo_r1_def

definition demo_r2 :: receipt where
  "demo_r2 = (new_receipt ''uuu'' ''now'' ''u'' ACT ALIVE)
     \<lparr>rc_subject_ref := Some ''urn:gymact:memory:environment:u'',
      rc_capability_ref := Some ''urn:gymact:memory:capability:set'',
      rc_idempotency_key := Some ''k1'', rc_authority_ref := Some ''board'',
      rc_authority_evidence_ref := Some ''urn:gymact:authority-decision:board'',
      rc_pre_state_digest := Some (demo_digest (JObj [])),
      rc_post_state_digest := Some (demo_digest (JObj [(''door'', JStr ''open'')]))\<rparr>"

definition demo_result :: actuation_result where
  "demo_result =
     \<lparr>ar_accepted = True, ar_standing = ALIVE,
      ar_effect = Some [(''before'', JObj []), (''after'', JObj [(''door'', JStr ''open'')]),
        (''capability'', JStr ''urn:gymact:memory:capability:set'')],
      ar_observation = Some \<lparr>ob_episode_id = ''u'', ob_state = [(''door'', JStr ''open'')],
        ob_state_digest = demo_digest (JObj [(''door'', JStr ''open'')])\<rparr>,
      ar_receipt = demo_r2\<rparr>"

abbreviation demo_records :: "evidence_record list" where
  "demo_records \<equiv> [next_record demo_digest [] demo_r1]"

text \<open>The state after the actuation, in full.\<close>

lemma demo_act_eq:
  "act demo demo_act demo_g2 = (Inr demo_result,
     demo_g2\<lparr>g_actuation_idempotency := [(''u'', ''k1'') \<mapsto>
         \<lparr>xr_intent_digest = demo_digest (actuation_intent_json demo_act),
          xr_result = demo_result\<rparr>],
       g_receipts := (\<lambda>_. [])(''u'' := [demo_r1, demo_r2]),
       g_ledger := \<lparr>ml_records = demo_records @ [next_record demo_digest demo_records demo_r2],
         ml_by_receipt = [''uu'' \<mapsto> next_record demo_digest [] demo_r1,
           ''uuu'' \<mapsto> next_record demo_digest demo_records demo_r2],
         ml_by_idempotency_key = [''m1'' \<mapsto> next_record demo_digest [] demo_r1,
           ''k1'' \<mapsto> next_record demo_digest demo_records demo_r2]\<rparr>,
       g_ticks := Suc (Suc (Suc 0)),
       g_world := [\<lparr>me_environment_id = ''urn:gymact:memory:environment:u'',
         me_requires_authority = True, me_state = [(''door'', JStr ''open'')],
         me_closed = False\<rparr>]\<rparr>)"
  by (simp add: demo_eval demo_result_def demo_r2_def del: demo_digest.simps)

lemmas demo_g3_eq = demo_g3_def [unfolded demo_act_eq snd_conv]

text \<open>The run is not vacuous: the actuation is accepted and changes the world.\<close>

lemma demo_act_accepted:
  "\<exists>r. act demo demo_act demo_g2 = (Inr r, demo_g3) \<and> ar_accepted r \<and> ar_standing r = ALIVE"
  by (simp add: demo_act_eq demo_g3_def) (simp add: demo_result_def)

lemma demo_world: "map me_state (g_world demo_g3) = [[(''door'', JStr ''open'')]]"
  by (simp add: demo_g3_eq)

lemma demo_act_first: "g_actuation_idempotency demo_g2 (act_key demo_act) = None"
  by (simp add: demo_g2_eq)

lemma demo_g3_live: "g_episodes demo_g3 demo_e1 \<noteq> None"
  by (simp add: demo_g3_eq demo_g2_eq demo_e1_def)

text \<open>The same actuation without an authority reference, and under the denying resolver.\<close>

definition demo_anon :: actuation_intent where
  "demo_anon = demo_set demo_e1 ''k2'' None"

lemma demo_anon_refused:
  "\<exists>r g. act demo demo_anon demo_g2 = (Inr r, g) \<and> ar_standing r = REFUSED"
proof (cases "act demo demo_anon demo_g2")
  case (Pair x g)
  have "case act demo demo_anon demo_g2 of
     (Inr r, g) \<Rightarrow> ar_standing r = REFUSED | (Inl e, g) \<Rightarrow> False"
    by (simp add: demo_anon_def demo_eval del: demo_digest.simps)
  with Pair show ?thesis by (cases x) simp_all
qed

abbreviation demo_deny :: "(bool, memory_handle, memory_world) gym_config" where
  "demo_deny \<equiv> demo\<lparr>gc_authorize := deny_authorize\<rparr>"

lemma demo_deny_returns: "\<exists>r g. act demo_deny demo_act demo_g2 = (Inr r, g)"
proof (cases "act demo_deny demo_act demo_g2")
  case (Pair x g)
  have "case act demo_deny demo_act demo_g2 of (Inr r, g) \<Rightarrow> True | (Inl e, g) \<Rightarrow> False"
    by (simp add: demo_eval deny_authorize_def del: demo_digest.simps)
  with Pair show ?thesis by (cases x) simp_all
qed

lemma demo_materialized:
  "\<exists>r. materialize demo (demo_intent ''m1'' True) demo_g1 = (Inr r, demo_g2) \<and> mr_accepted r"
proof (cases "materialize demo (demo_intent ''m1'' True) demo_g1")
  case (Pair x g)
  have "case materialize demo (demo_intent ''m1'' True) demo_g1 of
     (Inr r, g) \<Rightarrow> mr_accepted r | (Inl e, g) \<Rightarrow> False"
    by (simp add: demo_eval del: demo_digest.simps)
  with Pair show ?thesis unfolding demo_g2_def by (cases x) simp_all
qed

end
