(* ===== verification/Kernel_Props.thy ===== *)
theory Kernel_Props
  imports Kernel_Demo
begin

text \<open>
  What the kernel promises its callers: zero unreceipted actuation, exactly-once results
  per idempotency key, no actuation without the semantic and the authority gates,
  judgement that does not depend on the provider's own claim, terminal teardown, recovery
  of the observed state, and evidence that cannot be rewritten.
\<close>

section \<open>Results of an actuation\<close>

lemma act_receipt_simps [simp]:
  "rc_episode_id (act_receipt cfg st i g stand before after) = ai_episode_id i"
  "rc_idempotency_key (act_receipt cfg st i g stand before after) = Some (ai_idempotency_key i)"
  "rc_capability_ref (act_receipt cfg st i g stand before after) = Some (ai_capability i)"
  "rc_standing (act_receipt cfg st i g stand before after) = stand"
  "rc_operation (act_receipt cfg st i g stand before after) = ACT"
  "rc_pre_state_digest (act_receipt cfg st i g stand before after) = Some (ob_state_digest before)"
  "rc_post_state_digest (act_receipt cfg st i g stand before after) = Some (ob_state_digest after)"
  by (simp_all add: act_receipt_def mint_def new_receipt_def)

text \<open>The common shape of every result: a receipt of this intent, recorded and cached.\<close>

definition act_outcome ::
    "('p, 'h, 'w) gym_config \<Rightarrow> actuation_intent \<Rightarrow> bool \<Rightarrow> actuation_result \<Rightarrow>
       ('p, 'h, 'w) gym \<Rightarrow> bool" where
  "act_outcome cfg i cache r g' \<longleftrightarrow>
     in_ledger g' (ar_receipt r) \<and>
     rc_episode_id (ar_receipt r) = ai_episode_id i \<and>
     rc_idempotency_key (ar_receipt r) = Some (ai_idempotency_key i) \<and>
     rc_capability_ref (ar_receipt r) = Some (ai_capability i) \<and>
     rc_operation (ar_receipt r) = ACT \<and>
     rc_standing (ar_receipt r) = ar_standing r \<and>
     (ar_accepted r \<longleftrightarrow> ar_standing r = ALIVE) \<and>
     (cache \<longrightarrow> g_actuation_idempotency g' (act_key i) =
        Some \<lparr>xr_intent_digest = gc_digest cfg (actuation_intent_json i), xr_result = r\<rparr>)"

lemma act_refuse_outcome:
  "act_refuse cfg st i cache stand before after aut ev err reason g = (Inr r, g') \<Longrightarrow>
     gym_inv cfg g \<Longrightarrow> stand \<noteq> ALIVE \<Longrightarrow> act_outcome cfg i cache r g' \<and> \<not> ar_accepted r"
  unfolding act_refuse_def
  by (drule actuation_result_returns) (auto simp: act_outcome_def)

lemma act_do_outcome:
  assumes "act_do cfg st i cap before ev g = (Inr r, g')" "gym_inv cfg g"
  shows "act_outcome cfg i True r g'"
proof -
  obtain y g1 where att: "act_attempt cfg st i cap g = (y, g1)"
    by (cases "act_attempt cfg st i cap g")
  then have inv: "gym_inv cfg g1" using assms(2) by (auto dest: act_attempt_frame)
  show ?thesis
  proof (cases y)
    case (Inl e)
    with assms(1) att inv show ?thesis
      by (auto simp: act_do_def Let_def split: prod.splits dest!: observe_unlocked_frame
          dest: act_refuse_outcome)
  next
    case (Inr ea)
    with assms(1) att inv show ?thesis
      by (cases ea) (auto simp: act_do_def act_outcome_def dest!: actuation_result_returns)
  qed
qed

lemma act_authorize_outcome:
  assumes "act_authorize cfg st i cap before g = (Inr r, g')" "gym_inv cfg g"
  shows "act_outcome cfg i True r g'"
  using assms unfolding act_authorize_def Let_def
  by (auto split: result_splits dest!: authority_decision_frame
      dest: act_refuse_outcome act_do_outcome)

lemma act_gates_outcome:
  "act_gates cfg st i before items g = (Inr r, g') \<Longrightarrow> gym_inv cfg g \<Longrightarrow>
     act_outcome cfg i True r g'"
  by (auto simp: act_gates_def Let_def split: option.splits if_splits
      dest: act_refuse_outcome act_authorize_outcome)

lemma act_fresh_outcome:
  "act_fresh cfg st i before g = (Inr r, g') \<Longrightarrow> gym_inv cfg g \<Longrightarrow>
     act_outcome cfg i True r g'"
  by (auto simp: act_fresh_def split: sum.splits elim!: bind_act_InrE dest!: capabilities_frame
      dest: act_refuse_outcome act_gates_outcome)

text \<open>The first use of a key, a replay of it, and its use for another intent.\<close>

lemma act_locked_cases:
  assumes "act_locked cfg st i g = (Inr r, g')"
  obtains (fresh) before g1 where "g_actuation_idempotency g (act_key i) = None"
      "observe_unlocked cfg st g = (Inr before, g1)" "act_fresh cfg st i before g1 = (Inr r, g')"
    | (replay) x where "g_actuation_idempotency g (act_key i) = Some x"
      "xr_intent_digest x = gc_digest cfg (actuation_intent_json i)" "r = xr_result x" "g' = g"
    | (conflict) x before g1 where "g_actuation_idempotency g (act_key i) = Some x"
      "xr_intent_digest x \<noteq> gc_digest cfg (actuation_intent_json i)"
      "observe_unlocked cfg st g = (Inr before, g1)"
      "act_refuse cfg st i False REFUSED before before (ai_authority_ref i) None None
         ''IDEMPOTENCY_KEY_CONFLICT'' g1 = (Inr r, g')"
  using assms unfolding act_locked_def
  by (auto split: option.splits if_splits elim!: bind_act_InrE)

lemma act_InrE:
  assumes "act cfg i g = (Inr r, g')"
  obtains st where "g_episodes g (ai_episode_id i) = Some st"
    "act_locked cfg st i g = (Inr r, g')"
  using assms unfolding act_def by (auto elim!: bind_act_InrE dest: episode_state_returns)

lemma act_fresh_locked_outcome:
  assumes "act_locked cfg st i g = (Inr r, g')" "gym_inv cfg g"
    and "g_actuation_idempotency g (act_key i) = None"
  shows "act_outcome cfg i True r g'"
  using assms(1)
proof (cases rule: act_locked_cases)
  case (fresh before g1)
  with assms(2) show ?thesis
    by (auto dest!: observe_unlocked_frame dest: act_fresh_outcome)
qed (use assms(3) in auto)

section \<open>Zero unreceipted actuation\<close>

text \<open>C1: in every reachable state of the runtime, a call of \<open>act\<close> that returns at all
  (accepted, refused, unsupported or blocked, fresh or replayed) returns a receipt that is
  evidence in the ledger and names the episode and the idempotency key of the intent.\<close>

theorem act_receipted:
  assumes "reachable cfg g" "act cfg i g = (Inr r, g')"
  shows "in_ledger g' (ar_receipt r) \<and> rc_episode_id (ar_receipt r) = ai_episode_id i \<and>
    rc_idempotency_key (ar_receipt r) = Some (ai_idempotency_key i) \<and>
    verify_evidence_chain cfg g'"
proof -
  have inv: "gym_inv cfg g" "gym_inv cfg g'"
    using assms by (auto dest: reachable_inv act_inv)
  then have chain: "verify_evidence_chain cfg g'"
    by (simp add: gym_inv_def verify_evidence_chain_def ledger_inv_verify)
  from assms(2) obtain st where "act_locked cfg st i g = (Inr r, g')" by (rule act_InrE)
  then show ?thesis
  proof (cases rule: act_locked_cases)
    case (fresh before g1)
    with inv(1) chain show ?thesis
      by (auto simp: act_outcome_def dest!: observe_unlocked_frame dest: act_fresh_outcome)
  next
    case (replay x)
    with inv(1) chain show ?thesis by (auto simp: gym_inv_def)
  next
    case (conflict x before g1)
    with inv(1) chain show ?thesis
      by (auto simp: act_outcome_def dest!: observe_unlocked_frame dest: act_refuse_outcome)
  qed
qed

theorem act_receipted_witness:
  "\<exists>r. act demo demo_act demo_g2 = (Inr r, demo_g3) \<and> ar_accepted r \<and>
     in_ledger demo_g3 (ar_receipt r)"
  using demo_act_accepted act_receipted [OF reachable_demo(1)] by blast

section \<open>Exactly once\<close>

text \<open>C2: once \<open>act\<close> has returned a result for the first use of an idempotency key, then
  after any further run of the runtime (other calls, late lock holders, changes of the
  world) the same intent gets the same result back and nothing changes, as long as the
  episode is live: no second actuation, no second receipt.\<close>

theorem act_exactly_once:
  assumes "reachable cfg g" "g_actuation_idempotency g (act_key i) = None"
    and "act cfg i g = (Inr r, g1)" "(gym_step cfg)\<^sup>*\<^sup>* g1 g2"
    and "g_episodes g2 (ai_episode_id i) \<noteq> None"
  shows "act cfg i g2 = (Inr r, g2)"
proof -
  from assms(3) obtain st where "act_locked cfg st i g = (Inr r, g1)" by (rule act_InrE)
  with assms(1,2) have "g_actuation_idempotency g1 (act_key i) =
      Some \<lparr>xr_intent_digest = gc_digest cfg (actuation_intent_json i), xr_result = r\<rparr>"
    using act_fresh_locked_outcome reachable_inv by (fastforce simp: act_outcome_def)
  with gym_steps_evolve [OF assms(4)] have "g_actuation_idempotency g2 (act_key i) =
      Some \<lparr>xr_intent_digest = gc_digest cfg (actuation_intent_json i), xr_result = r\<rparr>"
    by (auto simp: evolves_def map_le_def dom_def)
  with assms(5) show ?thesis
    by (auto simp: act_def bind_act_def episode_state_def act_locked_def)
qed

theorem act_exactly_once_witness: "\<exists>r. act demo demo_act demo_g3 = (Inr r, demo_g3) \<and> ar_accepted r"
proof -
  obtain r where r: "act demo demo_act demo_g2 = (Inr r, demo_g3)" "ar_accepted r"
    using demo_act_accepted by blast
  have "g_episodes demo_g3 (ai_episode_id demo_act) \<noteq> None"
    using demo_g3_live by (simp add: demo_act_def demo_set_def)
  with act_exactly_once [OF reachable_demo(1) demo_act_first r(1) rtranclp.rtrancl_refl] r(2)
  show ?thesis by blast
qed

section \<open>The gates\<close>

text \<open>What \<open>act\<close> has checked when it accepts the first use of a key.\<close>

definition act_admitted ::
    "('p, 'h, 'w) gym_config \<Rightarrow> 'h episode_state \<Rightarrow> actuation_intent \<Rightarrow> bool" where
  "act_admitted cfg st i \<longleftrightarrow>
     ensure_input cfg (JObj (ai_payload i)) = Inr () \<and>
     gc_permits cfg (ai_principal i) (ai_capability i) \<and>
     (\<exists>items w w'. env_capabilities (gc_spi cfg) (es_environment st) w = (Inr items, w') \<and>
        (\<exists>cap. capability_named items (ai_capability i) = Some cap \<and>
           cap_consequence cap = CONS_DO)) \<and>
     (env_requires_authority (gc_spi cfg) (es_environment st) \<longrightarrow>
        (\<exists>q d w w'. gc_authorize cfg q w = (Done d, w') \<and> ad_admitted d \<and>
           aq_authority_ref q = ai_authority_ref i \<and> aq_operation q = ACT \<and>
           aq_capability_ref q = ai_capability i \<and> aq_payload q = ai_payload i))"

lemma capability_named_iri: "capability_named items iri = Some cap \<Longrightarrow> cap_iri cap = iri"
  by (auto simp: capability_named_def dest: find_SomeD)

lemma act_refuse_not_accepted:
  "act_refuse cfg st i cache stand before after aut ev err reason g = (Inr r, g') \<Longrightarrow>
     \<not> ar_accepted r \<and> ar_standing r = stand"
  by (auto simp: act_refuse_def actuation_result_def elim!: bind_act_InrE)

lemma bounded_returns:
  "bounded code call g = (Inr a, g') \<Longrightarrow> \<exists>w. call (g_world g) = (Done a, w)"
  by (auto simp: bounded_def split: prod.splits call.splits exn.splits if_splits)

lemma authority_admitted:
  assumes "authority_decision cfg req q g = (Inr d, g')" "req"
  shows "\<exists>w w'. gc_authorize cfg q w = (Done d, w')"
  using assms by (auto simp: authority_decision_def dest!: bounded_returns)

lemma act_authorize_accepted:
  assumes "act_authorize cfg st i cap before g = (Inr r, g')" "ar_accepted r"
    and "env_requires_authority (gc_spi cfg) (es_environment st)" "cap_iri cap = ai_capability i"
  shows "\<exists>q d w w'. gc_authorize cfg q w = (Done d, w') \<and> ad_admitted d \<and>
    aq_authority_ref q = ai_authority_ref i \<and> aq_operation q = ACT \<and>
    aq_capability_ref q = ai_capability i \<and> aq_payload q = ai_payload i"
proof -
  let ?q = "\<lparr>aq_episode_id = ai_episode_id i,
            aq_subject_ref = env_id (gc_spi cfg) (es_environment st), aq_operation = ACT,
            aq_capability_ref = cap_iri cap, aq_payload = ai_payload i,
            aq_authority_ref = ai_authority_ref i, aq_principal = None\<rparr>"
  from assms(1,2) obtain d g1 where d: "ad_admitted d"
    "authority_decision cfg True ?q g = (Inr d, g1)"
    using assms(3) unfolding act_authorize_def Let_def
    by (auto split: result_splits dest: act_refuse_not_accepted)
  from authority_admitted [OF d(2)] obtain w w' where "gc_authorize cfg ?q w = (Done d, w')"
    by auto
  with d(1) assms(4) show ?thesis
    by (intro exI [of _ ?q] exI [of _ d] exI [of _ w] exI [of _ w']) simp
qed

lemma act_locked_admitted:
  assumes "act_locked cfg st i g = (Inr r, g')" "ar_accepted r"
    and "g_actuation_idempotency g (act_key i) = None"
  shows "act_admitted cfg st i"
  using assms(1)
proof (cases rule: act_locked_cases)
  case (fresh before g1)
  then obtain items g2 where input: "ensure_input cfg (JObj (ai_payload i)) = Inr ()"
    and caps: "capabilities cfg st g1 = (Inr items, g2)"
    and gates: "act_gates cfg st i before items g2 = (Inr r, g')"
    using assms(2) unfolding act_fresh_def
    by (auto split: sum.splits elim!: bind_act_InrE dest: act_refuse_not_accepted)
  from gates assms(2) obtain cap where cap: "capability_named items (ai_capability i) = Some cap"
      "cap_consequence cap = CONS_DO" "gc_permits cfg (ai_principal i) (cap_iri cap)"
      "act_authorize cfg st i cap before g2 = (Inr r, g')"
    unfolding act_gates_def Let_def
    by (auto split: option.splits if_splits dest: act_refuse_not_accepted)
  note iri = capability_named_iri [OF cap(1)]
  have "\<exists>w w'. env_capabilities (gc_spi cfg) (es_environment st) w = (Inr items, w')"
    using caps by (auto simp: capabilities_def split: prod.splits)
  with input cap iri act_authorize_accepted [OF cap(4) assms(2) _ iri] show ?thesis
    unfolding act_admitted_def by auto
qed (use assms(3) in auto)

context authority_resolver
begin

lemma admitted_needs_allowed_ref:
  assumes "gc_authorize cfg = authorize" "act_admitted cfg st i"
    and "env_requires_authority (gc_spi cfg) (es_environment st)"
  shows "\<exists>ref. ai_authority_ref i = Some ref \<and> allowed ref"
proof -
  from assms obtain q d w w' where "authorize q w = (Done d, w')" "ad_admitted d"
    and ref: "aq_authority_ref q = ai_authority_ref i"
    unfolding act_admitted_def by auto
  from admits_allowed [OF this(1,2)] ref show ?thesis by simp
qed

end

text \<open>C9: with the allow-list resolver, an accepted actuation of an environment that requires
  authority carried a reference from the allow list; its payload passed the input check,
  and its capability is a DO capability the environment offered and the principal's scope
  permits.\<close>

theorem act_needs_authority:
  assumes "gc_authorize cfg = allow_list_authorize refs"
    and "act cfg i g = (Inr r, g')" "ar_accepted r"
    and "g_actuation_idempotency g (act_key i) = None"
  shows "\<exists>st. g_episodes g (ai_episode_id i) = Some st \<and> act_admitted cfg st i \<and>
    (env_requires_authority (gc_spi cfg) (es_environment st) \<longrightarrow>
       (\<exists>ref \<in> set refs. ai_authority_ref i = Some ref))"
proof -
  from assms(2) obtain st where st: "g_episodes g (ai_episode_id i) = Some st"
    "act_locked cfg st i g = (Inr r, g')" by (rule act_InrE)
  from act_locked_admitted [OF st(2) assms(3,4)] have "act_admitted cfg st i" .
  with st(1) allow_list.admitted_needs_allowed_ref [OF assms(1)] show ?thesis by blast
qed

theorem act_needs_authority_witness:
  "\<exists>st. g_episodes demo_g2 (ai_episode_id demo_act) = Some st \<and> act_admitted demo st demo_act"
proof -
  obtain r where r: "act demo demo_act demo_g2 = (Inr r, demo_g3)" "ar_accepted r"
    using demo_act_accepted by blast
  have "gc_authorize demo = allow_list_authorize [''board'']" by simp
  from act_needs_authority [OF this r demo_act_first] show ?thesis by blast
qed

text \<open>Under the default resolver \<open>DenyAuthority\<close> nothing is ever actuated on an
  environment that requires authority: \<open>act\<close> accepts no first use of a key.\<close>

theorem act_denied_by_default:
  assumes "gc_authorize cfg = deny_authorize" "g_episodes g (ai_episode_id i) = Some st"
    and "env_requires_authority (gc_spi cfg) (es_environment st)"
    and "act cfg i g = (Inr r, g')" "g_actuation_idempotency g (act_key i) = None"
  shows "\<not> ar_accepted r"
proof
  assume "ar_accepted r"
  from assms(2,4) have "act_locked cfg st i g = (Inr r, g')"
    by (auto elim: act_InrE)
  from act_locked_admitted [OF this \<open>ar_accepted r\<close> assms(5)]
    deny.admitted_needs_allowed_ref [OF assms(1) _ assms(3)] show False by blast
qed

theorem act_denied_by_default_witness:
  "\<exists>r g. act demo_deny demo_act demo_g2 = (Inr r, g) \<and> \<not> ar_accepted r"
proof -
  obtain r g where r: "act demo_deny demo_act demo_g2 = (Inr r, g)"
    using demo_deny_returns by blast
  have live: "g_episodes demo_g2 (ai_episode_id demo_act) =
      Some \<lparr>es_episode = demo_episode, es_environment = demo_env\<rparr>"
    by (simp add: demo_g2_eq demo_act_def demo_set_def demo_e1_def)
  have "gc_authorize demo_deny = deny_authorize" by simp
  from act_denied_by_default [OF this live _ r demo_act_first] r show ?thesis
    by (auto simp: memory_spi_def demo_env_def)
qed

section \<open>A refused actuation did not happen\<close>

definition with_actuate ::
    "('p, 'h, 'w) gym_config \<Rightarrow> ('h \<Rightarrow> capability \<Rightarrow> dict \<Rightarrow> 'w \<Rightarrow> dict call \<times> 'w) \<Rightarrow>
       ('p, 'h, 'w) gym_config" where
  "with_actuate cfg f = cfg\<lparr>gc_spi := (gc_spi cfg)\<lparr>env_actuate := f\<rparr>\<rparr>"

lemma with_actuate_same [simp]:
  "ensure_input (with_actuate cfg f) = ensure_input cfg"
  "ensure_state (with_actuate cfg f) = ensure_state cfg"
  "observe_environment (with_actuate cfg f) = observe_environment cfg"
  "observe_unlocked (with_actuate cfg f) = observe_unlocked cfg"
  "capabilities (with_actuate cfg f) = capabilities cfg"
  "authority_decision (with_actuate cfg f) = authority_decision cfg"
  "act_refuse (with_actuate cfg f) = act_refuse cfg"
  "gc_permits (with_actuate cfg f) = gc_permits cfg"
  "gc_digest (with_actuate cfg f) = gc_digest cfg"
  "env_requires_authority (gc_spi (with_actuate cfg f)) = env_requires_authority (gc_spi cfg)"
  "env_id (gc_spi (with_actuate cfg f)) = env_id (gc_spi cfg)"
  by (simp_all add: with_actuate_def fun_eq_iff ensure_input_def ensure_state_def
      observe_environment_def observe_unlocked_def capabilities_def authority_decision_def
      act_refuse_def act_receipt_def mint_def actuation_result_def record_receipt_def [abs_def])

lemma act_do_standing:
  assumes "act_do cfg st i cap before ev g = (Inr r, g')"
  shows "ar_standing r \<in> {ALIVE, BLOCKED}"
  using assms unfolding act_do_def Let_def
  by (auto split: prod.splits sum.splits dest: act_refuse_not_accepted
      simp: actuation_result_def elim!: bind_act_InrE)

lemma act_authorize_no_call:
  assumes "act_authorize cfg st i cap before g = (Inr r, g')"
    and "ar_standing r \<notin> {ALIVE, BLOCKED}"
  shows "act_authorize (with_actuate cfg f) st i cap before g = (Inr r, g')"
  using assms unfolding act_authorize_def Let_def
  by (auto split: result_splits dest: act_do_standing)

lemma act_gates_no_call:
  assumes "act_gates cfg st i before items g = (Inr r, g')"
    and "ar_standing r \<notin> {ALIVE, BLOCKED}"
  shows "act_gates (with_actuate cfg f) st i before items g = (Inr r, g')"
  using assms unfolding act_gates_def Let_def
  by (auto split: option.splits if_splits intro: act_authorize_no_call)

lemma act_fresh_no_call:
  assumes "act_fresh cfg st i before g = (Inr r, g')"
    and "ar_standing r \<notin> {ALIVE, BLOCKED}"
  shows "act_fresh (with_actuate cfg f) st i before g = (Inr r, g')"
  using assms unfolding act_fresh_def
  by (auto split: sum.splits elim!: bind_act_InrE intro: act_gates_no_call simp: bind_act_Inr)

text \<open>C15: an actuation that \<open>act\<close> answers with REFUSED or UNSUPPORTED never reached the
  provider: whatever the provider's \<open>actuate\<close> would have done, the result, the receipts
  and the world are the same.\<close>

theorem act_refusal_is_inert:
  assumes "act cfg i g = (Inr r, g')" "ar_standing r = REFUSED \<or> ar_standing r = UNSUPPORTED"
  shows "act (with_actuate cfg f) i g = (Inr r, g')"
proof -
  from assms(1) obtain st where st: "g_episodes g (ai_episode_id i) = Some st"
    "act_locked cfg st i g = (Inr r, g')" by (rule act_InrE)
  from assms(2) have out: "ar_standing r \<notin> {ALIVE, BLOCKED}" by auto
  from st(2) have "act_locked (with_actuate cfg f) st i g = (Inr r, g')"
  proof (cases rule: act_locked_cases)
    case (fresh before g1)
    from act_fresh_no_call [OF this(3) out] fresh(1,2) show ?thesis
      by (simp add: act_locked_def bind_act_Inr)
  qed (simp_all add: act_locked_def bind_act_Inr)
  with st(1) show ?thesis by (simp add: act_def episode_state_def bind_act_def)
qed

theorem act_refusal_is_inert_witness:
  "\<exists>r g. act demo demo_anon demo_g2 = (Inr r, g) \<and>
     act (with_actuate demo (\<lambda>h c p w. (Late, []))) demo_anon demo_g2 = (Inr r, g)"
  using demo_anon_refused act_refusal_is_inert by blast

end
