(* ===== verification/Kernel_Lifecycle.thy ===== *)
theory Kernel_Lifecycle
  imports Kernel_Props
begin

text \<open>
  Properties of the other kernel methods: materialization, verification, recovery and
  teardown, and of the evidence they leave.
\<close>

section \<open>Materialization\<close>

lemma materialization_result_returns:
  assumes "materialization_result cfg d key cache r g = (Inr s, g')"
  shows "s = r \<and> g_episodes g' = g_episodes g \<and>
    g_materialization_idempotency g' = (if cache
      then (g_materialization_idempotency g)(key \<mapsto> \<lparr>yr_intent_digest = d, yr_result = r\<rparr>)
      else g_materialization_idempotency g)"
  using assms unfolding materialization_result_def
  by (auto elim!: bind_act_InrE dest!: record_receipt_frame)

text \<open>What a fresh call of \<open>materialize\<close> that returns has done: cached, and registered or not.\<close>

definition mat_outcome ::
    "('p, 'h, 'w) gym_config \<Rightarrow> materialization_intent \<Rightarrow> ('p, 'h, 'w) gym \<Rightarrow>
       materialization_result \<Rightarrow> ('p, 'h, 'w) gym \<Rightarrow> bool" where
  "mat_outcome cfg i g r g' \<longleftrightarrow>
     g_materialization_idempotency g' (mi_idempotency_key i) =
       Some \<lparr>yr_intent_digest = gc_digest cfg (materialization_intent_json i), yr_result = r\<rparr> \<and>
     (mr_accepted r \<longleftrightarrow> mr_standing r = ALIVE) \<and>
     (if mr_accepted r
      then \<exists>ep h. mr_episode r = Some ep \<and> ep_standing ep = ALIVE \<and>
             ep_provider ep = mi_provider i \<and> mr_observation r \<noteq> None \<and>
             g_episodes g' = (g_episodes g)
               (ep_episode_id ep \<mapsto> \<lparr>es_episode = ep, es_environment = h\<rparr>)
      else g_episodes g' = g_episodes g)"

lemma materialize_refuse_outcome:
  "materialize_refuse cfg i eid stand sub aut ev err reason g = (Inr r, g') \<Longrightarrow> stand \<noteq> ALIVE \<Longrightarrow>
     g_episodes g = g_episodes h \<Longrightarrow> mat_outcome cfg i h r g' \<and> \<not> mr_accepted r"
  by (auto simp: materialize_refuse_def Let_def mat_outcome_def
      dest!: materialization_result_returns)

lemma materialize_admit_outcome:
  assumes "materialize_admit cfg i eid ev h g = (Inr r, g')"
  shows "mat_outcome cfg i g r g'"
proof -
  obtain y g1 where adm: "bind_act (admit_capabilities cfg h)
      (\<lambda>_. observe_environment cfg h) g = (y, g1)"
    by (cases "bind_act (admit_capabilities cfg h) (\<lambda>_. observe_environment cfg h) g")
  then obtain w where g1: "g1 = g\<lparr>g_world := w\<rparr>" by (blast dest: admission_frame)
  show ?thesis
  proof (cases y)
    case (Inl e)
    obtain w' where "snd (bounded ''TEARDOWN_TIMEOUT'' (env_teardown (gc_spi cfg) h) g1) =
        g1\<lparr>g_world := w'\<rparr>"
      by (rule exE [OF snd_bounded_frame])
    with assms adm Inl g1 show ?thesis
      by (auto simp: materialize_admit_def Let_def dest: materialize_refuse_outcome)
  next
    case (Inr s)
    with assms adm g1 show ?thesis
      unfolding mat_outcome_def
      by (auto simp: materialize_admit_def Let_def intro!: exI [of _ h]
          dest!: materialization_result_returns)
  qed
qed

lemma mat_outcome_cong:
  "g_episodes g = g_episodes h \<Longrightarrow> mat_outcome cfg i g r g' \<longleftrightarrow> mat_outcome cfg i h r g'"
  by (simp only: mat_outcome_def)

lemma mat_outcome_frame:
  "mat_outcome cfg i g r g' \<Longrightarrow> g_episodes g = g_episodes h \<Longrightarrow> mat_outcome cfg i h r g'"
  using mat_outcome_cong by blast

lemma materialize_with_outcome:
  assumes "materialize_with cfg i eid p g = (Inr r, g')"
  shows "mat_outcome cfg i g r g'"
proof -
  have refuse: "materialize_refuse cfg i eid stand sub aut ev err reason (g\<lparr>g_world := w\<rparr>) = (Inr r, g')
      \<Longrightarrow> stand \<noteq> ALIVE \<Longrightarrow> mat_outcome cfg i g r g'" for stand sub aut ev err reason w
    by (drule materialize_refuse_outcome [where h = g]) auto
  have admit: "materialize_admit cfg i eid ev h (g\<lparr>g_world := w\<rparr>) = (Inr r, g') \<Longrightarrow>
      mat_outcome cfg i g r g'" for ev h w
    by (drule materialize_admit_outcome) (erule mat_outcome_frame, simp)
  from assms show ?thesis
    unfolding materialize_with_def Let_def
    by (auto split: result_splits dest!: authority_decision_frame bounded_frame
        intro: refuse admit)
qed

lemma materialize_fresh_outcome:
  assumes "materialize cfg i g = (Inr r, g')"
    and "g_materialization_idempotency g (mi_idempotency_key i) = None"
  shows "mat_outcome cfg i g r g'"
proof -
  have "mat_outcome cfg i (tick g) r g'"
    using assms unfolding materialize_def Let_def
    by (auto split: sum.splits option.splits if_splits
        dest: materialize_refuse_outcome materialize_with_outcome)
  then show ?thesis by (rule mat_outcome_frame) simp
qed

text \<open>A first \<open>materialize\<close> that returns registers exactly the episode it reports when it
  is accepted, with a first observation, and leaves the episodes alone otherwise; the same
  intent then returns the same result without any effect, in every later state of the run.\<close>

theorem materialize_registers:
  assumes "g_materialization_idempotency g (mi_idempotency_key i) = None"
    and "materialize cfg i g = (Inr r, g1)" "(gym_step cfg)\<^sup>*\<^sup>* g1 g2"
  shows "(if mr_accepted r
      then \<exists>ep h. mr_episode r = Some ep \<and> ep_provider ep = mi_provider i \<and>
             mr_observation r \<noteq> None \<and> g_episodes g1 = (g_episodes g)
               (ep_episode_id ep \<mapsto> \<lparr>es_episode = ep, es_environment = h\<rparr>)
      else g_episodes g1 = g_episodes g) \<and>
    materialize cfg i g2 = (Inr r, g2)"
proof -
  have out: "mat_outcome cfg i g r g1" by (rule materialize_fresh_outcome [OF assms(2,1)])
  with gym_steps_evolve [OF assms(3)] have "g_materialization_idempotency g2 (mi_idempotency_key i) =
      Some \<lparr>yr_intent_digest = gc_digest cfg (materialization_intent_json i), yr_result = r\<rparr>"
    by (auto simp: evolves_def map_le_def dom_def mat_outcome_def)
  with out show ?thesis
    by (auto simp: materialize_def mat_outcome_def split: if_splits)
qed

theorem materialize_registers_witness:
  "\<exists>r. materialize demo (demo_intent ''m1'' True) demo_g2 = (Inr r, demo_g2) \<and> mr_accepted r"
proof -
  obtain r where r: "materialize demo (demo_intent ''m1'' True) demo_g1 = (Inr r, demo_g2)"
    "mr_accepted r" using demo_materialized by blast
  have "g_materialization_idempotency demo_g1 (mi_idempotency_key (demo_intent ''m1'' True)) = None"
    by (simp add: demo_g1_eq init_gym_def)
  from materialize_registers [OF this r(1) rtranclp.rtrancl_refl] r(2) show ?thesis by blast
qed

section \<open>Verification\<close>

text \<open>A provider whose \<open>verify\<close> reports what it likes about the same observations.\<close>

definition with_claim ::
    "('p, 'h, 'w) gym_config \<Rightarrow> (bool \<Rightarrow> bool) \<Rightarrow> ('p, 'h, 'w) gym_config" where
  "with_claim cfg lie = cfg\<lparr>gc_spi := (gc_spi cfg)\<lparr>env_verify := (\<lambda>h expected w.
     (case env_verify (gc_spi cfg) h expected w of
        (Done (passed, seen), w') \<Rightarrow> (Done (lie passed, seen), w')
      | (Failed e, w') \<Rightarrow> (Failed e, w')
      | (Late, w') \<Rightarrow> (Late, w')))\<rparr>\<rparr>"

lemma with_claim_same [simp]:
  "ensure_input (with_claim cfg lie) = ensure_input cfg"
  "ensure_state (with_claim cfg lie) = ensure_state cfg"
  "observe_unlocked (with_claim cfg lie) = observe_unlocked cfg"
  "gc_judge (with_claim cfg lie) = gc_judge cfg"
  "gc_digest (with_claim cfg lie) = gc_digest cfg"
  "fresh_uuid (with_claim cfg lie) = fresh_uuid cfg"
  by (simp_all add: with_claim_def fun_eq_iff ensure_input_def ensure_state_def
      observe_environment_def observe_unlocked_def fresh_uuid_def)

lemma verify_verdict_returns:
  assumes "verify_verdict cfg st eid ex claim seen obs g = (Inr v, g')"
  shows "v = \<lparr>vr_verification_id = fresh_uuid cfg g, vr_episode_id = eid,
      vr_passed = fst (gc_judge cfg ex (ob_state obs)), vr_expected = ex, vr_observed = seen,
      vr_state_digest = gc_digest cfg (JObj seen)\<rparr>"
  using assms by (auto simp: verify_verdict_def Let_def split: prod.splits elim!: bind_act_InrE)

lemma verify_verdict_recorded:
  assumes "verify_verdict cfg st eid ex claim seen obs g = (Inr v, g')" "gym_inv cfg g"
  shows "\<exists>r. in_ledger g' r \<and> rc_operation r = VERIFY \<and>
    rc_verification_id r = Some (vr_verification_id v) \<and> rc_verified r = Some (vr_passed v) \<and>
    rc_standing r = (if vr_passed v then ALIVE else UNCERTAIN)"
proof -
  obtain passed reason where j: "gc_judge cfg ex (ob_state obs) = (passed, reason)"
    by (cases "gc_judge cfg ex (ob_state obs)")
  define res where "res = \<lparr>vr_verification_id = fresh_uuid cfg g, vr_episode_id = eid,
      vr_passed = passed, vr_expected = ex, vr_observed = seen,
      vr_state_digest = gc_digest cfg (JObj seen)\<rparr>"
  define g1 where "g1 = (tick g)\<lparr>g_verifications := g_verifications g @ [res]\<rparr>"
  define rc where "rc = (mint cfg g1 eid VERIFY (if passed then ALIVE else UNCERTAIN))
      \<lparr>rc_subject_ref := Some (env_id (gc_spi cfg) (es_environment st)),
       rc_verification_id := Some (vr_verification_id res), rc_verified := Some passed,
       rc_post_state_digest := Some (vr_state_digest res),
       rc_reason := Some (verification_reason claim passed reason)\<rparr>"
  have eq: "verify_verdict cfg st eid ex claim seen obs g =
      bind_act (record_receipt cfg rc) (\<lambda>_. pure_res (Inr res)) (tick g1)"
    by (simp add: verify_verdict_def j Let_def res_def g1_def rc_def)
  from assms(1) obtain s where rec: "record_receipt cfg rc (tick g1) = (Inr s, g')" "v = res"
    unfolding eq by (auto elim!: bind_act_InrE)
  have "gym_inv cfg (tick g1)" using assms(2) by (simp add: g1_def)
  from record_receipt_recorded [OF rec(1) this] rec(2) show ?thesis
    by (intro exI [of _ rc]) (simp add: rc_def res_def mint_def new_receipt_def)
qed

lemma verify_returnsE:
  assumes "verify cfg eid ex g = (Inr v, g')"
  obtains st claim seen obs g1 g2 where "g_episodes g eid = Some st"
    "bounded ''VERIFICATION_TIMEOUT'' (env_verify (gc_spi cfg) (es_environment st) ex) g =
       (Inr (claim, seen), g1)"
    "observe_unlocked cfg st g1 = (Inr obs, g2)"
    "verify_verdict cfg st eid ex claim seen obs g2 = (Inr v, g')"
  using assms unfolding verify_def verify_locked_def
  by (auto elim!: bind_act_InrE dest!: episode_state_returns)

text \<open>C18: a verification passes exactly when the expected state is a recursive subset of what
  the kernel itself observed; the verdict is recorded as evidence, ALIVE when it passed and
  UNCERTAIN otherwise; and a provider that reports something else about itself gets the
  same verification result.\<close>

theorem verify_is_independent:
  assumes "reachable cfg g" "gc_judge cfg = dict_subset_judge" "verify cfg eid ex g = (Inr v, g')"
  shows "(\<exists>st obs g1 g2. g_episodes g eid = Some st \<and>
       observe_unlocked cfg st g1 = (Inr obs, g2) \<and>
       (vr_passed v \<longleftrightarrow> subset_match (JObj ex) (JObj (ob_state obs)))) \<and>
    (\<exists>r. in_ledger g' r \<and> rc_operation r = VERIFY \<and>
       rc_verification_id r = Some (vr_verification_id v) \<and> rc_verified r = Some (vr_passed v) \<and>
       rc_standing r = (if vr_passed v then ALIVE else UNCERTAIN)) \<and>
    (\<forall>lie u g''. verify (with_claim cfg lie) eid ex g = (Inr u, g'') \<longrightarrow> u = v)"
  using assms(3)
proof (rule verify_returnsE)
  fix st claim seen obs g1 g2
  assume st: "g_episodes g eid = Some st"
    and b: "bounded ''VERIFICATION_TIMEOUT'' (env_verify (gc_spi cfg) (es_environment st) ex) g =
       (Inr (claim, seen), g1)"
    and ob: "observe_unlocked cfg st g1 = (Inr obs, g2)"
    and v: "verify_verdict cfg st eid ex claim seen obs g2 = (Inr v, g')"
  have inv: "gym_inv cfg g2"
    using reachable_inv [OF assms(1)] b ob by (auto dest!: bounded_frame observe_unlocked_frame)
  have "vr_passed v \<longleftrightarrow> subset_match (JObj ex) (JObj (ob_state obs))"
    using verify_verdict_returns [OF v] assms(2) by (simp add: dict_subset_judge_passes)
  moreover have "u = v" if u: "verify (with_claim cfg lie) eid ex g = (Inr u, g'')" for lie u g''
    using u
  proof (rule verify_returnsE)
    fix st' claim' seen' obs' g1' g2'
    assume "g_episodes g eid = Some st'"
      and b': "bounded ''VERIFICATION_TIMEOUT''
         (env_verify (gc_spi (with_claim cfg lie)) (es_environment st') ex) g =
         (Inr (claim', seen'), g1')"
      and ob': "observe_unlocked (with_claim cfg lie) st' g1' = (Inr obs', g2')"
      and v': "verify_verdict (with_claim cfg lie) st' eid ex claim' seen' obs' g2' = (Inr u, g'')"
    with st have [simp]: "st' = st" by simp
    have "seen' = seen \<and> g1' = g1"
      using b b' by (auto simp: bounded_def with_claim_def split: prod.splits call.splits
          exn.splits if_splits)
    with ob ob' have "seen' = seen" "obs' = obs" "g2' = g2" by auto
    with verify_verdict_returns [OF v] verify_verdict_returns [OF v'] show "u = v" by simp
  qed
  ultimately show ?thesis
    using st ob verify_verdict_recorded [OF v inv] by blast
qed

theorem verify_is_independent_witness:
  "\<exists>v g. verify demo demo_e1 [(''door'', JStr ''open'')] demo_g2 = (Inr v, g) \<and> \<not> vr_passed v \<and>
     (\<exists>r. in_ledger g r \<and> rc_verified r = Some False \<and> rc_standing r = UNCERTAIN)"
proof (cases "verify demo demo_e1 [(''door'', JStr ''open'')] demo_g2")
  case (Pair x g)
  have "case verify demo demo_e1 [(''door'', JStr ''open'')] demo_g2 of
     (Inr v, g) \<Rightarrow> \<not> vr_passed v | (Inl e, g) \<Rightarrow> False"
    by (simp add: demo_eval verify_def verify_locked_def verify_verdict_def memory_verify_def
        dict_subset_judge_def child_path_def del: demo_digest.simps)
  with Pair obtain v where "x = Inr v" "\<not> vr_passed v" by (cases x) simp_all
  with Pair have v: "verify demo demo_e1 [(''door'', JStr ''open'')] demo_g2 = (Inr v, g)" by simp
  have "gc_judge demo = dict_subset_judge" by simp
  from verify_is_independent [OF reachable_demo(1) this v] v \<open>\<not> vr_passed v\<close>
  show ?thesis by auto
qed

section \<open>Teardown\<close>

lemma record_receipt_returnsD:
  "record_receipt cfg r g = (Inr s, g') \<Longrightarrow> s = r \<and> g_episodes g' = g_episodes g \<and>
     g_teardown_receipts g' = g_teardown_receipts g \<and> g_world g' = g_world g"
  using record_receipt_returns record_receipt_frame by fast

lemma recovery_receipt_standing [simp]:
  "rc_standing (recovery_receipt cfg st eid op c aut g stand ev before post err reason) = stand"
  "rc_post_state_digest (recovery_receipt cfg st eid op c aut g stand ev before post err reason) =
     map_option ob_state_digest post"
  by (simp_all add: recovery_receipt_def mint_def new_receipt_def)

text \<open>What a \<open>teardown\<close> that returns has done: ended the episode, or nothing but a receipt.\<close>

definition ended :: "string \<Rightarrow> receipt \<Rightarrow> ('p, 'h, 'w) gym \<Rightarrow> ('p, 'h, 'w) gym \<Rightarrow> bool" where
  "ended eid r g g' \<longleftrightarrow>
     (if rc_standing r = ALIVE
      then g_episodes g' = (g_episodes g)(eid := None) \<and>
           g_teardown_receipts g' = (g_teardown_receipts g)(eid \<mapsto> r)
      else g_episodes g' = g_episodes g \<and> g_teardown_receipts g' = g_teardown_receipts g)"

lemma teardown_receipt_ended:
  "teardown_receipt cfg st eid aut stand ev before post err reason (g\<lparr>g_world := w\<rparr>) = (Inr r, g') \<Longrightarrow>
     stand \<noteq> ALIVE \<Longrightarrow> ended eid r g g'"
  by (auto simp: teardown_receipt_def ended_def dest!: record_receipt_returnsD)

lemma teardown_do_ended:
  assumes "teardown_do cfg st eid aut before ev (g\<lparr>g_world := w\<rparr>) = (Inr r, g')"
  shows "ended eid r g g'"
proof -
  obtain y w' where b: "bounded ''TEARDOWN_TIMEOUT'' (env_teardown (gc_spi cfg) (es_environment st))
      (g\<lparr>g_world := w\<rparr>) = (y, g\<lparr>g_world := w'\<rparr>)"
    by (cases "bounded ''TEARDOWN_TIMEOUT'' (env_teardown (gc_spi cfg) (es_environment st))
      (g\<lparr>g_world := w\<rparr>)") (auto dest: bounded_frame)
  show ?thesis
  proof (cases y)
    case (Inl e)
    with assms b show ?thesis by (auto simp: teardown_do_def dest: teardown_receipt_ended)
  next
    case (Inr u)
    with assms b obtain s g2 where
      rec: "teardown_receipt cfg st eid aut ALIVE ev before None None None (g\<lparr>g_world := w'\<rparr>) =
         (Inr s, g2)" and r: "s = r" "g' = g2\<lparr>g_teardown_receipts := (g_teardown_receipts g2)(eid \<mapsto> s),
           g_episodes := (g_episodes g2)(eid := None)\<rparr>"
      unfolding teardown_do_def Let_def
      by (auto split: if_splits elim!: bind_act_InrE)
    from rec have "rc_standing s = ALIVE" "g_episodes g2 = g_episodes g"
      "g_teardown_receipts g2 = g_teardown_receipts g"
      by (auto simp: teardown_receipt_def dest!: record_receipt_returnsD)
    with r show ?thesis by (simp add: ended_def)
  qed
qed

lemma teardown_locked_ended:
  assumes "teardown_locked cfg st eid aut g = (Inr r, g')"
  shows "ended eid r g g'"
  using assms unfolding teardown_locked_def
  by (auto elim!: bind_act_InrE split: result_splits dest!: observe_unlocked_frame
      authority_decision_frame)
    (erule teardown_receipt_ended teardown_do_ended, simp?)+



section \<open>Recovery\<close>

lemma observe_environment_returns:
  assumes "observe_environment cfg h g = (Inr s, g')"
  shows "\<exists>w. env_observe (gc_spi cfg) h (g_world g) = (Done s, w) \<and> g' = g\<lparr>g_world := w\<rparr>"
proof -
  from assms obtain g1 where g1:
    "bounded ''OBSERVATION_TIMEOUT'' (env_observe (gc_spi cfg) h) g = (Inr s, g1)" "g' = g1"
    unfolding observe_environment_def by (auto elim!: bind_act_InrE)
  then show ?thesis
    by (auto simp: bounded_def split: prod.splits call.splits exn.splits if_splits)
qed

lemma observe_unlocked_returns:
  "observe_unlocked cfg st g = (Inr obs, g') \<Longrightarrow>
     \<exists>s w. env_observe (gc_spi cfg) (es_environment st) (g_world g) = (Done s, w) \<and>
       g' = g\<lparr>g_world := w\<rparr> \<and> ob_state obs = s \<and> ob_state_digest obs = gc_digest cfg (JObj s)"
  by (auto simp: observe_unlocked_def elim!: bind_act_InrE dest!: observe_environment_returns)

lemma restore_aliveE:
  assumes "restore cfg eid saved aut g = (Inr r, g')" "rc_standing r = ALIVE"
  obtains st g1 g2 after where "g_episodes g eid = Some st"
    "restore_attempt cfg st saved g1 = (Inr after, g2)"
    "rc_post_state_digest r = Some (ob_state_digest after)"
proof -
  from assms(1) obtain st before g0 where st: "g_episodes g eid = Some st"
    and fresh: "restore_fresh cfg st eid saved aut before g0 = (Inr r, g')"
    by (auto simp: restore_def elim!: bind_act_InrE dest!: episode_state_returns)
  have refuse: "restore_receipt cfg st eid aut stand ev bef aft err reason h = (Inr r, g') \<Longrightarrow>
      stand = ALIVE \<and> rc_post_state_digest r = Some (ob_state_digest aft)"
    for stand ev bef aft err reason h
    using assms(2) by (auto simp: restore_receipt_def dest!: record_receipt_returnsD)
  from fresh obtain ev g1 where do: "restore_do cfg st eid saved aut before ev g1 = (Inr r, g')"
    unfolding restore_fresh_def Let_def by (auto split: result_splits dest: refuse)
  then obtain after g2 where "restore_attempt cfg st saved g1 = (Inr after, g2)"
    "rc_post_state_digest r = Some (ob_state_digest after)"
    unfolding restore_do_def by (auto split: prod.splits sum.splits dest: refuse)
  with st that show ?thesis by blast
qed

context recoverable_environment
begin

lemma restore_recovers:
  assumes spi: "gc_spi cfg = spi"
    and st: "g_episodes g eid = Some st" "g_episodes k eid = Some st"
    and cp: "checkpoint cfg eid g = (Inr saved, g1)"
    and ob: "observe cfg eid g = (Inr obs, g2)"
    and re: "restore cfg eid saved aut k = (Inr r, k')" "rc_standing r = ALIVE"
  shows "rc_post_state_digest r = Some (ob_state_digest obs)"
proof -
  let ?h = "es_environment st"
  from cp st(1) have cp': "\<exists>w. env_checkpoint spi ?h (g_world g) = (Done saved, w)"
    unfolding checkpoint_def spi [symmetric]
    by (auto elim!: bind_act_InrE dest!: episode_state_returns bounded_returns)
  from ob st(1) obtain s w2 where ob': "env_observe spi ?h (g_world g) = (Done s, w2)"
    and d: "ob_state_digest obs = gc_digest cfg (JObj s)"
    unfolding observe_def spi [symmetric]
    by (auto elim!: bind_act_InrE dest!: episode_state_returns observe_unlocked_returns)
  from re obtain k1 k2 after where att: "restore_attempt cfg st saved k1 = (Inr after, k2)"
    and post: "rc_post_state_digest r = Some (ob_state_digest after)"
    using st(2) by (auto elim!: restore_aliveE)
  from att obtain k3 where rs: "bounded ''RESTORE_TIMEOUT'' (env_restore spi ?h saved) k1 = (Inr (), k3)"
    and after: "observe_unlocked cfg st k3 = (Inr after, k2)"
    unfolding restore_attempt_def spi by (auto elim!: bind_act_InrE)
  from rs obtain w4 where "env_restore spi ?h saved (g_world k1) = (Done (), w4)" "g_world k3 = w4"
    by (auto simp: bounded_def split: prod.splits call.splits exn.splits if_splits)
  with restore_observe cp' ob' have "env_observe spi ?h (g_world k3) = (Done s, g_world k3)"
    by metis
  with after spi d post show ?thesis by (auto dest!: observe_unlocked_returns)
qed

end

text \<open>Over the in-memory environment, restoring a checkpoint brings back the state that
  could be observed when the checkpoint was taken: the receipt of a successful \<open>restore\<close>, at
  any later time, carries the digest of that observation.\<close>

theorem restore_recovers_checkpoint:
  assumes "gc_spi cfg = memory_spi uuid py_str"
    and "g_episodes g eid = Some st" "g_episodes k eid = Some st"
    and "checkpoint cfg eid g = (Inr saved, g1)" "observe cfg eid g = (Inr obs, g2)"
    and "restore cfg eid saved aut k = (Inr r, k')" "rc_standing r = ALIVE"
  shows "rc_post_state_digest r = Some (ob_state_digest obs)"
  using assms by (rule memory_env.restore_recovers)

theorem restore_recovers_checkpoint_witness:
  "\<exists>r g. restore demo demo_e1 [] (Some ''board'') demo_g3 = (Inr r, g) \<and>
     rc_post_state_digest r = Some (demo_digest (JObj []))"
proof (cases "restore demo demo_e1 [] (Some ''board'') demo_g3")
  case (Pair x g)
  let ?st = "\<lparr>es_episode = demo_episode, es_environment = demo_env\<rparr>"
  have "case restore demo demo_e1 [] (Some ''board'') demo_g3 of
     (Inr r, g) \<Rightarrow> rc_standing r = ALIVE | (Inl e, g) \<Rightarrow> False"
    by (simp add: demo_g3_def demo_eval restore_def restore_fresh_def restore_do_def
        restore_attempt_def restore_receipt_def recovery_receipt_def restore_capability_def
        del: demo_digest.simps)
  with Pair obtain r where r: "x = Inr r" "rc_standing r = ALIVE" by (cases x) simp_all
  with Pair have re: "restore demo demo_e1 [] (Some ''board'') demo_g3 = (Inr r, g)" by simp
  have st: "g_episodes demo_g2 demo_e1 = Some ?st" "g_episodes demo_g3 demo_e1 = Some ?st"
    by (simp_all add: demo_g3_def demo_eval del: demo_digest.simps)
  have cp: "checkpoint demo demo_e1 demo_g2 = (Inr [], demo_g2)"
    by (simp add: demo_eval checkpoint_def)
  have ob: "observe demo demo_e1 demo_g2 = (Inr \<lparr>ob_episode_id = ''u'', ob_state = [],
      ob_state_digest = demo_digest (JObj [])\<rparr>, demo_g2)"
    by (simp add: demo_eval observe_def del: demo_digest.simps)
  have "gc_spi demo = memory_spi demo_uuid (\<lambda>v. ''?'')" by simp
  from restore_recovers_checkpoint [OF this st cp ob re r(2)] re show ?thesis by auto
qed

section \<open>Evidence\<close>



text \<open>The first record under a key stays the first.\<close>

lemma first_under_key:
  assumes "gym_inv cfg g" "gym_inv cfg g'" "evolves g g'"
    and "ml_by_idempotency_key (g_ledger g) k = Some e"
  shows "ml_by_idempotency_key (g_ledger g') k = Some e"
proof -
  from assms(3) obtain s where "ml_records (g_ledger g') = ml_records (g_ledger g) @ s"
    by (auto simp: evolves_def)
  with assms(1,2,4) show ?thesis
    by (auto simp: gym_inv_def ledger_inv_def find_append)
qed

text \<open>The ledger keeps one intent per idempotency key for the whole runtime, but \<open>act\<close>
  looks a key up per episode. So an intent whose key was first recorded for another
  episode or another capability passes the lookup, runs (the witness changes the world), and then
  never returns a result or leaves a receipt: recording it raises.\<close>

theorem act_key_reuse_unreceipted:
  assumes "reachable cfg g" "g_actuation_idempotency g (act_key i) = None"
    and "ml_by_idempotency_key (g_ledger g) (ai_idempotency_key i) = Some e"
    and "rc_episode_id (er_receipt e) \<noteq> ai_episode_id i \<or>
      rc_capability_ref (er_receipt e) \<noteq> Some (ai_capability i)"
  shows "act cfg i g \<noteq> (Inr r, g')"
proof
  assume act: "act cfg i g = (Inr r, g')"
  then obtain st where st: "act_locked cfg st i g = (Inr r, g')" by (rule act_InrE)
  have inv: "gym_inv cfg g" "gym_inv cfg g'"
    using assms(1) act by (auto dest: reachable_inv act_inv)
  have out: "act_outcome cfg i True r g'"
    by (rule act_fresh_locked_outcome [OF st inv(1) assms(2)])
  have first: "ml_by_idempotency_key (g_ledger g') (ai_idempotency_key i) = Some e"
    by (rule first_under_key [OF inv act_evolves [OF act] assms(3)])
  from out inv(2) obtain e' where "e' \<in> set (ml_records (g_ledger g'))"
    "er_receipt e' = ar_receipt r"
    by (auto simp: act_outcome_def in_ledger_def gym_inv_def ledger_inv_def ledger_find_def
        dest: find_SomeD)
  with inv(2) out first have "same_intent (er_receipt e) (ar_receipt r)"
    by (auto simp: gym_inv_def ledger_inv_def keys_ok_def act_outcome_def)
  with out assms(4) show False by (auto simp: same_intent_def act_outcome_def)
qed

definition demo_reuse :: actuation_intent where
  "demo_reuse = demo_set demo_e1 ''m1'' (Some ''board'')"

theorem act_key_reuse_unreceipted_witness:
  "\<exists>e g. act demo demo_reuse demo_g2 = (Inl e, g) \<and>
     map me_state (g_world g) = [[(''door'', JStr ''open'')]] \<and>
     ml_records (g_ledger g) = ml_records (g_ledger demo_g2)"
proof (cases "act demo demo_reuse demo_g2")
  case (Pair x g)
  have state: "case act demo demo_reuse demo_g2 of (x, g) \<Rightarrow>
      map me_state (g_world g) = [[(''door'', JStr ''open'')]] \<and>
      ml_records (g_ledger g) = [next_record demo_digest [] demo_r1]"
    by (simp add: demo_reuse_def demo_eval del: demo_digest.simps)
  have "g_actuation_idempotency demo_g2 (act_key demo_reuse) = None"
    "ml_by_idempotency_key (g_ledger demo_g2) (ai_idempotency_key demo_reuse) =
       Some (next_record demo_digest [] demo_r1)"
    "rc_capability_ref demo_r1 \<noteq> Some (ai_capability demo_reuse)"
    by (simp_all add: demo_g2_eq demo_reuse_def demo_set_def demo_r1_def)
  from act_key_reuse_unreceipted [OF reachable_demo(1) this(1,2)] this(3) Pair
  have "\<exists>e. x = Inl e" by (cases x) auto
  with state Pair show ?thesis by (auto simp: demo_g2_eq)
qed

end
