(* ===== verification/Action_Contract.thy ===== *)
theory Action_Contract
  imports Models
begin

text \<open>
  Semantic-action contracts, \<open>src/gymact/action_contract.py\<close>: what an action declares, the
  grant that authorizes it, the prepared intent, and the three pure functions over them
  (\<open>construct_prepared_action\<close>, \<open>admit_execution\<close>, \<open>admit_retry\<close>). Model validators are
  functions to the error they raise. Instants are integers.
\<close>

section \<open>Vocabulary\<close>

datatype idempotency_class =
    IDEMPOTENT | CONDITIONALLY_IDEMPOTENT | NON_IDEMPOTENT | IDEMPOTENCY_UNKNOWN

datatype reversal_class = REVERSIBLE | COMPENSATABLE | IRREVERSIBLE | REVERSAL_UNKNOWN

datatype observation_confidence =
    SELF_REPORTED | SAME_PROVIDER_OBSERVED | INDEPENDENT_CHANNEL | MULTI_ORACLE | PHYSICAL_SENSOR

datatype verification_kind =
    EXACT_STATE | PREDICATE | SHACL | QUERY | DIGEST | RESOURCE_EXISTS | RESOURCE_ABSENT
  | REVISION | EVENT | PROCESS_CONFORMANCE | TEMPORAL_STABILIZATION | QUORUM

datatype acknowledgement_status =
    NOT_ATTEMPTED | ACKNOWLEDGED | REJECTED | LOST | ACK_UNKNOWN

datatype refusal_code =
    AUTHORITY_REFUSED | IDENTITY_REFUSED | CAPABILITY_REFUSED | PRECONDITION_REFUSED
  | STALE_OBSERVATION_REFUSED | REVISION_MISMATCH_REFUSED | POLICY_REFUSED
  | UNSAFE_RETRY_REFUSED | AMBIGUOUS_SUBJECT_REFUSED | VERIFICATION_REFUSED
  | UNSUPPORTED_OPERATION | PROVIDER_CONFIGURATION_REQUIRED

fun refusal_value :: "refusal_code \<Rightarrow> string" where
  "refusal_value AUTHORITY_REFUSED = ''AUTHORITY_REFUSED''"
| "refusal_value IDENTITY_REFUSED = ''IDENTITY_REFUSED''"
| "refusal_value CAPABILITY_REFUSED = ''CAPABILITY_REFUSED''"
| "refusal_value PRECONDITION_REFUSED = ''PRECONDITION_REFUSED''"
| "refusal_value STALE_OBSERVATION_REFUSED = ''STALE_OBSERVATION_REFUSED''"
| "refusal_value REVISION_MISMATCH_REFUSED = ''REVISION_MISMATCH_REFUSED''"
| "refusal_value POLICY_REFUSED = ''POLICY_REFUSED''"
| "refusal_value UNSAFE_RETRY_REFUSED = ''UNSAFE_RETRY_REFUSED''"
| "refusal_value AMBIGUOUS_SUBJECT_REFUSED = ''AMBIGUOUS_SUBJECT_REFUSED''"
| "refusal_value VERIFICATION_REFUSED = ''VERIFICATION_REFUSED''"
| "refusal_value UNSUPPORTED_OPERATION = ''UNSUPPORTED_OPERATION''"
| "refusal_value PROVIDER_CONFIGURATION_REQUIRED = ''PROVIDER_CONFIGURATION_REQUIRED''"

datatype disposition =
    EFFECT_CONFIRMED | NO_EFFECT | PARTIAL_EFFECT | STILL_UNCERTAIN | RETRY_ADMITTED
  | RETRY_REFUSED

fun disposition_value :: "disposition \<Rightarrow> string" where
  "disposition_value EFFECT_CONFIRMED = ''EFFECT_CONFIRMED''"
| "disposition_value NO_EFFECT = ''NO_EFFECT''"
| "disposition_value PARTIAL_EFFECT = ''PARTIAL_EFFECT''"
| "disposition_value STILL_UNCERTAIN = ''STILL_UNCERTAIN''"
| "disposition_value RETRY_ADMITTED = ''RETRY_ADMITTED''"
| "disposition_value RETRY_REFUSED = ''RETRY_REFUSED''"

section \<open>Contracts\<close>

record subject_ref =
  sr_semantic_id :: string
  sr_provider_ref :: string
  sr_revision :: "string option"

record authority_requirement =
  ar_capability_refs :: "string list"
  ar_policy_refs :: "string list"
  ar_autonomous_policy_may_be_stricter :: bool

record expected_effect =
  ee_predicate :: string
  ee_parameters :: dict

record verification_strategy =
  vs_kind :: verification_kind
  vs_observer_ref :: string
  vs_expected :: dict
  vs_minimum_confidence :: observation_confidence
  vs_settle_timeout_s :: rat
  vs_quorum :: int

record cost_model =
  co_monetary :: rat
  co_expected_wall_time_s :: rat
  co_compute_units :: rat
  co_expected_human_approvals :: rat
  co_expected_failure_probability :: rat

record causal_locality =
  cl_execution_site :: string
  cl_observer_site :: string
  cl_estimated_hops :: "int option"
  cl_estimated_effect_latency_s :: "rat option"
  cl_estimated_observation_latency_s :: "rat option"

record action_definition =
  ac_semantic_id :: string
  ac_provider_ref :: string
  ac_capability_ref :: string
  ac_subject_type :: string
  ac_input_schema :: dict
  ac_output_schema :: dict
  ac_preconditions :: "string list"
  ac_authority :: authority_requirement
  ac_expected_effects :: "expected_effect list"
  ac_verification :: verification_strategy
  ac_idempotency :: idempotency_class
  ac_idempotency_fields :: "string list"
  ac_reversal :: reversal_class
  ac_compensation_action_ref :: "string option"
  ac_cost :: cost_model
  ac_locality :: causal_locality
  ac_standing :: standing
  ac_evidence_refs :: "string list"

datatype expiry = Aware int | Naive int

record execution_grant =
  eg_principal :: string
  eg_delegated_principal :: "string option"
  eg_action_ref :: string
  eg_subject :: subject_ref
  eg_capability_ref :: string
  eg_authority_ref :: string
  eg_policy_revision :: string
  eg_admitted_observation_ref :: string
  eg_intended_effects :: "expected_effect list"
  eg_scope_refs :: "string list"
  eg_expires_at :: "int option"
  eg_nonce :: string

record prepared_action =
  pa_episode_id :: string
  pa_action_ref :: string
  pa_subject :: subject_ref
  pa_payload :: dict
  pa_admission_digest :: string
  pa_planning_provenance_digest :: "string option"
  pa_idempotency_key :: string

record reconciliation_result =
  re_disposition :: disposition
  re_standing :: standing
  re_observed_state_digest :: "string option"
  re_verification_ref :: "string option"
  re_retry_admitted :: bool
  re_reason :: "string option"

record admission_result =
  am_admitted :: bool
  am_reason :: string

section \<open>Validators\<close>

definition truthy :: "string option \<Rightarrow> bool" where
  "truthy s = (case s of None \<Rightarrow> False | Some t \<Rightarrow> t \<noteq> [])"

definition require_quorum_for_quorum_strategy ::
    "verification_strategy \<Rightarrow> verification_strategy res" where
  "require_quorum_for_quorum_strategy s =
     (if vs_kind s = QUORUM \<and> vs_quorum s < 2
      then Inl (value_error ''QUORUM_VERIFICATION_REQUIRES_AT_LEAST_TWO_ORACLES'')
      else Inr s)"

definition enforce_execution_semantics :: "action_definition \<Rightarrow> action_definition res" where
  "enforce_execution_semantics a =
     (if ac_idempotency a = CONDITIONALLY_IDEMPOTENT \<and> ac_idempotency_fields a = []
      then Inl (value_error ''CONDITIONAL_IDEMPOTENCY_REQUIRES_KEY_FIELDS'')
      else if ac_reversal a = COMPENSATABLE \<and> \<not> truthy (ac_compensation_action_ref a)
      then Inl (value_error ''COMPENSATABLE_ACTION_REQUIRES_COMPENSATION_ACTION_REF'')
      else if ac_standing a = ALIVE \<and> ac_evidence_refs a = []
      then Inl (value_error ''ALIVE_ACTION_REQUIRES_EXECUTION_EVIDENCE'')
      else if ac_standing a = ADOPTED \<and> ac_evidence_refs a = []
      then Inl (value_error ''ADOPTED_ACTION_REQUIRES_EXTERNAL_EVIDENCE'')
      else Inr a)"

text \<open>A datetime without a time zone never gets into a grant; an instant is an integer.\<close>

definition require_aware_expiry :: "expiry option \<Rightarrow> int option res" where
  "require_aware_expiry expires_at =
     (case expires_at of
        Some (Naive t) \<Rightarrow>
          Inl (value_error ''EXECUTION_GRANT_EXPIRY_MUST_BE_TIMEZONE_AWARE'')
      | Some (Aware t) \<Rightarrow> Inr (Some t)
      | None \<Rightarrow> Inr None)"

definition retry_requires_explicit_disposition ::
    "reconciliation_result \<Rightarrow> reconciliation_result res" where
  "retry_requires_explicit_disposition r =
     (if re_disposition r = STILL_UNCERTAIN \<and> re_retry_admitted r
      then Inl (value_error ''UNCERTAIN_OUTCOME_CANNOT_IMPLY_RETRY'')
      else if re_retry_admitted r \<and> re_disposition r \<noteq> RETRY_ADMITTED
      then Inl (value_error ''RETRY_REQUIRES_RETRY_ADMITTED_DISPOSITION'')
      else Inr r)"

text \<open>A field declared \<open>Field(min_length=1)\<close>: pydantic raises on the empty string.\<close>

definition require_nonempty :: "string list \<Rightarrow> unit res" where
  "require_nonempty xs =
     (if list_ex (\<lambda>s. s = []) xs
      then Inl (Raised ''ValidationError'' ''string_too_short'') else Inr ())"

section \<open>Construction\<close>

text \<open>
  \<open>jsonschema.validate\<close> is third-party code: \<open>validate instance schema\<close> is the exception it
  raises, if any. A missing module shows as \<open>ImportError\<close>.
\<close>

definition construct_prepared_action ::
    "(dict \<Rightarrow> dict \<Rightarrow> exn option) \<Rightarrow> action_definition \<Rightarrow> string \<Rightarrow> subject_ref \<Rightarrow> dict \<Rightarrow>
       string \<Rightarrow> string \<Rightarrow> string option \<Rightarrow> prepared_action res" where
  "construct_prepared_action validate action episode_id subject payload admission_digest
       idempotency_key planning_provenance_digest =
     (case validate payload (ac_input_schema action) of
        Some (Raised t m) \<Rightarrow>
          if t = ''ImportError'' then Inl (Raised ''RuntimeError'' ''JSONSCHEMA_RUNTIME_REQUIRED'')
          else if t = ''ValidationError''
          then Inl (value_error ''PRECONDITION_REFUSED:INPUT_SCHEMA'')
          else Inl (Raised t m)
      | Some (Boundary c) \<Rightarrow> Inl (Boundary c)
      | None \<Rightarrow>
          bind_res (require_nonempty [episode_id, ac_semantic_id action, admission_digest,
              idempotency_key]) (\<lambda>_.
            Inr \<lparr>pa_episode_id = episode_id, pa_action_ref = ac_semantic_id action,
              pa_subject = subject, pa_payload = payload,
              pa_admission_digest = admission_digest,
              pa_planning_provenance_digest = planning_provenance_digest,
              pa_idempotency_key = idempotency_key\<rparr>))"

section \<open>Admission\<close>

definition refuse :: "refusal_code \<Rightarrow> admission_result" where
  "refuse code = \<lparr>am_admitted = False, am_reason = refusal_value code\<rparr>"

definition expired :: "execution_grant \<Rightarrow> int \<Rightarrow> bool" where
  "expired grant moment = (case eg_expires_at grant of None \<Rightarrow> False | Some t \<Rightarrow> t \<le> moment)"

text \<open>\<open>a or b\<close> on optional strings, and \<open>==\<close> on the effect models (parameters by Python \<open>==\<close>).\<close>

definition or_else :: "string option \<Rightarrow> string option \<Rightarrow> string option" where
  "or_else a b = (if truthy a then a else b)"

definition effect_eq :: "expected_effect \<Rightarrow> expected_effect \<Rightarrow> bool" where
  "effect_eq a b \<longleftrightarrow>
     ee_predicate a = ee_predicate b \<and> py_eq (JObj (ee_parameters a)) (JObj (ee_parameters b))"

definition mismatch :: "string option \<Rightarrow> string option \<Rightarrow> bool" where
  "mismatch a b = (case (a, b) of (Some x, Some y) \<Rightarrow> x \<noteq> y | _ \<Rightarrow> False)"

definition admit_execution ::
    "action_definition \<Rightarrow> prepared_action \<Rightarrow> execution_grant \<Rightarrow> string option \<Rightarrow> int \<Rightarrow>
       admission_result" where
  "admit_execution action prepared grant current_revision moment =
     (let p = pa_subject prepared; g = eg_subject grant
      in if expired grant moment then refuse POLICY_REFUSED
         else if pa_action_ref prepared \<noteq> ac_semantic_id action \<or>
                 eg_action_ref grant \<noteq> ac_semantic_id action then refuse IDENTITY_REFUSED
         else if eg_capability_ref grant \<noteq> ac_capability_ref action
         then refuse CAPABILITY_REFUSED
         else if sr_semantic_id p \<noteq> sr_semantic_id g then refuse IDENTITY_REFUSED
         else if sr_provider_ref p \<noteq> sr_provider_ref g then refuse IDENTITY_REFUSED
         else if eg_scope_refs grant \<noteq> [] \<and>
                 {sr_semantic_id p, sr_provider_ref p} \<inter> set (eg_scope_refs grant) = {}
         then refuse AUTHORITY_REFUSED
         else if mismatch (sr_revision g) (sr_revision p) then refuse REVISION_MISMATCH_REFUSED
         else if mismatch current_revision (or_else (sr_revision g) (sr_revision p))
         then refuse REVISION_MISMATCH_REFUSED
         else if \<not> list_all2 effect_eq (eg_intended_effects grant) (ac_expected_effects action)
         then refuse PRECONDITION_REFUSED
         else \<lparr>am_admitted = True, am_reason = ''ADMITTED''\<rparr>)"

definition admit_retry :: "action_definition \<Rightarrow> reconciliation_result \<Rightarrow> reconciliation_result" where
  "admit_retry action reconciliation =
     (let result = (\<lambda>disp stand admitted reason.
        \<lparr>re_disposition = disp, re_standing = stand,
         re_observed_state_digest = re_observed_state_digest reconciliation,
         re_verification_ref = re_verification_ref reconciliation,
         re_retry_admitted = admitted, re_reason = Some reason\<rparr>)
      in if re_disposition reconciliation \<noteq> NO_EFFECT
         then result RETRY_REFUSED REFUSED False (refusal_value UNSAFE_RETRY_REFUSED)
         else if ac_idempotency action \<noteq> IDEMPOTENT \<and>
                 ac_idempotency action \<noteq> CONDITIONALLY_IDEMPOTENT
         then result RETRY_REFUSED REFUSED False (refusal_value UNSAFE_RETRY_REFUSED)
         else result RETRY_ADMITTED CANDIDATE True
           ''RETRY_CANDIDATE_ADMITTED_AUTHORITY_STILL_REQUIRED'')"

section \<open>What admission means\<close>

text \<open>
  The identity closure: grant, prepared intent and action name the same action, capability
  and subject; the grant is live, in scope, for the current revision and for the effects
  the action declares.
\<close>

definition closes ::
    "action_definition \<Rightarrow> prepared_action \<Rightarrow> execution_grant \<Rightarrow> string option \<Rightarrow> int \<Rightarrow> bool" where
  "closes action prepared grant current moment \<longleftrightarrow>
     \<not> expired grant moment \<and>
     pa_action_ref prepared = ac_semantic_id action \<and>
     eg_action_ref grant = ac_semantic_id action \<and>
     eg_capability_ref grant = ac_capability_ref action \<and>
     sr_semantic_id (pa_subject prepared) = sr_semantic_id (eg_subject grant) \<and>
     sr_provider_ref (pa_subject prepared) = sr_provider_ref (eg_subject grant) \<and>
     (eg_scope_refs grant = [] \<or>
        sr_semantic_id (pa_subject prepared) \<in> set (eg_scope_refs grant) \<or>
        sr_provider_ref (pa_subject prepared) \<in> set (eg_scope_refs grant)) \<and>
     (\<forall>a b. sr_revision (eg_subject grant) = Some a \<longrightarrow>
        sr_revision (pa_subject prepared) = Some b \<longrightarrow> a = b) \<and>
     (\<forall>r c. current = Some c \<longrightarrow>
        or_else (sr_revision (eg_subject grant)) (sr_revision (pa_subject prepared)) = Some r \<longrightarrow>
        c = r) \<and>
     list_all2 effect_eq (eg_intended_effects grant) (ac_expected_effects action)"

lemma mismatch_iff: "mismatch a b \<longleftrightarrow> (\<exists>x y. a = Some x \<and> b = Some y \<and> x \<noteq> y)"
  by (auto simp: mismatch_def split: option.splits)

lemma refuse_not_admitted [simp]: "\<not> am_admitted (refuse code)"
  by (simp add: refuse_def)

lemma admit_execution_iff:
  "am_admitted (admit_execution action prepared grant current moment) \<longleftrightarrow>
     closes action prepared grant current moment"
  unfolding admit_execution_def closes_def Let_def by (auto simp: mismatch_iff)

lemma admit_retry_valid: "retry_requires_explicit_disposition (admit_retry a r) = Inr (admit_retry a r)"
  by (simp add: admit_retry_def retry_requires_explicit_disposition_def Let_def)

lemma admit_retry_iff:
  "re_retry_admitted (admit_retry a r) \<longleftrightarrow>
     re_disposition r = NO_EFFECT \<and> ac_idempotency a \<in> {IDEMPOTENT, CONDITIONALLY_IDEMPOTENT}"
  by (simp add: admit_retry_def Let_def)

end
