(* ===== verification/Crown.thy ===== *)
theory Crown
  imports Kernel_Lifecycle Action_Contract
begin

text \<open>
  Verified consequence above the kernel: \<open>ProductionGymAct\<close> of \<open>src/gymact/runtime.py\<close>
  (direct actuation is refused, the sealed port is the broker's), \<open>execute_verified\<close>,
  \<open>reconcile_uncertain\<close> and \<open>execute_admitted\<close> of \<open>src/gymact/crown_runtime.py\<close>, and
  \<open>BRCEBroker\<close> of \<open>src/gymact/brce.py\<close>. The module-level object \<open>_PRODUCTION_BRCE_SEAL\<close> is
  a Boolean: whether the caller passed that very object.
\<close>

section \<open>The production runtime\<close>

text \<open>\<open>Receipt(...)\<close> built by the caller: its validator runs, then the runtime records it.\<close>

definition record_built ::
    "('p, 'h, 'w) gym_config \<Rightarrow> receipt \<Rightarrow> (('p, 'h, 'w) gym, receipt) action" where
  "record_built cfg r =
     bind_act (pure_res (combinatorial_binding_is_atomic r)) (record_receipt cfg)"

definition production_refuse ::
    "('p, 'h, 'w) gym_config \<Rightarrow> 'h episode_state \<Rightarrow> actuation_intent \<Rightarrow> string \<Rightarrow>
       (('p, 'h, 'w) gym, actuation_result) action" where
  "production_refuse cfg st intent reason =
     bind_act (observe_unlocked cfg st) (\<lambda>before g.
       let r = (mint cfg g (ai_episode_id intent) ACT REFUSED)
             \<lparr>rc_subject_ref := Some (env_id (gc_spi cfg) (es_environment st)),
              rc_capability_ref := Some (ai_capability intent),
              rc_authority_ref := ai_authority_ref intent,
              rc_idempotency_key := Some (ai_idempotency_key intent),
              rc_pre_state_digest := Some (ob_state_digest before),
              rc_post_state_digest := Some (ob_state_digest before),
              rc_acknowledgement_status := Some ''NOT_ATTEMPTED'',
              rc_world_changed := Some False, rc_verified := Some False,
              rc_reason := Some reason\<rparr>
       in bind_act (record_built cfg r) (\<lambda>_. pure_res (Inr
            \<lparr>ar_accepted = False, ar_standing = REFUSED, ar_effect = None,
             ar_observation = Some before, ar_receipt = r\<rparr>)) (tick g))"

definition production_act ::
    "('p, 'h, 'w) gym_config \<Rightarrow> actuation_intent \<Rightarrow>
       (('p, 'h, 'w) gym, actuation_result) action" where
  "production_act cfg intent =
     bind_act (episode_state (ai_episode_id intent)) (\<lambda>st.
       production_refuse cfg st intent ''BRCE_EXECUTION_GRANT_REQUIRED'')"

definition act_from_brce ::
    "('p, 'h, 'w) gym_config \<Rightarrow> actuation_intent \<Rightarrow> bool \<Rightarrow>
       (('p, 'h, 'w) gym, actuation_result) action" where
  "act_from_brce cfg intent sealed =
     (if \<not> sealed
      then bind_act (episode_state (ai_episode_id intent)) (\<lambda>st.
             production_refuse cfg st intent ''BRCE_EXECUTION_SEAL_REFUSED'')
      else act cfg intent)"

text \<open>\<open>_BrokerRuntimeView.act\<close>: the sealed port of a production runtime, \<open>act\<close> of any other.\<close>

datatype runtime_kind = Reference_runtime | Production_runtime

definition broker_act ::
    "runtime_kind \<Rightarrow> ('p, 'h, 'w) gym_config \<Rightarrow> actuation_intent \<Rightarrow>
       (('p, 'h, 'w) gym, actuation_result) action" where
  "broker_act kind cfg intent =
     (case kind of
        Production_runtime \<Rightarrow> act_from_brce cfg intent True
      | Reference_runtime \<Rightarrow> act cfg intent)"

section \<open>Execute, then verify\<close>

record verified_transition =
  vt_standing :: standing
  vt_actuation :: actuation_result
  vt_verification :: "verification_result option"
  vt_receipt :: receipt

record reconciled_transition =
  rt_reconciliation :: reconciliation_result
  rt_verification :: verification_result
  rt_receipt :: receipt

definition world_changed :: "receipt \<Rightarrow> bool option" where
  "world_changed r =
     (case (rc_pre_state_digest r, rc_post_state_digest r) of
        (Some a, Some b) \<Rightarrow> Some (a \<noteq> b)
      | _ \<Rightarrow> None)"

definition possible_unacknowledged_effect :: "actuation_result \<Rightarrow> bool" where
  "possible_unacknowledged_effect result =
     (if rc_reason (ar_receipt result) = Some ''ACTUATION_TIMEOUT'' then True
      else \<not> ar_accepted result \<and> world_changed (ar_receipt result) = Some True)"

text \<open>The fields a follow-up receipt copies from the actuation's receipt.\<close>

definition follow_up ::
    "('p, 'h, 'w) gym_config \<Rightarrow> ('p, 'h, 'w) gym \<Rightarrow> receipt \<Rightarrow> operation \<Rightarrow> standing \<Rightarrow> receipt" where
  "follow_up cfg g source op stand =
     (mint cfg g (rc_episode_id source) op stand)
       \<lparr>rc_subject_ref := rc_subject_ref source,
        rc_capability_ref := rc_capability_ref source,
        rc_authority_ref := rc_authority_ref source,
        rc_authority_evidence_ref := rc_authority_evidence_ref source,
        rc_principal := rc_principal source,
        rc_delegated_principal := rc_delegated_principal source,
        rc_policy_revision := rc_policy_revision source,
        rc_intended_effects := rc_intended_effects source,
        rc_idempotency_key := rc_idempotency_key source,
        rc_planning_provenance_digest := rc_planning_provenance_digest source,
        rc_pre_state_digest := rc_pre_state_digest source,
        rc_world_changed := world_changed source,
        rc_parent_receipt_ids := [rc_receipt_id source]\<rparr>"

definition verification_receipt ::
    "('p, 'h, 'w) gym_config \<Rightarrow> ('p, 'h, 'w) gym \<Rightarrow> actuation_result \<Rightarrow> verification_result \<Rightarrow>
       standing \<Rightarrow> string option \<Rightarrow> receipt" where
  "verification_receipt cfg g actuation verification stand reason =
     (follow_up cfg g (ar_receipt actuation) VERIFY stand)
       \<lparr>rc_post_state_digest := Some (vr_state_digest verification),
        rc_acknowledgement_status :=
          Some (if ar_accepted actuation then ''ACKNOWLEDGED'' else ''UNKNOWN''),
        rc_verification_id := Some (vr_verification_id verification),
        rc_verified := Some (vr_passed verification),
        rc_observation_confidence := rc_observation_confidence (ar_receipt actuation),
        rc_reason := reason\<rparr>"

definition uncertain_receipt ::
    "('p, 'h, 'w) gym_config \<Rightarrow> ('p, 'h, 'w) gym \<Rightarrow> receipt \<Rightarrow> receipt" where
  "uncertain_receipt cfg g source =
     (follow_up cfg g source ACT UNCERTAIN)
       \<lparr>rc_post_state_digest := rc_post_state_digest source,
        rc_acknowledgement_status := Some ''LOST'', rc_verified := Some False,
        rc_error_digest := rc_error_digest source,
        rc_reason := Some ''ACTUATION_OUTCOME_UNCERTAIN''\<rparr>"

definition transition_failed ::
    "('p, 'h, 'w) gym_config \<Rightarrow> actuation_result \<Rightarrow>
       (('p, 'h, 'w) gym, verified_transition) action" where
  "transition_failed cfg actuation g =
     (if possible_unacknowledged_effect actuation
      then let r = uncertain_receipt cfg g (ar_receipt actuation)
           in bind_act (record_built cfg r) (\<lambda>_. pure_res (Inr
                \<lparr>vt_standing = UNCERTAIN, vt_actuation = actuation, vt_verification = None,
                 vt_receipt = r\<rparr>)) (tick g)
      else (Inr \<lparr>vt_standing = ar_standing actuation, vt_actuation = actuation,
              vt_verification = None, vt_receipt = ar_receipt actuation\<rparr>, g))"

definition transition_verified ::
    "('p, 'h, 'w) gym_config \<Rightarrow> actuation_result \<Rightarrow> verification_result \<Rightarrow>
       (('p, 'h, 'w) gym, verified_transition) action" where
  "transition_verified cfg actuation verification g =
     (let stand = (if vr_passed verification then ALIVE else REFUSED);
          r = verification_receipt cfg g actuation verification stand
                (if vr_passed verification then None else Some ''POSTCONDITION_FAILED'')
      in bind_act (record_built cfg r) (\<lambda>_. pure_res (Inr
           \<lparr>vt_standing = stand, vt_actuation = actuation,
            vt_verification = Some verification, vt_receipt = r\<rparr>)) (tick g))"

definition execute_verified ::
    "runtime_kind \<Rightarrow> ('p, 'h, 'w) gym_config \<Rightarrow> actuation_intent \<Rightarrow> dict \<Rightarrow>
       (('p, 'h, 'w) gym, verified_transition) action" where
  "execute_verified kind cfg intent expected =
     bind_act (broker_act kind cfg intent) (\<lambda>actuation.
       if \<not> ar_accepted actuation then transition_failed cfg actuation
       else bind_act (verify cfg (ai_episode_id intent) expected)
              (transition_verified cfg actuation))"

section \<open>Reconciliation\<close>

definition disposition_of :: "receipt \<Rightarrow> verification_result \<Rightarrow> disposition \<times> standing \<times> string" where
  "disposition_of source verification =
     (if vr_passed verification
      then (EFFECT_CONFIRMED, ALIVE, ''RECONCILIATION_EFFECT_CONFIRMED'')
      else if rc_pre_state_digest source \<noteq> None \<and>
              Some (vr_state_digest verification) = rc_pre_state_digest source
      then (NO_EFFECT, REFUSED, ''RECONCILIATION_NO_EFFECT_RETRY_NOT_ADMITTED'')
      else (PARTIAL_EFFECT, UNCERTAIN, ''RECONCILIATION_PARTIAL_EFFECT''))"

definition reconcile_uncertain ::
    "('p, 'h, 'w) gym_config \<Rightarrow> verified_transition \<Rightarrow> dict \<Rightarrow>
       (('p, 'h, 'w) gym, reconciled_transition) action" where
  "reconcile_uncertain cfg transition expected =
     (if vt_standing transition \<noteq> UNCERTAIN
      then pure_res (Inl (value_error ''RECONCILIATION_REQUIRES_UNCERTAIN_TRANSITION''))
      else
        let source = ar_receipt (vt_actuation transition)
        in bind_act (verify cfg (rc_episode_id source) expected) (\<lambda>verification g.
             case disposition_of source verification of
               (disp, stand, reason) \<Rightarrow>
                 (let result = \<lparr>re_disposition = disp, re_standing = stand,
                        re_observed_state_digest = Some (vr_state_digest verification),
                        re_verification_ref = Some (vr_verification_id verification),
                        re_retry_admitted = False, re_reason = Some reason\<rparr>;
                      r = verification_receipt cfg g (vt_actuation transition) verification
                            stand (Some reason)
                  in bind_act (record_built cfg r) (\<lambda>_. pure_res (Inr
                       \<lparr>rt_reconciliation = result, rt_verification = verification,
                        rt_receipt = r\<rparr>)) (tick g))))"

section \<open>The broker\<close>

definition effect_json :: "expected_effect \<Rightarrow> dict" where
  "effect_json e = [(''predicate'', JStr (ee_predicate e)), (''parameters'', JObj (ee_parameters e))]"

text \<open>\<open>_grant_fields\<close>: what the grant adds to a broker receipt.\<close>

definition grant_fields :: "action_definition \<Rightarrow> execution_grant \<Rightarrow> receipt \<Rightarrow> receipt" where
  "grant_fields action grant r =
     r\<lparr>rc_principal := Some (eg_principal grant),
       rc_delegated_principal := eg_delegated_principal grant,
       rc_policy_revision := Some (eg_policy_revision grant),
       rc_intended_effects := map effect_json (ac_expected_effects action)\<rparr>"

definition refuse_admission ::
    "('p, 'h, 'w) gym_config \<Rightarrow> action_definition \<Rightarrow> prepared_action \<Rightarrow> execution_grant \<Rightarrow>
       string \<Rightarrow> (('p, 'h, 'w) gym, verified_transition) action" where
  "refuse_admission cfg action prepared grant reason g =
     (let r = grant_fields action grant
            ((mint cfg g (pa_episode_id prepared) ACT REFUSED)
              \<lparr>rc_subject_ref := Some (sr_provider_ref (pa_subject prepared)),
               rc_capability_ref := Some (ac_capability_ref action),
               rc_authority_ref := Some (eg_authority_ref grant),
               rc_idempotency_key := Some (pa_idempotency_key prepared),
               rc_planning_provenance_digest := pa_planning_provenance_digest prepared,
               rc_acknowledgement_status := Some ''NOT_ATTEMPTED'',
               rc_verified := Some False, rc_reason := Some reason\<rparr>)
      in bind_act (record_built cfg r) (\<lambda>_. pure_res (Inr
           \<lparr>vt_standing = REFUSED,
            vt_actuation = \<lparr>ar_accepted = False, ar_standing = REFUSED, ar_effect = None,
              ar_observation = None, ar_receipt = r\<rparr>,
            vt_verification = None, vt_receipt = r\<rparr>)) (tick g))"

definition admitted_intent :: "action_definition \<Rightarrow> prepared_action \<Rightarrow> execution_grant \<Rightarrow>
    actuation_intent" where
  "admitted_intent action prepared grant =
     \<lparr>ai_episode_id = pa_episode_id prepared, ai_capability = ac_capability_ref action,
      ai_payload = pa_payload prepared, ai_authority_ref = Some (eg_authority_ref grant),
      ai_principal = None,
      ai_planning_provenance_digest = pa_planning_provenance_digest prepared,
      ai_idempotency_key = pa_idempotency_key prepared\<rparr>"

definition bound_receipt ::
    "('p, 'h, 'w) gym_config \<Rightarrow> action_definition \<Rightarrow> prepared_action \<Rightarrow> execution_grant \<Rightarrow>
       receipt \<Rightarrow> ('p, 'h, 'w) gym \<Rightarrow> receipt" where
  "bound_receipt cfg action prepared grant source g =
     grant_fields action grant
       ((mint cfg g (rc_episode_id source) (rc_operation source) (rc_standing source))
         \<lparr>rc_subject_ref := Some (sr_provider_ref (pa_subject prepared)),
          rc_capability_ref := Some (ac_capability_ref action),
          rc_authority_ref := Some (eg_authority_ref grant),
          rc_authority_evidence_ref := rc_authority_evidence_ref source,
          rc_idempotency_key := Some (pa_idempotency_key prepared),
          rc_planning_provenance_digest := pa_planning_provenance_digest prepared,
          rc_pre_state_digest := rc_pre_state_digest source,
          rc_post_state_digest := rc_post_state_digest source,
          rc_acknowledgement_status := rc_acknowledgement_status source,
          rc_world_changed := rc_world_changed source,
          rc_verification_id := rc_verification_id source,
          rc_verified := rc_verified source,
          rc_observation_confidence := rc_observation_confidence source,
          rc_parent_receipt_ids := [rc_receipt_id source],
          rc_error_digest := rc_error_digest source, rc_reason := rc_reason source\<rparr>)"

definition execute_admitted ::
    "runtime_kind \<Rightarrow> ('p, 'h, 'w) gym_config \<Rightarrow> action_definition \<Rightarrow> prepared_action \<Rightarrow>
       execution_grant \<Rightarrow> string option \<Rightarrow> int \<Rightarrow> dict \<Rightarrow>
       (('p, 'h, 'w) gym, verified_transition) action" where
  "execute_admitted kind cfg action prepared grant current_revision moment expected =
     (let admission = admit_execution action prepared grant current_revision moment;
          intent = admitted_intent action prepared grant
      in if \<not> am_admitted admission
         then refuse_admission cfg action prepared grant (am_reason admission)
         else
           bind_act (pure_res (require_canonical_json (gc_size cfg)
               (actuation_intent_json intent))) (\<lambda>_.
             bind_act (execute_verified kind cfg intent expected) (\<lambda>transition g.
               let r = bound_receipt cfg action prepared grant (vt_receipt transition) g
               in bind_act (record_built cfg r) (\<lambda>_. pure_res (Inr
                    \<lparr>vt_standing = vt_standing transition,
                     vt_actuation = vt_actuation transition,
                     vt_verification = vt_verification transition, vt_receipt = r\<rparr>))
                  (tick g))))"

record broker_request =
  br_action :: action_definition
  br_prepared :: prepared_action
  br_grant :: execution_grant
  br_current_revision :: "string option"
  br_expected :: dict

definition broker_execute ::
    "runtime_kind \<Rightarrow> ('p, 'h, 'w) gym_config \<Rightarrow> broker_request \<Rightarrow> int \<Rightarrow>
       (('p, 'h, 'w) gym, verified_transition) action" where
  "broker_execute kind cfg request moment =
     execute_admitted kind cfg (br_action request) (br_prepared request) (br_grant request)
       (br_current_revision request) moment (br_expected request)"

end
