(* ===== verification/Crown_Props.thy ===== *)
theory Crown_Props
  imports Crown
begin

text \<open>
  The exclusive DO path: nothing but an admitted broker request actuates a production
  runtime, a transition is ALIVE only when it was verified, every step of it is evidence,
  and reconciliation never retries.
\<close>

section \<open>Recording\<close>

lemma in_ledger_evolves:
  assumes "gym_inv cfg g" "gym_inv cfg g'" "evolves g g'" "in_ledger g r"
  shows "in_ledger g' r"
proof -
  from assms(3) obtain s where "ml_records (g_ledger g') = ml_records (g_ledger g) @ s"
    by (auto simp: evolves_def)
  with assms(1,2,4) show ?thesis
    by (auto simp: in_ledger_def ledger_find_def gym_inv_def ledger_inv_def find_append)
qed

lemma record_built_returns:
  assumes "record_built cfg r g = (Inr s, g')"
  shows "s = r \<and> record_receipt cfg r g = (Inr r, g')"
proof -
  from assms obtain r1 where "combinatorial_binding_is_atomic r = Inr r1"
    "record_receipt cfg r1 g = (Inr s, g')"
    unfolding record_built_def by (auto elim!: bind_act_InrE)
  with combinatorial_binding_is_atomic_InrD record_receipt_returns show ?thesis by metis
qed

lemma record_built_step:
  assumes "record_built cfg r (tick g) = (Inr s, g')" "gym_inv cfg g"
  shows "gym_inv cfg g' \<and> evolves g g' \<and> in_ledger g' r \<and> g_world g' = g_world g"
proof -
  from record_built_returns [OF assms(1)] have rec: "record_receipt cfg r (tick g) = (Inr r, g')"
    by simp
  have inv: "gym_inv cfg (tick g)" using assms(2) by simp
  from record_receipt_inv [OF rec inv] record_receipt_recorded [OF rec inv]
    record_receipt_evolves [OF rec] record_receipt_frame [OF rec]
  show ?thesis by simp
qed

text \<open>Every operation of this layer is a run of the runtime.\<close>

lemma bind_act_steps:
  assumes "bind_act m f g = (x, g')"
    and "\<And>a h. m g = (a, h) \<Longrightarrow> (gym_step cfg)\<^sup>*\<^sup>* g h"
    and "\<And>a h. m g = (Inr a, h) \<Longrightarrow> f a h = (x, g') \<Longrightarrow> (gym_step cfg)\<^sup>*\<^sup>* h g'"
  shows "(gym_step cfg)\<^sup>*\<^sup>* g g'"
  using assms by (auto elim!: bind_act_cases intro: rtranclp_trans)

lemma record_built_steps:
  "record_built cfg r g = (x, g') \<Longrightarrow> (gym_step cfg)\<^sup>*\<^sup>* g g'"
  unfolding record_built_def by (auto elim!: bind_act_cases dest!: step_record)

lemma record_then_steps:
  assumes "bind_act (record_built cfg r) (\<lambda>_. pure_res y) (tick g) = (x, g')"
  shows "(gym_step cfg)\<^sup>*\<^sup>* g g'"
proof -
  have "(gym_step cfg)\<^sup>*\<^sup>* (tick g) g'"
    using assms by (auto elim!: bind_act_cases intro: record_built_steps)
  with step_tick show ?thesis by (rule converse_rtranclp_into_rtranclp)
qed

lemma transition_steps:
  "transition_failed cfg a g = (x, g') \<Longrightarrow> (gym_step cfg)\<^sup>*\<^sup>* g g'"
  "transition_verified cfg a v g = (y, g') \<Longrightarrow> (gym_step cfg)\<^sup>*\<^sup>* g g'"
  "refuse_admission cfg action prepared grant reason g = (z, g') \<Longrightarrow> (gym_step cfg)\<^sup>*\<^sup>* g g'"
  by (auto simp: transition_failed_def transition_verified_def refuse_admission_def Let_def
      split: if_splits intro: record_then_steps)

lemma with_actuate_recording [simp]:
  "record_receipt (with_actuate cfg f) = record_receipt cfg"
  "record_built (with_actuate cfg f) = record_built cfg"
  "mint (with_actuate cfg f) = mint cfg"
  "production_refuse (with_actuate cfg f) = production_refuse cfg"
  "verify (with_actuate cfg f) = verify cfg"
  "verification_receipt (with_actuate cfg f) = verification_receipt cfg"
proof -
  show rec: "record_receipt (with_actuate cfg f) = record_receipt cfg"
    and built: "record_built (with_actuate cfg f) = record_built cfg"
    and mint: "mint (with_actuate cfg f) = mint cfg"
    by (simp_all add: with_actuate_def fun_eq_iff record_receipt_def record_built_def [abs_def]
        record_receipt_def [abs_def] mint_def)
  show "production_refuse (with_actuate cfg f) = production_refuse cfg"
    "verification_receipt (with_actuate cfg f) = verification_receipt cfg"
    by (simp_all add: fun_eq_iff production_refuse_def verification_receipt_def follow_up_def
        built mint)
  have bounded: "env_verify (gc_spi (with_actuate cfg f)) = env_verify (gc_spi cfg)"
    "gc_judge (with_actuate cfg f) = gc_judge cfg"
    "fresh_uuid (with_actuate cfg f) = fresh_uuid cfg"
    by (simp_all add: with_actuate_def fresh_uuid_def fun_eq_iff)
  have verdict: "verify_verdict (with_actuate cfg f) = verify_verdict cfg"
    by (simp add: fun_eq_iff verify_verdict_def bounded rec mint)
  show "verify (with_actuate cfg f) = verify cfg"
    by (simp add: fun_eq_iff verify_def verify_locked_def bounded verdict)
qed

lemma broker_act_is_act [simp]: "broker_act kind cfg i = act cfg i"
  by (cases kind) (simp_all add: broker_act_def act_from_brce_def fun_eq_iff)

lemma execute_verified_steps:
  assumes "execute_verified kind cfg i expected g = (x, g')"
  shows "(gym_step cfg)\<^sup>*\<^sup>* g g'"
  using assms unfolding execute_verified_def broker_act_is_act
proof (rule bind_act_steps)
  fix a h
  show "act cfg i g = (a, h) \<Longrightarrow> (gym_step cfg)\<^sup>*\<^sup>* g h" by (auto dest: step_act)
next
  fix a h
  assume "(if \<not> ar_accepted a then transition_failed cfg a
      else bind_act (verify cfg (ai_episode_id i) expected) (transition_verified cfg a)) h = (x, g')"
  then show "(gym_step cfg)\<^sup>*\<^sup>* h g'"
    by (auto split: if_splits intro: transition_steps dest!: step_verify elim!: bind_act_steps)
qed

lemma broker_execute_steps:
  assumes "broker_execute kind cfg q moment g = (x, g')"
  shows "(gym_step cfg)\<^sup>*\<^sup>* g g'"
  using assms unfolding broker_execute_def execute_admitted_def Let_def
  by (auto split: if_splits elim!: bind_act_steps
      intro: transition_steps execute_verified_steps record_then_steps)

section \<open>A broker request at work\<close>

definition demo_subject :: subject_ref where
  "demo_subject = \<lparr>sr_semantic_id = ''urn:door'', sr_provider_ref = ''memory:door'',
     sr_revision = Some ''7''\<rparr>"

definition demo_action :: action_definition where
  "demo_action =
     \<lparr>ac_semantic_id = ''urn:open'', ac_provider_ref = ''memory'',
      ac_capability_ref = ''urn:gymact:memory:capability:set'', ac_subject_type = ''door'',
      ac_input_schema = [], ac_output_schema = [], ac_preconditions = [],
      ac_authority = \<lparr>ar_capability_refs = [], ar_policy_refs = [],
        ar_autonomous_policy_may_be_stricter = True\<rparr>,
      ac_expected_effects = [\<lparr>ee_predicate = ''door-open'', ee_parameters = []\<rparr>],
      ac_verification = \<lparr>vs_kind = EXACT_STATE, vs_observer_ref = ''kernel'', vs_expected = [],
        vs_minimum_confidence = SAME_PROVIDER_OBSERVED, vs_settle_timeout_s = 0, vs_quorum = 1\<rparr>,
      ac_idempotency = IDEMPOTENT, ac_idempotency_fields = [], ac_reversal = REVERSIBLE,
      ac_compensation_action_ref = None,
      ac_cost = \<lparr>co_monetary = 0, co_expected_wall_time_s = 0, co_compute_units = 0,
        co_expected_human_approvals = 0, co_expected_failure_probability = 0\<rparr>,
      ac_locality = \<lparr>cl_execution_site = ''here'', cl_observer_site = ''here'',
        cl_estimated_hops = None, cl_estimated_effect_latency_s = None,
        cl_estimated_observation_latency_s = None\<rparr>,
      ac_standing = CANDIDATE, ac_evidence_refs = []\<rparr>"

definition demo_grant :: execution_grant where
  "demo_grant =
     \<lparr>eg_principal = ''urn:alice'', eg_delegated_principal = None, eg_action_ref = ''urn:open'',
      eg_subject = demo_subject, eg_capability_ref = ''urn:gymact:memory:capability:set'',
      eg_authority_ref = ''board'', eg_policy_revision = ''p1'',
      eg_admitted_observation_ref = ''obs'',
      eg_intended_effects = [\<lparr>ee_predicate = ''door-open'', ee_parameters = []\<rparr>],
      eg_scope_refs = [''urn:door''], eg_expires_at = Some 100, eg_nonce = ''n''\<rparr>"

definition demo_request :: broker_request where
  "demo_request =
     \<lparr>br_action = demo_action,
      br_prepared = \<lparr>pa_episode_id = demo_e1, pa_action_ref = ''urn:open'',
        pa_subject = demo_subject, pa_payload = ai_payload demo_act,
        pa_admission_digest = ''d'', pa_planning_provenance_digest = None,
        pa_idempotency_key = ''k1''\<rparr>,
      br_grant = demo_grant, br_current_revision = Some ''7'',
      br_expected = [(''door'', JStr ''open'')]\<rparr>"

lemmas demo_request_defs =
  demo_request_def demo_action_def demo_grant_def demo_subject_def

lemma demo_request_closes:
  "closes (br_action demo_request) (br_prepared demo_request) (br_grant demo_request)
     (br_current_revision demo_request) 0"
  by (simp add: closes_def expired_def demo_request_defs or_else_def truthy_def effect_eq_def)

lemma demo_request_expired:
  "\<not> closes (br_action demo_request) (br_prepared demo_request) (br_grant demo_request)
     (br_current_revision demo_request) 100"
  by (simp add: closes_def expired_def demo_request_defs)

lemma demo_intent_is_act:
  "admitted_intent (br_action demo_request) (br_prepared demo_request) (br_grant demo_request) = demo_act"
  by (simp add: admitted_intent_def demo_request_defs demo_act_def demo_set_def)

lemmas demo_verify_eval =
  verify_def verify_locked_def verify_verdict_def memory_verify_def dict_subset_judge_def
  child_path_def verification_reason_def

lemma demo_broker_alive:
  "case broker_execute Production_runtime demo demo_request 0 demo_g2 of
     (Inr t, g) \<Rightarrow> vt_standing t = ALIVE | (Inl e, g) \<Rightarrow> False"
proof -
  have "ai_episode_id demo_act = ''u''" "br_expected demo_request = [(''door'', JStr ''open'')]"
    "ar_accepted demo_result"
    by (simp_all add: demo_act_def demo_set_def demo_e1_def demo_request_def demo_result_def)
  then show ?thesis
    unfolding broker_execute_def execute_admitted_def demo_intent_is_act
    by (simp add: admit_execution_iff demo_request_closes execute_verified_def
        demo_act_eq bind_act_def require_canonical_json_def actuation_intent_json_def)
      (simp add: demo_eval demo_verify_eval transition_verified_def record_built_def
        combinatorial_binding_is_atomic_def receipt_core_def verification_receipt_def
        follow_up_def bound_receipt_def grant_fields_def demo_request_defs demo_result_def demo_r2_def
        del: demo_digest.simps)
qed

definition demo_uncertain :: verified_transition where
  "demo_uncertain =
     \<lparr>vt_standing = UNCERTAIN, vt_actuation = demo_result\<lparr>ar_accepted := False\<rparr>,
      vt_verification = None, vt_receipt = demo_r2\<rparr>"

lemma demo_reconciled:
  "case reconcile_uncertain demo demo_uncertain [(''door'', JStr ''open'')] demo_g2 of
     (Inr rt, g) \<Rightarrow> re_retry_admitted (admit_retry demo_action (rt_reconciliation rt))
   | (Inl e, g) \<Rightarrow> False"
  by (simp add: reconcile_uncertain_def demo_uncertain_def demo_result_def demo_r2_def demo_eval
      demo_verify_eval record_built_def combinatorial_binding_is_atomic_def receipt_core_def
      verification_receipt_def follow_up_def disposition_of_def admit_retry_def demo_action_def
      del: demo_digest.simps)

section \<open>Nothing but the broker actuates\<close>

lemma production_refuse_returns:
  "production_refuse cfg st i reason g = (Inr r, g') \<Longrightarrow>
     \<not> ar_accepted r \<and> ar_standing r = REFUSED \<and>
     rc_reason (ar_receipt r) = Some reason"
  by (auto simp: production_refuse_def Let_def elim!: bind_act_InrE)

text \<open>On a production runtime a direct \<open>act\<close>, and the sealed port without the
  broker's seal, refuse whatever they return, with a reason that says so, and behave the
  same whatever the provider's \<open>actuate\<close> would do: they never call it.\<close>

theorem production_needs_broker:
  "production_act (with_actuate cfg f) i g = production_act cfg i g \<and>
   act_from_brce (with_actuate cfg f) i False g = act_from_brce cfg i False g \<and>
   (case fst (production_act cfg i g) of
      Inr r \<Rightarrow> \<not> ar_accepted r \<and> ar_standing r = REFUSED \<and>
        rc_reason (ar_receipt r) = Some ''BRCE_EXECUTION_GRANT_REQUIRED''
    | Inl e \<Rightarrow> True) \<and>
   (case fst (act_from_brce cfg i False g) of
      Inr r \<Rightarrow> \<not> ar_accepted r \<and> ar_standing r = REFUSED \<and>
        rc_reason (ar_receipt r) = Some ''BRCE_EXECUTION_SEAL_REFUSED''
    | Inl e \<Rightarrow> True)"
proof -
  have "\<not> ar_accepted r \<and> ar_standing r = REFUSED \<and> rc_reason (ar_receipt r) = Some reason"
    if "bind_act (episode_state eid) (\<lambda>st. production_refuse cfg st i reason) g = (Inr r, g')"
    for r g' eid reason
    using that by (auto elim!: bind_act_InrE dest: production_refuse_returns)
  then show ?thesis
    unfolding production_act_def act_from_brce_def
    by (auto split: sum.splits) (metis prod.collapse)+
qed

section \<open>Refused admission\<close>

text \<open>C21: a broker request whose grant does not close over the action, the prepared intent
  and the current revision is refused before the DO port: the world is untouched, the
  provider is not called, and if the broker returns, the refusal is in the ledger with the
  grant's principal.\<close>

theorem broker_refuses_unclosed:
  assumes "reachable cfg g"
    and "\<not> closes (br_action q) (br_prepared q) (br_grant q) (br_current_revision q) moment"
  shows "broker_execute kind (with_actuate cfg f) q moment g = broker_execute kind cfg q moment g \<and>
    g_world (snd (broker_execute kind cfg q moment g)) = g_world g \<and>
    (\<forall>t g'. broker_execute kind cfg q moment g = (Inr t, g') \<longrightarrow>
       vt_standing t = REFUSED \<and> in_ledger g' (vt_receipt t) \<and>
       rc_acknowledgement_status (vt_receipt t) = Some ''NOT_ATTEMPTED'' \<and>
       rc_principal (vt_receipt t) = Some (eg_principal (br_grant q)))"
proof -
  let ?run = "\<lambda>c. refuse_admission c (br_action q) (br_prepared q) (br_grant q)
    (am_reason (admit_execution (br_action q) (br_prepared q) (br_grant q)
      (br_current_revision q) moment))"
  have run: "broker_execute kind c q moment = ?run c" for c :: "('a, 'b, 'c) gym_config"
    using assms(2) by (simp add: broker_execute_def execute_admitted_def admit_execution_iff)
  have world: "g_world g' = g_world h" if "record_built cfg r h = (x, g')" for r h x g'
    using that by (auto simp: record_built_def elim!: bind_act_cases dest: record_receipt_frame)
  have "g_world (snd (?run cfg g)) = g_world g"
    unfolding refuse_admission_def Let_def
    by (auto simp: bind_act_def split: prod.splits sum.splits dest: world)
  moreover have "vt_standing t = REFUSED \<and> in_ledger g' (vt_receipt t) \<and>
       rc_acknowledgement_status (vt_receipt t) = Some ''NOT_ATTEMPTED'' \<and>
       rc_principal (vt_receipt t) = Some (eg_principal (br_grant q))"
    if "?run cfg g = (Inr t, g')" for t g'
    using that reachable_inv [OF assms(1)]
    unfolding refuse_admission_def Let_def
    by (auto elim!: bind_act_InrE dest!: record_built_step simp: grant_fields_def)
  moreover have "?run (with_actuate cfg f) = ?run cfg"
    by (simp add: refuse_admission_def fun_eq_iff)
  ultimately show ?thesis by (simp add: run)
qed

lemma demo_broker_refuses:
  "case broker_execute Production_runtime demo demo_request 100 demo_g2 of
     (Inr t, g) \<Rightarrow> True | (Inl e, g) \<Rightarrow> False"
  unfolding broker_execute_def execute_admitted_def
  by (simp add: admit_execution_iff demo_request_expired [unfolded One_nat_def])
    (simp add: demo_eval refuse_admission_def record_built_def grant_fields_def
      combinatorial_binding_is_atomic_def receipt_core_def demo_request_defs
      del: demo_digest.simps)

theorem broker_refuses_unclosed_witness:
  "\<exists>t g. broker_execute Production_runtime demo demo_request 100 demo_g2 = (Inr t, g) \<and>
     vt_standing t = REFUSED \<and> in_ledger g (vt_receipt t) \<and> g_world g = g_world demo_g2"
proof (cases "broker_execute Production_runtime demo demo_request 100 demo_g2")
  case (Pair x g)
  with demo_broker_refuses obtain t where "x = Inr t" by (cases x) simp_all
  with Pair broker_refuses_unclosed [OF reachable_demo(1) demo_request_expired]
  show ?thesis by fastforce
qed

section \<open>A transition that is ALIVE\<close>

text \<open>The links a completed broker transition leaves in the ledger.\<close>

definition bound_chain ::
    "('p, 'h, 'w) gym \<Rightarrow> verified_transition \<Rightarrow> bool" where
  "bound_chain g t \<longleftrightarrow>
     in_ledger g (ar_receipt (vt_actuation t)) \<and> in_ledger g (vt_receipt t) \<and>
     (\<exists>link. in_ledger g link \<and> rc_operation link = VERIFY \<and> rc_verified link = Some True \<and>
        rc_parent_receipt_ids link = [rc_receipt_id (ar_receipt (vt_actuation t))] \<and>
        rc_parent_receipt_ids (vt_receipt t) = [rc_receipt_id link])"

lemma act_accepted_iff:
  assumes "act cfg i g = (Inr r, g')" "gym_inv cfg g"
  shows "(ar_accepted r \<longleftrightarrow> ar_standing r = ALIVE) \<and> in_ledger g' (ar_receipt r)"
proof -
  from assms(1) obtain st where "act_locked cfg st i g = (Inr r, g')" by (rule act_InrE)
  then show ?thesis
  proof (cases rule: act_locked_cases)
    case (fresh before g1)
    with assms(2) show ?thesis
      by (auto simp: act_outcome_def dest!: observe_unlocked_frame dest: act_fresh_outcome)
  next
    case (replay x)
    with assms(2) show ?thesis by (auto simp: gym_inv_def)
  next
    case (conflict x before g1)
    with assms(2) show ?thesis
      by (auto simp: act_outcome_def dest!: observe_unlocked_frame dest!: act_refuse_outcome)
  qed
qed

lemma transition_failed_standing:
  "transition_failed cfg a g = (Inr t, g') \<Longrightarrow> \<not> ar_accepted a \<Longrightarrow>
     (ar_accepted a \<longleftrightarrow> ar_standing a = ALIVE) \<Longrightarrow> vt_standing t \<noteq> ALIVE"
  by (auto simp: transition_failed_def Let_def split: if_splits elim!: bind_act_InrE)

lemma execute_verified_alive:
  assumes "execute_verified kind cfg i expected g = (Inr t, g')" "vt_standing t = ALIVE"
    and "gym_inv cfg g"
  shows "ar_accepted (vt_actuation t) \<and> gym_inv cfg g' \<and>
    in_ledger g' (ar_receipt (vt_actuation t)) \<and> in_ledger g' (vt_receipt t) \<and>
    (\<exists>v. vt_verification t = Some v \<and> vr_passed v \<and> vr_expected v = expected) \<and>
    rc_operation (vt_receipt t) = VERIFY \<and> rc_verified (vt_receipt t) = Some True \<and>
    rc_parent_receipt_ids (vt_receipt t) = [rc_receipt_id (ar_receipt (vt_actuation t))]"
proof -
  from assms(1) obtain a g1 where a: "act cfg i g = (Inr a, g1)"
    and rest: "(if \<not> ar_accepted a then transition_failed cfg a
       else bind_act (verify cfg (ai_episode_id i) expected) (transition_verified cfg a)) g1 =
       (Inr t, g')"
    unfolding execute_verified_def by (auto elim!: bind_act_InrE)
  note acc = act_accepted_iff [OF a assms(3)]
  have inv1: "gym_inv cfg g1" by (rule act_inv [OF a assms(3)])
  have accepted: "ar_accepted a"
  proof (rule ccontr)
    assume not: "\<not> ar_accepted a"
    with rest have "transition_failed cfg a g1 = (Inr t, g')" by simp
    from transition_failed_standing [OF this not] acc assms(2) show False by simp
  qed
  with rest obtain v g2 where v: "verify cfg (ai_episode_id i) expected g1 = (Inr v, g2)"
    and tv: "transition_verified cfg a v g2 = (Inr t, g')"
    by (auto elim!: bind_act_InrE)
  have inv2: "gym_inv cfg g2" by (rule verify_inv [OF v inv1])
  have "in_ledger g2 (ar_receipt a)"
    using in_ledger_evolves [OF inv1 inv2 verify_evolves [OF v]] acc by blast
  moreover have exp: "vr_expected v = expected"
    using v by (auto elim!: verify_returnsE dest!: verify_verdict_returns)
  obtain r s where r: "record_built cfg r (tick g2) = (Inr s, g')"
    "t = \<lparr>vt_standing = if vr_passed v then ALIVE else REFUSED, vt_actuation = a,
       vt_verification = Some v, vt_receipt = r\<rparr>"
    "r = verification_receipt cfg g2 a v (if vr_passed v then ALIVE else REFUSED)
       (if vr_passed v then None else Some ''POSTCONDITION_FAILED'')"
    using tv unfolding transition_verified_def Let_def by (auto elim!: bind_act_InrE)
  have passed: "vr_passed v" using r(2) assms(2) by (auto split: if_splits)
  note step = record_built_step [OF r(1) inv2]
  have "rc_operation r = VERIFY" "rc_verified r = Some True"
    "rc_parent_receipt_ids r = [rc_receipt_id (ar_receipt a)]"
    using passed by (simp_all add: r(3) verification_receipt_def follow_up_def mint_def new_receipt_def)
  ultimately show ?thesis
    using r(2) step inv2 exp passed \<open>ar_accepted a\<close> in_ledger_evolves [of cfg g2 g' "ar_receipt a"]
    by simp
qed

lemma broker_alive:
  assumes "reachable cfg g" "broker_execute kind cfg q moment g = (Inr t, g')"
    and "vt_standing t = ALIVE"
  shows "closes (br_action q) (br_prepared q) (br_grant q) (br_current_revision q) moment \<and>
    ar_accepted (vt_actuation t) \<and>
    (\<exists>v. vt_verification t = Some v \<and> vr_passed v \<and> vr_expected v = br_expected q) \<and>
    bound_chain g' t \<and> rc_principal (vt_receipt t) = Some (eg_principal (br_grant q))"
proof -
  let ?a = "br_action q" and ?p = "br_prepared q" and ?g = "br_grant q"
  note inv = reachable_inv [OF assms(1)]
  have "closes ?a ?p ?g (br_current_revision q) moment"
    using assms(2,3)
    by (auto simp: broker_execute_def execute_admitted_def refuse_admission_def Let_def
        admit_execution_iff split: if_splits elim!: bind_act_InrE)
  then obtain u g1 where
    u: "execute_verified kind cfg (admitted_intent ?a ?p ?g) (br_expected q) g = (Inr u, g1)"
    and t: "t = \<lparr>vt_standing = vt_standing u, vt_actuation = vt_actuation u,
       vt_verification = vt_verification u,
       vt_receipt = bound_receipt cfg ?a ?p ?g (vt_receipt u) g1\<rparr>"
    and rec: "\<exists>s. record_built cfg (bound_receipt cfg ?a ?p ?g (vt_receipt u) g1) (tick g1) = (Inr s, g')"
    using assms(2)
    by (auto simp: broker_execute_def execute_admitted_def Let_def admit_execution_iff
        elim!: bind_act_InrE)
  have alive: "vt_standing u = ALIVE" using assms(3) t by simp
  note ex = execute_verified_alive [OF u alive inv]
  from rec ex have step: "gym_inv cfg g'" "evolves g1 g'"
    "in_ledger g' (bound_receipt cfg ?a ?p ?g (vt_receipt u) g1)"
    by (auto dest: record_built_step)
  have keep: "in_ledger g1 r \<Longrightarrow> in_ledger g' r" for r
    using in_ledger_evolves [of cfg g1 g' r] ex step by blast
  have "bound_chain g' t"
    unfolding bound_chain_def t using ex step keep
    by (auto simp: bound_receipt_def grant_fields_def intro!: exI [of _ "vt_receipt u"])
  with \<open>closes _ _ _ _ _\<close> ex show ?thesis
    by (auto simp: t bound_receipt_def grant_fields_def)
qed

text \<open>C3: when the broker reports ALIVE, the grant closed over the action, the actuation was
  accepted, an independent verification against the request's expectation passed, and the
  ledger holds the actuation receipt, the verification receipt that names it as parent and
  the grant-bound receipt that names that one as parent.\<close>

theorem broker_alive_is_verified:
  assumes "reachable cfg g" "broker_execute kind cfg q moment g = (Inr t, g')"
    and "vt_standing t = ALIVE"
  shows "closes (br_action q) (br_prepared q) (br_grant q) (br_current_revision q) moment \<and>
    ar_accepted (vt_actuation t) \<and>
    (\<exists>v. vt_verification t = Some v \<and> vr_passed v \<and> vr_expected v = br_expected q) \<and>
    bound_chain g' t \<and> rc_principal (vt_receipt t) = Some (eg_principal (br_grant q))"
  by (rule broker_alive [OF assms])

theorem broker_alive_is_verified_witness:
  "\<exists>t g. broker_execute Production_runtime demo demo_request 0 demo_g2 = (Inr t, g) \<and>
     vt_standing t = ALIVE \<and> bound_chain g t"
proof (cases "broker_execute Production_runtime demo demo_request 0 demo_g2")
  case (Pair x g)
  with demo_broker_alive obtain t where t: "x = Inr t" "vt_standing t = ALIVE"
    by (cases x) simp_all
  with Pair broker_alive_is_verified [OF reachable_demo(1)] show ?thesis by blast
qed

section \<open>Reconciliation\<close>

text \<open>Reconciling an uncertain transition never calls the provider's \<open>actuate\<close> and never
  admits a retry by itself; a retry candidate afterwards means that the verification
  failed, the observed state still had the digest from before the actuation, and the
  action is (conditionally) idempotent.\<close>

theorem retry_needs_no_effect:
  assumes "reconcile_uncertain cfg t expected g = (Inr rt, g')"
  shows "reconcile_uncertain (with_actuate cfg f) t expected g = (Inr rt, g') \<and>
    vt_standing t = UNCERTAIN \<and> \<not> re_retry_admitted (rt_reconciliation rt) \<and>
    (re_retry_admitted (admit_retry a (rt_reconciliation rt)) \<longrightarrow>
       \<not> vr_passed (rt_verification rt) \<and>
       rc_pre_state_digest (ar_receipt (vt_actuation t)) =
         Some (vr_state_digest (rt_verification rt)) \<and>
       ac_idempotency a \<in> {IDEMPOTENT, CONDITIONALLY_IDEMPOTENT})"
proof -
  have "vt_standing t = UNCERTAIN"
    using assms by (auto simp: reconcile_uncertain_def split: if_splits)
  with assms obtain v where v: "rt_verification rt = v"
    "re_disposition (rt_reconciliation rt) =
       fst (disposition_of (ar_receipt (vt_actuation t)) v)"
    "\<not> re_retry_admitted (rt_reconciliation rt)"
    by (auto simp: reconcile_uncertain_def Let_def split: prod.splits elim!: bind_act_InrE)
  have "reconcile_uncertain (with_actuate cfg f) t expected = reconcile_uncertain cfg t expected"
    by (simp add: reconcile_uncertain_def)
  with assms v \<open>vt_standing t = UNCERTAIN\<close> show ?thesis
    by (auto simp: admit_retry_iff disposition_of_def split: if_splits)
qed

theorem retry_needs_no_effect_witness:
  "\<exists>rt g. reconcile_uncertain demo demo_uncertain [(''door'', JStr ''open'')] demo_g2 = (Inr rt, g) \<and>
     re_retry_admitted (admit_retry demo_action (rt_reconciliation rt)) \<and>
     \<not> vr_passed (rt_verification rt)"
proof (cases "reconcile_uncertain demo demo_uncertain [(''door'', JStr ''open'')] demo_g2")
  case (Pair x g)
  with demo_reconciled obtain rt where rt: "x = Inr rt"
    "re_retry_admitted (admit_retry demo_action (rt_reconciliation rt))" by (cases x) simp_all
  with Pair have run: "reconcile_uncertain demo demo_uncertain [(''door'', JStr ''open'')] demo_g2 =
      (Inr rt, g)" by simp
  from retry_needs_no_effect [OF run] rt(2) run show ?thesis by blast
qed

end
