(* ===== verification/Combinatorial.thy ===== *)
theory Combinatorial
  imports Action_Contract
begin

text \<open>
  Possibility graphs, \<open>src/gymact/combinatorial.py\<close>, the semantic binding of a DO edge,
  \<open>src/gymact/consequence_binding.py\<close>, and the path algebra of \<open>src/gymact/algebra.py\<close>.
  Floats are rationals. JSON values have no tuples, so \<open>_json_canonicalize\<close> is the
  identity here. A frozen model is a record; its validator is a function to the error it
  raises or the value.
\<close>

section \<open>Vocabulary\<close>

datatype object_kind =
    OBSERVATION | ADMITTED_OBSERVATION | SUBJECT | CAPABILITY | ACTION | PLAN | PROVIDER
  | PLANNER | VERIFIER | POLICY | CONTROLLER | PROCESS | RECEIPT

datatype morphism_kind =
    K_OBSERVE | K_ADMIT | K_ENABLE | K_REALIZE | K_PLAN | K_PROJECT | K_MANUFACTURE
  | K_VERIFY | K_COMPENSATE | K_REVERSE | K_ACTUATE | K_REPLAY | K_REUSE

datatype decision_phase = PHASE_SELECT | PHASE_CONSTRUCT | PHASE_DO

fun object_kind_value :: "object_kind \<Rightarrow> string" where
  "object_kind_value OBSERVATION = ''observation''"
| "object_kind_value ADMITTED_OBSERVATION = ''admitted_observation''"
| "object_kind_value SUBJECT = ''subject''"
| "object_kind_value CAPABILITY = ''capability''"
| "object_kind_value ACTION = ''action''"
| "object_kind_value PLAN = ''plan''"
| "object_kind_value PROVIDER = ''provider''"
| "object_kind_value PLANNER = ''planner''"
| "object_kind_value VERIFIER = ''verifier''"
| "object_kind_value POLICY = ''policy''"
| "object_kind_value CONTROLLER = ''controller''"
| "object_kind_value PROCESS = ''process''"
| "object_kind_value RECEIPT = ''receipt''"

fun morphism_kind_value :: "morphism_kind \<Rightarrow> string" where
  "morphism_kind_value K_OBSERVE = ''observe''"
| "morphism_kind_value K_ADMIT = ''admit''"
| "morphism_kind_value K_ENABLE = ''enable''"
| "morphism_kind_value K_REALIZE = ''realize''"
| "morphism_kind_value K_PLAN = ''plan''"
| "morphism_kind_value K_PROJECT = ''project''"
| "morphism_kind_value K_MANUFACTURE = ''manufacture''"
| "morphism_kind_value K_VERIFY = ''verify''"
| "morphism_kind_value K_COMPENSATE = ''compensate''"
| "morphism_kind_value K_REVERSE = ''reverse''"
| "morphism_kind_value K_ACTUATE = ''actuate''"
| "morphism_kind_value K_REPLAY = ''replay''"
| "morphism_kind_value K_REUSE = ''reuse''"

fun phase_value :: "decision_phase \<Rightarrow> string" where
  "phase_value PHASE_SELECT = ''SELECT''"
| "phase_value PHASE_CONSTRUCT = ''CONSTRUCT''"
| "phase_value PHASE_DO = ''DO''"

fun reversal_value :: "reversal_class \<Rightarrow> string" where
  "reversal_value REVERSIBLE = ''REVERSIBLE''"
| "reversal_value COMPENSATABLE = ''COMPENSATABLE''"
| "reversal_value IRREVERSIBLE = ''IRREVERSIBLE''"
| "reversal_value REVERSAL_UNKNOWN = ''UNKNOWN''"

section \<open>Models\<close>

record possibility_object =
  po_object_id :: string
  po_kind :: object_kind
  po_semantic_ref :: string
  po_revision :: "string option"
  po_ontology_refs :: "string list"
  po_standing :: standing
  po_evidence_refs :: "string list"
  po_attributes :: dict

record objective_vector =
  ov_monetary_cost :: rat
  ov_wall_time_s :: rat
  ov_compute_units :: rat
  ov_human_interventions :: rat
  ov_risk_score :: rat
  ov_verification_confidence :: int
  ov_expected_value :: rat

definition zero_objectives :: objective_vector where
  "zero_objectives =
     \<lparr>ov_monetary_cost = 0, ov_wall_time_s = 0, ov_compute_units = 0,
      ov_human_interventions = 0, ov_risk_score = 0, ov_verification_confidence = 4,
      ov_expected_value = 0\<rparr>"

text \<open>\<open>ObjectiveVector.compose\<close>: additive costs and value, the weaker confidence.\<close>

definition compose_objectives :: "objective_vector \<Rightarrow> objective_vector \<Rightarrow> objective_vector" where
  "compose_objectives a b =
     \<lparr>ov_monetary_cost = ov_monetary_cost a + ov_monetary_cost b,
      ov_wall_time_s = ov_wall_time_s a + ov_wall_time_s b,
      ov_compute_units = ov_compute_units a + ov_compute_units b,
      ov_human_interventions = ov_human_interventions a + ov_human_interventions b,
      ov_risk_score = ov_risk_score a + ov_risk_score b,
      ov_verification_confidence =
        min (ov_verification_confidence a) (ov_verification_confidence b),
      ov_expected_value = ov_expected_value a + ov_expected_value b\<rparr>"

record morphism_requirements =
  mq_capability_refs :: "string list"
  mq_policy_refs :: "string list"
  mq_evidence_refs :: "string list"
  mq_required_revision :: "string option"
  mq_execution_grant_required :: bool

record possibility_morphism =
  pm_morphism_id :: string
  pm_source_id :: string
  pm_target_id :: string
  pm_kind :: morphism_kind
  pm_phase :: decision_phase
  pm_reversal :: reversal_class
  pm_requirements :: morphism_requirements
  pm_objectives :: objective_vector
  pm_standing :: standing
  pm_evidence_refs :: "string list"
  pm_attributes :: dict

record possibility_graph =
  pg_objects :: "possibility_object list"
  pg_morphisms :: "possibility_morphism list"

record exploration_bounds =
  xb_max_depth :: nat
  xb_max_paths :: nat
  xb_max_combinations :: nat
  xb_max_monetary_cost :: "rat option"
  xb_max_wall_time_s :: "rat option"
  xb_max_compute_units :: "rat option"
  xb_max_human_interventions :: "rat option"
  xb_max_risk_score :: "rat option"

definition default_bounds :: exploration_bounds where
  "default_bounds =
     \<lparr>xb_max_depth = 16, xb_max_paths = 4096, xb_max_combinations = 10000,
      xb_max_monetary_cost = None, xb_max_wall_time_s = None, xb_max_compute_units = None,
      xb_max_human_interventions = None, xb_max_risk_score = None\<rparr>"

record admission_context =
  xc_capability_refs :: "string list"
  xc_policy_refs :: "string list"
  xc_evidence_refs :: "string list"
  xc_current_revision :: "string option"
  xc_execution_grant_ref :: "string option"

record morphism_evaluation =
  mv_morphism_id :: string
  mv_standing :: standing
  mv_admitted :: bool
  mv_reason :: string

record possibility_path =
  pp_object_ids :: "string list"
  pp_morphism_ids :: "string list"
  pp_objectives :: objective_vector

record frontier_edge =
  fe_path_id :: string
  fe_morphism_id :: string
  fe_target_id :: string
  fe_standing :: standing
  fe_admitted :: bool
  fe_reason :: string

record exploration_result =
  xo_graph_digest :: string
  xo_start_ids :: "string list"
  xo_paths :: "possibility_path list"
  xo_pareto_path_ids :: "string list"
  xo_irreversible_frontier :: "frontier_edge list"
  xo_evaluations :: "morphism_evaluation list"
  xo_truncated :: bool
  xo_truncation_reasons :: "string list"

section \<open>Authority never enters the graph\<close>

definition ascii_lower :: "string \<Rightarrow> string" where
  "ascii_lower = map (\<lambda>c. if CHR ''A'' \<le> c \<and> c \<le> CHR ''Z'' then char_of (of_char c + (32 :: nat)) else c)"

definition forbidden_authority_keys :: "string list" where
  "forbidden_authority_keys =
     [''execution_grant'', ''executiongrant'', ''grant'', ''principal'',
      ''delegated_principal'', ''nonce'', ''authority_ref'']"

text \<open>\<open>_forbid_authority_payload\<close> as the predicate "does not raise".\<close>

fun powerless :: "json \<Rightarrow> bool" where
  "powerless (JObj xs) =
     list_all (\<lambda>(k, v). ascii_lower k \<notin> set forbidden_authority_keys \<and> powerless v) xs"
| "powerless (JArr xs) = list_all powerless xs"
| "powerless _ = True"

definition forbid_authority_payload :: "json \<Rightarrow> unit res" where
  "forbid_authority_payload v =
     (if powerless v then Inr ()
      else Inl (value_error ''POSSIBILITY_GRAPH_CANNOT_CARRY_EXECUTION_AUTHORITY''))"

definition validate_object :: "possibility_object \<Rightarrow> possibility_object res" where
  "validate_object item =
     bind_res (forbid_authority_payload (JObj (po_attributes item))) (\<lambda>_. Inr item)"

text \<open>\<open>PossibilityMorphism.enforce_do_boundary_and_powerlessness\<close>.\<close>

definition validate_morphism :: "possibility_morphism \<Rightarrow> possibility_morphism res" where
  "validate_morphism m =
     bind_res (forbid_authority_payload (JObj (pm_attributes m))) (\<lambda>_.
       if pm_kind m = K_ACTUATE \<and> pm_phase m \<noteq> PHASE_DO
       then Inl (value_error ''ACTUATION_MORPHISM_MUST_BE_DO'')
       else if pm_phase m = PHASE_DO \<and> \<not> mq_execution_grant_required (pm_requirements m)
       then Inl (value_error ''DO_MORPHISM_REQUIRES_EXECUTION_GRANT'')
       else if pm_phase m \<noteq> PHASE_DO \<and> mq_execution_grant_required (pm_requirements m)
       then Inl (value_error ''NON_DO_MORPHISM_CANNOT_REQUIRE_EXECUTION_GRANT'')
       else Inr m)"

section \<open>Graphs\<close>

definition object_ids :: "possibility_graph \<Rightarrow> string list" where
  "object_ids g = map po_object_id (pg_objects g)"

definition morphism_ids :: "possibility_graph \<Rightarrow> string list" where
  "morphism_ids g = map pm_morphism_id (pg_morphisms g)"

definition validate_topology :: "possibility_graph \<Rightarrow> possibility_graph res" where
  "validate_topology g =
     (if \<not> distinct (object_ids g) then Inl (value_error ''DUPLICATE_POSSIBILITY_OBJECT_ID'')
      else if \<not> distinct (morphism_ids g)
      then Inl (value_error ''DUPLICATE_POSSIBILITY_MORPHISM_ID'')
      else if list_ex (\<lambda>m. pm_source_id m \<notin> set (object_ids g) \<or>
                          pm_target_id m \<notin> set (object_ids g)) (pg_morphisms g)
      then Inl (value_error ''MORPHISM_ENDPOINT_NOT_IN_GRAPH'')
      else Inr g)"

definition find_object :: "possibility_graph \<Rightarrow> string \<Rightarrow> possibility_object res" where
  "find_object g i =
     (case find (\<lambda>x. po_object_id x = i) (pg_objects g) of
        None \<Rightarrow> Inl (key_error i) | Some x \<Rightarrow> Inr x)"

definition find_morphism :: "possibility_graph \<Rightarrow> string \<Rightarrow> possibility_morphism res" where
  "find_morphism g i =
     (case find (\<lambda>x. pm_morphism_id x = i) (pg_morphisms g) of
        None \<Rightarrow> Inl (key_error i) | Some x \<Rightarrow> Inr x)"

definition outgoing :: "possibility_graph \<Rightarrow> string \<Rightarrow> possibility_morphism list" where
  "outgoing g i = filter (\<lambda>m. pm_source_id m = i) (pg_morphisms g)"

text \<open>Python \<open>==\<close> on the models: field by field, the attributes by \<open>==\<close> on dictionaries.\<close>

definition object_eq :: "possibility_object \<Rightarrow> possibility_object \<Rightarrow> bool" where
  "object_eq a b \<longleftrightarrow> a\<lparr>po_attributes := []\<rparr> = b\<lparr>po_attributes := []\<rparr> \<and>
     py_eq (JObj (po_attributes a)) (JObj (po_attributes b))"

definition morphism_eq :: "possibility_morphism \<Rightarrow> possibility_morphism \<Rightarrow> bool" where
  "morphism_eq a b \<longleftrightarrow> a\<lparr>pm_attributes := []\<rparr> = b\<lparr>pm_attributes := []\<rparr> \<and>
     py_eq (JObj (pm_attributes a)) (JObj (pm_attributes b))"

text \<open>
  \<open>with_object\<close> and \<open>with_morphism\<close>: the dictionary keeps the last item of an id;
  \<open>model_copy\<close> does not run the graph's validator again.
\<close>

definition with_object ::
    "possibility_object \<Rightarrow> possibility_graph \<Rightarrow> possibility_graph res" where
  "with_object x g =
     (case find (\<lambda>y. po_object_id y = po_object_id x) (rev (pg_objects g)) of
        Some prior \<Rightarrow>
          if \<not> object_eq prior x then Inl (value_error ''POSSIBILITY_OBJECT_IDENTITY_CONFLICT'')
          else Inr g
      | None \<Rightarrow> Inr (g\<lparr>pg_objects := pg_objects g @ [x]\<rparr>))"

definition with_morphism ::
    "possibility_morphism \<Rightarrow> possibility_graph \<Rightarrow> possibility_graph res" where
  "with_morphism x g =
     (case find (\<lambda>y. pm_morphism_id y = pm_morphism_id x) (rev (pg_morphisms g)) of
        Some prior \<Rightarrow>
          if \<not> morphism_eq prior x
          then Inl (value_error ''POSSIBILITY_MORPHISM_IDENTITY_CONFLICT'')
          else Inr g
      | None \<Rightarrow> Inr (g\<lparr>pg_morphisms := pg_morphisms g @ [x]\<rparr>))"

definition union_one :: "possibility_graph \<Rightarrow> possibility_graph \<Rightarrow> possibility_graph res" where
  "union_one other g =
     bind_res (fold_res with_object (pg_objects other) g)
       (fold_res with_morphism (pg_morphisms other))"

definition graph_union ::
    "possibility_graph \<Rightarrow> possibility_graph list \<Rightarrow> possibility_graph res" where
  "graph_union g others = fold_res union_one others g"

section \<open>JSON forms\<close>

definition objectives_json :: "objective_vector \<Rightarrow> json" where
  "objectives_json v =
     JObj [(''monetary_cost'', JFloat (ov_monetary_cost v)),
       (''wall_time_s'', JFloat (ov_wall_time_s v)),
       (''compute_units'', JFloat (ov_compute_units v)),
       (''human_interventions'', JFloat (ov_human_interventions v)),
       (''risk_score'', JFloat (ov_risk_score v)),
       (''verification_confidence'', JInt (ov_verification_confidence v)),
       (''expected_value'', JFloat (ov_expected_value v))]"

definition object_json :: "possibility_object \<Rightarrow> json" where
  "object_json x =
     JObj [(''object_id'', JStr (po_object_id x)),
       (''kind'', JStr (object_kind_value (po_kind x))),
       (''semantic_ref'', JStr (po_semantic_ref x)),
       (''revision'', opt_json (po_revision x)),
       (''ontology_refs'', strs_json (po_ontology_refs x)),
       (''standing'', JStr (standing_value (po_standing x))),
       (''evidence_refs'', strs_json (po_evidence_refs x)),
       (''attributes'', JObj (po_attributes x))]"

definition requirements_json :: "morphism_requirements \<Rightarrow> json" where
  "requirements_json q =
     JObj [(''capability_refs'', strs_json (mq_capability_refs q)),
       (''policy_refs'', strs_json (mq_policy_refs q)),
       (''evidence_refs'', strs_json (mq_evidence_refs q)),
       (''required_revision'', opt_json (mq_required_revision q)),
       (''execution_grant_required'', JBool (mq_execution_grant_required q))]"

definition morphism_json :: "possibility_morphism \<Rightarrow> json" where
  "morphism_json m =
     JObj [(''morphism_id'', JStr (pm_morphism_id m)), (''source_id'', JStr (pm_source_id m)),
       (''target_id'', JStr (pm_target_id m)),
       (''kind'', JStr (morphism_kind_value (pm_kind m))),
       (''phase'', JStr (phase_value (pm_phase m))),
       (''reversal'', JStr (reversal_value (pm_reversal m))),
       (''requirements'', requirements_json (pm_requirements m)),
       (''objectives'', objectives_json (pm_objectives m)),
       (''standing'', JStr (standing_value (pm_standing m))),
       (''evidence_refs'', strs_json (pm_evidence_refs m)),
       (''attributes'', JObj (pm_attributes m))]"

definition graph_json :: "possibility_graph \<Rightarrow> json" where
  "graph_json g =
     JObj [(''objects'', JArr (map object_json (pg_objects g))),
       (''morphisms'', JArr (map morphism_json (pg_morphisms g)))]"

definition graph_digest :: "digest_fun \<Rightarrow> possibility_graph \<Rightarrow> string" where
  "graph_digest H g = H (graph_json g)"

definition path_json :: "possibility_path \<Rightarrow> json" where
  "path_json p =
     JObj [(''object_ids'', strs_json (pp_object_ids p)),
       (''morphism_ids'', strs_json (pp_morphism_ids p)),
       (''objectives'', objectives_json (pp_objectives p))]"

definition path_id :: "digest_fun \<Rightarrow> possibility_path \<Rightarrow> string" where
  "path_id H p = H (path_json p)"

section \<open>The semantic binding of a DO edge\<close>

record consequence_binding =
  cb_action_ref :: string
  cb_subject_ref :: string
  cb_capability_ref :: string
  cb_verifier_ref :: string
  cb_expected_effect_digest :: string

definition expected_effect_digest :: "digest_fun \<Rightarrow> action_definition \<Rightarrow> string" where
  "expected_effect_digest H action =
     H (JArr (map (\<lambda>e. JObj [(''predicate'', JStr (ee_predicate e)),
        (''parameters'', JObj (ee_parameters e))]) (ac_expected_effects action)))"

definition bind_action_consequence ::
    "digest_fun \<Rightarrow> action_definition \<Rightarrow> subject_ref \<Rightarrow> consequence_binding" where
  "bind_action_consequence H action subject =
     \<lparr>cb_action_ref = ac_semantic_id action, cb_subject_ref = sr_semantic_id subject,
      cb_capability_ref = ac_capability_ref action,
      cb_verifier_ref = vs_observer_ref (ac_verification action),
      cb_expected_effect_digest = expected_effect_digest H action\<rparr>"

definition binding_json :: "consequence_binding \<Rightarrow> json" where
  "binding_json b =
     JObj [(''action_ref'', JStr (cb_action_ref b)), (''subject_ref'', JStr (cb_subject_ref b)),
       (''capability_ref'', JStr (cb_capability_ref b)),
       (''verifier_ref'', JStr (cb_verifier_ref b)),
       (''expected_effect_digest'', JStr (cb_expected_effect_digest b))]"

definition consequence_binding_attributes :: "consequence_binding \<Rightarrow> dict" where
  "consequence_binding_attributes b = [(''consequence_binding'', binding_json b)]"

text \<open>\<open>model_validate\<close> of the frozen model: exactly these five non-empty strings.\<close>

definition binding_fields :: "string list" where
  "binding_fields = [''action_ref'', ''subject_ref'', ''capability_ref'', ''verifier_ref'',
     ''expected_effect_digest'']"

definition string_field :: "dict \<Rightarrow> string \<Rightarrow> string res" where
  "string_field d k =
     (case map_of d k of
        Some (JStr s) \<Rightarrow>
          if s = [] then Inl (Raised ''ValidationError'' k) else Inr s
      | _ \<Rightarrow> Inl (Raised ''ValidationError'' k))"

definition validate_binding :: "json \<Rightarrow> consequence_binding res" where
  "validate_binding raw =
     (case raw of
        JObj d \<Rightarrow>
          if list_ex (\<lambda>(k, v). k \<notin> set binding_fields) d
          then Inl (Raised ''ValidationError'' ''extra_forbidden'')
          else
            bind_res (string_field d ''action_ref'') (\<lambda>a.
            bind_res (string_field d ''subject_ref'') (\<lambda>s.
            bind_res (string_field d ''capability_ref'') (\<lambda>c.
            bind_res (string_field d ''verifier_ref'') (\<lambda>v.
            bind_res (string_field d ''expected_effect_digest'') (\<lambda>e.
              Inr \<lparr>cb_action_ref = a, cb_subject_ref = s, cb_capability_ref = c,
                cb_verifier_ref = v, cb_expected_effect_digest = e\<rparr>)))))
      | _ \<Rightarrow> Inl (Raised ''ValidationError'' ''model_type''))"

definition read_consequence_binding :: "dict \<Rightarrow> consequence_binding option res" where
  "read_consequence_binding attributes =
     (case map_of attributes ''consequence_binding'' of
        None \<Rightarrow> Inr None
      | Some JNull \<Rightarrow> Inr None
      | Some raw \<Rightarrow> bind_res (validate_binding raw) (\<lambda>b. Inr (Some b)))"

end
