(* ===== verification/Exploration.thy ===== *)
theory Exploration
  imports Combinatorial
begin

text \<open>
  The explorers: \<open>evaluate_morphism\<close>, \<open>pareto_paths\<close>, \<open>explore_maximal_reversible\<close> and
  \<open>manufacture_combination_space\<close> of \<open>src/gymact/combinatorial.py\<close>, and the strict
  \<open>explore_combinatorial_maximum\<close> of \<open>src/gymact/maximal.py\<close>.

  Both explorers run the same loop over an explicit stack; they differ in what they do
  with one outgoing edge. The model keeps that difference in two \<open>classify\<close> functions
  (evaluations to append, frontier edges to append, the path to emit) and has the loop
  once, with \<open>classify\<close> as an argument. The top of the Python stack is the head of the list.
\<close>

section \<open>Admission of one edge\<close>

definition edge_verdict ::
    "possibility_morphism \<Rightarrow> standing \<Rightarrow> bool \<Rightarrow> string \<Rightarrow> morphism_evaluation" where
  "edge_verdict m stand admitted reason =
     \<lparr>mv_morphism_id = pm_morphism_id m, mv_standing = stand, mv_admitted = admitted,
      mv_reason = reason\<rparr>"

definition subset_list :: "string list \<Rightarrow> string list \<Rightarrow> bool" where
  "subset_list xs ys = list_all (\<lambda>x. x \<in> set ys) xs"

definition evaluate_morphism ::
    "possibility_morphism \<Rightarrow> admission_context \<Rightarrow> morphism_evaluation res" where
  "evaluate_morphism m ctx =
     (let required = pm_requirements m; verdict = edge_verdict m
      in if pm_standing m \<in> {BLOCKED, UNSUPPORTED, REFUSED, STALE}
         then Inr (verdict (pm_standing m) False
                (''EDGE_STANDING_'' @ standing_value (pm_standing m)))
         else if \<not> subset_list (mq_capability_refs required) (xc_capability_refs ctx)
         then Inr (verdict UNSUPPORTED False ''REQUIRED_CAPABILITY_UNAVAILABLE'')
         else if \<not> subset_list (mq_policy_refs required) (xc_policy_refs ctx)
         then Inr (verdict REFUSED False ''POLICY_NOT_ADMITTED'')
         else if \<not> subset_list (mq_evidence_refs required) (xc_evidence_refs ctx)
         then Inr (verdict BLOCKED False ''REQUIRED_EVIDENCE_MISSING'')
         else if mq_required_revision required \<noteq> None \<and>
                 xc_current_revision ctx \<noteq> mq_required_revision required
         then Inr (verdict STALE False ''REVISION_MISMATCH'')
         else if mq_execution_grant_required required \<and> xc_execution_grant_ref ctx = None
         then Inr (verdict CANDIDATE False ''EXECUTION_GRANT_REQUIRED'')
         else if pm_phase m = PHASE_DO
         then bind_res (read_consequence_binding (pm_attributes m)) (\<lambda>binding.
                Inr (if binding = None
                     then verdict CANDIDATE False ''DO_SEMANTIC_BINDING_REQUIRED''
                     else verdict CANDIDATE True ''LAWFUL_EDGE_ADMITTED''))
         else Inr (verdict CANDIDATE True ''LAWFUL_EDGE_ADMITTED''))"

definition within_limit :: "rat \<Rightarrow> rat option \<Rightarrow> bool" where
  "within_limit observed limit = (case limit of None \<Rightarrow> True | Some l \<Rightarrow> observed \<le> l)"

definition within_bounds :: "objective_vector \<Rightarrow> exploration_bounds \<Rightarrow> bool" where
  "within_bounds v b \<longleftrightarrow>
     within_limit (ov_monetary_cost v) (xb_max_monetary_cost b) \<and>
     within_limit (ov_wall_time_s v) (xb_max_wall_time_s b) \<and>
     within_limit (ov_compute_units v) (xb_max_compute_units b) \<and>
     within_limit (ov_human_interventions v) (xb_max_human_interventions b) \<and>
     within_limit (ov_risk_score v) (xb_max_risk_score b)"

section \<open>The Pareto frontier\<close>

definition dominates :: "possibility_path \<Rightarrow> possibility_path \<Rightarrow> bool" where
  "dominates left right =
     (let l = pp_objectives left; r = pp_objectives right;
          no_worse =
            ov_monetary_cost l \<le> ov_monetary_cost r \<and> ov_wall_time_s l \<le> ov_wall_time_s r \<and>
            ov_compute_units l \<le> ov_compute_units r \<and>
            ov_human_interventions l \<le> ov_human_interventions r \<and>
            ov_risk_score l \<le> ov_risk_score r \<and>
            ov_verification_confidence l \<ge> ov_verification_confidence r \<and>
            ov_expected_value l \<ge> ov_expected_value r;
          better =
            ov_monetary_cost l < ov_monetary_cost r \<or> ov_wall_time_s l < ov_wall_time_s r \<or>
            ov_compute_units l < ov_compute_units r \<or>
            ov_human_interventions l < ov_human_interventions r \<or>
            ov_risk_score l < ov_risk_score r \<or>
            ov_verification_confidence l > ov_verification_confidence r \<or>
            ov_expected_value l > ov_expected_value r
      in no_worse \<and> better)"

text \<open>
  The comprehension of \<open>pareto_paths\<close>. The test \<open>other is not candidate\<close> is dropped: no
  path dominates itself (\<open>dominates_irrefl\<close> below), so it never changes the outcome.
\<close>

definition non_dominated :: "('a \<Rightarrow> 'a \<Rightarrow> bool) \<Rightarrow> 'a list \<Rightarrow> 'a list" where
  "non_dominated better values =
     filter (\<lambda>candidate. \<not> list_ex (\<lambda>other. better other candidate) values) values"

definition pareto_paths :: "possibility_path list \<Rightarrow> possibility_path list" where
  "pareto_paths = non_dominated dominates"

section \<open>The loop\<close>

type_synonym classification =
  "morphism_evaluation list \<times> frontier_edge list \<times> possibility_path option"

type_synonym classifier = "possibility_path \<Rightarrow> possibility_morphism \<Rightarrow> classification res"

record exploration_state =
  xs_stack :: "possibility_path list"
  xs_emitted :: "possibility_path list"
  xs_frontier :: "frontier_edge list"
  xs_evaluations :: "morphism_evaluation list"
  xs_reasons :: "string list"

definition frontier_of ::
    "digest_fun \<Rightarrow> possibility_path \<Rightarrow> possibility_morphism \<Rightarrow> morphism_evaluation \<Rightarrow>
       frontier_edge" where
  "frontier_of H path edge admission =
     \<lparr>fe_path_id = path_id H path, fe_morphism_id = pm_morphism_id edge,
      fe_target_id = pm_target_id edge, fe_standing = mv_standing admission,
      fe_admitted = mv_admitted admission, fe_reason = mv_reason admission\<rparr>"

definition extend_path :: "possibility_path \<Rightarrow> possibility_morphism \<Rightarrow> possibility_path" where
  "extend_path path edge =
     \<lparr>pp_object_ids = pp_object_ids path @ [pm_target_id edge],
      pp_morphism_ids = pp_morphism_ids path @ [pm_morphism_id edge],
      pp_objectives = compose_objectives (pp_objectives path) (pm_objectives edge)\<rparr>"

text \<open>The body of the edge loop of \<open>explore_maximal_reversible\<close>.\<close>

definition classify_reversible ::
    "digest_fun \<Rightarrow> admission_context \<Rightarrow> exploration_bounds \<Rightarrow> classifier" where
  "classify_reversible H ctx limits path edge =
     bind_res (evaluate_morphism edge ctx) (\<lambda>evaluation.
       Inr (if pm_phase edge = PHASE_DO
            then ([evaluation], [frontier_of H path edge evaluation], None)
            else if \<not> mv_admitted evaluation then ([evaluation], [], None)
            else if \<not> within_bounds (pp_objectives (extend_path path edge)) limits
            then ([evaluation, edge_verdict edge BLOCKED False ''EXPLORATION_BOUND_EXCEEDED''],
                  [], None)
            else ([evaluation], [], Some (extend_path path edge))))"

fun reversibility_fence :: "reversal_class \<Rightarrow> string" where
  "reversibility_fence COMPENSATABLE = ''COMPENSATION_IS_NOT_REVERSIBILITY''"
| "reversibility_fence IRREVERSIBLE = ''IRREVERSIBLE_EDGE_REQUIRES_CUT''"
| "reversibility_fence REVERSAL_UNKNOWN = ''REVERSIBILITY_NOT_ADMITTED''"
| "reversibility_fence REVERSIBLE = []"

text \<open>
  The body of the edge loop of \<open>explore_combinatorial_maximum\<close>; the fence is only looked
  up for an edge that is not \<open>REVERSIBLE\<close>, so its last equation is never used.
\<close>

definition classify_maximum ::
    "digest_fun \<Rightarrow> admission_context \<Rightarrow> exploration_bounds \<Rightarrow> classifier" where
  "classify_maximum H ctx limits path edge =
     bind_res (evaluate_morphism edge ctx) (\<lambda>admission.
       Inr (if pm_phase edge = PHASE_DO
            then ([admission], [frontier_of H path edge admission], None)
            else if \<not> mv_admitted admission then ([admission], [], None)
            else if pm_reversal edge \<noteq> REVERSIBLE
            then ([edge_verdict edge BLOCKED False (reversibility_fence (pm_reversal edge))],
                  [], None)
            else if \<not> within_bounds (pp_objectives (extend_path path edge)) limits
            then ([edge_verdict edge BLOCKED False ''EXPLORATION_BOUND_EXCEEDED''], [], None)
            else ([admission], [], Some (extend_path path edge))))"

fun scan_edges ::
    "classifier \<Rightarrow> exploration_bounds \<Rightarrow> possibility_path \<Rightarrow> possibility_morphism list \<Rightarrow>
       exploration_state \<Rightarrow> exploration_state res" where
  "scan_edges classify limits path [] st = Inr st"
| "scan_edges classify limits path (edge # edges) st =
     (case classify path edge of
        Inl e \<Rightarrow> Inl e
      | Inr (evaluations, frontier, candidate) \<Rightarrow>
          (let st1 = st\<lparr>xs_evaluations := xs_evaluations st @ evaluations,
                 xs_frontier := xs_frontier st @ frontier\<rparr>
           in case candidate of
                None \<Rightarrow> scan_edges classify limits path edges st1
              | Some path' \<Rightarrow>
                  if length (xs_emitted st) \<ge> xb_max_paths limits
                  then Inr (st1\<lparr>xs_reasons := List.insert ''MAX_PATHS'' (xs_reasons st),
                              xs_stack := []\<rparr>)
                  else scan_edges classify limits path edges
                         (st1\<lparr>xs_emitted := xs_emitted st @ [path'],
                            xs_stack := path' # xs_stack st\<rparr>)))"

definition exploration_measure :: "exploration_bounds \<Rightarrow> exploration_state \<Rightarrow> nat" where
  "exploration_measure limits st =
     (xb_max_paths limits - length (xs_emitted st)) + length (xs_stack st)"

lemma scan_edges_measure:
  "scan_edges classify limits path edges st = Inr st' \<Longrightarrow>
     exploration_measure limits st' \<le> exploration_measure limits st"
proof (induction classify limits path edges st rule: scan_edges.induct)
  case (2 classify limits path edge edges st)
  then show ?case
    by (fastforce simp: exploration_measure_def Let_def split: sum.splits prod.splits
        option.splits if_splits)
qed simp

definition path_end :: "possibility_path \<Rightarrow> string" where
  "path_end path = last (pp_object_ids path)"

function explore_loop ::
    "classifier \<Rightarrow> possibility_graph \<Rightarrow> exploration_bounds \<Rightarrow> exploration_state \<Rightarrow>
       exploration_state res" where
  "explore_loop classify graph limits st =
     (case xs_stack st of
        [] \<Rightarrow> Inr st
      | path # rest \<Rightarrow>
          (let edges = outgoing graph (path_end path); st1 = st\<lparr>xs_stack := rest\<rparr>
           in if length (pp_morphism_ids path) \<ge> xb_max_depth limits
              then explore_loop classify graph limits
                     (if edges \<noteq> []
                      then st1\<lparr>xs_reasons := List.insert ''MAX_DEPTH'' (xs_reasons st)\<rparr>
                      else st1)
              else (case scan_edges classify limits path edges st1 of
                      Inl e \<Rightarrow> Inl e
                    | Inr st2 \<Rightarrow> explore_loop classify graph limits st2)))"
  by pat_completeness auto
termination
proof (relation "measure (\<lambda>(c, g, limits, st). exploration_measure limits st)", goal_cases)
  case (3 c g limits st path rest edges st1 st2)
  then show ?case
    by (auto dest!: scan_edges_measure simp: exploration_measure_def)
qed (auto simp: exploration_measure_def)

declare explore_loop.simps [simp del]

definition single_path :: "string \<Rightarrow> possibility_path" where
  "single_path i = \<lparr>pp_object_ids = [i], pp_morphism_ids = [], pp_objectives = zero_objectives\<rparr>"

definition initial_exploration :: "string list \<Rightarrow> exploration_state" where
  "initial_exploration starts =
     \<lparr>xs_stack = map single_path starts, xs_emitted = [], xs_frontier = [],
      xs_evaluations = [], xs_reasons = []\<rparr>"

definition explore ::
    "digest_fun \<Rightarrow> classifier \<Rightarrow> possibility_graph \<Rightarrow> string list \<Rightarrow> exploration_bounds \<Rightarrow>
       exploration_result res" where
  "explore H classify graph starts limits =
     bind_res (fold_res (\<lambda>i u. bind_res (find_object graph i) (\<lambda>_. Inr u)) starts ()) (\<lambda>_.
     bind_res (explore_loop classify graph limits (initial_exploration starts)) (\<lambda>st.
       Inr \<lparr>xo_graph_digest = graph_digest H graph, xo_start_ids = starts,
         xo_paths = xs_emitted st,
         xo_pareto_path_ids = map (path_id H) (pareto_paths (xs_emitted st)),
         xo_irreversible_frontier = xs_frontier st, xo_evaluations = xs_evaluations st,
         xo_truncated = (xs_reasons st \<noteq> []),
         xo_truncation_reasons = sort (xs_reasons st)\<rparr>))"

definition explore_maximal_reversible ::
    "digest_fun \<Rightarrow> possibility_graph \<Rightarrow> string list \<Rightarrow> admission_context \<Rightarrow> exploration_bounds \<Rightarrow>
       exploration_result res" where
  "explore_maximal_reversible H graph starts ctx limits =
     explore H (classify_reversible H ctx limits) graph starts limits"

definition explore_combinatorial_maximum ::
    "digest_fun \<Rightarrow> possibility_graph \<Rightarrow> string list \<Rightarrow> admission_context \<Rightarrow> exploration_bounds \<Rightarrow>
       exploration_result res" where
  "explore_combinatorial_maximum H graph starts ctx limits =
     explore H (classify_maximum H ctx limits) graph starts limits"

section \<open>Combination spaces\<close>

record factor =
  fa_factor_id :: string
  fa_alternatives :: "string list"

record combination_space =
  cs_factors :: "factor list"
  cs_total_cardinality :: nat
  cs_combinations :: "(string \<times> string) list list"
  cs_truncated :: bool

definition manufacture_combination_space ::
    "factor list \<Rightarrow> exploration_bounds \<Rightarrow> combination_space res" where
  "manufacture_combination_space factors limits =
     (let ids = map fa_factor_id factors
      in if \<not> distinct ids then Inl (value_error ''DUPLICATE_FACTOR_ID'')
         else
           (let total = prod_list (map (length \<circ> fa_alternatives) factors);
                combos = map (zip ids) (take (xb_max_combinations limits)
                  (product_lists (map fa_alternatives factors)))
            in Inr \<lparr>cs_factors = factors, cs_total_cardinality = total,
                 cs_combinations = combos, cs_truncated = (length combos < total)\<rparr>))"

section \<open>Path algebra\<close>

definition identity_path :: "string \<Rightarrow> possibility_path res" where
  "identity_path i =
     (if i = [] then Inl (value_error ''IDENTITY_PATH_REQUIRES_OBJECT'') else Inr (single_path i))"

definition compose_paths :: "possibility_path \<Rightarrow> possibility_path \<Rightarrow> possibility_path res" where
  "compose_paths left right =
     (if pp_object_ids left = [] \<or> pp_object_ids right = []
      then Inl (value_error ''PATH_COMPOSITION_REQUIRES_OBJECTS'')
      else if last (pp_object_ids left) \<noteq> hd (pp_object_ids right)
      then Inl (value_error ''PATH_COMPOSITION_ENDPOINT_MISMATCH'')
      else Inr \<lparr>pp_object_ids = pp_object_ids left @ tl (pp_object_ids right),
             pp_morphism_ids = pp_morphism_ids left @ pp_morphism_ids right,
             pp_objectives = compose_objectives (pp_objectives left) (pp_objectives right)\<rparr>)"

end
