(* ===== verification/Exploration_Props.thy ===== *)
theory Exploration_Props
  imports Exploration
begin

text \<open>
  What the explorers compute. The locale \<open>path_explorer\<close> is the contract of the loop with its
  edge classification: a classification extends the path by exactly the edge, and a DO edge
  is fenced. Inside it the loop is shown to return the bounded closure of its start paths;
  both classifications of the code are interpretations. The locale \<open>strict_dominance\<close> does
  the same for the Pareto frontier.
\<close>

section \<open>One scan\<close>

text \<open>The paths the edges of a list contribute.\<close>

definition candidates ::
    "classifier \<Rightarrow> possibility_path \<Rightarrow> possibility_morphism list \<Rightarrow> possibility_path set" where
  "candidates classify path edges =
     {n. \<exists>e \<in> set edges. \<exists>evs frs. classify path e = Inr (evs, frs, Some n)}"

definition fences ::
    "classifier \<Rightarrow> possibility_path \<Rightarrow> possibility_morphism list \<Rightarrow> frontier_edge set" where
  "fences classify path edges =
     {f. \<exists>e \<in> set edges. \<exists>evs frs c. classify path e = Inr (evs, frs, c) \<and> f \<in> set frs}"

lemma candidates_Cons:
  "candidates classify path (e # es) =
     {n. \<exists>evs frs. classify path e = Inr (evs, frs, Some n)} \<union> candidates classify path es"
  by (auto simp: candidates_def)

lemma fences_Cons:
  "fences classify path (e # es) =
     {f. \<exists>evs frs c. classify path e = Inr (evs, frs, c) \<and> f \<in> set frs} \<union> fences classify path es"
  by (auto simp: fences_def)

text \<open>
  A scan that returns has either run out of room (\<open>MAX_PATHS\<close>, the stack is cleared) or
  has emitted and pushed every candidate and recorded every fence.
\<close>

definition scanned ::
    "classifier \<Rightarrow> exploration_bounds \<Rightarrow> possibility_path \<Rightarrow> possibility_morphism list \<Rightarrow>
       exploration_state \<Rightarrow> exploration_state \<Rightarrow> bool" where
  "scanned classify limits path edges st st' \<longleftrightarrow>
     (\<exists>new. xs_emitted st' = xs_emitted st @ new \<and> set new \<subseteq> candidates classify path edges \<and>
        (''MAX_PATHS'' \<in> set (xs_reasons st') \<and> xs_stack st' = [] \<or>
         xs_stack st' = rev new @ xs_stack st \<and> set new = candidates classify path edges \<and>
         fences classify path edges \<subseteq> set (xs_frontier st') \<and>
         (\<forall>e \<in> set edges. \<exists>x. classify path e = Inr x) \<and> xs_reasons st' = xs_reasons st)) \<and>
     set (xs_frontier st) \<subseteq> set (xs_frontier st') \<and>
     set (xs_frontier st') \<subseteq> set (xs_frontier st) \<union> fences classify path edges \<and>
     set (xs_reasons st) \<subseteq> set (xs_reasons st') \<and>
     (length (xs_emitted st) \<le> xb_max_paths limits \<longrightarrow>
        length (xs_emitted st') \<le> xb_max_paths limits)"

lemma scanned_nil [simp]: "scanned classify limits path [] st st"
  by (auto simp: scanned_def candidates_def fences_def)

lemma scan_edges_scanned:
  "scan_edges classify limits path edges st = Inr st' \<Longrightarrow>
     scanned classify limits path edges st st'"
proof (induction classify limits path edges st rule: scan_edges.induct)
  case (2 classify limits path edge edges st)
  then obtain evs frs c where cl: "classify path edge = Inr (evs, frs, c)"
    by (auto split: sum.splits)
  let ?st1 = "st\<lparr>xs_evaluations := xs_evaluations st @ evs,
     xs_frontier := xs_frontier st @ frs\<rparr>"
  have fence: "fences classify path (edge # edges) = set frs \<union> fences classify path edges"
    by (auto simp: fences_Cons cl)
  show ?case
  proof (cases c)
    case None
    with 2 cl have "scanned classify limits path edges ?st1 st'" by simp
    moreover have "candidates classify path (edge # edges) = candidates classify path edges"
      by (auto simp: candidates_Cons cl None)
    ultimately show ?thesis
      unfolding scanned_def fence by (auto simp: cl)
  next
    case (Some n)
    have cand: "candidates classify path (edge # edges) = insert n (candidates classify path edges)"
      by (auto simp: candidates_Cons cl Some)
    show ?thesis
    proof (cases "length (xs_emitted st) \<ge> xb_max_paths limits")
      case True
      with 2 cl Some have "st' = ?st1\<lparr>xs_reasons := List.insert ''MAX_PATHS'' (xs_reasons st),
          xs_stack := []\<rparr>" by simp
      then show ?thesis unfolding scanned_def fence by auto
    next
      case False
      with 2 cl Some have IH: "scanned classify limits path edges
          (?st1\<lparr>xs_emitted := xs_emitted st @ [n], xs_stack := n # xs_stack st\<rparr>) st'" by simp
      from this [unfolded scanned_def] obtain new where new:
        "xs_emitted st' = xs_emitted st @ n # new" "set new \<subseteq> candidates classify path edges"
        "''MAX_PATHS'' \<in> set (xs_reasons st') \<and> xs_stack st' = [] \<or>
         xs_stack st' = rev new @ n # xs_stack st \<and> set new = candidates classify path edges \<and>
         fences classify path edges \<subseteq> set (xs_frontier st') \<and>
         (\<forall>e \<in> set edges. \<exists>x. classify path e = Inr x) \<and> xs_reasons st' = xs_reasons st"
        by auto
      have "\<exists>new. xs_emitted st' = xs_emitted st @ new \<and>
        set new \<subseteq> candidates classify path (edge # edges) \<and>
        (''MAX_PATHS'' \<in> set (xs_reasons st') \<and> xs_stack st' = [] \<or>
         xs_stack st' = rev new @ xs_stack st \<and>
         set new = candidates classify path (edge # edges) \<and>
         fences classify path (edge # edges) \<subseteq> set (xs_frontier st') \<and>
         (\<forall>e \<in> set (edge # edges). \<exists>x. classify path e = Inr x) \<and>
         xs_reasons st' = xs_reasons st)"
        using new IH by (intro exI [of _ "n # new"]) (auto simp: cand fence scanned_def cl)
      with IH False show ?thesis unfolding scanned_def fence by auto
    qed
  qed
qed simp

section \<open>The closure\<close>

text \<open>The paths the loop may walk: starts, extended edge by edge below the depth bound.\<close>

inductive walkable ::
    "classifier \<Rightarrow> possibility_graph \<Rightarrow> exploration_bounds \<Rightarrow> string list \<Rightarrow> possibility_path \<Rightarrow> bool"
  for classify graph limits starts where
  walk_start: "i \<in> set starts \<Longrightarrow> walkable classify graph limits starts (single_path i)"
| walk_step: "walkable classify graph limits starts p \<Longrightarrow>
    length (pp_morphism_ids p) < xb_max_depth limits \<Longrightarrow>
    n \<in> candidates classify p (outgoing graph (path_end p)) \<Longrightarrow>
    walkable classify graph limits starts n"

inductive_cases walkableE: "walkable classify graph limits starts p"

text \<open>A path is closed in a state: all it leads to is there, or its depth is reported.\<close>

definition closed_at ::
    "classifier \<Rightarrow> possibility_graph \<Rightarrow> exploration_bounds \<Rightarrow> exploration_state \<Rightarrow>
       possibility_path \<Rightarrow> bool" where
  "closed_at classify graph limits st p \<longleftrightarrow>
     (if length (pp_morphism_ids p) \<ge> xb_max_depth limits
      then outgoing graph (path_end p) \<noteq> [] \<longrightarrow> ''MAX_DEPTH'' \<in> set (xs_reasons st)
      else candidates classify p (outgoing graph (path_end p)) \<subseteq> set (xs_emitted st) \<and>
           fences classify p (outgoing graph (path_end p)) \<subseteq> set (xs_frontier st) \<and>
           (\<forall>e \<in> set (outgoing graph (path_end p)). \<exists>x. classify p e = Inr x))"

definition loop_inv ::
    "classifier \<Rightarrow> possibility_graph \<Rightarrow> exploration_bounds \<Rightarrow> string list \<Rightarrow>
       exploration_state \<Rightarrow> bool" where
  "loop_inv classify graph limits starts st \<longleftrightarrow>
     (\<forall>p \<in> set (xs_stack st). p \<in> single_path ` set starts \<or> p \<in> set (xs_emitted st)) \<and>
     (\<forall>p \<in> set (xs_emitted st). walkable classify graph limits starts p \<and>
        pp_morphism_ids p \<noteq> []) \<and>
     (\<forall>f \<in> set (xs_frontier st). \<exists>p. walkable classify graph limits starts p \<and>
        length (pp_morphism_ids p) < xb_max_depth limits \<and>
        f \<in> fences classify p (outgoing graph (path_end p))) \<and>
     length (xs_emitted st) \<le> xb_max_paths limits \<and>
     (''MAX_PATHS'' \<in> set (xs_reasons st) \<or>
      (\<forall>p. p \<in> single_path ` set starts \<or> p \<in> set (xs_emitted st) \<longrightarrow>
         p \<in> set (xs_stack st) \<or> closed_at classify graph limits st p))"

locale path_explorer =
  fixes H :: digest_fun
    and classify :: classifier
    and judge :: "possibility_morphism \<Rightarrow> morphism_evaluation res"
    and walks :: "possibility_path \<Rightarrow> possibility_morphism \<Rightarrow> bool"
  assumes extends: "classify p e = Inr (evs, frs, Some n) \<Longrightarrow> n = extend_path p e \<and> walks p e"
    and emits: "classify p e = Inr (evs, frs, None) \<Longrightarrow> \<not> walks p e"
    and fenced: "classify p e = Inr (evs, frs, c) \<Longrightarrow>
        (if pm_phase e = PHASE_DO
         then c = None \<and> (\<exists>v. judge e = Inr v \<and> frs = [frontier_of H p e v])
         else frs = [])"
begin

lemma walks_not_DO: "classify p e = Inr (evs, frs, Some n) \<Longrightarrow> pm_phase e \<noteq> PHASE_DO"
  using fenced by fastforce

lemma candidate_extends:
  "n \<in> candidates classify p es \<Longrightarrow> \<exists>e \<in> set es. n = extend_path p e \<and> walks p e \<and> pm_phase e \<noteq> PHASE_DO"
  unfolding candidates_def using extends walks_not_DO by fastforce

lemma candidate_nonempty: "n \<in> candidates classify p es \<Longrightarrow> pp_morphism_ids n \<noteq> []"
  by (auto dest!: candidate_extends simp: extend_path_def)

lemma start_walkable:
  "p \<in> single_path ` set starts \<Longrightarrow> walkable classify graph limits starts p"
  by (auto intro: walk_start)

lemma loop_inv_pop_deep:
  assumes inv: "loop_inv classify graph limits starts st" and stack: "xs_stack st = p # rest"
    and deep: "length (pp_morphism_ids p) \<ge> xb_max_depth limits"
  shows "loop_inv classify graph limits starts
    (if outgoing graph (path_end p) \<noteq> []
     then st\<lparr>xs_stack := rest, xs_reasons := List.insert ''MAX_DEPTH'' (xs_reasons st)\<rparr>
     else st\<lparr>xs_stack := rest\<rparr>)"
    (is "loop_inv classify graph limits starts ?st")
proof -
  have same: "xs_emitted ?st = xs_emitted st" "xs_frontier ?st = xs_frontier st"
    "xs_stack ?st = rest" "set (xs_reasons st) \<subseteq> set (xs_reasons ?st)"
    "outgoing graph (path_end p) \<noteq> [] \<Longrightarrow> ''MAX_DEPTH'' \<in> set (xs_reasons ?st)"
    by auto
  have old: "closed_at classify graph limits ?st q" if "closed_at classify graph limits st q" for q
    using that same by (auto simp: closed_at_def split: if_splits)
  have new: "closed_at classify graph limits ?st p"
    using deep same(5) by (simp add: closed_at_def)
  have complete: "''MAX_PATHS'' \<in> set (xs_reasons ?st) \<or>
      (\<forall>q. q \<in> single_path ` set starts \<or> q \<in> set (xs_emitted st) \<longrightarrow>
         q \<in> set rest \<or> closed_at classify graph limits ?st q)"
  proof (cases "''MAX_PATHS'' \<in> set (xs_reasons st)")
    case True
    with same(4) show ?thesis by blast
  next
    case False
    with inv stack have "\<forall>q. q \<in> single_path ` set starts \<or> q \<in> set (xs_emitted st) \<longrightarrow>
        q = p \<or> q \<in> set rest \<or> closed_at classify graph limits st q"
      unfolding loop_inv_def by simp
    with old new show ?thesis by blast
  qed
  from inv stack have "\<forall>q \<in> set rest. q \<in> single_path ` set starts \<or> q \<in> set (xs_emitted st)"
    unfolding loop_inv_def by simp
  with inv complete show ?thesis
    unfolding loop_inv_def same(1-3) by blast
qed

lemma loop_inv_scan:
  assumes inv: "loop_inv classify graph limits starts st" and stack: "xs_stack st = p # rest"
    and shallow: "length (pp_morphism_ids p) < xb_max_depth limits"
    and scan: "scan_edges classify limits p (outgoing graph (path_end p)) (st\<lparr>xs_stack := rest\<rparr>) = Inr st'"
  shows "loop_inv classify graph limits starts st'"
proof -
  let ?es = "outgoing graph (path_end p)"
  from scan_edges_scanned [OF scan] have sc: "scanned classify limits p ?es (st\<lparr>xs_stack := rest\<rparr>) st'" .
  then obtain new where new: "xs_emitted st' = xs_emitted st @ new"
    "set new \<subseteq> candidates classify p ?es"
    "''MAX_PATHS'' \<in> set (xs_reasons st') \<and> xs_stack st' = [] \<or>
     xs_stack st' = rev new @ rest \<and> set new = candidates classify p ?es \<and>
     fences classify p ?es \<subseteq> set (xs_frontier st') \<and>
     (\<forall>e \<in> set ?es. \<exists>x. classify p e = Inr x) \<and> xs_reasons st' = xs_reasons st"
    by (auto simp: scanned_def)
  from sc have fr: "set (xs_frontier st) \<subseteq> set (xs_frontier st')"
    "set (xs_frontier st') \<subseteq> set (xs_frontier st) \<union> fences classify p ?es"
    and rs: "set (xs_reasons st) \<subseteq> set (xs_reasons st')"
    and len: "length (xs_emitted st) \<le> xb_max_paths limits \<Longrightarrow>
      length (xs_emitted st') \<le> xb_max_paths limits"
    by (auto simp: scanned_def)
  have walk_p: "walkable classify graph limits starts p"
    using inv stack by (auto simp: loop_inv_def intro: walk_start)
  have walk_new: "walkable classify graph limits starts n \<and> pp_morphism_ids n \<noteq> []" if "n \<in> set new" for n
    using that new(2) walk_step [OF walk_p shallow] candidate_nonempty by blast
  have old: "closed_at classify graph limits st' q" if "closed_at classify graph limits st q" for q
    using that new(1) fr(1) rs by (auto simp: closed_at_def split: if_splits)
  have stack': "q \<in> single_path ` set starts \<or> q \<in> set (xs_emitted st')" if "q \<in> set (xs_stack st')" for q
    using that new inv stack by (auto simp: loop_inv_def)
  have complete: "''MAX_PATHS'' \<in> set (xs_reasons st') \<or>
      (\<forall>q. q \<in> single_path ` set starts \<or> q \<in> set (xs_emitted st') \<longrightarrow>
         q \<in> set (xs_stack st') \<or> closed_at classify graph limits st' q)"
  proof (cases "''MAX_PATHS'' \<in> set (xs_reasons st')")
    case False
    with new(3) have full: "xs_stack st' = rev new @ rest" "set new = candidates classify p ?es"
      "fences classify p ?es \<subseteq> set (xs_frontier st')"
      "\<forall>e \<in> set ?es. \<exists>x. classify p e = Inr x" by auto
    have "closed_at classify graph limits st' p"
      using full(2-4) new(1) shallow by (auto simp: closed_at_def)
    with False full(1) inv stack rs new(1) old show ?thesis
      by (auto simp: loop_inv_def)
  qed simp
  from inv fr(2) walk_p shallow have front: "\<forall>f \<in> set (xs_frontier st').
      \<exists>p. walkable classify graph limits starts p \<and>
        length (pp_morphism_ids p) < xb_max_depth limits \<and>
        f \<in> fences classify p (outgoing graph (path_end p))"
    unfolding loop_inv_def by blast
  from inv new(1) walk_new len stack' complete front show ?thesis
    unfolding loop_inv_def by auto
qed

lemma explore_loop_inv:
  "explore_loop classify graph limits st = Inr st' \<Longrightarrow> loop_inv classify graph limits starts st \<Longrightarrow>
     loop_inv classify graph limits starts st' \<and> xs_stack st' = []"
proof (induction "exploration_measure limits st" arbitrary: st rule: less_induct)
  case less
  note run = less.prems(1) [unfolded explore_loop.simps [of _ _ _ st]]
  show ?case
  proof (cases "xs_stack st")
    case Nil
    with run less.prems(2) show ?thesis by simp
  next
    case (Cons p rest)
    let ?es = "outgoing graph (path_end p)"
    show ?thesis
    proof (cases "length (pp_morphism_ids p) \<ge> xb_max_depth limits")
      case True
      let ?st = "if ?es \<noteq> []
        then st\<lparr>xs_stack := rest, xs_reasons := List.insert ''MAX_DEPTH'' (xs_reasons st)\<rparr>
        else st\<lparr>xs_stack := rest\<rparr>"
      have "exploration_measure limits ?st < exploration_measure limits st"
        using Cons by (simp add: exploration_measure_def)
      moreover have "explore_loop classify graph limits ?st = Inr st'"
        using run Cons True by (simp add: Let_def split: if_splits)
      ultimately show ?thesis
        using less.hyps loop_inv_pop_deep [OF less.prems(2) Cons True] by blast
    next
      case False
      with run Cons obtain st2 where
        scan: "scan_edges classify limits p ?es (st\<lparr>xs_stack := rest\<rparr>) = Inr st2"
        and rec: "explore_loop classify graph limits st2 = Inr st'"
        by (auto simp: Let_def split: sum.splits)
      have "exploration_measure limits st2 < exploration_measure limits st"
        using scan_edges_measure [OF scan] Cons by (simp add: exploration_measure_def)
      from less.hyps [OF this rec] loop_inv_scan [OF less.prems(2) Cons _ scan] False
      show ?thesis by simp
    qed
  qed
qed

lemma initial_inv: "loop_inv classify graph limits starts (initial_exploration starts)"
  by (auto simp: loop_inv_def initial_exploration_def)

text \<open>What an exploration that returns contains.\<close>

lemma explore_sound:
  assumes "explore D classify graph starts limits = Inr r"
  shows "(\<forall>p \<in> set (xo_paths r). walkable classify graph limits starts p \<and> pp_morphism_ids p \<noteq> []) \<and>
    length (xo_paths r) \<le> xb_max_paths limits \<and>
    (\<forall>f \<in> set (xo_irreversible_frontier r). \<exists>p e v. walkable classify graph limits starts p \<and>
       e \<in> set (outgoing graph (path_end p)) \<and> pm_phase e = PHASE_DO \<and> judge e = Inr v \<and>
       f = frontier_of H p e v)"
proof -
  from assms obtain st where "explore_loop classify graph limits (initial_exploration starts) = Inr st"
    and r: "xo_paths r = xs_emitted st" "xo_irreversible_frontier r = xs_frontier st"
    by (auto simp: explore_def bind_res_Inr_iff)
  with explore_loop_inv initial_inv have inv: "loop_inv classify graph limits starts st" by blast
  have fence: "\<exists>e v. e \<in> set (outgoing graph (path_end p)) \<and> pm_phase e = PHASE_DO \<and>
      judge e = Inr v \<and> f = frontier_of H p e v" if "f \<in> fences classify p (outgoing graph (path_end p))" for f p
  proof -
    from that obtain e evs frs c where "e \<in> set (outgoing graph (path_end p))"
      "classify p e = Inr (evs, frs, c)" "f \<in> set frs" by (auto simp: fences_def)
    with fenced [of p e evs frs c] show ?thesis
      by (cases "pm_phase e = PHASE_DO") fastforce+
  qed
  have "\<exists>p e v. walkable classify graph limits starts p \<and>
       e \<in> set (outgoing graph (path_end p)) \<and> pm_phase e = PHASE_DO \<and> judge e = Inr v \<and>
       f = frontier_of H p e v"
    if "f \<in> set (xs_frontier st)" for f
  proof -
    from inv that obtain p where "walkable classify graph limits starts p"
      "f \<in> fences classify p (outgoing graph (path_end p))"
      unfolding loop_inv_def by blast
    with fence [of f p] show ?thesis by blast
  qed
  with inv r show ?thesis unfolding loop_inv_def by simp
qed

lemma explore_complete:
  assumes "explore D classify graph starts limits = Inr r" "\<not> xo_truncated r"
    and "walkable classify graph limits starts p"
  shows "(p \<in> single_path ` set starts \<or> p \<in> set (xo_paths r)) \<and>
    (\<forall>e \<in> set (outgoing graph (path_end p)). pm_phase e = PHASE_DO \<longrightarrow>
       (\<exists>v. frontier_of H p e v \<in> set (xo_irreversible_frontier r)))"
proof -
  from assms(1,2) obtain st where
    run: "explore_loop classify graph limits (initial_exploration starts) = Inr st"
    and r: "xo_paths r = xs_emitted st" "xo_irreversible_frontier r = xs_frontier st"
      "xs_reasons st = []"
    by (auto simp: explore_def bind_res_Inr_iff)
  from explore_loop_inv [OF run initial_inv] have inv: "loop_inv classify graph limits starts st"
    "xs_stack st = []" by auto
  have closed: "closed_at classify graph limits st q"
    if "q \<in> single_path ` set starts \<or> q \<in> set (xs_emitted st)" for q
    using inv r(3) that unfolding loop_inv_def by (metis empty_iff list.set(1))
  have mem: "p \<in> single_path ` set starts \<or> p \<in> set (xs_emitted st)"
    using assms(3)
  proof (induction rule: walkable.induct)
    case (walk_step q n)
    from closed [OF walk_step.IH] walk_step.hyps show ?case by (auto simp: closed_at_def)
  qed simp
  have "\<exists>v. frontier_of H p e v \<in> set (xs_frontier st)"
    if e: "e \<in> set (outgoing graph (path_end p))" "pm_phase e = PHASE_DO" for e
  proof -
    from e(1) have "outgoing graph (path_end p) \<noteq> []" by auto
    with closed [OF mem] e(1) r(3) obtain evs frs c where
      fr: "fences classify p (outgoing graph (path_end p)) \<subseteq> set (xs_frontier st)"
      and cl: "classify p e = Inr (evs, frs, c)"
      by (auto simp: closed_at_def split: if_splits)
    from fenced [OF cl] e(2) obtain v where "frs = [frontier_of H p e v]" by auto
    with cl e(1) have "frontier_of H p e v \<in> fences classify p (outgoing graph (path_end p))"
      unfolding fences_def by fastforce
    with fr show ?thesis by blast
  qed
  with mem r show ?thesis by simp
qed

end

section \<open>The strict explorer\<close>

text \<open>What admission asks of an edge that is not a DO edge.\<close>

definition edge_lawful :: "possibility_morphism \<Rightarrow> admission_context \<Rightarrow> bool" where
  "edge_lawful m ctx \<longleftrightarrow>
     pm_standing m \<notin> {BLOCKED, UNSUPPORTED, REFUSED, STALE} \<and>
     set (mq_capability_refs (pm_requirements m)) \<subseteq> set (xc_capability_refs ctx) \<and>
     set (mq_policy_refs (pm_requirements m)) \<subseteq> set (xc_policy_refs ctx) \<and>
     set (mq_evidence_refs (pm_requirements m)) \<subseteq> set (xc_evidence_refs ctx) \<and>
     (mq_required_revision (pm_requirements m) = None \<or>
      mq_required_revision (pm_requirements m) = xc_current_revision ctx) \<and>
     (mq_execution_grant_required (pm_requirements m) \<longrightarrow> xc_execution_grant_ref ctx \<noteq> None)"

lemma subset_list_iff [simp]: "subset_list xs ys \<longleftrightarrow> set xs \<subseteq> set ys"
  by (auto simp: subset_list_def list_all_iff)

lemma edge_verdict_simps [simp]:
  "mv_admitted (edge_verdict m st a r) = a" "mv_morphism_id (edge_verdict m st a r) = pm_morphism_id m"
  by (simp_all add: edge_verdict_def)

lemma evaluate_morphism_id:
  "evaluate_morphism m ctx = Inr v \<Longrightarrow> mv_morphism_id v = pm_morphism_id m"
  by (auto simp: evaluate_morphism_def Let_def bind_res_Inr_iff split: if_splits)

lemma evaluate_morphism_admits:
  "pm_phase m \<noteq> PHASE_DO \<Longrightarrow>
     \<exists>v. evaluate_morphism m ctx = Inr v \<and> (mv_admitted v \<longleftrightarrow> edge_lawful m ctx)"
  by (auto simp: evaluate_morphism_def Let_def edge_lawful_def)

definition maximum_walks ::
    "admission_context \<Rightarrow> exploration_bounds \<Rightarrow> possibility_path \<Rightarrow> possibility_morphism \<Rightarrow> bool" where
  "maximum_walks ctx limits p e \<longleftrightarrow>
     pm_phase e \<noteq> PHASE_DO \<and> edge_lawful e ctx \<and> pm_reversal e = REVERSIBLE \<and>
     within_bounds (pp_objectives (extend_path p e)) limits"

definition reversible_walks ::
    "admission_context \<Rightarrow> exploration_bounds \<Rightarrow> possibility_path \<Rightarrow> possibility_morphism \<Rightarrow> bool" where
  "reversible_walks ctx limits p e \<longleftrightarrow>
     pm_phase e \<noteq> PHASE_DO \<and> edge_lawful e ctx \<and>
     within_bounds (pp_objectives (extend_path p e)) limits"

lemma classify_walks:
  "classify_maximum H ctx limits p e = Inr (evs, frs, c) \<Longrightarrow>
     c = (if maximum_walks ctx limits p e then Some (extend_path p e) else None)"
  "classify_reversible H ctx limits p e = Inr (evs', frs', c') \<Longrightarrow>
     c' = (if reversible_walks ctx limits p e then Some (extend_path p e) else None)"
  using evaluate_morphism_admits [of e ctx]
  by (auto simp: classify_maximum_def classify_reversible_def maximum_walks_def
      reversible_walks_def bind_res_Inr_iff split: if_splits)

lemma classify_returns:
  "pm_phase e \<noteq> PHASE_DO \<Longrightarrow> \<exists>x. classify_maximum H ctx limits p e = Inr x"
  using evaluate_morphism_admits [of e ctx] by (auto simp: classify_maximum_def)

interpretation maximum: path_explorer H "classify_maximum H ctx limits"
  "\<lambda>e. evaluate_morphism e ctx" "maximum_walks ctx limits"
  for H ctx limits
proof
  fix p e evs frs n
  show "classify_maximum H ctx limits p e = Inr (evs, frs, Some n) \<Longrightarrow>
      n = extend_path p e \<and> maximum_walks ctx limits p e"
    by (drule classify_walks) (simp split: if_splits)
next
  fix p e evs frs
  show "classify_maximum H ctx limits p e = Inr (evs, frs, None) \<Longrightarrow> \<not> maximum_walks ctx limits p e"
    by (drule classify_walks) (simp split: if_splits)
qed (auto simp: classify_maximum_def bind_res_Inr_iff dest: evaluate_morphism_id split: if_splits)

interpretation reversible: path_explorer H "classify_reversible H ctx limits"
  "\<lambda>e. evaluate_morphism e ctx" "reversible_walks ctx limits" for H ctx limits
proof
  fix p e evs frs n
  show "classify_reversible H ctx limits p e = Inr (evs, frs, Some n) \<Longrightarrow>
      n = extend_path p e \<and> reversible_walks ctx limits p e"
    by (drule classify_walks) (simp split: if_splits)
next
  fix p e evs frs
  show "classify_reversible H ctx limits p e = Inr (evs, frs, None) \<Longrightarrow> \<not> reversible_walks ctx limits p e"
    by (drule classify_walks) (simp split: if_splits)
qed (auto simp: classify_reversible_def bind_res_Inr_iff dest: evaluate_morphism_id split: if_splits)

text \<open>
  The specification, without the loop: a proven-reversible walk leaves a start object along
  lawful, reversible edges that are not DO edges, within the depth and the resource bounds
  at every prefix.
\<close>

inductive reversible_walk ::
    "possibility_graph \<Rightarrow> admission_context \<Rightarrow> exploration_bounds \<Rightarrow> string list \<Rightarrow>
       possibility_path \<Rightarrow> bool"
  for graph ctx limits starts where
  rw_start: "i \<in> set starts \<Longrightarrow> reversible_walk graph ctx limits starts (single_path i)"
| rw_step: "reversible_walk graph ctx limits starts p \<Longrightarrow>
    length (pp_morphism_ids p) < xb_max_depth limits \<Longrightarrow>
    e \<in> set (outgoing graph (path_end p)) \<Longrightarrow> maximum_walks ctx limits p e \<Longrightarrow>
    reversible_walk graph ctx limits starts (extend_path p e)"

inductive_cases reversible_walkE: "reversible_walk graph ctx limits starts p"

lemma walkable_maximum_iff:
  "walkable (classify_maximum H ctx limits) graph limits starts p \<longleftrightarrow>
     reversible_walk graph ctx limits starts p"
proof
  assume "walkable (classify_maximum H ctx limits) graph limits starts p"
  then show "reversible_walk graph ctx limits starts p"
  proof (induction rule: walkable.induct)
    case (walk_step p n)
    from maximum.candidate_extends [OF walk_step.hyps(3)] walk_step rw_step show ?case by metis
  qed (rule rw_start)
next
  assume "reversible_walk graph ctx limits starts p"
  then show "walkable (classify_maximum H ctx limits) graph limits starts p"
  proof (induction rule: reversible_walk.induct)
    case (rw_step p e)
    from rw_step.hyps(4) classify_returns obtain evs frs c where
      "classify_maximum H ctx limits p e = Inr (evs, frs, c)"
      unfolding maximum_walks_def by (metis prod_cases3)
    with classify_walks(1) [OF this] rw_step.hyps(3,4)
    have "extend_path p e \<in> candidates (classify_maximum H ctx limits) p (outgoing graph (path_end p))"
      unfolding candidates_def by auto
    with rw_step show ?case by (auto intro: walk_step)
  qed (rule walk_start)
qed

text \<open>A concrete exploration: one reversible edge, then a DO edge.\<close>

definition demo_object :: "string \<Rightarrow> possibility_object" where
  "demo_object i = \<lparr>po_object_id = i, po_kind = PLAN, po_semantic_ref = i, po_revision = None,
     po_ontology_refs = [], po_standing = UNKNOWN, po_evidence_refs = [], po_attributes = []\<rparr>"

definition demo_edge :: "string \<Rightarrow> string \<Rightarrow> string \<Rightarrow> decision_phase \<Rightarrow> possibility_morphism" where
  "demo_edge i s t phase =
     \<lparr>pm_morphism_id = i, pm_source_id = s, pm_target_id = t, pm_kind = K_ENABLE,
      pm_phase = phase, pm_reversal = REVERSIBLE,
      pm_requirements = \<lparr>mq_capability_refs = [], mq_policy_refs = [], mq_evidence_refs = [],
        mq_required_revision = None, mq_execution_grant_required = (phase = PHASE_DO)\<rparr>,
      pm_objectives = zero_objectives, pm_standing = CANDIDATE, pm_evidence_refs = [],
      pm_attributes = []\<rparr>"

definition demo_graph :: possibility_graph where
  "demo_graph =
     \<lparr>pg_objects = [demo_object ''a'', demo_object ''b'', demo_object ''c''],
      pg_morphisms = [demo_edge ''ab'' ''a'' ''b'' PHASE_SELECT, demo_edge ''bc'' ''b'' ''c'' PHASE_DO]\<rparr>"

definition demo_context :: admission_context where
  "demo_context = \<lparr>xc_capability_refs = [], xc_policy_refs = [], xc_evidence_refs = [],
     xc_current_revision = None, xc_execution_grant_ref = None\<rparr>"

lemmas demo_graph_eval =
  explore_combinatorial_maximum_def explore_def explore_loop.simps initial_exploration_def
  demo_graph_def demo_object_def demo_edge_def demo_context_def default_bounds_def
  find_object_def outgoing_def path_end_def single_path_def classify_maximum_def
  evaluate_morphism_def within_bounds_def within_limit_def extend_path_def zero_objectives_def

lemma demo_exploration:
  "case explore_combinatorial_maximum H demo_graph [''a''] demo_context default_bounds of
     Inr r \<Rightarrow> \<not> xo_truncated r \<and> length (xo_paths r) = 1 \<and>
       length (xo_irreversible_frontier r) = 1
   | Inl e \<Rightarrow> False"
  by (simp add: demo_graph_eval Let_def edge_verdict_def)

text \<open>C12: whatever \<open>explore_combinatorial_maximum\<close> returns: every emitted path is a
  proven-reversible walk of at least one edge, there are at most \<open>max_paths\<close> of them, and
  every frontier entry is a DO edge leaving the end of such a walk, with the verdict of
  its admission, which the exploration did not traverse.\<close>

theorem maximum_sound:
  assumes "explore_combinatorial_maximum H graph starts ctx limits = Inr r"
  shows "(\<forall>p \<in> set (xo_paths r). reversible_walk graph ctx limits starts p \<and> pp_morphism_ids p \<noteq> []) \<and>
    length (xo_paths r) \<le> xb_max_paths limits \<and>
    (\<forall>f \<in> set (xo_irreversible_frontier r). \<exists>p e v. reversible_walk graph ctx limits starts p \<and>
       e \<in> set (outgoing graph (path_end p)) \<and> pm_phase e = PHASE_DO \<and>
       evaluate_morphism e ctx = Inr v \<and> f = frontier_of H p e v)"
  using maximum.explore_sound [OF assms [unfolded explore_combinatorial_maximum_def]]
  by (simp add: walkable_maximum_iff)

theorem maximum_sound_witness:
  "\<exists>r p. explore_combinatorial_maximum (\<lambda>_. ''d'') demo_graph [''a''] demo_context default_bounds =
     Inr r \<and> p \<in> set (xo_paths r) \<and>
     reversible_walk demo_graph demo_context default_bounds [''a''] p"
proof (cases "explore_combinatorial_maximum (\<lambda>_. ''d'') demo_graph [''a''] demo_context default_bounds")
  case (Inr r)
  with demo_exploration [of "\<lambda>_. ''d''"] have "xo_paths r \<noteq> []" by auto
  then obtain p where "p \<in> set (xo_paths r)" by (cases "xo_paths r") auto
  with maximum_sound [OF Inr] Inr show ?thesis by blast
next
  case (Inl e)
  with demo_exploration [of "\<lambda>_. ''d''"] show ?thesis by simp
qed

text \<open>C7: when \<open>explore_combinatorial_maximum\<close> reports no truncation, the emitted paths are
  exactly the proven-reversible walks of at least one edge within the depth bound and the
  resource bounds, and every DO edge that leaves a start or one of these walks is in the irreversible frontier.\<close>

theorem maximum_complete:
  assumes "explore_combinatorial_maximum H graph starts ctx limits = Inr r" "\<not> xo_truncated r"
  shows "set (xo_paths r) =
      {p. reversible_walk graph ctx limits starts p \<and> pp_morphism_ids p \<noteq> []} \<and>
    (\<forall>p. reversible_walk graph ctx limits starts p \<longrightarrow>
       (\<forall>e \<in> set (outgoing graph (path_end p)). pm_phase e = PHASE_DO \<longrightarrow>
          (\<exists>v. frontier_of H p e v \<in> set (xo_irreversible_frontier r))))"
proof -
  note run = assms(1) [unfolded explore_combinatorial_maximum_def]
  have sound: "\<forall>p \<in> set (xo_paths r). reversible_walk graph ctx limits starts p \<and> pp_morphism_ids p \<noteq> []"
    using maximum.explore_sound [OF run] by (simp add: walkable_maximum_iff)
  have start: "pp_morphism_ids p = []" if "p \<in> single_path ` set starts" for p
    using that by (auto simp: single_path_def)
  have complete: "(p \<in> single_path ` set starts \<or> p \<in> set (xo_paths r)) \<and>
    (\<forall>e \<in> set (outgoing graph (path_end p)). pm_phase e = PHASE_DO \<longrightarrow>
       (\<exists>v. frontier_of H p e v \<in> set (xo_irreversible_frontier r)))"
    if "reversible_walk graph ctx limits starts p" for p
    using maximum.explore_complete [OF run assms(2)] that by (simp add: walkable_maximum_iff)
  with sound start show ?thesis by blast
qed

theorem maximum_complete_witness:
  "\<exists>r. explore_combinatorial_maximum (\<lambda>_. ''d'') demo_graph [''a''] demo_context default_bounds =
     Inr r \<and> set (xo_paths r) =
      {p. reversible_walk demo_graph demo_context default_bounds [''a''] p \<and> pp_morphism_ids p \<noteq> []}"
proof (cases "explore_combinatorial_maximum (\<lambda>_. ''d'') demo_graph [''a''] demo_context default_bounds")
  case (Inr r)
  with demo_exploration [of "\<lambda>_. ''d''"] have "\<not> xo_truncated r" by simp
  from maximum_complete [OF Inr this] Inr show ?thesis by blast
next
  case (Inl e)
  with demo_exploration [of "\<lambda>_. ''d''"] show ?thesis by simp
qed

section \<open>The Pareto frontier\<close>

locale strict_dominance =
  fixes better :: "'a \<Rightarrow> 'a \<Rightarrow> bool"
  assumes irrefl: "\<not> better x x"
    and transitive: "better x y \<Longrightarrow> better y z \<Longrightarrow> better x z"
begin

lemma frontier_iff:
  "x \<in> set (non_dominated better xs) \<longleftrightarrow> x \<in> set xs \<and> (\<forall>y \<in> set xs. \<not> better y x)"
  by (auto simp: non_dominated_def list_ex_iff)

lemma frontier_covers:
  "x \<in> set xs \<Longrightarrow> \<exists>y \<in> set (non_dominated better xs). y = x \<or> better y x"
proof (induction "card {z \<in> set xs. better z x}" arbitrary: x rule: less_induct)
  case less
  show ?case
  proof (cases "\<exists>z \<in> set xs. better z x")
    case False
    with less.prems show ?thesis by (auto simp: frontier_iff)
  next
    case True
    then obtain z where z: "z \<in> set xs" "better z x" by blast
    have "{w \<in> set xs. better w z} \<subset> {w \<in> set xs. better w x}"
      using z transitive irrefl by blast
    then have "card {w \<in> set xs. better w z} < card {w \<in> set xs. better w x}"
      by (intro psubset_card_mono) auto
    from less.hyps [OF this z(1)] z(2) transitive show ?thesis by blast
  qed
qed

end

lemma dominates_irrefl [simp]: "\<not> dominates p p"
  by (simp add: dominates_def Let_def)

lemma dominates_trans: "dominates p q \<Longrightarrow> dominates q r \<Longrightarrow> dominates p r"
  by (auto simp: dominates_def Let_def)

interpretation path_dominance: strict_dominance dominates
  by unfold_locales (auto intro: dominates_trans)

text \<open>\<open>pareto_paths\<close> keeps exactly the paths no other path dominates, in their order; it
  never loses a trade-off: every path is kept or dominated by a kept one, so the frontier
  of a non-empty exploration is not empty.\<close>

theorem pareto_frontier:
  "set (pareto_paths ps) = {p \<in> set ps. \<forall>q \<in> set ps. \<not> dominates q p} \<and>
   (\<forall>p \<in> set ps. \<exists>q \<in> set (pareto_paths ps). q = p \<or> dominates q p)"
proof -
  have "set (non_dominated dominates ps) = {p \<in> set ps. \<forall>q \<in> set ps. \<not> dominates q p}"
    using path_dominance.frontier_iff by blast
  then show ?thesis
    unfolding pareto_paths_def using path_dominance.frontier_covers by blast
qed

text \<open>A costlier path drops out, a costlier but more valuable one stays.\<close>

definition demo_priced :: "string \<Rightarrow> rat \<Rightarrow> rat \<Rightarrow> possibility_path" where
  "demo_priced i cost gain = (single_path i)
     \<lparr>pp_objectives := zero_objectives\<lparr>ov_monetary_cost := cost, ov_expected_value := gain\<rparr>\<rparr>"

lemma demo_priced_dominates:
  "dominates (demo_priced i cost gain) (demo_priced j cost' gain') \<longleftrightarrow>
     cost \<le> cost' \<and> gain' \<le> gain \<and> (cost < cost' \<or> gain' < gain)"
  by (auto simp: demo_priced_def dominates_def Let_def zero_objectives_def)

theorem pareto_frontier_witness:
  "set (pareto_paths [demo_priced ''a'' 1 1, demo_priced ''b'' 2 1, demo_priced ''c'' 2 2]) =
     {demo_priced ''a'' 1 1, demo_priced ''c'' 2 2}"
  unfolding pareto_frontier [THEN conjunct1] by (auto simp: demo_priced_dominates)

section \<open>Combination spaces\<close>

lemma product_lists_choices:
  "cs \<in> set (product_lists xss) \<longleftrightarrow> list_all2 (\<lambda>c xs. c \<in> set xs) cs xss"
  by (induction xss arbitrary: cs) (auto simp: list_all2_Cons2)

lemma length_product_lists: "length (product_lists xss) = prod_list (map length xss)"
  by (induction xss) (simp_all add: length_concat o_def sum_list_triv)

text \<open>A manufactured combination space holds the first \<open>max_combinations\<close> elements of the
  product of its factors: each assigns to every factor, in order, one of its alternatives;
  the space reports truncation exactly when the product is larger than the bound, and
  otherwise holds every choice.\<close>

theorem combination_space_exact:
  assumes "manufacture_combination_space factors limits = Inr s"
  shows "cs_total_cardinality s = prod_list (map (length \<circ> fa_alternatives) factors) \<and>
    length (cs_combinations s) = min (xb_max_combinations limits) (cs_total_cardinality s) \<and>
    (cs_truncated s \<longleftrightarrow> xb_max_combinations limits < cs_total_cardinality s) \<and>
    (\<forall>c \<in> set (cs_combinations s). map fst c = map fa_factor_id factors \<and>
       list_all2 (\<lambda>choice f. choice \<in> set (fa_alternatives f)) (map snd c) factors) \<and>
    (\<not> cs_truncated s \<longrightarrow>
       (\<forall>cs. list_all2 (\<lambda>choice f. choice \<in> set (fa_alternatives f)) cs factors \<longrightarrow>
          zip (map fa_factor_id factors) cs \<in> set (cs_combinations s)))"
proof -
  let ?ids = "map fa_factor_id factors" and ?n = "xb_max_combinations limits"
  let ?all = "product_lists (map fa_alternatives factors)"
  let ?total = "prod_list (map (length \<circ> fa_alternatives) factors)"
  have s: "cs_total_cardinality s = ?total" "cs_combinations s = map (zip ?ids) (take ?n ?all)"
    "cs_truncated s \<longleftrightarrow> length (map (zip ?ids) (take ?n ?all)) < ?total"
    using assms by (auto simp: manufacture_combination_space_def Let_def split: if_splits)
  have len: "length ?all = ?total" by (simp add: length_product_lists o_def)
  have choice: "cs \<in> set ?all \<longleftrightarrow> list_all2 (\<lambda>choice f. choice \<in> set (fa_alternatives f)) cs factors" for cs
    by (simp add: product_lists_choices list_all2_map2)
  have each: "map fst (zip ?ids cs) = ?ids \<and>
      list_all2 (\<lambda>choice f. choice \<in> set (fa_alternatives f)) (map snd (zip ?ids cs)) factors"
    if "cs \<in> set (take ?n ?all)" for cs
  proof -
    from that have "cs \<in> set ?all" by (rule in_set_takeD)
    then have all: "list_all2 (\<lambda>choice f. choice \<in> set (fa_alternatives f)) cs factors"
      by (simp only: choice)
    then have "length cs = length factors" by (rule list_all2_lengthD)
    with all show ?thesis by simp
  qed
  have "take ?n ?all = ?all" if "\<not> cs_truncated s"
    using that s(3) len by simp
  with s len choice each show ?thesis by auto
qed

theorem combination_space_exact_witness:
  "\<exists>s. manufacture_combination_space
      [\<lparr>fa_factor_id = ''planner'', fa_alternatives = [''p1'', ''p2'']\<rparr>,
       \<lparr>fa_factor_id = ''verifier'', fa_alternatives = [''v1'', ''v2'', ''v3'']\<rparr>] default_bounds = Inr s \<and>
     cs_total_cardinality s = 6 \<and> \<not> cs_truncated s"
proof -
  obtain s where s: "manufacture_combination_space
      [\<lparr>fa_factor_id = ''planner'', fa_alternatives = [''p1'', ''p2'']\<rparr>,
       \<lparr>fa_factor_id = ''verifier'', fa_alternatives = [''v1'', ''v2'', ''v3'']\<rparr>] default_bounds = Inr s"
    by (simp add: manufacture_combination_space_def Let_def)
  from combination_space_exact [OF this] s show ?thesis by (simp add: default_bounds_def)
qed

section \<open>Union of graphs\<close>

definition well_formed :: "possibility_graph \<Rightarrow> bool" where
  "well_formed g \<longleftrightarrow> validate_topology g = Inr g"

lemma well_formed_iff:
  "well_formed g \<longleftrightarrow> distinct (object_ids g) \<and> distinct (morphism_ids g) \<and>
     (\<forall>m \<in> set (pg_morphisms g). pm_source_id m \<in> set (object_ids g) \<and>
        pm_target_id m \<in> set (object_ids g))"
  by (auto simp: well_formed_def validate_topology_def list_ex_iff)

text \<open>An item is kept by a graph: the very item, or an equal one under its identity.\<close>

definition keeps_object :: "possibility_graph \<Rightarrow> possibility_object \<Rightarrow> bool" where
  "keeps_object g x \<longleftrightarrow> (\<exists>y \<in> set (pg_objects g). po_object_id y = po_object_id x \<and>
     (y = x \<or> object_eq y x))"

definition keeps_morphism :: "possibility_graph \<Rightarrow> possibility_morphism \<Rightarrow> bool" where
  "keeps_morphism g x \<longleftrightarrow> (\<exists>y \<in> set (pg_morphisms g). pm_morphism_id y = pm_morphism_id x \<and>
     (y = x \<or> morphism_eq y x))"

definition extends_graph :: "possibility_graph \<Rightarrow> possibility_graph \<Rightarrow> bool" where
  "extends_graph g h \<longleftrightarrow>
     (\<exists>s. pg_objects h = pg_objects g @ s) \<and> (\<exists>s. pg_morphisms h = pg_morphisms g @ s)"

lemma extends_graph_refl [simp]: "extends_graph g g"
  by (simp add: extends_graph_def)

lemma extends_graph_trans: "extends_graph g h \<Longrightarrow> extends_graph h k \<Longrightarrow> extends_graph g k"
  by (auto simp: extends_graph_def)

lemma keeps_extends:
  "keeps_object g x \<Longrightarrow> extends_graph g h \<Longrightarrow> keeps_object h x"
  "keeps_morphism g m \<Longrightarrow> extends_graph g h \<Longrightarrow> keeps_morphism h m"
  by (auto simp: keeps_object_def keeps_morphism_def extends_graph_def)

lemma with_object_step:
  assumes "with_object x g = Inr h"
  shows "extends_graph g h \<and> keeps_object h x \<and> pg_morphisms h = pg_morphisms g \<and>
    set (object_ids h) = insert (po_object_id x) (set (object_ids g)) \<and>
    (distinct (object_ids g) \<longrightarrow> distinct (object_ids h))"
proof (cases "find (\<lambda>y. po_object_id y = po_object_id x) (rev (pg_objects g))")
  case None
  then have "\<forall>y \<in> set (pg_objects g). po_object_id y \<noteq> po_object_id x"
    by (simp add: find_None_set)
  then have "po_object_id x \<notin> set (object_ids g)" unfolding object_ids_def by fastforce
  with None assms show ?thesis
    by (auto simp: with_object_def extends_graph_def keeps_object_def object_ids_def)
next
  case (Some y)
  with assms find_SomeD [OF Some] show ?thesis
    by (auto simp: with_object_def keeps_object_def object_ids_def intro: rev_image_eqI
        split: if_splits)
qed

lemma with_morphism_step:
  assumes "with_morphism x g = Inr h"
  shows "extends_graph g h \<and> keeps_morphism h x \<and> pg_objects h = pg_objects g \<and>
    set (pg_morphisms h) \<subseteq> insert x (set (pg_morphisms g)) \<and>
    (distinct (morphism_ids g) \<longrightarrow> distinct (morphism_ids h))"
proof (cases "find (\<lambda>y. pm_morphism_id y = pm_morphism_id x) (rev (pg_morphisms g))")
  case None
  then have "\<forall>y \<in> set (pg_morphisms g). pm_morphism_id y \<noteq> pm_morphism_id x"
    by (simp add: find_None_set)
  then have "pm_morphism_id x \<notin> set (morphism_ids g)" unfolding morphism_ids_def by fastforce
  with None assms show ?thesis
    by (auto simp: with_morphism_def extends_graph_def keeps_morphism_def morphism_ids_def)
next
  case (Some y)
  with assms find_SomeD [OF Some] show ?thesis
    by (auto simp: with_morphism_def keeps_morphism_def split: if_splits)
qed

lemma fold_with_object:
  "fold_res with_object xs g = Inr h \<Longrightarrow>
     extends_graph g h \<and> (\<forall>x \<in> set xs. keeps_object h x) \<and> pg_morphisms h = pg_morphisms g \<and>
     set (object_ids h) = set (map po_object_id xs) \<union> set (object_ids g) \<and>
     (distinct (object_ids g) \<longrightarrow> distinct (object_ids h))"
proof (induction xs arbitrary: g)
  case (Cons x xs)
  then obtain k where k: "with_object x g = Inr k" "fold_res with_object xs k = Inr h"
    by (auto simp: bind_res_Inr_iff)
  from with_object_step [OF k(1)] Cons.IH [OF k(2)] show ?case
    by (auto intro: extends_graph_trans keeps_extends)
qed simp

lemma fold_with_morphism:
  "fold_res with_morphism xs g = Inr h \<Longrightarrow>
     extends_graph g h \<and> (\<forall>x \<in> set xs. keeps_morphism h x) \<and> pg_objects h = pg_objects g \<and>
     set (pg_morphisms h) \<subseteq> set xs \<union> set (pg_morphisms g) \<and>
     (distinct (morphism_ids g) \<longrightarrow> distinct (morphism_ids h))"
proof (induction xs arbitrary: g)
  case (Cons x xs)
  then obtain k where k: "with_morphism x g = Inr k" "fold_res with_morphism xs k = Inr h"
    by (auto simp: bind_res_Inr_iff)
  from with_morphism_step [OF k(1)] Cons.IH [OF k(2)] show ?case
    by (auto intro: extends_graph_trans keeps_extends)
qed simp

lemma union_one_step:
  assumes "union_one other g = Inr h" "well_formed g" "well_formed other"
  shows "well_formed h \<and> extends_graph g h \<and> (\<forall>x \<in> set (pg_objects other). keeps_object h x) \<and>
    (\<forall>m \<in> set (pg_morphisms other). keeps_morphism h m)"
proof -
  from assms(1) obtain k where k: "fold_res with_object (pg_objects other) g = Inr k"
    "fold_res with_morphism (pg_morphisms other) k = Inr h"
    by (auto simp: union_one_def bind_res_Inr_iff)
  note o = fold_with_object [OF k(1)] and m = fold_with_morphism [OF k(2)]
  have ids: "object_ids h = object_ids k" using m by (simp add: object_ids_def)
  have "set (object_ids other) \<subseteq> set (object_ids k)" "set (object_ids g) \<subseteq> set (object_ids k)"
    using o by (auto simp: object_ids_def)
  moreover have "morphism_ids k = morphism_ids g" using o by (simp add: morphism_ids_def)
  ultimately have "well_formed h"
    using assms(2,3) o m unfolding well_formed_iff ids by (auto 4 3)
  with o m show ?thesis by (auto intro: extends_graph_trans keeps_extends)
qed

text \<open>The union of well-formed graphs, when no identity names two different things, is a
  well-formed graph that keeps every object and every morphism of every operand, those of
  the first in place.\<close>

theorem union_lossless:
  assumes "graph_union g others = Inr h" "well_formed g" "\<forall>k \<in> set others. well_formed k"
  shows "well_formed h \<and> extends_graph g h \<and>
    (\<forall>k \<in> set others. (\<forall>x \<in> set (pg_objects k). keeps_object h x) \<and>
       (\<forall>m \<in> set (pg_morphisms k). keeps_morphism h m))"
  using assms unfolding graph_union_def
proof (induction others arbitrary: g)
  case (Cons k ks)
  then obtain g1 where g1: "union_one k g = Inr g1" "fold_res union_one ks g1 = Inr h"
    by (auto simp: bind_res_Inr_iff)
  note step = union_one_step [OF g1(1)]
  from Cons.IH [OF g1(2)] step Cons.prems(2,3) show ?case
    by (auto intro: extends_graph_trans keeps_extends)
qed simp

theorem union_lossless_witness:
  "\<exists>h. graph_union demo_graph [demo_graph] = Inr h \<and> well_formed h"
proof -
  have wf: "well_formed demo_graph"
    by (simp add: well_formed_iff demo_graph_def demo_object_def demo_edge_def object_ids_def
        morphism_ids_def)
  obtain h where h: "graph_union demo_graph [demo_graph] = Inr h"
    by (simp add: graph_union_def union_one_def with_object_def with_morphism_def demo_graph_def
        demo_object_def demo_edge_def object_eq_def morphism_eq_def)
  with union_lossless [OF h wf] wf show ?thesis by simp
qed

end
