(* ===== verification/Structural.thy ===== *)
theory Structural
  imports Exploration_Props
begin

text \<open>
  The structural scan of a possibility graph, \<open>src/gymact/structural_scan.py\<close>. The nested
  function \<open>visit\<close> of \<open>_has_cycle\<close> mutates two sets; \<open>visiting\<close> is restored before every
  return that is followed by another call, so it is a parameter here, and \<open>visited\<close> is
  threaded through. A target without an entry in the adjacency map is the \<open>KeyError\<close> of
  \<open>adjacency[node]\<close>.
\<close>

section \<open>Cycle detection\<close>

type_synonym adjacency = "(string \<times> string list) list"

definition adjacency_of :: "possibility_graph \<Rightarrow> adjacency" where
  "adjacency_of g = map (\<lambda>x. (po_object_id x, map pm_target_id (outgoing g (po_object_id x))))
     (pg_objects g)"

function visit :: "adjacency \<Rightarrow> string list \<Rightarrow> string \<Rightarrow> string list \<Rightarrow> (bool \<times> string list) res"
  and visit_all :: "adjacency \<Rightarrow> string list \<Rightarrow> string list \<Rightarrow> string list \<Rightarrow> (bool \<times> string list) res"
where
  "visit adj visiting node visited =
     (if node \<in> set visiting then Inr (True, visited)
      else if node \<in> set visited then Inr (False, visited)
      else (case map_of adj node of
              None \<Rightarrow> Inl (key_error node)
            | Some targets \<Rightarrow>
                (case visit_all adj (node # visiting) targets visited of
                   Inl e \<Rightarrow> Inl e
                 | Inr (True, seen) \<Rightarrow> Inr (True, seen)
                 | Inr (False, seen) \<Rightarrow> Inr (False, node # seen))))"
| "visit_all adj visiting [] visited = Inr (False, visited)"
| "visit_all adj visiting (target # targets) visited =
     (case visit adj visiting target visited of
        Inl e \<Rightarrow> Inl e
      | Inr (True, seen) \<Rightarrow> Inr (True, seen)
      | Inr (False, seen) \<Rightarrow> visit_all adj visiting targets seen)"
  by pat_completeness auto
termination
proof (relation "inv_image (less_than <*lex*> less_than)
    (\<lambda>x. case x of Inl (adj, visiting, node, visited) \<Rightarrow> (card (dom (map_of adj) - set visiting), 0)
       | Inr (adj, visiting, targets, visited) \<Rightarrow>
           (card (dom (map_of adj) - set visiting), Suc (length targets)))", goal_cases)
  case (2 adj visiting node visited targets)
  then have "dom (map_of adj) - insert node (set visiting) \<subset> dom (map_of adj) - set visiting"
    by auto
  then have "card (dom (map_of adj) - insert node (set visiting)) < card (dom (map_of adj) - set visiting)"
    by (intro psubset_card_mono) (simp_all add: finite_dom_map_of)
  then show ?case by simp
qed auto

declare visit.simps [simp del] visit_all.simps [simp del]

text \<open>The generator of \<open>any(...)\<close>: unvisited objects in order, until one finds a cycle.\<close>

fun scan_objects :: "adjacency \<Rightarrow> string list \<Rightarrow> string list \<Rightarrow> bool res" where
  "scan_objects adj [] visited = Inr False"
| "scan_objects adj (i # is) visited =
     (if i \<in> set visited then scan_objects adj is visited
      else (case visit adj [] i visited of
              Inl e \<Rightarrow> Inl e
            | Inr (True, seen) \<Rightarrow> Inr True
            | Inr (False, seen) \<Rightarrow> scan_objects adj is seen))"

definition has_cycle :: "possibility_graph \<Rightarrow> bool res" where
  "has_cycle g = scan_objects (adjacency_of g) (object_ids g) []"

section \<open>The signature\<close>

record structural_signature =
  ss_graph_digest :: string
  ss_object_counts :: "(string \<times> nat) list"
  ss_morphism_counts :: "(string \<times> nat) list"
  ss_phase_counts :: "(string \<times> nat) list"
  ss_standing_counts :: "(string \<times> nat) list"
  ss_reversible_edges :: nat
  ss_compensatable_edges :: nat
  ss_unknown_reversal_edges :: nat
  ss_do_edges :: nat
  ss_branching_objects :: nat
  ss_max_out_degree :: nat
  ss_cyclic :: bool
  ss_structural_key :: string

text \<open>\<open>dict(sorted(Counter(values).items()))\<close>.\<close>

definition counter :: "string list \<Rightarrow> (string \<times> nat) list" where
  "counter values = map (\<lambda>v. (v, count_list values v)) (sort (remdups values))"

definition counter_json :: "(string \<times> nat) list \<Rightarrow> json" where
  "counter_json c = JObj (map (\<lambda>(k, n). (k, JInt (int n))) c)"

definition count_if :: "('a \<Rightarrow> bool) \<Rightarrow> 'a list \<Rightarrow> nat" where
  "count_if P xs = length (filter P xs)"

definition signature_json :: "structural_signature \<Rightarrow> json" where
  "signature_json s =
     JObj [(''object_counts'', counter_json (ss_object_counts s)),
       (''morphism_counts'', counter_json (ss_morphism_counts s)),
       (''phase_counts'', counter_json (ss_phase_counts s)),
       (''standing_counts'', counter_json (ss_standing_counts s)),
       (''reversible_edges'', JInt (int (ss_reversible_edges s))),
       (''compensatable_edges'', JInt (int (ss_compensatable_edges s))),
       (''unknown_reversal_edges'', JInt (int (ss_unknown_reversal_edges s))),
       (''do_edges'', JInt (int (ss_do_edges s))),
       (''branching_objects'', JInt (int (ss_branching_objects s))),
       (''max_out_degree'', JInt (int (ss_max_out_degree s))),
       (''cyclic'', JBool (ss_cyclic s))]"

definition structural_scan ::
    "digest_fun \<Rightarrow> possibility_graph \<Rightarrow> structural_signature res" where
  "structural_scan H g =
     bind_res (has_cycle g) (\<lambda>cyclic.
       let degrees = map (\<lambda>x. length (outgoing g (po_object_id x))) (pg_objects g);
           edges = (\<lambda>c. count_if (\<lambda>m. pm_reversal m = c) (pg_morphisms g));
           s = \<lparr>ss_graph_digest = graph_digest H g,
                ss_object_counts = counter (map (object_kind_value \<circ> po_kind) (pg_objects g)),
                ss_morphism_counts = counter (map (morphism_kind_value \<circ> pm_kind) (pg_morphisms g)),
                ss_phase_counts = counter (map (phase_value \<circ> pm_phase) (pg_morphisms g)),
                ss_standing_counts = counter (map (standing_value \<circ> pm_standing) (pg_morphisms g)),
                ss_reversible_edges = edges REVERSIBLE,
                ss_compensatable_edges = edges COMPENSATABLE,
                ss_unknown_reversal_edges = edges REVERSAL_UNKNOWN,
                ss_do_edges = count_if (\<lambda>m. pm_phase m = PHASE_DO) (pg_morphisms g),
                ss_branching_objects = count_if (\<lambda>n. n > 1) degrees,
                ss_max_out_degree = foldr max degrees 0,
                ss_cyclic = cyclic, ss_structural_key = []\<rparr>
       in Inr (s\<lparr>ss_structural_key := H (signature_json s)\<rparr>))"

section \<open>What the search decides\<close>

definition edge_rel :: "possibility_graph \<Rightarrow> (string \<times> string) set" where
  "edge_rel g = (\<lambda>m. (pm_source_id m, pm_target_id m)) ` set (pg_morphisms g)"

definition adj_rel :: "adjacency \<Rightarrow> (string \<times> string) set" where
  "adj_rel adj = {(s, t). \<exists>ts. map_of adj s = Some ts \<and> t \<in> set ts}"

text \<open>No cycle can be reached from a safe node.\<close>

definition safe_from :: "(string \<times> string) set \<Rightarrow> string \<Rightarrow> bool" where
  "safe_from E x \<longleftrightarrow> (\<forall>y. (x, y) \<in> E\<^sup>* \<longrightarrow> (y, y) \<notin> E\<^sup>+)"

lemma safe_from_targets:
  assumes "\<forall>t. (x, t) \<in> E \<longrightarrow> safe_from E t"
  shows "safe_from E x"
proof -
  have step: "(x, y) \<in> E\<^sup>+ \<Longrightarrow> \<exists>t. (x, t) \<in> E \<and> (t, y) \<in> E\<^sup>*" for y
    by (metis tranclD)
  have "(x, x) \<notin> E\<^sup>+"
  proof
    assume cyc: "(x, x) \<in> E\<^sup>+"
    then obtain t where t: "(x, t) \<in> E" "(t, x) \<in> E\<^sup>*" using step by blast
    then have "(t, t) \<in> E\<^sup>+" by (meson rtrancl_into_trancl1)
    with assms t(1) show False by (auto simp: safe_from_def)
  qed
  then show ?thesis
    unfolding safe_from_def using step assms
    by (metis rtranclD safe_from_def)
qed

definition search_ok ::
    "(string \<times> string) set \<Rightarrow> string list \<Rightarrow> string list \<Rightarrow> (bool \<times> string list) res \<Rightarrow> bool" where
  "search_ok E goals visited r \<longleftrightarrow>
     (case r of
        Inl e \<Rightarrow> True
      | Inr (True, seen) \<Rightarrow> \<exists>x. (x, x) \<in> E\<^sup>+
      | Inr (False, seen) \<Rightarrow> set visited \<subseteq> set seen \<and> set goals \<subseteq> set seen \<and>
          (\<forall>v \<in> set seen. safe_from E v))"

lemma visit_search_ok:
  "(\<forall>v \<in> set visiting. (v, node) \<in> (adj_rel adj)\<^sup>+) \<Longrightarrow> \<forall>v \<in> set visited. safe_from (adj_rel adj) v \<Longrightarrow>
     search_ok (adj_rel adj) [node] visited (visit adj visiting node visited)"
  "(\<forall>v \<in> set visiting. \<forall>t \<in> set targets. (v, t) \<in> (adj_rel adj)\<^sup>+) \<Longrightarrow>
     \<forall>v \<in> set visited. safe_from (adj_rel adj) v \<Longrightarrow>
     search_ok (adj_rel adj) targets visited (visit_all adj visiting targets visited)"
proof (induction adj visiting node visited and adj visiting targets visited rule: visit_visit_all.induct)
  case (1 adj visiting node visited)
  show ?case
  proof (cases "node \<in> set visiting \<or> node \<in> set visited")
    case True
    with 1 show ?thesis by (auto simp: visit.simps [of adj] search_ok_def)
  next
    case False
    show ?thesis
    proof (cases "map_of adj node")
      case None
      with False show ?thesis by (simp add: visit.simps [of adj] search_ok_def)
    next
      case (Some ts)
      have edge: "(node, t) \<in> adj_rel adj \<longleftrightarrow> t \<in> set ts" for t
        using Some by (simp add: adj_rel_def)
      have "\<forall>v \<in> set (node # visiting). \<forall>t \<in> set ts. (v, t) \<in> (adj_rel adj)\<^sup>+"
        using 1(2) edge by (auto intro: trancl_into_trancl)
      with 1(1) False Some 1(3) have ok: "search_ok (adj_rel adj) ts visited
          (visit_all adj (node # visiting) ts visited)" by simp
      have unfold: "visit adj visiting node visited =
          (case visit_all adj (node # visiting) ts visited of
             Inl e \<Rightarrow> Inl e
           | Inr (True, seen) \<Rightarrow> Inr (True, seen)
           | Inr (False, seen) \<Rightarrow> Inr (False, node # seen))"
        using False Some by (simp add: visit.simps [of adj visiting node])
      show ?thesis
      proof (cases "visit_all adj (node # visiting) ts visited")
        case (Inr r)
        obtain b seen where r: "r = (b, seen)" by (cases r)
        show ?thesis
        proof (cases b)
          case False
          with ok Inr r have seen: "\<forall>v \<in> set seen. safe_from (adj_rel adj) v"
            "set visited \<subseteq> set seen" "set ts \<subseteq> set seen" by (auto simp: search_ok_def)
          then have "safe_from (adj_rel adj) node"
            by (intro safe_from_targets) (auto simp: edge)
          with seen show ?thesis by (auto simp: unfold Inr r False search_ok_def)
        qed (use ok Inr r in \<open>simp add: unfold search_ok_def\<close>)
      qed (simp add: unfold search_ok_def)
    qed
  qed
next
  case (3 adj visiting target targets visited)
  have ok: "search_ok (adj_rel adj) [target] visited (visit adj visiting target visited)"
    using 3 by simp
  show ?case
  proof (cases "visit adj visiting target visited")
    case (Inr r)
    obtain b seen where r: "r = (b, seen)" by (cases r)
    show ?thesis
    proof (cases b)
      case False
      with ok Inr r have seen: "\<forall>v \<in> set seen. safe_from (adj_rel adj) v"
        "set visited \<subseteq> set seen" "target \<in> set seen" by (auto simp: search_ok_def)
      have "search_ok (adj_rel adj) targets seen (visit_all adj visiting targets seen)"
        using 3(2) Inr r False seen(1) 3(3) by simp
      with Inr r False seen(2,3) show ?thesis
        by (auto simp: visit_all.simps search_ok_def split: sum.splits prod.splits bool.splits)
    qed (use ok Inr r in \<open>simp add: visit_all.simps search_ok_def\<close>)
  qed (simp add: visit_all.simps search_ok_def)
qed (simp add: visit_all.simps search_ok_def)

text \<open>In a graph whose endpoints all exist, no lookup of the search fails.\<close>

lemma visit_total:
  "(\<forall>s ts. map_of adj s = Some ts \<longrightarrow> set ts \<subseteq> dom (map_of adj)) \<Longrightarrow> node \<in> dom (map_of adj) \<Longrightarrow>
     \<exists>r. visit adj visiting node visited = Inr r"
  "(\<forall>s ts. map_of adj s = Some ts \<longrightarrow> set ts \<subseteq> dom (map_of adj)) \<Longrightarrow>
     set targets \<subseteq> dom (map_of adj) \<Longrightarrow> \<exists>r. visit_all adj visiting targets visited = Inr r"
proof (induction adj visiting node visited and adj visiting targets visited rule: visit_visit_all.induct)
  case (1 adj visiting node visited)
  show ?case
  proof (cases "node \<in> set visiting \<or> node \<in> set visited")
    case True
    then show ?thesis by (auto simp: visit.simps [of adj visiting node])
  next
    case False
    obtain ts where ts: "map_of adj node = Some ts" using 1(3) by blast
    with 1(2) have "set ts \<subseteq> dom (map_of adj)" by blast
    with 1(1) [of ts] False ts 1(2) obtain b seen where
      "visit_all adj (node # visiting) ts visited = Inr (b, seen)" by auto
    with False ts show ?thesis
      by (cases b) (auto simp: visit.simps [of adj visiting node])
  qed
next
  case (3 adj visiting target targets visited)
  from 3(1) 3(3,4) obtain b seen where first: "visit adj visiting target visited = Inr (b, seen)"
    by auto
  show ?case
  proof (cases b)
    case False
    have "\<exists>r. visit_all adj visiting targets seen = Inr r"
      by (rule 3(2)) (use first False 3(3,4) in simp_all)
    with False show ?thesis by (simp add: visit_all.simps first)
  qed (auto simp: visit_all.simps first)
qed (auto simp: visit_all.simps)

lemma scan_objects_ok:
  assumes "\<forall>v \<in> set visited. safe_from (adj_rel adj) v" "scan_objects adj is visited = Inr b"
  shows "if b then \<exists>x. (x, x) \<in> (adj_rel adj)\<^sup>+ else \<forall>i \<in> set is. safe_from (adj_rel adj) i"
  using assms
proof (induction adj "is" visited rule: scan_objects.induct)
  case (2 adj i "is" visited)
  show ?case
  proof (cases "i \<in> set visited")
    case True
    with 2 show ?thesis by (auto split: if_splits)
  next
    case False
    have ok: "search_ok (adj_rel adj) [i] visited (visit adj [] i visited)"
      using 2(3) by (intro visit_search_ok) simp_all
    show ?thesis
    proof (cases "visit adj [] i visited")
      case (Inr r)
      obtain c seen where r: "r = (c, seen)" by (cases r)
      show ?thesis
      proof (cases c)
        case True
        with 2(4) False Inr r ok show ?thesis by (auto simp: search_ok_def)
      next
        case nc: False
        with ok Inr r have "\<forall>v \<in> set seen. safe_from (adj_rel adj) v" "i \<in> set seen"
          by (auto simp: search_ok_def)
        moreover have "scan_objects adj is seen = Inr b"
          using 2(4) False Inr r nc by simp
        moreover have "if b then \<exists>x. (x, x) \<in> (adj_rel adj)\<^sup>+ else \<forall>i \<in> set is. safe_from (adj_rel adj) i"
          by (rule 2(2)) (use False Inr r nc calculation in simp_all)
        ultimately show ?thesis by (cases b) simp_all
      qed
    qed (use 2(4) False in simp)
  qed
qed simp

lemma map_of_keyed:
  "map_of (map (\<lambda>x. (f x, h (f x))) xs) k = (if k \<in> f ` set xs then Some (h k) else None)"
  by (induction xs) auto

lemma map_of_adjacency:
  "map_of (adjacency_of g) i =
     (if i \<in> set (object_ids g) then Some (map pm_target_id (outgoing g i)) else None)"
  unfolding adjacency_of_def object_ids_def
  using map_of_keyed [of po_object_id "\<lambda>i. map pm_target_id (outgoing g i)" "pg_objects g" i]
  by simp

lemma adj_rel_adjacency: "well_formed g \<Longrightarrow> adj_rel (adjacency_of g) = edge_rel g"
  by (auto simp: adj_rel_def edge_rel_def map_of_adjacency outgoing_def well_formed_iff
      intro: rev_image_eqI split: if_splits)

lemma scan_objects_total:
  assumes "\<forall>s ts. map_of adj s = Some ts \<longrightarrow> set ts \<subseteq> dom (map_of adj)" "set is \<subseteq> dom (map_of adj)"
  shows "\<exists>b. scan_objects adj is visited = Inr b"
  using assms(2)
proof (induction "is" arbitrary: visited)
  case (Cons i "is")
  show ?case
  proof (cases "i \<in> set visited")
    case True
    with Cons show ?thesis by simp
  next
    case False
    obtain b seen where "visit adj [] i visited = Inr (b, seen)"
      using visit_total(1) [OF assms(1), of i "[]" visited] Cons.prems by auto
    with False Cons show ?thesis by (cases b) auto
  qed
qed auto

lemma has_cycle_iff:
  assumes "well_formed g"
  shows "\<exists>b. has_cycle g = Inr b \<and> (b \<longleftrightarrow> \<not> acyclic (edge_rel g))"
proof -
  let ?adj = "adjacency_of g"
  have dom: "dom (map_of ?adj) = set (object_ids g)"
    by (auto simp: map_of_adjacency split: if_splits)
  have "\<forall>s ts. map_of ?adj s = Some ts \<longrightarrow> set ts \<subseteq> dom (map_of ?adj)"
    unfolding dom using assms
    by (auto simp: map_of_adjacency outgoing_def well_formed_iff split: if_splits)
  with scan_objects_total [of ?adj "object_ids g" "[]"] obtain b where
    b: "scan_objects ?adj (object_ids g) [] = Inr b" unfolding dom by auto
  have ok: "if b then \<exists>x. (x, x) \<in> (edge_rel g)\<^sup>+ else \<forall>i \<in> set (object_ids g). safe_from (edge_rel g) i"
    using scan_objects_ok [OF _ b] unfolding adj_rel_adjacency [OF assms] by simp
  have "acyclic (edge_rel g)" if "\<not> b"
  proof (rule acyclicI, rule allI, rule notI)
    fix x
    assume cyc: "(x, x) \<in> (edge_rel g)\<^sup>+"
    then obtain y where "(x, y) \<in> edge_rel g" by (meson tranclD)
    then have "x \<in> set (object_ids g)"
      using assms by (auto simp: edge_rel_def well_formed_iff)
    with ok that cyc show False by (auto simp: safe_from_def)
  qed
  moreover have "\<not> acyclic (edge_rel g)" if b using ok that by (auto simp: acyclic_def)
  ultimately show ?thesis using b by (auto simp: has_cycle_def)
qed

text \<open>The structural scan of a well-formed graph returns, and it reports \<open>cyclic\<close> exactly
  when some object reaches itself along one or more morphisms.\<close>

theorem scan_detects_cycles:
  assumes "well_formed g"
  shows "\<exists>s. structural_scan H g = Inr s \<and>
    (ss_cyclic s \<longleftrightarrow> (\<exists>x. (x, x) \<in> (edge_rel g)\<^sup>+)) \<and>
    ss_do_edges s = length (filter (\<lambda>m. pm_phase m = PHASE_DO) (pg_morphisms g))"
proof -
  from has_cycle_iff [OF assms] obtain b where "has_cycle g = Inr b" "b \<longleftrightarrow> \<not> acyclic (edge_rel g)"
    by blast
  then show ?thesis by (simp add: structural_scan_def Let_def acyclic_def count_if_def)
qed

theorem scan_detects_cycles_witness:
  "\<exists>s. structural_scan (\<lambda>_. ''d'') (demo_graph\<lparr>pg_morphisms :=
        [demo_edge ''ab'' ''a'' ''b'' PHASE_SELECT, demo_edge ''ba'' ''b'' ''a'' PHASE_SELECT]\<rparr>) = Inr s \<and>
     ss_cyclic s"
proof -
  let ?g = "demo_graph\<lparr>pg_morphisms :=
    [demo_edge ''ab'' ''a'' ''b'' PHASE_SELECT, demo_edge ''ba'' ''b'' ''a'' PHASE_SELECT]\<rparr>"
  have wf: "well_formed ?g"
    by (simp add: well_formed_iff demo_graph_def demo_object_def demo_edge_def object_ids_def
        morphism_ids_def)
  have "(''a'', ''b'') \<in> edge_rel ?g" "(''b'', ''a'') \<in> edge_rel ?g"
    by (simp_all add: edge_rel_def demo_graph_def demo_edge_def)
  then have "(''a'', ''a'') \<in> (edge_rel ?g)\<^sup>+" by (meson r_into_trancl trancl_into_trancl)
  with scan_detects_cycles [OF wf, of "\<lambda>_. ''d''"] show ?thesis by blast
qed

text \<open>
  \<open>with_morphism\<close> copies the graph without running its validator: a morphism whose target
  does not exist is accepted, and the graph is no longer well-formed.
\<close>

theorem with_morphism_skips_validation:
  assumes "pm_morphism_id m \<notin> set (morphism_ids g)" "pm_target_id m \<notin> set (object_ids g)"
  shows "\<exists>h. with_morphism m g = Inr h \<and> m \<in> set (pg_morphisms h) \<and> \<not> well_formed h"
proof -
  have "find (\<lambda>y. pm_morphism_id y = pm_morphism_id m) (rev (pg_morphisms g)) = None"
    unfolding find_None_set using assms(1)
    by (metis image_eqI list.set_map morphism_ids_def set_rev)
  then show ?thesis
    using assms(2) by (auto simp: with_morphism_def well_formed_iff object_ids_def)
qed

end
