(* ===== verification/Cut.thy ===== *)
theory Cut
  imports Crown Structural
begin

text \<open>
  The irreversible cut: \<open>src/gymact/cut.py\<close> (selection of one admitted DO edge from a
  complete closure, the request bound to it, the broker that records the binding),
  \<open>src/gymact/dcm_runtime.py\<close> (the decision court) and \<open>src/gymact/compileout_graph.py\<close>
  (routes compiled for reuse). \<open>fmt\<close> renders an instant as pydantic does in JSON; the RDF
  projection is a parameter of the court.
\<close>

section \<open>JSON forms\<close>

definition subject_json :: "subject_ref \<Rightarrow> json" where
  "subject_json s =
     JObj [(''semantic_id'', JStr (sr_semantic_id s)), (''provider_ref'', JStr (sr_provider_ref s)),
       (''revision'', opt_json (sr_revision s))]"

definition prepared_json :: "prepared_action \<Rightarrow> json" where
  "prepared_json p =
     JObj [(''episode_id'', JStr (pa_episode_id p)), (''action_ref'', JStr (pa_action_ref p)),
       (''subject'', subject_json (pa_subject p)), (''payload'', JObj (pa_payload p)),
       (''admission_digest'', JStr (pa_admission_digest p)),
       (''planning_provenance_digest'', opt_json (pa_planning_provenance_digest p)),
       (''idempotency_key'', JStr (pa_idempotency_key p))]"

definition grant_json :: "(int \<Rightarrow> string) \<Rightarrow> execution_grant \<Rightarrow> json" where
  "grant_json fmt g =
     JObj [(''principal'', JStr (eg_principal g)),
       (''delegated_principal'', opt_json (eg_delegated_principal g)),
       (''action_ref'', JStr (eg_action_ref g)), (''subject'', subject_json (eg_subject g)),
       (''capability_ref'', JStr (eg_capability_ref g)),
       (''authority_ref'', JStr (eg_authority_ref g)),
       (''policy_revision'', JStr (eg_policy_revision g)),
       (''admitted_observation_ref'', JStr (eg_admitted_observation_ref g)),
       (''intended_effects'', JArr (map (JObj \<circ> effect_json) (eg_intended_effects g))),
       (''scope_refs'', strs_json (eg_scope_refs g)),
       (''expires_at'', opt_json (map_option fmt (eg_expires_at g))),
       (''nonce'', JStr (eg_nonce g))]"

definition evaluation_json :: "morphism_evaluation \<Rightarrow> json" where
  "evaluation_json v =
     JObj [(''morphism_id'', JStr (mv_morphism_id v)),
       (''standing'', JStr (standing_value (mv_standing v))),
       (''admitted'', JBool (mv_admitted v)), (''reason'', JStr (mv_reason v))]"

definition frontier_json :: "frontier_edge \<Rightarrow> json" where
  "frontier_json f =
     JObj [(''path_id'', JStr (fe_path_id f)), (''morphism_id'', JStr (fe_morphism_id f)),
       (''target_id'', JStr (fe_target_id f)),
       (''standing'', JStr (standing_value (fe_standing f))),
       (''admitted'', JBool (fe_admitted f)), (''reason'', JStr (fe_reason f))]"

definition exploration_json :: "exploration_result \<Rightarrow> json" where
  "exploration_json r =
     JObj [(''graph_digest'', JStr (xo_graph_digest r)), (''start_ids'', strs_json (xo_start_ids r)),
       (''paths'', JArr (map path_json (xo_paths r))),
       (''pareto_path_ids'', strs_json (xo_pareto_path_ids r)),
       (''irreversible_frontier'', JArr (map frontier_json (xo_irreversible_frontier r))),
       (''evaluations'', JArr (map evaluation_json (xo_evaluations r))),
       (''truncated'', JBool (xo_truncated r)),
       (''truncation_reasons'', strs_json (xo_truncation_reasons r))]"

section \<open>The selection\<close>

record irreversible_selection =
  si_graph_digest :: string
  si_exploration_digest :: string
  si_path_id :: string
  si_morphism_id :: string
  si_target_id :: string
  si_action_ref :: string
  si_capability_ref :: string
  si_subject_ref :: string
  si_prepared_digest :: string
  si_grant_digest :: string
  si_selector_ref :: string
  si_basis_refs :: "string list"
  si_selection_digest :: string

text \<open>\<open>model_dump(exclude={"selection_digest"})\<close>, the same object as the payload of \<open>select_irreversible_cut\<close>.\<close>

definition selection_payload :: "irreversible_selection \<Rightarrow> json" where
  "selection_payload s =
     JObj [(''graph_digest'', JStr (si_graph_digest s)),
       (''exploration_digest'', JStr (si_exploration_digest s)),
       (''path_id'', JStr (si_path_id s)), (''morphism_id'', JStr (si_morphism_id s)),
       (''target_id'', JStr (si_target_id s)), (''action_ref'', JStr (si_action_ref s)),
       (''capability_ref'', JStr (si_capability_ref s)),
       (''subject_ref'', JStr (si_subject_ref s)),
       (''prepared_digest'', JStr (si_prepared_digest s)),
       (''grant_digest'', JStr (si_grant_digest s)), (''selector_ref'', JStr (si_selector_ref s)),
       (''basis_refs'', strs_json (si_basis_refs s))]"

definition verify_digest :: "digest_fun \<Rightarrow> irreversible_selection \<Rightarrow> bool" where
  "verify_digest H s \<longleftrightarrow> H (selection_payload s) = si_selection_digest s"

definition validate_selection :: "irreversible_selection \<Rightarrow> irreversible_selection res" where
  "validate_selection s =
     bind_res (require_nonempty [si_graph_digest s, si_exploration_digest s, si_path_id s,
         si_morphism_id s, si_target_id s, si_action_ref s, si_capability_ref s,
         si_subject_ref s, si_prepared_digest s, si_grant_digest s, si_selector_ref s,
         si_selection_digest s]) (\<lambda>_.
       if list_ex (\<lambda>ref. CHR '':'' \<notin> set ref) (si_basis_refs s)
       then Inl (value_error ''SELECTION_BASIS_REF_MUST_BE_ABSOLUTE'') else Inr s)"

definition select_irreversible_cut ::
    "digest_fun \<Rightarrow> (int \<Rightarrow> string) \<Rightarrow> int \<Rightarrow> possibility_graph \<Rightarrow> exploration_result \<Rightarrow> string \<Rightarrow>
       string \<Rightarrow> action_definition \<Rightarrow> prepared_action \<Rightarrow> execution_grant \<Rightarrow> string \<Rightarrow>
       string list \<Rightarrow> string option \<Rightarrow> irreversible_selection res" where
  "select_irreversible_cut H fmt now graph exploration path morphism action prepared grant
       selector_ref basis_refs current_revision =
     (if xo_graph_digest exploration \<noteq> graph_digest H graph
      then Inl (value_error ''POSSIBILITY_GRAPH_DRIFT'')
      else if xo_truncated exploration
      then Inl (value_error (''IRREVERSIBLE_SELECTION_FROM_TRUNCATED_CLOSURE_REFUSED:'' @
             join '','' (xo_truncation_reasons exploration)))
      else (case find (\<lambda>f. fe_path_id f = path \<and> fe_morphism_id f = morphism)
                   (xo_irreversible_frontier exploration) of
          None \<Rightarrow> Inl (value_error ''IRREVERSIBLE_FRONTIER_EDGE_NOT_FOUND'')
        | Some frontier \<Rightarrow>
            if \<not> fe_admitted frontier
            then Inl (value_error (''IRREVERSIBLE_FRONTIER_NOT_ADMITTED:'' @ fe_reason frontier))
            else (case find (\<lambda>m. pm_morphism_id m = morphism) (pg_morphisms graph) of
                None \<Rightarrow> Inl (Raised ''StopIteration'' [])
              | Some m \<Rightarrow>
                  if pm_phase m \<noteq> PHASE_DO
                  then Inl (value_error ''SELECTED_MORPHISM_IS_NOT_DO'')
                  else if pa_action_ref prepared \<noteq> ac_semantic_id action
                  then Inl (value_error ''SELECTION_ACTION_IDENTITY_MISMATCH'')
                  else
                    (let admission = admit_execution action prepared grant current_revision now
                     in if \<not> am_admitted admission
                        then Inl (value_error
                               (''SELECTION_GRANT_NOT_ADMITTED:'' @ am_reason admission))
                        else
                          (let s = \<lparr>si_graph_digest = graph_digest H graph,
                                 si_exploration_digest = H (exploration_json exploration),
                                 si_path_id = path, si_morphism_id = morphism,
                                 si_target_id = fe_target_id frontier,
                                 si_action_ref = ac_semantic_id action,
                                 si_capability_ref = ac_capability_ref action,
                                 si_subject_ref = sr_semantic_id (pa_subject prepared),
                                 si_prepared_digest = H (prepared_json prepared),
                                 si_grant_digest = H (grant_json fmt grant),
                                 si_selector_ref = selector_ref, si_basis_refs = basis_refs,
                                 si_selection_digest = []\<rparr>
                           in validate_selection
                                (s\<lparr>si_selection_digest := H (selection_payload s)\<rparr>))))))"

section \<open>The bound request\<close>

record combinatorial_request =
  cq_selection :: irreversible_selection
  cq_broker_request :: broker_request

definition require_exact_cut_binding ::
    "digest_fun \<Rightarrow> (int \<Rightarrow> string) \<Rightarrow> combinatorial_request \<Rightarrow> combinatorial_request res" where
  "require_exact_cut_binding H fmt q =
     (let request = cq_broker_request q; selection = cq_selection q
      in if \<not> verify_digest H selection
         then Inl (value_error ''IRREVERSIBLE_SELECTION_DIGEST_MISMATCH'')
         else if si_action_ref selection \<noteq> ac_semantic_id (br_action request)
         then Inl (value_error ''IRREVERSIBLE_SELECTION_ACTION_DRIFT'')
         else if si_capability_ref selection \<noteq> ac_capability_ref (br_action request)
         then Inl (value_error ''IRREVERSIBLE_SELECTION_CAPABILITY_DRIFT'')
         else if si_subject_ref selection \<noteq> sr_semantic_id (pa_subject (br_prepared request))
         then Inl (value_error ''IRREVERSIBLE_SELECTION_SUBJECT_DRIFT'')
         else if si_prepared_digest selection \<noteq> H (prepared_json (br_prepared request))
         then Inl (value_error ''IRREVERSIBLE_SELECTION_PREPARED_DRIFT'')
         else if si_grant_digest selection \<noteq> H (grant_json fmt (br_grant request))
         then Inl (value_error ''IRREVERSIBLE_SELECTION_GRANT_DRIFT'')
         else Inr q)"

definition manufacture_broker_request ::
    "digest_fun \<Rightarrow> (int \<Rightarrow> string) \<Rightarrow> irreversible_selection \<Rightarrow> action_definition \<Rightarrow>
       prepared_action \<Rightarrow> execution_grant \<Rightarrow> string option \<Rightarrow> dict option \<Rightarrow>
       combinatorial_request res" where
  "manufacture_broker_request H fmt selection action prepared grant current_revision expected =
     require_exact_cut_binding H fmt
       \<lparr>cq_selection = selection,
        cq_broker_request = \<lparr>br_action = action, br_prepared = prepared, br_grant = grant,
          br_current_revision = current_revision,
          br_expected = (case expected of None \<Rightarrow> [] | Some d \<Rightarrow> d)\<rparr>\<rparr>"

section \<open>The combinatorial broker\<close>

definition cut_receipt ::
    "('p, 'h, 'w) gym_config \<Rightarrow> ('p, 'h, 'w) gym \<Rightarrow> irreversible_selection \<Rightarrow> receipt \<Rightarrow> receipt" where
  "cut_receipt cfg g selection source =
     source\<lparr>rc_receipt_id := fresh_uuid cfg g, rc_occurred_at := gc_now cfg (g_ticks g),
       rc_possibility_graph_digest := Some (si_graph_digest selection),
       rc_possibility_exploration_digest := Some (si_exploration_digest selection),
       rc_possibility_path_id := Some (si_path_id selection),
       rc_possibility_morphism_id := Some (si_morphism_id selection),
       rc_selection_digest := Some (si_selection_digest selection),
       rc_selection_basis_refs := si_basis_refs selection,
       rc_parent_receipt_ids := rc_parent_receipt_ids source @ [rc_receipt_id source]\<rparr>"

definition combinatorial_execute ::
    "runtime_kind \<Rightarrow> ('p, 'h, 'w) gym_config \<Rightarrow> combinatorial_request \<Rightarrow> int \<Rightarrow>
       (('p, 'h, 'w) gym, verified_transition) action" where
  "combinatorial_execute kind cfg request moment =
     bind_act (broker_execute kind cfg (cq_broker_request request) moment) (\<lambda>transition g.
       let r = cut_receipt cfg g (cq_selection request) (vt_receipt transition)
       in bind_act (record_built cfg r) (\<lambda>_. pure_res (Inr (transition\<lparr>vt_receipt := r\<rparr>))) (tick g))"

section \<open>The decision court\<close>

record court_record =
  dc_graph_digest :: string
  dc_structural_signature :: structural_signature
  dc_exploration :: exploration_result

definition graph_eq :: "possibility_graph \<Rightarrow> possibility_graph \<Rightarrow> bool" where
  "graph_eq a b \<longleftrightarrow> list_all2 object_eq (pg_objects a) (pg_objects b) \<and>
     list_all2 morphism_eq (pg_morphisms a) (pg_morphisms b)"

text \<open>
  \<open>conforms\<close> is the SHACL verdict on the RDF projection of the graph, \<open>reproject\<close> the graph
  read back from it.
\<close>

definition admit_and_explore ::
    "digest_fun \<Rightarrow> (possibility_graph \<Rightarrow> bool res) \<Rightarrow> (possibility_graph \<Rightarrow> possibility_graph res) \<Rightarrow>
       possibility_graph \<Rightarrow> string list \<Rightarrow> admission_context option \<Rightarrow> exploration_bounds option \<Rightarrow>
       court_record res" where
  "admit_and_explore H conforms reproject graph starts ctx bounds =
     bind_res (conforms graph) (\<lambda>ok.
       if \<not> ok then Inl (value_error ''POSSIBILITY_RDF_NOT_ADMITTED'')
       else bind_res (reproject graph) (\<lambda>projected.
         if \<not> graph_eq projected graph
         then Inl (value_error ''POSSIBILITY_RDF_PROJECTION_NOT_LOSSLESS'')
         else bind_res (structural_scan H projected) (\<lambda>signature.
           bind_res (explore_combinatorial_maximum H projected starts
               (case ctx of None \<Rightarrow> \<lparr>xc_capability_refs = [], xc_policy_refs = [],
                  xc_evidence_refs = [], xc_current_revision = None,
                  xc_execution_grant_ref = None\<rparr> | Some c \<Rightarrow> c)
               (case bounds of None \<Rightarrow> default_bounds | Some b \<Rightarrow> b)) (\<lambda>exploration.
             Inr \<lparr>dc_graph_digest = graph_digest H projected,
               dc_structural_signature = signature, dc_exploration = exploration\<rparr>))))"

definition court_select ::
    "digest_fun \<Rightarrow> (int \<Rightarrow> string) \<Rightarrow> int \<Rightarrow> possibility_graph \<Rightarrow> court_record \<Rightarrow> string \<Rightarrow> string \<Rightarrow>
       action_definition \<Rightarrow> prepared_action \<Rightarrow> execution_grant \<Rightarrow> string \<Rightarrow> string list \<Rightarrow>
       string option \<Rightarrow> irreversible_selection res" where
  "court_select H fmt now graph court path morphism action prepared grant selector_ref
       basis_refs current_revision =
     (if dc_graph_digest court \<noteq> graph_digest H graph
      then Inl (value_error ''DECISION_COURT_GRAPH_DRIFT'')
      else select_irreversible_cut H fmt now graph (dc_exploration court) path morphism action
             prepared grant selector_ref basis_refs current_revision)"

section \<open>Compiled routes\<close>

record recipe_identity =
  ri_problem_identity :: string
  ri_environment_identity :: string
  ri_authority_class :: string
  ri_policy_revision :: string
  ri_verifier_ref :: string
  ri_input_contract_digest :: string
  ri_graph_digest :: string

record graph_recipe =
  gr_identity :: recipe_identity
  gr_path_id :: string
  gr_reversible_morphism_ids :: "string list"
  gr_irreversible_morphism_id :: string
  gr_source_receipt_refs :: "string list"
  gr_recipe_digest :: string
  gr_standing :: standing

record recipe_admission =
  ra_admitted :: bool
  ra_model_required :: bool
  ra_path_id :: "string option"
  ra_irreversible_morphism_id :: "string option"
  ra_standing :: standing
  ra_reason :: string

definition identity_json :: "recipe_identity \<Rightarrow> json" where
  "identity_json i =
     JObj [(''problem_identity'', JStr (ri_problem_identity i)),
       (''environment_identity'', JStr (ri_environment_identity i)),
       (''authority_class'', JStr (ri_authority_class i)),
       (''policy_revision'', JStr (ri_policy_revision i)),
       (''verifier_ref'', JStr (ri_verifier_ref i)),
       (''input_contract_digest'', JStr (ri_input_contract_digest i)),
       (''graph_digest'', JStr (ri_graph_digest i))]"

definition recipe_payload :: "graph_recipe \<Rightarrow> json" where
  "recipe_payload r =
     JObj [(''identity'', identity_json (gr_identity r)), (''path_id'', JStr (gr_path_id r)),
       (''reversible_morphism_ids'', strs_json (gr_reversible_morphism_ids r)),
       (''irreversible_morphism_id'', JStr (gr_irreversible_morphism_id r)),
       (''source_receipt_refs'', strs_json (gr_source_receipt_refs r))]"

definition verify_content_identity :: "digest_fun \<Rightarrow> graph_recipe \<Rightarrow> graph_recipe res" where
  "verify_content_identity H r =
     bind_res (require_nonempty [gr_path_id r, gr_irreversible_morphism_id r, gr_recipe_digest r])
       (\<lambda>_. if gr_irreversible_morphism_id r \<in> set (gr_reversible_morphism_ids r)
             then Inl (value_error ''IRREVERSIBLE_MORPHISM_CANNOT_BE_IN_REVERSIBLE_ROUTE'')
             else if gr_recipe_digest r \<noteq> H (recipe_payload r)
             then Inl (value_error ''COMPILED_GRAPH_RECIPE_DIGEST_MISMATCH'')
             else Inr r)"

definition find_path :: "digest_fun \<Rightarrow> exploration_result \<Rightarrow> string \<Rightarrow> possibility_path option" where
  "find_path H exploration i = find (\<lambda>p. path_id H p = i) (xo_paths exploration)"

definition has_frontier :: "exploration_result \<Rightarrow> string \<Rightarrow> string \<Rightarrow> bool" where
  "has_frontier exploration path morphism \<longleftrightarrow>
     list_ex (\<lambda>f. fe_path_id f = path \<and> fe_morphism_id f = morphism)
       (xo_irreversible_frontier exploration)"

definition compile_graph_recipe ::
    "digest_fun \<Rightarrow> recipe_identity \<Rightarrow> exploration_result \<Rightarrow> string \<Rightarrow> string \<Rightarrow> string list \<Rightarrow>
       graph_recipe res" where
  "compile_graph_recipe H identity exploration path morphism source_receipt_refs =
     (if xo_graph_digest exploration \<noteq> ri_graph_digest identity
      then Inl (value_error ''COMPILE_OUT_GRAPH_IDENTITY_MISMATCH'')
      else (case find_path H exploration path of
          None \<Rightarrow> Inl (value_error ''COMPILE_OUT_PATH_NOT_IN_EXPLORATION'')
        | Some p \<Rightarrow>
            if \<not> has_frontier exploration path morphism
            then Inl (value_error ''COMPILE_OUT_FRONTIER_NOT_IN_EXPLORATION'')
            else if source_receipt_refs = []
            then Inl (value_error ''COMPILE_OUT_REQUIRES_SOURCE_RECEIPTS'')
            else
              (let r = \<lparr>gr_identity = identity, gr_path_id = path,
                     gr_reversible_morphism_ids = pp_morphism_ids p,
                     gr_irreversible_morphism_id = morphism,
                     gr_source_receipt_refs = source_receipt_refs, gr_recipe_digest = [],
                     gr_standing = STRUCTURAL\<rparr>
               in verify_content_identity H (r\<lparr>gr_recipe_digest := H (recipe_payload r)\<rparr>))))"

definition recipe_stale :: "string \<Rightarrow> recipe_admission" where
  "recipe_stale reason =
     \<lparr>ra_admitted = False, ra_model_required = True, ra_path_id = None,
      ra_irreversible_morphism_id = None, ra_standing = STALE, ra_reason = reason\<rparr>"

definition admit_graph_recipe ::
    "digest_fun \<Rightarrow> graph_recipe \<Rightarrow> recipe_identity \<Rightarrow> exploration_result \<Rightarrow> recipe_admission" where
  "admit_graph_recipe H recipe current exploration =
     (if gr_identity recipe \<noteq> current then recipe_stale ''COMPILED_GRAPH_RECIPE_IDENTITY_DRIFT''
      else if xo_graph_digest exploration \<noteq> ri_graph_digest (gr_identity recipe)
      then recipe_stale ''COMPILED_GRAPH_RECIPE_GRAPH_DRIFT''
      else if map_option pp_morphism_ids (find_path H exploration (gr_path_id recipe)) \<noteq>
              Some (gr_reversible_morphism_ids recipe)
      then recipe_stale ''COMPILED_GRAPH_RECIPE_ROUTE_DRIFT''
      else if \<not> has_frontier exploration (gr_path_id recipe) (gr_irreversible_morphism_id recipe)
      then recipe_stale ''COMPILED_GRAPH_RECIPE_FRONTIER_DRIFT''
      else \<lparr>ra_admitted = True, ra_model_required = False, ra_path_id = Some (gr_path_id recipe),
             ra_irreversible_morphism_id = Some (gr_irreversible_morphism_id recipe),
             ra_standing = CANDIDATE,
             ra_reason = ''HOT_GRAPH_ROUTE_ADMITTED_AUTHORITY_STILL_REQUIRED''\<rparr>)"

end
