(* ===== verification/Cut_Props.thy ===== *)
theory Cut_Props
  imports Cut Crown_Props
begin

text \<open>
  The cut is sound (an admitted DO edge at the end of a proven-reversible walk of a complete
  closure, under a grant that closes), it binds the request it was made for and no other,
  the broker's receipt carries it, and a compiled route is reusable exactly where it was
  compiled. One theorem shows what the cut does not check: the semantic binding of the edge.
\<close>

section \<open>Selection\<close>

lemma select_irreversible_cut_InrD:
  assumes "select_irreversible_cut H fmt now graph x path morphism action prepared grant selector
      basis current = Inr s"
  obtains f m where "xo_graph_digest x = graph_digest H graph" "\<not> xo_truncated x"
    "f \<in> set (xo_irreversible_frontier x)" "fe_path_id f = path" "fe_morphism_id f = morphism"
    "fe_admitted f" "m \<in> set (pg_morphisms graph)" "pm_morphism_id m = morphism"
    "pm_phase m = PHASE_DO" "closes action prepared grant current now"
    "verify_digest H s" "si_graph_digest s = graph_digest H graph"
    "si_exploration_digest s = H (exploration_json x)" "si_path_id s = path"
    "si_morphism_id s = morphism" "si_target_id s = fe_target_id f"
    "si_action_ref s = ac_semantic_id action" "si_capability_ref s = ac_capability_ref action"
    "si_subject_ref s = sr_semantic_id (pa_subject prepared)"
    "si_prepared_digest s = H (prepared_json prepared)"
    "si_grant_digest s = H (grant_json fmt grant)" "si_basis_refs s = basis"
proof -
  from assms obtain f m where
    "xo_graph_digest x = graph_digest H graph" "\<not> xo_truncated x"
    and f: "find (\<lambda>f. fe_path_id f = path \<and> fe_morphism_id f = morphism)
      (xo_irreversible_frontier x) = Some f" "fe_admitted f"
    and m: "find (\<lambda>m. pm_morphism_id m = morphism) (pg_morphisms graph) = Some m"
      "pm_phase m = PHASE_DO"
    and "am_admitted (admit_execution action prepared grant current now)"
    unfolding select_irreversible_cut_def
    by (auto simp: Let_def split: if_splits option.splits)
  moreover from calculation assms have
    "verify_digest H s" "si_graph_digest s = graph_digest H graph"
    "si_exploration_digest s = H (exploration_json x)" "si_path_id s = path"
    "si_morphism_id s = morphism" "si_target_id s = fe_target_id f"
    "si_action_ref s = ac_semantic_id action" "si_capability_ref s = ac_capability_ref action"
    "si_subject_ref s = sr_semantic_id (pa_subject prepared)"
    "si_prepared_digest s = H (prepared_json prepared)"
    "si_grant_digest s = H (grant_json fmt grant)" "si_basis_refs s = basis"
    unfolding select_irreversible_cut_def validate_selection_def verify_digest_def
    by (auto simp: Let_def bind_res_Inr_iff selection_payload_def split: if_splits option.splits)
  ultimately show ?thesis
    using that [of f m] find_SomeD [OF f(1)] find_SomeD [OF m(1)]
    by (simp add: admit_execution_iff)
qed

text \<open>
  A concrete cut: the demo graph with a DO edge that carries a semantic binding, cut for the
  demo action (the binding names another action).
\<close>

definition demo_hash :: digest_fun where
  "demo_hash v = CHR ''h'' # demo_digest v"

definition demo_binding :: consequence_binding where
  "demo_binding = \<lparr>cb_action_ref = ''urn:close'', cb_subject_ref = ''urn:window'',
     cb_capability_ref = ''urn:other'', cb_verifier_ref = ''v'', cb_expected_effect_digest = ''e''\<rparr>"

definition demo_do :: possibility_morphism where
  "demo_do = (demo_edge ''bc'' ''b'' ''c'' PHASE_DO)
     \<lparr>pm_kind := K_ACTUATE, pm_attributes := consequence_binding_attributes demo_binding\<rparr>"

definition demo_cut_graph :: possibility_graph where
  "demo_cut_graph = demo_graph\<lparr>pg_morphisms := [demo_edge ''ab'' ''a'' ''b'' PHASE_SELECT, demo_do]\<rparr>"

definition demo_cut_context :: admission_context where
  "demo_cut_context = demo_context\<lparr>xc_execution_grant_ref := Some ''board''\<rparr>"

definition demo_path :: possibility_path where
  "demo_path = extend_path (single_path ''a'') (demo_edge ''ab'' ''a'' ''b'' PHASE_SELECT)"

lemma demo_closure:
  "\<exists>x. explore_combinatorial_maximum demo_hash demo_cut_graph [''a''] demo_cut_context default_bounds =
     Inr x \<and> xo_graph_digest x = graph_digest demo_hash demo_cut_graph \<and> \<not> xo_truncated x \<and>
     xo_paths x = [demo_path] \<and>
     xo_irreversible_frontier x = [frontier_of demo_hash demo_path demo_do
       (edge_verdict demo_do CANDIDATE True ''LAWFUL_EDGE_ADMITTED'')]"
  by (simp add: demo_graph_eval demo_cut_graph_def demo_cut_context_def demo_do_def demo_path_def
      Let_def consequence_binding_attributes_def read_consequence_binding_def binding_json_def
      validate_binding_def string_field_def binding_fields_def demo_binding_def)

lemma demo_cut:
  "\<exists>x s. explore_combinatorial_maximum demo_hash demo_cut_graph [''a''] demo_cut_context default_bounds =
     Inr x \<and> select_irreversible_cut demo_hash (\<lambda>t. ''t'') 0 demo_cut_graph x
       (path_id demo_hash demo_path) ''bc'' (br_action demo_request) (br_prepared demo_request)
       (br_grant demo_request) ''urn:selector'' [''urn:basis''] (Some ''7'') = Inr s"
proof -
  obtain x where x: "explore_combinatorial_maximum demo_hash demo_cut_graph [''a'']
      demo_cut_context default_bounds = Inr x"
    "xo_graph_digest x = graph_digest demo_hash demo_cut_graph" "\<not> xo_truncated x"
    "xo_irreversible_frontier x = [frontier_of demo_hash demo_path demo_do
       (edge_verdict demo_do CANDIDATE True ''LAWFUL_EDGE_ADMITTED'')]"
    using demo_closure by blast
  have req: "br_current_revision demo_request = Some ''7''"
    "ac_semantic_id (br_action demo_request) = ''urn:open''"
    "ac_capability_ref (br_action demo_request) = ''urn:gymact:memory:capability:set''"
    "pa_action_ref (br_prepared demo_request) = ''urn:open''"
    "sr_semantic_id (pa_subject (br_prepared demo_request)) = ''urn:door''"
    by (simp_all add: demo_request_defs)
  have "\<exists>s. select_irreversible_cut demo_hash (\<lambda>t. ''t'') 0 demo_cut_graph x
       (path_id demo_hash demo_path) ''bc'' (br_action demo_request) (br_prepared demo_request)
       (br_grant demo_request) ''urn:selector'' [''urn:basis''] (Some ''7'') = Inr s"
    using x(2-4) demo_request_closes [unfolded req]
    by (simp add: select_irreversible_cut_def frontier_of_def demo_cut_graph_def demo_do_def
        demo_edge_def demo_graph_def edge_verdict_def admit_execution_iff req Let_def
        validate_selection_def require_nonempty_def graph_digest_def path_id_def demo_hash_def
        del: demo_digest.simps)
  with x(1) show ?thesis by blast
qed



section \<open>Binding\<close>

text \<open>C22: a selection can be turned into a broker request with the action, intent and grant
  it was made from; with others it can only if they have the same identities and the same
  prepared and grant digests, so any change of the intent or the grant is refused unless
  the digest function collides.\<close>

theorem cut_binds_request:
  assumes "select_irreversible_cut H fmt now graph x path morphism action prepared grant selector
      basis current = Inr s"
  shows "(\<exists>q. manufacture_broker_request H fmt s action prepared grant revision expected = Inr q) \<and>
    (\<forall>action' prepared' grant' q.
       manufacture_broker_request H fmt s action' prepared' grant' revision expected = Inr q \<longrightarrow>
       ac_semantic_id action' = ac_semantic_id action \<and>
       ac_capability_ref action' = ac_capability_ref action \<and>
       (prepared_json prepared' = prepared_json prepared \<or>
          collision H (prepared_json prepared') (prepared_json prepared)) \<and>
       (grant_json fmt grant' = grant_json fmt grant \<or>
          collision H (grant_json fmt grant') (grant_json fmt grant)))"
  using assms
proof (rule select_irreversible_cut_InrD)
  assume s: "verify_digest H s" "si_action_ref s = ac_semantic_id action"
    "si_capability_ref s = ac_capability_ref action"
    "si_subject_ref s = sr_semantic_id (pa_subject prepared)"
    "si_prepared_digest s = H (prepared_json prepared)"
    "si_grant_digest s = H (grant_json fmt grant)"
  then show ?thesis
    by (auto simp: manufacture_broker_request_def require_exact_cut_binding_def Let_def
        collision_def split: if_splits)
qed

theorem cut_binds_request_witness:
  "\<exists>s q. manufacture_broker_request demo_hash (\<lambda>t. ''t'') s (br_action demo_request)
     (br_prepared demo_request) (br_grant demo_request) (Some ''7'') None = Inr q"
proof -
  obtain x s where
    "select_irreversible_cut demo_hash (\<lambda>t. ''t'') 0 demo_cut_graph x
       (path_id demo_hash demo_path) ''bc'' (br_action demo_request) (br_prepared demo_request)
       (br_grant demo_request) ''urn:selector'' [''urn:basis''] (Some ''7'') = Inr s"
    using demo_cut by blast
  from cut_binds_request [OF this, of "Some ''7''" None] show ?thesis by blast
qed

section \<open>Execution\<close>

text \<open>A transition the combinatorial broker returns ends in a recorded receipt that carries
  the graph, closure, path, edge and selection of the cut and names the broker's own
  receipt as its last parent; the transition's standing is the broker's.\<close>

theorem cut_receipted:
  assumes "reachable cfg g" "combinatorial_execute kind cfg q moment g = (Inr t, g')"
  shows "\<exists>u g1. broker_execute kind cfg (cq_broker_request q) moment g = (Inr u, g1) \<and>
    vt_standing t = vt_standing u \<and> in_ledger g' (vt_receipt t) \<and>
    rc_selection_digest (vt_receipt t) = Some (si_selection_digest (cq_selection q)) \<and>
    rc_possibility_graph_digest (vt_receipt t) = Some (si_graph_digest (cq_selection q)) \<and>
    rc_possibility_exploration_digest (vt_receipt t) =
      Some (si_exploration_digest (cq_selection q)) \<and>
    rc_possibility_path_id (vt_receipt t) = Some (si_path_id (cq_selection q)) \<and>
    rc_possibility_morphism_id (vt_receipt t) = Some (si_morphism_id (cq_selection q)) \<and>
    rc_parent_receipt_ids (vt_receipt t) =
      rc_parent_receipt_ids (vt_receipt u) @ [rc_receipt_id (vt_receipt u)]"
proof -
  from assms(2) obtain u g1 s where
    u: "broker_execute kind cfg (cq_broker_request q) moment g = (Inr u, g1)"
    and rec: "record_built cfg (cut_receipt cfg g1 (cq_selection q) (vt_receipt u)) (tick g1) = (Inr s, g')"
    and t: "t = u\<lparr>vt_receipt := cut_receipt cfg g1 (cq_selection q) (vt_receipt u)\<rparr>"
    unfolding combinatorial_execute_def Let_def by (auto elim!: bind_act_InrE)
  have "gym_inv cfg g1"
    by (rule gym_steps_inv [OF broker_execute_steps [OF u] reachable_inv [OF assms(1)]])
  from record_built_step [OF rec this] have "in_ledger g' (vt_receipt t)" by (simp add: t)
  with u show ?thesis by (intro exI [of _ u] exI [of _ g1]) (simp add: t cut_receipt_def)
qed

definition demo_selection :: irreversible_selection where
  "demo_selection = \<lparr>si_graph_digest = ''graph'', si_exploration_digest = ''closure'',
     si_path_id = ''path'', si_morphism_id = ''bc'', si_target_id = ''c'', si_action_ref = ''urn:open'',
     si_capability_ref = ''urn:gymact:memory:capability:set'', si_subject_ref = ''urn:door'',
     si_prepared_digest = ''intent'', si_grant_digest = ''grant'',
     si_selector_ref = ''urn:selector'', si_basis_refs = [''urn:basis''],
     si_selection_digest = ''selection''\<rparr>"

definition demo_cut_request :: combinatorial_request where
  "demo_cut_request = \<lparr>cq_selection = demo_selection, cq_broker_request = demo_request\<rparr>"

lemma demo_cut_executes:
  "case combinatorial_execute Production_runtime demo demo_cut_request 0 demo_g2 of
     (Inr t, g) \<Rightarrow> vt_standing t = ALIVE | (Inl e, g) \<Rightarrow> False"
proof -
  have "ai_episode_id demo_act = ''u''" "br_expected demo_request = [(''door'', JStr ''open'')]"
    "ar_accepted demo_result"
    by (simp_all add: demo_act_def demo_set_def demo_e1_def demo_request_def demo_result_def)
  then show ?thesis
    unfolding combinatorial_execute_def demo_cut_request_def combinatorial_request.simps
      broker_execute_def execute_admitted_def demo_intent_is_act
    by (simp add: admit_execution_iff demo_request_closes execute_verified_def
        demo_act_eq bind_act_def require_canonical_json_def actuation_intent_json_def)
      (simp add: demo_eval demo_verify_eval transition_verified_def record_built_def
        combinatorial_binding_is_atomic_def receipt_core_def verification_receipt_def
        follow_up_def bound_receipt_def grant_fields_def demo_request_defs demo_result_def demo_r2_def
        cut_receipt_def demo_selection_def
        del: demo_digest.simps)
qed

theorem cut_receipted_witness:
  "\<exists>t g. combinatorial_execute Production_runtime demo demo_cut_request 0 demo_g2 = (Inr t, g) \<and>
     vt_standing t = ALIVE \<and> in_ledger g (vt_receipt t) \<and>
     rc_selection_digest (vt_receipt t) = Some ''selection''"
proof (cases "combinatorial_execute Production_runtime demo demo_cut_request 0 demo_g2")
  case (Pair x g)
  with demo_cut_executes obtain t where t: "x = Inr t" "vt_standing t = ALIVE"
    by (cases x) simp_all
  with Pair have run: "combinatorial_execute Production_runtime demo demo_cut_request 0 demo_g2 =
      (Inr t, g)" by simp
  have "si_selection_digest (cq_selection demo_cut_request) = ''selection''"
    by (simp add: demo_cut_request_def demo_selection_def)
  with cut_receipted [OF reachable_demo(1) run] t(2) run show ?thesis
    by (intro exI conjI) auto
qed

section \<open>Compiled routes\<close>

lemma verify_content_identity_InrD: "verify_content_identity H r = Inr r' \<Longrightarrow> r' = r"
  by (auto simp: verify_content_identity_def bind_res_Inr_iff split: if_splits)

text \<open>A compiled route is admitted on the exploration it was compiled from, under its own
  identity; and wherever a route is admitted later, the identity is the same and the
  current exploration still has the very route and the very DO edge. It never names a grant:
  its standing is CANDIDATE.\<close>

theorem recipe_round_trip:
  assumes "compile_graph_recipe H identity x path morphism receipts = Inr recipe"
  shows "ra_admitted (admit_graph_recipe H recipe identity x) \<and>
    (\<forall>current y. ra_admitted (admit_graph_recipe H recipe current y) \<longrightarrow>
       current = identity \<and> xo_graph_digest y = xo_graph_digest x \<and>
       (\<exists>p \<in> set (xo_paths y). path_id H p = path \<and>
          pp_morphism_ids p = gr_reversible_morphism_ids recipe) \<and>
       has_frontier y path morphism \<and>
       ra_standing (admit_graph_recipe H recipe current y) = CANDIDATE)"
proof -
  from assms obtain p where p: "xo_graph_digest x = ri_graph_digest identity"
    "find_path H x path = Some p" "has_frontier x path morphism"
    unfolding compile_graph_recipe_def by (auto split: if_splits option.splits)
  with assms obtain d where "recipe = \<lparr>gr_identity = identity, gr_path_id = path,
      gr_reversible_morphism_ids = pp_morphism_ids p, gr_irreversible_morphism_id = morphism,
      gr_source_receipt_refs = receipts, gr_recipe_digest = d, gr_standing = STRUCTURAL\<rparr>"
    unfolding compile_graph_recipe_def
    by (auto simp: Let_def split: if_splits dest!: verify_content_identity_InrD)
  then have r: "gr_identity recipe = identity" "gr_path_id recipe = path"
    "gr_irreversible_morphism_id recipe = morphism"
    "gr_reversible_morphism_ids recipe = pp_morphism_ids p"
    by simp_all
  have find: "\<exists>p \<in> set (xo_paths y). path_id H p = path \<and> pp_morphism_ids p = ids"
    if "map_option pp_morphism_ids (find_path H y path) = Some ids" for y ids
    using that find_SomeD unfolding find_path_def by fastforce
  show ?thesis
    using p r find by (auto simp: admit_graph_recipe_def recipe_stale_def split: if_splits)
qed

definition demo_identity :: recipe_identity where
  "demo_identity = \<lparr>ri_problem_identity = ''p'', ri_environment_identity = ''e'',
     ri_authority_class = ''a'', ri_policy_revision = ''r'', ri_verifier_ref = ''v'',
     ri_input_contract_digest = ''i'', ri_graph_digest = graph_digest demo_hash demo_cut_graph\<rparr>"

theorem recipe_round_trip_witness:
  "\<exists>x recipe. compile_graph_recipe demo_hash demo_identity x (path_id demo_hash demo_path) ''bc''
      [''urn:receipt''] = Inr recipe \<and>
    ra_admitted (admit_graph_recipe demo_hash recipe demo_identity x)"
proof -
  obtain x :: exploration_result where x: "xo_graph_digest x = graph_digest demo_hash demo_cut_graph"
    "xo_paths x = [demo_path]"
    "xo_irreversible_frontier x = [frontier_of demo_hash demo_path demo_do
       (edge_verdict demo_do CANDIDATE True ''LAWFUL_EDGE_ADMITTED'')]"
    using demo_closure by blast
  have "\<exists>recipe. compile_graph_recipe demo_hash demo_identity x (path_id demo_hash demo_path) ''bc''
      [''urn:receipt''] = Inr recipe"
    using x by (simp add: compile_graph_recipe_def demo_identity_def find_path_def has_frontier_def
        frontier_of_def demo_do_def demo_edge_def verify_content_identity_def Let_def
        require_nonempty_def demo_path_def extend_path_def single_path_def demo_hash_def
        path_id_def recipe_payload_def del: demo_digest.simps)
  then obtain recipe where "compile_graph_recipe demo_hash demo_identity x
      (path_id demo_hash demo_path) ''bc'' [''urn:receipt''] = Inr recipe" by blast
  with recipe_round_trip [OF this] show ?thesis by blast
qed

section \<open>What the cut does not check\<close>

text \<open>The selection never compares the semantic binding that the DO edge carries with the
  action it is selected for: if an edge can be cut for one action, it can be cut for any
  other action, intent and grant that close among themselves, whatever they name.\<close>

theorem cut_ignores_binding:
  assumes "select_irreversible_cut H fmt now graph x path morphism action prepared grant selector
      basis current = Inr s"
    and "closes action' prepared' grant' current' now"
    and "ac_semantic_id action' \<noteq> []" "ac_capability_ref action' \<noteq> []"
      "sr_semantic_id (pa_subject prepared') \<noteq> []" "\<forall>v. H v \<noteq> []"
  shows "\<exists>s'. select_irreversible_cut H fmt now graph x path morphism action' prepared' grant'
      selector basis current' = Inr s' \<and> si_action_ref s' = ac_semantic_id action'"
proof -
  have adm: "am_admitted (admit_execution action' prepared' grant' current' now)"
    using assms(2) by (simp add: admit_execution_iff)
  have act: "pa_action_ref prepared' = ac_semantic_id action'"
    using assms(2) by (simp add: closes_def)
  from assms(1) have ok: "path \<noteq> []" "morphism \<noteq> []" "selector \<noteq> []"
    "\<not> list_ex (\<lambda>ref. CHR '':'' \<notin> set ref) basis"
    unfolding select_irreversible_cut_def validate_selection_def require_nonempty_def
    by (auto simp: Let_def split: if_splits option.splits)
  show ?thesis
    using assms(1) adm act ok assms(3-6)
    unfolding select_irreversible_cut_def validate_selection_def require_nonempty_def
    by (auto simp: Let_def graph_digest_def split: if_splits option.splits)
qed

theorem cut_ignores_binding_witness:
  "\<exists>x s. select_irreversible_cut demo_hash (\<lambda>t. ''t'') 0 demo_cut_graph x
     (path_id demo_hash demo_path) ''bc'' (br_action demo_request) (br_prepared demo_request)
     (br_grant demo_request) ''urn:selector'' [''urn:basis''] (Some ''7'') = Inr s \<and>
   si_action_ref s = ''urn:open'' \<and>
   read_consequence_binding (pm_attributes demo_do) = Inr (Some demo_binding) \<and>
   cb_action_ref demo_binding = ''urn:close''"
proof -
  obtain x s where s: "select_irreversible_cut demo_hash (\<lambda>t. ''t'') 0 demo_cut_graph x
       (path_id demo_hash demo_path) ''bc'' (br_action demo_request) (br_prepared demo_request)
       (br_grant demo_request) ''urn:selector'' [''urn:basis''] (Some ''7'') = Inr s"
    using demo_cut by blast
  have "closes (br_action demo_request) (br_prepared demo_request) (br_grant demo_request)
      (Some ''7'') 0"
    using demo_request_closes by (simp add: demo_request_def)
  from cut_ignores_binding [OF s this] obtain s' where
    "select_irreversible_cut demo_hash (\<lambda>t. ''t'') 0 demo_cut_graph x
       (path_id demo_hash demo_path) ''bc'' (br_action demo_request) (br_prepared demo_request)
       (br_grant demo_request) ''urn:selector'' [''urn:basis''] (Some ''7'') = Inr s'"
    "si_action_ref s' = ac_semantic_id (br_action demo_request)"
    by (auto simp: demo_request_defs demo_hash_def)
  moreover have "read_consequence_binding (pm_attributes demo_do) = Inr (Some demo_binding)"
    by (simp add: read_consequence_binding_def demo_do_def consequence_binding_attributes_def
        binding_json_def validate_binding_def string_field_def binding_fields_def demo_binding_def)
  ultimately show ?thesis by (auto simp: demo_request_defs demo_binding_def)
qed

end
