(* ===== verification/Powl_Algebra.thy ===== *)
theory Powl_Algebra
  imports Prelude Json
begin

text \<open>
  The POWL 2.0 node algebra (\<open>powl/algebra.py\<close>, \<open>frequency.py\<close>, \<open>refusals.py\<close>,
  \<open>bounds.py\<close>): the six node kinds, the constructors with their refusals, the closure
  (Warshall's loop, in place) and the transitive reduction of a precedence relation.

  Indices are naturals: a negative one is refused by the range check that refuses one past
  the end. An edge set is a set, or, for choice graphs whose edges the executor sorts, a
  list without repetitions. A refusal is its code; the detail text is not modelled.
\<close>

section \<open>Refusals, frequencies, bounds\<close>

datatype refusal =
    CYCLIC_PARTIAL_ORDER | INVALID_CHOICE | INVALID_CHOICE_ARITY | IRREDUCIBLE_PROJECTION
  | LANGUAGE_MISMATCH | CHOICE_GRAPH_DISCONNECTED | MULTI_BOUNDARY_CHOICE_GRAPH
  | DEPTH_EXCEEDED | DANGLING_REFERENCE | NOT_TRANSITIVELY_REDUCED | EDGE_TYPE_MISMATCH
  | INVALID_PARTIAL_ORDER_ARITY | INVALID_FREQUENCY | PROHIBITED_NODE_KIND | BOUND_EXHAUSTED
  | AMBIGUOUS_CHOICE_GUARD | NO_GUARD_MATCHED | TRANSITION_BUDGET_EXHAUSTED
  | ATOM_INVOCATION_FAILED | CHECKPOINT_NODE_MISMATCH | CHILD_EXECUTION_FAILED

type_synonym 'a verdict = "refusal + 'a"

text \<open>\<open>if condition: raise PowlError(refusal)\<close>\<close>

definition refuse_if :: "bool \<Rightarrow> refusal \<Rightarrow> unit verdict" where
  "refuse_if b r = (if b then Inl r else Inr ())"

record frequency =
  fq_min :: int
  fq_max :: "int option"

definition ONCE :: frequency where "ONCE = \<lparr>fq_min = 1, fq_max = Some 1\<rparr>"
definition OPTIONAL :: frequency where "OPTIONAL = \<lparr>fq_min = 0, fq_max = Some 1\<rparr>"
definition ONE_OR_MORE :: frequency where "ONE_OR_MORE = \<lparr>fq_min = 1, fq_max = None\<rparr>"
definition ZERO_OR_MORE :: frequency where "ZERO_OR_MORE = \<lparr>fq_min = 0, fq_max = None\<rparr>"

definition validate_frequency :: "frequency \<Rightarrow> unit verdict" where
  "validate_frequency f =
     refuse_if (fq_min f < 0 \<or> (case fq_max f of None \<Rightarrow> False | Some m \<Rightarrow> m < fq_min f))
       INVALID_FREQUENCY"

definition allows :: "frequency \<Rightarrow> nat \<Rightarrow> bool" where
  "allows f n \<longleftrightarrow>
     fq_min f \<le> int n \<and> (case fq_max f of None \<Rightarrow> True | Some m \<Rightarrow> int n \<le> m)"

definition is_skippable :: "frequency \<Rightarrow> bool" where
  "is_skippable f \<longleftrightarrow> fq_min f = 0"

definition is_unbounded :: "frequency \<Rightarrow> bool" where
  "is_unbounded f \<longleftrightarrow> fq_max f = None"

record execution_bound =
  eb_max_activity_fires :: nat
  eb_max_node_visits :: nat
  eb_max_marking_states :: nat

definition default_bound :: execution_bound where
  "default_bound = \<lparr>eb_max_activity_fires = 1024, eb_max_node_visits = 4096,
     eb_max_marking_states = 8192\<rparr>"

section \<open>Nodes\<close>

datatype atom_consequence = ATOM_PURE | ATOM_READ | ATOM_DO | ATOM_VERIFY

fun atom_consequence_value :: "atom_consequence \<Rightarrow> string" where
  "atom_consequence_value ATOM_PURE = ''PURE''"
| "atom_consequence_value ATOM_READ = ''READ''"
| "atom_consequence_value ATOM_DO = ''DO''"
| "atom_consequence_value ATOM_VERIFY = ''VERIFY''"

text \<open>
  \<open>action\<close> is what \<open>_action_identity\<close> makes of the opaque payload, the only thing the code
  ever reads of it.
\<close>

record atom_node =
  at_label :: string
  at_action :: string
  at_bindings :: dict
  at_consequence :: atom_consequence

record guard =
  gd_predicate_name :: string
  gd_predicate_args :: dict

record choice_edge =
  ce_src :: nat
  ce_dst :: nat
  ce_guard :: "guard option"

type_synonym order_edges = "(nat \<times> nat) set"

datatype powl =
    Start | End | Silent
  | Atom atom_node
  | PartialOrder "powl list" order_edges order_edges frequency
  | ChoiceGraph "powl list" "choice_edge list" nat nat frequency

text \<open>The two composites hold children; \<open>children\<close> is \<open>[]\<close> on the leaves.\<close>

fun children :: "powl \<Rightarrow> powl list" where
  "children (PartialOrder cs _ _ _) = cs"
| "children (ChoiceGraph cs _ _ _ _) = cs"
| "children _ = []"

fun is_leaf :: "powl \<Rightarrow> bool" where
  "is_leaf (PartialOrder _ _ _ _) = False"
| "is_leaf (ChoiceGraph _ _ _ _ _) = False"
| "is_leaf _ = True"

lemma size_child [termination_simp]: "c \<in> set cs \<Longrightarrow> size c < Suc (size_list size cs)"
  by (induction cs) auto

lemma size_nth [termination_simp]: "i < length cs \<Longrightarrow> size (cs ! i) < Suc (size_list size cs)"
  by (simp add: size_child)

section \<open>Closure and reduction\<close>

type_synonym matrix = "bool list list"

text \<open>
  \<open>_reachability\<close>: the rows of the edges, then Warshall's triple loop in place. The inner
  loop over \<open>j\<close> is the disjunction of row \<open>k\<close> into row \<open>i\<close> (when \<open>i = k\<close> the rows are one
  list and nothing changes).
\<close>

definition edge_matrix :: "order_edges \<Rightarrow> nat \<Rightarrow> matrix" where
  "edge_matrix edges n = map (\<lambda>i. map (\<lambda>j. (i, j) \<in> edges) [0..<n]) [0..<n]"

definition relax_row :: "nat \<Rightarrow> nat \<Rightarrow> matrix \<Rightarrow> matrix" where
  "relax_row k i m = (if m ! i ! k then m[i := map2 (\<or>) (m ! i) (m ! k)] else m)"

definition reachability :: "order_edges \<Rightarrow> nat \<Rightarrow> matrix" where
  "reachability edges n =
     fold (\<lambda>k m. fold (relax_row k) [0..<n] m) [0..<n] (edge_matrix edges n)"

definition check_edges :: "order_edges \<Rightarrow> nat \<Rightarrow> unit verdict" where
  "check_edges edges n =
     refuse_if (\<exists>e \<in> edges. \<not> (fst e < n \<and> snd e < n)) DANGLING_REFERENCE"

definition index_pairs :: "nat \<Rightarrow> (nat \<times> nat) list" where
  "index_pairs n = List.product [0..<n] [0..<n]"

definition transitive_closure :: "order_edges \<Rightarrow> nat \<Rightarrow> order_edges verdict" where
  "transitive_closure edges n =
     bind_res (check_edges edges n) (\<lambda>_.
       let reach = reachability edges n
       in if list_ex (\<lambda>i. reach ! i ! i) [0..<n] then Inl CYCLIC_PARTIAL_ORDER
          else Inr (set (filter (\<lambda>(i, j). reach ! i ! j) (index_pairs n))))"

definition transitive_reduction :: "order_edges \<Rightarrow> nat \<Rightarrow> order_edges verdict" where
  "transitive_reduction edges n =
     bind_res (transitive_closure edges n) (\<lambda>closure.
       Inr (Set.filter (\<lambda>(i, j).
         \<not> list_ex (\<lambda>k. k \<noteq> i \<and> k \<noteq> j \<and> (i, k) \<in> closure \<and> (k, j) \<in> closure) [0..<n]) closure))"

section \<open>Constructors\<close>

definition MAX_POWL_DEPTH :: nat where "MAX_POWL_DEPTH = 8"

fun node_depth :: "powl \<Rightarrow> nat" where
  "node_depth (PartialOrder cs _ _ _) = Suc (fold max (map node_depth cs) 0)"
| "node_depth (ChoiceGraph cs _ _ _ _) = Suc (fold max (map node_depth cs) 0)"
| "node_depth _ = 1"

definition composite_depth :: "powl list \<Rightarrow> nat verdict" where
  "composite_depth cs =
     (let depth = Suc (fold max (map node_depth cs) 0)
      in if depth > MAX_POWL_DEPTH then Inl DEPTH_EXCEEDED else Inr depth)"

definition make_partial_order :: "powl list \<Rightarrow> order_edges \<Rightarrow> frequency \<Rightarrow> powl verdict" where
  "make_partial_order cs order fq =
     (let n = length cs
      in bind_res (refuse_if (n < 2) INVALID_PARTIAL_ORDER_ARITY) (\<lambda>_.
         bind_res (check_edges order n) (\<lambda>_.
         bind_res (transitive_closure order n) (\<lambda>closure.
         bind_res (transitive_reduction closure n) (\<lambda>reduction.
         bind_res (composite_depth cs) (\<lambda>_. Inr (PartialOrder cs reduction closure fq)))))))"

definition edges_in_range :: "choice_edge list \<Rightarrow> nat \<Rightarrow> unit verdict" where
  "edges_in_range es n =
     refuse_if (list_ex (\<lambda>e. \<not> (ce_src e < n \<and> ce_dst e < n)) es) DANGLING_REFERENCE"

definition boundaries_ok :: "choice_edge list \<Rightarrow> nat \<Rightarrow> nat \<Rightarrow> unit verdict" where
  "boundaries_ok es start end =
     refuse_if (start = end \<or> list_ex (\<lambda>e. ce_dst e = start \<or> ce_src e = end) es)
       MULTI_BOUNDARY_CHOICE_GRAPH"

definition make_choice_graph ::
    "powl list \<Rightarrow> choice_edge list \<Rightarrow> nat \<Rightarrow> nat \<Rightarrow> frequency \<Rightarrow> powl verdict" where
  "make_choice_graph cs es start end fq =
     (let n = length cs
      in bind_res (refuse_if (n < 2) INVALID_CHOICE_ARITY) (\<lambda>_.
         bind_res (edges_in_range es n) (\<lambda>_.
         bind_res (refuse_if (\<not> (start < n \<and> end < n)) DANGLING_REFERENCE) (\<lambda>_.
         bind_res (boundaries_ok es start end) (\<lambda>_.
         bind_res (composite_depth cs) (\<lambda>_.
           Inr (ChoiceGraph cs (remdups es) start end fq)))))))"

end
