(* ===== verification/Powl_Order.thy ===== *)
theory Powl_Order
  imports Powl_Algebra
begin

text \<open>
  What the edge algebra of POWL computes: Warshall's loop is the transitive closure, the
  closure exists exactly for acyclic relations, and the reduction is the least relation with
  that closure.
\<close>

section \<open>Warshall's loop\<close>

definition square :: "nat \<Rightarrow> matrix \<Rightarrow> bool" where
  "square n m \<longleftrightarrow> length m = n \<and> (\<forall>row \<in> set m. length row = n)"

lemma square_row [simp]: "square n m \<Longrightarrow> i < n \<Longrightarrow> length (m ! i) = n"
  by (auto simp: square_def)

lemma square_relax_row [simp]:
  assumes "square n m" "i < n" "k < n"
  shows "square n (relax_row k i m)"
proof -
  have "length row = n" if "row \<in> set (m[i := map2 (\<or>) (m ! i) (m ! k)])" for row
    using that assms set_update_subset_insert [of m i "map2 (\<or>) (m ! i) (m ! k)"]
    by (auto simp: square_def)
  with assms show ?thesis by (auto simp: relax_row_def square_def)
qed

lemma relax_row_entry:
  assumes "square n m" "i < n" "k < n" "a < n" "b < n"
  shows "relax_row k i m ! a ! b \<longleftrightarrow> m ! a ! b \<or> (a = i \<and> m ! i ! k \<and> m ! k ! b)"
  using assms by (auto simp: relax_row_def nth_list_update square_def)

lemma relax_rows:
  assumes "square n m" "k < n" "p \<le> n"
  shows "square n (fold (relax_row k) [0..<p] m) \<and>
    (\<forall>a < n. \<forall>b < n. fold (relax_row k) [0..<p] m ! a ! b \<longleftrightarrow>
       m ! a ! b \<or> (a < p \<and> m ! a ! k \<and> m ! k ! b))"
  using assms(3)
proof (induction p)
  case 0
  with assms show ?case by simp
next
  case (Suc p)
  let ?f = "fold (relax_row k) [0..<p] m"
  from Suc have IH: "square n ?f"
    "\<And>a b. a < n \<Longrightarrow> b < n \<Longrightarrow>
       ?f ! a ! b \<longleftrightarrow> m ! a ! b \<or> (a < p \<and> m ! a ! k \<and> m ! k ! b)"
    by auto
  have "relax_row k p ?f ! a ! b \<longleftrightarrow> m ! a ! b \<or> (a < Suc p \<and> m ! a ! k \<and> m ! k ! b)"
    if "a < n" "b < n" for a b
    using that Suc.prems assms(2) IH(2) [of a b] IH(2) [of p k] IH(2) [of k b]
    by (auto simp: relax_row_entry [OF IH(1)] less_Suc_eq)
  with IH(1) Suc.prems assms(2) show ?case by simp
qed

definition entries :: "nat \<Rightarrow> matrix \<Rightarrow> (nat \<times> nat) set" where
  "entries n m = {(a, b). a < n \<and> b < n \<and> m ! a ! b}"

lemma relax_all_rows:
  assumes "square n m" "k < n"
  shows "square n (fold (relax_row k) [0..<n] m)"
    "entries n (fold (relax_row k) [0..<n] m) =
       entries n m \<union> {(a, b). (a, k) \<in> entries n m \<and> (k, b) \<in> entries n m}"
  using relax_rows [OF assms order_refl] assms(2) by (auto simp: entries_def)

text \<open>\<open>k\<close> can be left out of any path: the relation composes through every index below \<open>k\<close>.\<close>

definition composes_below :: "nat \<Rightarrow> ('a::linorder \<times> 'a) set \<Rightarrow> 'a set \<Rightarrow> bool" where
  "composes_below k r ms \<longleftrightarrow> (\<forall>m \<in> ms. \<forall>a b. (a, m) \<in> r \<longrightarrow> (m, b) \<in> r \<longrightarrow> (a, b) \<in> r)"

lemma reachability_invariant:
  assumes "p \<le> n" "square n m"
  defines "f \<equiv> fold (\<lambda>k m. fold (relax_row k) [0..<n] m) [0..<p] m"
  shows "square n f \<and> entries n m \<subseteq> entries n f \<and> entries n f \<subseteq> (entries n m)\<^sup>+ \<and>
    composes_below p (entries n f) {..<p}"
  using assms(1) unfolding f_def
proof (induction p)
  case 0
  show ?case using assms(2) by (auto simp: composes_below_def)
next
  case (Suc p)
  let ?g = "fold (\<lambda>k m. fold (relax_row k) [0..<n] m) [0..<p] m"
  let ?h = "fold (relax_row p) [0..<n] ?g"
  from Suc have IH: "square n ?g" "entries n m \<subseteq> entries n ?g" "entries n ?g \<subseteq> (entries n m)\<^sup>+"
    "composes_below p (entries n ?g) {..<p}"
    by auto
  from Suc.prems have "p < n" by simp
  note step = relax_all_rows [OF IH(1) this]
  have "entries n ?h \<subseteq> (entries n m)\<^sup>+"
    using IH(3) unfolding step(2) by (auto intro: trancl_trans)
  moreover have "composes_below (Suc p) (entries n ?h) {..<Suc p}"
    using IH(4) unfolding step(2) composes_below_def lessThan_Suc by blast
  moreover have "entries n m \<subseteq> entries n ?h"
    using IH(2) unfolding step(2) by blast
  ultimately show ?case using step(1) by simp
qed

lemma entries_edge_matrix:
  "entries n (edge_matrix edges n) = edges \<inter> {..<n} \<times> {..<n}"
  "square n (edge_matrix edges n)"
  by (auto simp: entries_def edge_matrix_def square_def)

lemma trancl_bounded: "r \<subseteq> {..<n} \<times> {..<n} \<Longrightarrow> r\<^sup>+ \<subseteq> {..<n} \<times> {..<n}"
  by (rule trancl_subset_Sigma)

theorem reachability_closure:
  assumes "edges \<subseteq> {..<n} \<times> {..<n}"
  shows "entries n (reachability edges n) = edges\<^sup>+"
proof -
  let ?r = "entries n (reachability edges n)"
  have base: "entries n (edge_matrix edges n) = edges"
    using assms by (auto simp: entries_edge_matrix)
  have inv: "edges \<subseteq> ?r" "?r \<subseteq> edges\<^sup>+" "composes_below n ?r {..<n}"
    using reachability_invariant [OF order_refl entries_edge_matrix(2) [of n edges]]
    unfolding base reachability_def by auto
  have "trans ?r"
  proof (rule transI)
    fix a b c
    assume "(a, b) \<in> ?r" "(b, c) \<in> ?r"
    moreover have "b < n" using calculation by (auto simp: entries_def)
    ultimately show "(a, c) \<in> ?r" using inv(3) by (auto simp: composes_below_def)
  qed
  then have "?r\<^sup>+ = ?r" by (rule trancl_id)
  with inv(1,2) trancl_mono_subset [OF inv(1)] show ?thesis by auto
qed

section \<open>The closure\<close>

lemma check_edges_iff: "check_edges edges n = Inr () \<longleftrightarrow> edges \<subseteq> {..<n} \<times> {..<n}"
  by (auto simp: check_edges_def refuse_if_def)

lemma transitive_closure_cases:
  "transitive_closure edges n =
     (if \<not> edges \<subseteq> {..<n} \<times> {..<n} then Inl DANGLING_REFERENCE
      else if acyclic edges then Inr (edges\<^sup>+) else Inl CYCLIC_PARTIAL_ORDER)"
proof (cases "edges \<subseteq> {..<n} \<times> {..<n}")
  case True
  let ?m = "reachability edges n"
  have m: "?m ! a ! b \<longleftrightarrow> (a, b) \<in> edges\<^sup>+" if "a < n" "b < n" for a b
    using reachability_closure [OF True] that by (auto simp: entries_def)
  have within: "edges\<^sup>+ \<subseteq> {..<n} \<times> {..<n}" by (rule trancl_bounded [OF True])
  have "list_ex (\<lambda>i. ?m ! i ! i) [0..<n] \<longleftrightarrow> \<not> acyclic edges"
    using m within by (fastforce simp: list_ex_iff acyclic_def)
  moreover have "set (filter (\<lambda>(i, j). ?m ! i ! j) (index_pairs n)) = edges\<^sup>+"
    using m within by (auto simp: index_pairs_def)
  ultimately show ?thesis
    using True check_edges_iff [of edges n]
    by (simp add: transitive_closure_def)
next
  case False
  then show ?thesis
    by (auto simp: transitive_closure_def check_edges_def refuse_if_def)
qed

lemma transitive_closure_Inr:
  "transitive_closure edges n = Inr c \<longleftrightarrow>
     edges \<subseteq> {..<n} \<times> {..<n} \<and> acyclic edges \<and> c = edges\<^sup>+"
  by (auto simp: transitive_closure_cases)

section \<open>The reduction\<close>

text \<open>The pairs of a strict order that no third element separates.\<close>

definition covers :: "('a \<times> 'a) set \<Rightarrow> ('a \<times> 'a) set" where
  "covers c = {(i, j). (i, j) \<in> c \<and> \<not> (\<exists>k. (i, k) \<in> c \<and> (k, j) \<in> c)}"

lemma covers_trancl:
  assumes "finite c" "trans c" "irrefl c"
  shows "(covers c)\<^sup>+ = c"
proof
  have "covers c \<subseteq> c" by (auto simp: covers_def)
  with trancl_mono_subset [of "covers c" c] assms(2) show "(covers c)\<^sup>+ \<subseteq> c"
    by (simp add: trancl_id)
  let ?between = "\<lambda>i j. {k. (i, k) \<in> c \<and> (k, j) \<in> c}"
  have fin: "finite (?between i j)" for i j
    by (rule finite_subset [of _ "snd ` c"]) (force, simp add: assms(1))
  have "(i, j) \<in> (covers c)\<^sup>+" if "(i, j) \<in> c" for i j
    using that
  proof (induction "card (?between i j)" arbitrary: i j rule: less_induct)
    case less
    show ?case
    proof (cases "\<exists>k. (i, k) \<in> c \<and> (k, j) \<in> c")
      case True
      then obtain k where k: "(i, k) \<in> c" "(k, j) \<in> c" by blast
      have "?between i k \<subset> ?between i j" "?between k j \<subset> ?between i j"
        using k assms(2,3) by (auto simp: irrefl_def dest: transD)
      then have "card (?between i k) < card (?between i j)"
        "card (?between k j) < card (?between i j)"
        using fin psubset_card_mono by blast+
      with k less.hyps show ?thesis by (meson trancl_trans)
    next
      case False
      with less.prems show ?thesis by (auto simp: covers_def)
    qed
  qed
  then show "c \<subseteq> (covers c)\<^sup>+" by auto
qed

lemma covers_least:
  assumes "f\<^sup>+ = c"
  shows "covers c \<subseteq> f"
proof
  fix e assume e: "e \<in> covers c"
  obtain i j where ij: "e = (i, j)" by fastforce
  with e assms have "(i, j) \<in> f\<^sup>+" by (auto simp: covers_def)
  then show "e \<in> f"
  proof (cases rule: trancl.cases)
    case (trancl_into_trancl k)
    then have "(i, k) \<in> c" "(k, j) \<in> c" using assms by auto
    with e ij show ?thesis by (auto simp: covers_def)
  qed (use ij in auto)
qed

lemma covers_in_range:
  assumes "acyclic edges" "edges \<subseteq> {..<n} \<times> {..<n}"
  shows "Set.filter (\<lambda>(i, j). \<not> list_ex (\<lambda>k. k \<noteq> i \<and> k \<noteq> j \<and>
      (i, k) \<in> edges\<^sup>+ \<and> (k, j) \<in> edges\<^sup>+) [0..<n]) (edges\<^sup>+) = covers (edges\<^sup>+)"
proof -
  have "k < n \<and> k \<noteq> i \<and> k \<noteq> j" if "(i, k) \<in> edges\<^sup>+" "(k, j) \<in> edges\<^sup>+" for i j k
    using that assms trancl_bounded [OF assms(2)] by (auto simp: acyclic_def)
  then show ?thesis
    by (fastforce simp: covers_def list_ex_iff)
qed

lemma transitive_reduction_cases:
  "transitive_reduction edges n =
     (if \<not> edges \<subseteq> {..<n} \<times> {..<n} then Inl DANGLING_REFERENCE
      else if acyclic edges then Inr (covers (edges\<^sup>+)) else Inl CYCLIC_PARTIAL_ORDER)"
  using covers_in_range [of edges n]
  by (simp add: transitive_reduction_def transitive_closure_cases)

text \<open>What a strict order over \<open>n\<close> indices satisfies; the lemmas below are stated for it.\<close>

definition strict_order :: "nat \<Rightarrow> order_edges \<Rightarrow> bool" where
  "strict_order n c \<longleftrightarrow> c \<subseteq> {..<n} \<times> {..<n} \<and> trans c \<and> irrefl c"

lemma strict_order_finite: "strict_order n c \<Longrightarrow> finite c"
  unfolding strict_order_def by (metis finite_SigmaI finite_lessThan finite_subset)

lemma strict_order_closure:
  "edges \<subseteq> {..<n} \<times> {..<n} \<Longrightarrow> acyclic edges \<Longrightarrow> strict_order n (edges\<^sup>+)"
  using trancl_bounded [of edges n] by (simp add: strict_order_def acyclic_irrefl)

lemma strict_order_acyclic: "strict_order n c \<Longrightarrow> acyclic c"
  by (simp add: strict_order_def acyclic_irrefl trancl_id)

lemma strict_order_covers: "strict_order n c \<Longrightarrow> (covers c)\<^sup>+ = c"
  using strict_order_finite [of n c] by (simp add: strict_order_def covers_trancl)

lemma strict_order_minimal:
  assumes "strict_order n c" "s \<noteq> {}" "finite s"
  obtains i where "i \<in> s" "\<forall>j. (j, i) \<in> c \<longrightarrow> j \<notin> s"
proof -
  have "wf c"
    using assms(1) by (metis finite_acyclic_wf strict_order_acyclic strict_order_finite)
  with assms(2) show ?thesis using that by (metis wfE_min equals0I)
qed

text \<open>\<open>transitive_closure\<close> returns the transitive closure exactly when
  every index is in range and the relation is acyclic, and the refusal it raises otherwise
  says which; \<open>transitive_reduction\<close> succeeds on the same inputs, its result has the same
  closure, is contained in every relation with that closure and does not depend on which of
  them was given.\<close>

theorem closure_exact:
  "transitive_closure edges n =
     (if \<not> edges \<subseteq> {..<n} \<times> {..<n} then Inl DANGLING_REFERENCE
      else if acyclic edges then Inr (edges\<^sup>+) else Inl CYCLIC_PARTIAL_ORDER) \<and>
   (\<forall>c. transitive_closure edges n = Inr c \<longrightarrow>
      (\<exists>r. transitive_reduction edges n = Inr r \<and> r\<^sup>+ = c \<and> (\<forall>f. f\<^sup>+ = c \<longrightarrow>
         r \<subseteq> f \<and> transitive_reduction f n = Inr r)))"
proof -
  have "transitive_reduction edges n = Inr (covers c) \<and> (covers c)\<^sup>+ = c \<and>
      (\<forall>f. f\<^sup>+ = c \<longrightarrow> covers c \<subseteq> f \<and> transitive_reduction f n = Inr (covers c))"
    if "transitive_closure edges n = Inr c" for c
  proof -
    from that have e: "edges \<subseteq> {..<n} \<times> {..<n}" "acyclic edges" "c = edges\<^sup>+"
      by (simp_all add: transitive_closure_Inr)
    have so: "strict_order n c" using e strict_order_closure by simp
    have "f \<subseteq> {..<n} \<times> {..<n}" "acyclic f" if "f\<^sup>+ = c" for f
    proof -
      have "f \<subseteq> f\<^sup>+" by auto
      with that so show "f \<subseteq> {..<n} \<times> {..<n}" by (auto simp: strict_order_def)
      show "acyclic f" using that so by (simp add: strict_order_def acyclic_irrefl)
    qed
    with e strict_order_covers [OF so] covers_least [of _ c] show ?thesis
      by (simp add: transitive_reduction_cases)
  qed
  then show ?thesis by (auto simp: transitive_closure_cases)
qed

text \<open>The chain 0 before 1 before 2.\<close>

lemma demo_chain:
  "transitive_closure {(0, 1), (1, 2)} 3 = Inr {(0, 1), (0, 2), (1, 2)}"
  by (simp add: transitive_closure_def check_edges_def refuse_if_def reachability_def
      edge_matrix_def relax_row_def index_pairs_def upt_rec Let_def) auto

theorem closure_exact_witness:
  "\<exists>r. transitive_reduction {(0, 1), (1, 2)} 3 = Inr r \<and> r \<subseteq> {(0, 1), (1, 2)} \<and>
     transitive_reduction {(0, 1), (0, 2), (1, 2)} 3 = Inr r"
proof -
  let ?c = "{(0, 1), (0, 2), (1, 2)} :: order_edges"
  have c: "?c\<^sup>+ = ?c" by (rule trancl_id) (auto intro: transI)
  have e: "{(0, 1), (1, 2)}\<^sup>+ = ?c"
    using demo_chain by (simp add: transitive_closure_Inr)
  from closure_exact [of "{(0, 1), (1, 2)}" 3] demo_chain obtain r where
    r: "transitive_reduction {(0, 1), (1, 2)} 3 = Inr r"
      "\<forall>f. f\<^sup>+ = ?c \<longrightarrow> r \<subseteq> f \<and> transitive_reduction f 3 = Inr r" by blast
  with c e show ?thesis by blast
qed

end
