(* ===== verification/Powl_Validate.thy ===== *)
theory Powl_Validate
  imports Powl_Order
begin

text \<open>
  The independent validator (\<open>powl/validate.py\<close>): it re-derives every structural property
  from the stored fields. The theorem says that it accepts exactly the models that satisfy
  the declarative predicate \<open>powl_wf\<close>.
\<close>

section \<open>The validator\<close>

definition validate_closure :: "order_edges \<Rightarrow> nat \<Rightarrow> unit verdict" where
  "validate_closure closure n =
     bind_res (check_edges closure n) (\<lambda>_.
     bind_res (refuse_if (\<exists>e \<in> closure. fst e = snd e \<or> (snd e, fst e) \<in> closure)
       CYCLIC_PARTIAL_ORDER) (\<lambda>_.
     refuse_if (\<exists>e \<in> closure. \<exists>k \<in> {..<n}. (snd e, k) \<in> closure \<and> (fst e, k) \<notin> closure)
       NOT_TRANSITIVELY_REDUCED))"

definition validate_partial_order ::
    "powl list \<Rightarrow> order_edges \<Rightarrow> order_edges \<Rightarrow> frequency \<Rightarrow> unit verdict" where
  "validate_partial_order cs order closure fq =
     (let n = length cs
      in bind_res (refuse_if (n < 2) INVALID_PARTIAL_ORDER_ARITY) (\<lambda>_.
         bind_res (validate_frequency fq) (\<lambda>_.
         bind_res (check_edges order n) (\<lambda>_.
         bind_res (refuse_if (\<exists>e \<in> order. fst e = snd e) CYCLIC_PARTIAL_ORDER) (\<lambda>_.
         bind_res (transitive_reduction order n) (\<lambda>reduction.
         bind_res (refuse_if (reduction \<noteq> order) NOT_TRANSITIVELY_REDUCED) (\<lambda>_.
           validate_closure closure n)))))))"

text \<open>
  \<open>_validate_guard_exclusivity\<close>: at a node with a guarded outgoing edge, at most one edge is
  unguarded and no two carry the same guard.
\<close>

definition guards_ok :: "choice_edge list \<Rightarrow> nat \<Rightarrow> bool" where
  "guards_ok es src =
     (let outgoing = filter (\<lambda>e. ce_src e = src) es;
          guarded = filter (\<lambda>e. ce_guard e \<noteq> None) outgoing;
          unguarded = filter (\<lambda>e. ce_guard e = None) outgoing
      in length outgoing < 2 \<or> guarded = [] \<or>
         (length unguarded \<le> 1 \<and> distinct (map ce_guard guarded)))"

definition validate_guard_exclusivity :: "choice_edge list \<Rightarrow> nat \<Rightarrow> unit verdict" where
  "validate_guard_exclusivity es n =
     refuse_if (list_ex (\<lambda>src. \<not> guards_ok es src) [0..<n]) AMBIGUOUS_CHOICE_GUARD"

text \<open>
  \<open>_traverse\<close>: depth-first with an explicit stack (its top is the head). \<open>adj\<close> is the list
  of pairs the adjacency sets are built from.
\<close>

definition unseen :: "(nat \<times> nat) list \<Rightarrow> nat list \<Rightarrow> nat \<Rightarrow> nat list" where
  "unseen adj seen cur = remdups (filter (\<lambda>x. x \<notin> set seen)
     (map snd (filter (\<lambda>e. fst e = cur) adj)))"

function traverse_loop :: "(nat \<times> nat) list \<Rightarrow> nat list \<Rightarrow> nat list \<Rightarrow> nat list" where
  "traverse_loop adj seen [] = seen"
| "traverse_loop adj seen (cur # stack) =
     (let new = unseen adj seen cur
      in traverse_loop adj (new @ seen) (rev new @ stack))"
  by pat_completeness auto

lemma unseen_fewer:
  "card (set (map snd adj) - set (unseen adj seen cur @ seen)) + length (unseen adj seen cur) =
     card (set (map snd adj) - set seen)"
proof -
  let ?new = "unseen adj seen cur"
  have sub: "set ?new \<subseteq> set (map snd adj) - set seen" by (auto simp: unseen_def)
  have "set (map snd adj) - set (?new @ seen) = (set (map snd adj) - set seen) - set ?new" by auto
  moreover have "length ?new = card (set ?new)"
    by (simp add: unseen_def distinct_card [symmetric])
  ultimately show ?thesis
    using card_Diff_subset [OF _ sub] card_mono [OF _ sub] by simp
qed

termination traverse_loop
  by (relation "measure (\<lambda>(adj, seen, stack).
       card (set (map snd adj) - set seen) + length stack)")
    (use unseen_fewer in \<open>auto simp: Let_def add.commute less_Suc_eq_le\<close>)

definition traverse :: "nat \<Rightarrow> (nat \<times> nat) list \<Rightarrow> nat list" where
  "traverse origin adj = traverse_loop adj [origin] [origin]"

definition successors :: "choice_edge list \<Rightarrow> (nat \<times> nat) list" where
  "successors es = map (\<lambda>e. (ce_src e, ce_dst e)) es"

definition predecessors :: "choice_edge list \<Rightarrow> (nat \<times> nat) list" where
  "predecessors es = map (\<lambda>e. (ce_dst e, ce_src e)) es"

definition validate_choice_graph ::
    "powl list \<Rightarrow> choice_edge list \<Rightarrow> nat \<Rightarrow> nat \<Rightarrow> frequency \<Rightarrow> unit verdict" where
  "validate_choice_graph cs es start end fq =
     (let n = length cs
      in bind_res (refuse_if (n < 2) INVALID_CHOICE_ARITY) (\<lambda>_.
         bind_res (validate_frequency fq) (\<lambda>_.
         bind_res (edges_in_range es n) (\<lambda>_.
         bind_res (refuse_if (\<not> (start < n \<and> end < n)) DANGLING_REFERENCE) (\<lambda>_.
         bind_res (boundaries_ok es start end) (\<lambda>_.
         bind_res (validate_guard_exclusivity es n) (\<lambda>_.
           let forward = traverse start (successors es);
               backward = traverse end (predecessors es)
           in refuse_if (list_ex (\<lambda>i. i \<notin> set forward \<or> i \<notin> set backward) [0..<n])
                CHOICE_GRAPH_DISCONNECTED)))))))"

fun validate :: "nat \<Rightarrow> powl \<Rightarrow> unit verdict"
  and validate_all :: "nat \<Rightarrow> powl list \<Rightarrow> unit verdict" where
  "validate depth (PartialOrder cs order closure fq) =
     bind_res (refuse_if (depth > MAX_POWL_DEPTH) DEPTH_EXCEEDED) (\<lambda>_.
     bind_res (validate_partial_order cs order closure fq) (\<lambda>_. validate_all (Suc depth) cs))"
| "validate depth (ChoiceGraph cs es start end fq) =
     bind_res (refuse_if (depth > MAX_POWL_DEPTH) DEPTH_EXCEEDED) (\<lambda>_.
     bind_res (validate_choice_graph cs es start end fq) (\<lambda>_. validate_all (Suc depth) cs))"
| "validate depth leaf = refuse_if (depth > MAX_POWL_DEPTH) DEPTH_EXCEEDED"
| "validate_all depth [] = Inr ()"
| "validate_all depth (c # cs) = bind_res (validate depth c) (\<lambda>_. validate_all depth cs)"

definition validate_model :: "powl \<Rightarrow> unit verdict" where
  "validate_model model = validate 1 model"

section \<open>What the traversal reaches\<close>

lemma traverse_loop_set:
  assumes "set stack \<subseteq> set seen"
    and "\<forall>x \<in> set seen - set stack. \<forall>y. (x, y) \<in> set adj \<longrightarrow> y \<in> set seen"
  shows "set (traverse_loop adj seen stack) = (set adj)\<^sup>* `` set seen"
  using assms
proof (induction adj seen stack rule: traverse_loop.induct)
  case (1 adj seen)
  then have "set adj `` set seen \<subseteq> set seen" by auto
  then show ?case by (simp add: Image_closed_trancl)
next
  case (2 adj seen cur stack)
  let ?new = "unseen adj seen cur"
  have new: "set ?new = {y. (cur, y) \<in> set adj \<and> y \<notin> set seen}"
    by (force simp: unseen_def)
  have "set (traverse_loop adj (?new @ seen) (rev ?new @ stack)) =
      (set adj)\<^sup>* `` set (?new @ seen)"
  proof (rule 2(1) [OF refl])
    show "set (rev ?new @ stack) \<subseteq> set (?new @ seen)" using 2(2) by auto
    show "\<forall>x \<in> set (?new @ seen) - set (rev ?new @ stack). \<forall>y. (x, y) \<in> set adj \<longrightarrow>
        y \<in> set (?new @ seen)"
    proof (intro ballI allI impI)
      fix x y
      assume x: "x \<in> set (?new @ seen) - set (rev ?new @ stack)" and xy: "(x, y) \<in> set adj"
      show "y \<in> set (?new @ seen)"
      proof (cases "x = cur")
        case True
        with xy new show ?thesis by auto
      next
        case False
        with x have "x \<in> set seen - set (cur # stack)" by auto
        with 2(3) xy have "y \<in> set seen" by blast
        then show ?thesis by simp
      qed
    qed
  qed
  moreover have "(set adj)\<^sup>* `` set (?new @ seen) = (set adj)\<^sup>* `` set seen"
  proof -
    have "set ?new \<subseteq> (set adj)\<^sup>* `` set seen" using 2(2) new by auto
    then have "(set adj)\<^sup>* `` set ?new \<subseteq> (set adj)\<^sup>* `` set seen"
      by (blast intro: rtrancl_trans)
    then show ?thesis by (simp add: Image_Un Un_absorb1)
  qed
  ultimately show ?case by (simp add: Let_def)
qed

lemma set_traverse: "set (traverse origin adj) = (set adj)\<^sup>* `` {origin}"
  unfolding traverse_def by (subst traverse_loop_set) simp_all

definition choice_rel :: "choice_edge list \<Rightarrow> (nat \<times> nat) set" where
  "choice_rel es = (\<lambda>e. (ce_src e, ce_dst e)) ` set es"

lemma set_successors: "set (successors es) = choice_rel es"
  by (simp add: successors_def choice_rel_def)

lemma set_predecessors: "set (predecessors es) = (choice_rel es)\<inverse>"
  by (force simp: predecessors_def choice_rel_def)

section \<open>Well-formed models\<close>

definition freq_wf :: "frequency \<Rightarrow> bool" where
  "freq_wf f \<longleftrightarrow> 0 \<le> fq_min f \<and> (\<forall>m. fq_max f = Some m \<longrightarrow> fq_min f \<le> m)"

definition order_wf :: "nat \<Rightarrow> order_edges \<Rightarrow> order_edges \<Rightarrow> bool" where
  "order_wf n order closure \<longleftrightarrow>
     2 \<le> n \<and> order \<subseteq> {..<n} \<times> {..<n} \<and> acyclic order \<and> order = covers (order\<^sup>+) \<and>
     strict_order n closure"

definition choice_wf :: "nat \<Rightarrow> choice_edge list \<Rightarrow> nat \<Rightarrow> nat \<Rightarrow> bool" where
  "choice_wf n es start end \<longleftrightarrow>
     2 \<le> n \<and> start < n \<and> end < n \<and> start \<noteq> end \<and>
     (\<forall>e \<in> set es. ce_src e < n \<and> ce_dst e < n \<and> ce_dst e \<noteq> start \<and> ce_src e \<noteq> end) \<and>
     (\<forall>src < n. guards_ok es src) \<and>
     (\<forall>i < n. (start, i) \<in> (choice_rel es)\<^sup>* \<and> (i, end) \<in> (choice_rel es)\<^sup>*)"

fun powl_wf :: "nat \<Rightarrow> powl \<Rightarrow> bool" where
  "powl_wf d (PartialOrder cs order closure fq) \<longleftrightarrow>
     d \<le> MAX_POWL_DEPTH \<and> freq_wf fq \<and> order_wf (length cs) order closure \<and>
     (\<forall>c \<in> set cs. powl_wf (Suc d) c)"
| "powl_wf d (ChoiceGraph cs es start end fq) \<longleftrightarrow>
     d \<le> MAX_POWL_DEPTH \<and> freq_wf fq \<and> choice_wf (length cs) es start end \<and>
     (\<forall>c \<in> set cs. powl_wf (Suc d) c)"
| "powl_wf d leaf \<longleftrightarrow> d \<le> MAX_POWL_DEPTH"

lemma refuse_if_ok [simp]: "refuse_if b r = Inr u \<longleftrightarrow> \<not> b"
  by (simp add: refuse_if_def)

lemma validate_frequency_ok: "validate_frequency f = Inr () \<longleftrightarrow> freq_wf f"
  by (auto simp: validate_frequency_def freq_wf_def split: option.splits)

lemma validate_closure_ok: "validate_closure c n = Inr () \<longleftrightarrow> strict_order n c"
proof -
  have "strict_order n c \<longleftrightarrow> c \<subseteq> {..<n} \<times> {..<n} \<and>
      \<not> (\<exists>e \<in> c. fst e = snd e \<or> (snd e, fst e) \<in> c) \<and>
      \<not> (\<exists>e \<in> c. \<exists>k \<in> {..<n}. (snd e, k) \<in> c \<and> (fst e, k) \<notin> c)"
    unfolding strict_order_def trans_def irrefl_def by fastforce
  then show ?thesis
    by (simp add: validate_closure_def bind_res_Inr_iff check_edges_iff)
qed

lemma validate_partial_order_ok:
  "validate_partial_order cs order closure fq = Inr () \<longleftrightarrow>
     freq_wf fq \<and> order_wf (length cs) order closure"
proof -
  have "fst e \<noteq> snd e" if "acyclic order" "e \<in> order" for e
    using that by (cases e) (auto simp: acyclic_def)
  then show ?thesis
    by (auto simp: validate_partial_order_def Let_def bind_res_Inr_iff validate_frequency_ok
        check_edges_iff transitive_reduction_cases validate_closure_ok order_wf_def
        split: if_splits)
qed

lemma validate_choice_graph_ok:
  "validate_choice_graph cs es start end fq = Inr () \<longleftrightarrow>
     freq_wf fq \<and> choice_wf (length cs) es start end"
proof -
  have "list_ex (\<lambda>i. i \<notin> set (traverse start (successors es)) \<or>
      i \<notin> set (traverse end (predecessors es))) [0..<n] \<longleftrightarrow>
      \<not> (\<forall>i < n. (start, i) \<in> (choice_rel es)\<^sup>* \<and> (i, end) \<in> (choice_rel es)\<^sup>*)" for n
    unfolding set_traverse set_successors set_predecessors rtrancl_converse
    by (auto simp: list_ex_iff)
  then show ?thesis
    unfolding validate_choice_graph_def Let_def
    by (auto simp: bind_res_Inr_iff validate_frequency_ok edges_in_range_def boundaries_ok_def
        validate_guard_exclusivity_def choice_wf_def list_ex_iff)
qed

lemma validate_ok:
  "validate d model = Inr () \<longleftrightarrow> powl_wf d model"
  "validate_all d models = Inr () \<longleftrightarrow> (\<forall>c \<in> set models. powl_wf d c)"
  by (induction d model and d models rule: validate_validate_all.induct)
    (auto simp: bind_res_Inr_iff validate_partial_order_ok validate_choice_graph_ok)



section \<open>What the constructors give\<close>

lemma make_partial_order_Inr:
  "make_partial_order cs order fq = Inr m \<longleftrightarrow>
     2 \<le> length cs \<and> order \<subseteq> {..<length cs} \<times> {..<length cs} \<and> acyclic order \<and>
     (\<exists>d. composite_depth cs = Inr d) \<and> m = PartialOrder cs (covers (order\<^sup>+)) (order\<^sup>+) fq"
proof -
  have "order\<^sup>+ \<subseteq> {..<length cs} \<times> {..<length cs} \<and> acyclic (order\<^sup>+)"
    if "order \<subseteq> {..<length cs} \<times> {..<length cs}" "acyclic order"
    using strict_order_closure [OF that] strict_order_acyclic by (auto simp: strict_order_def)
  then show ?thesis
    by (auto simp: make_partial_order_def Let_def bind_res_Inr_iff check_edges_iff
        transitive_closure_Inr transitive_reduction_cases split: if_splits)
qed

lemma order_wf_constructed:
  assumes "2 \<le> n" "order \<subseteq> {..<n} \<times> {..<n}" "acyclic order"
  shows "order_wf n (covers (order\<^sup>+)) (order\<^sup>+)"
proof -
  note so = strict_order_closure [OF assms(2,3)]
  have "covers (order\<^sup>+) \<subseteq> order" by (rule covers_least) (rule refl)
  with assms have "covers (order\<^sup>+) \<subseteq> {..<n} \<times> {..<n}" "acyclic (covers (order\<^sup>+))"
    by (auto intro: acyclic_subset)
  with assms(1) so show ?thesis by (simp add: order_wf_def strict_order_covers)
qed

lemma make_choice_graph_Inr:
  "make_choice_graph cs es s e fq = Inr m \<longleftrightarrow>
     2 \<le> length cs \<and> s < length cs \<and> e < length cs \<and> s \<noteq> e \<and>
     (\<forall>x \<in> set es. ce_src x < length cs \<and> ce_dst x < length cs \<and> ce_dst x \<noteq> s \<and> ce_src x \<noteq> e) \<and>
     (\<exists>d. composite_depth cs = Inr d) \<and> m = ChoiceGraph cs (remdups es) s e fq"
  by (auto simp: make_choice_graph_def Let_def bind_res_Inr_iff edges_in_range_def
      boundaries_ok_def list_ex_iff)


definition demo_atom :: "string \<Rightarrow> powl" where
  "demo_atom l = Atom \<lparr>at_label = l, at_action = [], at_bindings = [], at_consequence = ATOM_PURE\<rparr>"

definition demo_edge_to :: "nat \<Rightarrow> nat \<Rightarrow> choice_edge" where
  "demo_edge_to i j = \<lparr>ce_src = i, ce_dst = j, ce_guard = None\<rparr>"

lemma demo_leaves:
  "\<forall>c \<in> set [Start, demo_atom ''a'', End]. powl_wf 2 c" "freq_wf ONCE"
  by (simp_all add: demo_atom_def MAX_POWL_DEPTH_def freq_wf_def ONCE_def)


end
