(* ===== verification/Powl_Normalize.thy ===== *)
theory Powl_Normalize
  imports Powl_Validate "HOL-Library.Multiset" "HOL-Library.Char_ord" "HOL-Library.List_Lexorder" "HOL-Library.Product_Lexorder"
begin

text \<open>
  Structural identity and the canonical form (\<open>powl/identity.py\<close>, \<open>powl/normalize.py\<close>). The
  canonical JSON text \<open>canon\<close> and its SHA-256 \<open>H\<close> are parameters: \<open>node_id\<close> hashes the
  canonical text of the structure (which \<open>_sha256\<close> encodes once more).
\<close>

section \<open>Identity\<close>

datatype powl_error = Refused refusal | Crashed exn

type_synonym 'a outcome = "powl_error + 'a"

fun lift_verdict :: "'a verdict \<Rightarrow> 'a outcome" where
  "lift_verdict (Inl r) = Inl (Refused r)"
| "lift_verdict (Inr a) = Inr a"

type_synonym canon_fun = "json \<Rightarrow> string"

definition guard_key :: "canon_fun \<Rightarrow> guard \<Rightarrow> string" where
  "guard_key canon g = canon (JObj
     [(''predicate_name'', JStr (gd_predicate_name g)),
      (''predicate_args'', JObj (gd_predicate_args g))])"

definition atom_payload :: "atom_node \<Rightarrow> json" where
  "atom_payload a = JObj
     [(''label'', JStr (at_label a)), (''action'', JStr (at_action a)),
      (''bindings'', JObj (at_bindings a)),
      (''consequence'', JStr (atom_consequence_value (at_consequence a)))]"

definition activity_sha256 :: "digest_fun \<Rightarrow> atom_node \<Rightarrow> string" where
  "activity_sha256 H a = H (atom_payload a)"

definition frequency_json :: "frequency \<Rightarrow> json" where
  "frequency_json f = JObj
     [(''min'', JInt (fq_min f)),
      (''max'', case fq_max f of None \<Rightarrow> JNull | Some m \<Rightarrow> JInt m)]"

text \<open>
  \<open>sorted([src, dst, key or None] ...)\<close>: two edges between the same children of which one is
  guarded and one is not make Python compare a string with \<open>None\<close>, a \<open>TypeError\<close>.
\<close>

definition mixed_guards :: "choice_edge list \<Rightarrow> bool" where
  "mixed_guards es \<longleftrightarrow> list_ex (\<lambda>a. list_ex (\<lambda>b. ce_src a = ce_src b \<and> ce_dst a = ce_dst b \<and>
     ce_guard a = None \<and> ce_guard b \<noteq> None) es) es"

definition edge_sort_key :: "canon_fun \<Rightarrow> choice_edge \<Rightarrow> nat \<times> nat \<times> string" where
  "edge_sort_key canon e = (ce_src e, ce_dst e,
     case ce_guard e of None \<Rightarrow> [] | Some g \<Rightarrow> guard_key canon g)"

definition edges_json :: "canon_fun \<Rightarrow> choice_edge list \<Rightarrow> json outcome" where
  "edges_json canon es =
     (if mixed_guards es then Inl (Crashed (Raised ''TypeError'' []))
      else Inr (JArr (map (\<lambda>e. JArr [JInt (int (ce_src e)), JInt (int (ce_dst e)),
             case ce_guard e of None \<Rightarrow> JNull | Some g \<Rightarrow> JStr (guard_key canon g)])
           (sort_key (edge_sort_key canon) es))))"

definition order_json :: "nat \<Rightarrow> order_edges \<Rightarrow> json" where
  "order_json n order = JArr (map (\<lambda>(i, j). JArr [JInt (int i), JInt (int j)])
     (filter (\<lambda>e. e \<in> order) (index_pairs n)))"

definition kind_json :: "string \<Rightarrow> (string \<times> json) list \<Rightarrow> json" where
  "kind_json kind fs = JObj ((''kind'', JStr kind) # fs)"

fun node_structure :: "canon_fun \<Rightarrow> digest_fun \<Rightarrow> powl \<Rightarrow> json outcome"
  and node_ids :: "canon_fun \<Rightarrow> digest_fun \<Rightarrow> powl list \<Rightarrow> string list outcome" where
  "node_structure canon H Start = Inr (kind_json ''Start'' [])"
| "node_structure canon H End = Inr (kind_json ''End'' [])"
| "node_structure canon H Silent = Inr (kind_json ''Silent'' [])"
| "node_structure canon H (Atom a) =
     Inr (kind_json ''Atom'' [(''activity'', JStr (activity_sha256 H a))])"
| "node_structure canon H (PartialOrder cs order closure fq) =
     bind_res (node_ids canon H cs) (\<lambda>ids. Inr (kind_json ''PartialOrder''
       [(''children'', strs_json ids), (''order'', order_json (length cs) order),
        (''frequency'', frequency_json fq)]))"
| "node_structure canon H (ChoiceGraph cs es start end fq) =
     bind_res (node_ids canon H cs) (\<lambda>ids. bind_res (edges_json canon es) (\<lambda>edges.
       Inr (kind_json ''ChoiceGraph''
         [(''children'', strs_json ids), (''edges'', edges), (''start'', JInt (int start)),
          (''end'', JInt (int end)), (''frequency'', frequency_json fq)])))"
| "node_ids canon H [] = Inr []"
| "node_ids canon H (c # cs) =
     bind_res (node_structure canon H c) (\<lambda>s.
     bind_res (node_ids canon H cs) (\<lambda>ids. Inr (H (JStr (canon s)) # ids)))"

definition node_id :: "canon_fun \<Rightarrow> digest_fun \<Rightarrow> powl \<Rightarrow> string outcome" where
  "node_id canon H node =
     bind_res (node_structure canon H node) (\<lambda>s. Inr (H (JStr (canon s))))"

section \<open>The canonical form\<close>

text \<open>\<open>sorted(range(n), key=lambda i: (ids[i], i))\<close> and the inverse it is read through.\<close>

definition sorting_perm :: "string list \<Rightarrow> nat list" where
  "sorting_perm ids = sort_key (\<lambda>i. (ids ! i, i)) [0..<length ids]"

definition new_index :: "nat list \<Rightarrow> nat \<Rightarrow> nat" where
  "new_index perm old = the (map_of (zip perm [0..<length perm]) old)"

definition canonical_order ::
    "canon_fun \<Rightarrow> digest_fun \<Rightarrow> powl list \<Rightarrow> order_edges \<Rightarrow> frequency \<Rightarrow> powl outcome" where
  "canonical_order canon H kids order fq =
     bind_res (node_ids canon H kids) (\<lambda>ids.
     bind_res (lift_verdict (transitive_reduction order (length kids))) (\<lambda>reduced.
       let perm = sorting_perm ids;
           edges = (\<lambda>(i, j). (new_index perm i, new_index perm j)) ` reduced
       in lift_verdict (make_partial_order (map (\<lambda>i. kids ! i) perm) edges fq)))"

fun canonical_form :: "canon_fun \<Rightarrow> digest_fun \<Rightarrow> powl \<Rightarrow> powl outcome"
  and canonical_forms :: "canon_fun \<Rightarrow> digest_fun \<Rightarrow> powl list \<Rightarrow> powl list outcome" where
  "canonical_form canon H (PartialOrder cs order closure fq) =
     bind_res (canonical_forms canon H cs) (\<lambda>kids. canonical_order canon H kids order fq)"
| "canonical_form canon H (ChoiceGraph cs es start end fq) =
     bind_res (canonical_forms canon H cs) (\<lambda>kids.
       lift_verdict (make_choice_graph kids es start end fq))"
| "canonical_form canon H leaf = Inr leaf"
| "canonical_forms canon H [] = Inr []"
| "canonical_forms canon H (c # cs) =
     bind_res (canonical_form canon H c) (\<lambda>k.
     bind_res (canonical_forms canon H cs) (\<lambda>ks. Inr (k # ks)))"

definition model_digest :: "canon_fun \<Rightarrow> digest_fun \<Rightarrow> powl \<Rightarrow> string outcome" where
  "model_digest canon H node = bind_res (canonical_form canon H node) (node_id canon H)"

section \<open>Lists of results\<close>

lemma canonical_forms_Inr:
  "canonical_forms canon H cs = Inr ks \<longleftrightarrow>
     list_all2 (\<lambda>c k. canonical_form canon H c = Inr k) cs ks"
  by (induction cs arbitrary: ks)
    (auto simp: bind_res_Inr_iff list_all2_Cons1)

lemma node_ids_Inr:
  "node_ids canon H cs = Inr ids \<longleftrightarrow> list_all2 (\<lambda>c i. node_id canon H c = Inr i) cs ids"
  by (induction cs arbitrary: ids)
    (auto simp: bind_res_Inr_iff list_all2_Cons1 node_id_def)

lemma lift_verdict_Inr [simp]: "lift_verdict v = Inr a \<longleftrightarrow> v = Inr a"
  by (cases v) auto

lemma set_sorting_perm: "set (sorting_perm ids) = {..<length ids}"
  "distinct (sorting_perm ids)" "length (sorting_perm ids) = length ids"
  by (auto simp: sorting_perm_def)

lemma new_index_nth:
  assumes "distinct perm" "i < length perm"
  shows "new_index perm (perm ! i) = i"
  using assms by (simp add: new_index_def map_of_zip_nth)

lemma sorting_perm_sorted: "sorted (map (\<lambda>i. ids ! i) (sorting_perm ids))"
proof -
  have "sorted (map (\<lambda>i. (ids ! i, i)) (sorting_perm ids))"
    by (simp add: sorting_perm_def)
  then have "sorted (map fst (map (\<lambda>i. (ids ! i, i)) (sorting_perm ids)))"
    by (auto simp: sorted_wrt_map intro: sorted_wrt_mono_rel [rotated])
  then show ?thesis by (simp add: comp_def)
qed

lemma sorting_perm_id:
  assumes "sorted ids"
  shows "sorting_perm ids = [0..<length ids]"
proof -
  have "sorted (map (\<lambda>i. (ids ! i, i)) [0..<length ids])"
    using assms by (auto simp: sorted_iff_nth_mono less_eq_prod_def le_less)
  then show ?thesis by (simp add: sorting_perm_def sort_key_id_if_sorted)
qed

section \<open>The canonical form is a fixed point\<close>

lemma canonical_order_Inr:
  assumes "canonical_order canon H kids order fq = Inr c"
  obtains ids perm edges where "node_ids canon H kids = Inr ids" "length ids = length kids"
    "perm = sorting_perm ids" "order \<subseteq> {..<length kids} \<times> {..<length kids}" "acyclic order"
    "edges = (\<lambda>(i, j). (new_index perm i, new_index perm j)) ` covers (order\<^sup>+)"
    "make_partial_order (map (\<lambda>i. kids ! i) perm) edges fq = Inr c"
proof -
  from assms obtain ids where ids: "node_ids canon H kids = Inr ids"
    and r: "transitive_reduction order (length kids) = Inr (covers (order\<^sup>+))"
      "order \<subseteq> {..<length kids} \<times> {..<length kids}" "acyclic order"
    unfolding canonical_order_def
    by (auto simp: bind_res_Inr_iff transitive_reduction_cases split: if_splits)
  from ids have "length ids = length kids"
    by (simp add: node_ids_Inr list_all2_lengthD)
  with that [OF ids _ refl r(2,3) refl] assms ids r(1) show ?thesis
    by (simp add: canonical_order_def Let_def)
qed

lemma nth_perm_ids:
  assumes "node_ids canon H kids = Inr ids" "set perm \<subseteq> {..<length ids}"
  shows "node_ids canon H (map (\<lambda>i. kids ! i) perm) = Inr (map (\<lambda>i. ids ! i) perm)"
  using assms by (auto simp: node_ids_Inr list_all2_conv_all_nth subset_iff)

lemma canonical_order_sorted:
  assumes "node_ids canon H kids = Inr ids" "sorted ids" "2 \<le> length kids"
    and "composite_depth kids = Inr d" "strict_order (length kids) c"
  shows "canonical_order canon H kids (covers c) fq = Inr (PartialOrder kids (covers c) c fq)"
proof -
  let ?n = "length kids"
  have len: "length ids = ?n" using assms(1) by (simp add: node_ids_Inr list_all2_lengthD)
  have perm: "sorting_perm ids = [0..<?n]" using sorting_perm_id [OF assms(2)] len by simp
  have sub: "covers c \<subseteq> {..<?n} \<times> {..<?n}" "acyclic (covers c)"
    using assms(5) strict_order_acyclic [OF assms(5)]
    by (auto simp: strict_order_def covers_def intro: acyclic_subset)
  have "new_index [0..<?n] i = i" if "i < ?n" for i
    using new_index_nth [of "[0..<?n]" i] that by simp
  then have "(\<lambda>(i, j). (new_index [0..<?n] i, new_index [0..<?n] j)) ` covers c = id ` covers c"
    using sub(1) by (intro image_cong) auto
  then show ?thesis
    using assms sub strict_order_covers [OF assms(5)]
    by (simp add: canonical_order_def perm transitive_reduction_cases make_partial_order_Inr map_nth)
qed

lemma canonical_form_fixed:
  "canonical_form canon H m = Inr c \<Longrightarrow> canonical_form canon H c = Inr c"
  "canonical_forms canon H ms = Inr cs \<Longrightarrow> canonical_forms canon H cs = Inr cs"
proof (induction canon H m and canon H ms arbitrary: c and cs
    rule: canonical_form_canonical_forms.induct)
  case (1 canon H children order closure fq)
  then obtain kids where kids: "canonical_forms canon H children = Inr kids"
    and c: "canonical_order canon H kids order fq = Inr c"
    by (auto simp: bind_res_Inr_iff)
  from 1(1) [OF kids] have fixed: "list_all2 (\<lambda>c k. canonical_form canon H c = Inr k) kids kids"
    by (simp add: canonical_forms_Inr)
  from c show ?case
  proof (rule canonical_order_Inr)
    fix ids perm edges
    assume ids: "node_ids canon H kids = Inr ids" "length ids = length kids"
      and perm: "perm = sorting_perm ids"
      and mk: "make_partial_order (map (\<lambda>i. kids ! i) perm) edges fq = Inr c"
    let ?kids = "map (\<lambda>i. kids ! i) perm" and ?c = "edges\<^sup>+"
    have within: "set perm \<subseteq> {..<length ids}" by (simp add: perm set_sorting_perm)
    have len: "length ?kids = length kids" by (simp add: perm set_sorting_perm ids(2))
    from mk have c: "c = PartialOrder ?kids (covers ?c) ?c fq" "2 \<le> length ?kids"
      "strict_order (length ?kids) ?c"
      using strict_order_closure by (auto simp: make_partial_order_Inr)
    from mk obtain d where d: "composite_depth ?kids = Inr d"
      by (auto simp: make_partial_order_Inr)
    have "canonical_forms canon H ?kids = Inr ?kids"
      using fixed within ids(2)
      by (auto simp: canonical_forms_Inr list_all2_conv_all_nth subset_iff)
    moreover have "sorted (map (\<lambda>i. ids ! i) perm)"
      unfolding perm by (rule sorting_perm_sorted)
    ultimately show ?thesis
      using canonical_order_sorted [OF nth_perm_ids [OF ids(1) within] _ c(2) d c(3)]
      by (simp add: c(1))
  qed
next
  case (2 canon H children es s e fq)
  then obtain kids where kids: "canonical_forms canon H children = Inr kids"
    and c: "make_choice_graph kids es s e fq = Inr c"
    by (auto simp: bind_res_Inr_iff)
  from c have "c = ChoiceGraph kids (remdups es) s e fq"
    "make_choice_graph kids (remdups es) s e fq = Inr c"
    by (simp_all add: make_choice_graph_Inr distinct_remdups_id)
  with 2(1) [OF kids] show ?case by simp
qed (auto simp: bind_res_Inr_iff)

text \<open>The canonical form of a model is its own canonical form, so
  canonicalizing twice changes nothing and a model and its canonical form have one digest.\<close>

theorem canonical_fixed_point:
  assumes "canonical_form canon H m = Inr c"
  shows "canonical_form canon H c = Inr c \<and> model_digest canon H c = model_digest canon H m"
  using assms canonical_form_fixed(1) [OF assms] by (simp add: model_digest_def)

theorem canonical_fixed_point_witness:
  "\<exists>c. canonical_form (\<lambda>_. []) (\<lambda>_. []) (ChoiceGraph [Start, demo_atom ''a'', End]
       [demo_edge_to 0 1, demo_edge_to 1 2] 0 2 ONCE) = Inr c \<and>
     canonical_form (\<lambda>_. []) (\<lambda>_. []) c = Inr c"
proof -
  obtain c where c: "canonical_form (\<lambda>_. []) (\<lambda>_. []) (ChoiceGraph [Start, demo_atom ''a'', End]
       [demo_edge_to 0 1, demo_edge_to 1 2] 0 2 ONCE) = Inr c"
    by (simp add: demo_atom_def make_choice_graph_Inr composite_depth_def MAX_POWL_DEPTH_def
        demo_edge_to_def)
  from canonical_fixed_point [OF this] c show ?thesis by blast
qed

section \<open>The digest does not depend on how the model was written\<close>

lemma sorted_ids_mset:
  "map (\<lambda>i. ids ! i) (sorting_perm ids) = sorted_list_of_multiset (mset ids)"
proof -
  have "mset (map (\<lambda>i. ids ! i) (sorting_perm ids)) = mset (map (\<lambda>i. ids ! i) [0..<length ids])"
    unfolding sorting_perm_def mset_map by simp
  then have "mset (map (\<lambda>i. ids ! i) (sorting_perm ids)) = mset ids" by (simp only: map_nth)
  then have "sort ids = map (\<lambda>i. ids ! i) (sorting_perm ids)"
    by (rule properties_for_sort) (rule sorting_perm_sorted)
  then show ?thesis by (simp add: sorted_list_of_multiset_mset)
qed

lemma list_all2_result_mset:
  assumes "list_all2 (\<lambda>x y. f x = Inr y) xs ys" "mset xs = mset xs'"
  shows "\<exists>ys'. list_all2 (\<lambda>x y. f x = Inr y) xs' ys' \<and> mset ys' = mset ys"
proof -
  have ys: "ys = map (projr \<circ> f) xs"
    using assms(1) by (induction rule: list_all2_induct) auto
  have "\<exists>y. f x = Inr y" if "x \<in> set xs'" for x
  proof -
    from that have "x \<in> set xs" using mset_eq_setD [OF assms(2)] by simp
    with assms(1) show ?thesis by (auto simp: list_all2_conv_all_nth in_set_conv_nth)
  qed
  then have "list_all2 (\<lambda>x y. f x = Inr y) xs' (map (projr \<circ> f) xs')"
    by (force simp: list_all2_conv_all_nth set_conv_nth)
  with ys assms(2) show ?thesis by (metis mset_map)
qed

lemma composite_depth_set:
  "composite_depth cs = (let d = Suc (Max (insert 0 (node_depth ` set cs)))
     in if d > MAX_POWL_DEPTH then Inl DEPTH_EXCEEDED else Inr d)"
  using Max.set_eq_fold [of 0 "map node_depth cs"] by (simp add: composite_depth_def)

lemma unordered_digest:
  "model_digest canon H (PartialOrder cs {} closure fq) = Inr d \<longleftrightarrow>
     (\<exists>kids ids depth. list_all2 (\<lambda>c k. canonical_form canon H c = Inr k) cs kids \<and>
        list_all2 (\<lambda>k i. node_id canon H k = Inr i) kids ids \<and> 2 \<le> length kids \<and>
        composite_depth kids = Inr depth \<and>
        d = H (JStr (canon (kind_json ''PartialOrder''
          [(''children'', strs_json (sorted_list_of_multiset (mset ids))),
           (''order'', order_json (length kids) {}), (''frequency'', frequency_json fq)]))))"
    (is "?l \<longleftrightarrow> ?r")
proof -
  have kids: "composite_depth (map (\<lambda>i. kids ! i) (sorting_perm ids)) = composite_depth kids"
    "length (sorting_perm ids) = length kids"
    "node_ids canon H (map (\<lambda>i. kids ! i) (sorting_perm ids)) =
       Inr (sorted_list_of_multiset (mset ids))"
    if "node_ids canon H kids = Inr ids" for kids ids
  proof -
    have len: "length ids = length kids" using that by (simp add: node_ids_Inr list_all2_lengthD)
    have "set (map (\<lambda>i. kids ! i) (sorting_perm ids)) = set kids"
      by (auto simp: set_sorting_perm len in_set_conv_nth)
    then show "composite_depth (map (\<lambda>i. kids ! i) (sorting_perm ids)) = composite_depth kids"
      by (simp add: composite_depth_set del: set_map)
    show "length (sorting_perm ids) = length kids" by (simp add: set_sorting_perm len)
    show "node_ids canon H (map (\<lambda>i. kids ! i) (sorting_perm ids)) =
       Inr (sorted_list_of_multiset (mset ids))"
      using nth_perm_ids [OF that, of "sorting_perm ids"]
      by (simp add: set_sorting_perm sorted_ids_mset)
  qed
  have "canonical_order canon H ks {} fq = Inr c \<longleftrightarrow>
      (\<exists>ids depth. node_ids canon H ks = Inr ids \<and> 2 \<le> length ks \<and>
         composite_depth ks = Inr depth \<and>
         c = PartialOrder (map (\<lambda>i. ks ! i) (sorting_perm ids)) {} {} fq)" for ks c
  proof (cases "node_ids canon H ks")
    case (Inr ids)
    have "transitive_reduction {} (length ks) = Inr {}"
      by (simp add: transitive_reduction_cases covers_def acyclic_def)
    moreover have "make_partial_order (map (\<lambda>i. ks ! i) (sorting_perm ids)) {} fq = Inr c \<longleftrightarrow>
        2 \<le> length ks \<and> (\<exists>d. composite_depth ks = Inr d) \<and>
        c = PartialOrder (map (\<lambda>i. ks ! i) (sorting_perm ids)) {} {} fq"
      using kids(1,2) [OF Inr] by (simp add: make_partial_order_Inr covers_def acyclic_def)
    ultimately show ?thesis
      by (simp add: canonical_order_def Inr Let_def)
  qed (simp add: canonical_order_def)
  then have "bind_res (canonical_order canon H ks {} fq) (node_id canon H) = Inr d \<longleftrightarrow>
      (\<exists>ids depth. node_ids canon H ks = Inr ids \<and> 2 \<le> length ks \<and>
         composite_depth ks = Inr depth \<and>
         d = H (JStr (canon (kind_json ''PartialOrder''
           [(''children'', strs_json (sorted_list_of_multiset (mset ids))),
            (''order'', order_json (length ks) {}), (''frequency'', frequency_json fq)]))))" for ks
    using kids(2,3) [of ks] unfolding bind_res_Inr_iff
    by (cases "node_ids canon H ks") (auto simp: node_id_def)
  then show ?thesis
    unfolding model_digest_def canonical_form.simps node_ids_Inr [symmetric]
      canonical_forms_Inr [symmetric]
    by (cases "canonical_forms canon H cs") simp_all
qed

text \<open>The digest of a model does not depend on how its order
  relation was written down (the reduction, the closure or anything between them), nor, in
  a partial order without precedence, on the order of its children.\<close>

theorem digest_ignores_writing:
  "(order\<^sup>+ = order'\<^sup>+ \<longrightarrow>
      model_digest canon H (PartialOrder cs order closure fq) =
      model_digest canon H (PartialOrder cs order' closure' fq)) \<and>
   (mset cs = mset cs' \<longrightarrow> model_digest canon H (PartialOrder cs {} closure fq) = Inr d \<longrightarrow>
      model_digest canon H (PartialOrder cs' {} closure' fq) = Inr d)"
proof (intro conjI impI)
  assume eq: "order\<^sup>+ = order'\<^sup>+"
  have range: "r \<subseteq> {..<n} \<times> {..<n} \<longleftrightarrow> r\<^sup>+ \<subseteq> {..<n} \<times> {..<n}" for r :: order_edges and n
    using trancl_bounded [of r n] by auto
  have "transitive_reduction order n = transitive_reduction order' n" for n
    unfolding transitive_reduction_cases range [of order] range [of order'] acyclic_def eq ..
  then show "model_digest canon H (PartialOrder cs order closure fq) =
      model_digest canon H (PartialOrder cs order' closure' fq)"
    by (simp add: model_digest_def canonical_order_def)
next
  assume same: "mset cs = mset cs'"
  assume "model_digest canon H (PartialOrder cs {} closure fq) = Inr d"
  then obtain kids ids depth where
    kids: "list_all2 (\<lambda>c k. canonical_form canon H c = Inr k) cs kids"
      "list_all2 (\<lambda>k i. node_id canon H k = Inr i) kids ids" "2 \<le> length kids"
      "composite_depth kids = Inr depth"
    and d: "d = H (JStr (canon (kind_json ''PartialOrder''
          [(''children'', strs_json (sorted_list_of_multiset (mset ids))),
           (''order'', order_json (length kids) {}), (''frequency'', frequency_json fq)])))"
    unfolding unordered_digest by blast
  from list_all2_result_mset [OF kids(1) same] obtain kids' where
    k: "list_all2 (\<lambda>c k. canonical_form canon H c = Inr k) cs' kids'" "mset kids' = mset kids"
    by blast
  from list_all2_result_mset [OF kids(2) k(2) [symmetric]] obtain ids' where
    i: "list_all2 (\<lambda>k i. node_id canon H k = Inr i) kids' ids'" "mset ids' = mset ids"
    by blast
  have "length kids' = length kids" "set kids' = set kids"
    using k(2) mset_eq_length mset_eq_setD by blast+
  with kids(3,4) d k(1) i show "model_digest canon H (PartialOrder cs' {} closure' fq) = Inr d"
    unfolding unordered_digest by (intro exI [of _ kids'] exI [of _ ids'] exI [of _ depth])
      (simp add: composite_depth_set)
qed

theorem digest_ignores_writing_witness:
  "\<exists>d. model_digest (\<lambda>_. []) (\<lambda>_. []) (PartialOrder [demo_atom ''a'', demo_atom ''b''] {} {} ONCE) = Inr d \<and>
     model_digest (\<lambda>_. []) (\<lambda>_. []) (PartialOrder [demo_atom ''b'', demo_atom ''a''] {} {} ONCE) = Inr d"
proof -
  let ?cs = "[demo_atom ''a'', demo_atom ''b'']"
  have "canonical_form (\<lambda>_. []) (\<lambda>_. []) (demo_atom l) = Inr (demo_atom l)"
    "node_id (\<lambda>_. []) (\<lambda>_. []) (demo_atom l) = Inr []"
    "node_depth (demo_atom l) = 1" for l
    by (simp_all add: demo_atom_def node_id_def)
  then have "list_all2 (\<lambda>c k. canonical_form (\<lambda>_. []) (\<lambda>_. []) c = Inr k) ?cs ?cs"
    "list_all2 (\<lambda>k i. node_id (\<lambda>_. []) (\<lambda>_. []) k = Inr i) ?cs [[], []]"
    "composite_depth ?cs = Inr 2"
    by (simp_all add: composite_depth_def MAX_POWL_DEPTH_def)
  then obtain d where "model_digest (\<lambda>_. []) (\<lambda>_. []) (PartialOrder ?cs {} {} ONCE) = Inr d"
    unfolding unordered_digest by fastforce
  with digest_ignores_writing [of "{}" "{}" "\<lambda>_. []" "\<lambda>_. []" ?cs "{}" ONCE "{}"
      "[demo_atom ''b'', demo_atom ''a'']" d]
  show ?thesis by auto
qed

end
