(* ===== verification/Powl_Executor.thy ===== *)
theory Powl_Executor
  imports Powl_Normalize
begin

text \<open>
  The bounded reference executor (\<open>powl/executor.py\<close>): markings, the enabled set, firing with
  its purges and visit counters, the closing of repetition rounds, stall classification and
  replay. \<open>Mapping\<close> fields of a marking are association lists (read with \<open>map_of\<close>), frozen
  sets are sets. The digest parameters of the identity layer come as a pair
  \<open>(canon, H)\<close>. A cursor that points past the children makes Python raise \<open>IndexError\<close>; no
  marking a run reaches holds one (\<open>marking_ok\<close> of the next theory), and the model reads it
  as "not complete, nothing enabled".
\<close>

type_synonym path = "nat list"

record occurrence_key =
  ok_activity_sha256 :: string
  ok_occurrence_index :: nat
  ok_context_sha256 :: string

record marking =
  mk_completed :: "occurrence_key set"
  mk_cursor :: "(path \<times> nat) list"
  mk_visits :: "((path \<times> int) \<times> nat) list"
  mk_fires :: nat
  mk_completed_paths :: "path set"
  mk_rounds :: "(path \<times> nat) list"

definition initial_marking :: marking where
  "initial_marking = \<lparr>mk_completed = {}, mk_cursor = [], mk_visits = [], mk_fires = 0,
     mk_completed_paths = {}, mk_rounds = []\<rparr>"

text \<open>\<open>dict(...).get(key, 0)\<close>\<close>

definition get0 :: "('k \<times> nat) list \<Rightarrow> 'k \<Rightarrow> nat" where
  "get0 d k = (case map_of d k of None \<Rightarrow> 0 | Some n \<Rightarrow> n)"

definition under :: "path \<Rightarrow> path \<Rightarrow> bool" where
  "under base p \<longleftrightarrow> take (length base) p = base"

definition strictly_under :: "path \<Rightarrow> path \<Rightarrow> bool" where
  "strictly_under base p \<longleftrightarrow> length base < length p \<and> under base p"

section \<open>Addressing\<close>

fun node_at :: "powl \<Rightarrow> path \<Rightarrow> powl verdict" where
  "node_at node [] = Inr node"
| "node_at node (i # p) =
     (if is_leaf node \<or> \<not> i < length (children node) then Inl DANGLING_REFERENCE
      else node_at (children node ! i) p)"

section \<open>Completion\<close>

definition purged :: "path \<Rightarrow> bool \<Rightarrow> marking \<Rightarrow> marking" where
  "purged base reset_root_rounds m =
     m\<lparr>mk_completed_paths := Set.filter (\<lambda>p. \<not> under base p) (mk_completed_paths m),
       mk_cursor := filter (\<lambda>(p, c). \<not> under base p) (mk_cursor m),
       mk_rounds := filter (\<lambda>(p, n). \<not> under base p \<or> (\<not> reset_root_rounds \<and> p = base))
         (mk_rounds m)\<rparr>"

definition in_progress :: "path \<Rightarrow> marking \<Rightarrow> bool" where
  "in_progress path m \<longleftrightarrow>
     (\<exists>p \<in> mk_completed_paths m. strictly_under path p) \<or>
     list_ex (\<lambda>(p, c). under path p) (mk_cursor m) \<or>
     list_ex (\<lambda>(p, c). strictly_under path p \<and> get0 (mk_rounds m) p > 0) (mk_rounds m)"

definition round_complete :: "frequency \<Rightarrow> path \<Rightarrow> marking \<Rightarrow> bool \<Rightarrow> bool" where
  "round_complete fq path m body \<longleftrightarrow>
     (let done = get0 (mk_rounds m) path
      in (allows fq done \<and> \<not> in_progress path m) \<or> (allows fq (Suc done) \<and> body))"

function is_complete :: "powl \<Rightarrow> path \<Rightarrow> marking \<Rightarrow> bool" where
  "is_complete (PartialOrder cs order closure fq) path m =
     round_complete fq path m
       (list_all (\<lambda>(i, c). is_complete c (path @ [i]) m) (enumerate 0 cs))"
| "is_complete (ChoiceGraph cs es start end fq) path m =
     round_complete fq path m
       (case map_of (mk_cursor m) path of
          None \<Rightarrow> False
        | Some cur \<Rightarrow>
            if cur = end \<and> cur < length cs then is_complete (cs ! cur) (path @ [cur]) m
            else False)"
| "is_complete Start path m = (path \<in> mk_completed_paths m)"
| "is_complete End path m = (path \<in> mk_completed_paths m)"
| "is_complete Silent path m = (path \<in> mk_completed_paths m)"
| "is_complete (Atom a) path m = (path \<in> mk_completed_paths m)"
  by pat_completeness auto
termination
  by (relation "measure (\<lambda>(node, _, _). size node)")
    (auto simp: in_set_enumerate_eq intro: size_child size_nth)

text \<open>\<open>_body_complete\<close>: one round of a composite has just finished.\<close>

fun body_complete :: "powl \<Rightarrow> path \<Rightarrow> marking \<Rightarrow> bool" where
  "body_complete (PartialOrder cs order closure fq) path m =
     list_all (\<lambda>(i, c). is_complete c (path @ [i]) m) (enumerate 0 cs)"
| "body_complete (ChoiceGraph cs es start end fq) path m =
     (case map_of (mk_cursor m) path of
        None \<Rightarrow> False
      | Some cur \<Rightarrow> cur = end \<and> cur < length cs \<and> is_complete (cs ! cur) (path @ [cur]) m)"
| "body_complete _ path m = False"

section \<open>Enabling\<close>

text \<open>
  The head of \<open>_enabled\<close> on a composite: nothing more is offered when every permitted
  repetition has been run, or when another round would start and its counter (kept under the
  key \<open>-1\<close>) has reached the visit cap.
\<close>

definition exhausted :: "execution_bound \<Rightarrow> bool \<Rightarrow> frequency \<Rightarrow> path \<Rightarrow> marking \<Rightarrow> bool" where
  "exhausted bound cap fq path m \<longleftrightarrow>
     (let done = get0 (mk_rounds m) path
      in (case fq_max fq of None \<Rightarrow> False | Some mx \<Rightarrow> int done \<ge> mx) \<or>
         (done > 0 \<and> \<not> in_progress path m \<and> cap \<and>
          get0 (mk_visits m) (path, -1) \<ge> eb_max_node_visits bound))"

definition preds_complete :: "powl list \<Rightarrow> order_edges \<Rightarrow> path \<Rightarrow> marking \<Rightarrow> nat \<Rightarrow> bool" where
  "preds_complete cs closure path m i \<longleftrightarrow>
     list_all (\<lambda>(j, c). (j, i) \<in> closure \<longrightarrow> is_complete c (path @ [j]) m) (enumerate 0 cs)"

definition candidates_of :: "choice_edge list \<Rightarrow> nat \<Rightarrow> nat list" where
  "candidates_of es cur = remdups (map ce_dst (filter (\<lambda>e. ce_src e = cur) es))"

function enabled_in :: "execution_bound \<Rightarrow> bool \<Rightarrow> powl \<Rightarrow> path \<Rightarrow> marking \<Rightarrow> path set" where
  "enabled_in bound cap (PartialOrder cs order closure fq) path m =
     (if exhausted bound cap fq path m then {}
      else \<Union> (set (map (\<lambda>(i, c).
        if is_complete c (path @ [i]) m \<or> \<not> preds_complete cs closure path m i then {}
        else enabled_in bound cap c (path @ [i]) m) (enumerate 0 cs))))"
| "enabled_in bound cap (ChoiceGraph cs es start end fq) path m =
     (if exhausted bound cap fq path m then {}
      else let enter = (\<lambda>c.
             if \<not> c < length cs \<or>
                (cap \<and> get0 (mk_visits m) (path, int c) \<ge> eb_max_node_visits bound) then {}
             else enabled_in bound cap (cs ! c) (path @ [c]) (purged (path @ [c]) True m))
      in case map_of (mk_cursor m) path of
           None \<Rightarrow> enter start
         | Some cur \<Rightarrow>
             if \<not> cur < length cs then {}
             else if \<not> is_complete (cs ! cur) (path @ [cur]) m
             then enabled_in bound cap (cs ! cur) (path @ [cur]) m
             else if cur = end then {}
             else \<Union> (set (map enter (candidates_of es cur))))"
| "enabled_in bound cap Start path m = (if path \<in> mk_completed_paths m then {} else {path})"
| "enabled_in bound cap End path m = (if path \<in> mk_completed_paths m then {} else {path})"
| "enabled_in bound cap Silent path m = (if path \<in> mk_completed_paths m then {} else {path})"
| "enabled_in bound cap (Atom a) path m = (if path \<in> mk_completed_paths m then {} else {path})"
  by pat_completeness auto
termination
  by (relation "measure (\<lambda>(_, _, node, _, _). size node)")
    (auto simp: in_set_enumerate_eq intro: size_child size_nth)

definition enabled :: "execution_bound \<Rightarrow> powl \<Rightarrow> marking \<Rightarrow> path set" where
  "enabled bound model m = enabled_in bound True model [] m"

section \<open>Firing\<close>

text \<open>The activity of a leaf; it has no choice edges, so its identity always exists.\<close>

definition activity_of :: "canon_fun \<Rightarrow> digest_fun \<Rightarrow> powl \<Rightarrow> string" where
  "activity_of canon H node =
     (case node of
        Atom a \<Rightarrow> activity_sha256 H a
      | _ \<Rightarrow> (case node_id canon H node of Inr i \<Rightarrow> i | Inl _ \<Rightarrow> []))"

text \<open>One turn of the loop over the ancestors: the entry into a child of a choice graph.\<close>

definition enter_ancestor ::
    "powl \<Rightarrow> path \<Rightarrow> nat \<Rightarrow> marking \<times> ((path \<times> int) \<times> nat) list \<Rightarrow>
       (marking \<times> ((path \<times> int) \<times> nat) list) verdict" where
  "enter_ancestor model path depth st =
     (let prefix = take depth path; (working, visits) = st
      in bind_res (node_at model prefix) (\<lambda>ancestor.
        case ancestor of
          ChoiceGraph cs es start end fq \<Rightarrow>
            (let idx = path ! depth; child_path = prefix @ [idx]
             in if \<not> idx < length cs then Inl DANGLING_REFERENCE
                else if map_of (mk_cursor working) prefix \<noteq> Some idx \<or>
                   is_complete (cs ! idx) child_path working
                then let w = purged child_path True working
                     in Inr (w\<lparr>mk_cursor := dict_set prefix idx (mk_cursor w)\<rparr>,
                          dict_set (prefix, int idx) (Suc (get0 visits (prefix, int idx))) visits)
                else Inr (working, visits))
        | _ \<Rightarrow> Inr (working, visits)))"

fun fold_verdict :: "('a \<Rightarrow> 's \<Rightarrow> 's verdict) \<Rightarrow> 'a list \<Rightarrow> 's \<Rightarrow> 's verdict" where
  "fold_verdict f [] s = Inr s"
| "fold_verdict f (x # xs) s = bind_res (f x s) (fold_verdict f xs)"

definition bank_round :: "path \<Rightarrow> marking \<Rightarrow> marking" where
  "bank_round prefix m =
     (let done = Suc (get0 (mk_rounds m) prefix); p = purged prefix False m
      in p\<lparr>mk_rounds := dict_set prefix done (mk_rounds p),
           mk_visits := dict_set (prefix, -1) (Suc (get0 (mk_visits p) (prefix, -1))) (mk_visits p)\<rparr>)"

definition close_round :: "powl \<Rightarrow> path \<Rightarrow> nat \<Rightarrow> marking \<Rightarrow> marking verdict" where
  "close_round model path depth m =
     (let prefix = take depth path
      in bind_res (node_at model prefix) (\<lambda>node.
        Inr (if is_leaf node \<or> \<not> body_complete node prefix m then m else bank_round prefix m)))"

definition close_rounds :: "powl \<Rightarrow> path \<Rightarrow> marking \<Rightarrow> marking verdict" where
  "close_rounds model path m = fold_verdict (close_round model path) (rev [0..<length path]) m"

definition advance ::
    "occurrence_key \<Rightarrow> path \<Rightarrow> ((path \<times> int) \<times> nat) list \<Rightarrow> nat \<Rightarrow> marking \<Rightarrow> marking" where
  "advance occ path visits fires working =
     working\<lparr>mk_completed := insert occ (mk_completed working),
       mk_completed_paths := insert path (mk_completed_paths working),
       mk_visits := visits, mk_fires := Suc fires\<rparr>"

definition fire ::
    "canon_fun \<Rightarrow> digest_fun \<Rightarrow> execution_bound \<Rightarrow> powl \<Rightarrow> marking \<Rightarrow> path \<Rightarrow> string \<Rightarrow> marking verdict" where
  "fire canon H bound model m path context_sha256 =
     (if path \<notin> enabled bound model m then Inl LANGUAGE_MISMATCH
      else if Suc (mk_fires m) > eb_max_activity_fires bound then Inl BOUND_EXHAUSTED
      else bind_res (node_at model path) (\<lambda>node.
        let activity = activity_of canon H node;
            index = card (Set.filter (\<lambda>k. ok_activity_sha256 k = activity) (mk_completed m))
        in bind_res (fold_verdict (enter_ancestor model path) [0..<length path] (m, mk_visits m))
             (\<lambda>(working, visits).
               if Suc (card (mk_completed_paths working)) > eb_max_marking_states bound
               then Inl BOUND_EXHAUSTED
               else close_rounds model path (advance
                      \<lparr>ok_activity_sha256 = activity, ok_occurrence_index = index,
                       ok_context_sha256 = context_sha256\<rparr> path visits (mk_fires m) working))))"

definition is_final :: "powl \<Rightarrow> marking \<Rightarrow> bool" where
  "is_final model m = is_complete model [] m"

datatype deadlock_kind = DEADLOCK | STALL_BOUND_EXHAUSTED | REPLAY_DIVERGED

definition classify_stall :: "execution_bound \<Rightarrow> powl \<Rightarrow> marking \<Rightarrow> deadlock_kind" where
  "classify_stall bound model m =
     (if mk_fires m \<ge> eb_max_activity_fires bound then STALL_BOUND_EXHAUSTED
      else if card (mk_completed_paths m) \<ge> eb_max_marking_states bound then STALL_BOUND_EXHAUSTED
      else if enabled_in bound False model [] m \<noteq> {} then STALL_BOUND_EXHAUSTED
      else DEADLOCK)"

section \<open>Replay\<close>

record choice_record =
  ch_step :: nat
  ch_path :: path
  ch_enabled :: "path list"
  ch_chosen :: path
  ch_decided_by :: string
  ch_context_sha256 :: string

text \<open>A replay that diverges raises \<open>ReplayDivergedError\<close>, a \<open>LANGUAGE_MISMATCH\<close>.\<close>

fun replay ::
    "canon_fun \<Rightarrow> digest_fun \<Rightarrow> execution_bound \<Rightarrow> powl \<Rightarrow> choice_record list \<Rightarrow> marking \<Rightarrow>
       marking verdict" where
  "replay canon H bound model [] m = Inr m"
| "replay canon H bound model (c # cs) m =
     (let live = enabled bound model m
      in if ch_chosen c \<notin> live \<or> sort (ch_enabled c) \<noteq> sorted_list_of_set live
         then Inl LANGUAGE_MISMATCH
         else bind_res (fire canon H bound model m (ch_chosen c) (ch_context_sha256 c))
                (replay canon H bound model cs))"

fun trace_of :: "powl \<Rightarrow> choice_record list \<Rightarrow> string list verdict" where
  "trace_of model [] = Inr []"
| "trace_of model (c # cs) =
     bind_res (node_at model (ch_chosen c)) (\<lambda>node.
     bind_res (trace_of model cs) (\<lambda>labels.
       Inr (case node of Atom a \<Rightarrow> at_label a # labels | _ \<Rightarrow> labels)))"

end
