(* ===== verification/Powl_Facts.thy ===== *)
theory Powl_Facts
  imports Powl_Executor
begin

text \<open>
  What the executor's operations read and write: everything below a node depends on the part
  of the marking under its path, and a firing is a nested walk (enter on the way down, close
  on the way up) that changes nothing outside that path.
\<close>

section \<open>Paths\<close>

lemma under_append [simp]: "under p (p @ q)"
  by (simp add: under_def)

lemma under_iff: "under p r \<longleftrightarrow> (\<exists>q. r = p @ q)"
  by (metis append_take_drop_id under_append under_def)

lemma strictly_under_iff: "strictly_under p r \<longleftrightarrow> (\<exists>i q. r = p @ i # q)"
  by (auto simp: strictly_under_def under_iff neq_Nil_conv)

lemma under_refl [simp]: "under p p"
  by (simp add: under_def)

lemma not_under_child [simp]: "\<not> under (p @ [i]) p"
  by (auto simp: under_iff)

lemma under_siblings: "under (p @ [i]) r \<Longrightarrow> under (p @ [j]) r \<Longrightarrow> i = j"
  by (auto simp: under_iff)

lemma under_child: "under (p @ [i]) r \<Longrightarrow> strictly_under p r"
  by (auto simp: under_iff strictly_under_iff)

lemma strictly_under_child: "strictly_under (p @ [i]) r \<Longrightarrow> strictly_under p r"
  by (auto simp: strictly_under_iff)

lemma strictly_under_under: "strictly_under p r \<Longrightarrow> under p r"
  by (simp add: strictly_under_def)

section \<open>Reading a marking\<close>

abbreviation cursor :: "marking \<Rightarrow> path \<Rightarrow> nat option" where
  "cursor m \<equiv> map_of (mk_cursor m)"

abbreviation rounds :: "marking \<Rightarrow> path \<Rightarrow> nat" where
  "rounds m \<equiv> get0 (mk_rounds m)"

lemma map_of_filter_key:
  "map_of (filter (\<lambda>(k, v). P k) xs) k = (if P k then map_of xs k else None)"
  by (induction xs) auto

lemma get0_filter_key:
  "get0 (filter (\<lambda>(k, v). P k) xs) k = (if P k then get0 xs k else 0)"
  by (simp add: get0_def map_of_filter_key)

lemma get0_dict_set [simp]:
  "get0 (dict_set k v xs) k' = (if k' = k then v else get0 xs k')"
  by (simp add: get0_def)

lemma purged_simps [simp]:
  "p \<in> mk_completed_paths (purged base b m) \<longleftrightarrow> p \<in> mk_completed_paths m \<and> \<not> under base p"
  "cursor (purged base b m) p = (if under base p then None else cursor m p)"
  "rounds (purged base b m) p =
     (if under base p \<and> (b \<or> p \<noteq> base) then 0 else rounds m p)"
  "mk_visits (purged base b m) = mk_visits m"
  "mk_fires (purged base b m) = mk_fires m"
  "mk_completed (purged base b m) = mk_completed m"
  by (auto simp: purged_def map_of_filter_key get0_filter_key)

lemma in_progress_iff:
  "in_progress p m \<longleftrightarrow>
     (\<exists>q. under p q \<and> (cursor m q \<noteq> None \<or>
        (q \<noteq> p \<and> (q \<in> mk_completed_paths m \<or> rounds m q > 0))))"
proof -
  have "list_ex (\<lambda>(q, c). under p q) (mk_cursor m) \<longleftrightarrow> (\<exists>q. under p q \<and> cursor m q \<noteq> None)"
    by (force simp: list_ex_iff map_of_eq_None_iff)
  moreover have "list_ex (\<lambda>(q, c). strictly_under p q \<and> rounds m q > 0) (mk_rounds m) \<longleftrightarrow>
      (\<exists>q. strictly_under p q \<and> rounds m q > 0)"
  proof
    assume "\<exists>q. strictly_under p q \<and> rounds m q > 0"
    then obtain q where q: "strictly_under p q" "rounds m q > 0" by blast
    then have "map_of (mk_rounds m) q \<noteq> None" by (auto simp: get0_def split: option.splits)
    then have "q \<in> fst ` set (mk_rounds m)" by (simp add: map_of_eq_None_iff)
    with q show "list_ex (\<lambda>(q, c). strictly_under p q \<and> rounds m q > 0) (mk_rounds m)"
      by (force simp: list_ex_iff)
  qed (auto simp: list_ex_iff)
  moreover have "strictly_under p q \<longleftrightarrow> under p q \<and> q \<noteq> p" for q
    unfolding strictly_under_def under_def by (metis le_eq_less_or_eq length_take
        min.cobounded1 nat_neq_iff not_less take_all)
  ultimately show ?thesis unfolding in_progress_def by blast
qed

section \<open>Frames\<close>

text \<open>Two markings that agree on every path under \<open>p\<close>.\<close>

definition same_under :: "path \<Rightarrow> marking \<Rightarrow> marking \<Rightarrow> bool" where
  "same_under p m m' \<longleftrightarrow> (\<forall>q. under p q \<longrightarrow>
     (q \<in> mk_completed_paths m \<longleftrightarrow> q \<in> mk_completed_paths m') \<and>
     cursor m q = cursor m' q \<and> rounds m q = rounds m' q)"

lemma same_underD:
  assumes "same_under p m m'" "under p q"
  shows "q \<in> mk_completed_paths m \<longleftrightarrow> q \<in> mk_completed_paths m'"
    "cursor m q = cursor m' q" "rounds m q = rounds m' q"
  using assms by (auto simp: same_under_def)

lemma same_under_child [intro]: "same_under p m m' \<Longrightarrow> same_under (p @ [i]) m m'"
  unfolding same_under_def by (metis strictly_under_under under_child)

lemma same_under_sym: "same_under p m m' \<Longrightarrow> same_under p m' m"
  by (simp add: same_under_def)

lemma same_under_in_progress: "same_under p m m' \<Longrightarrow> in_progress p m = in_progress p m'"
  unfolding in_progress_iff same_under_def by (intro ex_cong1) auto

lemma same_under_purged:
  "same_under p m m' \<Longrightarrow> same_under p (purged q b m) (purged q b m')"
  by (simp add: same_under_def)

lemma all_enumerate:
  "list_all P (enumerate 0 xs) \<longleftrightarrow> (\<forall>i < length xs. P (i, xs ! i))"
  by (auto simp: list_all_iff in_set_enumerate_eq)

lemma is_complete_frame:
  "same_under p m m' \<Longrightarrow> is_complete node p m = is_complete node p m'"
proof (induction node p m rule: is_complete.induct)
  case (1 cs order closure fq p m)
  have "is_complete (cs ! i) (p @ [i]) m = is_complete (cs ! i) (p @ [i]) m'" if "i < length cs" for i
    by (rule 1(1)) (use 1(2) that in \<open>auto simp: in_set_enumerate_eq\<close>)
  with 1(2) show ?case
    by (simp add: round_complete_def all_enumerate same_under_in_progress [OF 1(2)]
        same_underD(3) [OF 1(2) under_refl])
next
  case (2 cs es s e fq p m)
  have "is_complete (cs ! c) (p @ [c]) m = is_complete (cs ! c) (p @ [c]) m'"
    if "cursor m p = Some c" "c = e \<and> c < length cs" for c
    by (rule 2(1) [OF that]) (use 2(2) in auto)
  with 2(2) show ?case
    by (simp add: round_complete_def same_under_in_progress [OF 2(2)]
        same_underD(2,3) [OF 2(2) under_refl] split: option.split)
qed (simp_all add: same_underD(1))

lemma preds_complete_frame:
  "same_under p m m' \<Longrightarrow> preds_complete cs closure p m i = preds_complete cs closure p m' i"
  using is_complete_frame [OF same_under_child] by (simp add: preds_complete_def all_enumerate)

lemma exhausted_frame:
  "same_under p m m' \<Longrightarrow> mk_visits m = mk_visits m' \<Longrightarrow>
     exhausted bound cap fq p m = exhausted bound cap fq p m'"
  by (simp add: exhausted_def same_under_in_progress same_underD(3))

section \<open>The enabled set, unfolded\<close>

lemma enabled_in_order:
  "r \<in> enabled_in bound cap (PartialOrder cs order closure fq) p m \<longleftrightarrow>
     \<not> exhausted bound cap fq p m \<and>
     (\<exists>i < length cs. \<not> is_complete (cs ! i) (p @ [i]) m \<and> preds_complete cs closure p m i \<and>
        r \<in> enabled_in bound cap (cs ! i) (p @ [i]) m)"
  by (auto simp: in_set_enumerate_eq Bex_def split: if_splits)

definition may_enter :: "execution_bound \<Rightarrow> bool \<Rightarrow> powl list \<Rightarrow> path \<Rightarrow> marking \<Rightarrow> nat \<Rightarrow> bool" where
  "may_enter bound cap cs p m c \<longleftrightarrow> c < length cs \<and>
     \<not> (cap \<and> get0 (mk_visits m) (p, int c) \<ge> eb_max_node_visits bound)"

text \<open>The children a choice graph can move to next.\<close>

definition next_children :: "choice_edge list \<Rightarrow> nat \<Rightarrow> nat \<Rightarrow> nat option \<Rightarrow> nat set" where
  "next_children es start end cur =
     (case cur of None \<Rightarrow> {start}
      | Some c \<Rightarrow> if c = end then {} else {d. (c, d) \<in> choice_rel es})"

lemma set_candidates_of: "set (candidates_of es cur) = {d. (cur, d) \<in> choice_rel es}"
  by (force simp: candidates_of_def choice_rel_def)

definition child_active :: "powl list \<Rightarrow> path \<Rightarrow> marking \<Rightarrow> nat \<Rightarrow> bool" where
  "child_active cs p m c \<longleftrightarrow>
     cursor m p = Some c \<and> c < length cs \<and> \<not> is_complete (cs ! c) (p @ [c]) m"

lemma enabled_in_choice:
  "r \<in> enabled_in bound cap (ChoiceGraph cs es s e fq) p m \<longleftrightarrow>
     \<not> exhausted bound cap fq p m \<and>
     ((\<exists>c. child_active cs p m c \<and> r \<in> enabled_in bound cap (cs ! c) (p @ [c]) m) \<or>
      (\<not> (\<exists>c. child_active cs p m c) \<and> (\<forall>c. cursor m p = Some c \<longrightarrow> c < length cs) \<and>
       (\<exists>c \<in> next_children es s e (cursor m p). may_enter bound cap cs p m c \<and>
          r \<in> enabled_in bound cap (cs ! c) (p @ [c]) (purged (p @ [c]) True m))))"
  by (auto simp: Let_def may_enter_def next_children_def set_candidates_of child_active_def
      split: option.splits if_splits)

lemma enabled_in_leaf:
  "is_leaf node \<Longrightarrow> enabled_in bound cap node p m = (if p \<in> mk_completed_paths m then {} else {p})"
  by (cases node) simp_all

declare enabled_in.simps [simp del] is_complete.simps(1,2) [simp del]

lemma enabled_in_frame:
  "same_under p m m' \<Longrightarrow> mk_visits m = mk_visits m' \<Longrightarrow>
     enabled_in bound cap node p m = enabled_in bound cap node p m'"
proof (induction node arbitrary: p m m')
  case (PartialOrder cs order closure fq)
  note child = is_complete_frame [OF same_under_child [OF PartialOrder.prems(1)]]
  have IH: "enabled_in bound cap (cs ! i) (p @ [i]) m = enabled_in bound cap (cs ! i) (p @ [i]) m'"
    if "i < length cs" for i
    using PartialOrder that by (metis nth_mem same_under_child)
  show ?case
    unfolding set_eq_iff enabled_in_order exhausted_frame [OF PartialOrder.prems]
      preds_complete_frame [OF PartialOrder.prems(1)] child
    using IH by blast
next
  case (ChoiceGraph cs es s e fq)
  note child = is_complete_frame [OF same_under_child [OF ChoiceGraph.prems(1)]]
  have act: "child_active cs p m = child_active cs p m'"
    using child same_underD(2) [OF ChoiceGraph.prems(1) under_refl]
    by (simp add: child_active_def fun_eq_iff)
  have IH: "enabled_in bound cap (cs ! i) (p @ [i]) m = enabled_in bound cap (cs ! i) (p @ [i]) m'"
    "enabled_in bound cap (cs ! i) (p @ [i]) (purged (p @ [i]) True m) =
       enabled_in bound cap (cs ! i) (p @ [i]) (purged (p @ [i]) True m')"
    if "i < length cs" for i
    using ChoiceGraph.IH [OF nth_mem [OF that] same_under_child [OF ChoiceGraph.prems(1)]]
      ChoiceGraph.IH [OF nth_mem [OF that]
        same_under_purged [OF same_under_child [OF ChoiceGraph.prems(1)]]] ChoiceGraph.prems(2)
    by simp_all
  show ?case
    unfolding set_eq_iff enabled_in_choice exhausted_frame [OF ChoiceGraph.prems] act
      same_underD(2) [OF ChoiceGraph.prems(1) under_refl] may_enter_def ChoiceGraph.prems(2)
    using IH by (auto simp: child_active_def)
qed (simp_all add: enabled_in_leaf same_underD(1))

lemma enabled_in_under:
  "r \<in> enabled_in bound cap node p m \<Longrightarrow> \<exists>q. r = p @ q \<and> (q = [] \<longleftrightarrow> is_leaf node)"
proof (induction node arbitrary: p m)
  case (PartialOrder cs order closure fq)
  then obtain i where "i < length cs" "r \<in> enabled_in bound cap (cs ! i) (p @ [i]) m"
    by (auto simp: enabled_in_order)
  with PartialOrder.IH [of "cs ! i"] show ?case by fastforce
next
  case (ChoiceGraph cs es s e fq)
  then obtain i m' where "i < length cs" "r \<in> enabled_in bound cap (cs ! i) (p @ [i]) m'"
    by (auto simp: enabled_in_choice child_active_def may_enter_def)
  with ChoiceGraph.IH [of "cs ! i"] show ?case by fastforce
qed (auto simp: enabled_in_leaf split: if_splits)

text \<open>Without the visit cap more is enabled.\<close>

lemma exhausted_mono: "exhausted bound False fq p m \<Longrightarrow> exhausted bound True fq p m"
  by (simp add: exhausted_def Let_def)

lemma enabled_in_uncapped:
  "r \<in> enabled_in bound True node p m \<Longrightarrow> r \<in> enabled_in bound False node p m"
proof (induction node arbitrary: p m)
  case (PartialOrder cs order closure fq)
  then show ?case unfolding enabled_in_order using exhausted_mono nth_mem by metis
next
  case (ChoiceGraph cs es s e fq)
  then show ?case
    unfolding enabled_in_choice may_enter_def child_active_def
    using exhausted_mono by (meson nth_mem)
qed (simp_all add: enabled_in_leaf)

end
