(* ===== verification/Powl_Runs.thy ===== *)
theory Powl_Runs
  imports Powl_Facts
begin

text \<open>
  A firing as a nested walk along the path, the step relation of the executor, and the states
  a traversal can reach.
\<close>

section \<open>The nested walk\<close>

definition enter_child :: "powl \<Rightarrow> path \<Rightarrow> nat \<Rightarrow> marking \<Rightarrow> marking" where
  "enter_child node p i m =
     (case node of
        ChoiceGraph cs es start end fq \<Rightarrow>
          if cursor m p \<noteq> Some i \<or> is_complete (cs ! i) (p @ [i]) m
          then (purged (p @ [i]) True m)
                 \<lparr>mk_cursor := dict_set p i (mk_cursor (purged (p @ [i]) True m))\<rparr>
          else m
      | _ \<Rightarrow> m)"

definition close_node :: "powl \<Rightarrow> path \<Rightarrow> marking \<Rightarrow> marking" where
  "close_node node p m =
     (if is_leaf node \<or> \<not> body_complete node p m then m else bank_round p m)"

fun walk :: "powl \<Rightarrow> path \<Rightarrow> path \<Rightarrow> (marking \<Rightarrow> marking) \<Rightarrow> marking \<Rightarrow> marking" where
  "walk node p [] adv m = adv m"
| "walk node p (i # q) adv m =
     close_node node p (walk (children node ! i) (p @ [i]) q adv (enter_child node p i m))"

text \<open>The visit counters of the entries on the way down.\<close>

definition enters :: "powl \<Rightarrow> path \<Rightarrow> nat \<Rightarrow> marking \<Rightarrow> bool" where
  "enters node p i m \<longleftrightarrow>
     (case node of
        ChoiceGraph cs es start end fq \<Rightarrow>
          cursor m p \<noteq> Some i \<or> is_complete (cs ! i) (p @ [i]) m
      | _ \<Rightarrow> False)"

fun walk_visits ::
    "powl \<Rightarrow> path \<Rightarrow> path \<Rightarrow> marking \<Rightarrow> ((path \<times> int) \<times> nat) list \<Rightarrow> ((path \<times> int) \<times> nat) list" where
  "walk_visits node p [] m v = v"
| "walk_visits node p (i # q) m v =
     walk_visits (children node ! i) (p @ [i]) q (enter_child node p i m)
       (if enters node p i m then dict_set (p, int i) (Suc (get0 v (p, int i))) v else v)"

fun walk_in :: "powl \<Rightarrow> path \<Rightarrow> path \<Rightarrow> marking \<Rightarrow> marking" where
  "walk_in node p [] m = m"
| "walk_in node p (i # q) m = walk_in (children node ! i) (p @ [i]) q (enter_child node p i m)"

fun walk_out :: "powl \<Rightarrow> path \<Rightarrow> path \<Rightarrow> marking \<Rightarrow> marking" where
  "walk_out node p [] m = m"
| "walk_out node p (i # q) m = close_node node p (walk_out (children node ! i) (p @ [i]) q m)"

lemma walk_in_out: "walk node p q adv m = walk_out node p q (adv (walk_in node p q m))"
  by (induction node p q adv m rule: walk.induct) simp_all

lemma enter_child_visits [simp]: "mk_visits (enter_child node p i m) = mk_visits m"
  "mk_fires (enter_child node p i m) = mk_fires m"
  by (cases node; simp add: enter_child_def)+

lemma fold_verdict_append [simp]:
  "fold_verdict f (xs @ ys) s = bind_res (fold_verdict f xs s) (fold_verdict f ys)"
proof (induction xs arbitrary: s)
  case (Cons x xs)
  then show ?case by (cases "f x s") simp_all
qed simp

lemma node_at_append [simp]:
  "node_at model (p @ q) = bind_res (node_at model p) (\<lambda>n. node_at n q)"
  by (induction model p rule: node_at.induct) simp_all

lemma upt_split: "a < b \<Longrightarrow> [a..<b] = a # [Suc a..<b]"
  by (rule upt_conv_Cons)

lemma fold_enter:
  assumes "node_at model p = Inr node" "node_at node q = Inr leaf"
  shows "fold_verdict (enter_ancestor model (p @ q)) [length p..<length (p @ q)] (m, v) =
     Inr (walk_in node p q m, walk_visits node p q m v)"
  using assms
proof (induction q arbitrary: node p m v)
  case (Cons i q)
  let ?m = "enter_child node p i m"
  from Cons.prems(2) have child: "\<not> is_leaf node" "i < length (children node)"
    "node_at (children node ! i) q = Inr leaf"
    by (auto split: if_splits)
  have "node_at model (p @ [i]) = Inr (children node ! i)"
    using Cons.prems(1) child(1,2) by simp
  note IH = Cons.IH [OF this child(3)]
  have "enter_ancestor model (p @ i # q) (length p) (m, v) =
      Inr (?m, if enters node p i m then dict_set (p, int i) (Suc (get0 v (p, int i))) v else v)"
    using Cons.prems(1) child(1,2)
    by (cases node) (auto simp: enter_ancestor_def enter_child_def enters_def Let_def)
  with IH show ?case by (simp add: upt_split del: upt.simps)
qed simp

lemma fold_close:
  assumes "node_at model p = Inr node" "node_at node q = Inr leaf"
  shows "fold_verdict (close_round model (p @ q)) (rev [length p..<length (p @ q)]) m =
     Inr (walk_out node p q m)"
  using assms
proof (induction q arbitrary: node p m)
  case (Cons i q)
  from Cons.prems(2) have child: "\<not> is_leaf node" "i < length (children node)"
    "node_at (children node ! i) q = Inr leaf"
    by (auto split: if_splits)
  have "node_at model (p @ [i]) = Inr (children node ! i)"
    using Cons.prems(1) child(1,2) by simp
  note IH = Cons.IH [OF this child(3)]
  have "close_round model (p @ i # q) (length p) m' = Inr (close_node node p m')" for m'
    using Cons.prems(1) by (simp add: close_round_def close_node_def)
  with IH show ?case by (simp add: upt_split del: upt.simps)
qed simp

section \<open>Steps\<close>

definition advance_at :: "(marking \<Rightarrow> marking) \<Rightarrow> path \<Rightarrow> bool" where
  "advance_at adv p \<longleftrightarrow> (\<forall>m. mk_completed_paths (adv m) = insert p (mk_completed_paths m) \<and>
     mk_cursor (adv m) = mk_cursor m \<and> mk_rounds (adv m) = mk_rounds m)"

lemma fire_Inr:
  assumes "fire canon H bound model m path ctx = Inr m'"
  obtains leaf occ where "path \<in> enabled bound model m" "node_at model path = Inr leaf"
    "Suc (mk_fires m) \<le> eb_max_activity_fires bound"
    "card (mk_completed_paths (walk_in model [] path m)) < eb_max_marking_states bound"
    "m' = walk model [] path
       (advance occ path (walk_visits model [] path m (mk_visits m)) (mk_fires m)) m"
proof -
  from assms obtain leaf where leaf: "node_at model path = Inr leaf"
    and en: "path \<in> enabled bound model m" "Suc (mk_fires m) \<le> eb_max_activity_fires bound"
    unfolding fire_def by (auto simp: bind_res_Inr_iff Let_def split: if_splits)
  have down: "fold_verdict (enter_ancestor model path) [0..<length path] (m, mk_visits m) =
      Inr (walk_in model [] path m, walk_visits model [] path m (mk_visits m))"
    using fold_enter [of model "[]" model path leaf] leaf by simp
  have up: "close_rounds model path w = Inr (walk_out model [] path w)" for w
    using fold_close [of model "[]" model path leaf] leaf by (simp add: close_rounds_def)
  from assms leaf down up that [OF en(1) leaf en(2)] show ?thesis
    unfolding fire_def walk_in_out by (auto simp: Let_def split: if_splits)
qed

lemma advance_at_advance: "advance_at (advance occ path v n) path"
  by (simp add: advance_at_def advance_def)

inductive marking_step ::
    "canon_fun \<Rightarrow> digest_fun \<Rightarrow> execution_bound \<Rightarrow> powl \<Rightarrow> marking \<Rightarrow> marking \<Rightarrow> bool"
  for canon H bound model where
  marking_fire: "fire canon H bound model m path ctx = Inr m' \<Longrightarrow>
     marking_step canon H bound model m m'"

inductive_cases marking_stepE: "marking_step canon H bound model m m'"

definition reaches ::
    "canon_fun \<Rightarrow> digest_fun \<Rightarrow> execution_bound \<Rightarrow> powl \<Rightarrow> marking \<Rightarrow> bool" where
  "reaches canon H bound model m \<longleftrightarrow>
     (marking_step canon H bound model)\<^sup>*\<^sup>* initial_marking m"

lemma reaches_initial [simp]: "reaches canon H bound model initial_marking"
  by (simp add: reaches_def)

lemma reaches_fire:
  "reaches canon H bound model m \<Longrightarrow> fire canon H bound model m path ctx = Inr m' \<Longrightarrow>
     reaches canon H bound model m'"
  unfolding reaches_def by (erule rtranclp.rtrancl_into_rtrancl) (rule marking_fire)

lemma reaches_induct [consumes 1, case_names initial fire]:
  assumes "reaches canon H bound model m" "P initial_marking"
    and "\<And>m path ctx m'. reaches canon H bound model m \<Longrightarrow> P m \<Longrightarrow>
      fire canon H bound model m path ctx = Inr m' \<Longrightarrow> P m'"
  shows "P m"
  using assms(1) unfolding reaches_def
proof (induction rule: rtranclp_induct)
  case (step m m')
  then show ?case using assms(3) by (auto elim!: marking_stepE simp: reaches_def)
qed (rule assms(2))

section \<open>What a walk changes\<close>

text \<open>\<open>bank_round\<close> empties everything under the node and counts the round.\<close>

lemma bank_round_simps [simp]:
  "q \<in> mk_completed_paths (bank_round p m) \<longleftrightarrow> q \<in> mk_completed_paths m \<and> \<not> under p q"
  "cursor (bank_round p m) q = (if under p q then None else cursor m q)"
  "rounds (bank_round p m) q =
     (if q = p then Suc (rounds m p) else if under p q then 0 else rounds m q)"
  "mk_fires (bank_round p m) = mk_fires m"
  by (auto simp: bank_round_def Let_def)

definition same_outside :: "path \<Rightarrow> marking \<Rightarrow> marking \<Rightarrow> bool" where
  "same_outside p m m' \<longleftrightarrow> (\<forall>q. \<not> under p q \<longrightarrow>
     (q \<in> mk_completed_paths m \<longleftrightarrow> q \<in> mk_completed_paths m') \<and>
     cursor m q = cursor m' q \<and> rounds m q = rounds m' q)"

lemma same_outside_trans:
  "same_outside p m m' \<Longrightarrow> same_outside p m' m'' \<Longrightarrow> same_outside p m m''"
  by (simp add: same_outside_def)

lemma same_outside_child: "same_outside (p @ [i]) m m' \<Longrightarrow> same_outside p m m'"
  unfolding same_outside_def by (metis strictly_under_under under_child)

lemma same_outside_refl [simp]: "same_outside p m m"
  by (simp add: same_outside_def)

lemma close_node_outside: "same_outside p m (close_node node p m)"
  by (auto simp: close_node_def same_outside_def)

lemma enter_child_outside: "same_outside p m (enter_child node p i m)"
  unfolding enter_child_def same_outside_def
  by (auto split: powl.split dest: under_child strictly_under_under)

lemma walk_outside:
  assumes "advance_at adv (p @ q)"
  shows "same_outside p m (walk node p q adv m)"
  using assms
proof (induction node p q adv m rule: walk.induct)
  case (1 node p adv m)
  then show ?case by (auto simp: advance_at_def same_outside_def)
next
  case (2 node p i q adv m)
  have "same_outside p (enter_child node p i m)
      (walk (children node ! i) (p @ [i]) q adv (enter_child node p i m))"
    by (rule same_outside_child, rule 2(1)) (use 2(2) in simp)
  from same_outside_trans [OF same_outside_trans [OF enter_child_outside this] close_node_outside]
  show ?case by simp
qed

text \<open>A change below one child leaves its siblings and the node itself alone.\<close>

lemma same_outside_sibling:
  "same_outside (p @ [i]) m m' \<Longrightarrow> j \<noteq> i \<Longrightarrow> same_under (p @ [j]) m m'"
  unfolding same_outside_def same_under_def using under_siblings by blast

lemma same_outside_node:
  assumes "same_outside (p @ [i]) m m'"
  shows "cursor m' p = cursor m p" "rounds m' p = rounds m p"
  using assms by (simp_all add: same_outside_def)

end
