(* ===== verification/Powl_Liveness.thy ===== *)
theory Powl_Liveness
  imports Powl_Runs
begin

text \<open>
  The traversal of a validated model does not deadlock, provided no composite may be skipped:
  as long as a reachable marking is not final, something is enabled but for the declared
  bounds. The invariant \<open>marking_ok\<close> says of every composite that its rounds respect its
  frequency, that a half-done round is below the maximum, and that a finished body has been
  banked.
\<close>

section \<open>The invariant\<close>

definition rounds_ok :: "frequency \<Rightarrow> path \<Rightarrow> marking \<Rightarrow> bool \<Rightarrow> bool" where
  "rounds_ok fq p m body \<longleftrightarrow>
     (\<forall>mx. fq_max fq = Some mx \<longrightarrow>
        int (rounds m p) \<le> mx \<and> (in_progress p m \<longrightarrow> int (rounds m p) < mx)) \<and>
     (in_progress p m \<longrightarrow> \<not> body)"

lemmas [termination_simp] = in_set_enumerate_eq

fun marking_ok :: "powl \<Rightarrow> path \<Rightarrow> marking \<Rightarrow> bool" where
  "marking_ok (PartialOrder cs order closure fq) p m \<longleftrightarrow>
     rounds_ok fq p m (body_complete (PartialOrder cs order closure fq) p m) \<and>
     list_all (\<lambda>(i, c). marking_ok c (p @ [i]) m) (enumerate 0 cs)"
| "marking_ok (ChoiceGraph cs es start end fq) p m \<longleftrightarrow>
     rounds_ok fq p m (body_complete (ChoiceGraph cs es start end fq) p m) \<and>
     (\<forall>c. cursor m p = Some c \<longrightarrow> c < length cs) \<and>
     list_all (\<lambda>(i, c). marking_ok c (p @ [i]) m) (enumerate 0 cs)"
| "marking_ok _ p m \<longleftrightarrow> True"

text \<open>No composite of the model may be repeated zero times.\<close>

fun unskippable :: "powl \<Rightarrow> bool" where
  "unskippable (PartialOrder cs order closure fq) \<longleftrightarrow>
     1 \<le> fq_min fq \<and> (\<forall>c \<in> set cs. unskippable c)"
| "unskippable (ChoiceGraph cs es start end fq) \<longleftrightarrow>
     1 \<le> fq_min fq \<and> (\<forall>c \<in> set cs. unskippable c)"
| "unskippable _ \<longleftrightarrow> True"

definition fresh_under :: "path \<Rightarrow> marking \<Rightarrow> bool" where
  "fresh_under p m \<longleftrightarrow> p \<notin> mk_completed_paths m \<and> rounds m p = 0 \<and> \<not> in_progress p m"

lemma fresh_under_iff:
  "fresh_under p m \<longleftrightarrow>
     (\<forall>q. under p q \<longrightarrow> q \<notin> mk_completed_paths m \<and> cursor m q = None \<and> rounds m q = 0)"
    (is "?l \<longleftrightarrow> ?r")
proof
  assume ?l
  then show ?r unfolding fresh_under_def in_progress_iff by (metis gr0I)
next
  assume ?r
  then show ?l unfolding fresh_under_def in_progress_iff by fastforce
qed

lemma fresh_under_child: "fresh_under p m \<Longrightarrow> fresh_under (p @ [i]) m"
  unfolding fresh_under_iff using under_child strictly_under_under by blast

lemma fresh_purged [simp]: "fresh_under p (purged p True m)"
  by (simp add: fresh_under_iff)

lemma fresh_same: "fresh_under p m \<Longrightarrow> same_under p m m' \<Longrightarrow> fresh_under p m'"
  unfolding fresh_under_iff same_under_def by metis

lemma not_in_progress_child: "\<not> in_progress p m \<Longrightarrow> fresh_under (p @ [i]) m"
  unfolding in_progress_iff fresh_under_iff
  using under_child strictly_under_under not_under_child by (metis gr0I)

lemma body_complete_frame:
  "same_under p m m' \<Longrightarrow> body_complete node p m = body_complete node p m'"
  using is_complete_frame [OF same_under_child] same_underD(2) [OF _ under_refl]
  by (cases node) (auto simp: all_enumerate split: option.split)

lemma marking_ok_frame: "same_under p m m' \<Longrightarrow> marking_ok node p m \<Longrightarrow> marking_ok node p m'"
proof (induction node arbitrary: p)
  case (PartialOrder cs order closure fq)
  have "marking_ok (cs ! i) (p @ [i]) m'" if "i < length cs" for i
    using PartialOrder.prems(2) that
    by (intro PartialOrder.IH [OF nth_mem same_under_child [OF PartialOrder.prems(1)]])
      (auto simp: all_enumerate)
  with PartialOrder.prems show ?case
    by (simp add: rounds_ok_def all_enumerate same_under_in_progress same_underD(3)
        body_complete_frame del: body_complete.simps)
next
  case (ChoiceGraph cs es s e fq)
  have "marking_ok (cs ! i) (p @ [i]) m'" if "i < length cs" for i
    using ChoiceGraph.prems(2) that
    by (intro ChoiceGraph.IH [OF nth_mem same_under_child [OF ChoiceGraph.prems(1)]])
      (auto simp: all_enumerate)
  with ChoiceGraph.prems show ?case
    by (simp add: rounds_ok_def all_enumerate same_under_in_progress same_underD(2,3)
        body_complete_frame del: body_complete.simps)
qed simp_all

section \<open>Fresh nodes\<close>

lemma fresh_incomplete:
  assumes "fresh_under p m" "powl_wf d node" "unskippable node"
  shows "\<not> is_complete node p m"
  using assms
proof (induction node arbitrary: p d)
  case (PartialOrder cs order closure fq)
  then have n: "0 < length cs" by (auto simp: order_wf_def)
  then have "\<not> is_complete (cs ! 0) (p @ [0]) m"
    using PartialOrder by (intro PartialOrder.IH) (auto simp: fresh_under_child)
  with n PartialOrder.prems show ?case
    by (auto simp: is_complete.simps round_complete_def all_enumerate fresh_under_def allows_def)
next
  case (ChoiceGraph cs es s e fq)
  then show ?case
    by (auto simp: is_complete.simps round_complete_def allows_def fresh_under_iff)
qed (simp_all add: fresh_under_def)

lemma fresh_body_incomplete:
  assumes "\<not> in_progress p m" "powl_wf d node" "unskippable node"
  shows "\<not> body_complete node p m"
proof (cases node)
  case (PartialOrder cs order closure fq)
  with assms(2) have n: "0 < length cs" by (auto simp: order_wf_def)
  with assms(2) PartialOrder have "powl_wf (Suc d) (cs ! 0)" "cs ! 0 \<in> set cs" by simp_all
  with assms(3) PartialOrder have "\<not> is_complete (cs ! 0) (p @ [0]) m"
    by (intro fresh_incomplete [OF not_in_progress_child [OF assms(1)]]) auto
  with n PartialOrder show ?thesis by (auto simp: all_enumerate)
next
  case (ChoiceGraph cs es s e fq)
  with assms(1) show ?thesis by (auto simp: in_progress_iff split: option.split)
qed simp_all

lemma fresh_ok:
  assumes "\<not> in_progress p m" "powl_wf d node" "unskippable node"
    and "is_leaf node \<or> rounds m p = 0"
  shows "marking_ok node p m"
  using assms
proof (induction node arbitrary: p d)
  case (PartialOrder cs order closure fq)
  have "marking_ok (cs ! i) (p @ [i]) m" if "i < length cs" for i
    using PartialOrder.prems that not_in_progress_child [OF PartialOrder.prems(1)]
    by (intro PartialOrder.IH [of _ _ "Suc d"]) (auto simp: fresh_under_def)
  with PartialOrder.prems show ?case
    by (auto simp: rounds_ok_def all_enumerate freq_wf_def)
next
  case (ChoiceGraph cs es s e fq)
  have "marking_ok (cs ! i) (p @ [i]) m" if "i < length cs" for i
    using ChoiceGraph.prems that not_in_progress_child [OF ChoiceGraph.prems(1)]
    by (intro ChoiceGraph.IH [of _ _ "Suc d"]) (auto simp: fresh_under_def)
  with ChoiceGraph.prems show ?case
    by (auto simp: rounds_ok_def all_enumerate freq_wf_def in_progress_iff)
qed simp_all

section \<open>Something is enabled\<close>

lemma is_complete_body:
  "node = PartialOrder cs order closure fq \<or> node = ChoiceGraph cs es s e fq \<Longrightarrow>
     is_complete node p m = round_complete fq p m (body_complete node p m)"
proof (cases "cursor m p")
  case (Some c)
  assume "node = PartialOrder cs order closure fq \<or> node = ChoiceGraph cs es s e fq"
  with Some show ?thesis by (cases "c = e"; cases "c < length cs") (auto simp: is_complete.simps)
qed (auto simp: is_complete.simps)

text \<open>Under the invariant a composite is complete exactly when it is at rest with enough rounds.\<close>

lemma exhausted_uncapped:
  "exhausted bound False fq p m \<longleftrightarrow> (\<exists>mx. fq_max fq = Some mx \<and> mx \<le> int (rounds m p))"
  by (auto simp: exhausted_def Let_def split: option.split)

lemma not_exhausted:
  assumes "rounds_ok fq p m body" "freq_wf fq" "\<not> round_complete fq p m body"
  shows "\<not> exhausted bound False fq p m"
  using assms
  by (auto simp: exhausted_uncapped rounds_ok_def round_complete_def Let_def allows_def freq_wf_def)

lemma incomplete_enabled:
  assumes "powl_wf d node" "unskippable node" "marking_ok node p m" "\<not> is_complete node p m"
  shows "\<exists>r. r \<in> enabled_in bound False node p m"
  using assms
proof (induction node arbitrary: p m d)
  case (PartialOrder cs order closure fq)
  let ?node = "PartialOrder cs order closure fq"
  let ?s = "{i. i < length cs \<and> \<not> is_complete (cs ! i) (p @ [i]) m}"
  have ok: "rounds_ok fq p m (body_complete ?node p m)"
    "\<And>i. i < length cs \<Longrightarrow> marking_ok (cs ! i) (p @ [i]) m"
    using PartialOrder.prems(3) by (auto simp: all_enumerate)
  have comp: "is_complete ?node p m = round_complete fq p m (body_complete ?node p m)"
    by (rule is_complete_body) simp
  have "\<not> body_complete ?node p m"
    using ok(1) fresh_body_incomplete [OF _ PartialOrder.prems(1,2)]
    by (auto simp: rounds_ok_def)
  then have "?s \<noteq> {}" by (auto simp: all_enumerate)
  moreover have "strict_order (length cs) closure"
    using PartialOrder.prems(1) by (simp add: order_wf_def)
  ultimately obtain i where i: "i \<in> ?s" "\<forall>j. (j, i) \<in> closure \<longrightarrow> j \<notin> ?s"
    using strict_order_minimal [of "length cs" closure ?s] by auto
  have "preds_complete cs closure p m i"
    using i(2) by (auto simp: preds_complete_def all_enumerate)
  moreover have "\<exists>r. r \<in> enabled_in bound False (cs ! i) (p @ [i]) m"
    using i(1) PartialOrder.prems ok(2) by (intro PartialOrder.IH [of _ "Suc d"]) auto
  ultimately show ?case
    using not_exhausted [OF ok(1)] comp PartialOrder.prems(1,4) i(1)
    by (auto simp: enabled_in_order)
next
  case (ChoiceGraph cs es s e fq)
  let ?node = "ChoiceGraph cs es s e fq"
  have ok: "rounds_ok fq p m (body_complete ?node p m)"
    "\<And>i. i < length cs \<Longrightarrow> marking_ok (cs ! i) (p @ [i]) m"
    "\<And>c. cursor m p = Some c \<Longrightarrow> c < length cs"
    using ChoiceGraph.prems(3) by (auto simp: all_enumerate)
  have comp: "is_complete ?node p m = round_complete fq p m (body_complete ?node p m)"
    by (rule is_complete_body) simp
  have live: "\<not> exhausted bound False fq p m"
    using not_exhausted [OF ok(1)] comp ChoiceGraph.prems(1,4) by auto
  have wf: "choice_wf (length cs) es s e" "\<And>i. i < length cs \<Longrightarrow> powl_wf (Suc d) (cs ! i)"
    "\<And>i. i < length cs \<Longrightarrow> unskippable (cs ! i)"
    using ChoiceGraph.prems(1,2) by auto
  show ?case
  proof (cases "\<exists>c. child_active cs p m c")
    case True
    then obtain c where c: "child_active cs p m c" by blast
    have "\<exists>r. r \<in> enabled_in bound False (cs ! c) (p @ [c]) m"
      using c ok(2) wf(2,3) by (intro ChoiceGraph.IH [of _ "Suc d"]) (auto simp: child_active_def)
    with c live show ?thesis by (auto simp: enabled_in_choice)
  next
    case False
    have "\<exists>c. c \<in> next_children es s e (cursor m p) \<and> c < length cs"
    proof (cases "cursor m p")
      case None
      with wf(1) show ?thesis by (auto simp: next_children_def choice_wf_def)
    next
      case (Some c)
      with False ok(3) have "is_complete (cs ! c) (p @ [c]) m" by (auto simp: child_active_def)
      moreover have "in_progress p m" unfolding in_progress_iff using Some under_refl by blast
      ultimately have "c \<noteq> e" using ok(1,3) Some by (auto simp: rounds_ok_def)
      moreover have "(c, e) \<in> (choice_rel es)\<^sup>*" using wf(1) ok(3) [OF Some] by (simp add: choice_wf_def)
      ultimately obtain d where "(c, d) \<in> choice_rel es" by (metis converse_rtranclE)
      with Some \<open>c \<noteq> e\<close> wf(1) show ?thesis
        by (auto simp: next_children_def choice_wf_def choice_rel_def)
    qed
    then obtain c where c: "c \<in> next_children es s e (cursor m p)" "c < length cs" by blast
    let ?m = "purged (p @ [c]) True m"
    have "fresh_under (p @ [c]) ?m" by simp
    then have "marking_ok (cs ! c) (p @ [c]) ?m" "\<not> is_complete (cs ! c) (p @ [c]) ?m"
      using fresh_ok fresh_incomplete wf(2,3) [OF c(2)] by (auto simp: fresh_under_def)
    then have "\<exists>r. r \<in> enabled_in bound False (cs ! c) (p @ [c]) ?m"
      using c(2) wf(2,3) by (intro ChoiceGraph.IH [of _ "Suc d"]) auto
    with c False live ok(3) show ?thesis
      by (auto simp: enabled_in_choice may_enter_def)
  qed
qed (auto simp: enabled_in_leaf)

section \<open>Firing keeps the invariant\<close>

lemma banked_ok:
  assumes "node = PartialOrder cs order closure fq \<or> node = ChoiceGraph cs es s e fq"
    and "powl_wf d node" "unskippable node"
    and "\<And>mx. fq_max fq = Some mx \<Longrightarrow> int (rounds m p) < mx"
  shows "marking_ok node p (bank_round p m)"
proof -
  let ?m = "bank_round p m"
  have rest: "\<not> in_progress p ?m" by (auto simp: in_progress_iff)
  have "marking_ok (cs ! i) (p @ [i]) ?m" if "i < length cs" for i
    using assms(1-3) that not_in_progress_child [OF rest]
    by (intro fresh_ok [of _ _ "Suc d"]) (auto simp: fresh_under_def)
  moreover have "int (rounds ?m p) \<le> mx" if "fq_max fq = Some mx" for mx
    using assms(4) [OF that] by simp
  ultimately show ?thesis
    using assms(1) rest by (auto simp: rounds_ok_def all_enumerate)
qed

lemma closed_ok:
  assumes node: "node = PartialOrder cs order closure fq \<or> node = ChoiceGraph cs es s e fq"
    and wf: "powl_wf d node" "unskippable node"
    and room: "\<And>mx. fq_max fq = Some mx \<Longrightarrow> int (rounds m p) < mx"
    and children: "\<And>i. i < length cs \<Longrightarrow> marking_ok (cs ! i) (p @ [i]) m"
    and cursor: "\<And>c. node = ChoiceGraph cs es s e fq \<Longrightarrow> cursor m p = Some c \<Longrightarrow> c < length cs"
  shows "marking_ok node p (close_node node p m)"
proof (cases "body_complete node p m")
  case True
  then have "close_node node p m = bank_round p m" using node by (auto simp: close_node_def)
  then show ?thesis using banked_ok [OF node wf room] by simp
next
  case False
  then have "close_node node p m = m" by (simp add: close_node_def)
  moreover have "rounds_ok fq p m (body_complete node p m)"
    using False room by (force simp: rounds_ok_def)
  ultimately show ?thesis using node children cursor by (auto simp: all_enumerate)
qed

lemma room_left:
  "\<not> exhausted bound cap fq p m \<Longrightarrow> fq_max fq = Some mx \<Longrightarrow> int (rounds m p) < mx"
  by (auto simp: exhausted_def Let_def)

lemma enabled_index: "p @ i # q \<in> enabled_in bound cap node (p @ [j]) m \<Longrightarrow> j = i"
  by (auto dest: enabled_in_under)

lemma walk_ok:
  assumes "advance_at adv (p @ q)" "powl_wf d node" "unskippable node" "marking_ok node p m"
    and "p @ q \<in> enabled_in bound cap node p m"
  shows "marking_ok node p (walk node p q adv m)"
  using assms
proof (induction node p q adv m arbitrary: d rule: walk.induct)
  case (1 node p adv m)
  then show ?case using enabled_in_under [OF 1(5)] by (cases node) auto
next
  case (2 node p i q adv m)
  let ?m1 = "enter_child node p i m"
  let ?m2 = "walk (children node ! i) (p @ [i]) q adv ?m1"
  have adv: "advance_at adv ((p @ [i]) @ q)" using 2(2) by simp
  have out: "same_outside (p @ [i]) ?m1 ?m2" by (rule walk_outside) (rule adv)
  have sibling: "marking_ok c (p @ [j]) ?m2" if "j \<noteq> i" "marking_ok c (p @ [j]) ?m1" for c j
    using marking_ok_frame [OF same_outside_sibling [OF out]] that by simp
  note node = same_outside_node [OF out]
  show ?case
  proof (cases node)
    case (PartialOrder cs order closure fq)
    have en: "i < length cs" "(p @ [i]) @ q \<in> enabled_in bound cap (cs ! i) (p @ [i]) m"
      "\<not> exhausted bound cap fq p m"
      using 2(6) PartialOrder by (auto simp: enabled_in_order dest: enabled_index)
    have m1: "?m1 = m" using PartialOrder by (simp add: enter_child_def)
    have ok: "marking_ok (cs ! j) (p @ [j]) m" if "j < length cs" for j
      using 2(5) PartialOrder that by (simp add: all_enumerate)
    have "marking_ok (cs ! i) (p @ [i]) ?m2"
      using 2(1) [OF adv, of "Suc d"] 2(3,4) ok en m1 PartialOrder by auto
    then have "marking_ok (cs ! j) (p @ [j]) ?m2" if "j < length cs" for j
      using sibling [of j] ok that m1 by (cases "j = i") simp_all
    then have "marking_ok node p (close_node node p ?m2)"
      using PartialOrder room_left [OF en(3)] node(2) m1
      by (intro closed_ok [OF _ 2(3,4), of cs order closure fq]) auto
    then show ?thesis by simp
  next
    case (ChoiceGraph cs es s e fq)
    have ex: "\<not> exhausted bound cap fq p m" using 2(6) ChoiceGraph by (simp add: enabled_in_choice)
    have ok: "marking_ok (cs ! j) (p @ [j]) m" if "j < length cs" for j
      using 2(5) ChoiceGraph that by (simp add: all_enumerate)
    have step: "i < length cs \<and> cursor ?m1 p = Some i \<and> rounds ?m1 p = rounds m p \<and>
        marking_ok (cs ! i) (p @ [i]) ?m1 \<and> (p @ [i]) @ q \<in> enabled_in bound cap (cs ! i) (p @ [i]) ?m1 \<and>
        (\<forall>j. j \<noteq> i \<longrightarrow> same_under (p @ [j]) m ?m1)"
    proof (cases "child_active cs p m i")
      case True
      then have "?m1 = m" using ChoiceGraph by (simp add: enter_child_def child_active_def)
      with True 2(6) ChoiceGraph ok show ?thesis
        by (auto simp: enabled_in_choice child_active_def same_under_def dest: enabled_index)
    next
      case False
      then have i: "i < length cs" "(p @ [i]) @ q \<in> enabled_in bound cap (cs ! i) (p @ [i]) (purged (p @ [i]) True m)"
        using 2(6) ChoiceGraph by (auto simp: enabled_in_choice may_enter_def dest: enabled_index)
      have m1: "?m1 = (purged (p @ [i]) True m)\<lparr>mk_cursor := dict_set p i (mk_cursor (purged (p @ [i]) True m))\<rparr>"
        using False i(1) ChoiceGraph by (auto simp: enter_child_def child_active_def)
      have same: "same_under (p @ [i]) (purged (p @ [i]) True m) ?m1"
        unfolding m1 by (auto simp: same_under_def)
      moreover have "marking_ok (cs ! i) (p @ [i]) (purged (p @ [i]) True m)"
        using 2(3,4) ChoiceGraph i(1) fresh_purged [of "p @ [i]" m]
        by (intro fresh_ok [of _ _ "Suc d"]) (auto simp: fresh_under_def)
      moreover have "same_under (p @ [j]) m ?m1" if "j \<noteq> i" for j
        unfolding m1 same_under_def using that under_siblings by (auto dest: under_child)
      ultimately show ?thesis
        using i enabled_in_frame [OF same] marking_ok_frame [OF same] by (simp add: m1)
    qed
    then have "marking_ok (cs ! i) (p @ [i]) ?m2"
      using 2(1) [OF adv, of "Suc d"] 2(3,4) ChoiceGraph by auto
    then have "marking_ok (cs ! j) (p @ [j]) ?m2" if "j < length cs" for j
      using sibling [of j] ok that step marking_ok_frame by (cases "j = i") auto
    then have "marking_ok node p (close_node node p ?m2)"
      using ChoiceGraph room_left [OF ex] node step
      by (intro closed_ok [OF _ 2(3,4), of cs _ _ fq es s e]) auto
    then show ?thesis by simp
  qed (use 2(6) in \<open>auto dest: enabled_in_under\<close>)
qed

lemma reached_ok:
  assumes "reaches canon H bound model m" "powl_wf d model" "unskippable model"
  shows "marking_ok model [] m"
  using assms(1)
proof (induction rule: reaches_induct)
  case initial
  show ?case
    by (rule fresh_ok [OF _ assms(2,3)]) (auto simp: in_progress_iff initial_marking_def get0_def)
next
  case (fire m path ctx m')
  from fire.hyps(2) show ?case
    by (rule fire_Inr)
      (use walk_ok [of _ "[]" path d model m bound True] advance_at_advance assms(2,3) fire.IH
       in \<open>simp add: enabled_def\<close>)
qed

section \<open>No deadlock\<close>

lemma not_final_enabled:
  assumes "reaches canon H bound model m" "powl_wf d model" "unskippable model"
    and "\<not> is_final model m"
  shows "enabled_in bound False model [] m \<noteq> {}"
  using incomplete_enabled [OF assms(2,3) reached_ok [OF assms(1-3)]] assms(4)
  by (auto simp: is_final_def)

text \<open>C6: take a model the validator accepts and in which no composite may be
  repeated zero times, and any marking that firings lead to. Unless it is final, some leaf is
  enabled when the visit cap is lifted, so the executor stops only at one of its declared
  bounds and \<open>classify_stall\<close> never reports a deadlock.\<close>

theorem no_deadlock:
  assumes "validate_model model = Inr ()" "unskippable model"
    and "reaches canon H bound model m" "\<not> is_final model m"
  shows "enabled_in bound False model [] m \<noteq> {} \<and>
    classify_stall bound model m = STALL_BOUND_EXHAUSTED"
  using not_final_enabled [OF assms(3) _ assms(2,4)] assms(1)
  by (auto simp: validate_model_def validate_ok classify_stall_def)

text \<open>A loop on \<open>1\<close> that can leave to \<open>2\<close>, after its first firing.\<close>

definition demo_loop :: powl where
  "demo_loop = ChoiceGraph [Start, demo_atom ''probe'', End]
     [demo_edge_to 0 1, demo_edge_to 1 1, demo_edge_to 1 2] 0 2 ONCE"

lemma demo_loop_valid: "validate_model demo_loop = Inr ()" "unskippable demo_loop"
  by code_simp+

theorem no_deadlock_witness:
  "\<exists>m. mk_fires m = 1 \<and> classify_stall default_bound demo_loop m = STALL_BOUND_EXHAUSTED"
proof -
  have "case fire (\<lambda>_. []) (\<lambda>_. []) default_bound demo_loop initial_marking [0] [] of
      Inr m \<Rightarrow> mk_fires m = 1 \<and> \<not> is_final demo_loop m | Inl _ \<Rightarrow> False"
    by code_simp
  then obtain m where m: "mk_fires m = 1" "\<not> is_final demo_loop m"
    "fire (\<lambda>_. []) (\<lambda>_. []) default_bound demo_loop initial_marking [0] [] = Inr m"
    by (auto split: sum.splits)
  from no_deadlock [OF demo_loop_valid reaches_fire [OF reaches_initial m(3)] m(2)] m(1)
  show ?thesis by blast
qed

end
