(* ===== verification/Powl_Counters.thy ===== *)
theory Powl_Counters
  imports Powl_Liveness
begin

text \<open>
  The counters of the executor: a firing succeeds exactly when its path is enabled and no
  bound is spent, a run never exceeds its bounds, and every firing gets an occurrence key of
  its own.
\<close>

section \<open>When a firing succeeds\<close>

lemma enabled_node_at:
  "p @ q \<in> enabled_in bound cap node p m \<Longrightarrow> \<exists>leaf. node_at node q = Inr leaf \<and> is_leaf leaf"
proof (induction node arbitrary: p q m)
  case (PartialOrder cs order closure fq)
  then obtain i where i: "i < length cs" "p @ q \<in> enabled_in bound cap (cs ! i) (p @ [i]) m"
    by (auto simp: enabled_in_order)
  then obtain r where "q = i # r" by (auto dest: enabled_in_under)
  with i PartialOrder.IH [OF nth_mem [OF i(1)], of "p @ [i]" r m] show ?case by simp
next
  case (ChoiceGraph cs es s e fq)
  then obtain i m' where i: "i < length cs" "p @ q \<in> enabled_in bound cap (cs ! i) (p @ [i]) m'"
    by (auto simp: enabled_in_choice child_active_def may_enter_def)
  then obtain r where "q = i # r" by (auto dest: enabled_in_under)
  with i ChoiceGraph.IH [OF nth_mem [OF i(1)], of "p @ [i]" r m'] show ?case by simp
qed (auto simp: enabled_in_leaf split: if_splits)

lemma enabled_leaf:
  assumes "path \<in> enabled bound model m"
  obtains leaf where "node_at model path = Inr leaf" "is_leaf leaf"
  using enabled_node_at [of "[]" path bound True model m] assms
  by (simp add: enabled_def) blast

text \<open>What a path's activity and occurrence index are.\<close>

definition occurrence_of ::
    "canon_fun \<Rightarrow> digest_fun \<Rightarrow> powl \<Rightarrow> marking \<Rightarrow> path \<Rightarrow> string \<Rightarrow> occurrence_key" where
  "occurrence_of canon H model m path ctx =
     (let activity = (case node_at model path of Inr leaf \<Rightarrow> activity_of canon H leaf | Inl _ \<Rightarrow> [])
      in \<lparr>ok_activity_sha256 = activity,
          ok_occurrence_index = card (Set.filter (\<lambda>k. ok_activity_sha256 k = activity) (mk_completed m)),
          ok_context_sha256 = ctx\<rparr>)"

definition fired ::
    "canon_fun \<Rightarrow> digest_fun \<Rightarrow> powl \<Rightarrow> marking \<Rightarrow> path \<Rightarrow> string \<Rightarrow> marking" where
  "fired canon H model m path ctx =
     walk model [] path (advance (occurrence_of canon H model m path ctx) path
       (walk_visits model [] path m (mk_visits m)) (mk_fires m)) m"

lemma fire_unfold:
  "fire canon H bound model m path ctx =
     (if path \<notin> enabled bound model m then Inl LANGUAGE_MISMATCH
      else if mk_fires m \<ge> eb_max_activity_fires bound \<or>
        card (mk_completed_paths (walk_in model [] path m)) \<ge> eb_max_marking_states bound
      then Inl BOUND_EXHAUSTED
      else Inr (fired canon H model m path ctx))"
proof (cases "path \<in> enabled bound model m")
  case True
  then obtain leaf where leaf: "node_at model path = Inr leaf" by (rule enabled_leaf)
  have down: "fold_verdict (enter_ancestor model path) [0..<length path] (m, mk_visits m) =
      Inr (walk_in model [] path m, walk_visits model [] path m (mk_visits m))"
    using fold_enter [of model "[]" model path leaf] leaf by simp
  have up: "close_rounds model path w = Inr (walk_out model [] path w)" for w
    using fold_close [of model "[]" model path leaf] leaf by (simp add: close_rounds_def)
  from True leaf down up show ?thesis
    by (auto simp: fire_def fired_def occurrence_of_def walk_in_out Let_def)
qed (simp add: fire_def)

lemma enter_child_completed:
  "mk_completed_paths (enter_child node p i m) \<subseteq> mk_completed_paths m"
  by (auto simp: enter_child_def split: powl.splits if_splits)

lemma walk_in_completed:
  "mk_completed_paths (walk_in node p q m) \<subseteq> mk_completed_paths m"
  by (induction node p q m rule: walk_in.induct) (use enter_child_completed in fastforce)+

lemma walk_out_completed:
  "mk_completed_paths (walk_out node p q m) \<subseteq> mk_completed_paths m"
  by (induction node p q m rule: walk_out.induct) (auto simp: close_node_def)

lemma bank_round_completed [simp]: "mk_completed (bank_round p m) = mk_completed m"
  by (simp add: bank_round_def Let_def)

lemma walk_out_keeps:
  "mk_fires (walk_out node p q m) = mk_fires m \<and> mk_completed (walk_out node p q m) = mk_completed m"
  by (induction node p q m rule: walk_out.induct) (auto simp: close_node_def)

lemma walk_in_keeps: "mk_completed (walk_in node p q m) = mk_completed m"
proof (induction node p q m rule: walk_in.induct)
  case (2 node p i q m)
  then show ?case by (simp add: enter_child_def split: powl.splits)
qed simp

lemma fired_simps [simp]:
  "mk_fires (fired canon H model m path ctx) = Suc (mk_fires m)"
  "mk_completed (fired canon H model m path ctx) =
     insert (occurrence_of canon H model m path ctx) (mk_completed m)"
  by (simp_all add: fired_def walk_in_out walk_out_keeps walk_in_keeps advance_def)

lemma fired_completed:
  "mk_completed_paths (fired canon H model m path ctx) \<subseteq>
     insert path (mk_completed_paths (walk_in model [] path m))"
  using walk_out_completed by (fastforce simp: fired_def walk_in_out advance_def)

section \<open>Every run stays within its bounds\<close>

definition visits_ok :: "execution_bound \<Rightarrow> ((path \<times> int) \<times> nat) list \<Rightarrow> bool" where
  "visits_ok bound v \<longleftrightarrow> (\<forall>p c. get0 v (p, int c) \<le> eb_max_node_visits bound)"

lemma enters_room:
  assumes "p @ i # q \<in> enabled_in bound True node p m" "enters node p i m"
  shows "get0 (mk_visits m) (p, int i) < eb_max_node_visits bound"
proof -
  from assms obtain cs es s e fq where n: "node = ChoiceGraph cs es s e fq"
    by (auto simp: enters_def split: powl.splits)
  with assms have "\<not> child_active cs p m i"
    by (auto simp: enters_def child_active_def)
  with assms(1) n show ?thesis
    by (auto simp: enabled_in_choice may_enter_def child_active_def dest: enabled_index)
qed

text \<open>The child that the path leads into offers the path in the marking it is entered with.\<close>

lemma enabled_child:
  assumes "p @ i # q \<in> enabled_in bound cap node p m"
  shows "(p @ [i]) @ q \<in> enabled_in bound cap (children node ! i) (p @ [i]) (enter_child node p i m)"
proof (cases node)
  case (PartialOrder cs order closure fq)
  with assms show ?thesis by (auto simp: enabled_in_order enter_child_def dest: enabled_index)
next
  case (ChoiceGraph cs es s e fq)
  show ?thesis
  proof (cases "child_active cs p m i")
    case True
    then have "enter_child node p i m = m" using ChoiceGraph by (simp add: enter_child_def child_active_def)
    with assms ChoiceGraph True show ?thesis
      by (auto simp: enabled_in_choice child_active_def dest: enabled_index)
  next
    case False
    let ?m = "purged (p @ [i]) True m"
    have i: "i < length cs" "p @ i # q \<in> enabled_in bound cap (cs ! i) (p @ [i]) ?m"
      using assms ChoiceGraph False
      by (auto simp: enabled_in_choice may_enter_def dest: enabled_index)
    have "enter_child node p i m = ?m\<lparr>mk_cursor := dict_set p i (mk_cursor ?m)\<rparr>"
      using False i(1) ChoiceGraph by (auto simp: enter_child_def child_active_def)
    moreover have "same_under (p @ [i]) ?m (?m\<lparr>mk_cursor := dict_set p i (mk_cursor ?m)\<rparr>)"
      by (auto simp: same_under_def)
    ultimately show ?thesis using i ChoiceGraph enabled_in_frame by fastforce
  qed
qed (use assms in \<open>auto dest: enabled_in_under\<close>)

lemma walk_visits_ok:
  assumes "p @ q \<in> enabled_in bound True node p m" "visits_ok bound v"
    and "\<And>r c. under p r \<Longrightarrow> get0 v (r, int c) = get0 (mk_visits m) (r, int c)"
  shows "visits_ok bound (walk_visits node p q m v)"
  using assms
proof (induction node p q m v rule: walk_visits.induct)
  case (2 node p i q m v)
  let ?v = "if enters node p i m then dict_set (p, int i) (Suc (get0 v (p, int i))) v else v"
  have "visits_ok bound ?v"
    using 2(3) enters_room [OF 2(2)] 2(4) [of p i] by (auto simp: visits_ok_def Suc_le_eq)
  moreover have "get0 ?v (r, int c) = get0 (mk_visits (enter_child node p i m)) (r, int c)"
    if "under (p @ [i]) r" for r c
    using that 2(4) [OF strictly_under_under [OF under_child [OF that]]] by auto
  ultimately show ?case
    using 2(1) [OF enabled_child [OF 2(2)]] by simp
qed simp

lemma walk_out_visits:
  "visits_ok bound (mk_visits (walk_out node p q m)) = visits_ok bound (mk_visits m)"
proof -
  have bank: "get0 (mk_visits (bank_round r m)) (q, int c) = get0 (mk_visits m) (q, int c)" for r m q c
    by (simp add: bank_round_def Let_def)
  show ?thesis
    by (induction node p q m rule: walk_out.induct) (simp_all add: close_node_def visits_ok_def bank)
qed

definition counters_ok :: "execution_bound \<Rightarrow> marking \<Rightarrow> bool" where
  "counters_ok bound m \<longleftrightarrow> finite (mk_completed_paths m) \<and>
     mk_fires m \<le> eb_max_activity_fires bound \<and> visits_ok bound (mk_visits m) \<and>
     card (mk_completed_paths m) \<le> eb_max_marking_states bound"

lemma counters_reached:
  assumes "reaches canon H bound model m"
  shows "counters_ok bound m"
  using assms
proof (induction rule: reaches_induct)
  case initial
  show ?case by (simp add: counters_ok_def initial_marking_def visits_ok_def get0_def)
next
  case (fire m path ctx m')
  let ?w = "walk_in model [] path m"
  from fire.hyps(2) have en: "path \<in> enabled bound model m" "mk_fires m < eb_max_activity_fires bound"
    "card (mk_completed_paths ?w) < eb_max_marking_states bound" "m' = fired canon H model m path ctx"
    by (auto simp: fire_unfold split: if_splits)
  have fin: "finite (mk_completed_paths ?w)"
    by (rule finite_subset [OF walk_in_completed]) (use fire.IH in \<open>simp add: counters_ok_def\<close>)
  then have "card (insert path (mk_completed_paths ?w)) \<le> eb_max_marking_states bound"
    using en(3) by (simp add: card_insert_if)
  moreover have sub: "mk_completed_paths m' \<subseteq> insert path (mk_completed_paths ?w)"
    unfolding en(4) by (rule fired_completed)
  ultimately have "card (mk_completed_paths m') \<le> eb_max_marking_states bound"
    using card_mono [OF _ sub] fin by simp
  moreover have "finite (mk_completed_paths m')"
    by (rule finite_subset [OF sub]) (simp add: fin)
  moreover have "visits_ok bound (mk_visits m')"
    using en(1,4) fire.IH walk_visits_ok [of "[]" path bound model m "mk_visits m"]
    by (simp add: fired_def walk_in_out walk_out_visits advance_def counters_ok_def enabled_def)
  ultimately show ?case using en by (simp add: counters_ok_def)
qed

text \<open>Every firing completes an occurrence of its own.\<close>

definition keys_ok :: "marking \<Rightarrow> bool" where
  "keys_ok m \<longleftrightarrow> finite (mk_completed m) \<and> card (mk_completed m) = mk_fires m \<and>
     (\<forall>k \<in> mk_completed m. ok_occurrence_index k <
        card (Set.filter (\<lambda>j. ok_activity_sha256 j = ok_activity_sha256 k) (mk_completed m)))"

lemma keys_step:
  assumes "keys_ok m"
  shows "keys_ok (fired canon H model m path ctx)"
proof -
  let ?k = "occurrence_of canon H model m path ctx"
  let ?f = "\<lambda>a. Set.filter (\<lambda>j. ok_activity_sha256 j = a)"
  have fin: "finite (mk_completed m)" and k: "ok_occurrence_index ?k = card (?f (ok_activity_sha256 ?k) (mk_completed m))"
    using assms by (simp_all add: keys_ok_def occurrence_of_def Let_def)
  then have new: "?k \<notin> mk_completed m" using assms by (auto simp: keys_ok_def)
  have more: "card (?f a (mk_completed m)) \<le> card (?f a (insert ?k (mk_completed m)))" for a
    using fin by (intro card_mono) auto
  have "?f (ok_activity_sha256 ?k) (insert ?k (mk_completed m)) =
      insert ?k (?f (ok_activity_sha256 ?k) (mk_completed m))" by auto
  then have "ok_occurrence_index ?k < card (?f (ok_activity_sha256 ?k) (insert ?k (mk_completed m)))"
    using new fin k by simp
  moreover have "ok_occurrence_index j < card (?f (ok_activity_sha256 j) (insert ?k (mk_completed m)))"
    if "j \<in> mk_completed m" for j
    using assms that more [of "ok_activity_sha256 j"] unfolding keys_ok_def by fastforce
  ultimately show ?thesis
    using assms new fin unfolding keys_ok_def fired_simps by simp
qed

lemma keys_reached:
  assumes "reaches canon H bound model m"
  shows "keys_ok m"
  using assms
proof (induction rule: reaches_induct)
  case initial
  show ?case by (simp add: keys_ok_def initial_marking_def)
next
  case (fire m path ctx m')
  then show ?case using keys_step by (auto simp: fire_unfold split: if_splits)
qed

text \<open>C39: whatever sequence of firings is made, the fire count, every visit counter
  of a child and the number of completed paths stay within the declared bound, and each firing
  has produced an occurrence key that no other firing has (there are exactly as many keys as
  firings).\<close>

theorem run_bounded:
  assumes "reaches canon H bound model m"
  shows "mk_fires m \<le> eb_max_activity_fires bound \<and>
    get0 (mk_visits m) (p, int c) \<le> eb_max_node_visits bound \<and>
    card (mk_completed_paths m) \<le> eb_max_marking_states bound \<and>
    card (mk_completed m) = mk_fires m"
  using counters_reached [OF assms] keys_reached [OF assms]
  by (simp add: counters_ok_def visits_ok_def keys_ok_def)

theorem run_bounded_witness:
  "\<exists>m :: marking. mk_fires m = 1 \<and> card (mk_completed m) = 1 \<and> get0 (mk_visits m) ([], int 0) \<le> 4096"
proof -
  have "case fire (\<lambda>_. []) (\<lambda>_. []) default_bound demo_loop initial_marking [0] [] of
      Inr m \<Rightarrow> mk_fires m = 1 | Inl _ \<Rightarrow> False"
    by code_simp
  then obtain m where m: "mk_fires m = 1"
    "fire (\<lambda>_. []) (\<lambda>_. []) default_bound demo_loop initial_marking [0] [] = Inr m"
    by (auto split: sum.splits)
  have "mk_fires m = 1 \<and> card (mk_completed m) = 1 \<and> get0 (mk_visits m) ([], int 0) \<le> 4096"
    using run_bounded [OF reaches_fire [OF reaches_initial m(2)], of "[]" 0] m(1)
    by (simp add: default_bound_def)
  then show ?thesis by blast
qed

text \<open>In a marking a run can be in, \<open>fire\<close> succeeds and counts one firing, or
  refuses with LANGUAGE_MISMATCH exactly when the path is not enabled, or with
  BOUND_EXHAUSTED when it is enabled but the fire budget or the marking bound is spent. No
  other refusal is possible.\<close>

theorem fire_exact:
  assumes "reaches canon H bound model m"
  shows "case fire canon H bound model m path ctx of
      Inr m' \<Rightarrow> path \<in> enabled bound model m \<and> mk_fires m' = Suc (mk_fires m)
    | Inl r \<Rightarrow> (r = LANGUAGE_MISMATCH \<and> path \<notin> enabled bound model m) \<or>
        (r = BOUND_EXHAUSTED \<and> path \<in> enabled bound model m \<and>
          (mk_fires m = eb_max_activity_fires bound \<or>
           card (mk_completed_paths m) = eb_max_marking_states bound))"
proof -
  note ok = counters_reached [OF assms, unfolded counters_ok_def]
  then have "card (mk_completed_paths (walk_in model [] path m)) \<le> card (mk_completed_paths m)"
    by (intro card_mono walk_in_completed) simp
  with ok show ?thesis by (auto simp: fire_unfold)
qed

theorem fire_exact_witness:
  "[2] \<notin> enabled default_bound demo_loop initial_marking \<and>
   (case fire (\<lambda>_. []) (\<lambda>_. []) default_bound demo_loop initial_marking [2] [] of
      Inr _ \<Rightarrow> False | Inl r \<Rightarrow> r = LANGUAGE_MISMATCH)"
proof -
  have "[2] \<notin> enabled default_bound demo_loop initial_marking" by code_simp
  with fire_exact [OF reaches_initial [of "\<lambda>_. []" "\<lambda>_. []" default_bound demo_loop], of "[2]" "[]"]
  show ?thesis by (auto split: sum.splits)
qed

section \<open>Recorded runs replay\<close>

text \<open>A run that records, at each step, the enabled set it saw and the path it chose.\<close>

inductive recorded ::
    "canon_fun \<Rightarrow> digest_fun \<Rightarrow> execution_bound \<Rightarrow> powl \<Rightarrow> marking \<Rightarrow> choice_record list \<Rightarrow> marking \<Rightarrow> bool"
  for canon H bound model where
  recorded_nil: "recorded canon H bound model m [] m"
| recorded_step: "fire canon H bound model m (ch_chosen c) (ch_context_sha256 c) = Inr m' \<Longrightarrow>
     distinct (ch_enabled c) \<Longrightarrow> set (ch_enabled c) = enabled bound model m \<Longrightarrow>
     recorded canon H bound model m' cs m'' \<Longrightarrow> recorded canon H bound model m (c # cs) m''"

inductive_cases recorded_ConsE: "recorded canon H bound model m (c # cs) m''"

lemma sort_matches:
  assumes "finite (A :: path set)"
  shows "sort xs = sorted_list_of_set A \<longleftrightarrow> distinct xs \<and> set xs = A"
  using assms
  by (metis distinct_sort set_sort sorted_list_of_set.distinct_sorted_key_list_of_set
      sorted_list_of_set.set_sorted_key_list_of_set sorted_list_of_set_sort_remdups
      distinct_remdups_id)

lemma enabled_in_finite: "finite (enabled_in bound cap node p m)"
proof (induction node arbitrary: p m)
  case (PartialOrder cs order closure fq)
  have "enabled_in bound cap (PartialOrder cs order closure fq) p m \<subseteq>
      (\<Union>i < length cs. enabled_in bound cap (cs ! i) (p @ [i]) m)"
    by (auto simp: enabled_in_order)
  then show ?case by (rule finite_subset) (simp add: PartialOrder.IH)
next
  case (ChoiceGraph cs es s e fq)
  have "enabled_in bound cap (ChoiceGraph cs es s e fq) p m \<subseteq>
      (\<Union>i < length cs. enabled_in bound cap (cs ! i) (p @ [i]) m \<union>
         enabled_in bound cap (cs ! i) (p @ [i]) (purged (p @ [i]) True m))"
    by (auto simp: enabled_in_choice child_active_def may_enter_def)
  then show ?case by (rule finite_subset) (simp add: ChoiceGraph.IH)
qed (simp_all add: enabled_in_leaf)

lemma enabled_finite [simp]: "finite (enabled bound model m)"
  by (simp add: enabled_def enabled_in_finite)

text \<open>Replaying a record list succeeds with a marking exactly when the list
  is the record of a run to that marking: every step fires, and the enabled set it recorded,
  listed in any order, is the one the executor computes.\<close>

theorem replay_exact:
  "replay canon H bound model cs m = Inr m' \<longleftrightarrow> recorded canon H bound model m cs m'"
proof (induction cs arbitrary: m)
  case Nil
  show ?case by (auto intro: recorded_nil elim: recorded.cases)
next
  case (Cons c cs)
  show ?case
  proof
    assume "replay canon H bound model (c # cs) m = Inr m'"
    then obtain m1 where "sort (ch_enabled c) = sorted_list_of_set (enabled bound model m)"
      "fire canon H bound model m (ch_chosen c) (ch_context_sha256 c) = Inr m1"
      "replay canon H bound model cs m1 = Inr m'"
      by (auto simp: Let_def bind_res_Inr_iff split: if_splits)
    with Cons show "recorded canon H bound model m (c # cs) m'"
      by (auto simp: sort_matches intro: recorded_step)
  next
    assume "recorded canon H bound model m (c # cs) m'"
    then show "replay canon H bound model (c # cs) m = Inr m'"
    proof (rule recorded_ConsE)
      fix m1
      assume step: "fire canon H bound model m (ch_chosen c) (ch_context_sha256 c) = Inr m1"
        "distinct (ch_enabled c)" "set (ch_enabled c) = enabled bound model m"
        "recorded canon H bound model m1 cs m'"
      then have "ch_chosen c \<in> enabled bound model m" by (auto simp: fire_unfold split: if_splits)
      moreover have "sort (ch_enabled c) = sorted_list_of_set (enabled bound model m)"
        using step by (simp add: sort_matches)
      ultimately show ?thesis using step Cons.IH by (simp add: Let_def)
    qed
  qed
qed

end
