(* ===== verification/Powl_Gaps.thy ===== *)
theory Powl_Gaps
  imports Powl_Counters
begin

text \<open>
  Where the executor and the validator part from what the models mean: a composite that may
  be repeated zero times is never run inside a partial order, a choice graph that has to pass
  through a block with no permitted repetition deadlocks, and a partial order whose cached
  closure contradicts its stored order is accepted and executed by the closure.
\<close>

fun node_frequency :: "powl \<Rightarrow> frequency option" where
  "node_frequency (PartialOrder cs order closure fq) = Some fq"
| "node_frequency (ChoiceGraph cs es start end fq) = Some fq"
| "node_frequency _ = None"

lemma fresh_skippable_complete:
  assumes "node_frequency node = Some fq" "allows fq 0" "fresh_under p m"
  shows "is_complete node p m"
  using assms
  by (cases node) (auto simp: is_complete.simps round_complete_def fresh_under_def Let_def)

lemma fresh_closed: "fresh_under (p @ [i]) m \<Longrightarrow> fresh_under (p @ [i]) (close_node node p m)"
  unfolding fresh_under_iff close_node_def by (auto dest: under_child strictly_under_under)

lemma optional_fresh:
  assumes "reaches canon H bound (PartialOrder cs order closure fq) m" "i < length cs"
    and "node_frequency (cs ! i) = Some f" "allows f 0"
  shows "fresh_under [i] m"
  using assms(1)
proof (induction rule: reaches_induct)
  case initial
  show ?case by (simp add: fresh_under_iff initial_marking_def get0_def)
next
  case (fire m path ctx m')
  let ?model = "PartialOrder cs order closure fq"
  from fire.hyps(2) have en: "path \<in> enabled bound ?model m" and m': "m' = fired canon H ?model m path ctx"
    by (auto simp: fire_unfold split: if_splits)
  from en obtain j q where j: "path = j # q" "\<not> is_complete (cs ! j) [j] m"
    unfolding enabled_def enabled_in_order
    by (metis append_Cons append_Nil enabled_in_under)
  have "is_complete (cs ! i) [i] m"
    by (rule fresh_skippable_complete [OF assms(3,4) fire.IH])
  with j(2) have "i \<noteq> j" by auto
  let ?adv = "advance (occurrence_of canon H ?model m path ctx) path
       (walk_visits ?model [] path m (mk_visits m)) (mk_fires m)"
  let ?w = "walk (cs ! j) [j] q ?adv m"
  have "same_outside [j] m ?w"
    by (rule walk_outside) (simp add: j(1) advance_at_advance)
  then have "fresh_under [i] ?w"
    using fresh_same [OF fire.IH] same_outside_sibling [of "[]" j m ?w i] \<open>i \<noteq> j\<close> by simp
  then show ?case
    using fresh_closed [of "[]" i] unfolding m' by (simp add: fired_def j(1) enter_child_def)
qed

text \<open>A composite child of a partial order whose frequency permits zero
  repetitions counts as complete before it has started, so in no marking that firings lead to
  is anything inside it enabled: an OPTIONAL or ZERO_OR_MORE block of a partial order can be
  skipped but never run.\<close>

theorem optional_never_run:
  assumes "reaches canon H bound (PartialOrder cs order closure fq) m" "i < length cs"
    and "node_frequency (cs ! i) = Some f" "allows f 0"
  shows "i # q \<notin> enabled bound (PartialOrder cs order closure fq) m"
proof
  assume "i # q \<in> enabled bound (PartialOrder cs order closure fq) m"
  then have "\<not> is_complete (cs ! i) [i] m"
    unfolding enabled_def enabled_in_order by (auto dest: enabled_in_under)
  with fresh_skippable_complete [OF assms(3,4) optional_fresh [OF assms]] show False by contradiction
qed

lemma empty_order_wf: "order_wf n {} {} \<longleftrightarrow> 2 \<le> n"
  by (auto simp: order_wf_def covers_def strict_order_def acyclic_def)

definition demo_optional :: powl where
  "demo_optional = PartialOrder
     [PartialOrder [demo_atom ''a'', demo_atom ''b''] {} {} OPTIONAL, demo_atom ''c''] {} {} ONCE"

theorem optional_never_run_witness:
  "validate_model demo_optional = Inr () \<and> [0, 0] \<notin> enabled default_bound demo_optional initial_marking"
proof -
  have "validate_model demo_optional = Inr ()"
    by (simp add: validate_model_def validate_ok(1) demo_optional_def del: validate.simps
        add: empty_order_wf freq_wf_def
        ONCE_def OPTIONAL_def demo_atom_def MAX_POWL_DEPTH_def)
  moreover have "[0, 0] \<notin> enabled default_bound demo_optional initial_marking"
    unfolding demo_optional_def
    by (rule optional_never_run [OF reaches_initial, of _ _ OPTIONAL])
      (simp_all add: OPTIONAL_def allows_def)
  ultimately show ?thesis ..
qed

text \<open>
  A valid model whose only walk goes through a block with \<open>Frequency(0, 0)\<close>: after the start
  has fired nothing is enabled, although skipping the block would finish the round.
\<close>

definition demo_empty_block :: powl where
  "demo_empty_block = ChoiceGraph
     [Start, ChoiceGraph [Start, demo_atom ''a'', End] [demo_edge_to 0 1, demo_edge_to 1 2] 0 2
        \<lparr>fq_min = 0, fq_max = Some 0\<rparr>, End]
     [demo_edge_to 0 1, demo_edge_to 1 2] 0 2 ONCE"

theorem empty_block_deadlocks:
  "validate_model demo_empty_block = Inr () \<and>
   (case fire (\<lambda>_. []) (\<lambda>_. []) default_bound demo_empty_block initial_marking [0] [] of
      Inr m \<Rightarrow> \<not> is_final demo_empty_block m \<and>
        classify_stall default_bound demo_empty_block m = DEADLOCK
    | Inl _ \<Rightarrow> False)"
proof
  show "validate_model demo_empty_block = Inr ()" by code_simp
  show "case fire (\<lambda>_. []) (\<lambda>_. []) default_bound demo_empty_block initial_marking [0] [] of
      Inr m \<Rightarrow> \<not> is_final demo_empty_block m \<and>
        classify_stall default_bound demo_empty_block m = DEADLOCK
    | Inl _ \<Rightarrow> False"
    by code_simp
qed

text \<open>The order \<open>0 \<rightarrow> 1\<close> with a cached closure that has lost it.\<close>

definition demo_stale :: powl where
  "demo_stale = PartialOrder [demo_atom ''check'', demo_atom ''act''] {(0, 1)} {} ONCE"

lemma single_edge_wf: "order_wf 2 {(0, 1)} {}"
proof -
  have "{(0::nat, 1::nat)}\<^sup>+ = {(0, 1)}"
    by (rule trancl_id) (simp add: trans_def)
  then show ?thesis
    by (auto simp: order_wf_def covers_def strict_order_def acyclic_def)
qed

text \<open>The validator does not compare the cached closure of a partial
  order with its stored order. A model that stores the order check before act but caches an
  empty closure is accepted, and the executor, which reads only the closure, lets act fire
  first.\<close>

theorem stale_closure_accepted:
  "validate_model demo_stale = Inr () \<and>
   (case fire (\<lambda>_. []) (\<lambda>_. []) default_bound demo_stale initial_marking [1] [] of
      Inr m \<Rightarrow> [1] \<in> mk_completed_paths m \<and> [0] \<notin> mk_completed_paths m
    | Inl _ \<Rightarrow> False)"
proof
  show "validate_model demo_stale = Inr ()"
    using single_edge_wf
    by (simp add: validate_model_def validate_ok(1) demo_stale_def freq_wf_def ONCE_def
        demo_atom_def MAX_POWL_DEPTH_def numeral_2_eq_2 del: validate.simps)
  show "case fire (\<lambda>_. []) (\<lambda>_. []) default_bound demo_stale initial_marking [1] [] of
      Inr m \<Rightarrow> [1] \<in> mk_completed_paths m \<and> [0] \<notin> mk_completed_paths m
    | Inl _ \<Rightarrow> False"
    by code_simp
qed

end
