(* ===== verification/Powl_Runner.thy ===== *)
theory Powl_Runner
  imports Powl_Counters
begin

text \<open>
  The pipeline runner (\<open>powl/runner.py\<close>, \<open>powl/spec.py\<close>), its event recorder
  (\<open>powl/ocel_bridge.py\<close>) and the conformance check (\<open>powl/conformance.py\<close>). A bound callable
  is a parameter: called for the \<open>n\<close>-th firing it returns a value or raises (the step number
  stands for everything its answer may depend on), and so is the capability gate. A batch of
  bindings runs on worker threads in the code; only the results, not their order of arrival,
  enter the log. Event times are left out.
\<close>

section \<open>Text\<close>

function nat_str :: "nat \<Rightarrow> string" where
  "nat_str n = (if n < 10 then [char_of (48 + n)] else nat_str (n div 10) @ [char_of (48 + n mod 10)])"
  by pat_completeness auto
termination by (relation "measure id") auto

text \<open>\<open>f"{path}"\<close>, the repr of a tuple of ints\<close>

fun path_repr :: "path \<Rightarrow> string" where
  "path_repr [i] = ''('' @ nat_str i @ '',)''"
| "path_repr p = ''('' @ join '', '' (map nat_str p) @ '')''"

definition label_of :: "powl \<Rightarrow> path \<Rightarrow> string" where
  "label_of node path = (case node of Atom a \<Rightarrow> at_label a | _ \<Rightarrow> ''path:'' @ path_repr path)"

section \<open>The pipeline specification\<close>

record pipeline_spec =
  ps_readonly_labels :: "string set"
  ps_actuation_labels :: "string set"
  ps_oracle_labels :: "string set"
  ps_default_session_id :: string
  ps_recorder_server_name :: string

text \<open>What an \<open>ActionBinding\<close> is given: label, action and bindings of the atom.\<close>

type_synonym atom_attrs = "string \<times> string \<times> dict"

type_synonym action_binding = "nat \<Rightarrow> atom_attrs \<Rightarrow> exn + json"

type_synonym capability_gate = "nat \<Rightarrow> string \<Rightarrow> exn option"

record gated_binding =
  gb_capability_name :: string
  gb_callable :: action_binding
  gb_gate :: capability_gate

text \<open>\<open>__post_init__\<close>: the gate is checked before the binding exists (at time \<open>now\<close>).\<close>

definition make_gated_binding ::
    "nat \<Rightarrow> string \<Rightarrow> action_binding \<Rightarrow> capability_gate \<Rightarrow> exn + gated_binding" where
  "make_gated_binding now cap callable gate =
     (case gate now cap of
        Some e \<Rightarrow> Inl e
      | None \<Rightarrow> Inr \<lparr>gb_capability_name = cap, gb_callable = callable, gb_gate = gate\<rparr>)"

definition call_gated :: "gated_binding \<Rightarrow> action_binding" where
  "call_gated b now attrs =
     (case gb_gate b now (gb_capability_name b) of
        Some e \<Rightarrow> Inl e
      | None \<Rightarrow> gb_callable b now attrs)"

datatype binding = Bare action_binding | Gated gated_binding

fun is_gated :: "binding \<Rightarrow> bool" where
  "is_gated (Gated b) = True"
| "is_gated (Bare f) = False"

fun call_binding :: "binding \<Rightarrow> action_binding" where
  "call_binding (Bare f) = f"
| "call_binding (Gated b) = call_gated b"

datatype binding_refusal =
    UNKNOWN_LABELS "string list"
  | UNGATED_ACTUATION_BINDING "string list"
  | ACTUATION_BINDING_ON_READONLY_LABEL "string list"
  | INCOMPLETE_BINDINGS "string list"

text \<open>The checks before anything fires; an absent or empty dict of bindings passes them all.\<close>

definition check_bindings ::
    "pipeline_spec \<Rightarrow> (string \<times> binding) list \<Rightarrow> bool \<Rightarrow> binding_refusal + unit" where
  "check_bindings spec bindings allow_partial =
     (if bindings = [] then Inr ()
      else
        let keys = remdups (map fst bindings);
            known = ps_readonly_labels spec \<union> ps_actuation_labels spec \<union> ps_oracle_labels spec;
            gated = (\<lambda>l. case map_of bindings l of Some b \<Rightarrow> is_gated b | None \<Rightarrow> False);
            refused = sort (filter (\<lambda>l. l \<notin> known) keys);
            ungated = sort (filter (\<lambda>l. l \<in> ps_actuation_labels spec \<and> \<not> gated l) keys);
            misgated = sort (filter (\<lambda>l. l \<in> ps_readonly_labels spec \<union> ps_oracle_labels spec \<and> gated l) keys);
            missing = sorted_list_of_set
              ((ps_readonly_labels spec \<union> ps_actuation_labels spec) - set keys)
        in if refused \<noteq> [] then Inl (UNKNOWN_LABELS refused)
           else if ungated \<noteq> [] then Inl (UNGATED_ACTUATION_BINDING ungated)
           else if misgated \<noteq> [] then Inl (ACTUATION_BINDING_ON_READONLY_LABEL misgated)
           else if \<not> allow_partial \<and> missing \<noteq> [] then Inl (INCOMPLETE_BINDINGS missing)
           else Inr ())"

section \<open>The recorder\<close>

record ocel_event =
  oe_id :: string
  oe_type :: string
  oe_attributes :: "(string \<times> string) list"
  oe_relationships :: "(string \<times> string) list"

record ocel_recorder =
  or_session_id :: string
  or_declared :: "string list"
  or_objects :: "(string \<times> string) list"
  or_object_types :: "string list"
  or_events :: "ocel_event list"
  or_event_types :: "string list"

definition new_recorder :: "string \<Rightarrow> ocel_recorder" where
  "new_recorder session_id = \<lparr>or_session_id = session_id, or_declared = [session_id],
     or_objects = [(session_id, ''PowlSession'')], or_object_types = [''PowlSession''],
     or_events = [], or_event_types = []\<rparr>"

text \<open>\<open>dict.setdefault\<close> on a dict used as an ordered set\<close>

definition add_key :: "'a \<Rightarrow> 'a list \<Rightarrow> 'a list" where
  "add_key x xs = (if x \<in> set xs then xs else xs @ [x])"

definition ensure_object :: "string \<Rightarrow> string \<Rightarrow> ocel_recorder \<Rightarrow> ocel_recorder" where
  "ensure_object object_id object_type r =
     (if object_id \<in> set (or_declared r) then r
      else r\<lparr>or_declared := or_declared r @ [object_id],
             or_objects := or_objects r @ [(object_id, object_type)],
             or_object_types := add_key object_type (or_object_types r)\<rparr>)"

text \<open>\<open>str(v)\<close> of an attribute value; \<open>txt\<close> renders what is not a string.\<close>

fun str_of :: "(json \<Rightarrow> string) \<Rightarrow> json \<Rightarrow> string" where
  "str_of txt (JStr s) = s"
| "str_of txt v = txt v"

definition record_event ::
    "(json \<Rightarrow> string) \<Rightarrow> string \<Rightarrow> (string \<times> string) list \<Rightarrow> dict \<Rightarrow> ocel_recorder \<Rightarrow> ocel_recorder" where
  "record_event txt activity objects outcome r =
     (let touched = (or_session_id r, ''PowlSession'') # objects;
          r' = fold (\<lambda>(i, t). ensure_object i t) touched r
      in r'\<lparr>or_event_types := add_key activity (or_event_types r'),
            or_events := or_events r' @
              [\<lparr>oe_id = ''e'' @ nat_str (length (or_events r')), oe_type = activity,
                oe_attributes = map (\<lambda>(k, v). (k, str_of txt v)) outcome,
                oe_relationships = touched\<rparr>]\<rparr>)"

section \<open>The run\<close>

text \<open>\<open>f"{type(exc).__name__}: {exc}"\<close>\<close>

fun exn_text :: "exn \<Rightarrow> string" where
  "exn_text (Boundary code) = ''BoundaryBlocked: '' @ code"
| "exn_text (Raised t msg) = t @ '': '' @ msg"

definition atom_attrs_of :: "atom_node \<Rightarrow> atom_attrs" where
  "atom_attrs_of a = (at_label a, at_action a, at_bindings a)"

text \<open>Only an atom whose label is bound has anything invoked.\<close>

definition invoke ::
    "(string \<times> binding) list \<Rightarrow> powl \<Rightarrow> string \<Rightarrow> nat \<Rightarrow> (exn + json) option" where
  "invoke bindings node label step =
     (case (map_of bindings label, node) of
        (Some b, Atom a) \<Rightarrow> Some (call_binding b step (atom_attrs_of a))
      | _ \<Rightarrow> None)"

text \<open>A recorder call, still without the object id of its node.\<close>

record pipeline_event =
  pe_activity :: string
  pe_path :: path
  pe_outcome :: dict

definition fire_event :: "path \<Rightarrow> string \<Rightarrow> nat \<Rightarrow> json option \<Rightarrow> pipeline_event" where
  "fire_event path label step result =
     \<lparr>pe_activity = ''powl_structural_fire'', pe_path = path,
      pe_outcome = [(''standing'', JStr ''FIRED''), (''detail'', JStr label),
         (''steps_taken'', JInt (int step))] @
        (case result of None \<Rightarrow> [] | Some v \<Rightarrow> [(''action_result'', v)])\<rparr>"

definition error_event :: "path \<Rightarrow> string \<Rightarrow> nat \<Rightarrow> exn \<Rightarrow> pipeline_event" where
  "error_event path label step e =
     \<lparr>pe_activity = ''powl_action_binding_error'', pe_path = path,
      pe_outcome = [(''standing'', JStr ''ERROR''), (''detail'', JStr label),
         (''steps_taken'', JInt (int step)), (''error'', JStr (exn_text e))]\<rparr>"

definition event_of :: "path \<Rightarrow> string \<Rightarrow> nat \<Rightarrow> (exn + json) option \<Rightarrow> pipeline_event" where
  "event_of path label step result =
     (case result of
        None \<Rightarrow> fire_event path label step None
      | Some (Inr v) \<Rightarrow> fire_event path label step (Some v)
      | Some (Inl e) \<Rightarrow> error_event path label step e)"

definition raised :: "(exn + json) option \<Rightarrow> exn option" where
  "raised result = (case result of Some (Inl e) \<Rightarrow> Some e | _ \<Rightarrow> None)"

text \<open>
  One turn of the loop: \<open>None\<close> when nothing could be fired (the code breaks), otherwise the
  events recorded, the first exception if a binding raised, and the new marking and step.
\<close>

type_synonym round = "(exn option \<times> pipeline_event list \<times> marking \<times> nat) option"

definition single_round ::
    "canon_fun \<Rightarrow> digest_fun \<Rightarrow> execution_bound \<Rightarrow> powl \<Rightarrow> (string \<times> binding) list \<Rightarrow>
       path \<Rightarrow> marking \<Rightarrow> nat \<Rightarrow> round" where
  "single_round canon H bound model bindings chosen m step =
     (case node_at model chosen of
        Inl _ \<Rightarrow> None
      | Inr node \<Rightarrow>
        (case fire canon H bound model m chosen [] of
           Inl _ \<Rightarrow> None
         | Inr m' \<Rightarrow>
             let label = label_of node chosen;
                 result = invoke bindings node label (Suc step)
             in Some (raised result, [event_of chosen label (Suc step) result], m', Suc step)))"

text \<open>Step A of a batch: fire the paths in order until one refuses.\<close>

fun fire_batch ::
    "canon_fun \<Rightarrow> digest_fun \<Rightarrow> execution_bound \<Rightarrow> powl \<Rightarrow> path list \<Rightarrow> marking \<Rightarrow> nat \<Rightarrow>
       (path \<times> powl \<times> string \<times> nat) list \<times> marking \<times> nat" where
  "fire_batch canon H bound model [] m step = ([], m, step)"
| "fire_batch canon H bound model (p # ps) m step =
     (case fire canon H bound model m p [] of
        Inl _ \<Rightarrow> ([], m, step)
      | Inr m' \<Rightarrow>
        (case node_at model p of
           Inl _ \<Rightarrow> ([], m', Suc step)
         | Inr node \<Rightarrow>
            let (rest, m'', step') = fire_batch canon H bound model ps m' (Suc step)
            in ((p, node, label_of node p, Suc step) # rest, m'', step')))"

text \<open>Steps B and C: invoke what fired, record all of it in batch order, raise the first error.\<close>

definition batch_round ::
    "canon_fun \<Rightarrow> digest_fun \<Rightarrow> execution_bound \<Rightarrow> powl \<Rightarrow> (string \<times> binding) list \<Rightarrow>
       path list \<Rightarrow> marking \<Rightarrow> nat \<Rightarrow> round" where
  "batch_round canon H bound model bindings batch m step =
     (let (fired_this_round, m', step') = fire_batch canon H bound model batch m step
      in if fired_this_round = [] then None
         else
           let results = map (\<lambda>(p, node, label, n). (p, label, n, invoke bindings node label n))
                 fired_this_round;
               errors = List.map_filter (\<lambda>(p, label, n, r). raised r) results
           in Some (if errors = [] then None else Some (hd errors),
                map (\<lambda>(p, label, n, r). event_of p label n r) results, m', step'))"

definition pipeline_round ::
    "canon_fun \<Rightarrow> digest_fun \<Rightarrow> execution_bound \<Rightarrow> powl \<Rightarrow> (string \<times> binding) list \<Rightarrow>
       marking \<Rightarrow> nat \<Rightarrow> round" where
  "pipeline_round canon H bound model bindings m step =
     (if mk_fires m \<ge> eb_max_activity_fires bound then None
      else
        let batch = sorted_list_of_set (enabled bound model m)
        in case batch of
             [] \<Rightarrow> None
           | [chosen] \<Rightarrow> single_round canon H bound model bindings chosen m step
           | _ \<Rightarrow> batch_round canon H bound model bindings batch m step)"

lemma fire_fires:
  "fire canon H bound model m path ctx = Inr m' \<Longrightarrow>
     mk_fires m' = Suc (mk_fires m) \<and> mk_fires m < eb_max_activity_fires bound"
  by (auto simp: fire_unfold split: if_splits)

lemma fire_batch_fires:
  "fire_batch canon H bound model ps m step = (fs, m', step') \<Longrightarrow> fs \<noteq> [] \<Longrightarrow>
     mk_fires m < mk_fires m' \<and> mk_fires m < eb_max_activity_fires bound"
proof (induction ps arbitrary: m step fs)
  case (Cons p ps)
  then obtain m1 node fs1 where s: "fire canon H bound model m p [] = Inr m1"
    "fire_batch canon H bound model ps m1 (Suc step) = (fs1, m', step')"
    by (auto split: sum.splits prod.splits simp: Let_def)
  show ?case
  proof (cases "fs1 = []")
    case True
    have "fire_batch canon H bound model ps m1 (Suc step) = ([], m', step') \<Longrightarrow> mk_fires m1 \<le> mk_fires m'"
      by (cases ps) (auto split: sum.splits prod.splits simp: Let_def dest: fire_fires)
    with s True fire_fires [OF s(1)] show ?thesis by auto
  next
    case False
    with Cons.IH [OF s(2)] fire_fires [OF s(1)] show ?thesis by auto
  qed
qed simp

lemma pipeline_round_fires:
  assumes "pipeline_round canon H bound model bindings m step = Some (err, evs, m', step')"
  shows "mk_fires m < mk_fires m' \<and> mk_fires m < eb_max_activity_fires bound"
  using assms unfolding pipeline_round_def single_round_def batch_round_def
  by (auto simp: Let_def simp del: fire_batch.simps split: if_splits list.splits sum.splits prod.splits
      dest: fire_fires fire_batch_fires)

function run_loop ::
    "canon_fun \<Rightarrow> digest_fun \<Rightarrow> execution_bound \<Rightarrow> powl \<Rightarrow> (string \<times> binding) list \<Rightarrow>
       marking \<Rightarrow> nat \<Rightarrow> exn option \<times> pipeline_event list \<times> marking" where
  "run_loop canon H bound model bindings m step =
     (if is_final model m then (None, [], m)
      else case pipeline_round canon H bound model bindings m step of
             None \<Rightarrow> (None, [], m)
           | Some (Some e, evs, m', step') \<Rightarrow> (Some e, evs, m')
           | Some (None, evs, m', step') \<Rightarrow>
               let (err, later, m'') = run_loop canon H bound model bindings m' step'
               in (err, evs @ later, m''))"
  by pat_completeness auto
termination
  by (relation "measure (\<lambda>(_, _, bound, _, _, m, _). eb_max_activity_fires bound - mk_fires m)")
    (auto dest!: pipeline_round_fires)

declare run_loop.simps [simp del]

lemma run_loop_stop:
  "is_final model m \<or> pipeline_round canon H bound model bindings m step = None \<Longrightarrow>
     run_loop canon H bound model bindings m step = (None, [], m)"
  by (subst run_loop.simps) auto

lemma run_loop_raise:
  "\<not> is_final model m \<Longrightarrow> pipeline_round canon H bound model bindings m step = Some (Some e, evs, m', step') \<Longrightarrow>
     run_loop canon H bound model bindings m step = (Some e, evs, m')"
  by (subst run_loop.simps) simp

lemma run_loop_go:
  "\<not> is_final model m \<Longrightarrow> pipeline_round canon H bound model bindings m step = Some (None, evs, m', step') \<Longrightarrow>
     run_loop canon H bound model bindings m' step' = (err, later, m'') \<Longrightarrow>
     run_loop canon H bound model bindings m step = (err, evs @ later, m'')"
  by (subst run_loop.simps) simp

lemma run_loop_induct [consumes 1, case_names stop raise go]:
  assumes "run_loop canon H bound model bindings m step = (err, evs, m')"
    and stop: "\<And>m step. is_final model m \<or> pipeline_round canon H bound model bindings m step = None \<Longrightarrow>
      P m step None [] m"
    and raise: "\<And>m step e evs m1 step1. \<not> is_final model m \<Longrightarrow>
      pipeline_round canon H bound model bindings m step = Some (Some e, evs, m1, step1) \<Longrightarrow>
      P m step (Some e) evs m1"
    and go: "\<And>m step evs m1 step1 err later m2. \<not> is_final model m \<Longrightarrow>
      pipeline_round canon H bound model bindings m step = Some (None, evs, m1, step1) \<Longrightarrow>
      P m1 step1 err later m2 \<Longrightarrow> P m step err (evs @ later) m2"
  shows "P m step err evs m'"
  using assms(1)
proof (induction "eb_max_activity_fires bound - mk_fires m" arbitrary: m step err evs m' rule: less_induct)
  case less
  show ?case
  proof (cases "is_final model m \<or> pipeline_round canon H bound model bindings m step = None")
    case True
    with less.prems stop show ?thesis by (simp add: run_loop_stop)
  next
    case False
    then obtain e evs1 m1 step1 where r: "pipeline_round canon H bound model bindings m step = Some (e, evs1, m1, step1)"
      by (metis option.exhaust prod_cases4)
    show ?thesis
    proof (cases e)
      case None
      obtain err2 evs2 m2 where later: "run_loop canon H bound model bindings m1 step1 = (err2, evs2, m2)"
        by (metis prod_cases3)
      have eq: "err = err2" "evs = evs1 @ evs2" "m' = m2"
        using run_loop_go [OF _ _ later] r None False less.prems by simp_all
      have "P m1 step1 err2 evs2 m2"
        using pipeline_round_fires [OF r] by (intro less.hyps later) auto
      with go False r None eq show ?thesis by simp
    next
      case (Some x)
      with raise run_loop_raise r False less.prems show ?thesis by fastforce
    qed
  qed
qed

record stall_result =
  sr_final :: bool
  sr_stall :: "deadlock_kind option"

definition classify_pipeline_stall :: "execution_bound \<Rightarrow> powl \<Rightarrow> marking \<Rightarrow> stall_result" where
  "classify_pipeline_stall bound model m =
     (if is_final model m then \<lparr>sr_final = True, sr_stall = None\<rparr>
      else if mk_fires m \<ge> eb_max_activity_fires bound \<or>
        card (mk_completed_paths m) \<ge> eb_max_marking_states bound \<or> enabled bound model m = {}
      then \<lparr>sr_final = False, sr_stall = Some (classify_stall bound model m)\<rparr>
      else \<lparr>sr_final = False, sr_stall = None\<rparr>)"

definition node_object_id :: "string \<Rightarrow> path \<Rightarrow> string" where
  "node_object_id session_id path = session_id @ ''-node-'' @ join ''.'' (map nat_str path)"

definition record_all ::
    "(json \<Rightarrow> string) \<Rightarrow> string \<Rightarrow> pipeline_event list \<Rightarrow> ocel_recorder" where
  "record_all txt session_id evs =
     fold (\<lambda>e. record_event txt (pe_activity e)
         [(node_object_id session_id (pe_path e), ''PowlNode'')] (pe_outcome e))
       evs (new_recorder session_id)"

text \<open>
  \<open>run_pipeline\<close> with the default recorder. \<open>Raised\<close> carries what the recorder holds when a
  binding's exception leaves the function.
\<close>

datatype pipeline_outcome =
    ModelRefused refusal
  | BindingsRefused binding_refusal
  | BindingRaised exn ocel_recorder
  | Returned ocel_recorder stall_result

definition run_pipeline ::
    "canon_fun \<Rightarrow> digest_fun \<Rightarrow> (json \<Rightarrow> string) \<Rightarrow> powl \<Rightarrow> pipeline_spec \<Rightarrow> string option \<Rightarrow>
       (string \<times> binding) list \<Rightarrow> execution_bound \<Rightarrow> bool \<Rightarrow> pipeline_outcome" where
  "run_pipeline canon H txt model spec session_id bindings bound allow_partial =
     (case validate_model model of
        Inl r \<Rightarrow> ModelRefused r
      | Inr _ \<Rightarrow>
        (case check_bindings spec bindings allow_partial of
           Inl r \<Rightarrow> BindingsRefused r
         | Inr _ \<Rightarrow>
             let sid = (case session_id of
                   None \<Rightarrow> ps_default_session_id spec
                 | Some s \<Rightarrow> if s = [] then ps_default_session_id spec else s);
                 (err, evs, m) = run_loop canon H bound model bindings initial_marking 0;
                 rec = record_all txt sid evs
             in case err of
                  Some e \<Rightarrow> BindingRaised e rec
                | None \<Rightarrow> Returned rec (classify_pipeline_stall bound model m)))"

section \<open>How a run ends\<close>

lemma fire_batch_reaches:
  "reaches canon H bound model m \<Longrightarrow> fire_batch canon H bound model ps m step = (fs, m', step') \<Longrightarrow>
     reaches canon H bound model m'"
proof (induction ps arbitrary: m step fs)
  case (Cons p ps)
  then show ?case by (auto split: sum.splits prod.splits simp: Let_def dest: reaches_fire)
qed simp

lemma pipeline_round_reaches:
  assumes "pipeline_round canon H bound model bindings m step = Some (err, evs, m', step')"
    and "reaches canon H bound model m"
  shows "reaches canon H bound model m'"
  using assms unfolding pipeline_round_def single_round_def batch_round_def
  by (auto simp: Let_def simp del: fire_batch.simps split: if_splits list.splits sum.splits prod.splits
      dest: reaches_fire fire_batch_reaches)

text \<open>A turn that fires nothing has met a bound or has nothing enabled.\<close>

lemma stuck_round:
  assumes "pipeline_round canon H bound model bindings m step = None"
    and "reaches canon H bound model m"
  shows "mk_fires m \<ge> eb_max_activity_fires bound \<or>
    card (mk_completed_paths m) \<ge> eb_max_marking_states bound \<or> enabled bound model m = {}"
proof (rule ccontr)
  assume "\<not> ?thesis"
  then have room: "mk_fires m < eb_max_activity_fires bound"
    "card (mk_completed_paths m) < eb_max_marking_states bound" "enabled bound model m \<noteq> {}"
    by auto
  have go: "\<exists>m'. fire canon H bound model m p [] = Inr m'" if "p \<in> enabled bound model m" for p
  proof -
    have "card (mk_completed_paths (walk_in model [] p m)) \<le> card (mk_completed_paths m)"
      using counters_reached [OF assms(2)] by (intro card_mono walk_in_completed) (simp add: counters_ok_def)
    with room that show ?thesis by (simp add: fire_unfold)
  qed
  obtain p ps where batch: "sorted_list_of_set (enabled bound model m) = p # ps"
    using room(3) by (metis enabled_finite list.exhaust sorted_list_of_set_eq_Nil_iff)
  then have en: "p \<in> enabled bound model m"
    by (metis enabled_finite list.set_intros(1) set_sorted_list_of_set)
  then obtain leaf where "node_at model p = Inr leaf" by (rule enabled_leaf)
  with go [OF en] batch room(1) assms(1) show False
    unfolding pipeline_round_def single_round_def batch_round_def
    by (auto simp: Let_def split: list.splits prod.splits)
qed

lemma run_loop_end:
  assumes "run_loop canon H bound model bindings m step = (err, evs, m')"
    and "reaches canon H bound model m"
  shows "reaches canon H bound model m' \<and>
    (err = None \<longrightarrow> is_final model m' \<or> (\<exists>n. pipeline_round canon H bound model bindings m' n = None))"
  using assms
  by (induction rule: run_loop_induct) (auto dest: pipeline_round_reaches)

text \<open>C17: \<open>run_pipeline\<close> always returns (its loop is a total function). When
  it returns without a refusal or an exception of a binding, the traversal is final or the
  stop has a classification; and if no composite of the model may be skipped the
  classification is that a declared bound was exhausted, never a deadlock.\<close>

theorem pipeline_classified:
  assumes "run_pipeline canon H txt model spec sid bindings bound partial = Returned rec result"
  shows "(if sr_final result then sr_stall result = None else sr_stall result \<noteq> None) \<and>
    (\<not> unskippable model \<or> sr_stall result \<noteq> Some DEADLOCK)"
proof -
  obtain err evs m where run: "run_loop canon H bound model bindings initial_marking 0 = (err, evs, m)"
    by (metis prod_cases3)
  with assms have wf: "validate_model model = Inr ()" and ok: "err = None"
    and result: "result = classify_pipeline_stall bound model m"
    by (auto simp: run_pipeline_def Let_def split: sum.splits option.splits)
  note m = run_loop_end [OF run reaches_initial]
  have "unskippable model \<Longrightarrow> classify_stall bound model m = STALL_BOUND_EXHAUSTED" if "\<not> is_final model m"
    using not_final_enabled [of canon H bound model m 1] m wf that
    by (auto simp: validate_model_def validate_ok classify_stall_def)
  moreover have "mk_fires m \<ge> eb_max_activity_fires bound \<or>
      card (mk_completed_paths m) \<ge> eb_max_marking_states bound \<or> enabled bound model m = {}"
    if "\<not> is_final model m"
    using m ok that stuck_round by blast
  ultimately show ?thesis
    by (cases "is_final model m") (simp_all add: result classify_pipeline_stall_def)
qed

lemma round_without_bindings:
  "pipeline_round canon H bound model [] m step = Some (err, evs, m', step') \<Longrightarrow> err = None"
proof -
  have none: "invoke [] node label n = None" "raised None = None" for node label n
    by (simp_all add: invoke_def raised_def)
  have "List.map_filter (\<lambda>(p, label, n, r). raised r)
      (map (\<lambda>(p, node, label, n). (p, label, n, invoke [] node label n)) fs) = []" for fs :: "(path \<times> powl \<times> string \<times> nat) list"
    by (induction fs) (auto simp: map_filter_simps none)
  then show "pipeline_round canon H bound model [] m step = Some (err, evs, m', step') \<Longrightarrow> err = None"
    unfolding pipeline_round_def single_round_def batch_round_def
    by (auto simp: Let_def none simp del: fire_batch.simps
        split: if_splits list.splits sum.splits prod.splits)
qed

lemma run_without_bindings:
  "run_loop canon H bound model bindings m step = (err, evs, m') \<Longrightarrow> bindings = [] \<Longrightarrow> err = None"
  by (induction rule: run_loop_induct) (auto dest: round_without_bindings)

definition demo_spec :: pipeline_spec where
  "demo_spec = \<lparr>ps_readonly_labels = {''probe''}, ps_actuation_labels = {''restart''},
     ps_oracle_labels = {}, ps_default_session_id = ''s'', ps_recorder_server_name = ''r''\<rparr>"

theorem pipeline_classified_witness:
  "\<exists>rec result. run_pipeline (\<lambda>_. []) (\<lambda>_. []) (\<lambda>_. []) demo_loop demo_spec None [] default_bound False =
     Returned rec result \<and> sr_stall result \<noteq> Some DEADLOCK"
proof -
  obtain err evs m where run: "run_loop (\<lambda>_. []) (\<lambda>_. []) default_bound demo_loop [] initial_marking 0 = (err, evs, m)"
    by (metis prod_cases3)
  with run_without_bindings [OF run refl]
  obtain rec result where out: "run_pipeline (\<lambda>_. []) (\<lambda>_. []) (\<lambda>_. []) demo_loop demo_spec None [] default_bound False =
      Returned rec result"
    by (simp add: run_pipeline_def demo_loop_valid check_bindings_def Let_def)
  from pipeline_classified [OF out] demo_loop_valid(2) out show ?thesis by blast
qed

section \<open>Nothing is actuated past its gate\<close>

lemma fire_batch_entry:
  "fire_batch canon H bound model ps m step = (fs, m', step') \<Longrightarrow> (p, node, l, n) \<in> set fs \<Longrightarrow>
     l = label_of node p"
proof (induction ps arbitrary: m step fs)
  case (Cons q ps)
  then show ?case by (auto split: sum.splits prod.splits simp: Let_def)
qed simp

lemma round_event:
  assumes "pipeline_round canon H bound model bindings m step = Some (err, evs, m', step')"
    and "ev \<in> set evs"
  shows "\<exists>p l n node. ev = event_of p l n (invoke bindings node l n)"
  using assms unfolding pipeline_round_def single_round_def batch_round_def
  by (auto simp: Let_def simp del: fire_batch.simps
      split: if_splits list.splits sum.splits prod.splits) blast+

lemma run_event:
  assumes "run_loop canon H bound model bindings m step = (err, evs, m')" "ev \<in> set evs"
  shows "\<exists>p l n node. ev = event_of p l n (invoke bindings node l n)"
  using assms by (induction rule: run_loop_induct) (auto dest: round_event)

lemma checked_kind:
  assumes "check_bindings spec bindings partial = Inr ()" "map_of bindings l = Some b"
  shows "(l \<in> ps_actuation_labels spec \<longrightarrow> is_gated b) \<and>
    (l \<in> ps_readonly_labels spec \<union> ps_oracle_labels spec \<longrightarrow> \<not> is_gated b)"
proof -
  have "l \<in> set (map fst bindings)" using assms(2) by (metis domI dom_map_of_conv_image_fst set_map)
  moreover have "sort xs = [] \<longleftrightarrow> xs = []" for xs :: "string list"
    by (metis length_0_conv length_sort)
  ultimately show ?thesis
    using assms by (auto simp: check_bindings_def Let_def filter_empty_conv split: if_splits)
qed

lemma event_result:
  "map_of (pe_outcome (event_of p l n r)) ''action_result'' = Some v \<Longrightarrow>
     r = Some (Inr v) \<and> map_of (pe_outcome (event_of p l n r)) ''detail'' = Some (JStr l) \<and>
     map_of (pe_outcome (event_of p l n r)) ''steps_taken'' = Some (JInt (int n))"
  by (auto simp: event_of_def fire_event_def error_event_def split: option.splits sum.splits)

text \<open>C11: with bindings that pass the checks, an event of a run that carries a
  result for an actuation label got it from a gated binding whose gate admitted its capability
  at that very firing; for a read-only or oracle label it came from a bare callable.\<close>

theorem pipeline_gated:
  assumes "check_bindings spec bindings partial = Inr ()"
    and "run_loop canon H bound model bindings initial_marking 0 = (err, evs, m)"
    and "ev \<in> set evs" "map_of (pe_outcome ev) ''action_result'' = Some v"
    and "map_of (pe_outcome ev) ''detail'' = Some (JStr l)"
  shows "(l \<notin> ps_actuation_labels spec \<or>
      (\<exists>b n. map_of (pe_outcome ev) ''steps_taken'' = Some (JInt (int n)) \<and>
        map_of bindings l = Some (Gated b) \<and> gb_gate b n (gb_capability_name b) = None)) \<and>
    (l \<notin> ps_readonly_labels spec \<union> ps_oracle_labels spec \<or>
      (\<exists>f. map_of bindings l = Some (Bare f)))"
proof -
  obtain p n node l' where "ev = event_of p l' n (invoke bindings node l' n)"
    using run_event [OF assms(2,3)] by blast
  with event_result [of p l' n "invoke bindings node l' n" v] assms(4,5)
  have "invoke bindings node l n = Some (Inr v)"
    and n: "map_of (pe_outcome ev) ''steps_taken'' = Some (JInt (int n))" by auto
  then obtain b attrs where b: "map_of bindings l = Some b" "call_binding b n attrs = Inr v"
    by (auto simp: invoke_def split: option.splits powl.splits)
  with n checked_kind [OF assms(1) b(1)] show ?thesis
    by (cases b) (auto simp: call_gated_def split: option.splits)
qed

definition demo_restart :: powl where
  "demo_restart = ChoiceGraph [Start, demo_atom ''restart'', End] [demo_edge_to 0 1, demo_edge_to 1 2] 0 2 ONCE"

definition demo_bindings :: "(string \<times> binding) list" where
  "demo_bindings = [(''restart'', Gated \<lparr>gb_capability_name = ''pods.restart'',
     gb_callable = (\<lambda>_ _. Inr (JBool True)), gb_gate = (\<lambda>n _. if n < 9 then None else Some (value_error []))\<rparr>)]"

theorem pipeline_gated_witness:
  "\<exists>b n. map_of demo_bindings ''restart'' = Some (Gated b) \<and> gb_gate b n (gb_capability_name b) = None"
proof -
  have "case run_loop (\<lambda>_. []) (\<lambda>_. []) default_bound demo_restart demo_bindings initial_marking 0 of
      (err, evs, m) \<Rightarrow> length evs = 3 \<and>
        map_of (pe_outcome (evs ! 1)) ''action_result'' = Some (JBool True) \<and>
        map_of (pe_outcome (evs ! 1)) ''detail'' = Some (JStr ''restart'')"
    by code_simp
  then obtain err evs m where run:
    "run_loop (\<lambda>_. []) (\<lambda>_. []) default_bound demo_restart demo_bindings initial_marking 0 = (err, evs, m)"
    "length evs = 3" "map_of (pe_outcome (evs ! 1)) ''action_result'' = Some (JBool True)"
    "map_of (pe_outcome (evs ! 1)) ''detail'' = Some (JStr ''restart'')"
    by (auto split: prod.splits)
  have "check_bindings demo_spec demo_bindings True = Inr ()" by code_simp
  from pipeline_gated [OF this run(1) nth_mem run(3,4)] run(2) show ?thesis
    by (simp add: demo_spec_def) blast
qed

end
