(* ===== verification/Powl_Conformance.thy ===== *)
theory Powl_Conformance
  imports Powl_Runner
begin

text \<open>
  Token-replay conformance of an event log against a model (\<open>powl/conformance.py\<close>). Accepted
  logs are the traces of final runs; where every label belongs to one leaf the converse holds
  too. With a repeated label the check can reject a legal trace, even one the runner itself
  has recorded.
\<close>

definition FIRE_ACTIVITIES :: "string list" where
  "FIRE_ACTIVITIES = [''powl_structural_fire'', ''powl_action_binding_error'']"

definition observed_labels_from_events :: "ocel_event list \<Rightarrow> string list" where
  "observed_labels_from_events events =
     List.map_filter (\<lambda>e. if oe_type e \<in> set FIRE_ACTIVITIES
       then map_of (oe_attributes e) ''detail'' else None) events"

record conformance_result =
  cf_conforms :: bool
  cf_fired_count :: nat
  cf_observed_count :: nat
  cf_final :: bool
  cf_divergence_index :: "nat option"
  cf_divergence_label :: "string option"
  cf_divergence_enabled_labels :: "string list option"

text \<open>\<open>_label_of(node_at(model, path), path)\<close>\<close>

definition path_label :: "powl \<Rightarrow> path \<Rightarrow> string verdict" where
  "path_label model path = bind_res (node_at model path) (\<lambda>node. Inr (label_of node path))"

text \<open>The loop over the labels still to match; \<open>index\<close> of them are matched.\<close>

fun conformance_loop ::
    "canon_fun \<Rightarrow> digest_fun \<Rightarrow> execution_bound \<Rightarrow> powl \<Rightarrow> nat \<Rightarrow> nat \<Rightarrow> string list \<Rightarrow> marking \<Rightarrow>
       conformance_result verdict" where
  "conformance_loop canon H bound model n_obs index [] m =
     (let final = is_final model m
      in Inr \<lparr>cf_conforms = final, cf_fired_count = index, cf_observed_count = n_obs,
          cf_final = final, cf_divergence_index = (if final then None else Some n_obs),
          cf_divergence_label = None, cf_divergence_enabled_labels = None\<rparr>)"
| "conformance_loop canon H bound model n_obs index (label # labels) m =
     (let live = sorted_list_of_set (enabled bound model m);
          candidates = filter (\<lambda>p. path_label model p = Inr label) live
      in case candidates of
           [] \<Rightarrow> Inr \<lparr>cf_conforms = False, cf_fired_count = index, cf_observed_count = n_obs,
               cf_final = False, cf_divergence_index = Some index,
               cf_divergence_label = Some label,
               cf_divergence_enabled_labels = Some (sort (List.map_filter
                 (\<lambda>p. case path_label model p of Inr l \<Rightarrow> Some l | Inl _ \<Rightarrow> None) live))\<rparr>
         | chosen # _ \<Rightarrow> bind_res (fire canon H bound model m chosen [])
             (conformance_loop canon H bound model n_obs (Suc index) labels))"

definition check_ocel_conformance ::
    "canon_fun \<Rightarrow> digest_fun \<Rightarrow> powl \<Rightarrow> ocel_event list \<Rightarrow> execution_bound \<Rightarrow>
       conformance_result verdict" where
  "check_ocel_conformance canon H model events bound =
     (let observed = observed_labels_from_events events
      in conformance_loop canon H bound model (length observed) 0 observed initial_marking)"

section \<open>Legal runs\<close>

inductive runs ::
    "canon_fun \<Rightarrow> digest_fun \<Rightarrow> execution_bound \<Rightarrow> powl \<Rightarrow> marking \<Rightarrow> path list \<Rightarrow> marking \<Rightarrow> bool"
  for canon H bound model where
  runs_nil: "runs canon H bound model m [] m"
| runs_step: "fire canon H bound model m p [] = Inr m' \<Longrightarrow> runs canon H bound model m' ps m'' \<Longrightarrow>
     runs canon H bound model m (p # ps) m''"

inductive_simps runs_Nil [simp]: "runs canon H bound model m [] m'"
inductive_simps runs_Cons [simp]: "runs canon H bound model m (p # ps) m'"

text \<open>The labels are those of a run that ends in a final marking.\<close>

definition final_trace ::
    "canon_fun \<Rightarrow> digest_fun \<Rightarrow> execution_bound \<Rightarrow> powl \<Rightarrow> marking \<Rightarrow> string list \<Rightarrow> bool" where
  "final_trace canon H bound model m labels \<longleftrightarrow>
     (\<exists>ps m'. runs canon H bound model m ps m' \<and> is_final model m' \<and>
        map (path_label model) ps = map Inr labels)"

definition accepted :: "conformance_result verdict \<Rightarrow> bool" where
  "accepted v = (case v of Inr r \<Rightarrow> cf_conforms r | Inl _ \<Rightarrow> False)"

text \<open>Two leaves with the same label are the same leaf.\<close>

definition labels_unique :: "powl \<Rightarrow> bool" where
  "labels_unique model \<longleftrightarrow>
     (\<forall>p q a b. node_at model p = Inr a \<longrightarrow> node_at model q = Inr b \<longrightarrow> is_leaf a \<longrightarrow>
        is_leaf b \<longrightarrow> label_of a p = label_of b q \<longrightarrow> p = q)"

lemma labels_uniqueD:
  assumes "labels_unique model" "p \<in> enabled bound model m" "q \<in> enabled bound model m"
    and "path_label model p = Inr l" "path_label model q = Inr l"
  shows "p = q"
proof -
  obtain a b where "node_at model p = Inr a" "is_leaf a" "node_at model q = Inr b" "is_leaf b"
    using assms(2,3) by (metis enabled_leaf)
  with assms(1,4,5) show ?thesis by (auto simp: labels_unique_def path_label_def)
qed

lemma conformance_trace:
  "accepted (conformance_loop canon H bound model n_obs index labels m) \<Longrightarrow>
     final_trace canon H bound model m labels"
proof (induction labels arbitrary: index m)
  case Nil
  then show ?case by (auto simp: accepted_def final_trace_def Let_def)
next
  case (Cons l labels)
  let ?cs = "filter (\<lambda>p. path_label model p = Inr l) (sorted_list_of_set (enabled bound model m))"
  from Cons.prems obtain p rest where p: "?cs = p # rest"
    by (cases ?cs) (auto simp: accepted_def)
  have "p \<in> set ?cs" unfolding p by simp
  then have label: "path_label model p = Inr l" by simp
  from Cons.prems p obtain m' where m': "fire canon H bound model m p [] = Inr m'"
    "accepted (conformance_loop canon H bound model n_obs (Suc index) labels m')"
    by (cases "fire canon H bound model m p []") (auto simp: accepted_def Let_def)
  from Cons.IH [OF m'(2)] m'(1) label show ?case
    unfolding final_trace_def by (metis list.simps(9) runs_Cons)
qed

lemma unique_conformance:
  assumes "labels_unique model"
  shows "final_trace canon H bound model m labels \<Longrightarrow>
     accepted (conformance_loop canon H bound model n_obs index labels m)"
proof (induction labels arbitrary: index m)
  case Nil
  then show ?case by (auto simp: accepted_def final_trace_def Let_def)
next
  case (Cons l labels)
  from Cons.prems obtain p ps m' m1 where p: "path_label model p = Inr l"
    "fire canon H bound model m p [] = Inr m1" "runs canon H bound model m1 ps m'" "is_final model m'"
    "map (path_label model) ps = map Inr labels"
    by (auto simp: final_trace_def map_eq_Cons_conv)
  let ?cs = "filter (\<lambda>p. path_label model p = Inr l) (sorted_list_of_set (enabled bound model m))"
  have en: "p \<in> enabled bound model m" using p(2) by (auto simp: fire_unfold split: if_splits)
  then have "p \<in> set ?cs" using p(1) by simp
  moreover have "set ?cs \<subseteq> {p}" using labels_uniqueD [OF assms _ en _ p(1)] by auto
  ultimately obtain rest where "?cs = p # rest"
    by (cases ?cs) auto
  moreover have "accepted (conformance_loop canon H bound model n_obs (Suc index) labels m1)"
    using p(3-5) by (intro Cons.IH) (auto simp: final_trace_def)
  ultimately show ?case using p(2) by simp
qed

text \<open>C34: on a model whose leaves carry different labels, the check accepts a
  log exactly when the labels read from it are those of a run of the executor, within the
  bound, that ends in a final marking.\<close>

theorem conformance_exact:
  assumes "labels_unique model"
  shows "accepted (check_ocel_conformance canon H model events bound) \<longleftrightarrow>
    final_trace canon H bound model initial_marking (observed_labels_from_events events)"
  unfolding check_ocel_conformance_def Let_def
  using conformance_trace unique_conformance [OF assms] by blast

lemma demo_restart_unique: "labels_unique demo_restart"
proof -
  have leaf: "p = [0] \<and> a = Start \<or> p = [1] \<and> a = demo_atom ''restart'' \<or> p = [2] \<and> a = End"
    if "node_at demo_restart p = Inr a" "is_leaf a" for p a
  proof (cases p)
    case (Cons i q)
    with that show ?thesis
      by (cases q) (auto simp: demo_restart_def demo_atom_def less_Suc_eq numeral_3_eq_3 split: if_splits)
  qed (use that in \<open>auto simp: demo_restart_def\<close>)
  have label: "label_of Start [0] = ''path:(0,)''" "label_of End [2] = ''path:(2,)''"
    "label_of (demo_atom ''restart'') r = ''restart''" for r
    by code_simp (code_simp, simp add: label_of_def demo_atom_def)
  have "p = q" if "node_at demo_restart p = Inr a" "node_at demo_restart q = Inr b"
    "is_leaf a" "is_leaf b" "label_of a p = label_of b q" for p q a b
    using leaf [OF that(1,3)] leaf [OF that(2,4)] that(5) by (elim disjE) (simp_all add: label)
  then show ?thesis unfolding labels_unique_def by blast
qed

text \<open>The log the runner records of \<open>demo_restart\<close> when nothing is bound.\<close>

definition demo_log :: "ocel_event list" where
  "demo_log = or_events (record_all (\<lambda>_. []) ''s''
     [fire_event [0] ''path:(0,)'' 1 None, fire_event [1] ''restart'' 2 None,
      fire_event [2] ''path:(2,)'' 3 None])"

theorem conformance_exact_witness:
  "final_trace (\<lambda>_. []) (\<lambda>_. []) default_bound demo_restart initial_marking
     (observed_labels_from_events demo_log)"
proof -
  have "accepted (check_ocel_conformance (\<lambda>_. []) (\<lambda>_. []) demo_restart demo_log default_bound)"
    by code_simp
  then show ?thesis unfolding conformance_exact [OF demo_restart_unique] .
qed

section \<open>A recorded log that does not conform\<close>

text \<open>
  Children: \<open>0\<close> is \<open>b\<close> and waits for \<open>2\<close>; \<open>1\<close> is \<open>a\<close> before \<open>x\<close>; \<open>2\<close> is another \<open>x\<close>.
\<close>

definition demo_twin :: powl where
  "demo_twin = PartialOrder
     [demo_atom ''b'', PartialOrder [demo_atom ''a'', demo_atom ''x''] {(0, 1)} {(0, 1)} ONCE,
      demo_atom ''x''] {(2, 0)} {(2, 0)} ONCE"

lemma one_edge_wf: "i < n \<Longrightarrow> j < n \<Longrightarrow> i \<noteq> j \<Longrightarrow> order_wf n {(i, j)} {(i, j)}"
proof -
  assume "i < n" "j < n" "i \<noteq> j"
  moreover from this have "{(i, j)}\<^sup>+ = {(i, j)}" by (intro trancl_id) (simp add: trans_def)
  ultimately show ?thesis
    by (auto simp: order_wf_def covers_def strict_order_def acyclic_def trans_def irrefl_def)
qed

lemma demo_twin_valid: "validate_model demo_twin = Inr ()"
  by (simp add: validate_model_def validate_ok(1) demo_twin_def freq_wf_def ONCE_def one_edge_wf
      demo_atom_def MAX_POWL_DEPTH_def numeral_2_eq_2 numeral_3_eq_3 del: validate.simps)

text \<open>The markings of the run \<open>a, x, b, x\<close>, and of the other choice of \<open>x\<close> after \<open>a\<close>.\<close>

definition twin_marking :: "nat \<Rightarrow> path set \<Rightarrow> marking" where
  "twin_marking n ps = \<lparr>mk_completed = (\<lambda>i. \<lparr>ok_activity_sha256 = [], ok_occurrence_index = i,
     ok_context_sha256 = []\<rparr>) ` {..<n}, mk_cursor = [], mk_visits = [], mk_fires = n,
     mk_completed_paths = ps, mk_rounds = []\<rparr>"

abbreviation twin_fire :: "marking \<Rightarrow> path \<Rightarrow> marking verdict" where
  "twin_fire m p \<equiv> fire (\<lambda>_. []) (\<lambda>_. []) default_bound demo_twin m p []"

lemma twin_fires:
  "twin_fire initial_marking [1, 0] = Inr (twin_marking 1 {[1, 0]})"
  "twin_fire (twin_marking 1 {[1, 0]}) [2] = Inr (twin_marking 2 {[1, 0], [2]})"
  "twin_fire (twin_marking 2 {[1, 0], [2]}) [0] = Inr (twin_marking 3 {[1, 0], [2], [0]})"
  by code_simp+

lemma twin_enabled:
  "sorted_list_of_set (enabled default_bound demo_twin initial_marking) = [[1, 0], [2]]"
  "sorted_list_of_set (enabled default_bound demo_twin (twin_marking 1 {[1, 0]})) = [[1, 1], [2]]"
  "sorted_list_of_set (enabled default_bound demo_twin (twin_marking 2 {[1, 0], [2]})) = [[0], [1, 1]]"
  by code_simp+

lemma twin_last:
  "case twin_fire (twin_marking 3 {[1, 0], [2], [0]}) [1, 1] of
     Inr m \<Rightarrow> is_final demo_twin m | Inl _ \<Rightarrow> False"
  "sorted_list_of_set (enabled default_bound demo_twin (twin_marking 3 {[1, 0], [2], [0]})) = [[1, 1]]"
  "twin_fire (twin_marking 1 {[1, 0]}) [1, 1] =
     Inr ((twin_marking 2 {}) \<lparr>mk_visits := [(([1], -1), 1)], mk_rounds := [([1], 1)]\<rparr>)"
  "sorted_list_of_set (enabled default_bound demo_twin
     ((twin_marking 2 {}) \<lparr>mk_visits := [(([1], -1), 1)], mk_rounds := [([1], 1)]\<rparr>)) = [[2]]"
  by code_simp+

lemma twin_open:
  "\<not> is_final demo_twin initial_marking"
  "\<not> is_final demo_twin (twin_marking 1 {[1, 0]})"
  "\<not> is_final demo_twin (twin_marking 2 {[1, 0], [2]})"
  "\<not> is_final demo_twin (twin_marking 3 {[1, 0], [2], [0]})"
  by code_simp+

lemma twin_nodes:
  "is_leaf demo_twin = False"
  "children demo_twin = [demo_atom ''b'', PartialOrder [demo_atom ''a'', demo_atom ''x''] {(0, 1)} {(0, 1)} ONCE,
     demo_atom ''x'']"
  by (simp_all add: demo_twin_def)

lemmas twin_facts = twin_enabled [simplified] twin_fires [simplified] twin_last [simplified] twin_nodes

lemma demo_label [simp]: "label_of (demo_atom l) p = l"
  by (simp add: label_of_def demo_atom_def)

text \<open>The runner fires \<open>a, x\<close> as one batch and \<open>b, x\<close> as the next.\<close>

lemma twin_run:
  "\<exists>m. run_loop (\<lambda>_. []) (\<lambda>_. []) default_bound demo_twin [] initial_marking 0 =
     (None, [fire_event [1, 0] ''a'' 1 None, fire_event [2] ''x'' 2 None,
       fire_event [0] ''b'' 3 None, fire_event [1, 1] ''x'' 4 None], m) \<and> is_final demo_twin m"
proof -
  obtain m where m: "twin_fire (twin_marking 3 {[1, 0], [2], [0]}) [1, 1] = Inr m" "is_final demo_twin m"
    using twin_last(1) by (auto split: sum.splits)
  have room: "mk_fires initial_marking < eb_max_activity_fires default_bound"
    "mk_fires (twin_marking 2 {[1, 0], [2]}) < eb_max_activity_fires default_bound"
    by (simp_all add: initial_marking_def twin_marking_def default_bound_def)
  have none: "invoke [] node l n = None" "raised None = None" for node l n
    by (simp_all add: invoke_def raised_def)
  have "pipeline_round (\<lambda>_. []) (\<lambda>_. []) default_bound demo_twin [] (twin_marking 2 {[1, 0], [2]}) 2 =
      Some (None, [fire_event [0] ''b'' 3 None, fire_event [1, 1] ''x'' 4 None], m, 4)"
    using room(2) by (simp add: pipeline_round_def batch_round_def twin_facts m [simplified]
        none event_of_def map_filter_simps Let_def)
  from run_loop_go [OF twin_open(3) this run_loop_stop] m(2)
  have "run_loop (\<lambda>_. []) (\<lambda>_. []) default_bound demo_twin [] (twin_marking 2 {[1, 0], [2]}) 2 =
      (None, [fire_event [0] ''b'' 3 None, fire_event [1, 1] ''x'' 4 None], m)" by simp
  moreover have "pipeline_round (\<lambda>_. []) (\<lambda>_. []) default_bound demo_twin [] initial_marking 0 =
      Some (None, [fire_event [1, 0] ''a'' 1 None, fire_event [2] ''x'' 2 None],
        twin_marking 2 {[1, 0], [2]}, 2)"
    using room(1) by (simp add: pipeline_round_def batch_round_def twin_facts
        none event_of_def map_filter_simps Let_def) (simp add: numeral_2_eq_2)
  ultimately show ?thesis using run_loop_go [OF twin_open(1)] m(2) by fastforce
qed

text \<open>A run of the pipeline to a final marking records the labels
  a, x, b, x; the conformance check of that very log against that very model stops at b. It
  takes the smallest enabled path labelled x, which is not the one that fired, and does not
  reconsider.\<close>

theorem recorded_log_rejected:
  "case run_pipeline (\<lambda>_. []) (\<lambda>_. []) (\<lambda>_. []) demo_twin demo_spec None [] default_bound False of
     Returned rec result \<Rightarrow> sr_final result \<and>
       (case check_ocel_conformance (\<lambda>_. []) (\<lambda>_. []) demo_twin (or_events rec) default_bound of
          Inr r \<Rightarrow> cf_conforms r = False \<and> cf_divergence_index r = Some 2 \<and>
            cf_divergence_label r = Some ''b''
        | Inl _ \<Rightarrow> False)
   | _ \<Rightarrow> False"
proof -
  let ?evs = "[fire_event [1, 0] ''a'' 1 None, fire_event [2] ''x'' 2 None,
       fire_event [0] ''b'' 3 None, fire_event [1, 1] ''x'' 4 None]"
  obtain m where m: "run_loop (\<lambda>_. []) (\<lambda>_. []) default_bound demo_twin [] initial_marking 0 = (None, ?evs, m)"
    "is_final demo_twin m" using twin_run by blast
  have run: "run_pipeline (\<lambda>_. []) (\<lambda>_. []) (\<lambda>_. []) demo_twin demo_spec None [] default_bound False =
      Returned (record_all (\<lambda>_. []) ''s'' ?evs) \<lparr>sr_final = True, sr_stall = None\<rparr>"
    by (simp add: run_pipeline_def demo_twin_valid check_bindings_def demo_spec_def
        classify_pipeline_stall_def m)
  have obs: "observed_labels_from_events (or_events (record_all (\<lambda>_. []) ''s'' ?evs)) = [''a'', ''x'', ''b'', ''x'']"
    by code_simp
  have lab: "path_label demo_twin [0] = Inr ''b''" "path_label demo_twin [2] = Inr ''x''"
    "path_label demo_twin [1, 0] = Inr ''a''" "path_label demo_twin [1, 1] = Inr ''x''"
    by (simp_all add: path_label_def twin_facts)
  show ?thesis
    unfolding run check_ocel_conformance_def obs
    by (simp add: obs [simplified] twin_facts lab [simplified] Let_def)
qed

end
