(* ===== verification/Guard_Executor.thy ===== *)
theory Guard_Executor
  imports Powl_Normalize
begin

text \<open>
  The guard-driven executor (\<open>powl/guard_executor.py\<close>) with \<open>max_workers = 1\<close>, the serial
  walk. The caller's callbacks are parameters that act on a state of type \<open>'w\<close> (the
  \<open>ExecutionContext\<close> and everything else they can see) and may raise. A walk is a function on
  its mutable state: steps, transition counter, top-level cursor, emitted checkpoints, caller
  state. An exception carries that state, from which \<open>partial_trace\<close> is read. The repetition
  loop asks the caller whether to go on and may not end, so walks take fuel and return
  \<open>None\<close> when it runs out; with bounded repetitions they do not
  (\<open>execute_terminates\<close> of the next theory).
\<close>

section \<open>State\<close>

record execution_step =
  es_kind :: string
  es_label :: "string option"
  es_consequence :: "atom_consequence option"
  es_result :: json
  es_repetition_index :: nat
  es_failed :: bool

datatype walk_cursor = LeafCursor | ChoiceCursor nat | OrderCursor "nat set"

record checkpoint =
  cp_steps :: "execution_step list"
  cp_choice_transitions_taken :: nat
  cp_cursor :: walk_cursor
  cp_node_key :: string
  cp_completed_repetitions :: nat

record 'w walk_state =
  ws_steps :: "execution_step list"
  ws_transitions :: nat
  ws_cursor :: walk_cursor
  ws_repetition :: nat
  ws_emitted :: "checkpoint list"
  ws_world :: 'w

datatype walk_error = WalkRefused refusal | WalkRaised exn

text \<open>\<open>None\<close>: out of fuel\<close>

type_synonym 'w walk_result = "((walk_error \<times> 'w walk_state) + 'w walk_state) option"

type_synonym 'w visit = "nat \<Rightarrow> nat \<Rightarrow> 'w walk_state \<Rightarrow> 'w walk_result"

fun bind_walk :: "'w walk_result \<Rightarrow> ('w walk_state \<Rightarrow> 'w walk_result) \<Rightarrow> 'w walk_result" where
  "bind_walk None k = None"
| "bind_walk (Some (Inl e)) k = Some (Inl e)"
| "bind_walk (Some (Inr st)) k = k st"

record 'w environment =
  ev_guard :: "string \<Rightarrow> dict \<Rightarrow> ('w, bool) action"
  ev_atom :: "atom_node \<Rightarrow> ('w, json) action"
  ev_repeat :: "(nat \<Rightarrow> ('w, bool) action) option"
  ev_observe :: "execution_step \<Rightarrow> 'w \<Rightarrow> 'w"
  ev_max_choice_transitions :: nat
  ev_canon :: canon_fun
  ev_node_key :: string

section \<open>Fingerprint\<close>

definition fingerprint_edges :: "canon_fun \<Rightarrow> choice_edge list \<Rightarrow> exn + json" where
  "fingerprint_edges canon es =
     (case edges_json canon es of Inr j \<Rightarrow> Inr j | Inl _ \<Rightarrow> Inl (Raised ''TypeError'' []))"

definition frequency_pair :: "frequency \<Rightarrow> json" where
  "frequency_pair f = JArr [JInt (fq_min f), case fq_max f of None \<Rightarrow> JNull | Some m \<Rightarrow> JInt m]"

fun node_fingerprint :: "canon_fun \<Rightarrow> powl \<Rightarrow> exn + json"
  and node_fingerprints :: "canon_fun \<Rightarrow> powl list \<Rightarrow> exn + json list" where
  "node_fingerprint canon Start = Inr (kind_json ''Start'' [])"
| "node_fingerprint canon End = Inr (kind_json ''End'' [])"
| "node_fingerprint canon Silent = Inr (kind_json ''Silent'' [])"
| "node_fingerprint canon (Atom a) =
     Inr (kind_json ''Atom'' [(''key'', JStr (canon (atom_payload a)))])"
| "node_fingerprint canon (PartialOrder cs order closure fq) =
     bind_res (node_fingerprints canon cs) (\<lambda>js. Inr (kind_json ''PartialOrder''
       [(''children'', JArr js), (''order'', order_json (length cs) order),
        (''frequency'', frequency_pair fq)]))"
| "node_fingerprint canon (ChoiceGraph cs es start end fq) =
     bind_res (node_fingerprints canon cs) (\<lambda>js. bind_res (fingerprint_edges canon es) (\<lambda>edges.
       Inr (kind_json ''ChoiceGraph''
         [(''children'', JArr js), (''edges'', edges), (''start'', JInt (int start)),
          (''end'', JInt (int end)), (''frequency'', frequency_pair fq)])))"
| "node_fingerprints canon [] = Inr []"
| "node_fingerprints canon (c # cs) =
     bind_res (node_fingerprint canon c) (\<lambda>j.
     bind_res (node_fingerprints canon cs) (\<lambda>js. Inr (j # js)))"

definition node_key :: "canon_fun \<Rightarrow> powl \<Rightarrow> exn + string" where
  "node_key canon node = bind_res (node_fingerprint canon node) (\<lambda>j. Inr (canon j))"

section \<open>The sink\<close>

text \<open>
  \<open>_StepSink.append\<close>: record the step, mirror it into the context's history and hand a
  checkpoint to \<open>on_step\<close>; what the last two do to the caller's state is \<open>ev_observe\<close>.
\<close>

definition sink_append :: "'w environment \<Rightarrow> execution_step \<Rightarrow> 'w walk_state \<Rightarrow> 'w walk_state" where
  "sink_append env step st =
     st\<lparr>ws_steps := ws_steps st @ [step],
        ws_emitted := ws_emitted st @
          [\<lparr>cp_steps = ws_steps st @ [step], cp_choice_transitions_taken = ws_transitions st,
            cp_cursor = ws_cursor st, cp_node_key = ev_node_key env,
            cp_completed_repetitions = ws_repetition st\<rparr>],
        ws_world := ev_observe env step (ws_world st)\<rparr>"

definition set_cursor :: "bool \<Rightarrow> walk_cursor \<Rightarrow> nat \<Rightarrow> 'w walk_state \<Rightarrow> 'w walk_state" where
  "set_cursor is_top cursor repetition st =
     (if is_top then st\<lparr>ws_cursor := cursor, ws_repetition := repetition\<rparr> else st)"

section \<open>Leaves\<close>

definition plain_step :: "string \<Rightarrow> nat \<Rightarrow> execution_step" where
  "plain_step kind repetition = \<lparr>es_kind = kind, es_label = None, es_consequence = None,
     es_result = JNull, es_repetition_index = repetition, es_failed = False\<rparr>"

definition atom_step :: "atom_node \<Rightarrow> nat \<Rightarrow> json \<Rightarrow> bool \<Rightarrow> execution_step" where
  "atom_step a repetition v failed = \<lparr>es_kind = ''Atom'', es_label = Some (at_label a),
     es_consequence = Some (at_consequence a), es_result = v,
     es_repetition_index = repetition, es_failed = failed\<rparr>"

definition walk_atom :: "'w environment \<Rightarrow> atom_node \<Rightarrow> nat \<Rightarrow> 'w walk_state \<Rightarrow> 'w walk_result" where
  "walk_atom env a repetition st =
     (case ev_atom env a (ws_world st) of
        (Inr v, w) \<Rightarrow>
          Some (Inr (sink_append env (atom_step a repetition v False)
            (st\<lparr>ws_world := w\<rparr>)))
      | (Inl e, w) \<Rightarrow>
          Some (Inl (WalkRefused ATOM_INVOCATION_FAILED,
            sink_append env (atom_step a repetition JNull True) (st\<lparr>ws_world := w\<rparr>))))"

section \<open>Repetition\<close>

definition should_run_repetition ::
    "'w environment \<Rightarrow> frequency \<Rightarrow> nat \<Rightarrow> ('w, bool) action" where
  "should_run_repetition env fq completed w =
     (if int completed < fq_min fq then (Inr True, w)
      else if (case fq_max fq of None \<Rightarrow> False | Some mx \<Rightarrow> int completed \<ge> mx) then (Inr False, w)
      else case ev_repeat env of
             None \<Rightarrow> (Inr (completed = 0), w)
           | Some ask \<Rightarrow> ask completed w)"

fun repeat_loop ::
    "nat \<Rightarrow> 'w environment \<Rightarrow> frequency \<Rightarrow> (nat \<Rightarrow> 'w walk_state \<Rightarrow> 'w walk_result) \<Rightarrow> nat \<Rightarrow>
       'w walk_state \<Rightarrow> 'w walk_result" where
  "repeat_loop 0 env fq once completed st = None"
| "repeat_loop (Suc fuel) env fq once completed st =
     (case should_run_repetition env fq completed (ws_world st) of
        (Inl e, w) \<Rightarrow> Some (Inl (WalkRaised e, st\<lparr>ws_world := w\<rparr>))
      | (Inr False, w) \<Rightarrow> Some (Inr (st\<lparr>ws_world := w\<rparr>))
      | (Inr True, w) \<Rightarrow>
          bind_walk (once completed (st\<lparr>ws_world := w\<rparr>))
            (repeat_loop fuel env fq once (Suc completed)))"

section \<open>One round of a partial order\<close>

text \<open>
  Kahn's algorithm level by level: \<open>visit i r\<close> walks child \<open>i\<close>. The frontier holds the
  completed indices, the indegrees and the ready list.
\<close>

record frontier =
  fr_completed :: "nat set"
  fr_indegree :: "nat \<Rightarrow> nat"
  fr_ready :: "nat list"

definition successors_of :: "nat \<Rightarrow> order_edges \<Rightarrow> nat \<Rightarrow> nat list" where
  "successors_of n order i = filter (\<lambda>j. (i, j) \<in> order) [0..<n]"

definition indegree :: "nat \<Rightarrow> order_edges \<Rightarrow> nat \<Rightarrow> nat" where
  "indegree n order j = length (filter (\<lambda>i. (i, j) \<in> order) [0..<n])"

text \<open>The start: the edges out of the skipped children are already satisfied.\<close>

definition first_frontier :: "nat \<Rightarrow> order_edges \<Rightarrow> nat set \<Rightarrow> frontier" where
  "first_frontier n order skip =
     (let deg = (\<lambda>j. length (filter (\<lambda>i. (i, j) \<in> order \<and> i \<notin> skip) [0..<n]))
      in \<lparr>fr_completed = skip, fr_indegree = deg,
          fr_ready = filter (\<lambda>i. (indegree n order i = 0 \<or> deg i = 0) \<and> i \<notin> skip) [0..<n]\<rparr>)"

definition next_level :: "frontier \<Rightarrow> nat list" where
  "next_level f = sort (filter (\<lambda>i. i \<notin> fr_completed f) (fr_ready f))"

text \<open>After a level: each of its children is completed and its successors lose a predecessor.\<close>

definition satisfy :: "nat \<Rightarrow> frontier \<Rightarrow> frontier" where
  "satisfy j f =
     (let d = fr_indegree f j - 1
      in f\<lparr>fr_indegree := (fr_indegree f)(j := d),
           fr_ready := (if d = 0 \<and> j \<notin> fr_completed f then fr_ready f @ [j] else fr_ready f)\<rparr>)"

definition complete_child :: "nat \<Rightarrow> order_edges \<Rightarrow> nat \<Rightarrow> frontier \<Rightarrow> frontier" where
  "complete_child n order i f =
     fold satisfy (successors_of n order i) (f\<lparr>fr_completed := insert i (fr_completed f)\<rparr>)"

fun visit_all :: "'w visit \<Rightarrow> nat \<Rightarrow> nat list \<Rightarrow> 'w walk_state \<Rightarrow> 'w walk_result" where
  "visit_all visit r [] st = Some (Inr st)"
| "visit_all visit r (i # is) st = bind_walk (visit i r st) (visit_all visit r is)"

text \<open>The loop; a level is never empty before the end (acyclic order), so \<open>n\<close> turns suffice.\<close>

fun level_loop ::
    "nat \<Rightarrow> bool \<Rightarrow> 'w visit \<Rightarrow> nat \<Rightarrow> order_edges \<Rightarrow> nat \<Rightarrow> frontier \<Rightarrow> 'w walk_state \<Rightarrow> 'w walk_result" where
  "level_loop fuel is_top visit n order r f st =
     (if card (fr_completed f) \<ge> n \<or> next_level f = []
      then Some (Inr (set_cursor is_top (OrderCursor (fr_completed f)) r st))
      else case fuel of
             0 \<Rightarrow> None
           | Suc fuel' \<Rightarrow>
               bind_walk (visit_all visit r (next_level f)
                   (set_cursor is_top (OrderCursor (fr_completed f)) r st))
                 (level_loop fuel' is_top visit n order r
                   (fold (complete_child n order) (next_level f) f)))"

declare level_loop.simps [simp del]

definition order_round ::
    "bool \<Rightarrow> 'w visit \<Rightarrow> nat \<Rightarrow> order_edges \<Rightarrow> nat set \<Rightarrow> nat \<Rightarrow> 'w walk_state \<Rightarrow> 'w walk_result" where
  "order_round is_top visit n order skip r st =
     level_loop n is_top visit n order r (first_frontier n order skip) st"

section \<open>One round of a choice graph\<close>

text \<open>
  The first guarded edge whose guard holds, else the last unguarded one. The edges come
  sorted by \<open>ChoiceGraphEdge.__lt__\<close>.
\<close>

fun choose_edge ::
    "'w environment \<Rightarrow> choice_edge list \<Rightarrow> choice_edge option \<Rightarrow> ('w, choice_edge option) action" where
  "choose_edge env [] else_edge w = (Inr else_edge, w)"
| "choose_edge env (e # es) else_edge w =
     (case ce_guard e of
        None \<Rightarrow> choose_edge env es (Some e) w
      | Some g \<Rightarrow>
        (case ev_guard env (gd_predicate_name g) (gd_predicate_args g) w of
           (Inl x, w') \<Rightarrow> (Inl x, w')
         | (Inr True, w') \<Rightarrow> (Inr (Some e), w')
         | (Inr False, w') \<Rightarrow> choose_edge env es else_edge w'))"

definition outgoing_edges :: "canon_fun \<Rightarrow> choice_edge list \<Rightarrow> nat \<Rightarrow> choice_edge list" where
  "outgoing_edges canon es current =
     sort_key (edge_sort_key canon) (filter (\<lambda>e. ce_src e = current) es)"

fun choice_loop ::
    "nat \<Rightarrow> bool \<Rightarrow> 'w environment \<Rightarrow> 'w visit \<Rightarrow> choice_edge list \<Rightarrow> nat \<Rightarrow> nat \<Rightarrow> nat \<Rightarrow>
       'w walk_state \<Rightarrow> 'w walk_result" where
  "choice_loop fuel is_top env visit es end r current st =
     (if current = end then Some (Inr st)
      else case choose_edge env (outgoing_edges (ev_canon env) es current) None (ws_world st) of
             (Inl x, w) \<Rightarrow> Some (Inl (WalkRaised x, st\<lparr>ws_world := w\<rparr>))
           | (Inr None, w) \<Rightarrow> Some (Inl (WalkRefused NO_GUARD_MATCHED, st\<lparr>ws_world := w\<rparr>))
           | (Inr (Some e), w) \<Rightarrow>
               if ws_transitions st \<ge> ev_max_choice_transitions env
               then Some (Inl (WalkRefused TRANSITION_BUDGET_EXHAUSTED, st\<lparr>ws_world := w\<rparr>))
               else case fuel of
                      0 \<Rightarrow> None
                    | Suc fuel' \<Rightarrow>
                        bind_walk (visit (ce_dst e) r (set_cursor is_top (ChoiceCursor (ce_dst e)) r
                            (st\<lparr>ws_world := w, ws_transitions := Suc (ws_transitions st)\<rparr>)))
                          (choice_loop fuel' is_top env visit es end r (ce_dst e)))"

declare choice_loop.simps [simp del]

text \<open>
  On a resumed round the child named by the cursor is not walked again. Every transition
  spends one of the budget, so the fuel is the budget that is left.
\<close>

definition choice_round ::
    "bool \<Rightarrow> 'w environment \<Rightarrow> 'w visit \<Rightarrow> choice_edge list \<Rightarrow> nat \<Rightarrow> nat \<Rightarrow> nat option \<Rightarrow> nat \<Rightarrow>
       'w walk_state \<Rightarrow> 'w walk_result" where
  "choice_round is_top env visit es start end resume_current r st =
     (let current = (case resume_current of None \<Rightarrow> start | Some c \<Rightarrow> c)
      in bind_walk (if resume_current = None then visit current r st else Some (Inr st))
           (\<lambda>st'. choice_loop (ev_max_choice_transitions env - ws_transitions st') is_top env visit es end r
              current (set_cursor is_top (ChoiceCursor current) r st')))"

section \<open>The walk\<close>

definition resumed_order :: "bool \<Rightarrow> walk_cursor option \<Rightarrow> nat \<Rightarrow> nat set \<times> nat" where
  "resumed_order is_top resume completed =
     (case resume of
        Some (OrderCursor skip) \<Rightarrow> if is_top then (skip, completed) else ({}, 0)
      | _ \<Rightarrow> ({}, 0))"

definition resumed_choice :: "bool \<Rightarrow> walk_cursor option \<Rightarrow> nat \<Rightarrow> nat option \<times> nat" where
  "resumed_choice is_top resume completed =
     (case resume of
        Some (ChoiceCursor current) \<Rightarrow> if is_top then (Some current, completed) else (None, 0)
      | _ \<Rightarrow> (None, 0))"

abbreviation index_error :: "'w walk_state \<Rightarrow> 'w walk_result" where
  "index_error st \<equiv> Some (Inl (WalkRaised (Raised ''IndexError'' []), st))"

function walk_node ::
    "nat \<Rightarrow> 'w environment \<Rightarrow> powl \<Rightarrow> bool \<Rightarrow> walk_cursor option \<Rightarrow> nat \<Rightarrow> nat \<Rightarrow> 'w walk_state \<Rightarrow>
       'w walk_result" where
  "walk_node fuel env Start is_top resume completed r st =
     Some (Inr (sink_append env (plain_step ''Start'' r) st))"
| "walk_node fuel env End is_top resume completed r st =
     Some (Inr (sink_append env (plain_step ''End'' r) st))"
| "walk_node fuel env Silent is_top resume completed r st =
     Some (Inr (sink_append env (plain_step ''Silent'' r) st))"
| "walk_node fuel env (Atom a) is_top resume completed r st = walk_atom env a r st"
| "walk_node fuel env (PartialOrder cs order closure fq) is_top resume completed r st =
     (let (skip, first) = resumed_order is_top resume completed;
          visit = (\<lambda>i r' st'. if i < length cs then walk_node fuel env (cs ! i) False None 0 r' st'
            else index_error st')
      in repeat_loop fuel env fq
           (\<lambda>r' st'. order_round is_top visit (length cs) order (if r' = first then skip else {}) r' st')
           first st)"
| "walk_node fuel env (ChoiceGraph cs es start end fq) is_top resume completed r st =
     (let (current, first) = resumed_choice is_top resume completed;
          visit = (\<lambda>i r' st'. if i < length cs then walk_node fuel env (cs ! i) False None 0 r' st'
            else index_error st')
      in repeat_loop fuel env fq
           (\<lambda>r' st'. choice_round is_top env visit es start end (if r' = first then current else None) r' st')
           first st)"
  by pat_completeness auto
termination
  by (relation "measure (\<lambda>(_, _, node, _). size node)") (auto intro: size_child size_nth)

section \<open>\<open>execute\<close>\<close>

definition start_state :: "'w \<Rightarrow> checkpoint option \<Rightarrow> 'w walk_state" where
  "start_state w resume_from =
     \<lparr>ws_steps = (case resume_from of None \<Rightarrow> [] | Some c \<Rightarrow> cp_steps c),
      ws_transitions = (case resume_from of None \<Rightarrow> 0 | Some c \<Rightarrow> cp_choice_transitions_taken c),
      ws_cursor = LeafCursor, ws_repetition = 0, ws_emitted = [], ws_world = w\<rparr>"

definition execute ::
    "nat \<Rightarrow> 'w environment \<Rightarrow> powl \<Rightarrow> checkpoint option \<Rightarrow> 'w \<Rightarrow> 'w walk_result" where
  "execute fuel env node resume_from w =
     (let st = start_state w resume_from
      in case validate_model node of
           Inl r \<Rightarrow> Some (Inl (WalkRefused r, st))
         | Inr _ \<Rightarrow>
           (case node_key (ev_canon env) node of
              Inl e \<Rightarrow> Some (Inl (WalkRaised e, st))
            | Inr key \<Rightarrow>
                if (case resume_from of None \<Rightarrow> False | Some c \<Rightarrow> cp_node_key c \<noteq> key)
                then Some (Inl (WalkRefused CHECKPOINT_NODE_MISMATCH, st))
                else walk_node fuel (env\<lparr>ev_node_key := key\<rparr>) node True
                  (case resume_from of None \<Rightarrow> None | Some c \<Rightarrow> Some (cp_cursor c))
                  (case resume_from of None \<Rightarrow> 0 | Some c \<Rightarrow> cp_completed_repetitions c) 0 st))"

end
