(* ===== verification/Guard_Termination.thy ===== *)
theory Guard_Termination
  imports Guard_Facts
begin

text \<open>
  Walks end: with bounded repetition no fuel beyond the largest repetition count is needed,
  the level loop of a partial order and the transition loop of a choice graph need none.
\<close>

definition ends :: "'w walk_result \<Rightarrow> bool" where
  "ends res \<longleftrightarrow> res \<noteq> None"

lemma ends_simps [simp]: "\<not> ends None" "ends (Some x)"
  by (simp_all add: ends_def)

lemma bind_walk_ends:
  assumes "ends res" "\<And>st'. res = Some (Inr st') \<Longrightarrow> ends (k st')"
  shows "ends (bind_walk res k)"
proof (cases res)
  case (Some x)
  with assms show ?thesis by (cases x) auto
qed (use assms in simp)

text \<open>At most \<open>B\<close> repetitions of every composite can be asked for.\<close>

definition frequency_bounded :: "'w environment \<Rightarrow> nat \<Rightarrow> frequency \<Rightarrow> bool" where
  "frequency_bounded env B fq \<longleftrightarrow> 1 \<le> B \<and> fq_min fq \<le> int B \<and>
     (case fq_max fq of Some mx \<Rightarrow> mx \<le> int B | None \<Rightarrow> ev_repeat env = None)"

fun repetitions_bounded :: "'w environment \<Rightarrow> nat \<Rightarrow> powl \<Rightarrow> bool" where
  "repetitions_bounded env B (PartialOrder cs order closure fq) \<longleftrightarrow>
     frequency_bounded env B fq \<and> (\<forall>c \<in> set cs. repetitions_bounded env B c)"
| "repetitions_bounded env B (ChoiceGraph cs es start end fq) \<longleftrightarrow>
     frequency_bounded env B fq \<and> (\<forall>c \<in> set cs. repetitions_bounded env B c)"
| "repetitions_bounded env B _ \<longleftrightarrow> True"

lemma repetition_room:
  assumes "frequency_bounded env B fq" "should_run_repetition env fq completed w = (Inr True, w')"
  shows "completed < B"
  using assms
  by (auto simp: frequency_bounded_def should_run_repetition_def split: if_splits option.splits)

lemma repeat_loop_total:
  assumes "\<And>r st. ends (once r st)" "frequency_bounded env B fq"
  shows "B - completed < fuel \<Longrightarrow> ends (repeat_loop fuel env fq once completed st)"
proof (induction fuel arbitrary: completed st)
  case (Suc fuel)
  obtain d w where ask: "should_run_repetition env fq completed (ws_world st) = (d, w)" by fastforce
  show ?case
  proof (cases "d = Inr True")
    case True
    then have "B - Suc completed < fuel"
      using repetition_room [OF assms(2)] ask Suc.prems by fastforce
    then show ?thesis
      using True ask Suc.IH assms(1) by (auto intro!: bind_walk_ends)
  next
    case False
    with ask show ?thesis by (auto split: sum.split bool.split)
  qed
qed simp

lemma satisfy_completed [simp]: "fr_completed (satisfy j f) = fr_completed f"
  by (simp add: satisfy_def Let_def)

lemma fold_satisfy_completed [simp]: "fr_completed (fold satisfy js f) = fr_completed f"
  by (induction js arbitrary: f) simp_all

lemma complete_child_completed [simp]:
  "fr_completed (complete_child n order i f) = insert i (fr_completed f)"
  by (simp add: complete_child_def)

lemma level_completed [simp]:
  "fr_completed (fold (complete_child n order) is f) = set is \<union> fr_completed f"
  by (induction "is" arbitrary: f) auto

lemma visit_all_total:
  assumes "\<And>i r st. ends (visit i r st)"
  shows "ends (visit_all visit r is st)"
  by (induction "is" arbitrary: st) (simp_all add: assms bind_walk_ends)

lemma level_loop_total:
  assumes "\<And>i r st. ends (visit i r st)"
  shows "finite (fr_completed f) \<Longrightarrow> n \<le> fuel + card (fr_completed f) \<Longrightarrow>
    ends (level_loop fuel is_top visit n order r f st)"
proof (induction fuel arbitrary: f st)
  case 0
  then show ?case by (subst level_loop.simps) simp
next
  case (Suc fuel)
  let ?f = "fold (complete_child n order) (next_level f) f"
  show ?case
  proof (cases "card (fr_completed f) \<ge> n \<or> next_level f = []")
    case True
    then show ?thesis by (subst level_loop.simps) simp
  next
    case False
    then obtain i "is" where "next_level f = i # is" by (cases "next_level f") auto
    then have i: "i \<in> set (next_level f)" by simp
    then have "i \<notin> fr_completed f" by (simp add: next_level_def)
    from i have "card (insert i (fr_completed f)) \<le> card (set (next_level f) \<union> fr_completed f)"
      using Suc.prems(1) by (intro card_mono) auto
    then have "n \<le> fuel + card (fr_completed ?f)"
      using \<open>i \<notin> fr_completed f\<close> Suc.prems by simp
    then have "ends (level_loop fuel is_top visit n order r ?f st')" for st'
      using Suc.prems(1) by (intro Suc.IH) simp_all
    with False show ?thesis
      using visit_all_total [OF assms]
      by (subst level_loop.simps) (auto intro!: bind_walk_ends)
  qed
qed

lemma set_cursor_keeps [simp]:
  "ws_transitions (set_cursor b c r st) = ws_transitions st"
  "ws_steps (set_cursor b c r st) = ws_steps st"
  by (simp_all add: set_cursor_def)

lemma choice_loop_total:
  assumes total: "\<And>i r st. ends (visit i r st)"
    and ext: "\<And>i r st. result_extends env st (visit i r st)"
  shows "ev_max_choice_transitions env - ws_transitions st \<le> fuel \<Longrightarrow>
    ends (choice_loop fuel is_top env visit es end r current st)"
proof (induction fuel arbitrary: current st)
  case 0
  then show ?case by (subst choice_loop.simps) (auto split: prod.split sum.split option.split)
next
  case (Suc fuel)
  have go: "ends (bind_walk (visit i r st1) (choice_loop fuel is_top env visit es end r i))"
    if "ws_transitions st1 = Suc (ws_transitions st)" for i st1
  proof (rule bind_walk_ends [OF total])
    fix st2
    assume "visit i r st1 = Some (Inr st2)"
    with ext [of st1 i r] have "ws_transitions st1 \<le> ws_transitions st2" by (simp add: extends_def)
    with that Suc.prems show "ends (choice_loop fuel is_top env visit es end r i st2)"
      by (intro Suc.IH) simp
  qed
  show ?case
    by (subst choice_loop.simps)
      (auto split: prod.split sum.split option.split intro!: go)
qed

lemma choice_round_total:
  assumes "\<And>i r st. ends (visit i r st)" "\<And>i r st. result_extends env st (visit i r st)"
  shows "ends (choice_round is_top env visit es start end resume r st)"
  unfolding choice_round_def Let_def
  by (intro bind_walk_ends choice_loop_total assms) (simp_all add: assms(1))

lemma first_frontier_completed [simp]: "fr_completed (first_frontier n order skip) = skip"
  by (simp add: first_frontier_def Let_def)

lemma order_round_total:
  assumes "\<And>i r st. ends (visit i r st)" "finite skip"
  shows "ends (order_round is_top visit n order skip r st)"
  unfolding order_round_def by (intro level_loop_total assms) (simp_all add: assms(2))

definition cursor_finite :: "walk_cursor option \<Rightarrow> bool" where
  "cursor_finite c = (case c of Some (OrderCursor s) \<Rightarrow> finite s | _ \<Rightarrow> True)"

lemma walk_ends:
  assumes "repetitions_bounded env B node" "B < fuel" "cursor_finite resume"
  shows "ends (walk_node fuel env node is_top resume completed r st)"
  using assms
proof (induction fuel env node is_top resume completed r st rule: walk_node.induct)
  case (5 fuel env cs order closure fq is_top resume completed r st)
  let ?visit = "\<lambda>i r' st'. if i < length cs then walk_node fuel env (cs ! i) False None 0 r' st'
            else index_error st'"
  obtain skip first where ro: "resumed_order is_top resume completed = (skip, first)" by fastforce
  have visit: "ends (?visit i r' st')" for i r' st'
    using 5 (1) [OF ro [symmetric] refl] 5(2,3) by (auto simp: cursor_finite_def)
  have "finite skip"
    using ro 5(4) by (auto simp: resumed_order_def cursor_finite_def split: option.splits walk_cursor.splits if_splits)
  then have "ends (order_round is_top ?visit (length cs) order (if r' = first then skip else {}) r' st')" for r' st'
    by (intro order_round_total visit) simp
  then show ?case
    using 5(2,3) by (simp add: ro) (intro repeat_loop_total, auto)
next
  case (6 fuel env cs es start "end" fq is_top resume completed r st)
  let ?visit = "\<lambda>i r' st'. if i < length cs then walk_node fuel env (cs ! i) False None 0 r' st'
            else index_error st'"
  obtain current first where ro: "resumed_choice is_top resume completed = (current, first)" by fastforce
  have visit: "ends (?visit i r' st')" for i r' st'
    using 6(1) [OF ro [symmetric] refl] 6(2,3) by (auto simp: cursor_finite_def)
  have "result_extends env st' (?visit i r' st')" for i r' st'
    by (simp add: walk_extends)
  then have "ends (choice_round is_top env ?visit es start end c r' st')" for c r' st'
    by (intro choice_round_total visit)
  then show ?case
    using 6(2,3) by (simp add: ro) (intro repeat_loop_total, auto)
qed (auto simp: walk_atom_def split: prod.split sum.split)

lemma bounded_key [simp]:
  "repetitions_bounded (env\<lparr>ev_node_key := key\<rparr>) B node = repetitions_bounded env B node"
  by (induction node) (simp_all add: frequency_bounded_def split: option.split)

text \<open>C20: if no composite can be repeated more than \<open>B\<close> times (its maximum is
  at most \<open>B\<close>, or there is no repeat evaluator and its minimum is at most \<open>B\<close>), \<open>execute\<close>
  ends whatever the guards and the atoms answer, also when it resumes: fuel \<open>B + 1\<close> is
  enough, although the choice graphs may be cyclic.\<close>

theorem execute_terminates:
  assumes "repetitions_bounded env B node"
    and "cursor_finite (map_option cp_cursor resume_from)"
  shows "\<exists>res. execute (Suc B) env node resume_from w = Some res"
proof -
  have fin: "cursor_finite (case resume_from of None \<Rightarrow> None | Some c \<Rightarrow> Some (cp_cursor c))"
    using assms(2) by (cases resume_from) simp_all
  have "ends (walk_node (Suc B) (env\<lparr>ev_node_key := key\<rparr>) node True
      (case resume_from of None \<Rightarrow> None | Some c \<Rightarrow> Some (cp_cursor c)) n 0 st)" for key n st
    using assms(1) fin by (intro walk_ends [of _ B]) simp_all
  then show ?thesis
    unfolding execute_def Let_def ends_def by (auto split: sum.split)
qed

text \<open>A caller without guards, repetition or failures: every atom answers \<open>true\<close>.\<close>

definition demo_environment :: "nat \<Rightarrow> unit environment" where
  "demo_environment budget = \<lparr>ev_guard = (\<lambda>_ _ w. (Inr False, w)), ev_atom = (\<lambda>_ w. (Inr (JBool True), w)),
     ev_repeat = None, ev_observe = (\<lambda>_ w. w), ev_max_choice_transitions = budget,
     ev_canon = (\<lambda>_. ''k''), ev_node_key = []\<rparr>"

text \<open>A choice graph that runs \<open>1\<close> for ever: its self-loop is the largest unguarded edge.\<close>

definition demo_spin :: powl where
  "demo_spin = ChoiceGraph [Start, demo_atom ''poll'', End, demo_atom ''wait'']
     [demo_edge_to 0 1, demo_edge_to 1 3, demo_edge_to 3 1, demo_edge_to 1 2] 0 2 ONCE"

theorem execute_terminates_witness:
  "\<exists>res. execute 2 (demo_environment 5) demo_spin None () = Some res"
proof -
  have "repetitions_bounded (demo_environment 5) 1 demo_spin"
    by (simp add: demo_spin_def demo_environment_def demo_atom_def frequency_bounded_def ONCE_def)
  from execute_terminates [OF this, of None "()"] show ?thesis
    by (simp add: cursor_finite_def numeral_2_eq_2)
qed

text \<open>\<open>execute\<close> only appends to the steps of the checkpoint it resumes, and
  takes no more choice transitions than \<open>max_choice_transitions\<close> in all, those before the
  checkpoint included, however it ends.\<close>

theorem execute_bounded:
  assumes "execute fuel env node resume_from w = Some res"
  shows "(case res of Inl (e, st) \<Rightarrow> extends env (start_state w resume_from) st
      | Inr st \<Rightarrow> extends env (start_state w resume_from) st)"
proof -
  have key: "extends (env\<lparr>ev_node_key := key\<rparr>) st st' = extends env st st'" for key and st st' :: "'a walk_state"
    by (simp add: extends_def)
  have "result_extends env (start_state w resume_from) (execute fuel env node resume_from w)"
  proof -
    have "result_extends env st (walk_node fuel (env\<lparr>ev_node_key := key\<rparr>) node b c n r st)" for key b c n r and st :: "'a walk_state"
      using walk_extends [of "env\<lparr>ev_node_key := key\<rparr>" st fuel node b c n r]
      by (auto simp: result_extends_def key split: option.splits sum.splits)
    then show ?thesis by (auto simp: execute_def Let_def split: sum.split)
  qed
  with assms show ?thesis by (simp add: result_extends_def)
qed

theorem execute_bounded_witness:
  "\<exists>st. execute 2 (demo_environment 5) demo_spin None () = Some (Inl (WalkRefused TRANSITION_BUDGET_EXHAUSTED, st)) \<and>
     ws_transitions st \<le> 5"
proof -
  have "case execute 2 (demo_environment 5) demo_spin None () of
      Some (Inl (e, st)) \<Rightarrow> e = WalkRefused TRANSITION_BUDGET_EXHAUSTED | _ \<Rightarrow> False"
    by code_simp
  then obtain st where st: "execute 2 (demo_environment 5) demo_spin None () =
      Some (Inl (WalkRefused TRANSITION_BUDGET_EXHAUSTED, st))"
    by (auto split: option.splits sum.splits)
  from execute_bounded [OF this] show ?thesis
    using st by (auto simp: extends_def start_state_def demo_environment_def)
qed

end
