(* ===== verification/Guard_Schedule.thy ===== *)
theory Guard_Schedule
  imports Guard_Termination
begin

text \<open>
  The order in which one round of a partial order walks its children: the levels of Kahn's
  algorithm, computed here apart from the walks, form a linear extension of the order.
\<close>

section \<open>The levels\<close>

fun levels :: "nat \<Rightarrow> nat \<Rightarrow> order_edges \<Rightarrow> frontier \<Rightarrow> nat list list" where
  "levels 0 n order f = []"
| "levels (Suc fuel) n order f =
     (if card (fr_completed f) \<ge> n \<or> next_level f = [] then []
      else next_level f # levels fuel n order (fold (complete_child n order) (next_level f) f))"

text \<open>Walk the levels in turn; before each the cursor names what is completed.\<close>

fun run_levels ::
    "bool \<Rightarrow> 'w visit \<Rightarrow> nat \<Rightarrow> nat set \<Rightarrow> nat list list \<Rightarrow> 'w walk_state \<Rightarrow> 'w walk_result" where
  "run_levels is_top visit r c [] st = Some (Inr (set_cursor is_top (OrderCursor c) r st))"
| "run_levels is_top visit r c (l # ls) st =
     bind_walk (visit_all visit r l (set_cursor is_top (OrderCursor c) r st))
       (run_levels is_top visit r (set l \<union> c) ls)"

definition schedule :: "nat \<Rightarrow> order_edges \<Rightarrow> nat list list" where
  "schedule n order = levels n n order (first_frontier n order {})"

section \<open>The frontier\<close>

definition preds :: "order_edges \<Rightarrow> nat \<Rightarrow> nat set" where
  "preds order j = {i. (i, j) \<in> order}"

definition frontier_ok :: "nat \<Rightarrow> order_edges \<Rightarrow> frontier \<Rightarrow> bool" where
  "frontier_ok n order f \<longleftrightarrow> fr_completed f \<subseteq> {..<n} \<and>
     (\<forall>j \<in> fr_completed f. preds order j \<subseteq> fr_completed f) \<and>
     (\<forall>j < n. j \<notin> fr_completed f \<longrightarrow> fr_indegree f j = card (preds order j - fr_completed f)) \<and>
     distinct (fr_ready f) \<and>
     set (fr_ready f) - fr_completed f = {j. j < n \<and> j \<notin> fr_completed f \<and> preds order j \<subseteq> fr_completed f}"

lemma satisfy_simps [simp]:
  "fr_indegree (satisfy j f) = (fr_indegree f)(j := fr_indegree f j - 1)"
  "fr_ready (satisfy j f) =
     fr_ready f @ (if fr_indegree f j - 1 = 0 \<and> j \<notin> fr_completed f then [j] else [])"
  by (simp_all add: satisfy_def Let_def)

lemma fold_satisfy_indegree:
  "distinct js \<Longrightarrow>
     fr_indegree (fold satisfy js f) j = (if j \<in> set js then fr_indegree f j - 1 else fr_indegree f j)"
  by (induction js arbitrary: f) auto

lemma fold_satisfy_ready:
  "distinct js \<Longrightarrow> fr_ready (fold satisfy js f) =
     fr_ready f @ filter (\<lambda>j. fr_indegree f j - 1 = 0 \<and> j \<notin> fr_completed f) js"
proof (induction js arbitrary: f)
  case (Cons j js)
  have "filter (\<lambda>k. fr_indegree (satisfy j f) k - 1 = 0 \<and> k \<notin> fr_completed f) js =
      filter (\<lambda>k. fr_indegree f k - 1 = 0 \<and> k \<notin> fr_completed f) js"
    using Cons.prems by (intro filter_cong) auto
  with Cons show ?case by simp
qed simp

lemma complete_child_ok:
  assumes ok: "frontier_ok n order f" and order: "order \<subseteq> {..<n} \<times> {..<n}" "acyclic order"
    and i: "i < n" "i \<notin> fr_completed f" "preds order i \<subseteq> fr_completed f"
  shows "frontier_ok n order (complete_child n order i f)"
proof -
  let ?f = "complete_child n order i f"
  let ?js = "successors_of n order i"
  let ?C = "insert i (fr_completed f)"
  have fin: "finite (preds order j)" for j
    using order(1) by (auto simp: preds_def intro: finite_subset [of _ "{..<n}"])
  have js: "set ?js = {j. (i, j) \<in> order}" "distinct ?js"
    using order(1) by (auto simp: successors_of_def)
  have "(i, i) \<notin> order" using order(2) by (auto simp: acyclic_def)
  have fresh: "j \<notin> ?C" "j < n" if "(i, j) \<in> order" for j
  proof -
    have "i \<in> preds order j" using that by (simp add: preds_def)
    then have "j \<notin> fr_completed f" using ok i(2) unfolding frontier_ok_def by blast
    with that \<open>(i, i) \<notin> order\<close> show "j \<notin> ?C" by auto
    show "j < n" using that order(1) by blast
  qed
  have deg: "fr_indegree ?f j = (if (i, j) \<in> order then fr_indegree f j - 1 else fr_indegree f j)" for j
    using fold_satisfy_indegree [OF js(2), of "f\<lparr>fr_completed := ?C\<rparr>" j]
    by (simp add: complete_child_def js(1) cong: if_cong)
  have ready: "fr_ready ?f = fr_ready f @ filter (\<lambda>j. fr_indegree f j - 1 = 0 \<and> j \<notin> ?C) ?js"
    using fold_satisfy_ready [OF js(2), of "f\<lparr>fr_completed := ?C\<rparr>"] by (simp add: complete_child_def)
  have card: "fr_indegree f j - 1 = card (preds order j - ?C)" if "(i, j) \<in> order" for j
  proof -
    have eq: "preds order j - fr_completed f = insert i (preds order j - ?C)"
      using that i(2) by (auto simp: preds_def)
    have "card (preds order j - fr_completed f) = Suc (card (preds order j - ?C))"
      unfolding eq using fin by (intro card_insert_disjoint) auto
    moreover have "fr_indegree f j = card (preds order j - fr_completed f)"
      using ok fresh [OF that] unfolding frontier_ok_def by blast
    ultimately show ?thesis by linarith
  qed
  have count: "fr_indegree ?f j = card (preds order j - ?C)" if "j < n" "j \<notin> ?C" for j
  proof (cases "(i, j) \<in> order")
    case False
    then have "preds order j - ?C = preds order j - fr_completed f" by (auto simp: preds_def)
    with False that ok show ?thesis by (simp add: deg frontier_ok_def)
  qed (use card [of j] in \<open>simp add: deg\<close>)
  have zero: "fr_indegree f j - 1 = 0 \<longleftrightarrow> preds order j \<subseteq> ?C" if "(i, j) \<in> order" for j
    using card [OF that] fin by (auto simp: card_eq_0_iff)
  have old: "j \<in> set (fr_ready f) \<longleftrightarrow> preds order j \<subseteq> fr_completed f" if "j < n" "j \<notin> fr_completed f" for j
    using ok that by (auto simp: frontier_ok_def)
  have "set (fr_ready ?f) - ?C = {j. j < n \<and> j \<notin> ?C \<and> preds order j \<subseteq> ?C}"
    (is "?l = ?r")
  proof (intro set_eqI)
    fix j
    have "j \<in> set (fr_ready f) \<Longrightarrow> j \<notin> fr_completed f \<Longrightarrow> j < n" using ok by (auto simp: frontier_ok_def)
    then show "j \<in> ?l \<longleftrightarrow> j \<in> ?r"
      using old [of j] zero [of j] fresh [of j] js(1) by (auto simp: ready preds_def)
  qed
  moreover have "distinct (fr_ready ?f)"
    using ok js old fresh i(2) by (auto simp: ready frontier_ok_def preds_def)
  ultimately show ?thesis
    using ok i count by (auto simp: frontier_ok_def)
qed

lemma first_frontier_ok:
  assumes "order \<subseteq> {..<n} \<times> {..<n}"
  shows "frontier_ok n order (first_frontier n order {})"
proof -
  have "length (filter (\<lambda>i. (i, j) \<in> order) [0..<n]) = card (preds order j)" for j
  proof -
    have "set (filter (\<lambda>i. (i, j) \<in> order) [0..<n]) = preds order j"
      using assms by (auto simp: preds_def)
    then show ?thesis by (metis distinct_card distinct_filter distinct_upt)
  qed
  moreover have "finite (preds order j)" for j
    using assms by (auto simp: preds_def intro: finite_subset [of _ "{..<n}"])
  ultimately show ?thesis
    by (auto simp: frontier_ok_def first_frontier_def Let_def indegree_def)
qed

lemma next_level_props:
  assumes "frontier_ok n order f"
  shows "set (next_level f) = {j. j < n \<and> j \<notin> fr_completed f \<and> preds order j \<subseteq> fr_completed f}"
    and "distinct (next_level f)"
proof -
  have "set (next_level f) = set (fr_ready f) - fr_completed f" by (auto simp: next_level_def)
  with assms show "set (next_level f) = {j. j < n \<and> j \<notin> fr_completed f \<and> preds order j \<subseteq> fr_completed f}"
    unfolding frontier_ok_def by simp
  show "distinct (next_level f)" using assms unfolding frontier_ok_def next_level_def by simp
qed

lemma complete_level_ok:
  assumes "order \<subseteq> {..<n} \<times> {..<n}" "acyclic order"
  shows "frontier_ok n order f \<Longrightarrow> distinct is \<Longrightarrow>
    \<forall>i \<in> set is. i < n \<and> i \<notin> fr_completed f \<and> preds order i \<subseteq> fr_completed f \<Longrightarrow>
    frontier_ok n order (fold (complete_child n order) is f)"
proof (induction "is" arbitrary: f)
  case (Cons i "is")
  have "frontier_ok n order (complete_child n order i f)"
    using Cons.prems by (intro complete_child_ok assms) auto
  moreover have "\<forall>k \<in> set is. k < n \<and> k \<notin> fr_completed (complete_child n order i f) \<and>
      preds order k \<subseteq> fr_completed (complete_child n order i f)"
    using Cons.prems(2,3) by auto
  ultimately show ?case using Cons.IH Cons.prems(2) by simp
qed simp

text \<open>Acyclicity keeps the next level non-empty until every child is completed.\<close>

lemma level_nonempty:
  assumes "frontier_ok n order f" "order \<subseteq> {..<n} \<times> {..<n}" "acyclic order"
    and "next_level f = []"
  shows "fr_completed f = {..<n}"
proof (rule ccontr)
  assume "fr_completed f \<noteq> {..<n}"
  moreover have "fr_completed f \<subseteq> {..<n}" using assms(1) by (simp add: frontier_ok_def)
  ultimately obtain j where j: "j \<in> {..<n} - fr_completed f" by auto
  have "wf order" using assms(2,3) by (intro finite_acyclic_wf) (auto intro: finite_subset)
  then obtain k where k: "k \<in> {..<n} - fr_completed f" "\<And>i. (i, k) \<in> order \<Longrightarrow> i \<notin> {..<n} - fr_completed f"
    using wfE_min [OF _ j] by metis
  with assms(2) have "preds order k \<subseteq> fr_completed f" by (auto simp: preds_def)
  with k(1) have "k \<in> set (next_level f)" by (simp add: next_level_props [OF assms(1)])
  with assms(4) show False by simp
qed

text \<open>Every child once, each after the children it waits for.\<close>

definition linear_extension :: "nat \<Rightarrow> order_edges \<Rightarrow> nat set \<Rightarrow> nat list \<Rightarrow> bool" where
  "linear_extension n order before is \<longleftrightarrow> distinct is \<and> set is = {..<n} - before \<and>
     (\<forall>k < length is. preds order (is ! k) \<subseteq> before \<union> set (take k is))"

lemma linear_extension_append:
  assumes xs: "distinct xs" "set xs \<subseteq> {..<n} - before" "\<forall>i \<in> set xs. preds order i \<subseteq> before"
    and ys: "linear_extension n order (set xs \<union> before) ys"
  shows "linear_extension n order before (xs @ ys)"
proof -
  have "preds order ((xs @ ys) ! k) \<subseteq> before \<union> set (take k (xs @ ys))" if "k < length (xs @ ys)" for k
  proof (cases "k < length xs")
    case True
    with xs(3) nth_mem [OF True] show ?thesis by (auto simp: nth_append)
  next
    case False
    with that have "k - length xs < length ys" by auto
    with ys have "preds order (ys ! (k - length xs)) \<subseteq> (set xs \<union> before) \<union> set (take (k - length xs) ys)"
      unfolding linear_extension_def by blast
    with False show ?thesis by (auto simp: nth_append)
  qed
  moreover have "distinct (xs @ ys)" "set (xs @ ys) = {..<n} - before"
    using xs(1,2) ys unfolding linear_extension_def by auto
  ultimately show ?thesis unfolding linear_extension_def by blast
qed

lemma levels_ok:
  assumes "order \<subseteq> {..<n} \<times> {..<n}" "acyclic order"
  shows "frontier_ok n order f \<Longrightarrow> n \<le> fuel + card (fr_completed f) \<Longrightarrow>
    linear_extension n order (fr_completed f) (concat (levels fuel n order f)) \<and>
    level_loop fuel is_top visit n order r f st =
      run_levels is_top visit r (fr_completed f) (levels fuel n order f) st"
proof (induction fuel arbitrary: f st)
  case 0
  then have "fr_completed f = {..<n}"
    by (intro card_subset_eq) (auto simp: frontier_ok_def intro: antisym card_mono [of "{..<n}", simplified])
  with 0 show ?case by (subst level_loop.simps) (simp add: linear_extension_def)
next
  case (Suc fuel)
  let ?l = "next_level f"
  let ?f = "fold (complete_child n order) ?l f"
  have sub: "fr_completed f \<subseteq> {..<n}" using Suc.prems(1) by (simp add: frontier_ok_def)
  show ?case
  proof (cases "card (fr_completed f) \<ge> n \<or> ?l = []")
    case True
    then have "fr_completed f = {..<n}"
      using level_nonempty [OF Suc.prems(1) assms] card_subset_eq [OF _ sub] card_mono [OF _ sub] by fastforce
    with True show ?thesis by (subst level_loop.simps) (simp add: linear_extension_def)
  next
    case False
    note l = next_level_props [OF Suc.prems(1)]
    have ok: "frontier_ok n order ?f"
      using l by (intro complete_level_ok assms Suc.prems) auto
    obtain i where "i \<in> set ?l" using False by (cases ?l) auto
    have "finite (fr_completed f)" using sub finite_subset by blast
    then have "card (insert i (fr_completed f)) \<le> card (set ?l \<union> fr_completed f)"
      using \<open>i \<in> set ?l\<close> by (intro card_mono) auto
    then have "n \<le> fuel + card (fr_completed ?f)"
      using \<open>i \<in> set ?l\<close> l(1) \<open>finite (fr_completed f)\<close> Suc.prems(2) by simp
    note IH = Suc.IH [OF ok this]
    have "linear_extension n order (fr_completed f) (?l @ concat (levels fuel n order ?f))"
      using IH l by (intro linear_extension_append) auto
    moreover have "level_loop fuel is_top visit n order r ?f =
        run_levels is_top visit r (set ?l \<union> fr_completed f) (levels fuel n order ?f)"
      using IH by (intro ext) simp
    ultimately show ?thesis using False by (subst level_loop.simps) simp
  qed
qed

text \<open>C14: one round of a valid partial order visits its children in the levels
  of \<open>schedule\<close>, and these, one after the other, are a linear extension: every child is
  visited exactly once and after all the children it has to wait for, whatever the visits do.\<close>

theorem order_schedule:
  assumes "order_wf n order closure"
  shows "order_round is_top visit n order {} r st =
      run_levels is_top visit r {} (schedule n order) st \<and>
    linear_extension n order {} (concat (schedule n order))"
proof -
  have o: "order \<subseteq> {..<n} \<times> {..<n}" "acyclic order" using assms by (simp_all add: order_wf_def)
  from levels_ok [OF o first_frontier_ok [OF o(1)], of n is_top visit r st]
  show ?thesis by (simp add: order_round_def schedule_def)
qed

theorem order_schedule_witness:
  "schedule 3 {(2, 0)} = [[1, 2], [0]] \<and> linear_extension 3 {(2, 0)} {} [1, 2, 0]"
proof -
  have "{(2::nat, 0::nat)}\<^sup>+ = {(2, 0)}" by (rule trancl_id) (simp add: trans_def)
  then have wf: "order_wf 3 {(2, 0)} {(2, 0)}"
    by (auto simp: order_wf_def covers_def strict_order_def acyclic_def trans_def irrefl_def)
  have "schedule 3 {(2, 0)} = [[1, 2], [0]]" by code_simp
  with order_schedule [OF wf, of False "\<lambda>_ _ st. Some (Inr st)" 0 "start_state () None"]
  show ?thesis by simp
qed

end
