(* ===== verification/Guard_Resume.thy ===== *)
theory Guard_Resume
  imports Guard_Schedule
begin

text \<open>
  Resuming a checkpoint (\<open>resume_from\<close>): the cursor of a partial order is set before a level
  runs and that of a choice graph before the chosen child runs, so a checkpoint taken in
  between makes the first repeat and the second lose work.
\<close>

text \<open>The caller's state is the list of labels whose atoms were really invoked.\<close>

definition logging_environment :: "string list environment" where
  "logging_environment = \<lparr>ev_guard = (\<lambda>_ _ w. (Inr False, w)),
     ev_atom = (\<lambda>a w. (Inr (JBool True), w @ [at_label a])),
     ev_repeat = None, ev_observe = (\<lambda>_ w. w), ev_max_choice_transitions = 64,
     ev_canon = (\<lambda>_. ''k''), ev_node_key = []\<rparr>"

definition demo_pair :: powl where
  "demo_pair = PartialOrder [demo_atom ''lock'', demo_atom ''write''] {(0, 1)} {(0, 1)} ONCE"

definition demo_nested :: powl where
  "demo_nested = ChoiceGraph [Start, demo_pair, End] [demo_edge_to 0 1, demo_edge_to 1 2] 0 2 ONCE"

text \<open>Run \<open>node\<close>, take the \<open>k\<close>-th checkpoint, resume from it: what did the resumed call invoke?\<close>

definition resumed_calls :: "powl \<Rightarrow> nat \<Rightarrow> string list option" where
  "resumed_calls node k =
     (case execute 2 logging_environment node None [] of
        Some (Inr st) \<Rightarrow>
          (case execute 2 logging_environment node (Some (ws_emitted st ! k)) [] of
             Some (Inr st') \<Rightarrow> Some (ws_world st')
           | _ \<Rightarrow> None)
      | _ \<Rightarrow> None)"

lemma demo_pair_wf: "powl_wf 1 demo_pair" "powl_wf 2 demo_pair"
proof -
  have "{(0::nat, 1::nat)}\<^sup>+ = {(0, 1)}" by (rule trancl_id) (simp add: trans_def)
  then have "order_wf 2 {(0, 1)} {(0, 1)}"
    by (auto simp: order_wf_def covers_def strict_order_def acyclic_def trans_def irrefl_def)
  then show "powl_wf 1 demo_pair" "powl_wf 2 demo_pair"
    by (simp_all add: demo_pair_def demo_atom_def freq_wf_def ONCE_def MAX_POWL_DEPTH_def numeral_2_eq_2)
qed

lemma demo_nested_wf: "powl_wf 1 demo_nested"
proof -
  have "validate_model (ChoiceGraph [Start, Silent, End] [demo_edge_to 0 1, demo_edge_to 1 2] 0 2 ONCE) = Inr ()"
    by code_simp
  then show ?thesis
    using demo_pair_wf(2)
    by (simp add: validate_model_def validate_ok demo_nested_def numeral_2_eq_2 numeral_3_eq_3 del: validate.simps)
qed

text \<open>The walk that \<open>execute\<close> makes of a valid node whose fingerprint exists.\<close>

definition keyed_walk :: "powl \<Rightarrow> checkpoint option \<Rightarrow> string list walk_result" where
  "keyed_walk node c =
     walk_node 2 (logging_environment\<lparr>ev_node_key := ''k''\<rparr>) node True (map_option cp_cursor c)
       (case c of None \<Rightarrow> 0 | Some c \<Rightarrow> cp_completed_repetitions c) 0 (start_state [] c)"

lemma execute_keyed:
  assumes "powl_wf 1 node" "node_key (\<lambda>_. ''k'') node = Inr ''k''"
    and "\<And>c'. c = Some c' \<Longrightarrow> cp_node_key c' = ''k''"
  shows "execute 2 logging_environment node c [] = keyed_walk node c"
proof -
  have "validate_model node = Inr ()" using assms(1) by (simp add: validate_model_def validate_ok(1))
  moreover have "node_key (ev_canon logging_environment) node = Inr ''k''"
    using assms(2) by (simp add: logging_environment_def)
  ultimately show ?thesis
    using assms(3) by (cases c) (simp_all add: execute_def keyed_walk_def Let_def)
qed

definition first_checkpoint :: "powl \<Rightarrow> nat \<Rightarrow> checkpoint option" where
  "first_checkpoint node k =
     (case keyed_walk node None of Some (Inr st) \<Rightarrow> Some (ws_emitted st ! k) | _ \<Rightarrow> None)"

definition world_of :: "string list walk_result \<Rightarrow> string list option" where
  "world_of res = (case res of Some (Inr st) \<Rightarrow> Some (ws_world st) | _ \<Rightarrow> None)"

lemma resumed_calls_keyed:
  assumes "powl_wf 1 node" "node_key (\<lambda>_. ''k'') node = Inr ''k''"
    and "map_option cp_node_key (first_checkpoint node k) = Some ''k''"
    and "world_of (keyed_walk node (first_checkpoint node k)) = Some calls"
  shows "resumed_calls node k = Some calls"
proof -
  obtain st where st: "keyed_walk node None = Some (Inr st)" "cp_node_key (ws_emitted st ! k) = ''k''"
    "first_checkpoint node k = Some (ws_emitted st ! k)"
    using assms(3) by (auto simp: first_checkpoint_def split: option.splits sum.splits)
  then obtain st' where "keyed_walk node (Some (ws_emitted st ! k)) = Some (Inr st')" "ws_world st' = calls"
    using assms(4) by (auto simp: world_of_def split: option.splits sum.splits)
  with st show ?thesis
    using execute_keyed [OF assms(1,2), of None] execute_keyed [OF assms(1,2), of "Some (ws_emitted st ! k)"]
    by (simp add: resumed_calls_def)
qed

text \<open>The checkpoint handed to \<open>on_step\<close> right after the first atom of a
  two-step sequence has run does not count that atom as completed: resuming from it invokes
  the atom a second time.\<close>

theorem resume_repeats_atom: "resumed_calls demo_pair 0 = Some [''lock'', ''write'']"
  by (rule resumed_calls_keyed [OF demo_pair_wf(1)]) code_simp+

text \<open>In a choice graph the checkpoint taken after the first atom of a
  two-step child names that child as entered: resuming from it continues behind the child and
  never invokes its second atom, although the documentation says the child is replayed in
  full.\<close>

theorem resume_skips_rest: "resumed_calls demo_nested 1 = Some []"
  by (rule resumed_calls_keyed [OF demo_nested_wf]) code_simp+

section \<open>Edges that cannot be compared\<close>

text \<open>The validator accepts a guarded and an unguarded edge between the
  same two children, but \<open>execute\<close> of any model that has such a pair at the top raises a
  TypeError while it fingerprints the model, whatever the callbacks are.\<close>

theorem mixed_guards_crash:
  assumes "validate_model (ChoiceGraph cs es start end fq) = Inr ()" "mixed_guards es"
    and "node_fingerprints (ev_canon env) cs = Inr js"
  shows "execute fuel env (ChoiceGraph cs es start end fq) None w =
    Some (Inl (WalkRaised (Raised ''TypeError'' []), start_state w None))"
  using assms by (simp add: execute_def node_key_def fingerprint_edges_def edges_json_def Let_def)

definition demo_guarded_edge :: choice_edge where
  "demo_guarded_edge = \<lparr>ce_src = 0, ce_dst = 1,
     ce_guard = Some \<lparr>gd_predicate_name = ''healthy'', gd_predicate_args = []\<rparr>\<rparr>"

theorem mixed_guards_crash_witness:
  "execute 2 logging_environment (ChoiceGraph [Start, End] [demo_guarded_edge, demo_edge_to 0 1] 0 1 ONCE) None [] =
     Some (Inl (WalkRaised (Raised ''TypeError'' []), start_state [] None))"
proof -
  have "validate_model (ChoiceGraph [Start, End] [demo_guarded_edge, demo_edge_to 0 1] 0 1 ONCE) = Inr ()"
    "mixed_guards [demo_guarded_edge, demo_edge_to 0 1]"
    by code_simp+
  then show ?thesis by (rule mixed_guards_crash) simp
qed

end
