(* ===== verification/Ledger_Codec.thy ===== *)
theory Ledger_Codec
  imports Evidence "HOL-Library.Monad_Syntax"
begin

text \<open>
  What a durable ledger stores and reads back: the value \<open>json.loads\<close> gives for the RFC 8785
  text of a value, and \<open>Receipt.model_validate\<close> on it (\<open>src/gymact/sqlite_ledger.py\<close>,
  \<open>src/gymact/models.py\<close>). The text itself stays abstract: \<open>canon v\<close> is the value it denotes,
  with sorted keys and integral floats read back as integers.
\<close>

section \<open>The value behind a canonical text\<close>

text \<open>
  RFC 8785 writes an integral float below \<open>10^21\<close> without a point, so it is read as an integer.
\<close>

definition canon_number :: "rat \<Rightarrow> json" where
  "canon_number q =
     (if q \<in> \<int> \<and> \<bar>q\<bar> < 10 ^ 21 then JInt \<lfloor>q\<rfloor> else JFloat q)"

fun canon :: "json \<Rightarrow> json" where
  "canon (JFloat q) = canon_number q"
| "canon (JArr xs) = JArr (map canon xs)"
| "canon (JObj kvs) = JObj (sort_key fst (map (\<lambda>(k, v). (k, canon v)) kvs))"
| "canon v = v"

definition canon_dict :: "dict \<Rightarrow> dict" where
  "canon_dict d = sort_key fst (map (\<lambda>(k, v). (k, canon v)) d)"

section \<open>Reading a receipt\<close>

text \<open>One reader per field type; \<open>None\<close> is a validation error.\<close>

fun read_str :: "json \<Rightarrow> string option" where
  "read_str (JStr s) = Some s"
| "read_str _ = None"

fun read_opt_str :: "json \<Rightarrow> string option option" where
  "read_opt_str JNull = Some None"
| "read_opt_str (JStr s) = Some (Some s)"
| "read_opt_str _ = None"

fun read_opt_bool :: "json \<Rightarrow> bool option option" where
  "read_opt_bool JNull = Some None"
| "read_opt_bool (JBool b) = Some (Some b)"
| "read_opt_bool _ = None"

fun read_float :: "json \<Rightarrow> rat option" where
  "read_float (JFloat q) = Some q"
| "read_float (JInt i) = Some (of_int i)"
| "read_float _ = None"

fun read_list :: "(json \<Rightarrow> 'a option) \<Rightarrow> json \<Rightarrow> 'a list option" where
  "read_list f (JArr []) = Some []"
| "read_list f (JArr (x # xs)) =
     (case f x of
        None \<Rightarrow> None
      | Some y \<Rightarrow> map_option (\<lambda>ys. y # ys) (read_list f (JArr xs)))"
| "read_list f _ = None"

definition read_strs :: "json \<Rightarrow> string list option" where
  "read_strs = read_list read_str"

fun read_dict :: "json \<Rightarrow> dict option" where
  "read_dict (JObj d) = Some d"
| "read_dict _ = None"

definition read_dicts :: "json \<Rightarrow> dict list option" where
  "read_dicts = read_list read_dict"

text \<open>An enumeration is read by looking its value up among the members.\<close>

definition read_operation :: "json \<Rightarrow> operation option" where
  "read_operation v = find (\<lambda>x. v = JStr (operation_value x))
     [DISCOVER, MATERIALIZE, OBSERVE, ACT, VERIFY, CHECKPOINT, RESTORE, TEARDOWN]"

definition read_standing :: "json \<Rightarrow> standing option" where
  "read_standing v = find (\<lambda>x. v = JStr (standing_value x))
     [UNKNOWN, CANDIDATE, STRUCTURAL, PARTIAL_ALIVE, ALIVE, ADOPTED, BLOCKED, BUILD_BROKEN,
      UNSUPPORTED, REQUIRES_CONFIGURATION, REFUSED, UNCERTAIN, STALE]"

definition read_cost_kind :: "json \<Rightarrow> cost_kind option" where
  "read_cost_kind v = find (\<lambda>x. v = JStr (cost_kind_value x)) [Declared_estimate, Observed_actual]"

text \<open>
  A field without a default is required; one with a default may be absent. \<open>receipt_id\<close> and
  \<open>occurred_at\<close> have default factories, but no stored row lacks them: they are required here.
\<close>

definition required :: "(json \<Rightarrow> 'a option) \<Rightarrow> string \<Rightarrow> dict \<Rightarrow> 'a option" where
  "required f k d = (case map_of d k of None \<Rightarrow> None | Some v \<Rightarrow> f v)"

definition optional :: "(json \<Rightarrow> 'a option) \<Rightarrow> 'a \<Rightarrow> string \<Rightarrow> dict \<Rightarrow> 'a option" where
  "optional f dflt k d = (case map_of d k of None \<Rightarrow> Some dflt | Some v \<Rightarrow> f v)"

fun read_cost :: "json \<Rightarrow> cost_dimension option" where
  "read_cost (JObj d) =
     (if \<not> set (map fst d) \<subseteq> {''unit'', ''quantity'', ''kind'', ''source''} then None
      else do {
        unit \<leftarrow> required read_str ''unit'' d;
        quantity \<leftarrow> required read_float ''quantity'' d;
        kind \<leftarrow> required read_cost_kind ''kind'' d;
        source \<leftarrow> required read_str ''source'' d;
        Some \<lparr>cd_unit = unit, cd_quantity = quantity, cd_kind = kind, cd_source = source\<rparr>
      })"
| "read_cost _ = None"

definition read_costs :: "json \<Rightarrow> cost_dimension list option" where
  "read_costs = read_list read_cost"

definition receipt_fields :: "string list" where
  "receipt_fields =
     [''receipt_id'', ''occurred_at'', ''episode_id'', ''operation'', ''standing'',
      ''subject_ref'', ''capability_ref'', ''authority_ref'',
      ''authority_evidence_ref'', ''principal'', ''delegated_principal'',
      ''policy_revision'', ''intended_effects'', ''idempotency_key'',
      ''planning_provenance_digest'', ''pre_state_digest'', ''post_state_digest'',
      ''acknowledgement_status'', ''world_changed'', ''verification_id'',
      ''verified'', ''observation_confidence'', ''possibility_graph_digest'',
      ''possibility_exploration_digest'', ''possibility_path_id'',
      ''possibility_morphism_id'', ''selection_digest'', ''selection_basis_refs'',
      ''parent_receipt_ids'', ''error_digest'', ''reason'', ''costs'']"

definition read_receipt :: "dict \<Rightarrow> receipt option" where
  "read_receipt d =
     do {
       x0 \<leftarrow> required read_str ''receipt_id'' d;
       x1 \<leftarrow> required read_str ''occurred_at'' d;
       x2 \<leftarrow> required read_str ''episode_id'' d;
       x3 \<leftarrow> required read_operation ''operation'' d;
       x4 \<leftarrow> required read_standing ''standing'' d;
       x5 \<leftarrow> optional read_opt_str None ''subject_ref'' d;
       x6 \<leftarrow> optional read_opt_str None ''capability_ref'' d;
       x7 \<leftarrow> optional read_opt_str None ''authority_ref'' d;
       x8 \<leftarrow> optional read_opt_str None ''authority_evidence_ref'' d;
       x9 \<leftarrow> optional read_opt_str None ''principal'' d;
       x10 \<leftarrow> optional read_opt_str None ''delegated_principal'' d;
       x11 \<leftarrow> optional read_opt_str None ''policy_revision'' d;
       x12 \<leftarrow> optional read_dicts [] ''intended_effects'' d;
       x13 \<leftarrow> optional read_opt_str None ''idempotency_key'' d;
       x14 \<leftarrow> optional read_opt_str None ''planning_provenance_digest'' d;
       x15 \<leftarrow> optional read_opt_str None ''pre_state_digest'' d;
       x16 \<leftarrow> optional read_opt_str None ''post_state_digest'' d;
       x17 \<leftarrow> optional read_opt_str None ''acknowledgement_status'' d;
       x18 \<leftarrow> optional read_opt_bool None ''world_changed'' d;
       x19 \<leftarrow> optional read_opt_str None ''verification_id'' d;
       x20 \<leftarrow> optional read_opt_bool None ''verified'' d;
       x21 \<leftarrow> optional read_opt_str None ''observation_confidence'' d;
       x22 \<leftarrow> optional read_opt_str None ''possibility_graph_digest'' d;
       x23 \<leftarrow> optional read_opt_str None ''possibility_exploration_digest'' d;
       x24 \<leftarrow> optional read_opt_str None ''possibility_path_id'' d;
       x25 \<leftarrow> optional read_opt_str None ''possibility_morphism_id'' d;
       x26 \<leftarrow> optional read_opt_str None ''selection_digest'' d;
       x27 \<leftarrow> optional read_strs [] ''selection_basis_refs'' d;
       x28 \<leftarrow> optional read_strs [] ''parent_receipt_ids'' d;
       x29 \<leftarrow> optional read_opt_str None ''error_digest'' d;
       x30 \<leftarrow> optional read_opt_str None ''reason'' d;
       x31 \<leftarrow> optional read_costs [] ''costs'' d;
       Some \<lparr>
         rc_receipt_id = x0, rc_occurred_at = x1, rc_episode_id = x2, rc_operation =
         x3, rc_standing = x4, rc_subject_ref = x5, rc_capability_ref = x6,
         rc_authority_ref = x7, rc_authority_evidence_ref = x8, rc_principal = x9,
         rc_delegated_principal = x10, rc_policy_revision = x11, rc_intended_effects =
         x12, rc_idempotency_key = x13, rc_planning_provenance_digest = x14,
         rc_pre_state_digest = x15, rc_post_state_digest = x16,
         rc_acknowledgement_status = x17, rc_world_changed = x18, rc_verification_id =
         x19, rc_verified = x20, rc_observation_confidence = x21,
         rc_possibility_graph_digest = x22, rc_possibility_exploration_digest = x23,
         rc_possibility_path_id = x24, rc_possibility_morphism_id = x25,
         rc_selection_digest = x26, rc_selection_basis_refs = x27,
         rc_parent_receipt_ids = x28, rc_error_digest = x29, rc_reason = x30, rc_costs
         = x31\<rparr>
     }"

text \<open>\<open>Receipt.model_validate(value)\<close>: no field beyond the declared ones, each of its type,
  then the model's own validator.\<close>

definition receipt_validate :: "json \<Rightarrow> receipt res" where
  "receipt_validate v =
     (case v of
        JObj d \<Rightarrow>
          if \<not> set (map fst d) \<subseteq> set receipt_fields
          then Inl (Raised ''ValidationError'' ''extra_forbidden'')
          else
            (case read_receipt d of
               None \<Rightarrow> Inl (Raised ''ValidationError'' ''field'')
             | Some r \<Rightarrow>
                 (case combinatorial_binding_is_atomic r of
                    Inl e \<Rightarrow> Inl (Raised ''ValidationError'' (exn_message e))
                  | Inr r' \<Rightarrow> Inr r'))
      | _ \<Rightarrow> Inl (Raised ''ValidationError'' ''model_type''))"

section \<open>Round trip\<close>

text \<open>The receipt a stored receipt is read back as: only its effect dictionaries are rewritten.\<close>

definition canon_receipt :: "receipt \<Rightarrow> receipt" where
  "canon_receipt r = r\<lparr>rc_intended_effects := map canon_dict (rc_intended_effects r)\<rparr>"

lemma canon_opt [simp]:
  "canon (opt_json x) = opt_json x" "canon (opt_bool_json b) = opt_bool_json b"
  by (cases x, simp_all) (cases b, simp_all)

lemma canon_strs [simp]: "canon (strs_json xs) = strs_json xs"
  by (simp add: strs_json_def)

lemma map_of_sort_key: "distinct (map fst xs) \<Longrightarrow> map_of (sort_key fst xs) = map_of xs"
  by (subst map_of_inject_set) (auto simp: distinct_map)

lemma map_of_canon_dict:
  assumes "distinct (map fst d)"
  shows "map_of (canon_dict d) k = map_option canon (map_of d k)"
proof -
  have "map fst (map (\<lambda>(k, v). (k, canon v)) d) = map fst d" by (induction d) auto
  with assms show ?thesis
    by (simp add: canon_dict_def map_of_sort_key map_of_map del: map_map)
qed

lemma keys_canon_dict [simp]: "fst ` set (canon_dict d) = fst ` set d"
  by (force simp: canon_dict_def)

lemma read_opt [simp]:
  "read_opt_str (opt_json x) = Some x" "read_opt_bool (opt_bool_json b) = Some b"
  by (cases x, simp_all) (cases b, simp_all)

lemma read_list_map:
  "(\<And>x. x \<in> set xs \<Longrightarrow> f (g x) = Some (h x)) \<Longrightarrow> read_list f (JArr (map g xs)) = Some (map h xs)"
  by (induction xs) auto

lemma read_strs_json [simp]: "read_strs (strs_json xs) = Some xs"
  unfolding read_strs_def strs_json_def by (subst read_list_map [where h = "\<lambda>x. x"]) simp_all

lemma read_operation_value [simp]: "read_operation (JStr (operation_value p)) = Some p"
  by (cases p) (simp_all add: read_operation_def)

lemma read_standing_value [simp]: "read_standing (JStr (standing_value s)) = Some s"
  by (cases s) (simp_all add: read_standing_def)

lemma read_cost_kind_value [simp]: "read_cost_kind (JStr (cost_kind_value c)) = Some c"
  by (cases c) (simp_all add: read_cost_kind_def)

lemma read_float_canon [simp]: "read_float (canon_number q) = Some q"
  by (auto simp: canon_number_def Ints_def)

text \<open>Looking a field up in the stored form of a literal dictionary.\<close>

lemma stored_lookup:
  "canon (JObj d) = JObj c \<Longrightarrow> distinct (map fst d) \<Longrightarrow> map_of c k = map_option canon (map_of d k)"
  using map_of_canon_dict [of d k] by (auto simp: canon_dict_def)

lemma stored_keys: "canon (JObj d) = JObj c \<Longrightarrow> set (map fst c) = set (map fst d)"
  by force

lemma read_cost_canon [simp]: "read_cost (canon (cost_json c)) = Some c"
proof -
  obtain d where d: "canon (cost_json c) = JObj d" by (simp add: cost_json_def)
  note keys = stored_keys [OF d [unfolded cost_json_def]]
  note get = stored_lookup [OF d [unfolded cost_json_def]]
  show ?thesis unfolding d using keys by (simp add: required_def get)
qed

lemma read_costs_canon [simp]: "read_costs (JArr (map (\<lambda>c. canon (cost_json c)) cs)) = Some cs"
  unfolding read_costs_def by (subst read_list_map [where h = "\<lambda>x. x"]) simp_all

lemma read_dicts_canon [simp]:
  "read_dicts (JArr (map (\<lambda>d. JObj (sort_key fst (map (\<lambda>(k, v). (k, canon v)) d))) ds)) =
     Some (map canon_dict ds)"
  unfolding read_dicts_def by (subst read_list_map [where h = canon_dict]) (simp_all add: canon_dict_def)

lemma receipt_keys_distinct: "distinct receipt_fields"
  by code_simp

lemma receipt_json_keys: "receipt_json r = JObj d \<Longrightarrow> map fst d = receipt_fields"
  by (auto simp: receipt_json_def receipt_fields_def)

lemma read_stored_field:
  assumes "canon (JObj d) = JObj c" "distinct (map fst d)" "map_of d k = Some v"
  shows "required f k c = f (canon v)" "optional f x k c = f (canon v)"
  using stored_lookup [OF assms(1,2)] assms(3) by (simp_all add: required_def optional_def)

lemma read_receipt_canon:
  assumes "canon (receipt_json r) = JObj c"
  shows "read_receipt c = Some (canon_receipt r)" "set (map fst c) = set receipt_fields"
proof -
  obtain d where d: "receipt_json r = JObj d" by (simp add: receipt_json_def)
  note keys = receipt_json_keys [OF d]
  show "set (map fst c) = set receipt_fields"
    using stored_keys [of d c] assms d keys by simp
  have dist: "distinct (map fst d)" using keys receipt_keys_distinct by simp
  have look: "map_of d k = (case receipt_json r of JObj x \<Rightarrow> map_of x k)" for k
    by (simp add: d)
  note get = read_stored_field [OF assms [unfolded d] dist, unfolded look]
  show "read_receipt c = Some (canon_receipt r)"
    by (simp add: read_receipt_def receipt_json_def get comp_def canon_receipt_def)
qed

lemma canon_receipt_core [simp]:
  "receipt_core (canon_receipt r) = receipt_core r"
  "rc_receipt_id (canon_receipt r) = rc_receipt_id r"
  "rc_idempotency_key (canon_receipt r) = rc_idempotency_key r"
  "rc_episode_id (canon_receipt r) = rc_episode_id r"
  "rc_capability_ref (canon_receipt r) = rc_capability_ref r"
  by (simp_all add: canon_receipt_def receipt_core_def)

lemma canon_receipt_atomic:
  "combinatorial_binding_is_atomic r = Inr r \<Longrightarrow>
   combinatorial_binding_is_atomic (canon_receipt r) = Inr (canon_receipt r)"
  by (auto simp: combinatorial_binding_is_atomic_def split: if_splits)
    (simp_all add: canon_receipt_def)

lemma receipt_validate_canon:
  assumes "combinatorial_binding_is_atomic r = Inr r"
  shows "receipt_validate (canon (receipt_json r)) = Inr (canon_receipt r)"
proof -
  obtain c where c: "canon (receipt_json r) = JObj c" by (simp add: receipt_json_def)
  show ?thesis
    using read_receipt_canon [OF c] canon_receipt_atomic [OF assms]
    by (simp add: receipt_validate_def c)
qed

section \<open>The stored form is the same value\<close>

text \<open>Reading back changes nothing that Python's \<open>==\<close> sees, and is stable.\<close>

lemma numeric_canon_number [simp]: "numeric (canon_number q) = Some q"
  by (auto simp: canon_number_def elim: Ints_cases)

lemma py_eq_canon_number: "py_eq (canon_number q) (JFloat q)" "py_eq (JFloat q) (canon_number q)"
  by (auto simp: canon_number_def elim: Ints_cases)

lemma py_eq_canon: "json_wf v \<Longrightarrow> py_eq (canon v) v \<and> py_eq v (canon v)"
proof (induction v)
  case (JFloat q)
  then show ?case by (simp add: py_eq_canon_number)
next
  case (JArr xs)
  then show ?case by (auto simp: list_all_iff list_all2_conv_all_nth)
next
  case (JObj xs)
  have dist: "distinct (map fst xs)" using JObj.prems by simp
  have IH: "py_eq (canon v) v \<and> py_eq v (canon v)" if "(k, v) \<in> set xs" for k v
    using JObj.IH [of "(k, v)" v] JObj.prems that by (auto simp: list_all_iff)
  have "map_of (canon_dict xs) k = Some (canon v)" "map_of xs k = Some v"
    if "(k, v) \<in> set xs" for k v
    using that dist by (simp_all add: map_of_canon_dict)
  with IH show ?case by (auto simp: list_all_iff canon_dict_def) 
qed simp_all

lemma canon_number_stable: "canon (canon_number q) = canon_number q"
  by (simp add: canon_number_def)

lemma canon_canon [simp]: "canon (canon v) = canon v"
proof (induction v)
  case (JObj kvs)
  define ys where "ys = map (\<lambda>(k, v). (k, canon v)) kvs"
  have idem: "map (\<lambda>(k, v). (k, canon v)) (sort_key fst ys) = sort_key fst ys"
    using JObj.IH by (intro map_idI) (auto simp: ys_def)
  have "sort_key fst (sort_key fst ys) = sort_key fst ys"
    by (rule sort_key_id_if_sorted) simp
  with idem show ?case by (simp add: ys_def)
qed (simp_all add: canon_number_stable)

lemma canon_dict_stable [simp]: "canon_dict (canon_dict d) = canon_dict d"
  using canon_canon [of "JObj d"] by (simp add: canon_dict_def)

lemma canon_receipt_stable [simp]: "canon_receipt (canon_receipt r) = canon_receipt r"
  by (simp add: canon_receipt_def comp_def)

text \<open>\<open>Receipt.__eq__\<close>: field by field, dictionaries whatever their order.\<close>

definition receipt_eq :: "receipt \<Rightarrow> receipt \<Rightarrow> bool" where
  "receipt_eq a b \<longleftrightarrow>
     a\<lparr>rc_intended_effects := []\<rparr> = b\<lparr>rc_intended_effects := []\<rparr> \<and>
     list_all2 (\<lambda>x y. py_eq (JObj x) (JObj y)) (rc_intended_effects a) (rc_intended_effects b)"

definition receipt_wf :: "receipt \<Rightarrow> bool" where
  "receipt_wf r \<longleftrightarrow> list_all dict_wf (rc_intended_effects r)"

lemma receipt_eq_refl: "receipt_wf r \<Longrightarrow> receipt_eq r r"
  unfolding receipt_eq_def receipt_wf_def list_all_iff
  by (auto simp del: py_eq.simps json_wf.simps intro: py_eq_refl list.rel_refl_strong)

lemma receipt_eq_id: "receipt_eq a b \<Longrightarrow> rc_receipt_id a = rc_receipt_id b"
  by (drule receipt_eq_def [THEN iffD1], drule conjunct1, drule arg_cong [where f = rc_receipt_id])
    simp

lemma receipt_eq_canon:
  assumes "receipt_wf r"
  shows "receipt_eq (canon_receipt r) r" "receipt_eq r (canon_receipt r)"
proof -
  have "py_eq (JObj (canon_dict d)) (JObj d) \<and> py_eq (JObj d) (JObj (canon_dict d))"
    if "d \<in> set (rc_intended_effects r)" for d
    using py_eq_canon [of "JObj d"] that assms
    by (simp add: receipt_wf_def list_all_iff canon_dict_def)
  then show "receipt_eq (canon_receipt r) r" "receipt_eq r (canon_receipt r)"
    by (auto simp: receipt_eq_def canon_receipt_def list.rel_map
        simp del: py_eq.simps intro: list.rel_refl_strong)
qed

text \<open>A receipt that passed its validator, stored as canonical JSON and validated again when it
  is read, comes back equal to itself under Python's equality, whatever the order and number
  format of its effects, and reading it back a second time changes nothing.\<close>

theorem stored_receipt_round_trip:
  assumes "combinatorial_binding_is_atomic r = Inr r" "receipt_wf r"
  shows "\<exists>s. receipt_validate (canon (receipt_json r)) = Inr s \<and> receipt_eq s r \<and>
    receipt_eq r s \<and> receipt_validate (canon (receipt_json s)) = Inr s"
  using receipt_validate_canon [OF assms(1)] receipt_eq_canon [OF assms(2)]
    receipt_validate_canon [OF canon_receipt_atomic [OF assms(1)]]
  by auto

definition effectful_receipt :: receipt where
  "effectful_receipt = (new_receipt ''r1'' ''t'' ''e1'' ACT ALIVE)
     \<lparr>rc_intended_effects := [[(''y'', JFloat 2), (''x'', JArr [JFloat (1 / 2)])]],
      rc_costs := [\<lparr>cd_unit = ''usd'', cd_quantity = 3, cd_kind = Observed_actual,
        cd_source = ''measured''\<rparr>], rc_world_changed := Some True\<rparr>"

theorem stored_receipt_round_trip_witness:
  "\<exists>s. receipt_validate (canon (receipt_json effectful_receipt)) = Inr s \<and>
    receipt_eq s effectful_receipt \<and> receipt_eq effectful_receipt s \<and>
    receipt_validate (canon (receipt_json s)) = Inr s"
  by (rule stored_receipt_round_trip)
    (simp_all add: effectful_receipt_def new_receipt_def combinatorial_binding_is_atomic_def
      receipt_core_def receipt_wf_def)

end
