(* ===== verification/Sqlite_Ledger.thy ===== *)
theory Sqlite_Ledger
  imports Ledger_Codec
begin

text \<open>
  The durable ledger \<open>SQLiteReceiptLedger\<close> of \<open>src/gymact/sqlite_ledger.py\<close>. The database is
  the list of rows of its one table, in the order they were inserted; a query is a list
  expression with the table's \<open>ORDER BY\<close> written out, a transaction restores the table when
  its body raises, and an insert checks the primary key and the two \<open>UNIQUE\<close> columns. The
  column \<open>receipt_json\<close> holds canonical text, represented by the value it denotes
  (\<open>canon\<close>). The locale \<open>ledger_refinement\<close> is the abstract contract: a ledger that does what
  \<open>MemoryReceiptLedger\<close> does.
\<close>

section \<open>Table and queries\<close>

record sqlite_row =
  sr_sequence :: nat
  sr_receipt_id :: string
  sr_previous_digest :: "string option"
  sr_receipt_digest :: string
  sr_record_digest :: string
  sr_receipt_json :: json

type_synonym sqlite_table = "sqlite_row list"

text \<open>\<open>_record(row)\<close>.\<close>

definition sql_record :: "sqlite_row \<Rightarrow> evidence_record res" where
  "sql_record row =
     bind_res (receipt_validate (sr_receipt_json row)) (\<lambda>receipt.
       Inr \<lparr>er_sequence = sr_sequence row, er_previous_digest = sr_previous_digest row,
            er_receipt_digest = sr_receipt_digest row, er_record_digest = sr_record_digest row,
            er_receipt = receipt\<rparr>)"

definition select_receipt :: "sqlite_table \<Rightarrow> string \<Rightarrow> sqlite_row option" where
  "select_receipt t receipt_id = find (\<lambda>row. sr_receipt_id row = receipt_id) t"

text \<open>\<open>json_extract(receipt_json, '$.idempotency_key') = key\<close>.\<close>

definition json_extract_key :: "sqlite_row \<Rightarrow> string \<Rightarrow> bool" where
  "json_extract_key row key =
     (case sr_receipt_json row of
        JObj d \<Rightarrow> map_of d ''idempotency_key'' = Some (JStr key)
      | _ \<Rightarrow> False)"

definition select_key :: "sqlite_table \<Rightarrow> string \<Rightarrow> sqlite_row option" where
  "select_key t key = find (\<lambda>row. json_extract_key row key) (sort_key sr_sequence t)"

definition select_last :: "sqlite_table \<Rightarrow> sqlite_row option" where
  "select_last t = last_opt (sort_key sr_sequence t)"

definition insert_row :: "sqlite_row \<Rightarrow> sqlite_table \<Rightarrow> unit res \<times> sqlite_table" where
  "insert_row row t =
     (if sr_sequence row \<in> sr_sequence ` set t \<or> sr_receipt_id row \<in> sr_receipt_id ` set t \<or>
         sr_record_digest row \<in> sr_record_digest ` set t
      then (Inl (Raised ''IntegrityError'' ''UNIQUE constraint failed''), t)
      else (Inr (), t @ [row]))"

text \<open>\<open>BEGIN IMMEDIATE\<close> with commit on return and rollback on any exception.\<close>

definition transaction :: "(sqlite_table, 'a) action \<Rightarrow> (sqlite_table, 'a) action" where
  "transaction body t =
     (case body t of
        (Inl e, _) \<Rightarrow> (Inl e, t)
      | (Inr x, t') \<Rightarrow> (Inr x, t'))"

section \<open>Operations\<close>

definition sql_key_check :: "receipt \<Rightarrow> sqlite_table \<Rightarrow> unit res" where
  "sql_key_check receipt t =
     (case rc_idempotency_key receipt of
        None \<Rightarrow> Inr ()
      | Some key \<Rightarrow>
          (case select_key t key of
             None \<Rightarrow> Inr ()
           | Some key_row \<Rightarrow>
               bind_res (sql_record key_row) (\<lambda>key_prior.
                 if \<not> same_intent (er_receipt key_prior) receipt
                 then Inl (value_error ''IDEMPOTENCY_KEY_REUSE_WITH_DIFFERENT_INTENT'')
                 else Inr ())))"

definition sql_insert :: "digest_fun \<Rightarrow> receipt \<Rightarrow> (sqlite_table, evidence_record) action" where
  "sql_insert H receipt t =
     (let receipt_digest = H (receipt_json receipt);
          last_row = select_last t;
          sequence = (case last_row of None \<Rightarrow> 0 | Some row \<Rightarrow> sr_sequence row + 1);
          previous = map_option sr_record_digest last_row;
          record_dig = record_digest H sequence previous receipt_digest
      in case insert_row
           \<lparr>sr_sequence = sequence, sr_receipt_id = rc_receipt_id receipt,
            sr_previous_digest = previous, sr_receipt_digest = receipt_digest,
            sr_record_digest = record_dig, sr_receipt_json = canon (receipt_json receipt)\<rparr> t of
           (Inl e, t') \<Rightarrow> (Inl e, t')
         | (Inr _, t') \<Rightarrow>
             (Inr \<lparr>er_sequence = sequence, er_previous_digest = previous,
                   er_receipt_digest = receipt_digest, er_record_digest = record_dig,
                   er_receipt = receipt\<rparr>, t'))"

definition sql_append :: "digest_fun \<Rightarrow> receipt \<Rightarrow> (sqlite_table, evidence_record) action" where
  "sql_append H receipt = transaction (\<lambda>t.
     case select_receipt t (rc_receipt_id receipt) of
       Some existing \<Rightarrow>
         (case sql_record existing of
            Inl e \<Rightarrow> (Inl e, t)
          | Inr prior \<Rightarrow>
              if \<not> receipt_eq (er_receipt prior) receipt
              then (Inl (value_error ''RECEIPT_ID_CONFLICT''), t)
              else (Inr prior, t))
     | None \<Rightarrow>
         (case sql_key_check receipt t of
            Inl e \<Rightarrow> (Inl e, t)
          | Inr _ \<Rightarrow> sql_insert H receipt t))"

text \<open>\<open>tuple(self._record(row) for row in rows)\<close>: the first row that does not validate raises.\<close>

fun map_res :: "('a \<Rightarrow> 'b res) \<Rightarrow> 'a list \<Rightarrow> 'b list res" where
  "map_res f [] = Inr []"
| "map_res f (x # xs) = bind_res (f x) (\<lambda>y. bind_res (map_res f xs) (\<lambda>ys. Inr (y # ys)))"

definition sql_records :: "sqlite_table \<Rightarrow> evidence_record list res" where
  "sql_records t = map_res sql_record (sort_key sr_sequence t)"

definition sql_find :: "sqlite_table \<Rightarrow> string \<Rightarrow> evidence_record option res" where
  "sql_find t receipt_id =
     (case select_receipt t receipt_id of
        None \<Rightarrow> Inr None
      | Some row \<Rightarrow> bind_res (sql_record row) (\<lambda>e. Inr (Some e)))"

definition sql_verify :: "digest_fun \<Rightarrow> sqlite_table \<Rightarrow> bool res" where
  "sql_verify H t = bind_res (sql_records t) (\<lambda>records. Inr (verify_from H 0 None records))"

text \<open>The constructor on a database file that holds the table \<open>t\<close>.\<close>

definition sql_open :: "digest_fun \<Rightarrow> sqlite_table \<Rightarrow> sqlite_table res" where
  "sql_open H t =
     bind_res (sql_verify H t) (\<lambda>ok.
       if \<not> ok then Inl (value_error ''EVIDENCE_CHAIN_INVALID'') else Inr t)"

section \<open>The contract\<close>

definition memory_of :: "evidence_record list \<Rightarrow> memory_ledger" where
  "memory_of records =
     \<lparr>ml_records = records,
      ml_by_receipt = (\<lambda>i. find (\<lambda>e. record_id e = i) records),
      ml_by_idempotency_key =
        (\<lambda>k. find (\<lambda>e. rc_idempotency_key (er_receipt e) = Some k) records)\<rparr>"

lemma memory_of_records [simp]: "ml_records (memory_of xs) = xs"
  by (simp add: memory_of_def)

lemma memory_of_inv: "ledger_inv H led \<Longrightarrow> memory_of (ml_records led) = led"
  by (cases led) (auto simp: memory_of_def ledger_inv_def)

definition unique_digests :: "memory_ledger \<Rightarrow> bool" where
  "unique_digests led \<longleftrightarrow> distinct (map er_record_digest (ml_records led))"

fun memory_appends ::
    "digest_fun \<Rightarrow> memory_ledger \<Rightarrow> receipt list \<Rightarrow> evidence_record res list \<times> memory_ledger" where
  "memory_appends H led [] = ([], led)"
| "memory_appends H led (r # rs) =
     (case ledger_append H led r of (x, led') \<Rightarrow>
        (case memory_appends H led' rs of (xs, led'') \<Rightarrow> (x # xs, led'')))"

lemma unique_digests_append:
  "unique_digests (snd (ledger_append H led r)) \<Longrightarrow> unique_digests led"
  by (auto simp: unique_digests_def ledger_append_def Let_def split: option.splits if_splits)

lemma unique_digests_appends:
  "unique_digests (snd (memory_appends H led rs)) \<Longrightarrow> unique_digests led"
proof (induction rs arbitrary: led)
  case (Cons r rs)
  obtain x led' where app: "ledger_append H led r = (x, led')" by (cases "ledger_append H led r")
  with Cons have "unique_digests led'" by (auto split: prod.splits)
  with unique_digests_append [of H led r] app show ?case by simp
qed simp

text \<open>A ledger whose view is, operation by operation, the in-memory ledger, as long as no two
  records get the same digest.\<close>

locale ledger_refinement =
  fixes H :: digest_fun
    and append :: "'l \<Rightarrow> receipt \<Rightarrow> evidence_record res \<times> 'l"
    and view :: "'l \<Rightarrow> memory_ledger"
    and good :: "'l \<Rightarrow> bool"
    and accept :: "receipt \<Rightarrow> bool"
  assumes good_inv: "good l \<Longrightarrow> ledger_inv H (view l)"
    and append_good: "good l \<Longrightarrow> accept r \<Longrightarrow> append l r = (x, l') \<Longrightarrow> good l'"
    and append_sim: "good l \<Longrightarrow> accept r \<Longrightarrow> append l r = (x, l') \<Longrightarrow>
          unique_digests (snd (ledger_append H (view l) r)) \<Longrightarrow>
          ledger_append H (view l) r = (x, view l')"
begin

text \<open>The results of a sequence of appends and the ledger left behind.\<close>

fun appends :: "'l \<Rightarrow> receipt list \<Rightarrow> evidence_record res list \<times> 'l" where
  "appends l [] = ([], l)"
| "appends l (r # rs) =
     (case append l r of (x, l') \<Rightarrow>
        (case appends l' rs of (xs, l'') \<Rightarrow> (x # xs, l'')))"

lemma appends_good: "good l \<Longrightarrow> list_all accept rs \<Longrightarrow> good (snd (appends l rs))"
proof (induction rs arbitrary: l)
  case (Cons r rs)
  obtain x l' where app: "append l r = (x, l')" by (cases "append l r")
  have "good l'" using append_good [OF Cons.prems(1) _ app] Cons.prems(2) by simp
  then have "good (snd (appends l' rs))" using Cons.IH Cons.prems(2) by simp
  then show ?case by (auto simp: app split: prod.splits)
qed simp

lemma appends_sim:
  "good l \<Longrightarrow> list_all accept rs \<Longrightarrow> unique_digests (snd (memory_appends H (view l) rs)) \<Longrightarrow>
   memory_appends H (view l) rs = (fst (appends l rs), view (snd (appends l rs)))"
proof (induction rs arbitrary: l)
  case (Cons r rs)
  obtain x l' where app: "append l r = (x, l')" by (cases "append l r")
  obtain y m where mem: "ledger_append H (view l) r = (y, m)" by (cases "ledger_append H (view l) r")
  have good: "good l'" using append_good [OF Cons.prems(1) _ app] Cons.prems(2) by simp
  have unique: "unique_digests (snd (memory_appends H m rs))"
    using Cons.prems(3) mem by (auto split: prod.splits)
  then have "unique_digests (snd (ledger_append H (view l) r))"
    using unique_digests_appends mem by fastforce
  then have "m = view l'" "y = x"
    using append_sim [OF Cons.prems(1) _ app] Cons.prems(2) mem by simp_all
  with Cons.IH [OF good _ ] unique Cons.prems(2) show ?case
    by (auto simp: app mem split: prod.splits)
qed simp

end

section \<open>The invariant of the table\<close>

text \<open>
  A receipt that reads back as itself: its effects are in canonical form. The in-memory
  ledger is modelled with equality of values, so the set \<open>S\<close> of receipts in use is one on
  which Python's \<open>==\<close> is equality.
\<close>

definition storable :: "receipt \<Rightarrow> bool" where
  "storable r \<longleftrightarrow> combinatorial_binding_is_atomic r = Inr r \<and> receipt_wf r \<and> canon_receipt r = r"

definition exact_set :: "receipt set \<Rightarrow> bool" where
  "exact_set S \<longleftrightarrow> (\<forall>r \<in> S. storable r) \<and> (\<forall>a \<in> S. \<forall>b \<in> S. receipt_eq a b \<longrightarrow> a = b)"

definition row_of :: "evidence_record \<Rightarrow> sqlite_row" where
  "row_of e =
     \<lparr>sr_sequence = er_sequence e, sr_receipt_id = record_id e,
      sr_previous_digest = er_previous_digest e, sr_receipt_digest = er_receipt_digest e,
      sr_record_digest = er_record_digest e,
      sr_receipt_json = canon (receipt_json (er_receipt e))\<rparr>"

definition table_inv :: "digest_fun \<Rightarrow> receipt set \<Rightarrow> sqlite_table \<Rightarrow> bool" where
  "table_inv H S t \<longleftrightarrow> exact_set S \<and>
     (\<exists>records. t = map row_of records \<and> er_receipt ` set records \<subseteq> S \<and>
        unique_digests (memory_of records) \<and> ledger_inv H (memory_of records))"

text \<open>The records a well-formed table denotes.\<close>

definition table_records :: "sqlite_table \<Rightarrow> evidence_record list" where
  "table_records t = (case sql_records t of Inl _ \<Rightarrow> [] | Inr records \<Rightarrow> records)"

definition sql_view :: "sqlite_table \<Rightarrow> memory_ledger" where
  "sql_view t = memory_of (table_records t)"

lemma sql_record_row_of: "storable (er_receipt e) \<Longrightarrow> sql_record (row_of e) = Inr e"
  using receipt_validate_canon [of "er_receipt e"]
  by (simp add: sql_record_def row_of_def storable_def)

lemma row_of_simps [simp]:
  "sr_sequence (row_of e) = er_sequence e" "sr_receipt_id (row_of e) = record_id e"
  "sr_record_digest (row_of e) = er_record_digest e"
  by (simp_all add: row_of_def)

lemma map_res_map: "(\<And>x. x \<in> set xs \<Longrightarrow> f (g x) = Inr x) \<Longrightarrow> map_res f (map g xs) = Inr xs"
  by (induction xs) auto

lemma verify_from_sequences:
  "verify_from H n p xs \<Longrightarrow> map er_sequence xs = [n..<n + length xs]"
proof (induction xs arbitrary: n p)
  case (Cons x xs)
  then have "er_sequence x = n" "verify_from H (Suc n) (Some (er_record_digest x)) xs"
    by (simp_all split: if_splits)
  with Cons.IH [of "Suc n"] show ?case by (simp add: upt_conv_Cons del: upt_Suc)
qed simp

lemma find_map_row: "find P (map row_of xs) = map_option row_of (find (P \<circ> row_of) xs)"
  by (induction xs) auto

lemma json_extract_row_of [simp]:
  "json_extract_key (row_of e) key \<longleftrightarrow> rc_idempotency_key (er_receipt e) = Some key"
proof -
  obtain d where d: "receipt_json (er_receipt e) = JObj d" by (simp add: receipt_json_def)
  obtain c where c: "canon (JObj d) = JObj c" by simp
  have "map_of d ''idempotency_key'' = Some (opt_json (rc_idempotency_key (er_receipt e)))"
    using d by (auto simp: receipt_json_def)
  moreover have "distinct (map fst d)"
    using receipt_json_keys [OF d] receipt_keys_distinct by simp
  ultimately have "map_of c ''idempotency_key'' = Some (opt_json (rc_idempotency_key (er_receipt e)))"
    using stored_lookup [OF c] by simp
  then show ?thesis
    using c by (cases "rc_idempotency_key (er_receipt e)") (simp_all add: json_extract_key_def row_of_def d)
qed

text \<open>The queries on a table of the invariant.\<close>

lemma sorted_rows:
  assumes "ledger_inv H (memory_of records)"
  shows "sort_key sr_sequence (map row_of records) = map row_of records"
proof (rule sort_key_id_if_sorted)
  have "map er_sequence records = [0..<length records]"
    using verify_from_sequences [of H 0 None records] assms
    by (simp add: ledger_inv_def ledger_verify_def)
  then show "sorted (map sr_sequence (map row_of records))" by (simp add: comp_def)
qed

lemma select_receipt_rows:
  "select_receipt (map row_of records) i = map_option row_of (find (\<lambda>e. record_id e = i) records)"
  by (simp add: select_receipt_def find_map_row comp_def)

lemma select_key_rows:
  assumes "ledger_inv H (memory_of records)"
  shows "select_key (map row_of records) k =
    map_option row_of (find (\<lambda>e. rc_idempotency_key (er_receipt e) = Some k) records)"
  by (simp add: select_key_def sorted_rows [OF assms] find_map_row comp_def)

lemma select_last_rows:
  assumes "ledger_inv H (memory_of records)"
  shows "select_last (map row_of records) = map_option row_of (last_opt records)"
  by (simp add: select_last_def sorted_rows [OF assms] last_opt_def last_map)

lemma sql_records_rows:
  assumes "ledger_inv H (memory_of records)" "\<forall>e \<in> set records. storable (er_receipt e)"
  shows "sql_records (map row_of records) = Inr records"
  using assms(2) by (simp add: sql_records_def sorted_rows [OF assms(1)] map_res_map sql_record_row_of)

lemma sql_key_check_rows:
  assumes "ledger_inv H (memory_of records)" "\<forall>e \<in> set records. storable (er_receipt e)"
  shows "sql_key_check r (map row_of records) =
    (if key_conflict (memory_of records) r
     then Inl (value_error ''IDEMPOTENCY_KEY_REUSE_WITH_DIFFERENT_INTENT'') else Inr ())"
proof (cases "rc_idempotency_key r")
  case (Some k)
  show ?thesis
  proof (cases "find (\<lambda>e. rc_idempotency_key (er_receipt e) = Some k) records")
    case (Some e)
    then have "sql_record (row_of e) = Inr e"
      using assms(2) by (auto dest: find_SomeD intro: sql_record_row_of)
    with Some \<open>rc_idempotency_key r = Some k\<close> show ?thesis
      by (simp add: sql_key_check_def select_key_rows [OF assms(1)] key_conflict_def memory_of_def)
  qed (simp add: sql_key_check_def select_key_rows [OF assms(1)] key_conflict_def memory_of_def Some)
qed (simp add: sql_key_check_def key_conflict_def)

lemma last_sequence:
  assumes "ledger_inv H (memory_of records)"
  shows "(case map_option row_of (last_opt records) of None \<Rightarrow> 0 | Some row \<Rightarrow> sr_sequence row + 1) =
    length records"
proof (cases records rule: rev_cases)
  case (snoc xs x)
  have "map er_sequence records = [0..<length records]"
    using verify_from_sequences [of H 0 None records] assms
    by (simp add: ledger_inv_def ledger_verify_def)
  then have "er_sequence x = length xs" by (simp add: snoc)
  then show ?thesis by (simp add: snoc)
qed simp

lemma sequences_below:
  assumes "ledger_inv H (memory_of records)"
  shows "length records \<notin> er_sequence ` set records"
proof -
  have "set (map er_sequence records) = {0..<length records}"
    using verify_from_sequences [of H 0 None records] assms
    by (simp add: ledger_inv_def ledger_verify_def)
  then show ?thesis by auto
qed

lemma sql_insert_rows:
  assumes "ledger_inv H (memory_of records)" "find (\<lambda>e. record_id e = rc_receipt_id r) records = None"
  shows "sql_insert H r (map row_of records) =
    (let e = next_record H records r
     in if er_record_digest e \<in> er_record_digest ` set records
        then (Inl (Raised ''IntegrityError'' ''UNIQUE constraint failed''), map row_of records)
        else (Inr e, map row_of (records @ [e])))"
proof -
  have previous: "map_option sr_record_digest (map_option row_of (last_opt records)) =
      map_option er_record_digest (last_opt records)"
    by (simp add: option.map_comp comp_def)
  have new_id: "rc_receipt_id r \<notin> record_id ` set records"
    using assms(2) by (auto simp: find_None_set)
  show ?thesis
    unfolding sql_insert_def Let_def select_last_rows [OF assms(1)] last_sequence [OF assms(1)] previous
    using new_id sequences_below [OF assms(1)]
    by (auto simp: insert_row_def next_record_def Let_def row_of_def image_comp comp_def)
qed

lemma memory_append_rows:
  assumes "ledger_inv H (memory_of records)"
  shows "ledger_append H (memory_of records) r =
    (case find (\<lambda>e. record_id e = rc_receipt_id r) records of
       Some prior \<Rightarrow>
         if er_receipt prior \<noteq> r then (Inl (value_error ''RECEIPT_ID_CONFLICT''), memory_of records)
         else (Inr prior, memory_of records)
     | None \<Rightarrow>
         if key_conflict (memory_of records) r
         then (Inl (value_error ''IDEMPOTENCY_KEY_REUSE_WITH_DIFFERENT_INTENT''), memory_of records)
         else (let e = next_record H records r in (Inr e, memory_of (records @ [e]))))"
proof -
  obtain x led where app: "ledger_append H (memory_of records) r = (x, led)"
    by (cases "ledger_append H (memory_of records) r")
  have view: "led = memory_of (ml_records led)"
    using memory_of_inv [OF ledger_inv_append [OF assms app]] by simp
  with app show ?thesis
    by (auto simp: ledger_append_def Let_def memory_of_def split: option.splits if_splits)
qed

lemma sql_append_rows:
  assumes inv: "ledger_inv H (memory_of records)" and unique: "unique_digests (memory_of records)"
    and S: "exact_set S" "er_receipt ` set records \<subseteq> S" and r: "r \<in> S"
  shows "sql_append H r (map row_of records) =
    (case ledger_append H (memory_of records) r of (x, led) \<Rightarrow>
       if unique_digests led then (x, map row_of (ml_records led))
       else (Inl (Raised ''IntegrityError'' ''UNIQUE constraint failed''), map row_of records))"
proof -
  have stored: "\<forall>e \<in> set records. storable (er_receipt e)"
    using S by (auto simp: exact_set_def)
  show ?thesis
  proof (cases "find (\<lambda>e. record_id e = rc_receipt_id r) records")
    case (Some prior)
    then have "prior \<in> set records" by (auto dest: find_SomeD)
    then have "er_receipt prior \<in> S" "sql_record (row_of prior) = Inr prior"
      using S(2) stored by (auto intro: sql_record_row_of)
    moreover from this have "receipt_eq (er_receipt prior) r \<longleftrightarrow> er_receipt prior = r"
      using S(1) r receipt_eq_refl by (auto simp: exact_set_def storable_def)
    ultimately show ?thesis
      using unique by (simp add: sql_append_def transaction_def select_receipt_rows Some
          memory_append_rows [OF inv])
  next
    case None
    then show ?thesis
      using unique
      by (simp add: sql_append_def transaction_def select_receipt_rows memory_append_rows [OF inv]
          sql_key_check_rows [OF inv stored] sql_insert_rows [OF inv] unique_digests_def Let_def)
  qed
qed

lemma table_invD:
  assumes "table_inv H S t"
  obtains records where "t = map row_of records" "er_receipt ` set records \<subseteq> S" "exact_set S"
    "ledger_inv H (memory_of records)" "unique_digests (memory_of records)"
    "sql_records t = Inr records" "sql_view t = memory_of records"
proof -
  from assms obtain records where *: "t = map row_of records" "er_receipt ` set records \<subseteq> S"
    "exact_set S" "ledger_inv H (memory_of records)" "unique_digests (memory_of records)"
    by (auto simp: table_inv_def)
  then have "sql_records t = Inr records"
    by (auto simp: exact_set_def intro!: sql_records_rows)
  with * that show thesis by (simp add: sql_view_def table_records_def)
qed

lemma table_invI:
  assumes "exact_set S" "er_receipt ` set records \<subseteq> S" "ledger_inv H (memory_of records)"
    "unique_digests (memory_of records)"
  shows "table_inv H S (map row_of records)" "sql_view (map row_of records) = memory_of records"
    "sql_records (map row_of records) = Inr records"
proof -
  show inv: "table_inv H S (map row_of records)" using assms by (auto simp: table_inv_def)
  show "sql_records (map row_of records) = Inr records"
    using assms by (auto simp: exact_set_def intro!: sql_records_rows)
  then show "sql_view (map row_of records) = memory_of records"
    by (simp add: sql_view_def table_records_def)
qed

text \<open>One append, seen from the in-memory ledger.\<close>

lemma sql_append_view:
  assumes "table_inv H S t" "r \<in> S" "sql_append H r t = (x, t')"
  shows "table_inv H S t' \<and>
    (if unique_digests (snd (ledger_append H (sql_view t) r))
     then ledger_append H (sql_view t) r = (x, sql_view t')
     else x = Inl (Raised ''IntegrityError'' ''UNIQUE constraint failed'') \<and> t' = t)"
proof -
  from assms(1) obtain records where rows: "t = map row_of records" "er_receipt ` set records \<subseteq> S"
    "exact_set S" "ledger_inv H (memory_of records)" "unique_digests (memory_of records)"
    "sql_view t = memory_of records"
    by (rule table_invD)
  obtain y led where app: "ledger_append H (memory_of records) r = (y, led)"
    by (cases "ledger_append H (memory_of records) r")
  have sql: "(x, t') = (if unique_digests led then (y, map row_of (ml_records led))
      else (Inl (Raised ''IntegrityError'' ''UNIQUE constraint failed''), map row_of records))"
    using sql_append_rows [OF rows(4,5,3,2) assms(2)] assms(3) app by (simp add: rows(1))
  have led: "memory_of (ml_records led) = led" "ledger_inv H led"
    using memory_of_inv ledger_inv_append [OF rows(4) app] by blast+
  have "er_receipt ` set (ml_records led) \<subseteq> S"
    using app rows(2) assms(2) memory_append_rows [OF rows(4), of r]
    by (auto simp: Let_def image_subset_iff split: option.splits if_splits)
  then show ?thesis
    using sql led rows app table_invI [of S "ml_records led" H] assms(1)
    by (auto split: if_splits)
qed

lemma table_inv_empty: "exact_set S \<Longrightarrow> table_inv H S []"
  using ledger_inv_empty
  by (auto simp: table_inv_def memory_of_def unique_digests_def empty_ledger_def)

interpretation sqlite: ledger_refinement H "\<lambda>t r. sql_append H r t" sql_view "table_inv H S" "\<lambda>r. r \<in> S"
  for H S
proof
  fix l assume "table_inv H S l"
  then show "ledger_inv H (sql_view l)" by (rule table_invD) simp
next
  fix l r x l'
  assume *: "table_inv H S l" "r \<in> S" "sql_append H r l = (x, l')"
  from sql_append_view [OF *] show "table_inv H S l'" by simp
  assume "unique_digests (snd (ledger_append H (sql_view l) r))"
  with sql_append_view [OF *] show "ledger_append H (sql_view l) r = (x, sql_view l')" by simp
qed

section \<open>Properties\<close>

text \<open>The results of appending to a table, one receipt after the other.\<close>

fun sql_appends ::
    "digest_fun \<Rightarrow> sqlite_table \<Rightarrow> receipt list \<Rightarrow> evidence_record res list \<times> sqlite_table" where
  "sql_appends H t [] = ([], t)"
| "sql_appends H t (r # rs) =
     (case sql_append H r t of (x, t') \<Rightarrow>
        (case sql_appends H t' rs of (xs, t'') \<Rightarrow> (x # xs, t'')))"

lemma sql_appends_eq: "sqlite.appends H t rs = sql_appends H t rs"
  by (induction rs arbitrary: t) (auto split: prod.splits)

lemma empty_view: "sql_view [] = empty_ledger"
  by (simp add: sql_view_def table_records_def sql_records_def memory_of_def empty_ledger_def)

lemma sql_verify_rows:
  "table_inv H S t \<Longrightarrow> sql_open H t = Inr t \<and> sql_records t = Inr (ml_records (sql_view t))"
  by (erule table_invD)
    (simp add: sql_open_def sql_verify_def ledger_inv_def ledger_verify_def)

text \<open>C10: Over receipts that read back as themselves and are told apart by Python's equality, the
  durable ledger gives, append by append, the results of the in-memory ledger (also its
  refusals) and holds the same records, unless two records get the same digest; reopening the
  file finds them again.\<close>

theorem sqlite_refines_memory:
  assumes "\<forall>r \<in> set rs. storable r" "\<forall>a \<in> set rs. \<forall>b \<in> set rs. receipt_eq a b \<longrightarrow> a = b"
    and "memory_appends H empty_ledger rs = (results, led)"
    and "distinct (map er_record_digest (ml_records led))"
  shows "\<exists>t. sql_appends H [] rs = (results, t) \<and> sql_open H t = Inr t \<and>
    sql_records t = Inr (ml_records led)"
proof -
  have inv: "table_inv H (set rs) []"
    using assms(1,2) by (intro table_inv_empty) (simp add: exact_set_def)
  have accept: "list_all (\<lambda>r. r \<in> set rs) rs" by (simp add: list_all_iff)
  obtain t where t: "snd (sql_appends H [] rs) = t" by simp
  have "table_inv H (set rs) t"
    using sqlite.appends_good [OF inv accept] t by (simp add: sql_appends_eq)
  moreover have "(results, led) = (fst (sql_appends H [] rs), sql_view t)"
    using sqlite.appends_sim [OF inv accept] assms(3,4) t
    by (simp add: empty_view sql_appends_eq unique_digests_def)
  ultimately show ?thesis
    using sql_verify_rows [of H "set rs" t] t by (cases "sql_appends H [] rs") auto
qed

text \<open>Two receipts, the first sent twice, then the id of the first with other content.\<close>

definition position_digest :: digest_fun where
  "position_digest v =
     (case v of JObj ((_, JInt i) # _) \<Rightarrow> replicate (nat i) (CHR ''s'') | _ \<Rightarrow> ''receipt'')"

definition first_receipt :: receipt where
  "first_receipt = (new_receipt ''r1'' ''t1'' ''e1'' ACT ALIVE)
     \<lparr>rc_idempotency_key := Some ''k'', rc_intended_effects := [[(''x'', JInt 1)]]\<rparr>"

definition second_receipt :: receipt where
  "second_receipt = (new_receipt ''r2'' ''t2'' ''e1'' VERIFY ALIVE)\<lparr>rc_idempotency_key := Some ''k''\<rparr>"

definition other_receipt :: receipt where
  "other_receipt = new_receipt ''r1'' ''t3'' ''e2'' ACT REFUSED"

lemmas sample_receipts = first_receipt_def second_receipt_def other_receipt_def new_receipt_def

theorem sqlite_refines_memory_witness:
  "\<exists>t. sql_appends position_digest [] [first_receipt, second_receipt, first_receipt, other_receipt] =
      (fst (memory_appends position_digest empty_ledger
         [first_receipt, second_receipt, first_receipt, other_receipt]), t) \<and>
    sql_open position_digest t = Inr t \<and>
    sql_records t = Inr (ml_records (snd (memory_appends position_digest empty_ledger
         [first_receipt, second_receipt, first_receipt, other_receipt])))"
proof (rule sqlite_refines_memory)
  show "\<forall>r \<in> set [first_receipt, second_receipt, first_receipt, other_receipt]. storable r"
    by (simp add: sample_receipts storable_def combinatorial_binding_is_atomic_def receipt_core_def
        receipt_wf_def canon_receipt_def canon_dict_def)
  show "\<forall>a \<in> set [first_receipt, second_receipt, first_receipt, other_receipt].
      \<forall>b \<in> set [first_receipt, second_receipt, first_receipt, other_receipt].
        receipt_eq a b \<longrightarrow> a = b"
    by (simp add: sample_receipts receipt_eq_def)
  show "distinct (map er_record_digest (ml_records (snd (memory_appends position_digest empty_ledger
      [first_receipt, second_receipt, first_receipt, other_receipt]))))"
    by (simp add: sample_receipts ledger_append_def empty_ledger_def key_conflict_def next_record_def
        Let_def record_digest_def record_payload_def position_digest_def same_intent_def receipt_json_def)
qed simp

end
