(* ===== verification/Replay.thy ===== *)
theory Replay
  imports Sqlite_Ledger
begin

text \<open>
  Reading a ledger back: replay admission (\<open>src/gymact/replay.py\<close>) and the lifecycle table
  with its conformance check (\<open>src/gymact/process.py\<close>). The ledger enters as what its
  \<open>verify()\<close> and \<open>records()\<close> return, which both ledgers provide.
\<close>

section \<open>Replay\<close>

datatype replay_mode = EVIDENCE_REPLAY | VERIFIER_REPLAY | SIMULATION_REPLAY | LIVE_REEXECUTION

record replay_expectation =
  rx_subject_ref :: "string option"
  rx_capability_ref :: "string option"
  rx_policy_revision :: "string option"
  rx_principal :: "string option"
  rx_possibility_graph_digest :: "string option"
  rx_possibility_exploration_digest :: "string option"
  rx_possibility_path_id :: "string option"
  rx_possibility_morphism_id :: "string option"
  rx_selection_digest :: "string option"

record replay_report =
  rr_mode :: replay_mode
  rr_valid :: bool
  rr_record_count :: nat
  rr_head_digest :: "string option"
  rr_mismatches :: "string list"
  rr_live_reexecution_admitted :: bool

text \<open>\<open>(field.upper(), getattr(expected, field), getattr(receipt, field))\<close> for the two groups.\<close>

definition legacy_optional_identity_fields ::
    "replay_expectation \<Rightarrow> receipt \<Rightarrow> (string \<times> string option \<times> string option) list" where
  "legacy_optional_identity_fields expected receipt =
     [(''SUBJECT_REF'', rx_subject_ref expected, rc_subject_ref receipt),
      (''CAPABILITY_REF'', rx_capability_ref expected, rc_capability_ref receipt),
      (''POLICY_REVISION'', rx_policy_revision expected, rc_policy_revision receipt),
      (''PRINCIPAL'', rx_principal expected, rc_principal receipt)]"

definition dcm_strict_identity_fields ::
    "replay_expectation \<Rightarrow> receipt \<Rightarrow> (string \<times> string option \<times> string option) list" where
  "dcm_strict_identity_fields expected receipt =
     [(''POSSIBILITY_GRAPH_DIGEST'', rx_possibility_graph_digest expected,
        rc_possibility_graph_digest receipt),
      (''POSSIBILITY_EXPLORATION_DIGEST'', rx_possibility_exploration_digest expected,
        rc_possibility_exploration_digest receipt),
      (''POSSIBILITY_PATH_ID'', rx_possibility_path_id expected, rc_possibility_path_id receipt),
      (''POSSIBILITY_MORPHISM_ID'', rx_possibility_morphism_id expected,
        rc_possibility_morphism_id receipt),
      (''SELECTION_DIGEST'', rx_selection_digest expected, rc_selection_digest receipt)]"

definition identity_mismatches :: "receipt \<Rightarrow> replay_expectation \<Rightarrow> string list" where
  "identity_mismatches receipt expected =
     [name @ ''_DRIFT''.
        (name, wanted, actual) \<leftarrow> legacy_optional_identity_fields expected receipt,
        wanted \<noteq> None \<and> actual \<noteq> None \<and> actual \<noteq> wanted] @
     [name @ ''_'' @ (if actual = None then ''MISSING'' else ''DRIFT'').
        (name, wanted, actual) \<leftarrow> dcm_strict_identity_fields expected receipt,
        wanted \<noteq> None \<and> actual \<noteq> wanted]"

text \<open>The loop over the records: \<open>seen\<close> and the mismatches are its variables.\<close>

definition record_mismatches ::
    "replay_expectation option \<Rightarrow> string set \<Rightarrow> receipt \<Rightarrow> string list" where
  "record_mismatches expected seen receipt =
     [''PARENT_RECEIPT_MISSING_OR_FORWARD:'' @ parent.
        parent \<leftarrow> rc_parent_receipt_ids receipt, parent \<notin> seen] @
     (case expected of None \<Rightarrow> [] | Some x \<Rightarrow> identity_mismatches receipt x)"

fun replay_loop ::
    "replay_expectation option \<Rightarrow> string set \<Rightarrow> evidence_record list \<Rightarrow> string list" where
  "replay_loop expected seen [] = []"
| "replay_loop expected seen (record # rest) =
     record_mismatches expected seen (er_receipt record) @
     replay_loop expected
       (if record_id record \<noteq> [] then insert (record_id record) seen else seen) rest"

definition replay_ledger ::
    "bool \<Rightarrow> evidence_record list \<Rightarrow> replay_mode \<Rightarrow> replay_expectation option \<Rightarrow> bool \<Rightarrow>
     replay_report" where
  "replay_ledger verified records mode expected allow_live_reexecution =
     (if mode = LIVE_REEXECUTION \<and> \<not> allow_live_reexecution
      then \<lparr>rr_mode = mode, rr_valid = False, rr_record_count = 0, rr_head_digest = None,
            rr_mismatches = [''LIVE_REEXECUTION_REFUSED''], rr_live_reexecution_admitted = False\<rparr>
      else if \<not> verified
      then \<lparr>rr_mode = mode, rr_valid = False, rr_record_count = length records,
            rr_head_digest = map_option er_record_digest (last_opt records),
            rr_mismatches = [''EVIDENCE_CHAIN_INVALID''],
            rr_live_reexecution_admitted = (mode = LIVE_REEXECUTION \<and> allow_live_reexecution)\<rparr>
      else
        (let mismatches = replay_loop expected {} records
         in \<lparr>rr_mode = mode, rr_valid = (mismatches = []), rr_record_count = length records,
             rr_head_digest = map_option er_record_digest (last_opt records),
             rr_mismatches = mismatches,
             rr_live_reexecution_admitted =
               (mode = LIVE_REEXECUTION \<and> allow_live_reexecution \<and> mismatches = [])\<rparr>))"

text \<open>\<open>replay_ledger\<close> on each of the two ledgers.\<close>

definition replay_memory ::
    "digest_fun \<Rightarrow> memory_ledger \<Rightarrow> replay_mode \<Rightarrow> replay_expectation option \<Rightarrow> bool \<Rightarrow>
     replay_report" where
  "replay_memory H led = replay_ledger (ledger_verify H led) (ml_records led)"

definition replay_sqlite ::
    "digest_fun \<Rightarrow> sqlite_table \<Rightarrow> replay_mode \<Rightarrow> replay_expectation option \<Rightarrow> bool \<Rightarrow>
     replay_report res" where
  "replay_sqlite H t mode expected allow_live_reexecution =
     (if mode = LIVE_REEXECUTION \<and> \<not> allow_live_reexecution
      then Inr (replay_ledger False [] mode expected allow_live_reexecution)
      else bind_res (sql_records t) (\<lambda>records. bind_res (sql_verify H t) (\<lambda>verified.
        Inr (replay_ledger verified records mode expected allow_live_reexecution))))"

section \<open>What a valid report means\<close>

text \<open>The identity of a receipt agrees with the expectation: a legacy field may be absent.\<close>

definition identity_agrees :: "replay_expectation \<Rightarrow> receipt \<Rightarrow> bool" where
  "identity_agrees x r \<longleftrightarrow>
     (\<forall>(name, wanted, actual) \<in> set (legacy_optional_identity_fields x r).
        wanted = None \<or> actual = None \<or> actual = wanted) \<and>
     (\<forall>(name, wanted, actual) \<in> set (dcm_strict_identity_fields x r).
        wanted = None \<or> actual = wanted)"

text \<open>Every parent of a receipt was recorded at an earlier position.\<close>

definition parents_earlier :: "evidence_record list \<Rightarrow> bool" where
  "parents_earlier records \<longleftrightarrow>
     (\<forall>i < length records. \<forall>p \<in> set (rc_parent_receipt_ids (er_receipt (records ! i))).
        p \<noteq> [] \<and> (\<exists>j < i. record_id (records ! j) = p))"

lemma identity_mismatches_Nil: "identity_mismatches r x = [] \<longleftrightarrow> identity_agrees x r"
  by (simp add: identity_mismatches_def identity_agrees_def legacy_optional_identity_fields_def
      dcm_strict_identity_fields_def)

lemma record_mismatches_Nil:
  "record_mismatches expected seen r = [] \<longleftrightarrow>
     set (rc_parent_receipt_ids r) \<subseteq> seen \<and>
     (case expected of None \<Rightarrow> True | Some x \<Rightarrow> identity_agrees x r)"
  by (auto simp: record_mismatches_def identity_mismatches_Nil split: option.splits)

lemma replay_loop_Nil:
  "replay_loop expected seen records = [] \<longleftrightarrow>
     (\<forall>i < length records.
        record_mismatches expected (seen \<union> (set (map record_id (take i records)) - {[]}))
          (er_receipt (records ! i)) = [])"
proof (induction records arbitrary: seen)
  case (Cons x xs)
  have "(if record_id x \<noteq> [] then insert (record_id x) seen else seen) \<union> (A - {[]}) =
      seen \<union> (insert (record_id x) A - {[]})" for A by auto
  then show ?case by (simp add: Cons.IH All_less_Suc2)
qed simp

lemma earlier_ids:
  "i < length records \<Longrightarrow>
   p \<in> set (map record_id (take i records)) - {[]} \<longleftrightarrow> p \<noteq> [] \<and> (\<exists>j < i. record_id (records ! j) = p)"
  using nth_image [of i records] by (auto simp flip: nth_image)

lemma replay_loop_exact:
  "replay_loop expected {} records = [] \<longleftrightarrow> parents_earlier records \<and>
     (case expected of None \<Rightarrow> True | Some x \<Rightarrow> (\<forall>e \<in> set records. identity_agrees x (er_receipt e)))"
proof -
  have "set (rc_parent_receipt_ids (er_receipt (records ! i))) \<subseteq>
      set (map record_id (take i records)) - {[]} \<longleftrightarrow>
      (\<forall>p \<in> set (rc_parent_receipt_ids (er_receipt (records ! i))).
        p \<noteq> [] \<and> (\<exists>j < i. record_id (records ! j) = p))" if "i < length records" for i
    using earlier_ids [OF that] by (simp only: subset_eq)
  then show ?thesis
    by (auto simp: replay_loop_Nil record_mismatches_Nil parents_earlier_def all_set_conv_all_nth
        split: option.splits)
qed

text \<open>C38: A replay report is valid exactly when live re-execution was not asked for without being
  allowed, the ledger verifies, every parent of a receipt was recorded strictly before it, and
  no receipt departs from the expected identity.\<close>

theorem replay_valid_exact:
  "rr_valid (replay_memory H led mode expected allow) \<longleftrightarrow>
     (mode = LIVE_REEXECUTION \<longrightarrow> allow) \<and> ledger_verify H led \<and>
     parents_earlier (ml_records led) \<and>
     (case expected of
        None \<Rightarrow> True
      | Some x \<Rightarrow> (\<forall>e \<in> set (ml_records led). identity_agrees x (er_receipt e)))"
  by (simp add: replay_memory_def replay_ledger_def Let_def replay_loop_exact)

definition child_receipt :: receipt where
  "child_receipt = second_receipt\<lparr>rc_parent_receipt_ids := [''r1'']\<rparr>"

definition sample_ledger :: "receipt list \<Rightarrow> memory_ledger" where
  "sample_ledger rs = snd (memory_appends position_digest empty_ledger rs)"

lemmas sample_ledger_simps = sample_ledger_def child_receipt_def sample_receipts ledger_append_def
  empty_ledger_def key_conflict_def next_record_def Let_def record_digest_def record_payload_def
  position_digest_def same_intent_def receipt_json_def ledger_verify_def
  last_opt_def

text \<open>A child after its parent replays; before it, the report names the forward reference.\<close>

theorem replay_valid_exact_witness:
  "rr_valid (replay_memory position_digest (sample_ledger [first_receipt, child_receipt])
     EVIDENCE_REPLAY None False) \<and>
   \<not> rr_valid (replay_memory position_digest (sample_ledger [child_receipt, first_receipt])
     EVIDENCE_REPLAY None False)"
  unfolding replay_valid_exact
  by (simp add: parents_earlier_def sample_ledger_simps All_less_Suc2)

text \<open>An invalid chain is reported invalid and its live re-execution is admitted in the same
  report.\<close>

definition broken_ledger :: memory_ledger where
  "broken_ledger = (sample_ledger [first_receipt, child_receipt])
     \<lparr>ml_records := tl (ml_records (sample_ledger [first_receipt, child_receipt]))\<rparr>"

theorem live_reexecution_of_broken_chain:
  "\<not> ledger_verify position_digest broken_ledger \<and>
   \<not> rr_valid (replay_memory position_digest broken_ledger LIVE_REEXECUTION None True) \<and>
   rr_live_reexecution_admitted
     (replay_memory position_digest broken_ledger LIVE_REEXECUTION None True)"
  by (simp add: replay_memory_def replay_ledger_def broken_ledger_def sample_ledger_simps)

section \<open>Lifecycle conformance\<close>

fun lifecycle :: "operation \<Rightarrow> operation set" where
  "lifecycle DISCOVER = {MATERIALIZE}"
| "lifecycle MATERIALIZE = {OBSERVE, ACT, VERIFY, CHECKPOINT, TEARDOWN}"
| "lifecycle OBSERVE = {OBSERVE, ACT, VERIFY, CHECKPOINT, RESTORE, TEARDOWN}"
| "lifecycle ACT = {OBSERVE, ACT, VERIFY, CHECKPOINT, RESTORE, TEARDOWN}"
| "lifecycle VERIFY = {OBSERVE, ACT, VERIFY, CHECKPOINT, RESTORE, TEARDOWN}"
| "lifecycle CHECKPOINT = {OBSERVE, ACT, VERIFY, RESTORE, TEARDOWN}"
| "lifecycle RESTORE = {OBSERVE, ACT, VERIFY, CHECKPOINT, TEARDOWN}"
| "lifecycle TEARDOWN = {}"

text \<open>The reason text of a deviation, by what it is rendered from.\<close>

datatype deviation_reason =
    Must_start_with operation operation
  | Not_a_legal_successor operation operation "operation list"

record deviation =
  dv_index :: nat
  dv_from :: "operation option"
  dv_to :: operation
  dv_reason :: deviation_reason

record conformance_result =
  cr_conformant :: bool
  cr_deviations :: "deviation list"

fun successor_deviations :: "nat \<Rightarrow> operation \<Rightarrow> operation list \<Rightarrow> deviation list" where
  "successor_deviations i previous [] = []"
| "successor_deviations i previous (current # rest) =
     (if current \<notin> lifecycle previous
      then [\<lparr>dv_index = i, dv_from = Some previous, dv_to = current,
             dv_reason = Not_a_legal_successor current previous
               (sorted_list_of_set (lifecycle previous))\<rparr>]
      else []) @ successor_deviations (Suc i) current rest"

definition check_lifecycle :: "operation list \<Rightarrow> conformance_result" where
  "check_lifecycle operations =
     (case operations of
        [] \<Rightarrow> \<lparr>cr_conformant = True, cr_deviations = []\<rparr>
      | first # rest \<Rightarrow>
          (let deviations =
             (if first \<noteq> MATERIALIZE
              then [\<lparr>dv_index = 0, dv_from = None, dv_to = first,
                     dv_reason = Must_start_with MATERIALIZE first\<rparr>]
              else []) @ successor_deviations 1 first rest
           in \<lparr>cr_conformant = (deviations = []), cr_deviations = deviations\<rparr>))"

lemma successor_deviations_Nil:
  "successor_deviations i p xs = [] \<longleftrightarrow>
     (\<forall>k < length xs. xs ! k \<in> lifecycle ((p # xs) ! k))"
  by (induction xs arbitrary: i p) (auto simp: All_less_Suc2)

lemma lifecycle_no_materialize: "MATERIALIZE \<in> lifecycle x \<Longrightarrow> x = DISCOVER"
  by (cases x) auto

lemma lifecycle_no_discover: "DISCOVER \<notin> lifecycle x"
  by (cases x) auto

text \<open>A conformant episode is materialized once, at its start, and torn down at most once, at
  its end.\<close>

lemma conformant_shape:
  assumes "cr_conformant (check_lifecycle ops)" "ops \<noteq> []"
  shows "hd ops = MATERIALIZE" "MATERIALIZE \<notin> set (tl ops)" "DISCOVER \<notin> set ops"
    "TEARDOWN \<notin> set (butlast ops)"
proof -
  obtain p xs where ops: "ops = p # xs" using assms(2) by (cases ops) auto
  have p: "p = MATERIALIZE" and steps: "\<forall>k < length xs. xs ! k \<in> lifecycle (ops ! k)"
    using assms(1) by (auto simp: check_lifecycle_def ops Let_def successor_deviations_Nil split: if_splits)
  show "hd ops = MATERIALIZE" by (simp add: ops p)
  have no_discover: "DISCOVER \<notin> set xs"
    using steps lifecycle_no_discover by (metis in_set_conv_nth)
  then show "DISCOVER \<notin> set ops" by (simp add: ops p)
  show "MATERIALIZE \<notin> set (tl ops)"
  proof
    assume "MATERIALIZE \<in> set (tl ops)"
    then obtain k where "k < length xs" "xs ! k = MATERIALIZE" by (auto simp: ops in_set_conv_nth)
    then have "ops ! k = DISCOVER" using steps lifecycle_no_materialize by metis
    moreover have "ops ! k \<in> set ops"
      using \<open>k < length xs\<close> by (intro nth_mem) (simp add: ops)
    ultimately show False using no_discover by (simp add: ops p)
  qed
  show "TEARDOWN \<notin> set (butlast ops)"
  proof
    assume "TEARDOWN \<in> set (butlast ops)"
    then obtain k where "k < length xs" "ops ! k = TEARDOWN"
      by (auto simp: in_set_conv_nth nth_butlast ops simp del: butlast.simps)
    with steps have "xs ! k \<in> lifecycle TEARDOWN" by metis
    then show False by simp
  qed
qed

text \<open>The conformance checker accepts exactly the episodes that begin with MATERIALIZE and in
  which every operation is a legal successor of the one before it; in those MATERIALIZE occurs
  only at the start and TEARDOWN only at the end.\<close>

theorem lifecycle_exact:
  assumes "ops \<noteq> []"
  shows "(cr_conformant (check_lifecycle ops) \<longleftrightarrow> hd ops = MATERIALIZE \<and>
      (\<forall>k. Suc k < length ops \<longrightarrow> ops ! Suc k \<in> lifecycle (ops ! k))) \<and>
    (cr_conformant (check_lifecycle ops) \<longrightarrow>
       MATERIALIZE \<notin> set (tl ops) \<and> TEARDOWN \<notin> set (butlast ops))"
proof -
  obtain p xs where ops: "ops = p # xs" using assms by (cases ops) auto
  have "cr_conformant (check_lifecycle ops) \<longleftrightarrow> hd ops = MATERIALIZE \<and>
      (\<forall>k < length xs. xs ! k \<in> lifecycle (ops ! k))"
    by (auto simp: check_lifecycle_def ops Let_def successor_deviations_Nil)
  with conformant_shape [OF _ assms] show ?thesis by (auto simp: ops)
qed

theorem lifecycle_exact_witness:
  "cr_conformant (check_lifecycle [MATERIALIZE, ACT, VERIFY, CHECKPOINT, RESTORE, TEARDOWN]) \<and>
   \<not> cr_conformant (check_lifecycle [MATERIALIZE, TEARDOWN, ACT])"
proof -
  note main = lifecycle_exact [of "[MATERIALIZE, ACT, VERIFY, CHECKPOINT, RESTORE, TEARDOWN]"]
    lifecycle_exact [of "[MATERIALIZE, TEARDOWN, ACT]"]
  have "cr_conformant (check_lifecycle [MATERIALIZE, ACT, VERIFY, CHECKPOINT, RESTORE, TEARDOWN])"
    by (subst main(1) [THEN conjunct1]) (auto simp: less_Suc_eq)
  moreover have "\<not> cr_conformant (check_lifecycle [MATERIALIZE, TEARDOWN, ACT])"
    using main(2) by auto
  ultimately show ?thesis by simp
qed

text \<open>The receipts of a run that materializes, checkpoints and restores, as the kernel records
  them: a checkpoint leaves no receipt, so the restore follows the materialization and is
  flagged.\<close>

theorem recorded_restore_deviates: "\<not> cr_conformant (check_lifecycle [MATERIALIZE, RESTORE])"
  by (simp add: check_lifecycle_def)

end
