(* ===== verification/Attestation.thy ===== *)
theory Attestation
  imports Replay "HOL-Library.Word"
begin

text \<open>
  Authenticated checkpoints of an evidence chain, \<open>src/gymact/attestation.py\<close>, with the
  URL-safe Base64 the signature is carried in. A payload is the value whose canonical bytes
  are signed; the keyed hash of \<open>HmacSha256CheckpointKey\<close> is an argument. The locale
  \<open>checkpoint_key\<close> is the signer and verifier seam.
\<close>

section \<open>URL-safe Base64\<close>

type_synonym byte = "8 word"

definition b64_alphabet :: string where
  "b64_alphabet = ''ABCDEFGHIJKLMNOPQRSTUVWXYZabcdefghijklmnopqrstuvwxyz0123456789-_''"

definition b64_char :: "nat \<Rightarrow> char" where
  "b64_char n = b64_alphabet ! n"

text \<open>
  \<open>b64decode(.., altchars=b"-_", validate=True)\<close> first maps \<open>-\<close> and \<open>_\<close> to \<open>+\<close> and \<open>/\<close>, so it
  takes both spellings.
\<close>

definition b64_value :: "char \<Rightarrow> nat option" where
  "b64_value c =
     (if c = CHR ''+'' then Some 62 else if c = CHR ''/'' then Some 63
      else map_option fst (find (\<lambda>(n, d). d = c) (enumerate 0 b64_alphabet)))"

definition nat_byte :: "nat \<Rightarrow> byte" where
  "nat_byte n = word_of_nat n"

fun b64encode :: "byte list \<Rightarrow> string" where
  "b64encode [] = []"
| "b64encode [a] =
     (let n = unat a * 65536
      in [b64_char (n div 262144), b64_char (n div 4096 mod 64), CHR ''='', CHR ''=''])"
| "b64encode [a, b] =
     (let n = unat a * 65536 + unat b * 256
      in [b64_char (n div 262144), b64_char (n div 4096 mod 64), b64_char (n div 64 mod 64),
          CHR ''=''])"
| "b64encode (a # b # c # rest) =
     (let n = unat a * 65536 + unat b * 256 + unat c
      in [b64_char (n div 262144), b64_char (n div 4096 mod 64), b64_char (n div 64 mod 64),
          b64_char (n mod 64)] @ b64encode rest)"

text \<open>\<open>.rstrip("=")\<close>.\<close>

definition rstrip_eq :: "string \<Rightarrow> string" where
  "rstrip_eq s = rev (dropWhile (\<lambda>c. c = CHR ''='') (rev s))"

text \<open>
  The strict decoder: groups of four, the last of which may end in one or two padding
  characters; any other length, character or padding raises (\<open>None\<close>). The unused bits of a
  padded group are dropped unchecked.
\<close>

fun b64decode :: "string \<Rightarrow> byte list option" where
  "b64decode [] = Some []"
| "b64decode (w # x # y # z # rest) =
     (case (b64_value w, b64_value x) of
        (Some i, Some j) \<Rightarrow>
          (if y = CHR ''='' then
             (if z = CHR ''='' \<and> rest = []
              then Some [nat_byte ((i * 262144 + j * 4096) div 65536)] else None)
           else
             (case b64_value y of
                None \<Rightarrow> None
              | Some k \<Rightarrow>
                  (if z = CHR ''='' then
                     (if rest = []
                      then (let n = i * 262144 + j * 4096 + k * 64
                            in Some [nat_byte (n div 65536), nat_byte (n div 256 mod 256)])
                      else None)
                   else
                     (case b64_value z of
                        None \<Rightarrow> None
                      | Some l \<Rightarrow>
                          (let n = i * 262144 + j * 4096 + k * 64 + l
                           in map_option (\<lambda>bs. nat_byte (n div 65536) # nat_byte (n div 256 mod 256) #
                                nat_byte (n mod 256) # bs) (b64decode rest))))))
      | _ \<Rightarrow> None)"
| "b64decode _ = None"

text \<open>\<open>signature + "=" * (-len(signature) % 4)\<close>.\<close>

definition b64_padding :: "string \<Rightarrow> string" where
  "b64_padding s = replicate ((4 - length s mod 4) mod 4) (CHR ''='')"

lemma b64_value_char: "n < 64 \<Longrightarrow> b64_value (b64_char n) = Some n \<and> b64_char n \<noteq> CHR ''=''"
proof -
  have "\<forall>n \<in> set [0..<64]. b64_value (b64_char n) = Some n \<and> b64_char n \<noteq> CHR ''=''"
    by code_simp
  then show "n < 64 \<Longrightarrow> ?thesis" by simp
qed

lemma nat_byte_unat [simp]: "nat_byte (unat a) = a"
  by (simp add: nat_byte_def)

lemma unat_byte: "unat (a :: byte) < 256"
proof -
  have "unat a < 2 ^ LENGTH(8)" by (rule unsigned_less)
  then show ?thesis by simp
qed

text \<open>Three bytes and the four digits they are split into.\<close>

lemma b64_digits:
  fixes n :: nat
  shows "n div 262144 * 262144 + n div 4096 mod 64 * 4096 + n div 64 mod 64 * 64 + n mod 64 = n"
proof -
  have "n = 64 * (n div 64) + n mod 64" by simp
  moreover have "n div 64 = 64 * (n div 4096) + n div 64 mod 64"
    using mult_div_mod_eq [of 64 "n div 64"] by (simp flip: div_mult2_eq)
  moreover have "n div 4096 = 64 * (n div 262144) + n div 4096 mod 64"
    using mult_div_mod_eq [of 64 "n div 4096"] by (simp flip: div_mult2_eq)
  ultimately show ?thesis by linarith
qed

lemma b64_bytes:
  fixes a b c :: nat
  assumes "a < 256" "b < 256" "c < 256"
  shows "(a * 65536 + b * 256 + c) div 65536 = a" "(a * 65536 + b * 256 + c) div 256 mod 256 = b"
    "(a * 65536 + b * 256 + c) mod 256 = c" "(a * 65536 + b * 256 + c) div 262144 < 64"
proof -
  have n: "a * 65536 + b * 256 + c = (a * 256 + b) * 256 + c" by simp
  show "(a * 65536 + b * 256 + c) mod 256 = c"
    unfolding n using assms(3) by (simp only: mod_mult_self3 mod_less)
  have q: "(a * 65536 + b * 256 + c) div 256 = a * 256 + b"
    unfolding n using assms(3) by (simp only: div_mult_self3 div_less)
  then show "(a * 65536 + b * 256 + c) div 256 mod 256 = b"
    using assms(2) by (simp only: mod_mult_self3 mod_less)
  have "(a * 65536 + b * 256 + c) div 256 div 256 = a"
    unfolding q using assms(2) by simp
  then show "(a * 65536 + b * 256 + c) div 65536 = a" by (simp flip: div_mult2_eq)
  show "(a * 65536 + b * 256 + c) div 262144 < 64"
    using assms by (simp add: div_less_iff_less_mult)
qed

text \<open>What the encoder writes the decoder reads back.\<close>

lemma b64decode_encode: "b64decode (b64encode bs) = Some bs"
proof (induction bs rule: b64encode.induct)
  case (2 a)
  define n where "n = unat a * 65536"
  have n: "n div 262144 < 64" "n div 65536 = unat a"
    using b64_bytes [OF unat_byte [of a], of 0 0] by (simp_all add: n_def)
  have "n mod 64 = 0" "n div 64 mod 64 = 0" by (simp_all add: n_def)
  with b64_digits [of n] have "n div 262144 * 262144 + n div 4096 mod 64 * 4096 = n" by simp
  with n b64_value_char show ?case by (simp add: Let_def flip: n_def)
next
  case (3 a b)
  define n where "n = unat a * 65536 + unat b * 256"
  have n: "n div 262144 < 64" "n div 65536 = unat a" "n div 256 mod 256 = unat b"
    using b64_bytes [OF unat_byte [of a] unat_byte [of b], of 0] by (simp_all add: n_def)
  have "n mod 64 = 0" by (simp add: n_def)
  with b64_digits [of n]
  have "n div 262144 * 262144 + n div 4096 mod 64 * 4096 + n div 64 mod 64 * 64 = n" by simp
  with n b64_value_char show ?case by (simp add: Let_def flip: n_def)
next
  case (4 a b c rest)
  define n where "n = unat a * 65536 + unat b * 256 + unat c"
  have n: "n div 262144 < 64" "n div 65536 = unat a" "n div 256 mod 256 = unat b"
      "n mod 256 = unat c"
    using b64_bytes [OF unat_byte [of a] unat_byte [of b] unat_byte [of c]] by (simp_all add: n_def)
  with b64_digits [of n] b64_value_char "4.IH" show ?case by (simp add: Let_def flip: n_def)
qed simp

text \<open>Stripping the padding and adding it again gives the encoded text.\<close>

lemma b64_char_digit: "b64_char (n mod 64) \<noteq> CHR ''=''"
  using b64_value_char [of "n mod 64"] by simp

lemma b64encode_shape:
  "\<exists>body. b64encode bs = body @ b64_padding body \<and> (\<forall>c \<in> set body. c \<noteq> CHR ''='')"
proof (induction bs rule: b64encode.induct)
  case (2 a)
  have "unat a * 65536 div 262144 < 64"
    using b64_bytes(4) [OF unat_byte [of a], of 0 0] by simp
  then obtain x y where "b64encode [a] = [x, y, CHR ''='', CHR ''='']" "x \<noteq> CHR ''=''" "y \<noteq> CHR ''=''"
    using b64_value_char b64_char_digit by (auto simp: Let_def)
  then show ?case by (intro exI [of _ "[x, y]"]) (simp add: b64_padding_def numeral_2_eq_2)
next
  case (3 a b)
  have "(unat a * 65536 + unat b * 256) div 262144 < 64"
    using b64_bytes(4) [OF unat_byte [of a] unat_byte [of b], of 0] by simp
  then obtain x y z where "b64encode [a, b] = [x, y, z, CHR ''='']"
      "x \<noteq> CHR ''=''" "y \<noteq> CHR ''=''" "z \<noteq> CHR ''=''"
    using b64_value_char b64_char_digit by (auto simp: Let_def)
  then show ?case by (intro exI [of _ "[x, y, z]"]) (simp add: b64_padding_def)
next
  case (4 a b c rest)
  then obtain body where body: "b64encode rest = body @ b64_padding body" "\<forall>c \<in> set body. c \<noteq> CHR ''=''"
    by auto
  define n where "n = unat a * 65536 + unat b * 256 + unat c"
  define group where "group = [b64_char (n div 262144), b64_char (n div 4096 mod 64),
    b64_char (n div 64 mod 64), b64_char (n mod 64)]"
  have "n div 262144 < 64"
    using b64_bytes(4) [OF unat_byte [of a] unat_byte [of b] unat_byte [of c]] by (simp add: n_def)
  then have "\<forall>c \<in> set group. c \<noteq> CHR ''=''" and "length group = 4"
    using b64_value_char b64_char_digit by (auto simp: group_def)
  moreover have "b64encode (a # b # c # rest) = group @ b64encode rest"
    by (simp only: b64encode.simps Let_def group_def n_def)
  ultimately show ?case
    using body by (intro exI [of _ "group @ body"]) (auto simp: b64_padding_def simp del: b64encode.simps)
qed (simp add: b64_padding_def)

lemma rstrip_body:
  assumes "\<forall>c \<in> set body. c \<noteq> CHR ''=''"
  shows "rstrip_eq (body @ b64_padding body) = body"
proof -
  have "dropWhile (\<lambda>c. c = CHR ''='') (rev body) = rev body"
    using assms by (cases body rule: rev_cases) auto
  moreover have "dropWhile (\<lambda>c. c = CHR ''='') (replicate n (CHR ''='') @ ys) =
      dropWhile (\<lambda>c. c = CHR ''='') ys" for n ys
    by (induction n) auto
  ultimately show ?thesis by (simp add: rstrip_eq_def b64_padding_def)
qed

lemma b64_round_trip: "b64decode (rstrip_eq (b64encode bs) @ b64_padding (rstrip_eq (b64encode bs))) = Some bs"
proof -
  obtain body where body: "b64encode bs = body @ b64_padding body" "\<forall>c \<in> set body. c \<noteq> CHR ''=''"
    using b64encode_shape by metis
  then show ?thesis using b64decode_encode [of bs] rstrip_body [OF body(2)] by simp
qed

section \<open>Checkpoints\<close>

record evidence_checkpoint =
  ec_version :: string
  ec_record_count :: nat
  ec_chain_tip :: string
  ec_algorithm :: string
  ec_key_id :: string
  ec_signature :: string

definition checkpoint_version :: string where
  "checkpoint_version = ''gymact-evidence-checkpoint/1''"

text \<open>The two seams; either side may be remote and raise.\<close>

record checkpoint_signer =
  sg_algorithm :: string
  sg_key_id :: string
  sg_sign :: "json \<Rightarrow> byte list res"

record checkpoint_verifier =
  vf_algorithm :: string
  vf_key_id :: string
  vf_verify :: "json \<Rightarrow> byte list \<Rightarrow> bool res"

text \<open>The loop of \<open>_chain_is_valid\<close>: the receipts are appended to a fresh in-memory ledger.\<close>

fun chain_loop :: "digest_fun \<Rightarrow> memory_ledger \<Rightarrow> evidence_record list \<Rightarrow> bool res" where
  "chain_loop H replay [] = Inr (ledger_verify H replay)"
| "chain_loop H replay (record # rest) =
     (case ledger_append H replay (er_receipt record) of
        (Inl e, _) \<Rightarrow> Inl e
      | (Inr generated, replay') \<Rightarrow>
          if generated \<noteq> record then Inr False else chain_loop H replay' rest)"

definition chain_is_valid :: "digest_fun \<Rightarrow> evidence_record list \<Rightarrow> bool res" where
  "chain_is_valid H records = chain_loop H empty_ledger records"

definition checkpoint_payload :: "nat \<Rightarrow> string \<Rightarrow> string \<Rightarrow> string \<Rightarrow> json" where
  "checkpoint_payload record_count chain_tip algorithm key_id =
     JObj [(''algorithm'', JStr algorithm), (''chain_tip'', JStr chain_tip),
       (''key_id'', JStr key_id), (''record_count'', JInt (int record_count)),
       (''version'', JStr checkpoint_version)]"

definition create_evidence_checkpoint ::
    "digest_fun \<Rightarrow> evidence_record list \<Rightarrow> checkpoint_signer \<Rightarrow> evidence_checkpoint res" where
  "create_evidence_checkpoint H records signer =
     (if records = [] then Inl (value_error ''EMPTY_EVIDENCE_CHAIN'')
      else bind_res (chain_is_valid H records) (\<lambda>ok.
        if \<not> ok then Inl (value_error ''INVALID_EVIDENCE_CHAIN'')
        else
          (let tip = er_record_digest (last records);
               payload = checkpoint_payload (length records) tip (sg_algorithm signer)
                 (sg_key_id signer)
           in bind_res (sg_sign signer payload) (\<lambda>raw.
             Inr \<lparr>ec_version = checkpoint_version, ec_record_count = length records,
                  ec_chain_tip = tip, ec_algorithm = sg_algorithm signer,
                  ec_key_id = sg_key_id signer, ec_signature = rstrip_eq (b64encode raw)\<rparr>))))"

definition verify_evidence_checkpoint ::
    "digest_fun \<Rightarrow> evidence_record list \<Rightarrow> evidence_checkpoint \<Rightarrow> checkpoint_verifier \<Rightarrow> bool res"
  where
  "verify_evidence_checkpoint H records checkpoint verifier =
     (if records = [] then Inr False
      else bind_res (chain_is_valid H records) (\<lambda>ok.
        if \<not> ok then Inr False
        else if ec_version checkpoint \<noteq> checkpoint_version then Inr False
        else if ec_record_count checkpoint \<noteq> length records then Inr False
        else if ec_chain_tip checkpoint \<noteq> er_record_digest (last records) then Inr False
        else if ec_algorithm checkpoint \<noteq> vf_algorithm verifier \<or>
                ec_key_id checkpoint \<noteq> vf_key_id verifier then Inr False
        else
          (let payload = checkpoint_payload (ec_record_count checkpoint)
                 (ec_chain_tip checkpoint) (ec_algorithm checkpoint) (ec_key_id checkpoint)
           in case b64decode (ec_signature checkpoint @ b64_padding (ec_signature checkpoint)) of
                None \<Rightarrow> Inr False
              | Some signature \<Rightarrow> vf_verify verifier payload signature)))"

text \<open>\<open>HmacSha256CheckpointKey\<close>: the constructor's checks, then one key for both seams.\<close>

definition py_whitespace :: "char \<Rightarrow> bool" where
  "py_whitespace c \<longleftrightarrow> of_char c \<in> ({9..13} \<union> {28..32} \<union> {133, 160} :: nat set)"

definition hmac_key_error :: "string \<Rightarrow> byte list \<Rightarrow> exn option" where
  "hmac_key_error key_id secret =
     (if list_all py_whitespace key_id then Some (value_error ''EMPTY_CHECKPOINT_KEY_ID'')
      else if length secret < 32 then Some (value_error ''CHECKPOINT_HMAC_KEY_TOO_SHORT'')
      else None)"

definition hmac_signer ::
    "(byte list \<Rightarrow> json \<Rightarrow> byte list) \<Rightarrow> string \<Rightarrow> byte list \<Rightarrow> checkpoint_signer" where
  "hmac_signer hmac key_id secret =
     \<lparr>sg_algorithm = ''HMAC-SHA256'', sg_key_id = key_id, sg_sign = (\<lambda>p. Inr (hmac secret p))\<rparr>"

definition hmac_verifier ::
    "(byte list \<Rightarrow> json \<Rightarrow> byte list) \<Rightarrow> string \<Rightarrow> byte list \<Rightarrow> checkpoint_verifier" where
  "hmac_verifier hmac key_id secret =
     \<lparr>vf_algorithm = ''HMAC-SHA256'', vf_key_id = key_id,
      vf_verify = (\<lambda>p signature. Inr (hmac secret p = signature))\<rparr>"

section \<open>What a checkpoint shows\<close>

locale checkpoint_key =
  fixes signer :: checkpoint_signer and verifier :: checkpoint_verifier
  assumes paired: "sg_algorithm signer = vf_algorithm verifier" "sg_key_id signer = vf_key_id verifier"
    and accepts: "sg_sign signer p = Inr s \<Longrightarrow> vf_verify verifier p s = Inr True"
begin

lemma round_trip:
  assumes "create_evidence_checkpoint H records signer = Inr c"
  shows "verify_evidence_checkpoint H records c verifier = Inr True"
proof -
  define payload where "payload = checkpoint_payload (length records) (er_record_digest (last records))
    (sg_algorithm signer) (sg_key_id signer)"
  from assms obtain raw where "records \<noteq> []" "chain_is_valid H records = Inr True"
      "sg_sign signer payload = Inr raw"
    and c: "c = \<lparr>ec_version = checkpoint_version, ec_record_count = length records,
      ec_chain_tip = er_record_digest (last records), ec_algorithm = sg_algorithm signer,
      ec_key_id = sg_key_id signer, ec_signature = rstrip_eq (b64encode raw)\<rparr>"
    by (auto simp: create_evidence_checkpoint_def Let_def payload_def bind_res_Inr_iff split: if_splits)
  then show ?thesis
    using b64_round_trip [of raw] accepts [of payload raw]
    by (simp add: verify_evidence_checkpoint_def Let_def payload_def paired)
qed

end

interpretation hmac: checkpoint_key "hmac_signer hmac k secret" "hmac_verifier hmac k secret"
  for hmac k secret
  by unfold_locales (auto simp: hmac_signer_def hmac_verifier_def)

lemma chain_loop_verified:
  assumes "chain_loop H replay records = Inr True" "ledger_inv H replay"
    and "distinct (map record_id (ml_records replay @ records))"
  shows "verify_from H 0 None (ml_records replay @ records)"
  using assms
proof (induction records arbitrary: replay)
  case (Cons e es)
  obtain x replay' where app: "ledger_append H replay (er_receipt e) = (x, replay')"
    by (cases "ledger_append H replay (er_receipt e)")
  with Cons.prems(1) have x: "x = Inr e" and rest: "chain_loop H replay' es = Inr True"
    by (auto split: sum.splits if_splits)
  note app = app [unfolded x]
  then have records: "ml_records replay' = ml_records replay @ [e]"
  proof (cases rule: ledger_append_returns)
    case old
    have "e \<in> set (ml_records replay)"
      using old(1) Cons.prems(2) by (auto simp: ledger_inv_def dest: find_SomeD)
    with Cons.prems(3) show ?thesis by (auto simp: image_iff)
  qed
  show ?case
    using Cons.IH [OF rest ledger_inv_append [OF Cons.prems(2) app]] Cons.prems(3)
    by (simp add: records)
qed (simp add: ledger_verify_def)

text \<open>Receipts with distinct ids that pass the check are a verified chain.\<close>

lemma chain_is_valid_verified:
  "chain_is_valid H records = Inr True \<Longrightarrow> distinct (map record_id records) \<Longrightarrow>
   verify_from H 0 None records"
  using chain_loop_verified [of H empty_ledger records] ledger_inv_empty [of H]
  by (simp add: chain_is_valid_def empty_ledger_def)

lemma verify_checkpoint_InrD:
  assumes "verify_evidence_checkpoint H records c verifier = Inr True"
  shows "chain_is_valid H records = Inr True" "records \<noteq> []"
    "ec_record_count c = length records" "ec_chain_tip c = er_record_digest (last records)"
    "\<exists>s. b64decode (ec_signature c @ b64_padding (ec_signature c)) = Some s \<and>
       vf_verify verifier (checkpoint_payload (length records) (er_record_digest (last records))
         (vf_algorithm verifier) (vf_key_id verifier)) s = Inr True"
  using assms
  by (auto simp: verify_evidence_checkpoint_def Let_def bind_res_Inr_iff split: if_splits option.splits)

text \<open>A checkpoint created over a chain verifies on it under the same key. Conversely, if the
  checkpoint verifies on a list of records with distinct receipt ids, the records are an intact
  chain of the recorded length and the signature is the keyed hash of exactly that scope; two
  such lists are the same, unless the digest collides.\<close>

theorem attestation_pins_chain:
  assumes "create_evidence_checkpoint H xs (hmac_signer hmac k secret) = Inr c"
  shows "verify_evidence_checkpoint H xs c (hmac_verifier hmac k secret) = Inr True \<and>
    (verify_evidence_checkpoint H ys c (hmac_verifier hmac k secret) = Inr True \<longrightarrow>
     distinct (map record_id xs) \<longrightarrow> distinct (map record_id ys) \<longrightarrow>
       b64decode (ec_signature c @ b64_padding (ec_signature c)) =
         Some (hmac secret (checkpoint_payload (length ys) (er_record_digest (last ys))
           ''HMAC-SHA256'' k)) \<and>
       verify_from H 0 None ys \<and> (ys = xs \<or> (\<exists>a b. collision H a b)))"
proof -
  have own: "verify_evidence_checkpoint H xs c (hmac_verifier hmac k secret) = Inr True"
    by (rule hmac.round_trip [OF assms])
  note xs = verify_checkpoint_InrD [OF own]
  show ?thesis
  proof (intro conjI own impI)
    assume "verify_evidence_checkpoint H ys c (hmac_verifier hmac k secret) = Inr True"
      and dist: "distinct (map record_id xs)" "distinct (map record_id ys)"
    note ys = verify_checkpoint_InrD [OF this(1)]
    show "b64decode (ec_signature c @ b64_padding (ec_signature c)) =
        Some (hmac secret (checkpoint_payload (length ys) (er_record_digest (last ys))
          ''HMAC-SHA256'' k))"
      using ys(5) by (auto simp: hmac_verifier_def)
    show verified: "verify_from H 0 None ys"
      by (rule chain_is_valid_verified [OF ys(1) dist(2)])
    have "chain_head None ys = chain_head None xs"
      using xs(2,4) ys(2,4) by (simp add: chain_head_def last_opt_def)
    then show "ys = xs \<or> (\<exists>a b. collision H a b)"
      using verified_chains_equal [OF verified chain_is_valid_verified [OF xs(1) dist(1)]] by blast
  qed
qed

text \<open>A key whose hash is the length of the secret and the record count of the payload.\<close>

definition count_hmac :: "byte list \<Rightarrow> json \<Rightarrow> byte list" where
  "count_hmac secret v =
     (case v of
        JObj [_, _, _, (_, JInt n), _] \<Rightarrow> [of_nat (length secret), word_of_int n]
      | _ \<Rightarrow> [])"

abbreviation sample_chain :: "receipt list \<Rightarrow> evidence_record list" where
  "sample_chain rs \<equiv> ml_records (sample_ledger rs)"

definition checkpoint_of :: "evidence_record list \<Rightarrow> evidence_checkpoint res" where
  "checkpoint_of records =
     create_evidence_checkpoint position_digest records (hmac_signer count_hmac ''key'' (replicate 32 7))"

definition checkpoint_accepts :: "evidence_record list \<Rightarrow> evidence_checkpoint \<Rightarrow> bool res" where
  "checkpoint_accepts records c =
     verify_evidence_checkpoint position_digest records c (hmac_verifier count_hmac ''key'' (replicate 32 7))"

theorem attestation_pins_chain_witness:
  "\<exists>c. checkpoint_of (sample_chain [first_receipt, second_receipt]) = Inr c \<and>
     checkpoint_accepts (sample_chain [first_receipt, second_receipt]) c = Inr True \<and>
     ec_signature c = ''IAI''"
proof -
  obtain c where c: "checkpoint_of (sample_chain [first_receipt, second_receipt]) = Inr c"
      "ec_signature c = ''IAI''"
    by (simp add: checkpoint_of_def create_evidence_checkpoint_def chain_is_valid_def
        sample_ledger_simps hmac_signer_def count_hmac_def checkpoint_payload_def
        b64_char_def b64_alphabet_def rstrip_eq_def)
  with attestation_pins_chain [OF c(1) [unfolded checkpoint_of_def]] show ?thesis
    by (auto simp: checkpoint_accepts_def)
qed

section \<open>What the chain check misses\<close>

text \<open>
  Appending a receipt again returns its first record, so a record may be repeated at will: of a
  chain of two, each of these lists of three passes with one checkpoint, and none of them is a
  chain.
\<close>

theorem attestation_accepts_repetition:
  "\<exists>a b c. sample_chain [first_receipt, second_receipt] = [a, b] \<and>
     checkpoint_of [a, a, b] = Inr c \<and>
     checkpoint_accepts [a, a, b] c = Inr True \<and> checkpoint_accepts [a, b, b] c = Inr True \<and>
     \<not> verify_from position_digest 0 None [a, a, b] \<and>
     \<not> verify_from position_digest 0 None [a, b, b]"
proof -
  obtain a b where ab: "sample_chain [first_receipt, second_receipt] = [a, b]"
      "a = next_record position_digest [] first_receipt"
      "b = next_record position_digest [a] second_receipt"
    by (simp add: sample_ledger_simps)
  define c where "c = \<lparr>ec_version = checkpoint_version, ec_record_count = 3,
    ec_chain_tip = er_record_digest b, ec_algorithm = ''HMAC-SHA256'', ec_key_id = ''key'',
    ec_signature = ''IAM''\<rparr>"
  have "checkpoint_of [a, a, b] = Inr c"
    by (simp add: checkpoint_of_def create_evidence_checkpoint_def chain_is_valid_def ab(2,3) c_def
        sample_ledger_simps hmac_signer_def count_hmac_def checkpoint_payload_def
        b64_char_def b64_alphabet_def rstrip_eq_def)
  moreover have decoded: "b64decode (ec_signature c @ b64_padding (ec_signature c)) = Some [32, 3]"
  proof -
    have "rstrip_eq (b64encode [32, 3]) = ''IAM''"
      by (simp add: b64_char_def b64_alphabet_def rstrip_eq_def)
    with b64_round_trip [of "[32, 3]"] show ?thesis
      by (simp only: c_def evidence_checkpoint.simps)
  qed
  have accepts: "checkpoint_accepts records c = Inr True"
    if "chain_is_valid position_digest records = Inr True" "length records = 3" "last records = b"
      "records \<noteq> []" for records
    unfolding checkpoint_accepts_def verify_evidence_checkpoint_def decoded using that
    by (simp add: c_def hmac_verifier_def count_hmac_def checkpoint_payload_def)
  have "chain_is_valid position_digest [a, a, b] = Inr True"
      "chain_is_valid position_digest [a, b, b] = Inr True"
    by (simp_all add: chain_is_valid_def ab(2,3) sample_ledger_simps)
  then have "checkpoint_accepts [a, a, b] c = Inr True" "checkpoint_accepts [a, b, b] c = Inr True"
    by (simp_all add: accepts)
  moreover have "\<not> verify_from position_digest 0 None [a, a, b]"
      "\<not> verify_from position_digest 0 None [a, b, b]"
    by (simp_all add: ab(2,3) sample_ledger_simps)
  ultimately show ?thesis using ab(1) by blast
qed

text \<open>A tampered list that uses a receipt id twice makes the check raise instead of refusing.\<close>

theorem attestation_raises_on_tampering:
  "checkpoint_accepts [next_record position_digest [] first_receipt,
       next_record position_digest [next_record position_digest [] first_receipt] other_receipt] c =
     Inl (value_error ''RECEIPT_ID_CONFLICT'')"
  by (simp add: checkpoint_accepts_def verify_evidence_checkpoint_def chain_is_valid_def
      sample_ledger_simps)

end
