(* ===== verification/Retirement.thy ===== *)
theory Retirement
  imports Exploration_Props Evidence
begin

text \<open>
  Reuse of decisions without a model: the decision cache (\<open>src/gymact/decision_cache.py\<close>),
  routing and recurrence detection (\<open>src/gymact/intelligence.py\<close>), recipes compiled out of
  verified cognition (\<open>src/gymact/compileout.py\<close>), the retirement decision
  (\<open>src/gymact/retirement.py\<close>) and the empirical index over a ledger
  (\<open>src/gymact/possibility_index.py\<close>). Field bounds that pydantic checks at construction are
  the predicates \<open>..._valid\<close>. Floats are rationals.
\<close>

section \<open>Decision cache\<close>

record decision_key =
  dk_problem_identity :: string
  dk_environment_identity :: string
  dk_authority_class :: string
  dk_policy_revision :: string
  dk_subject_revision :: string

record candidate_decision =
  cn_key :: decision_key
  cn_candidate_refs :: "string list"
  cn_evidence_refs :: "string list"

record refusal_decision =
  rf_key :: decision_key
  rf_reason :: string
  rf_evidence_refs :: "string list"

record decision_resolution =
  ds_standing :: standing
  ds_candidate_refs :: "string list"
  ds_reason :: string
  ds_cache_hit :: bool

record decision_cache =
  dc_candidates :: "decision_key \<rightharpoonup> candidate_decision"
  dc_refusals :: "decision_key \<rightharpoonup> refusal_decision"

definition new_decision_cache :: decision_cache where
  "new_decision_cache = \<lparr>dc_candidates = (\<lambda>_. None), dc_refusals = (\<lambda>_. None)\<rparr>"

definition put_candidate :: "candidate_decision \<Rightarrow> (decision_cache, unit) action" where
  "put_candidate d c =
     (if cn_candidate_refs d = [] \<or> cn_evidence_refs d = []
      then (Inl (value_error ''CACHED_CANDIDATE_REQUIRES_EVIDENCE''), c)
      else (Inr (), \<lparr>dc_candidates = (dc_candidates c)(cn_key d \<mapsto> d),
                     dc_refusals = (dc_refusals c)(cn_key d := None)\<rparr>))"

definition put_refusal :: "refusal_decision \<Rightarrow> (decision_cache, unit) action" where
  "put_refusal d c =
     (if rf_evidence_refs d = [] then (Inl (value_error ''CACHED_REFUSAL_REQUIRES_EVIDENCE''), c)
      else (Inr (), \<lparr>dc_candidates = (dc_candidates c)(rf_key d := None),
                     dc_refusals = (dc_refusals c)(rf_key d \<mapsto> d)\<rparr>))"

definition resolve :: "decision_cache \<Rightarrow> decision_key \<Rightarrow> decision_resolution" where
  "resolve c key =
     (case dc_refusals c key of
        Some refused \<Rightarrow>
          \<lparr>ds_standing = REFUSED, ds_candidate_refs = [], ds_reason = rf_reason refused,
           ds_cache_hit = True\<rparr>
      | None \<Rightarrow>
          (case dc_candidates c key of
             Some candidate \<Rightarrow>
               \<lparr>ds_standing = CANDIDATE, ds_candidate_refs = cn_candidate_refs candidate,
                ds_reason = ''EXACT_CACHED_CANDIDATE_AUTHORITY_STILL_REQUIRED'',
                ds_cache_hit = True\<rparr>
           | None \<Rightarrow>
               \<lparr>ds_standing = UNKNOWN, ds_candidate_refs = [],
                ds_reason = ''NO_EXACT_DECISION_CACHE_ENTRY'', ds_cache_hit = False\<rparr>))"

section \<open>Routing and recurrence\<close>

datatype intelligence_regime = HOT | WARM | COLD

record selection_decision =
  sd_regime :: intelligence_regime
  sd_candidate_refs :: "string list"
  sd_model_required :: bool
  sd_reason :: string

definition route_intelligence :: "bool \<Rightarrow> string list \<Rightarrow> int \<Rightarrow> selection_decision res" where
  "route_intelligence known_identity pareto_candidates warm_width =
     (if warm_width < 1 then Inl (value_error ''WARM_WIDTH_MUST_BE_POSITIVE'')
      else if \<not> known_identity \<or> pareto_candidates = []
      then Inr \<lparr>sd_regime = COLD, sd_candidate_refs = take (nat warm_width) pareto_candidates,
                sd_model_required = True, sd_reason = ''NOVEL_OR_UNINDEXED_SUBJECT''\<rparr>
      else if length pareto_candidates = 1
      then Inr \<lparr>sd_regime = HOT, sd_candidate_refs = pareto_candidates,
                sd_model_required = False, sd_reason = ''INDEXED_SINGLE_CANDIDATE''\<rparr>
      else Inr \<lparr>sd_regime = WARM, sd_candidate_refs = take (nat warm_width) pareto_candidates,
                sd_model_required = False, sd_reason = ''INDEXED_BOUNDED_RACE''\<rparr>)"

record cognition_episode =
  ce_problem_identity :: string
  ce_environment_identity :: string
  ce_authority_class :: string
  ce_model_tokens :: nat
  ce_monetary_cost :: rat
  ce_wall_time_s :: rat
  ce_verified :: bool
  ce_receipt_ref :: string

record compilation_candidate =
  cc_candidate :: bool
  cc_equivalence_key :: "string \<times> string \<times> string"
  cc_repetitions :: nat
  cc_model_tokens :: nat
  cc_receipt_refs :: "string list"
  cc_reason :: string

definition episode_key :: "cognition_episode \<Rightarrow> string \<times> string \<times> string" where
  "episode_key e = (ce_problem_identity e, ce_environment_identity e, ce_authority_class e)"

text \<open>\<open>equivalent_by_receipt.setdefault(episode.receipt_ref, episode)\<close> on an ordered dictionary.\<close>

definition setdefault :: "'k \<Rightarrow> 'v \<Rightarrow> ('k \<times> 'v) list \<Rightarrow> ('k \<times> 'v) list" where
  "setdefault k v d = (if k \<in> fst ` set d then d else d @ [(k, v)])"

definition collect_episode ::
    "string \<times> string \<times> string \<Rightarrow> cognition_episode \<Rightarrow> (string \<times> cognition_episode) list \<Rightarrow>
     (string \<times> cognition_episode) list" where
  "collect_episode key e d =
     (if episode_key e = key \<and> ce_verified e then setdefault (ce_receipt_ref e) e d else d)"

definition detect_compilation_candidate ::
    "cognition_episode list \<Rightarrow> int \<Rightarrow> compilation_candidate res" where
  "detect_compilation_candidate episodes minimum_repetitions =
     (if minimum_repetitions < 2
      then Inl (value_error ''MINIMUM_REPETITIONS_MUST_BE_AT_LEAST_TWO'')
      else (case episodes of
          [] \<Rightarrow> Inl (value_error ''COGNITION_EPISODES_REQUIRED'')
        | first # _ \<Rightarrow>
            (let key = episode_key first;
                 equivalent = map snd (fold (collect_episode key) episodes []);
                 tokens = sum_list (map ce_model_tokens equivalent);
                 candidate = (int (length equivalent) \<ge> minimum_repetitions \<and> tokens > 0)
             in Inr \<lparr>cc_candidate = candidate, cc_equivalence_key = key,
                     cc_repetitions = length equivalent, cc_model_tokens = tokens,
                     cc_receipt_refs = map ce_receipt_ref equivalent,
                     cc_reason = (if candidate then ''REPEATED_VERIFIED_COGNITION''
                                  else ''INSUFFICIENT_EQUIVALENT_VERIFIED_COGNITION'')\<rparr>)))"

record compile_out_observation =
  co_cold_model_tokens :: nat
  co_hot_model_tokens :: nat
  co_cold_cost :: rat
  co_hot_cost :: rat
  co_cold_wall_time_s :: rat
  co_hot_wall_time_s :: rat
  co_authority_preserved :: bool
  co_verification_preserved :: bool
  co_cold_receipt_ref :: string
  co_hot_receipt_ref :: string

definition compiled_out :: "compile_out_observation \<Rightarrow> bool" where
  "compiled_out x \<longleftrightarrow>
     co_hot_model_tokens x = 0 \<and> co_hot_cost x < co_cold_cost x \<and>
     co_hot_wall_time_s x \<le> co_cold_wall_time_s x \<and> co_authority_preserved x \<and>
     co_verification_preserved x"

section \<open>Compiled recipes\<close>

record hot_identity =
  hi_problem_identity :: string
  hi_environment_identity :: string
  hi_authority_class :: string
  hi_policy_revision :: string
  hi_verifier_ref :: string
  hi_action_ref :: string
  hi_input_contract_digest :: string

record compiled_recipe =
  cp_identity :: hot_identity
  cp_candidate_ref :: string
  cp_source_receipt_refs :: "string list"
  cp_recipe_digest :: string
  cp_standing :: standing

record hot_admission =
  ha_admitted :: bool
  ha_model_required :: bool
  ha_candidate_ref :: "string option"
  ha_standing :: standing
  ha_reason :: string

definition hot_identity_json :: "hot_identity \<Rightarrow> json" where
  "hot_identity_json i =
     JObj [(''problem_identity'', JStr (hi_problem_identity i)),
       (''environment_identity'', JStr (hi_environment_identity i)),
       (''authority_class'', JStr (hi_authority_class i)),
       (''policy_revision'', JStr (hi_policy_revision i)),
       (''verifier_ref'', JStr (hi_verifier_ref i)), (''action_ref'', JStr (hi_action_ref i)),
       (''input_contract_digest'', JStr (hi_input_contract_digest i))]"

definition compiled_payload :: "hot_identity \<Rightarrow> string \<Rightarrow> string list \<Rightarrow> json" where
  "compiled_payload identity candidate_ref source_receipt_refs =
     JObj [(''identity'', hot_identity_json identity), (''candidate_ref'', JStr candidate_ref),
       (''source_receipt_refs'', strs_json source_receipt_refs)]"

text \<open>The model validator \<open>verify_content_identity\<close> with the \<open>min_length\<close> of two fields.\<close>

definition compiled_recipe_validate :: "digest_fun \<Rightarrow> compiled_recipe \<Rightarrow> compiled_recipe res" where
  "compiled_recipe_validate H r =
     (if cp_candidate_ref r = [] \<or> cp_recipe_digest r = []
      then Inl (Raised ''ValidationError'' ''string_too_short'')
      else if cp_source_receipt_refs r = []
      then Inl (value_error ''COMPILE_OUT_REQUIRES_SOURCE_RECEIPTS'')
      else if cp_recipe_digest r \<noteq>
              H (compiled_payload (cp_identity r) (cp_candidate_ref r) (cp_source_receipt_refs r))
      then Inl (value_error ''COMPILED_RECIPE_DIGEST_MISMATCH'')
      else Inr r)"

definition compile_recipe ::
    "digest_fun \<Rightarrow> hot_identity \<Rightarrow> string \<Rightarrow> string list \<Rightarrow> compiled_recipe res" where
  "compile_recipe H identity candidate_ref source_receipt_refs =
     (if source_receipt_refs = []
      then Inl (value_error ''COMPILE_OUT_REQUIRES_SOURCE_RECEIPTS'')
      else compiled_recipe_validate H
        \<lparr>cp_identity = identity, cp_candidate_ref = candidate_ref,
         cp_source_receipt_refs = source_receipt_refs,
         cp_recipe_digest = H (compiled_payload identity candidate_ref source_receipt_refs),
         cp_standing = STRUCTURAL\<rparr>)"

definition admit_compiled_recipe :: "compiled_recipe \<Rightarrow> hot_identity \<Rightarrow> hot_admission" where
  "admit_compiled_recipe recipe current =
     (if cp_identity recipe \<noteq> current
      then \<lparr>ha_admitted = False, ha_model_required = True, ha_candidate_ref = None,
            ha_standing = STALE, ha_reason = ''COMPILED_RECIPE_IDENTITY_DRIFT''\<rparr>
      else if cp_standing recipe \<notin> {STRUCTURAL, ALIVE}
      then \<lparr>ha_admitted = False, ha_model_required = True, ha_candidate_ref = None,
            ha_standing = PARTIAL_ALIVE, ha_reason = ''COMPILED_RECIPE_NOT_ADMISSIBLE''\<rparr>
      else \<lparr>ha_admitted = True, ha_model_required = False,
            ha_candidate_ref = Some (cp_candidate_ref recipe), ha_standing = CANDIDATE,
            ha_reason = ''HOT_RECIPE_CANDIDATE_ADMITTED_AUTHORITY_STILL_REQUIRED''\<rparr>)"

type_synonym recipe_cache = "string \<rightharpoonup> compiled_recipe"

definition recipe_put :: "compiled_recipe \<Rightarrow> recipe_cache \<Rightarrow> recipe_cache" where
  "recipe_put recipe c = c(cp_recipe_digest recipe \<mapsto> recipe)"

definition recipe_get :: "recipe_cache \<Rightarrow> string \<Rightarrow> compiled_recipe option" where
  "recipe_get c recipe_digest = c recipe_digest"

section \<open>Retirement\<close>

datatype retirement_disposition =
    RETAIN_GENERAL_LLM | SHADOW_DETERMINISTIC | RETIRE_GENERAL_LLM

fun disposition_value :: "retirement_disposition \<Rightarrow> string" where
  "disposition_value RETAIN_GENERAL_LLM = ''RETAIN_GENERAL_LLM''"
| "disposition_value SHADOW_DETERMINISTIC = ''SHADOW_DETERMINISTIC''"
| "disposition_value RETIRE_GENERAL_LLM = ''RETIRE_GENERAL_LLM''"

record residual_work_profile =
  rw_exception_share :: rat
  rw_exception_effort_multiplier :: rat
  rw_ordinary_review_multiplier :: rat
  rw_rework :: rat
  rw_automation_support :: rat
  rw_baseline_overhead :: rat

definition residual_work_valid :: "residual_work_profile \<Rightarrow> bool" where
  "residual_work_valid w \<longleftrightarrow>
     0 \<le> rw_exception_share w \<and> rw_exception_share w \<le> 1 \<and>
     0 \<le> rw_exception_effort_multiplier w \<and> 0 \<le> rw_ordinary_review_multiplier w \<and>
     0 \<le> rw_rework w \<and> 0 \<le> rw_automation_support w \<and> 0 \<le> rw_baseline_overhead w"

definition residual_ratio :: "residual_work_profile \<Rightarrow> rat" where
  "residual_ratio w =
     (rw_exception_share w * rw_exception_effort_multiplier w +
      (1 - rw_exception_share w) * rw_ordinary_review_multiplier w +
      rw_rework w + rw_automation_support w) / (1 + rw_baseline_overhead w)"

record retirement_decision =
  rd_disposition :: retirement_disposition
  rd_standing :: standing
  rd_general_llm_required :: bool
  rd_deterministic_candidate_ref :: "string option"
  rd_residual_work_ratio :: rat
  rd_reason :: string

record retirement_receipt =
  rt_recipe_digest :: string
  rt_source_receipt_refs :: "string list"
  rt_cold_receipt_ref :: string
  rt_hot_receipt_ref :: string
  rt_information_sufficient :: bool
  rt_residual_work_ratio :: rat
  rt_decision :: retirement_decision
  rt_receipt_digest :: string

definition evaluate_retirement ::
    "compiled_recipe \<Rightarrow> hot_admission \<Rightarrow> compile_out_observation \<Rightarrow> residual_work_profile \<Rightarrow>
     bool \<Rightarrow> rat \<Rightarrow> int \<Rightarrow> retirement_decision res" where
  "evaluate_retirement recipe admission observation residual_work information_sufficient
       max_residual_work_ratio minimum_source_receipts =
     (let ratio = residual_ratio residual_work
      in if \<not> (0 \<le> max_residual_work_ratio \<and> max_residual_work_ratio \<le> 1)
      then Inl (value_error ''MAX_RESIDUAL_WORK_RATIO_MUST_BE_IN_0_1'')
      else if minimum_source_receipts < 2
      then Inl (value_error ''MINIMUM_SOURCE_RECEIPTS_MUST_BE_AT_LEAST_TWO'')
      else if \<not> information_sufficient
      then Inr \<lparr>rd_disposition = RETAIN_GENERAL_LLM, rd_standing = BLOCKED,
                rd_general_llm_required = True, rd_deterministic_candidate_ref = None,
                rd_residual_work_ratio = ratio, rd_reason = ''EVIDENCE_CEILING''\<rparr>
      else if \<not> ha_admitted admission \<or> ha_model_required admission
      then Inr \<lparr>rd_disposition = RETAIN_GENERAL_LLM, rd_standing = ha_standing admission,
                rd_general_llm_required = True, rd_deterministic_candidate_ref = None,
                rd_residual_work_ratio = ratio,
                rd_reason = ''HOT_RECIPE_NOT_ADMITTED:'' @ ha_reason admission\<rparr>
      else if \<not> compiled_out observation
      then Inr \<lparr>rd_disposition = RETAIN_GENERAL_LLM, rd_standing = PARTIAL_ALIVE,
                rd_general_llm_required = True,
                rd_deterministic_candidate_ref = ha_candidate_ref admission,
                rd_residual_work_ratio = ratio, rd_reason = ''COMPILE_OUT_NOT_PROVEN''\<rparr>
      else if int (length (cp_source_receipt_refs recipe)) < minimum_source_receipts
      then Inr \<lparr>rd_disposition = SHADOW_DETERMINISTIC, rd_standing = PARTIAL_ALIVE,
                rd_general_llm_required = True,
                rd_deterministic_candidate_ref = ha_candidate_ref admission,
                rd_residual_work_ratio = ratio,
                rd_reason = ''INSUFFICIENT_RECURRENT_RECEIPTS''\<rparr>
      else if ratio > max_residual_work_ratio
      then Inr \<lparr>rd_disposition = SHADOW_DETERMINISTIC, rd_standing = PARTIAL_ALIVE,
                rd_general_llm_required = True,
                rd_deterministic_candidate_ref = ha_candidate_ref admission,
                rd_residual_work_ratio = ratio,
                rd_reason = ''RESIDUAL_WORK_ABOVE_RETIREMENT_THRESHOLD''\<rparr>
      else Inr \<lparr>rd_disposition = RETIRE_GENERAL_LLM, rd_standing = ALIVE,
                rd_general_llm_required = False,
                rd_deterministic_candidate_ref = ha_candidate_ref admission,
                rd_residual_work_ratio = ratio,
                rd_reason = ''EXACT_RECURRING_PATH_COMPILED_OUT''\<rparr>)"

definition retirement_decision_json :: "retirement_decision \<Rightarrow> json" where
  "retirement_decision_json d =
     JObj [(''disposition'', JStr (disposition_value (rd_disposition d))),
       (''standing'', JStr (standing_value (rd_standing d))),
       (''general_llm_required'', JBool (rd_general_llm_required d)),
       (''deterministic_candidate_ref'', opt_json (rd_deterministic_candidate_ref d)),
       (''residual_work_ratio'', JFloat (rd_residual_work_ratio d)),
       (''reason'', JStr (rd_reason d))]"

definition mint_retirement_receipt ::
    "digest_fun \<Rightarrow> compiled_recipe \<Rightarrow> retirement_decision \<Rightarrow> compile_out_observation \<Rightarrow> bool \<Rightarrow>
     retirement_receipt" where
  "mint_retirement_receipt H recipe decision observation information_sufficient =
     \<lparr>rt_recipe_digest = cp_recipe_digest recipe,
      rt_source_receipt_refs = cp_source_receipt_refs recipe,
      rt_cold_receipt_ref = co_cold_receipt_ref observation,
      rt_hot_receipt_ref = co_hot_receipt_ref observation,
      rt_information_sufficient = information_sufficient,
      rt_residual_work_ratio = rd_residual_work_ratio decision, rt_decision = decision,
      rt_receipt_digest = H (JObj
        [(''recipe_digest'', JStr (cp_recipe_digest recipe)),
         (''source_receipt_refs'', strs_json (cp_source_receipt_refs recipe)),
         (''cold_receipt_ref'', JStr (co_cold_receipt_ref observation)),
         (''hot_receipt_ref'', JStr (co_hot_receipt_ref observation)),
         (''information_sufficient'', JBool information_sufficient),
         (''residual_work_ratio'', JFloat (rd_residual_work_ratio decision)),
         (''decision'', retirement_decision_json decision)])\<rparr>"

record retirement_evaluation =
  re_compilation_candidate :: compilation_candidate
  re_recipe :: "compiled_recipe option"
  re_admission :: "hot_admission option"
  re_decision :: retirement_decision
  re_receipt :: "retirement_receipt option"

definition evaluate_recurring_class ::
    "digest_fun \<Rightarrow> cognition_episode list \<Rightarrow> hot_identity \<Rightarrow> hot_identity \<Rightarrow> string \<Rightarrow>
     compile_out_observation \<Rightarrow> residual_work_profile \<Rightarrow> bool \<Rightarrow> rat \<Rightarrow> int \<Rightarrow> int \<Rightarrow>
     retirement_evaluation res" where
  "evaluate_recurring_class H episodes recipe_identity current_identity candidate_ref observation
       residual_work information_sufficient max_residual_work_ratio minimum_repetitions
       minimum_source_receipts =
     bind_res (detect_compilation_candidate episodes minimum_repetitions) (\<lambda>candidate.
       if cc_equivalence_key candidate \<noteq>
          (hi_problem_identity recipe_identity, hi_environment_identity recipe_identity,
           hi_authority_class recipe_identity)
       then Inl (value_error ''COMPILATION_CANDIDATE_IDENTITY_MISMATCH'')
       else if \<not> cc_candidate candidate
       then Inr \<lparr>re_compilation_candidate = candidate, re_recipe = None, re_admission = None,
         re_decision =
           \<lparr>rd_disposition = RETAIN_GENERAL_LLM, rd_standing = UNKNOWN,
            rd_general_llm_required = True, rd_deterministic_candidate_ref = None,
            rd_residual_work_ratio = residual_ratio residual_work, rd_reason = cc_reason candidate\<rparr>,
         re_receipt = None\<rparr>
       else
         bind_res (compile_recipe H recipe_identity candidate_ref (cc_receipt_refs candidate))
           (\<lambda>recipe.
             let admission = admit_compiled_recipe recipe current_identity
             in bind_res (evaluate_retirement recipe admission observation residual_work
                  information_sufficient max_residual_work_ratio minimum_source_receipts)
                  (\<lambda>decision. Inr
                    \<lparr>re_compilation_candidate = candidate, re_recipe = Some recipe,
                     re_admission = Some admission, re_decision = decision,
                     re_receipt = Some (mint_retirement_receipt H recipe decision observation
                       information_sufficient)\<rparr>)))"

record retirement_portfolio =
  rp_evaluations :: "retirement_evaluation list"
  rp_portfolio_receipt_digest :: string

definition disposition_count :: "retirement_disposition \<Rightarrow> retirement_portfolio \<Rightarrow> nat" where
  "disposition_count d p =
     length (filter (\<lambda>e. rd_disposition (re_decision e) = d) (rp_evaluations p))"

definition class_count :: "retirement_portfolio \<Rightarrow> nat" where
  "class_count p = length (rp_evaluations p)"

definition historical_model_tokens_observed :: "retirement_portfolio \<Rightarrow> nat" where
  "historical_model_tokens_observed p =
     sum_list (map (cc_model_tokens \<circ> re_compilation_candidate) (rp_evaluations p))"

definition retired_history_model_tokens_observed :: "retirement_portfolio \<Rightarrow> nat" where
  "retired_history_model_tokens_observed p =
     sum_list (map (cc_model_tokens \<circ> re_compilation_candidate)
       (filter (\<lambda>e. rd_disposition (re_decision e) = RETIRE_GENERAL_LLM) (rp_evaluations p)))"

definition make_retirement_portfolio ::
    "digest_fun \<Rightarrow> retirement_evaluation list \<Rightarrow> retirement_portfolio res" where
  "make_retirement_portfolio H evaluations =
     (if evaluations = [] then Inl (value_error ''RETIREMENT_PORTFOLIO_REQUIRES_EVALUATIONS'')
      else Inr \<lparr>rp_evaluations = evaluations, rp_portfolio_receipt_digest = H (JArr (map (\<lambda>e.
        (case cc_equivalence_key (re_compilation_candidate e) of (problem, environment, authority) \<Rightarrow>
          JObj [(''equivalence_key'', strs_json [problem, environment, authority]),
            (''candidate'', JBool (cc_candidate (re_compilation_candidate e))),
            (''model_tokens'', JInt (int (cc_model_tokens (re_compilation_candidate e)))),
            (''decision'', retirement_decision_json (re_decision e)),
            (''receipt_digest'', opt_json (map_option rt_receipt_digest (re_receipt e)))]))
        evaluations))\<rparr>)"

section \<open>The empirical index\<close>

record empirical_record =
  em_problem_class_ref :: string
  em_structural_key :: string
  em_combination_id :: string
  em_objective :: string
  em_environment :: string
  em_hardware :: string
  em_observed :: objective_vector
  em_standing :: standing
  em_receipt_refs :: "string list"

definition empirical_dominates :: "empirical_record \<Rightarrow> empirical_record \<Rightarrow> bool" where
  "empirical_dominates left right =
     (let l = em_observed left; r = em_observed right;
          no_worse =
            ov_monetary_cost l \<le> ov_monetary_cost r \<and> ov_wall_time_s l \<le> ov_wall_time_s r \<and>
            ov_compute_units l \<le> ov_compute_units r \<and>
            ov_human_interventions l \<le> ov_human_interventions r \<and>
            ov_risk_score l \<le> ov_risk_score r \<and>
            ov_verification_confidence l \<ge> ov_verification_confidence r \<and>
            ov_expected_value l \<ge> ov_expected_value r;
          better =
            ov_monetary_cost l < ov_monetary_cost r \<or> ov_wall_time_s l < ov_wall_time_s r \<or>
            ov_compute_units l < ov_compute_units r \<or>
            ov_human_interventions l < ov_human_interventions r \<or>
            ov_risk_score l < ov_risk_score r \<or>
            ov_verification_confidence l > ov_verification_confidence r \<or>
            ov_expected_value l > ov_expected_value r
      in no_worse \<and> better)"

text \<open>As in \<open>pareto_paths\<close>, no record dominates itself, so \<open>other is not candidate\<close> is dropped.\<close>

definition empirical_pareto :: "empirical_record list \<Rightarrow> empirical_record list" where
  "empirical_pareto = non_dominated empirical_dominates"

definition strip_receipt_id :: "string \<Rightarrow> string" where
  "strip_receipt_id reference =
     (if starts_with ''urn:gymact:receipt:'' reference
      then drop (length ''urn:gymact:receipt:'') reference else reference)"

text \<open>The loop over the references: every one must resolve.\<close>

fun resolve_receipts :: "memory_ledger \<Rightarrow> string list \<Rightarrow> receipt list res" where
  "resolve_receipts led [] = Inr []"
| "resolve_receipts led (reference # rest) =
     (case ledger_find led (strip_receipt_id reference) of
        None \<Rightarrow> Inl (value_error ''EMPIRICAL_INDEX_RECEIPT_MISSING'')
      | Some record \<Rightarrow>
          bind_res (resolve_receipts led rest) (\<lambda>rs. Inr (er_receipt record # rs)))"

definition index_admit :: "digest_fun \<Rightarrow> memory_ledger \<Rightarrow> empirical_record \<Rightarrow> unit res" where
  "index_admit H led v =
     (if \<not> ledger_verify H led then Inl (value_error ''EMPIRICAL_INDEX_EVIDENCE_CHAIN_INVALID'')
      else bind_res (resolve_receipts led (em_receipt_refs v)) (\<lambda>receipts.
        if \<not> list_ex (\<lambda>r. rc_standing r = em_standing v) receipts
        then Inl (value_error ''EMPIRICAL_INDEX_STANDING_NOT_WITNESSED'')
        else if em_standing v \<in> {ALIVE, ADOPTED} \<and>
                \<not> list_ex (\<lambda>r. rc_verified r = Some True) receipts
        then Inl (value_error ''EMPIRICAL_INDEX_VERIFIED_CONSEQUENCE_REQUIRED'')
        else if em_standing v = ADOPTED
        then Inl (value_error ''EMPIRICAL_INDEX_CANNOT_MANUFACTURE_ADOPTED'')
        else Inr ()))"

definition index_record ::
    "digest_fun \<Rightarrow> memory_ledger \<Rightarrow> empirical_record \<Rightarrow> (empirical_record list, unit) action" where
  "index_record H led v records =
     (case index_admit H led v of
        Inl e \<Rightarrow> (Inl e, records)
      | Inr _ \<Rightarrow> (Inr (), records @ [v]))"

definition index_query ::
    "empirical_record list \<Rightarrow> string \<Rightarrow> string \<Rightarrow> string list \<Rightarrow> string \<Rightarrow> string option \<Rightarrow>
     string option \<Rightarrow> empirical_record list" where
  "index_query records problem_class_ref structural_key eligible objective environment hardware =
     (if eligible = [] then []
      else empirical_pareto (filter (\<lambda>v.
        em_problem_class_ref v = problem_class_ref \<and> em_structural_key v = structural_key \<and>
        em_objective v = objective \<and> em_combination_id v \<in> set eligible \<and>
        em_standing v = ALIVE \<and>
        (environment = None \<or> Some (em_environment v) = environment) \<and>
        (hardware = None \<or> Some (em_hardware v) = hardware)) records))"

end
