(* ===== verification/Retirement_Props.thy ===== *)
theory Retirement_Props
  imports Retirement
begin

text \<open>
  The decision cache answers with the latest admissible decision for the exact key; a general
  model is retired exactly on recurrent, verified, current evidence; the empirical index
  returns only records whose evidence is in the ledger. Two theorems show what the checks do
  not cover.
\<close>

section \<open>Decision cache\<close>

datatype cache_call = Put_candidate candidate_decision | Put_refusal refusal_decision

fun cache_step :: "cache_call \<Rightarrow> decision_cache \<Rightarrow> decision_cache" where
  "cache_step (Put_candidate d) c = snd (put_candidate d c)"
| "cache_step (Put_refusal d) c = snd (put_refusal d c)"

text \<open>The reference: the calls themselves, newest first.\<close>

fun answers :: "decision_key \<Rightarrow> cache_call \<Rightarrow> bool" where
  "answers key (Put_candidate d) \<longleftrightarrow>
     cn_key d = key \<and> cn_candidate_refs d \<noteq> [] \<and> cn_evidence_refs d \<noteq> []"
| "answers key (Put_refusal d) \<longleftrightarrow> rf_key d = key \<and> rf_evidence_refs d \<noteq> []"

fun answer :: "cache_call option \<Rightarrow> decision_resolution" where
  "answer (Some (Put_candidate d)) =
     \<lparr>ds_standing = CANDIDATE, ds_candidate_refs = cn_candidate_refs d,
      ds_reason = ''EXACT_CACHED_CANDIDATE_AUTHORITY_STILL_REQUIRED'', ds_cache_hit = True\<rparr>"
| "answer (Some (Put_refusal d)) =
     \<lparr>ds_standing = REFUSED, ds_candidate_refs = [], ds_reason = rf_reason d, ds_cache_hit = True\<rparr>"
| "answer None =
     \<lparr>ds_standing = UNKNOWN, ds_candidate_refs = [],
      ds_reason = ''NO_EXACT_DECISION_CACHE_ENTRY'', ds_cache_hit = False\<rparr>"

definition cache_inv :: "decision_cache \<Rightarrow> bool" where
  "cache_inv c \<longleftrightarrow> dom (dc_candidates c) \<inter> dom (dc_refusals c) = {}"

lemma cache_inv_step: "cache_inv c \<Longrightarrow> cache_inv (cache_step call c)"
  by (cases call) (auto simp: cache_inv_def put_candidate_def put_refusal_def)

lemma resolve_step:
  "cache_inv c \<Longrightarrow> resolve (cache_step call c) key =
     (if answers key call then answer (Some call) else resolve c key)"
  by (cases call)
    (auto simp: resolve_def put_candidate_def put_refusal_def cong: option.case_cong split: option.split)

text \<open>After any sequence of calls the cache answers a key with the latest call for exactly that
  key that carried evidence, and with UNKNOWN when there is none; it never offers more than a
  candidate.\<close>

theorem cache_answers_latest:
  "resolve (fold cache_step calls new_decision_cache) key = answer (find (answers key) (rev calls)) \<and>
   ds_standing (resolve (fold cache_step calls new_decision_cache) key) \<in> {CANDIDATE, REFUSED, UNKNOWN}"
proof -
  have "cache_inv (fold cache_step calls new_decision_cache) \<and>
      resolve (fold cache_step calls new_decision_cache) key = answer (find (answers key) (rev calls))"
  proof (induction calls rule: rev_induct)
    case Nil
    show ?case by (simp add: cache_inv_def new_decision_cache_def resolve_def)
  next
    case (snoc call calls)
    then show ?case by (simp add: cache_inv_step resolve_step)
  qed
  moreover have "ds_standing (answer x) \<in> {CANDIDATE, REFUSED, UNKNOWN}" for x
    by (cases x rule: answer.cases) simp_all
  ultimately show ?thesis by metis
qed

section \<open>Recurrence\<close>

definition class_receipts :: "cognition_episode list \<Rightarrow> string \<times> string \<times> string \<Rightarrow> string set" where
  "class_receipts episodes key =
     {ce_receipt_ref e |e. e \<in> set episodes \<and> episode_key e = key \<and> ce_verified e}"

lemma class_receipts_filter:
  "class_receipts es key =
     set (map ce_receipt_ref (filter (\<lambda>e. episode_key e = key \<and> ce_verified e) es))"
  by (auto simp: class_receipts_def)

lemma collected:
  fixes key episodes
  defines "d \<equiv> fold (collect_episode key) episodes []"
  shows "distinct (map fst d)" "fst ` set d = class_receipts episodes key"
    "\<forall>(k, e) \<in> set d. ce_receipt_ref e = k \<and> e \<in> set episodes \<and> episode_key e = key \<and> ce_verified e"
proof -
  have "distinct (map fst d) \<and> fst ` set d = class_receipts episodes key \<and>
    (\<forall>(k, e) \<in> set d. ce_receipt_ref e = k \<and> e \<in> set episodes \<and> episode_key e = key \<and> ce_verified e)"
    unfolding d_def
  proof (induction episodes rule: rev_induct)
    case (snoc e episodes)
    then show ?case
      by (auto simp: collect_episode_def setdefault_def class_receipts_def)
  qed (simp add: class_receipts_def)
  then show "distinct (map fst d)" "fst ` set d = class_receipts episodes key"
    "\<forall>(k, e) \<in> set d. ce_receipt_ref e = k \<and> e \<in> set episodes \<and> episode_key e = key \<and> ce_verified e"
    by blast+
qed

lemma detected:
  assumes "detect_compilation_candidate episodes n = Inr c"
  shows "2 \<le> n" "episodes \<noteq> []" "cc_equivalence_key c = episode_key (hd episodes)"
    "set (cc_receipt_refs c) = class_receipts episodes (cc_equivalence_key c)"
    "distinct (cc_receipt_refs c)"
    "cc_candidate c \<longleftrightarrow> n \<le> int (length (cc_receipt_refs c)) \<and> 0 < cc_model_tokens c"
proof -
  obtain e es where episodes: "episodes = e # es"
    using assms by (cases episodes) (auto simp: detect_compilation_candidate_def split: if_splits)
  define d where "d = fold (collect_episode (episode_key e)) episodes []"
  note d = collected [of "episode_key e" episodes, folded d_def]
  have n: "2 \<le> n"
    using assms by (auto simp: detect_compilation_candidate_def split: if_split_asm)
  then have c: "c = \<lparr>cc_candidate = n \<le> int (length d) \<and> 0 < sum_list (map ce_model_tokens (map snd d)),
      cc_equivalence_key = episode_key e, cc_repetitions = length d,
      cc_model_tokens = sum_list (map ce_model_tokens (map snd d)),
      cc_receipt_refs = map ce_receipt_ref (map snd d),
      cc_reason = (if n \<le> int (length d) \<and> 0 < sum_list (map ce_model_tokens (map snd d))
        then ''REPEATED_VERIFIED_COGNITION''
        else ''INSUFFICIENT_EQUIVALENT_VERIFIED_COGNITION'')\<rparr>"
    using assms [symmetric]
    by (simp add: detect_compilation_candidate_def episodes d_def Let_def del: fold_simps map_map)
  have refs: "map ce_receipt_ref (map snd d) = map fst d" using d(3) by auto
  show "2 \<le> n" "episodes \<noteq> []" "cc_equivalence_key c = episode_key (hd episodes)"
    "set (cc_receipt_refs c) = class_receipts episodes (cc_equivalence_key c)"
    "distinct (cc_receipt_refs c)"
    "cc_candidate c \<longleftrightarrow> n \<le> int (length (cc_receipt_refs c)) \<and> 0 < cc_model_tokens c"
    using n d(1,2) refs by (simp_all add: c episodes del: map_map)
qed

lemma class_receipts_card:
  "detect_compilation_candidate episodes n = Inr c \<Longrightarrow>
   length (cc_receipt_refs c) = card (class_receipts episodes (cc_equivalence_key c))"
  using detected(4,5) distinct_card by metis

section \<open>Retirement\<close>

lemma evaluate_retirement_iff:
  assumes "evaluate_retirement recipe admission observation work sufficient threshold sources = Inr d"
  shows "rd_disposition d = RETIRE_GENERAL_LLM \<longleftrightarrow>
      sufficient \<and> ha_admitted admission \<and> \<not> ha_model_required admission \<and> compiled_out observation \<and>
      sources \<le> int (length (cp_source_receipt_refs recipe)) \<and> residual_ratio work \<le> threshold"
    "2 \<le> sources" "0 \<le> threshold" "threshold \<le> 1"
    "rd_general_llm_required d \<longleftrightarrow> rd_disposition d \<noteq> RETIRE_GENERAL_LLM"
  using assms by (auto simp: evaluate_retirement_def Let_def split: if_splits)

lemma compile_recipe_InrD:
  "compile_recipe H i c refs = Inr r \<Longrightarrow>
     cp_identity r = i \<and> cp_source_receipt_refs r = refs \<and> cp_candidate_ref r = c \<and>
     cp_standing r = STRUCTURAL \<and> refs \<noteq> [] \<and> compiled_recipe_validate H r = Inr r"
  by (auto simp: compile_recipe_def compiled_recipe_validate_def split: if_splits)


definition demo_episode :: "string \<Rightarrow> cognition_episode" where
  "demo_episode receipt =
     \<lparr>ce_problem_identity = ''p'', ce_environment_identity = ''e'', ce_authority_class = ''a'',
      ce_model_tokens = 100, ce_monetary_cost = 1, ce_wall_time_s = 2, ce_verified = True,
      ce_receipt_ref = receipt\<rparr>"

definition demo_identity :: hot_identity where
  "demo_identity =
     \<lparr>hi_problem_identity = ''p'', hi_environment_identity = ''e'', hi_authority_class = ''a'',
      hi_policy_revision = ''1'', hi_verifier_ref = ''v'', hi_action_ref = ''act'',
      hi_input_contract_digest = ''i''\<rparr>"

definition demo_observation :: compile_out_observation where
  "demo_observation =
     \<lparr>co_cold_model_tokens = 100, co_hot_model_tokens = 0, co_cold_cost = 1, co_hot_cost = 0,
      co_cold_wall_time_s = 2, co_hot_wall_time_s = 1, co_authority_preserved = True,
      co_verification_preserved = True, co_cold_receipt_ref = ''c'', co_hot_receipt_ref = ''h''\<rparr>"

definition demo_work :: residual_work_profile where
  "demo_work =
     \<lparr>rw_exception_share = 1 / 10, rw_exception_effort_multiplier = 1,
      rw_ordinary_review_multiplier = 0, rw_rework = 0, rw_automation_support = 0,
      rw_baseline_overhead = 0\<rparr>"

abbreviation demo_retirement :: "cognition_episode list \<Rightarrow> retirement_evaluation res" where
  "demo_retirement episodes \<equiv>
     evaluate_recurring_class (\<lambda>_. ''d'') episodes demo_identity demo_identity ''k'' demo_observation
       demo_work True (1 / 2) 2 2"

lemmas demo_retirement_simps = demo_episode_def demo_identity_def demo_observation_def demo_work_def
  evaluate_recurring_class_def detect_compilation_candidate_def episode_key_def collect_episode_def
  setdefault_def compile_recipe_def compiled_recipe_validate_def admit_compiled_recipe_def
  evaluate_retirement_def compiled_out_def residual_ratio_def Let_def


text \<open>
  A recipe compiled directly may name one receipt twice: the retirement decision counts the
  references, not the receipts.
\<close>

theorem retirement_counts_repetitions:
  "\<exists>recipe d. compile_recipe (\<lambda>_. ''d'') demo_identity ''k'' [''r1'', ''r1''] = Inr recipe \<and>
     evaluate_retirement recipe (admit_compiled_recipe recipe demo_identity) demo_observation
       demo_work True (1 / 2) 2 = Inr d \<and>
     rd_disposition d = RETIRE_GENERAL_LLM"
  by (simp add: demo_retirement_simps)

section \<open>The empirical index\<close>

lemma empirical_dominates_irrefl [simp]: "\<not> empirical_dominates x x"
  by (simp add: empirical_dominates_def Let_def)

interpretation empirical_dominance: strict_dominance empirical_dominates
  by unfold_locales (auto simp: empirical_dominates_def Let_def)

text \<open>Runs of the index beside its ledger, which others append to.\<close>

inductive index_reachable ::
    "digest_fun \<Rightarrow> memory_ledger \<Rightarrow> empirical_record list \<Rightarrow> bool" for H where
  start: "index_reachable H empty_ledger []"
| append: "index_reachable H led vs \<Longrightarrow> ledger_append H led r = (x, led') \<Longrightarrow>
    index_reachable H led' vs"
| admit: "index_reachable H led vs \<Longrightarrow> index_record H led v vs = (x, vs') \<Longrightarrow>
    index_reachable H led vs'"

text \<open>Every reference resolves, one receipt has the standing, one is verified.\<close>

definition witnessed :: "memory_ledger \<Rightarrow> empirical_record \<Rightarrow> bool" where
  "witnessed led v \<longleftrightarrow> em_standing v \<noteq> ADOPTED \<and>
     (\<forall>ref \<in> set (em_receipt_refs v). ledger_find led (strip_receipt_id ref) \<noteq> None) \<and>
     (\<exists>ref \<in> set (em_receipt_refs v). \<exists>e. ledger_find led (strip_receipt_id ref) = Some e \<and>
        rc_standing (er_receipt e) = em_standing v) \<and>
     (em_standing v = ALIVE \<longrightarrow>
       (\<exists>ref \<in> set (em_receipt_refs v). \<exists>e. ledger_find led (strip_receipt_id ref) = Some e \<and>
          rc_verified (er_receipt e) = Some True))"

lemma resolve_receipts_Inr:
  "resolve_receipts led refs = Inr rs \<Longrightarrow>
   (\<forall>ref \<in> set refs. ledger_find led (strip_receipt_id ref) \<noteq> None) \<and>
   (\<forall>r \<in> set rs. \<exists>ref \<in> set refs. \<exists>e. ledger_find led (strip_receipt_id ref) = Some e \<and>
      er_receipt e = r)"
  by (induction refs arbitrary: rs) (fastforce simp: bind_res_Inr_iff split: option.splits)+

lemma index_admit_witnessed:
  assumes "index_admit H led v = Inr u"
  shows "witnessed led v"
proof -
  from assms obtain rs where rs: "resolve_receipts led (em_receipt_refs v) = Inr rs"
      "\<exists>r \<in> set rs. rc_standing r = em_standing v" "em_standing v \<noteq> ADOPTED"
      "em_standing v = ALIVE \<longrightarrow> (\<exists>r \<in> set rs. rc_verified r = Some True)"
    by (auto simp: index_admit_def bind_res_Inr_iff list_ex_iff split: if_splits)
  with resolve_receipts_Inr [OF rs(1)] show ?thesis
    unfolding witnessed_def by metis
qed

lemma witnessed_append:
  assumes "ledger_inv H led" "ledger_append H led r = (x, led')" "witnessed led v"
  shows "witnessed led' v"
proof -
  have keep: "ledger_find led i = Some e \<Longrightarrow> ledger_find led' i = Some e" for i e
    by (rule memory.lookup_stable [OF assms(1,2)])
  have found: "ledger_find led i \<noteq> None \<Longrightarrow> ledger_find led' i \<noteq> None" for i
    using keep by blast
  from assms(3) show ?thesis
    unfolding witnessed_def using keep found by meson
qed

lemma index_reachable_inv:
  "index_reachable H led vs \<Longrightarrow> ledger_inv H led \<and> (\<forall>v \<in> set vs. witnessed led v)"
proof (induction rule: index_reachable.induct)
  case (append led vs r x led')
  then show ?case using ledger_inv_append witnessed_append by blast
next
  case (admit led vs v x vs')
  show ?case
  proof (cases "index_admit H led v")
    case (Inr u)
    with index_admit_witnessed [OF Inr] admit show ?thesis by (auto simp: index_record_def)
  qed (use admit in \<open>simp add: index_record_def\<close>)
qed simp

text \<open>In every run of the index beside its ledger, whatever a query returns is an eligible ALIVE
  record for that problem and structure whose evidence is all in the ledger, one receipt
  ALIVE and one verified; no matching record dominates it, and every matching record is
  returned or dominated by one that is.\<close>

theorem index_query_sound:
  assumes "index_reachable H led records"
    and "result = index_query records problem structure eligible objective environment hardware"
  shows "(\<forall>v \<in> set result. v \<in> set records \<and> em_problem_class_ref v = problem \<and>
      em_structural_key v = structure \<and> em_combination_id v \<in> set eligible \<and>
      em_standing v = ALIVE \<and> witnessed led v) \<and>
    (\<forall>v \<in> set records. em_problem_class_ref v = problem \<longrightarrow> em_structural_key v = structure \<longrightarrow>
      em_objective v = objective \<longrightarrow> em_combination_id v \<in> set eligible \<longrightarrow> em_standing v = ALIVE \<longrightarrow>
      (environment = None \<or> Some (em_environment v) = environment) \<longrightarrow>
      (hardware = None \<or> Some (em_hardware v) = hardware) \<longrightarrow>
      (\<exists>w \<in> set result. w = v \<or> empirical_dominates w v))"
proof -
  note witnessed = index_reachable_inv [OF assms(1), THEN conjunct2]
  show ?thesis
  proof (cases "eligible = []")
    case True
    then show ?thesis using assms(2) by (simp add: index_query_def)
  next
    case False
    define matching where "matching = filter (\<lambda>v. em_problem_class_ref v = problem \<and>
      em_structural_key v = structure \<and> em_objective v = objective \<and>
      em_combination_id v \<in> set eligible \<and> em_standing v = ALIVE \<and>
      (environment = None \<or> Some (em_environment v) = environment) \<and>
      (hardware = None \<or> Some (em_hardware v) = hardware)) records"
    have result: "result = non_dominated empirical_dominates matching"
      using False assms(2) by (simp add: index_query_def empirical_pareto_def matching_def)
    have "v \<in> set matching" if "v \<in> set result" for v
      using that empirical_dominance.frontier_iff [of v matching] by (simp add: result)
    moreover have "\<exists>w \<in> set result. w = v \<or> empirical_dominates w v" if "v \<in> set matching" for v
      using empirical_dominance.frontier_covers [OF that] by (simp add: result)
    ultimately show ?thesis using witnessed by (simp add: matching_def)
  qed
qed

text \<open>A record admitted on one receipt that says ALIVE and another that was verified.\<close>

definition alive_receipt :: receipt where
  "alive_receipt = new_receipt ''r1'' ''t'' ''e'' ACT ALIVE"

definition verified_receipt :: receipt where
  "verified_receipt = (new_receipt ''r2'' ''t'' ''f'' VERIFY REFUSED)\<lparr>rc_verified := Some True\<rparr>"

definition demo_empirical :: empirical_record where
  "demo_empirical =
     \<lparr>em_problem_class_ref = ''p'', em_structural_key = ''s'', em_combination_id = ''c'',
      em_objective = ''o'', em_environment = ''e'', em_hardware = ''h'',
      em_observed = zero_objectives, em_standing = ALIVE,
      em_receipt_refs = [''urn:gymact:receipt:r1'', ''r2'']\<rparr>"

definition two_receipts :: memory_ledger where
  "two_receipts = snd (ledger_append (\<lambda>_. ''d'')
     (snd (ledger_append (\<lambda>_. ''d'') empty_ledger alive_receipt)) verified_receipt)"

lemmas two_receipts_simps = two_receipts_def alive_receipt_def verified_receipt_def new_receipt_def
  ledger_append_def empty_ledger_def key_conflict_def next_record_def record_digest_def Let_def
  ledger_verify_def ledger_find_def strip_receipt_id_def starts_with_def last_opt_def

lemma demo_index_record:
  "index_record (\<lambda>_. ''d'') two_receipts demo_empirical [] = (Inr (), [demo_empirical])"
  by (simp add: index_record_def index_admit_def demo_empirical_def two_receipts_simps)

theorem index_accepts_split_evidence:
  "index_record (\<lambda>_. ''d'') two_receipts demo_empirical [] = (Inr (), [demo_empirical]) \<and>
   (\<forall>r \<in> {alive_receipt, verified_receipt}. \<not> (rc_standing r = ALIVE \<and> rc_verified r = Some True))"
  by (simp add: demo_index_record alive_receipt_def verified_receipt_def new_receipt_def)

lemma demo_index_reachable: "index_reachable (\<lambda>_. ''d'') two_receipts [demo_empirical]"
proof -
  let ?H = "\<lambda>_. ''d''"
  let ?one = "snd (ledger_append ?H empty_ledger alive_receipt)"
  have "index_reachable ?H ?one []"
    by (rule index_reachable.append [OF index_reachable.start]) (rule prod.collapse [symmetric])
  then have "index_reachable ?H two_receipts []"
    unfolding two_receipts_def
    by (rule index_reachable.append) (rule prod.collapse [symmetric])
  then show ?thesis
    by (rule index_reachable.admit) (rule demo_index_record)
qed

theorem index_query_sound_witness:
  "index_query [demo_empirical] ''p'' ''s'' [''c''] ''o'' None (Some ''h'') = [demo_empirical] \<and>
   witnessed two_receipts demo_empirical"
proof -
  have "index_query [demo_empirical] ''p'' ''s'' [''c''] ''o'' None (Some ''h'') = [demo_empirical]"
    by (simp add: index_query_def empirical_pareto_def non_dominated_def demo_empirical_def)
  with index_query_sound [OF demo_index_reachable refl, of "''p''" "''s''" "[''c'']" "''o''" None "Some ''h''"]
  show ?thesis by simp
qed

end
