(* ===== verification/Execution_Loop.thy ===== *)
theory Execution_Loop
  imports Models
begin

text \<open>
  The autonomous execution loop, \<open>src/gymact/execution_loop.py\<close>: one bounded request against
  a sequence of providers, with typed blocks instead of waiting. Providers, verifier and clock
  act on a world \<open>'w\<close> and may raise; the authority registry and the resource probe only read
  it. A text built from values is the constructor of \<open>loop_reason\<close> that holds the values.
\<close>

section \<open>Vocabulary\<close>

datatype legal_outcome = Recover | Replan | Substitute | Refuse | Typed_block

fun outcome_value :: "legal_outcome \<Rightarrow> string" where
  "outcome_value Recover = ''Recover''"
| "outcome_value Replan = ''Replan''"
| "outcome_value Substitute = ''Substitute''"
| "outcome_value Refuse = ''Refuse''"
| "outcome_value Typed_block = ''TypedBlock''"

definition wait_for_human_to_notice :: string where
  "wait_for_human_to_notice = ''WaitForHumanToNotice''"

datatype episode_standing = AUTONOMOUS | ASSISTED | BLOCKED_AUTHORITY | BLOCKED_INFORMATION | FAILED

datatype broken_term =
    R_missing_authority | R_missing_identity | R_missing_consequence | Admission_vacuous | Mu_on_O
  | Resource_exhausted | Provider_unavailable | Dependency_outage | Verification_failed
  | Subject_unstable | Subject_stale | Impossible_objective | Transport_partition

text \<open>\<open>TransportFault\<close>, its subclass \<open>WorkerCrashed\<close>, and everything else.\<close>

datatype loop_exn =
    Transport_fault string int bool
  | Worker_crashed bool string
  | Other_exn exn

text \<open>What \<open>except TransportFault\<close> catches: kind and \<open>retry_after_ticks\<close>.\<close>

fun as_fault :: "loop_exn \<Rightarrow> (string \<times> int) option" where
  "as_fault (Transport_fault kind retry applied) = Some (kind, retry)"
| "as_fault (Worker_crashed applied point) = Some (''worker_sigkill'', 1)"
| "as_fault (Other_exn e) = None"

datatype loop_reason =
    Text string
  | Claimed string string
  | Backoff_after int string
  | Replace_after string
  | Backoff_scheduled string
  | Disk_short int int
  | Cpu_short rat rat
  | Killed_at string
  | Actuation_witnessed nat string
  | Stale_sha string string
  | Moved_sha string string
  | Moved_after_journal string string
  | Verifier_rejected string nat
  | Journal_verdict string
  | Verification_block string

section \<open>Contract models\<close>

record loop_subject =
  sj_repo :: string
  sj_sha :: string

record claim_pin =
  pn_provider_execution_id :: string
  pn_pinned_subject_sha :: string

record authority_grant =
  ag_ceiling :: string
  ag_grant :: string
  ag_actor :: string
  ag_expires_at_tick :: "int option"

record resource_constraints =
  lim_deadline_ticks :: nat
  lim_max_retries :: nat
  lim_max_provider_switches :: nat
  lim_max_subject_moves :: nat
  lim_disk_budget_mb :: nat
  lim_cpu_budget_cores :: rat

record execution_request =
  rq_work_order :: string
  rq_capability_requirements :: "string list"
  rq_subject :: loop_subject
  rq_authority :: authority_grant
  rq_evidence_requirements :: "string list"
  rq_resource_constraints :: resource_constraints
  rq_idempotency_key :: string

text \<open>\<open>model_post_init\<close>: the key defaults to the work order.\<close>

definition with_default_key :: "execution_request \<Rightarrow> execution_request" where
  "with_default_key r =
     r\<lparr>rq_idempotency_key :=
         (if rq_idempotency_key r \<noteq> [] then rq_idempotency_key r else rq_work_order r)\<rparr>"

text \<open>The pattern \<open>^[0-9a-f]{7,64}$\<close>; building a \<open>SubjectRef\<close> with another SHA raises.\<close>

definition valid_sha :: "string \<Rightarrow> bool" where
  "valid_sha s \<longleftrightarrow> 7 \<le> length s \<and> length s \<le> 64 \<and> list_all (\<lambda>c. c \<in> set ''0123456789abcdef'') s"

definition make_subject :: "string \<Rightarrow> string \<Rightarrow> loop_exn + loop_subject" where
  "make_subject repo sha =
     (if valid_sha sha then Inr \<lparr>sj_repo = repo, sj_sha = sha\<rparr>
      else Inl (Other_exn (Raised ''ValidationError'' ''string_pattern_mismatch'')))"

text \<open>An effect reported by a provider: the fields the loop reads, absent or strings.\<close>

record effect_report =
  ef_subject_after_sha :: "string option"
  ef_effect_digest :: "string option"
  ef_consequence :: dict

record actuation_entry =
  ae_sequence :: nat
  ae_provider :: string
  ae_provider_execution_id :: string
  ae_pinned_subject_sha :: string
  ae_declared_subject_after_sha :: string
  ae_effect_digest :: string
  ae_consequence :: dict
  ae_witness :: string

record execution_receipt =
  xr_work_order_id :: string
  xr_origin_authority :: authority_grant
  xr_transport :: string
  xr_capabilities :: "string list"
  xr_authority_ceiling :: string
  xr_receipt_protocol :: string
  xr_provider_execution_id :: string
  xr_exit_status :: string
  xr_subject_before :: loop_subject
  xr_subject_after :: loop_subject
  xr_commands :: "string list"
  xr_consequences :: "dict list"
  xr_effect_digest :: string
  xr_evidence_requirements :: "string list"
  xr_emitted_at_tick :: int
  xr_pinned_subject_sha :: string
  xr_durable_location :: string
  xr_idempotency_key :: string
  xr_outcome :: string
  xr_ocel_digest :: string
  xr_actuations :: "(actuation_entry \<times> string) list"

datatype loop_event_type =
    Execution_start | Execution_claim | Actuation | Execution_crash | Failure_detect
  | Reconcile_retry | Reconcile_replan | Provider_replace | Verification_event | Receipt_emit
  | Refuse_event | Typed_block_event

datatype loop_extra =
    Extra_json json
  | Extra_reason "loop_reason option"
  | Extra_term "broken_term option"

record loop_event =
  le_event_type :: loop_event_type
  le_tick :: int
  le_reason :: loop_reason
  le_outcome :: "string option"
  le_standing :: "standing option"
  le_provider :: "string option"
  le_extra :: "(string \<times> loop_extra) list"
  le_objects :: "(string \<times> string) list"

record loop_result =
  lr_outcome :: string
  lr_standing :: standing
  lr_episode_standing :: episode_standing
  lr_receipt :: "execution_receipt option"
  lr_typed_reason :: "loop_reason option"
  lr_broken_term :: "broken_term option"
  lr_actuation_count :: nat
  lr_actuations :: "actuation_entry list"
  lr_events :: "loop_event list"

section \<open>Collaborators and state\<close>

type_synonym ('w, 'a) outside = "'w \<Rightarrow> (loop_exn + 'a) \<times> 'w"

record 'w loop_provider =
  lp_capabilities :: "string list"
  lp_transport :: string
  lp_availability :: "'w \<Rightarrow> bool"
  lp_authority_ceiling :: string
  lp_receipt_protocol :: string
  lp_current_subject_sha :: "string \<Rightarrow> ('w, string) outside"
  lp_resolve_subject :: "string \<Rightarrow> ('w, loop_subject) outside"
  lp_claim :: "execution_request \<Rightarrow> ('w, claim_pin) outside"
  lp_execute :: "execution_request \<Rightarrow> string \<Rightarrow> ('w, effect_report) outside"
  lp_fetch_receipt :: "string \<Rightarrow> ('w, effect_report option) outside"
  lp_ack :: "execution_receipt \<Rightarrow> ('w, unit) outside"

text \<open>\<open>lc_events_digest\<close> is \<open>digest\<close> of the dumped events, \<open>lc_request_digest\<close> of the request.\<close>

record 'w loop_config =
  lc_providers :: "'w loop_provider list"
  lc_verify :: "loop_subject \<Rightarrow> string \<Rightarrow> execution_request \<Rightarrow> ('w, bool \<times> string) outside"
  lc_is_valid :: "authority_grant \<Rightarrow> 'w \<Rightarrow> bool"
  lc_disk_mb_available :: "'w \<Rightarrow> int"
  lc_cpu_cores_available :: "'w \<Rightarrow> rat"
  lc_now :: "'w \<Rightarrow> int"
  lc_advance :: "int \<Rightarrow> 'w \<Rightarrow> 'w"
  lc_events_digest :: "loop_event list \<Rightarrow> string"
  lc_request_digest :: "execution_request \<Rightarrow> string"

record 'w loop_state =
  lt_world :: 'w
  lt_events :: "loop_event list"
  lt_actuations :: "actuation_entry list"
  lt_completed :: "string \<rightharpoonup> string \<times> execution_receipt"
  lt_unreconciled ::
    "string \<rightharpoonup> string \<times> loop_reason option \<times> broken_term option \<times> actuation_entry list"

definition new_loop :: "'w \<Rightarrow> 'w loop_state" where
  "new_loop w = \<lparr>lt_world = w, lt_events = [], lt_actuations = [], lt_completed = (\<lambda>_. None),
     lt_unreconciled = (\<lambda>_. None)\<rparr>"

text \<open>The constructor refuses an empty sequence of providers.\<close>

definition make_loop :: "'w loop_config \<Rightarrow> 'w \<Rightarrow> loop_exn + 'w loop_state" where
  "make_loop cfg w =
     (if lc_providers cfg = []
      then Inl (Other_exn (Raised ''LoopBudgetExceeded'' ''AutonomousLoop requires at least one provider''))
      else Inr (new_loop w))"

text \<open>A call of a collaborator, the clock, and \<open>advance\<close>.\<close>

definition outside :: "('w, 'a) outside \<Rightarrow> 'w loop_state \<Rightarrow> (loop_exn + 'a) \<times> 'w loop_state" where
  "outside f st = (case f (lt_world st) of (x, w) \<Rightarrow> (x, st\<lparr>lt_world := w\<rparr>))"

definition now :: "'w loop_config \<Rightarrow> 'w loop_state \<Rightarrow> int" where
  "now cfg st = lc_now cfg (lt_world st)"

definition advance :: "'w loop_config \<Rightarrow> int \<Rightarrow> 'w loop_state \<Rightarrow> 'w loop_state" where
  "advance cfg ticks st = st\<lparr>lt_world := lc_advance cfg ticks (lt_world st)\<rparr>"

section \<open>Events and results\<close>

definition draft :: "loop_event_type \<Rightarrow> loop_reason \<Rightarrow> loop_event" where
  "draft t reason =
     \<lparr>le_event_type = t, le_tick = 0, le_reason = reason, le_outcome = None, le_standing = None,
      le_provider = None, le_extra = [], le_objects = []\<rparr>"

definition event_objects ::
    "'w loop_config \<Rightarrow> execution_request \<Rightarrow> string option \<Rightarrow> (string \<times> string) list" where
  "event_objects cfg req provider =
     [(''subject'', sj_repo (rq_subject req) @ ''@'' @ take 12 (sj_sha (rq_subject req))),
      (''originAuthority'', ag_grant (rq_authority req) @ '':'' @ ag_actor (rq_authority req)),
      (''provider'', (case provider of None \<Rightarrow> lp_transport (hd (lc_providers cfg)) | Some p \<Rightarrow> p)),
      (''worker'', rq_work_order req)]"

definition emit ::
    "'w loop_config \<Rightarrow> execution_request \<Rightarrow> loop_event \<Rightarrow> 'w loop_state \<Rightarrow> 'w loop_state" where
  "emit cfg req d st =
     st\<lparr>lt_events := lt_events st @
       [d\<lparr>le_tick := now cfg st, le_objects := event_objects cfg req (le_provider d)\<rparr>]\<rparr>"

definition result_of ::
    "legal_outcome \<Rightarrow> standing \<Rightarrow> episode_standing \<Rightarrow> execution_receipt option \<Rightarrow>
     loop_reason option \<Rightarrow> broken_term option \<Rightarrow> 'w loop_state \<Rightarrow> loop_result" where
  "result_of outcome standing episode receipt reason broken st =
     \<lparr>lr_outcome = outcome_value outcome, lr_standing = standing, lr_episode_standing = episode,
      lr_receipt = receipt, lr_typed_reason = reason, lr_broken_term = broken,
      lr_actuation_count = length (lt_actuations st), lr_actuations = lt_actuations st,
      lr_events = lt_events st\<rparr>"

definition refuse ::
    "'w loop_config \<Rightarrow> execution_request \<Rightarrow> loop_reason \<Rightarrow> episode_standing \<Rightarrow> broken_term \<Rightarrow>
     (string \<times> loop_extra) list \<Rightarrow> 'w loop_state \<Rightarrow> loop_result \<times> 'w loop_state" where
  "refuse cfg req reason episode broken extra st =
     (let st1 = emit cfg req ((draft Refuse_event reason)\<lparr>le_outcome := Some (outcome_value Refuse),
            le_standing := Some REFUSED, le_extra := extra\<rparr>) st
      in (result_of Refuse REFUSED episode None (Some reason) (Some broken) st1, st1))"

definition typed_block ::
    "'w loop_config \<Rightarrow> execution_request \<Rightarrow> loop_reason \<Rightarrow> broken_term \<Rightarrow> 'w loop_state \<Rightarrow>
     loop_result \<times> 'w loop_state" where
  "typed_block cfg req reason broken st =
     (let st1 = emit cfg req ((draft Typed_block_event reason)\<lparr>
            le_outcome := Some (outcome_value Typed_block), le_standing := Some BLOCKED\<rparr>) st
      in (result_of Typed_block BLOCKED BLOCKED_INFORMATION None (Some reason) (Some broken) st1, st1))"

section \<open>Gates\<close>

definition ceiling_rank :: "string \<Rightarrow> nat option" where
  "ceiling_rank s = map_of [(''NONE'', 0), (''SELECT'', 1), (''CONSTRUCT'', 2), (''DO'', 3)] s"

definition upper :: "string \<Rightarrow> string" where
  "upper s = map (\<lambda>c. if 97 \<le> (of_char c :: nat) \<and> (of_char c :: nat) \<le> 122
     then char_of ((of_char c :: nat) - 32) else c) s"

definition ceiling_at_least :: "string \<Rightarrow> string \<Rightarrow> bool" where
  "ceiling_at_least observed required \<longleftrightarrow>
     (case ceiling_rank (upper observed) of None \<Rightarrow> 0 | Some n \<Rightarrow> n) \<ge>
     (case ceiling_rank (upper required) of None \<Rightarrow> 99 | Some n \<Rightarrow> n)"

definition capable :: "execution_request \<Rightarrow> 'w loop_provider \<Rightarrow> bool" where
  "capable req p \<longleftrightarrow>
     set (rq_capability_requirements req) \<subseteq> set (lp_capabilities p) \<and>
     ceiling_at_least (lp_authority_ceiling p) (ag_ceiling (rq_authority req))"

type_synonym 'w gate = "'w loop_state \<Rightarrow> loop_result option \<times> 'w loop_state"

abbreviation stop :: "loop_result \<times> 'w loop_state \<Rightarrow> loop_result option \<times> 'w loop_state" where
  "stop x \<equiv> (Some (fst x), snd x)"

definition grant_expired :: "execution_request \<Rightarrow> int \<Rightarrow> bool" where
  "grant_expired req tick \<longleftrightarrow>
     (case ag_expires_at_tick (rq_authority req) of None \<Rightarrow> False | Some t \<Rightarrow> t \<le> tick)"

definition expiry_gate :: "'w loop_config \<Rightarrow> execution_request \<Rightarrow> 'w gate" where
  "expiry_gate cfg req st =
     (if grant_expired req (now cfg st)
      then stop (refuse cfg req (Text ''REFUSED_CREDENTIAL_EXPIRED'') BLOCKED_AUTHORITY
        R_missing_authority [] st)
      else (None, st))"

definition authority_gate :: "'w loop_config \<Rightarrow> execution_request \<Rightarrow> 'w gate" where
  "authority_gate cfg req st =
     (if \<not> lc_is_valid cfg (rq_authority req) (lt_world st)
      then stop (refuse cfg req (Text ''REFUSED_NO_AUTHORITY'') BLOCKED_AUTHORITY
        R_missing_authority [] st)
      else expiry_gate cfg req st)"

definition feasibility_gate :: "'w loop_config \<Rightarrow> execution_request \<Rightarrow> 'w gate" where
  "feasibility_gate cfg req st =
     (if list_ex (capable req) (lc_providers cfg) then (None, st)
      else stop (refuse cfg req (Text ''REFUSED_IMPOSSIBLE_OBJECTIVE'') FAILED
        Impossible_objective [] st))"

definition resource_gate :: "'w loop_config \<Rightarrow> execution_request \<Rightarrow> 'w gate" where
  "resource_gate cfg req st =
     (let limits = rq_resource_constraints req;
          disk = lc_disk_mb_available cfg (lt_world st);
          cpu = lc_cpu_cores_available cfg (lt_world st)
      in if disk < int (lim_disk_budget_mb limits)
         then stop (typed_block cfg req (Disk_short disk (int (lim_disk_budget_mb limits)))
           Resource_exhausted st)
         else if cpu < lim_cpu_budget_cores limits
         then stop (typed_block cfg req (Cpu_short cpu (lim_cpu_budget_cores limits))
           Resource_exhausted st)
         else (None, st))"

text \<open>The two answers of \<open>_unreconciled_gate\<close> carry a literal zero count and no ledger.\<close>

definition without_ledger :: "loop_result \<Rightarrow> loop_result" where
  "without_ledger r = r\<lparr>lr_actuation_count := 0, lr_actuations := []\<rparr>"

definition unreconciled_gate :: "'w loop_config \<Rightarrow> execution_request \<Rightarrow> 'w gate" where
  "unreconciled_gate cfg req st =
     (case lt_unreconciled st (rq_idempotency_key req) of
        None \<Rightarrow> (None, st)
      | Some (prior_digest, prior_reason, prior_term, prior_ledger) \<Rightarrow>
          if prior_digest \<noteq> lc_request_digest cfg req
          then (case refuse cfg req (Text ''REFUSED_IDEMPOTENCY_KEY_CONFLICT'') FAILED Mu_on_O
                  [(''prior_actuation_count'', Extra_json (JInt (int (length prior_ledger))))] st of
                  (r, st1) \<Rightarrow> (Some (without_ledger r), st1))
          else
            (let st1 = emit cfg req ((draft Typed_block_event
                   (Text ''TYPED_BLOCK_PRIOR_ACTUATION_UNRECONCILED''))\<lparr>
                   le_outcome := Some (outcome_value Typed_block), le_standing := Some BLOCKED,
                   le_extra := [(''prior_reason'', Extra_reason prior_reason),
                     (''prior_broken_term'', Extra_term prior_term),
                     (''prior_actuation_count'', Extra_json (JInt (int (length prior_ledger)))),
                     (''prior_provider_execution_ids'',
                        Extra_json (strs_json (map ae_provider_execution_id prior_ledger)))]\<rparr>) st
             in (Some (without_ledger (result_of Typed_block BLOCKED BLOCKED_INFORMATION None
                   (Some (Text ''TYPED_BLOCK_PRIOR_ACTUATION_UNRECONCILED''))
                   (Some R_missing_consequence) st1)), st1)))"

definition dedupe_gate :: "'w loop_config \<Rightarrow> execution_request \<Rightarrow> 'w gate" where
  "dedupe_gate cfg req st =
     (case lt_completed st (rq_idempotency_key req) of
        None \<Rightarrow> unreconciled_gate cfg req st
      | Some (completed_digest, existing) \<Rightarrow>
          if completed_digest \<noteq> lc_request_digest cfg req
          then stop (refuse cfg req (Text ''REFUSED_IDEMPOTENCY_KEY_CONFLICT'') FAILED Mu_on_O
            [(''provider_execution_id'', Extra_json (JStr (xr_provider_execution_id existing)))] st)
          else
            (let st1 = emit cfg req ((draft Reconcile_retry
                   (Text ''DUPLICATE_WORK_ORDER_DEDUPLICATED''))\<lparr>
                   le_outcome := Some (outcome_value Recover), le_standing := Some ALIVE,
                   le_extra := [(''provider_execution_id'',
                     Extra_json (JStr (xr_provider_execution_id existing)))]\<rparr>) st
             in (Some (result_of Recover ALIVE AUTONOMOUS (Some existing) None None st1), st1)))"

fun first_block :: "'w gate list \<Rightarrow> 'w gate" where
  "first_block [] st = (None, st)"
| "first_block (gate # gates) st =
     (case gate st of
        (Some r, st1) \<Rightarrow> (Some r, st1)
      | (None, st1) \<Rightarrow> first_block gates st1)"

definition run_gates :: "'w loop_config \<Rightarrow> execution_request \<Rightarrow> 'w gate" where
  "run_gates cfg req = first_block
     [authority_gate cfg req, feasibility_gate cfg req, resource_gate cfg req, dedupe_gate cfg req]"

section \<open>Steps of the loop\<close>

text \<open>The local variables of \<open>_run\<close>.\<close>

record loop_vars =
  lv_subject_before :: loop_subject
  lv_switches :: nat
  lv_attempts :: nat
  lv_moves :: nat
  lv_index :: nat
  lv_faults :: nat

text \<open>How one pass through the body ends: an escaping exception, \<open>return\<close>, or \<open>continue\<close>.\<close>

datatype pass = Escaped loop_exn | Returned loop_result | Continue loop_vars

type_synonym 'w body = "'w loop_state \<Rightarrow> pass \<times> 'w loop_state"

abbreviation returning :: "loop_result \<times> 'w loop_state \<Rightarrow> pass \<times> 'w loop_state" where
  "returning x \<equiv> (Returned (fst x), snd x)"

text \<open>A call whose exception nobody catches.\<close>

definition calling :: "('w, 'a) outside \<Rightarrow> ('a \<Rightarrow> 'w body) \<Rightarrow> 'w body" where
  "calling f k st =
     (case outside f st of
        (Inl e, st1) \<Rightarrow> (Escaped e, st1)
      | (Inr x, st1) \<Rightarrow> k x st1)"

text \<open>\<open>_next_capable_index(request, start)\<close>, with \<open>start + 1\<close> as the argument.\<close>

definition next_capable_index ::
    "'w loop_config \<Rightarrow> execution_request \<Rightarrow> nat \<Rightarrow> 'w loop_state \<Rightarrow> nat option" where
  "next_capable_index cfg req from st =
     find (\<lambda>i. lp_availability (lc_providers cfg ! i) (lt_world st) \<and> capable req (lc_providers cfg ! i))
       [from..<length (lc_providers cfg)]"

definition resolve_fresh ::
    "'w loop_config \<Rightarrow> execution_request \<Rightarrow> (loop_subject \<Rightarrow> 'w body) \<Rightarrow> 'w body" where
  "resolve_fresh cfg req k st =
     (case outside (lp_resolve_subject (hd (lc_providers cfg)) (sj_repo (rq_subject req))) st of
        (Inl e, st1) \<Rightarrow>
          (case as_fault e of
             None \<Rightarrow> (Escaped e, st1)
           | Some (kind, _) \<Rightarrow>
               returning (typed_block cfg req (Text ''TYPED_BLOCK_SUBJECT_UNRESOLVABLE'')
                 R_missing_identity (emit cfg req (draft Failure_detect (Text kind)) st1)))
      | (Inr fresh, st1) \<Rightarrow>
          k fresh (if sj_sha fresh \<noteq> sj_sha (rq_subject req)
            then emit cfg req ((draft Reconcile_replan
                   (Stale_sha (take 12 (sj_sha (rq_subject req))) (take 12 (sj_sha fresh))))\<lparr>
                   le_outcome := Some (outcome_value Replan)\<rparr>) st1
            else st1))"

definition record_actuation ::
    "'w loop_config \<Rightarrow> execution_request \<Rightarrow> 'w loop_provider \<Rightarrow> claim_pin \<Rightarrow> effect_report \<Rightarrow>
     string \<Rightarrow> 'w loop_state \<Rightarrow> 'w loop_state" where
  "record_actuation cfg req p pin effect witness st =
     (let n = length (lt_actuations st) + 1;
          entry = \<lparr>ae_sequence = n, ae_provider = lp_transport p,
            ae_provider_execution_id = pn_provider_execution_id pin,
            ae_pinned_subject_sha = pn_pinned_subject_sha pin,
            ae_declared_subject_after_sha =
              (case ef_subject_after_sha effect of None \<Rightarrow> [] | Some s \<Rightarrow> s),
            ae_effect_digest = (case ef_effect_digest effect of None \<Rightarrow> [] | Some d \<Rightarrow> d),
            ae_consequence = ef_consequence effect, ae_witness = witness\<rparr>
      in emit cfg req ((draft Actuation (Actuation_witnessed n witness))\<lparr>
           le_provider := Some (lp_transport p),
           le_extra := [(''provider_execution_id'', Extra_json (JStr (pn_provider_execution_id pin))),
             (''sequence'', Extra_json (JInt (int n)))]\<rparr>)
           (st\<lparr>lt_actuations := lt_actuations st @ [entry]\<rparr>))"

definition subject_attributable :: "string \<Rightarrow> claim_pin \<Rightarrow> effect_report \<Rightarrow> bool" where
  "subject_attributable observed pin effect \<longleftrightarrow>
     observed = pn_pinned_subject_sha pin \<or> ef_subject_after_sha effect = Some observed"

definition digest_missing :: "effect_report \<Rightarrow> bool" where
  "digest_missing effect \<longleftrightarrow> ef_effect_digest effect = None \<or> ef_effect_digest effect = Some []"

definition effect_digest_text :: "effect_report \<Rightarrow> string" where
  "effect_digest_text effect = (case ef_effect_digest effect of None \<Rightarrow> [] | Some d \<Rightarrow> d)"

definition build_receipt ::
    "'w loop_config \<Rightarrow> execution_request \<Rightarrow> 'w loop_provider \<Rightarrow> claim_pin \<Rightarrow> loop_subject \<Rightarrow>
     effect_report \<Rightarrow> legal_outcome \<Rightarrow> string \<Rightarrow> 'w loop_state \<Rightarrow> loop_exn + execution_receipt"
  where
  "build_receipt cfg req p pin subject_before effect outcome observed_after_sha st =
     (case make_subject (sj_repo (rq_subject req)) observed_after_sha of
        Inl e \<Rightarrow> Inl e
      | Inr subject_after \<Rightarrow>
          (let ledger = map (\<lambda>(index, entry).
                 (entry, if ae_provider_execution_id entry = pn_provider_execution_id pin \<and>
                            index + 1 = length (lt_actuations st) then ''admitted'' else ''superseded''))
                 (enumerate 0 (lt_actuations st))
           in Inr \<lparr>xr_work_order_id = rq_work_order req, xr_origin_authority = rq_authority req,
             xr_transport = lp_transport p, xr_capabilities = lp_capabilities p,
             xr_authority_ceiling = lp_authority_ceiling p,
             xr_receipt_protocol = lp_receipt_protocol p,
             xr_provider_execution_id = pn_provider_execution_id pin,
             xr_exit_status = (if outcome = Recover then ''success'' else outcome_value outcome),
             xr_subject_before = subject_before, xr_subject_after = subject_after,
             xr_commands = map (\<lambda>(entry, disposition).
               ''execute('' @ rq_work_order req @ '') via '' @ ae_provider entry @ '' as '' @
               ae_provider_execution_id entry @ '' ['' @ disposition @ '']'') ledger,
             xr_consequences = map (ae_consequence \<circ> fst) ledger,
             xr_effect_digest = effect_digest_text effect,
             xr_evidence_requirements = rq_evidence_requirements req,
             xr_emitted_at_tick = now cfg st, xr_pinned_subject_sha = pn_pinned_subject_sha pin,
             xr_durable_location = lp_receipt_protocol p @ ''://'' @ lp_transport p @ ''/'' @
               pn_provider_execution_id pin,
             xr_idempotency_key = rq_idempotency_key req, xr_outcome = outcome_value outcome,
             xr_ocel_digest = lc_events_digest cfg (lt_events st), xr_actuations = ledger\<rparr>))"

text \<open>Storing the receipt, the closing event and the ALIVE result, common to both paths.\<close>

definition admit_receipt ::
    "'w loop_config \<Rightarrow> execution_request \<Rightarrow> 'w loop_provider \<Rightarrow> execution_receipt \<Rightarrow> string \<Rightarrow>
     'w loop_state \<Rightarrow> loop_result \<times> 'w loop_state" where
  "admit_receipt cfg req p receipt reason st =
     (let st1 = emit cfg req ((draft Receipt_emit (Text reason))\<lparr>
            le_outcome := Some (outcome_value Recover), le_standing := Some ALIVE,
            le_provider := Some (lp_transport p)\<rparr>)
            (st\<lparr>lt_completed := (lt_completed st)(rq_idempotency_key req \<mapsto>
                  (lc_request_digest cfg req, receipt))\<rparr>)
      in (result_of Recover ALIVE AUTONOMOUS (Some receipt) None None st1, st1))"

section \<open>Faults\<close>

text \<open>The substitution of the provider, the same code after a claim and after an execute fault.\<close>

definition substitute ::
    "'w loop_config \<Rightarrow> execution_request \<Rightarrow> string \<Rightarrow> loop_vars \<Rightarrow> 'w body" where
  "substitute cfg req kind v st =
     (case next_capable_index cfg req (lv_index v + 1) st of
        Some i \<Rightarrow>
          (if lv_switches v \<ge> lim_max_provider_switches (rq_resource_constraints req)
           then returning (typed_block cfg req (Text ''TYPED_BLOCK_PROVIDER_UNAVAILABLE'')
             Provider_unavailable st)
           else (Continue (v\<lparr>lv_switches := lv_switches v + 1, lv_faults := 0, lv_attempts := 0,
                   lv_index := i\<rparr>),
                 emit cfg req ((draft Provider_replace (Replace_after kind))\<lparr>
                   le_outcome := Some (outcome_value Substitute),
                   le_provider := Some (lp_transport (lc_providers cfg ! i))\<rparr>) st))
      | None \<Rightarrow> returning (typed_block cfg req (Text ''TYPED_BLOCK_PROVIDER_UNAVAILABLE'')
             Provider_unavailable st))"

definition back_off ::
    "'w loop_config \<Rightarrow> execution_request \<Rightarrow> 'w loop_provider \<Rightarrow> string \<Rightarrow> int \<Rightarrow> 'w loop_state \<Rightarrow>
     'w loop_state" where
  "back_off cfg req p kind ticks st =
     advance cfg ticks (emit cfg req ((draft Reconcile_retry (Backoff_after ticks kind))\<lparr>
       le_outcome := Some (outcome_value Recover), le_provider := Some (lp_transport p)\<rparr>) st)"

definition on_transport_fault ::
    "'w loop_config \<Rightarrow> execution_request \<Rightarrow> 'w loop_provider \<Rightarrow> string \<Rightarrow> int \<Rightarrow> nat \<Rightarrow>
     'w loop_state \<Rightarrow> 'w loop_state" where
  "on_transport_fault cfg req p kind ticks attempts st =
     emit cfg req ((draft Failure_detect (Backoff_scheduled kind))\<lparr>
       le_provider := Some (lp_transport p)\<rparr>)
       (if kind = ''rate_limit'' then advance cfg (min (2 ^ attempts) 8 * ticks) st else st)"

definition claim_fault ::
    "'w loop_config \<Rightarrow> execution_request \<Rightarrow> 'w loop_provider \<Rightarrow> string \<Rightarrow> int \<Rightarrow> loop_vars \<Rightarrow>
     'w body" where
  "claim_fault cfg req p kind ticks v0 st =
     (let v = v0\<lparr>lv_faults := lv_faults v0 + 1\<rparr>;
          st1 = on_transport_fault cfg req p kind ticks (lv_attempts v) st
      in if lv_faults v \<le> lim_max_retries (rq_resource_constraints req)
         then (Continue v, back_off cfg req p kind ticks st1)
         else substitute cfg req kind v st1)"

definition execute_fault ::
    "'w loop_config \<Rightarrow> execution_request \<Rightarrow> 'w loop_provider \<Rightarrow> string \<Rightarrow> int \<Rightarrow> loop_vars \<Rightarrow>
     'w body" where
  "execute_fault cfg req p kind ticks v0 st =
     (let v = v0\<lparr>lv_faults := lv_faults v0 + 1\<rparr>;
          st1 = emit cfg req ((draft Failure_detect (Text kind))\<lparr>le_provider := Some (lp_transport p)\<rparr>) st
      in if lv_faults v > lim_max_retries (rq_resource_constraints req)
         then substitute cfg req kind v st1
         else (Continue v, back_off cfg req p kind ticks st1))"

section \<open>Admission of an effect\<close>

text \<open>A subject that moved: a bounded number of replans, then a block.\<close>

definition replan ::
    "'w loop_config \<Rightarrow> execution_request \<Rightarrow> 'w loop_provider \<Rightarrow> loop_reason \<Rightarrow> loop_reason \<Rightarrow>
     broken_term \<Rightarrow> loop_vars \<Rightarrow> (loop_vars \<Rightarrow> 'w body) \<Rightarrow> 'w body" where
  "replan cfg req p reason blocked broken v0 k st =
     (let v = v0\<lparr>lv_moves := lv_moves v0 + 1\<rparr>
      in if lv_moves v > lim_max_subject_moves (rq_resource_constraints req)
         then returning (typed_block cfg req blocked broken st)
         else k v (emit cfg req ((draft Reconcile_replan reason)\<lparr>
                le_outcome := Some (outcome_value Replan), le_provider := Some (lp_transport p)\<rparr>) st))"

definition verification_event ::
    "'w loop_config \<Rightarrow> execution_request \<Rightarrow> 'w loop_provider \<Rightarrow> loop_reason \<Rightarrow> bool \<Rightarrow>
     'w loop_state \<Rightarrow> 'w loop_state" where
  "verification_event cfg req p reason verified =
     emit cfg req ((draft Verification_event reason)\<lparr>
       le_standing := Some (if verified then ALIVE else BLOCKED),
       le_provider := Some (lp_transport p)\<rparr>)"

definition verification_failed ::
    "'w loop_config \<Rightarrow> execution_request \<Rightarrow> string \<Rightarrow> 'w body" where
  "verification_failed cfg req why st =
     returning (typed_block cfg req (Verification_block why) Verification_failed st)"

definition effect_digest_missing :: "'w loop_config \<Rightarrow> execution_request \<Rightarrow> 'w body" where
  "effect_digest_missing cfg req st =
     returning (typed_block cfg req (Text ''TYPED_BLOCK_EFFECT_DIGEST_MISSING'')
       R_missing_consequence st)"

text \<open>\<open>SubjectRef(repo=..., sha=...)\<close> in the body.\<close>

definition with_subject ::
    "execution_request \<Rightarrow> string \<Rightarrow> (loop_subject \<Rightarrow> 'w body) \<Rightarrow> 'w body" where
  "with_subject req sha k st =
     (case make_subject (sj_repo (rq_subject req)) sha of
        Inl e \<Rightarrow> (Escaped e, st)
      | Inr subject \<Rightarrow> k subject st)"

text \<open>The crash after actuation: \<open>_verify_effect\<close> is the part from the digest check on.\<close>

definition verify_effect ::
    "'w loop_config \<Rightarrow> execution_request \<Rightarrow> 'w loop_provider \<Rightarrow> effect_report \<Rightarrow> 'w body \<Rightarrow> 'w body"
  where
  "verify_effect cfg req p effect admitted st =
     (if digest_missing effect then effect_digest_missing cfg req st
      else calling (lp_current_subject_sha p (sj_repo (rq_subject req))) (\<lambda>observed_sha.
        with_subject req observed_sha (\<lambda>subject.
          calling (lc_verify cfg subject (effect_digest_text effect) req) (\<lambda>(verified, why) st1.
            let st2 = verification_event cfg req p (Journal_verdict why) verified st1
            in if \<not> verified then verification_failed cfg req why st2 else admitted st2))) st)"

definition finish_receipt ::
    "'w loop_config \<Rightarrow> execution_request \<Rightarrow> 'w loop_provider \<Rightarrow> claim_pin \<Rightarrow> effect_report \<Rightarrow>
     string \<Rightarrow> loop_vars \<Rightarrow> (execution_receipt \<Rightarrow> 'w body) \<Rightarrow> 'w body" where
  "finish_receipt cfg req p pin effect sha v k st =
     (let st1 = advance cfg 1 st
      in case build_receipt cfg req p pin (lv_subject_before v) effect Recover sha st1 of
           Inl e \<Rightarrow> (Escaped e, st1)
         | Inr receipt \<Rightarrow> k receipt st1)"

definition journal_path ::
    "'w loop_config \<Rightarrow> execution_request \<Rightarrow> 'w loop_provider \<Rightarrow> claim_pin \<Rightarrow> loop_vars \<Rightarrow> 'w body"
  where
  "journal_path cfg req p pin v =
     calling (lp_fetch_receipt p (pn_provider_execution_id pin)) (\<lambda>fragment st.
       case fragment of
         None \<Rightarrow> returning (typed_block cfg req (Text ''TYPED_BLOCK_RECEIPT_LOST'')
           R_missing_consequence st)
       | Some effect \<Rightarrow>
           calling (lp_current_subject_sha p (sj_repo (rq_subject req))) (\<lambda>journal_sha.
             if \<not> subject_attributable journal_sha pin effect
             then replan cfg req p
               (Moved_after_journal (take 12 (pn_pinned_subject_sha pin)) (take 12 journal_sha))
               (Text ''TYPED_BLOCK_MOVING_SUBJECT'') Subject_unstable v
               (\<lambda>v'. resolve_fresh cfg req (\<lambda>_ st'. (Continue v', st')))
             else verify_effect cfg req p effect
               (finish_receipt cfg req p pin effect journal_sha v (\<lambda>receipt st'.
                 returning (admit_receipt cfg req p receipt ''reconstructed from provider journal'' st'))))
           (record_actuation cfg req p pin effect ''provider journal'' st))"

text \<open>The verification loop; the first argument is the number of retries left.\<close>

fun verify_retry ::
    "'w loop_config \<Rightarrow> execution_request \<Rightarrow> 'w loop_provider \<Rightarrow> loop_subject \<Rightarrow> string \<Rightarrow> nat \<Rightarrow> nat \<Rightarrow>
     bool \<times> string \<Rightarrow> 'w loop_state \<Rightarrow> (loop_exn + (bool \<times> string)) \<times> 'w loop_state" where
  "verify_retry cfg req p subject effect_dig 0 done (verified, why) st = (Inr (verified, why), st)"
| "verify_retry cfg req p subject effect_dig (Suc left) done (verified, why) st =
     (if verified then (Inr (verified, why), st)
      else
        (let st1 = advance cfg 1 (emit cfg req
               ((draft Failure_detect (Verifier_rejected why (done + 1)))\<lparr>
                 le_provider := Some (lp_transport p)\<rparr>) st)
         in case outside (lc_verify cfg subject effect_dig req) st1 of
              (Inl e, st2) \<Rightarrow> (Inl e, st2)
            | (Inr verdict, st2) \<Rightarrow>
                verify_retry cfg req p subject effect_dig left (done + 1) verdict st2))"

definition ack_receipt ::
    "'w loop_config \<Rightarrow> execution_request \<Rightarrow> 'w loop_provider \<Rightarrow> claim_pin \<Rightarrow> execution_receipt \<Rightarrow> 'w body"
  where
  "ack_receipt cfg req p pin receipt st =
     (case outside (lp_ack p receipt) st of
        (Inr _, st1) \<Rightarrow> returning (admit_receipt cfg req p receipt ''verified'' st1)
      | (Inl e, st1) \<Rightarrow>
          (case as_fault e of
             None \<Rightarrow> (Escaped e, st1)
           | Some _ \<Rightarrow>
               calling (lp_fetch_receipt p (pn_provider_execution_id pin)) (\<lambda>durable st2.
                 let st3 = emit cfg req ((draft Reconcile_retry (Text (if durable \<noteq> None
                        then ''ACK lost; receipt recovered via replay binding''
                        else ''ACK lost; receipt retained loop-side via replay binding'')))\<lparr>
                        le_outcome := Some (outcome_value Recover),
                        le_provider := Some (lp_transport p)\<rparr>) st2
                 in returning (admit_receipt cfg req p receipt ''verified'' st3)) st1))"

definition post_verify ::
    "'w loop_config \<Rightarrow> execution_request \<Rightarrow> 'w loop_provider \<Rightarrow> claim_pin \<Rightarrow> effect_report \<Rightarrow> string \<Rightarrow>
     loop_vars \<Rightarrow> 'w body" where
  "post_verify cfg req p pin effect observed_sha v =
     calling (lp_current_subject_sha p (sj_repo (rq_subject req))) (\<lambda>post_sha.
       if post_sha \<noteq> observed_sha
       then replan cfg req p (Text ''silent external state mutation detected post-verify'')
         (Text ''TYPED_BLOCK_SILENT_MUTATION'') Subject_stale v (\<lambda>v' st'. (Continue v', st'))
       else finish_receipt cfg req p pin effect post_sha v (ack_receipt cfg req p pin))"

definition live_path ::
    "'w loop_config \<Rightarrow> execution_request \<Rightarrow> 'w loop_provider \<Rightarrow> claim_pin \<Rightarrow> effect_report \<Rightarrow>
     loop_vars \<Rightarrow> 'w body" where
  "live_path cfg req p pin effect v =
     calling (lp_current_subject_sha p (sj_repo (rq_subject req))) (\<lambda>observed_sha.
       if \<not> subject_attributable observed_sha pin effect
       then replan cfg req p (Moved_sha (take 12 (pn_pinned_subject_sha pin)) (take 12 observed_sha))
         (Text ''TYPED_BLOCK_MOVING_SUBJECT'') Subject_unstable v
         (\<lambda>v'. with_subject req (pn_pinned_subject_sha pin) (\<lambda>before.
            resolve_fresh cfg req (\<lambda>_ st'. (Continue (v'\<lparr>lv_subject_before := before\<rparr>), st'))))
       else if digest_missing effect then effect_digest_missing cfg req
       else with_subject req observed_sha (\<lambda>subject.
         calling (lc_verify cfg subject (effect_digest_text effect) req) (\<lambda>verdict st1.
           case verify_retry cfg req p subject (effect_digest_text effect)
                  (lim_max_retries (rq_resource_constraints req)) 0 verdict st1 of
             (Inl e, st2) \<Rightarrow> (Escaped e, st2)
           | (Inr (verified, why), st2) \<Rightarrow>
               (let st3 = verification_event cfg req p (Text why) verified st2
                in if \<not> verified then verification_failed cfg req why st3
                   else post_verify cfg req p pin effect observed_sha v st3))))"

section \<open>The loop\<close>

definition crash_path ::
    "'w loop_config \<Rightarrow> execution_request \<Rightarrow> 'w loop_provider \<Rightarrow> claim_pin \<Rightarrow> bool \<Rightarrow> string \<Rightarrow>
     loop_vars \<Rightarrow> 'w body" where
  "crash_path cfg req p pin applied point v st =
     (let st1 = emit cfg req ((draft Execution_crash (Killed_at point))\<lparr>
            le_provider := Some (lp_transport p)\<rparr>) st;
          st2 = emit cfg req ((draft Failure_detect (Text ''lease/liveness loss detected''))\<lparr>
            le_provider := Some (lp_transport p)\<rparr>) st1
      in if applied then journal_path cfg req p pin v st2
         else (Continue v, advance cfg 1 (emit cfg req
                ((draft Reconcile_retry (Text ''crash before actuation; retrying''))\<lparr>
                  le_outcome := Some (outcome_value Recover),
                  le_provider := Some (lp_transport p)\<rparr>) st2)))"

definition execute_step ::
    "'w loop_config \<Rightarrow> execution_request \<Rightarrow> 'w loop_provider \<Rightarrow> claim_pin \<Rightarrow> loop_vars \<Rightarrow> 'w body"
  where
  "execute_step cfg req p pin v st =
     (case outside (lp_execute p req (pn_provider_execution_id pin)) st of
        (Inr effect, st1) \<Rightarrow>
          live_path cfg req p pin effect v (record_actuation cfg req p pin effect ''execute'' st1)
      | (Inl (Worker_crashed applied point), st1) \<Rightarrow> crash_path cfg req p pin applied point v st1
      | (Inl (Transport_fault kind ticks applied), st1) \<Rightarrow> execute_fault cfg req p kind ticks v st1
      | (Inl (Other_exn e), st1) \<Rightarrow> (Escaped (Other_exn e), st1))"

definition loop_pass :: "'w loop_config \<Rightarrow> execution_request \<Rightarrow> loop_vars \<Rightarrow> 'w body" where
  "loop_pass cfg req v0 st =
     (let limits = rq_resource_constraints req
      in if lv_attempts v0 > lim_max_retries limits \<or> now cfg st \<ge> int (lim_deadline_ticks limits)
      then returning (typed_block cfg req (Text ''TYPED_BLOCK_BUDGET_EXHAUSTED'')
        Provider_unavailable st)
      else (case expiry_gate cfg req st of
          (Some r, st1) \<Rightarrow> (Returned r, st1)
        | (None, st1) \<Rightarrow>
            (let v = v0\<lparr>lv_attempts := lv_attempts v0 + 1\<rparr>; p = lc_providers cfg ! lv_index v
             in case outside (lp_claim p req) st1 of
                  (Inl e, st2) \<Rightarrow>
                    (case as_fault e of
                       None \<Rightarrow> (Escaped e, st2)
                     | Some (kind, ticks) \<Rightarrow> claim_fault cfg req p kind ticks v st2)
                | (Inr pin, st2) \<Rightarrow>
                    (let st3 = emit cfg req ((draft Execution_claim
                           (Claimed (pn_provider_execution_id pin)
                             (take 12 (pn_pinned_subject_sha pin))))\<lparr>
                           le_provider := Some (lp_transport p)\<rparr>) st2
                     in case expiry_gate cfg req st3 of
                          (Some r, st4) \<Rightarrow> (Returned r, st4)
                        | (None, st4) \<Rightarrow> execute_step cfg req p pin v st4))))"

fun run_passes ::
    "nat \<Rightarrow> 'w loop_config \<Rightarrow> execution_request \<Rightarrow> loop_vars \<Rightarrow> 'w loop_state \<Rightarrow>
     ((loop_exn + loop_result) \<times> 'w loop_state) option" where
  "run_passes 0 cfg req v st = None"
| "run_passes (Suc fuel) cfg req v st =
     (case loop_pass cfg req v st of
        (Escaped e, st1) \<Rightarrow> Some (Inl e, st1)
      | (Returned r, st1) \<Rightarrow> Some (Inr r, st1)
      | (Continue v', st1) \<Rightarrow> run_passes fuel cfg req v' st1)"

definition run_body ::
    "nat \<Rightarrow> 'w loop_config \<Rightarrow> execution_request \<Rightarrow> 'w loop_state \<Rightarrow>
     ((loop_exn + loop_result) \<times> 'w loop_state) option" where
  "run_body fuel cfg req st0 =
     (case run_gates cfg req (st0\<lparr>lt_events := [], lt_actuations := []\<rparr>) of
        (Some r, st1) \<Rightarrow> Some (Inr r, st1)
      | (None, st1) \<Rightarrow>
          (let st2 = emit cfg req ((draft Execution_start (Text []))\<lparr>le_standing := Some UNKNOWN\<rparr>) st1
           in case resolve_fresh cfg req (\<lambda>subject st3.
                case next_capable_index cfg req 0 st3 of
                  None \<Rightarrow> returning (typed_block cfg req (Text ''TYPED_BLOCK_DEPENDENCY_OUTAGE'')
                    Dependency_outage st3)
                | Some i \<Rightarrow> (Continue \<lparr>lv_subject_before = subject, lv_switches = 0, lv_attempts = 0,
                    lv_moves = 0, lv_index = i, lv_faults = 0\<rparr>, st3)) st2 of
                (Escaped e, st4) \<Rightarrow> Some (Inl e, st4)
              | (Returned r, st4) \<Rightarrow> Some (Inr r, st4)
              | (Continue v, st4) \<Rightarrow> run_passes fuel cfg req v st4))"

text \<open>
  The number of passes \<open>_run\<close> can take: every pass is an attempt, a substitution starts a fresh
  attempt budget, and substitutions are bounded (\<open>run_passes_total\<close> below).
\<close>

definition pass_bound :: "execution_request \<Rightarrow> nat" where
  "pass_bound req =
     (lim_max_retries (rq_resource_constraints req) + 1) *
     (lim_max_provider_switches (rq_resource_constraints req) + 1) + 1"

definition run_request ::
    "'w loop_config \<Rightarrow> execution_request \<Rightarrow> 'w loop_state \<Rightarrow>
     ((loop_exn + loop_result) \<times> 'w loop_state) option" where
  "run_request cfg req st =
     (case run_body (pass_bound req) cfg req st of
        None \<Rightarrow> None
      | Some (Inl e, st1) \<Rightarrow> Some (Inl e, st1)
      | Some (Inr r, st1) \<Rightarrow>
          Some (Inr r,
            if lr_receipt r = None \<and> lr_actuation_count r > 0
            then st1\<lparr>lt_unreconciled := (lt_unreconciled st1)(rq_idempotency_key req \<mapsto>
                   (lc_request_digest cfg req, lr_typed_reason r, lr_broken_term r,
                    lr_actuations r))\<rparr>
            else st1))"

section \<open>Standing transitions and the event log\<close>

text \<open>\<open>EpisodeStanding.transition\<close>.\<close>

definition standing_transition ::
    "episode_standing \<Rightarrow> episode_standing \<Rightarrow> loop_exn + episode_standing" where
  "standing_transition before after =
     (if before = ASSISTED \<and> after = AUTONOMOUS
      then Inl (Other_exn (Raised ''LoopBudgetExceeded''
        ''illegal standing transition ASSISTED -> AUTONOMOUS is forbidden''))
      else Inr after)"

fun event_type_value :: "loop_event_type \<Rightarrow> string" where
  "event_type_value Execution_start = ''execution.start''"
| "event_type_value Execution_claim = ''execution.claim''"
| "event_type_value Actuation = ''actuation''"
| "event_type_value Execution_crash = ''execution.crash''"
| "event_type_value Failure_detect = ''failure.detect''"
| "event_type_value Reconcile_retry = ''reconcile.retry''"
| "event_type_value Reconcile_replan = ''reconcile.replan''"
| "event_type_value Provider_replace = ''provider.replace''"
| "event_type_value Verification_event = ''verification''"
| "event_type_value Receipt_emit = ''receipt.emit''"
| "event_type_value Refuse_event = ''refuse''"
| "event_type_value Typed_block_event = ''typed.block''"

text \<open>
  The type and object sections of \<open>loop_log\<close>: names of event types, names of object types,
  relationships of each event, objects. Times, ids and attribute texts are left out.
\<close>

record loop_log =
  ll_event_types :: "string list"
  ll_object_types :: "string list"
  ll_relationships :: "(string \<times> string) list list"
  ll_objects :: "(string \<times> string) list"

definition log_objects :: "loop_event list \<Rightarrow> (string \<times> string) list" where
  "log_objects events =
     fold (\<lambda>key keys. if key \<in> set keys then keys else keys @ [key])
       (concat (map le_objects events)) []"

definition loop_log_sections :: "loop_result list \<Rightarrow> loop_log" where
  "loop_log_sections results =
     (let events = concat (map lr_events results); objects = log_objects events
      in \<lparr>ll_event_types = sort (remdups (map (event_type_value \<circ> le_event_type) events)),
          ll_object_types = sort (map snd objects),
          ll_relationships = map (\<lambda>e. sort_key fst (le_objects e)) events,
          ll_objects = sort_key snd (sort_key fst objects)\<rparr>)"

end
