(* ===== verification/Loop_Facts.thy ===== *)
theory Loop_Facts
  imports Execution_Loop "HOL-Library.Sublist"
begin

text \<open>
  What one run of the loop keeps and why it ends. \<open>kept n\<close> says that events and actuations
  only grow, by at most \<open>n\<close> actuations, and that the two memories are untouched; a body of the
  loop is judged by \<open>body_ok\<close> against the state it started in.
\<close>

section \<open>Growth\<close>

definition kept :: "nat \<Rightarrow> 'w loop_state \<Rightarrow> 'w loop_state \<Rightarrow> bool" where
  "kept n st st' \<longleftrightarrow> prefix (lt_events st) (lt_events st') \<and>
     prefix (lt_actuations st) (lt_actuations st') \<and>
     length (lt_actuations st') \<le> length (lt_actuations st) + n \<and>
     lt_completed st' = lt_completed st \<and> lt_unreconciled st' = lt_unreconciled st"

named_theorems kept_intros \<open>steps that keep the state\<close>

lemma kept_refl [simp, kept_intros]: "kept n st st"
  by (simp add: kept_def)

lemma kept_emit [kept_intros]: "kept n st0 st \<Longrightarrow> kept n st0 (emit cfg req d st)"
  by (auto simp: kept_def emit_def)

lemma kept_advance [kept_intros]: "kept n st0 st \<Longrightarrow> kept n st0 (advance cfg k st)"
  by (simp add: kept_def advance_def)

lemma kept_outside [kept_intros]:
  "outside f st = (x, st1) \<Longrightarrow> kept n st0 st \<Longrightarrow> kept n st0 st1"
  by (auto simp: kept_def outside_def split: prod.splits)

lemma kept_record [kept_intros]:
  "kept 0 st0 st \<Longrightarrow> kept (Suc 0) st0 (record_actuation cfg req p pin effect witness st)"
  by (auto simp: kept_def record_actuation_def Let_def emit_def)

lemma kept_weaken: "kept m st0 st \<Longrightarrow> m \<le> n \<Longrightarrow> kept n st0 st"
  by (auto simp: kept_def)

lemma kept_trans: "kept m st0 st1 \<Longrightarrow> kept n st1 st2 \<Longrightarrow> kept (m + n) st0 st2"
  by (auto simp: kept_def)

lemma kept_verification_event [kept_intros]:
  "kept n st0 st \<Longrightarrow> kept n st0 (verification_event cfg req p reason v st)"
  by (simp add: verification_event_def kept_emit)

lemma kept_back_off [kept_intros]:
  "kept n st0 st \<Longrightarrow> kept n st0 (back_off cfg req p kind ticks st)"
  by (simp add: back_off_def kept_emit kept_advance)

lemma kept_on_fault [kept_intros]:
  "kept n st0 st \<Longrightarrow> kept n st0 (on_transport_fault cfg req p kind ticks a st)"
  by (simp add: on_transport_fault_def kept_emit kept_advance)

lemma kept_verify_retry:
  "verify_retry cfg req p s d left k verdict st = (x, st1) \<Longrightarrow> kept n st0 st \<Longrightarrow> kept n st0 st1"
proof (induction left arbitrary: k verdict st)
  case 0
  then show ?case by (cases verdict) simp
next
  case (Suc left)
  obtain verified why where verdict: "verdict = (verified, why)" by (cases verdict)
  define st2 where "st2 = advance cfg 1 (emit cfg req
    ((draft Failure_detect (Verifier_rejected why (Suc k)))\<lparr>le_provider := Some (lp_transport p)\<rparr>) st)"
  obtain y st3 where call: "outside (lc_verify cfg s d req) st2 = (y, st3)" by fastforce
  have "kept n st0 st2" unfolding st2_def by (intro kept_advance kept_emit Suc.prems(2))
  note st3 = kept_outside [OF call this]
  show ?case
    using Suc.prems st3 Suc.IH [of "Suc k" _ st3] call
    by (cases y) (auto simp: verdict Let_def simp flip: st2_def split: if_splits)
qed

section \<open>Results\<close>

text \<open>A result without receipt is a refusal or a typed block, with its reason.\<close>

definition closed_result :: "'w loop_state \<Rightarrow> loop_result \<Rightarrow> bool" where
  "closed_result st r \<longleftrightarrow> lr_receipt r = None \<and>
     (lr_outcome r = outcome_value Refuse \<and> lr_standing r = REFUSED \<or>
      lr_outcome r = outcome_value Typed_block \<and> lr_standing r = BLOCKED) \<and>
     lr_typed_reason r \<noteq> None \<and> lr_broken_term r \<noteq> None \<and>
     lr_actuation_count r = length (lt_actuations st) \<and> lr_actuations r = lt_actuations st \<and>
     lr_events r = lt_events st"

text \<open>A receipt: its effect was verified, and it attributes the subject it names.\<close>

definition verified_digest ::
    "'w loop_config \<Rightarrow> execution_request \<Rightarrow> loop_subject \<Rightarrow> string \<Rightarrow> bool" where
  "verified_digest cfg req subject d \<longleftrightarrow> d \<noteq> [] \<and> sj_repo subject = sj_repo (rq_subject req) \<and>
     valid_sha (sj_sha subject) \<and>
     (\<exists>w why w'. lc_verify cfg subject d req w = (Inr (True, why), w'))"

definition sound_receipt ::
    "'w loop_config \<Rightarrow> execution_request \<Rightarrow> 'w loop_state \<Rightarrow> execution_receipt \<Rightarrow> bool" where
  "sound_receipt cfg req st x \<longleftrightarrow>
     (\<exists>subject. verified_digest cfg req subject (xr_effect_digest x) \<and>
        (ae_witness (last (lt_actuations st)) = ''execute'' \<longrightarrow> subject = xr_subject_after x)) \<and>
     sj_sha (xr_subject_after x) \<in> {ae_pinned_subject_sha (last (lt_actuations st)),
        ae_declared_subject_after_sha (last (lt_actuations st))} \<and>
     xr_effect_digest x = ae_effect_digest (last (lt_actuations st)) \<and>
     lt_actuations st \<noteq> [] \<and> map fst (xr_actuations x) = lt_actuations st \<and>
     map snd (xr_actuations x) =
       replicate (length (lt_actuations st) - 1) ''superseded'' @ [''admitted'']"

definition admitted_result ::
    "'w loop_config \<Rightarrow> execution_request \<Rightarrow> 'w loop_state \<Rightarrow> 'w loop_state \<Rightarrow> loop_result \<Rightarrow> bool" where
  "admitted_result cfg req st0 st r \<longleftrightarrow>
     (\<exists>x. lr_receipt r = Some x \<and> sound_receipt cfg req st x \<and>
        lt_completed st = (lt_completed st0)(rq_idempotency_key req \<mapsto> (lc_request_digest cfg req, x))) \<and>
     lr_outcome r = outcome_value Recover \<and> lr_standing r = ALIVE \<and>
     lr_episode_standing r = AUTONOMOUS \<and>
     lr_actuation_count r = length (lt_actuations st) \<and> lr_actuations r = lt_actuations st \<and>
     lr_events r = lt_events st"

text \<open>The variables after a pass: another attempt, or a fresh budget on a later provider.\<close>

definition next_vars :: "'w loop_config \<Rightarrow> execution_request \<Rightarrow> loop_vars \<Rightarrow> loop_vars \<Rightarrow> bool" where
  "next_vars cfg req v v' \<longleftrightarrow>
     lv_attempts v' = lv_attempts v \<and> lv_switches v' = lv_switches v \<and> lv_index v' = lv_index v \<or>
     lv_attempts v' = 0 \<and> lv_switches v' = lv_switches v + 1 \<and>
       lv_switches v' \<le> lim_max_provider_switches (rq_resource_constraints req) \<and>
       lv_index v < lv_index v' \<and> lv_index v' < length (lc_providers cfg)"

definition body_ok ::
    "'w loop_config \<Rightarrow> execution_request \<Rightarrow> loop_vars \<Rightarrow> 'w loop_state \<Rightarrow> pass \<times> 'w loop_state \<Rightarrow> bool"
  where
  "body_ok cfg req v st0 b =
     (case b of
        (Escaped e, st) \<Rightarrow> kept (Suc 0) st0 st
      | (Returned r, st) \<Rightarrow>
          kept (Suc 0) st0 st \<and> closed_result st r \<or>
          kept (Suc 0) st0 (st\<lparr>lt_completed := lt_completed st0\<rparr>) \<and> admitted_result cfg req st0 st r
      | (Continue v', st) \<Rightarrow> kept (Suc 0) st0 st \<and> next_vars cfg req v v')"

named_theorems body_intros \<open>bodies of the loop\<close>

lemma body_ok_Escaped [body_intros]: "kept (Suc 0) st0 st \<Longrightarrow> body_ok cfg req v st0 (Escaped e, st)"
  by (simp add: body_ok_def)

lemma body_ok_Continue [body_intros]:
  "kept (Suc 0) st0 st \<Longrightarrow> next_vars cfg req v v' \<Longrightarrow> body_ok cfg req v st0 (Continue v', st)"
  by (simp add: body_ok_def)

lemma body_ok_typed_block [body_intros]:
  "kept (Suc 0) st0 st \<Longrightarrow> body_ok cfg req v st0 (returning (typed_block cfg req reason broken st))"
  by (simp add: body_ok_def typed_block_def Let_def kept_emit closed_result_def result_of_def)

lemma body_ok_calling:
  assumes "kept n st0 st" "n \<le> Suc 0"
    and "\<And>x st1. outside f st = (Inr x, st1) \<Longrightarrow> kept n st0 st1 \<Longrightarrow> body_ok cfg req v st0 (k x st1)"
  shows "body_ok cfg req v st0 (calling f k st)"
proof (cases "outside f st")
  case (Pair x st1)
  note st1 = kept_outside [OF Pair assms(1)]
  with assms(2,3) Pair show ?thesis
    by (cases x) (simp_all add: calling_def body_ok_Escaped kept_weaken [OF st1])
qed

lemma body_ok_with_subject [body_intros]:
  assumes "kept (Suc 0) st0 st"
    and "\<And>s. sj_repo s = sj_repo (rq_subject req) \<Longrightarrow> sj_sha s = sha \<Longrightarrow> valid_sha sha \<Longrightarrow>
      body_ok cfg req v st0 (k s st)"
  shows "body_ok cfg req v st0 (with_subject req sha k st)"
  using assms by (simp add: with_subject_def make_subject_def body_ok_Escaped)

lemma body_ok_resolve_fresh:
  assumes "kept (Suc 0) st0 st" "\<And>s st1. kept (Suc 0) st0 st1 \<Longrightarrow> body_ok cfg req v st0 (k s st1)"
  shows "body_ok cfg req v st0 (resolve_fresh cfg req k st)"
proof (cases "outside (lp_resolve_subject (hd (lc_providers cfg)) (sj_repo (rq_subject req))) st")
  case (Pair x st1)
  note st1 = kept_outside [OF Pair assms(1)]
  show ?thesis
  proof (cases x)
    case (Inl e)
    then show ?thesis
      using st1 by (cases "as_fault e")
        (simp_all add: resolve_fresh_def Pair body_ok_Escaped body_ok_typed_block kept_emit
          split: prod.split)
  next
    case (Inr fresh)
    then show ?thesis
      using assms(2) st1 by (simp add: resolve_fresh_def Pair kept_emit)
  qed
qed

lemma next_vars_refl [simp]: "next_vars cfg req v v"
  by (simp add: next_vars_def)

lemma find_SomeI_range: "find P [m..<n] = Some i \<Longrightarrow> m \<le> i \<and> i < n"
  by (auto dest!: find_SomeD)

lemma next_capable_index_SomeD:
  "next_capable_index cfg req from st = Some i \<Longrightarrow> from \<le> i \<and> i < length (lc_providers cfg)"
  unfolding next_capable_index_def by (rule find_SomeI_range)

lemma body_ok_substitute [body_intros]:
  assumes "kept (Suc 0) st0 st" "lv_switches v' = lv_switches v" "lv_index v' = lv_index v"
  shows "body_ok cfg req v st0 (substitute cfg req kind v' st)"
proof (cases "next_capable_index cfg req (lv_index v' + 1) st")
  case None
  then show ?thesis by (simp add: substitute_def body_ok_typed_block assms(1))
next
  case (Some i)
  then have "lv_index v < i" "i < length (lc_providers cfg)"
    using next_capable_index_SomeD [OF Some] assms(3) by simp_all
  then show ?thesis
    unfolding substitute_def Some using assms
    by (simp add: body_ok_typed_block body_ok_Continue kept_emit next_vars_def)
qed

lemma body_ok_claim_fault:
  "kept (Suc 0) st0 st \<Longrightarrow> body_ok cfg req v st0 (claim_fault cfg req p kind ticks v st)"
  by (simp add: claim_fault_def Let_def body_ok_Continue body_ok_substitute kept_back_off kept_on_fault
      next_vars_def)

lemma body_ok_execute_fault:
  "kept (Suc 0) st0 st \<Longrightarrow> body_ok cfg req v st0 (execute_fault cfg req p kind ticks v st)"
  by (simp add: execute_fault_def Let_def body_ok_Continue body_ok_substitute kept_back_off kept_emit
      next_vars_def)

lemma body_ok_replan:
  assumes "kept (Suc 0) st0 st"
    and "\<And>v' st1. kept (Suc 0) st0 st1 \<Longrightarrow> next_vars cfg req v v' \<Longrightarrow> body_ok cfg req v st0 (k v' st1)"
  shows "body_ok cfg req v st0 (replan cfg req p reason blocked broken v k st)"
  using assms by (simp add: replan_def Let_def body_ok_typed_block kept_emit next_vars_def)

lemma body_ok_verification_failed:
  "kept (Suc 0) st0 st \<Longrightarrow> body_ok cfg req v st0 (verification_failed cfg req why st)"
  by (simp add: verification_failed_def body_ok_typed_block)

lemma body_ok_digest_missing:
  "kept (Suc 0) st0 st \<Longrightarrow> body_ok cfg req v st0 (effect_digest_missing cfg req st)"
  by (simp add: effect_digest_missing_def body_ok_typed_block)

section \<open>The recorded actuation\<close>

text \<open>The state after an effect was recorded, and what is known about it until the receipt.\<close>

definition recorded ::
    "claim_pin \<Rightarrow> effect_report \<Rightarrow> string \<Rightarrow> 'w loop_state \<Rightarrow> bool" where
  "recorded pin effect witness st \<longleftrightarrow> lt_actuations st \<noteq> [] \<and>
     (let entry = last (lt_actuations st)
      in ae_provider_execution_id entry = pn_provider_execution_id pin \<and>
         ae_pinned_subject_sha entry = pn_pinned_subject_sha pin \<and>
         ae_declared_subject_after_sha entry =
           (case ef_subject_after_sha effect of None \<Rightarrow> [] | Some s \<Rightarrow> s) \<and>
         ae_effect_digest entry = effect_digest_text effect \<and> ae_witness entry = witness)"

lemma recorded_record: "recorded pin effect witness (record_actuation cfg req p pin effect witness st)"
  by (simp add: recorded_def record_actuation_def Let_def emit_def effect_digest_text_def)

lemma recorded_keeps:
  "recorded pin effect witness (emit cfg req d st) \<longleftrightarrow> recorded pin effect witness st"
  "recorded pin effect witness (advance cfg n st) \<longleftrightarrow> recorded pin effect witness st"
  "recorded pin effect witness (verification_event cfg req p reason b st) \<longleftrightarrow>
     recorded pin effect witness st"
  by (simp_all add: recorded_def emit_def advance_def verification_event_def)

lemma recorded_outside: "outside f st = (x, st1) \<Longrightarrow> recorded pin effect w st1 \<longleftrightarrow> recorded pin effect w st"
  by (auto simp: recorded_def outside_def split: prod.splits)

lemma recorded_verify_retry:
  "verify_retry cfg req p s d left k verdict st = (x, st1) \<Longrightarrow>
   recorded pin effect w st1 \<longleftrightarrow> recorded pin effect w st"
proof (induction left arbitrary: k verdict st)
  case 0
  then show ?case by (cases verdict) simp
next
  case (Suc left)
  obtain verified why where verdict: "verdict = (verified, why)" by (cases verdict)
  define st2 where "st2 = advance cfg 1 (emit cfg req
    ((draft Failure_detect (Verifier_rejected why (Suc k)))\<lparr>le_provider := Some (lp_transport p)\<rparr>) st)"
  obtain y st3 where call: "outside (lc_verify cfg s d req) st2 = (y, st3)" by fastforce
  have "recorded pin effect w st3 \<longleftrightarrow> recorded pin effect w st"
    using recorded_outside [OF call] by (simp add: st2_def recorded_keeps)
  then show ?case
    using Suc.prems Suc.IH [of "Suc k" _ st3] call
    by (cases y) (auto simp: verdict Let_def simp flip: st2_def split: if_splits)
qed

lemma verify_retry_verified:
  assumes "verify_retry cfg req p s d left k verdict st = (Inr (True, why), st1)"
    and "\<exists>w w'. lc_verify cfg s d req w = (Inr verdict, w')"
  shows "\<exists>w w' why'. lc_verify cfg s d req w = (Inr (True, why'), w')"
  using assms
proof (induction left arbitrary: k verdict st)
  case 0
  then show ?case by (cases verdict) auto
next
  case (Suc left)
  obtain verified reason where verdict: "verdict = (verified, reason)" by (cases verdict)
  define st2 where "st2 = advance cfg 1 (emit cfg req
    ((draft Failure_detect (Verifier_rejected reason (Suc k)))\<lparr>le_provider := Some (lp_transport p)\<rparr>) st)"
  obtain y st3 where call: "outside (lc_verify cfg s d req) st2 = (y, st3)" by fastforce
  show ?case
  proof (cases verified)
    case True
    with Suc.prems(2) show ?thesis by (auto simp: verdict)
  next
    case False
    then obtain verdict' where y: "y = Inr verdict'"
      and rest: "verify_retry cfg req p s d left (Suc k) verdict' st3 = (Inr (True, why), st1)"
      using Suc.prems(1) call
      by (cases y) (auto simp: verdict Let_def simp flip: st2_def split: if_splits)
    have "\<exists>w w'. lc_verify cfg s d req w = (Inr verdict', w')"
      using call y by (auto simp: outside_def split: prod.splits)
    with rest show ?thesis by (rule Suc.IH)
  qed
qed

section \<open>The receipt\<close>

lemma dispositions:
  assumes "acts \<noteq> []" "ae_provider_execution_id (last acts) = i"
  shows "map snd (map (\<lambda>(index, entry). (entry,
      if ae_provider_execution_id entry = i \<and> index + 1 = length acts then ''admitted'' else ''superseded''))
      (enumerate 0 acts)) = replicate (length acts - 1) ''superseded'' @ [''admitted'']"
proof -
  obtain xs e where acts: "acts = xs @ [e]" using assms(1) by (cases acts rule: rev_cases) auto
  have "map (\<lambda>(index, entry). if ae_provider_execution_id entry = i \<and> index = length xs
      then ''admitted'' else ''superseded'') (enumerate 0 xs) =
    map (\<lambda>_. ''superseded'') (enumerate 0 xs)"
    by (rule map_cong) (auto simp: in_set_enumerate_eq)
  then show ?thesis
    using assms(2)
    by (simp add: acts enumerate_append_eq map_replicate_const comp_def case_prod_beta')
qed

lemma build_receipt_sound:
  assumes "build_receipt cfg req p pin before effect Recover sha st = Inr x"
    and "recorded pin effect w st" "subject_attributable sha pin effect"
    and "verified_digest cfg req subject (effect_digest_text effect)"
    and "w = ''execute'' \<longrightarrow> sj_sha subject = sha"
  shows "sound_receipt cfg req st x"
proof -
  have sha: "valid_sha sha" "xr_subject_after x = \<lparr>sj_repo = sj_repo (rq_subject req), sj_sha = sha\<rparr>"
    using assms(1) by (auto simp: build_receipt_def make_subject_def Let_def split: if_splits)
  have x: "xr_effect_digest x = effect_digest_text effect"
      "map fst (xr_actuations x) = lt_actuations st"
      "map snd (xr_actuations x) =
        replicate (length (lt_actuations st) - 1) ''superseded'' @ [''admitted'']"
    using assms(1,2) dispositions [of "lt_actuations st" "pn_provider_execution_id pin"]
    by (auto simp: build_receipt_def make_subject_def Let_def recorded_def comp_def case_prod_beta'
        simp del: map_map split: if_splits)
      (simp_all add: comp_def case_prod_beta')
  have attributed: "sha \<in> {ae_pinned_subject_sha (last (lt_actuations st)),
      ae_declared_subject_after_sha (last (lt_actuations st))}"
    using assms(2,3) by (auto simp: recorded_def subject_attributable_def Let_def)
  have "subject = xr_subject_after x" if "w = ''execute''"
    using assms(4,5) that sha(2) by (simp add: verified_digest_def loop_subject.equality)
  then show ?thesis
    using assms(2,4) x attributed sha(2)
    by (auto simp: sound_receipt_def recorded_def Let_def)
qed

lemma sound_receipt_cong:
  "lt_actuations st' = lt_actuations st \<Longrightarrow> sound_receipt cfg req st' x \<longleftrightarrow> sound_receipt cfg req st x"
  by (simp add: sound_receipt_def)

lemma sound_receipt_emit [simp]:
  "sound_receipt cfg req (emit cfg' req' d st) x \<longleftrightarrow> sound_receipt cfg req st x"
  by (rule sound_receipt_cong) (simp add: emit_def)

lemma body_ok_admit:
  assumes "kept (Suc 0) st0 st" "sound_receipt cfg req st x"
  shows "body_ok cfg req v st0 (returning (admit_receipt cfg req p x reason st))"
proof -
  obtain r st1 where adm: "admit_receipt cfg req p x reason st = (r, st1)" by fastforce
  then have acts: "lt_actuations st1 = lt_actuations st"
    by (auto simp: admit_receipt_def Let_def emit_def)
  have sound: "sound_receipt cfg req st1 x"
    using assms(2) sound_receipt_cong [OF acts] by blast
  have "kept (Suc 0) st0 (st1\<lparr>lt_completed := lt_completed st0\<rparr>)"
    using assms(1) adm by (auto simp: admit_receipt_def Let_def emit_def kept_def)
  moreover have "admitted_result cfg req st0 st1 r"
    using assms(1) adm sound
    by (auto simp: admit_receipt_def Let_def emit_def kept_def admitted_result_def result_of_def)
  ultimately show ?thesis by (simp add: body_ok_def adm)
qed

lemma body_ok_finish_receipt:
  assumes "kept (Suc 0) st0 st" "recorded pin effect w st" "subject_attributable sha pin effect"
    and "verified_digest cfg req subject (effect_digest_text effect)"
    and "w = ''execute'' \<longrightarrow> sj_sha subject = sha"
    and "\<And>x st1. kept (Suc 0) st0 st1 \<Longrightarrow> sound_receipt cfg req st1 x \<Longrightarrow> body_ok cfg req v st0 (k x st1)"
  shows "body_ok cfg req v st0 (finish_receipt cfg req p pin effect sha v' k st)"
proof -
  define st1 where "st1 = advance cfg 1 st"
  have st1: "kept (Suc 0) st0 st1" "recorded pin effect w st1"
    using assms(1,2) by (simp_all add: st1_def kept_advance recorded_keeps)
  show ?thesis
  proof (cases "build_receipt cfg req p pin (lv_subject_before v') effect Recover sha st1")
    case (Inl e)
    then show ?thesis using st1 by (simp add: finish_receipt_def body_ok_Escaped flip: st1_def)
  next
    case (Inr x)
    from build_receipt_sound [OF Inr st1(2) assms(3-5)] assms(6) [OF st1(1)] Inr
    show ?thesis by (simp add: finish_receipt_def flip: st1_def)
  qed
qed

lemma body_ok_ack:
  assumes "kept (Suc 0) st0 st" "sound_receipt cfg req st x"
  shows "body_ok cfg req v st0 (ack_receipt cfg req p pin x st)"
proof (cases "outside (lp_ack p x) st")
  case (Pair y st1)
  have same: "outside f s = (z, s1) \<Longrightarrow> lt_actuations s1 = lt_actuations s" for f s and z :: "_ + 'b" and s1
    by (auto simp: outside_def split: prod.splits)
  note st1 = kept_outside [OF Pair assms(1)]
  have sound1: "sound_receipt cfg req st1 x"
    using assms(2) Pair by (auto simp: outside_def sound_receipt_def split: prod.splits)
  show ?thesis
  proof (cases y)
    case (Inr u)
    then show ?thesis using st1 sound1 by (simp add: ack_receipt_def Pair body_ok_admit)
  next
    case (Inl e)
    show ?thesis
    proof (cases "as_fault e")
      case None
      then show ?thesis using Inl st1 by (simp add: ack_receipt_def Pair body_ok_Escaped)
    next
      case (Some fault)
      have "body_ok cfg req v st0 (calling (lp_fetch_receipt p (pn_provider_execution_id pin)) k st1)"
        if "\<And>d st2. kept (Suc 0) st0 st2 \<Longrightarrow> sound_receipt cfg req st2 x \<Longrightarrow>
            body_ok cfg req v st0 (k d st2)" for k
        using st1
      proof (rule body_ok_calling)
        fix d st2
        assume call: "outside (lp_fetch_receipt p (pn_provider_execution_id pin)) st1 = (Inr d, st2)"
          and "kept (Suc 0) st0 st2"
        moreover have "sound_receipt cfg req st2 x"
          using sound1 call by (auto simp: outside_def sound_receipt_def split: prod.splits)
        ultimately show "body_ok cfg req v st0 (k d st2)" using that by blast
      qed simp
      then show ?thesis
        unfolding ack_receipt_def Pair Inl prod.case sum.case Some option.case
        by (simp add: Let_def body_ok_admit kept_emit split_beta)
    qed
  qed
qed

section \<open>The two paths\<close>

text \<open>A call after the effect was recorded.\<close>

lemma body_ok_calling_recorded:
  assumes "kept (Suc 0) st0 st" "recorded pin effect w st"
    and "\<And>x st1. outside f st = (Inr x, st1) \<Longrightarrow> kept (Suc 0) st0 st1 \<Longrightarrow>
      recorded pin effect w st1 \<Longrightarrow> body_ok cfg req v st0 (k x st1)"
  shows "body_ok cfg req v st0 (calling f k st)"
  by (rule body_ok_calling [OF assms(1)])
    (use assms(2,3) recorded_outside in \<open>fastforce+\<close>)

lemma body_ok_resolve_continue:
  assumes "kept (Suc 0) st0 st" "next_vars cfg req v v'"
  shows "body_ok cfg req v st0 (resolve_fresh cfg req (\<lambda>_ st1. (Continue v', st1)) st)"
  by (rule body_ok_resolve_fresh [OF assms(1)]) (simp add: body_ok_Continue assms(2))

lemma outside_verified:
  "outside (lc_verify cfg s d req) st = (Inr verdict, st1) \<Longrightarrow>
   \<exists>w w'. lc_verify cfg s d req w = (Inr verdict, w')"
  by (auto simp: outside_def split: prod.splits)

lemma body_ok_verify_effect:
  assumes "kept (Suc 0) st0 st" "recorded pin effect w st"
    and "\<And>subject st1. kept (Suc 0) st0 st1 \<Longrightarrow> recorded pin effect w st1 \<Longrightarrow>
      verified_digest cfg req subject (effect_digest_text effect) \<Longrightarrow>
      body_ok cfg req v st0 (admitted st1)"
  shows "body_ok cfg req v st0 (verify_effect cfg req p effect admitted st)"
proof (cases "digest_missing effect")
  case True
  then show ?thesis by (simp add: verify_effect_def body_ok_digest_missing assms(1))
next
  case False
  have dig: "effect_digest_text effect \<noteq> []"
    using False by (auto simp: digest_missing_def effect_digest_text_def split: option.splits)
  have "body_ok cfg req v st0 (calling (lp_current_subject_sha p (sj_repo (rq_subject req)))
      (\<lambda>observed_sha. with_subject req observed_sha (\<lambda>subject.
        calling (lc_verify cfg subject (effect_digest_text effect) req) (\<lambda>(verified, why) st1.
          let st2 = verification_event cfg req p (Journal_verdict why) verified st1
          in if \<not> verified then verification_failed cfg req why st2 else admitted st2))) st)"
  proof (rule body_ok_calling_recorded [OF assms(1,2)], rule body_ok_with_subject, assumption,
      rule body_ok_calling_recorded, assumption, assumption)
    fix sha st2 subject verdict st3
    assume subject: "sj_repo subject = sj_repo (rq_subject req)" "sj_sha subject = sha" "valid_sha sha"
      and call: "outside (lc_verify cfg subject (effect_digest_text effect) req) st2 = (Inr verdict, st3)"
      and st3: "kept (Suc 0) st0 st3" "recorded pin effect w st3"
    obtain verified why where verdict: "verdict = (verified, why)" by (cases verdict)
    show "body_ok cfg req v st0 ((case verdict of (verified, why) \<Rightarrow> (\<lambda>st1.
        let st2 = verification_event cfg req p (Journal_verdict why) verified st1
        in if \<not> verified then verification_failed cfg req why st2 else admitted st2)) st3)"
    proof (cases verified)
      case False
      then show ?thesis
        using st3 by (simp add: verdict Let_def body_ok_verification_failed kept_verification_event)
    next
      case True
      have "verified_digest cfg req subject (effect_digest_text effect)"
        using subject dig outside_verified [OF call] True by (auto simp: verified_digest_def verdict)
      with True st3 show ?thesis
        by (simp add: verdict Let_def kept_verification_event recorded_keeps assms(3))
    qed
  qed
  then show ?thesis by (simp add: verify_effect_def False)
qed

lemma body_ok_journal_path:
  assumes "kept 0 st0 st"
  shows "body_ok cfg req v st0 (journal_path cfg req p pin v st)"
  unfolding journal_path_def
proof (rule body_ok_calling [OF assms])
  fix fragment st1
  assume st1: "kept 0 st0 st1"
  show "body_ok cfg req v st0 (case fragment of
      None \<Rightarrow> returning (typed_block cfg req (Text ''TYPED_BLOCK_RECEIPT_LOST'') R_missing_consequence st1)
    | Some effect \<Rightarrow> calling (lp_current_subject_sha p (sj_repo (rq_subject req))) (\<lambda>journal_sha.
        if \<not> subject_attributable journal_sha pin effect
        then replan cfg req p
          (Moved_after_journal (take 12 (pn_pinned_subject_sha pin)) (take 12 journal_sha))
          (Text ''TYPED_BLOCK_MOVING_SUBJECT'') Subject_unstable v
          (\<lambda>v'. resolve_fresh cfg req (\<lambda>_ st'. (Continue v', st')))
        else verify_effect cfg req p effect
          (finish_receipt cfg req p pin effect journal_sha v (\<lambda>receipt st'.
            returning (admit_receipt cfg req p receipt ''reconstructed from provider journal'' st'))))
        (record_actuation cfg req p pin effect ''provider journal'' st1))"
  proof (cases fragment)
    case None
    then show ?thesis by (simp add: body_ok_typed_block kept_weaken [OF st1])
  next
    case (Some effect)
    show ?thesis
      unfolding Some option.case
    proof (rule body_ok_calling_recorded)
      show "kept (Suc 0) st0 (record_actuation cfg req p pin effect ''provider journal'' st1)"
        using kept_record [OF st1] by simp
      show "recorded pin effect ''provider journal''
          (record_actuation cfg req p pin effect ''provider journal'' st1)"
        by (rule recorded_record)
    next
      fix journal_sha st2
      assume st2: "kept (Suc 0) st0 st2" "recorded pin effect ''provider journal'' st2"
      show "body_ok cfg req v st0 ((if \<not> subject_attributable journal_sha pin effect
        then replan cfg req p
          (Moved_after_journal (take 12 (pn_pinned_subject_sha pin)) (take 12 journal_sha))
          (Text ''TYPED_BLOCK_MOVING_SUBJECT'') Subject_unstable v
          (\<lambda>v'. resolve_fresh cfg req (\<lambda>_ st'. (Continue v', st')))
        else verify_effect cfg req p effect
          (finish_receipt cfg req p pin effect journal_sha v (\<lambda>receipt st'.
            returning (admit_receipt cfg req p receipt ''reconstructed from provider journal'' st')))) st2)"
      proof (cases "subject_attributable journal_sha pin effect")
        case False
        then show ?thesis
          using body_ok_replan [OF st2(1) body_ok_resolve_continue] by simp
      next
        case True
        have "body_ok cfg req v st0 (verify_effect cfg req p effect
          (finish_receipt cfg req p pin effect journal_sha v (\<lambda>receipt st'.
            returning (admit_receipt cfg req p receipt ''reconstructed from provider journal'' st'))) st2)"
          by (rule body_ok_verify_effect [OF st2], rule body_ok_finish_receipt, assumption, assumption,
              rule True, assumption, simp, rule body_ok_admit)
        then show ?thesis by (simp add: True)
      qed
    qed
  qed
qed simp

lemma body_ok_post_verify:
  assumes "kept (Suc 0) st0 st" "recorded pin effect ''execute'' st"
    and "subject_attributable sha pin effect"
    and "verified_digest cfg req subject (effect_digest_text effect)" "sj_sha subject = sha"
  shows "body_ok cfg req v st0 (post_verify cfg req p pin effect sha v st)"
  unfolding post_verify_def
proof (rule body_ok_calling_recorded [OF assms(1,2)])
  fix post st1
  assume st1: "kept (Suc 0) st0 st1" "recorded pin effect ''execute'' st1"
  show "body_ok cfg req v st0 ((if post \<noteq> sha
      then replan cfg req p (Text ''silent external state mutation detected post-verify'')
        (Text ''TYPED_BLOCK_SILENT_MUTATION'') Subject_stale v (\<lambda>v' st'. (Continue v', st'))
      else finish_receipt cfg req p pin effect post v (ack_receipt cfg req p pin)) st1)"
  proof (cases "post = sha")
    case True
    have "body_ok cfg req v st0 (finish_receipt cfg req p pin effect sha v (ack_receipt cfg req p pin) st1)"
      by (rule body_ok_finish_receipt [OF st1 assms(3,4)]) (use assms(5) in \<open>auto intro: body_ok_ack\<close>)
    with True show ?thesis by simp
  next
    case False
    then show ?thesis
      using body_ok_replan [OF st1(1) body_ok_Continue] by simp
  qed
qed

lemma body_ok_live_path:
  assumes "kept (Suc 0) st0 st" "recorded pin effect ''execute'' st"
  shows "body_ok cfg req v st0 (live_path cfg req p pin effect v st)"
  unfolding live_path_def
proof (rule body_ok_calling_recorded [OF assms])
  fix sha st1
  assume st1: "kept (Suc 0) st0 st1" "recorded pin effect ''execute'' st1"
  consider (moved) "\<not> subject_attributable sha pin effect"
    | (missing) "subject_attributable sha pin effect" "digest_missing effect"
    | (verify) "subject_attributable sha pin effect" "\<not> digest_missing effect" by blast
  then show "body_ok cfg req v st0 ((if \<not> subject_attributable sha pin effect
       then replan cfg req p (Moved_sha (take 12 (pn_pinned_subject_sha pin)) (take 12 sha))
         (Text ''TYPED_BLOCK_MOVING_SUBJECT'') Subject_unstable v
         (\<lambda>v'. with_subject req (pn_pinned_subject_sha pin) (\<lambda>before.
            resolve_fresh cfg req (\<lambda>_ st'. (Continue (v'\<lparr>lv_subject_before := before\<rparr>), st'))))
       else if digest_missing effect then effect_digest_missing cfg req
       else with_subject req sha (\<lambda>subject.
         calling (lc_verify cfg subject (effect_digest_text effect) req) (\<lambda>verdict st1.
           case verify_retry cfg req p subject (effect_digest_text effect)
                  (lim_max_retries (rq_resource_constraints req)) 0 verdict st1 of
             (Inl e, st2) \<Rightarrow> (Escaped e, st2)
           | (Inr (verified, why), st2) \<Rightarrow>
               (let st3 = verification_event cfg req p (Text why) verified st2
                in if \<not> verified then verification_failed cfg req why st3
                   else post_verify cfg req p pin effect sha v st3)))) st1)"
  proof cases
    case moved
    have "body_ok cfg req v st0 (replan cfg req p
        (Moved_sha (take 12 (pn_pinned_subject_sha pin)) (take 12 sha))
         (Text ''TYPED_BLOCK_MOVING_SUBJECT'') Subject_unstable v
         (\<lambda>v'. with_subject req (pn_pinned_subject_sha pin) (\<lambda>before.
            resolve_fresh cfg req (\<lambda>_ st'. (Continue (v'\<lparr>lv_subject_before := before\<rparr>), st')))) st1)"
      by (rule body_ok_replan [OF st1(1)], rule body_ok_with_subject, assumption,
          rule body_ok_resolve_continue, assumption) (simp add: next_vars_def)
    with moved show ?thesis by simp
  next
    case missing
    then show ?thesis using st1 by (simp add: body_ok_digest_missing)
  next
    case verify
    have dig: "effect_digest_text effect \<noteq> []"
      using verify by (auto simp: digest_missing_def effect_digest_text_def split: option.splits)
    have "body_ok cfg req v st0 (with_subject req sha (\<lambda>subject.
         calling (lc_verify cfg subject (effect_digest_text effect) req) (\<lambda>verdict st1.
           case verify_retry cfg req p subject (effect_digest_text effect)
                  (lim_max_retries (rq_resource_constraints req)) 0 verdict st1 of
             (Inl e, st2) \<Rightarrow> (Escaped e, st2)
           | (Inr (verified, why), st2) \<Rightarrow>
               (let st3 = verification_event cfg req p (Text why) verified st2
                in if \<not> verified then verification_failed cfg req why st3
                   else post_verify cfg req p pin effect sha v st3))) st1)"
    proof (rule body_ok_with_subject [OF st1(1)], rule body_ok_calling_recorded [OF st1])
      fix subject verdict st2
      assume subject: "sj_repo subject = sj_repo (rq_subject req)" "sj_sha subject = sha" "valid_sha sha"
        and call: "outside (lc_verify cfg subject (effect_digest_text effect) req) st1 = (Inr verdict, st2)"
        and st2: "kept (Suc 0) st0 st2" "recorded pin effect ''execute'' st2"
      obtain y st3 where retry: "verify_retry cfg req p subject (effect_digest_text effect)
          (lim_max_retries (rq_resource_constraints req)) 0 verdict st2 = (y, st3)" by fastforce
      have st3: "kept (Suc 0) st0 st3" "recorded pin effect ''execute'' st3"
        using kept_verify_retry [OF retry st2(1)] recorded_verify_retry [OF retry] st2(2) by blast+
      show "body_ok cfg req v st0 (case verify_retry cfg req p subject (effect_digest_text effect)
            (lim_max_retries (rq_resource_constraints req)) 0 verdict st2 of
             (Inl e, st2) \<Rightarrow> (Escaped e, st2)
           | (Inr (verified, why), st2) \<Rightarrow>
               (let st3 = verification_event cfg req p (Text why) verified st2
                in if \<not> verified then verification_failed cfg req why st3
                   else post_verify cfg req p pin effect sha v st3))"
      proof (cases y)
        case (Inl e)
        then show ?thesis using st3 by (simp add: retry body_ok_Escaped)
      next
        case (Inr final)
        obtain verified why where final: "final = (verified, why)" by (cases final)
        show ?thesis
        proof (cases verified)
          case False
          then show ?thesis
            using st3 by (simp add: retry Inr final Let_def body_ok_verification_failed
                kept_verification_event)
        next
          case True
          have "verify_retry cfg req p subject (effect_digest_text effect)
              (lim_max_retries (rq_resource_constraints req)) 0 verdict st2 = (Inr (True, why), st3)"
            using retry Inr final True by simp
          from verify_retry_verified [OF this outside_verified [OF call]]
          have "verified_digest cfg req subject (effect_digest_text effect)"
            using subject dig by (auto simp: verified_digest_def)
          then show ?thesis
            using True st3 verify subject
            by (simp add: retry Inr final Let_def kept_verification_event recorded_keeps
                body_ok_post_verify)
        qed
      qed
    qed
    with verify show ?thesis by simp
  qed
qed

section \<open>One pass\<close>

lemma body_ok_crash_path:
  assumes "kept 0 st0 st"
  shows "body_ok cfg req v st0 (crash_path cfg req p pin applied point v st)"
proof (cases applied)
  case True
  then show ?thesis
    unfolding crash_path_def Let_def by simp (intro body_ok_journal_path kept_emit assms)
next
  case False
  have "kept (Suc 0) st0 st" by (rule kept_weaken [OF assms]) simp
  with False show ?thesis
    unfolding crash_path_def Let_def
    by simp (intro body_ok_Continue kept_emit kept_advance next_vars_refl)
qed

lemma body_ok_execute_step:
  assumes "kept 0 st0 st"
  shows "body_ok cfg req v st0 (execute_step cfg req p pin v st)"
proof (cases "outside (lp_execute p req (pn_provider_execution_id pin)) st")
  case (Pair x st1)
  note st1 = kept_outside [OF Pair assms]
  have st1': "kept (Suc 0) st0 st1" by (rule kept_weaken [OF st1]) simp
  show ?thesis
  proof (cases x)
    case (Inr effect)
    then show ?thesis
      using body_ok_live_path [OF kept_record [OF st1, unfolded One_nat_def] recorded_record]
      by (simp add: execute_step_def Pair)
  next
    case (Inl e)
    then show ?thesis
      using st1 st1'
      by (cases e) (simp_all add: execute_step_def Pair body_ok_Escaped body_ok_execute_fault
          body_ok_crash_path)
  qed
qed

lemma expiry_gate_cases:
  obtains "expiry_gate cfg req st = (None, st)" "\<not> grant_expired req (now cfg st)"
  | r st1 where "expiry_gate cfg req st = (Some r, st1)" "kept 0 st st1" "closed_result st1 r"
      "lr_outcome r = outcome_value Refuse" "grant_expired req (now cfg st)"
      "lt_world st1 = lt_world st"
  by (cases "grant_expired req (now cfg st)")
    (auto simp: expiry_gate_def refuse_def Let_def closed_result_def result_of_def emit_def kept_def)

definition attempt :: "loop_vars \<Rightarrow> loop_vars" where
  "attempt v = v\<lparr>lv_attempts := lv_attempts v + 1\<rparr>"

lemma body_ok_returned:
  "kept 0 st0 st \<Longrightarrow> closed_result st r \<Longrightarrow> body_ok cfg req v st0 (Returned r, st)"
  by (simp add: body_ok_def kept_weaken [of 0])

lemma body_ok_loop_pass: "body_ok cfg req (attempt v) st (loop_pass cfg req v st)"
proof (cases "lv_attempts v > lim_max_retries (rq_resource_constraints req) \<or>
    now cfg st \<ge> int (lim_deadline_ticks (rq_resource_constraints req))")
  case True
  then show ?thesis by (simp add: loop_pass_def body_ok_typed_block)
next
  case False
  show ?thesis
  proof (cases rule: expiry_gate_cases [of cfg req st])
    case (2 r st1)
    then show ?thesis using False by (simp add: loop_pass_def body_ok_returned)
  next
    case 1
    define p where "p = lc_providers cfg ! lv_index v"
    obtain x st2 where claim: "outside (lp_claim p req) st = (x, st2)" by fastforce
    have st2: "kept 0 st st2" by (rule kept_outside [OF claim]) simp
    have st2': "kept (Suc 0) st st2" by (rule kept_weaken [OF st2]) simp
    show ?thesis
    proof (cases x)
      case (Inl e)
      with False 1 claim st2' show ?thesis
        by (cases "as_fault e") (auto simp: loop_pass_def Let_def body_ok_Escaped attempt_def
            body_ok_claim_fault [of _ _ _ _ "v\<lparr>lv_attempts := Suc (lv_attempts v)\<rparr>"]
            simp flip: p_def)
    next
      case (Inr pin)
      define st3 where "st3 = emit cfg req ((draft Execution_claim
        (Claimed (pn_provider_execution_id pin) (take 12 (pn_pinned_subject_sha pin))))\<lparr>
          le_provider := Some (lp_transport p)\<rparr>) st2"
      have st3: "kept 0 st st3" unfolding st3_def by (rule kept_emit [OF st2])
      have pass: "loop_pass cfg req v st = (case expiry_gate cfg req st3 of
          (Some r, st4) \<Rightarrow> (Returned r, st4)
        | (None, st4) \<Rightarrow> execute_step cfg req p pin (attempt v) st4)"
        using False 1 claim Inr
        by (simp add: loop_pass_def Let_def attempt_def st3_def p_def cong: option.case_cong prod.case_cong)
      show ?thesis
      proof (cases rule: expiry_gate_cases [of cfg req st3])
        case 1
        then show ?thesis by (simp add: pass body_ok_execute_step [OF st3])
      next
        case (2 r st4)
        then show ?thesis
          using kept_trans [OF st3 2(2)] by (simp add: pass body_ok_returned)
      qed
    qed
  qed
qed

section \<open>The loop ends\<close>

text \<open>The passes left: fresh budgets of the switches left, and the attempts left now.\<close>

definition passes_left :: "execution_request \<Rightarrow> loop_vars \<Rightarrow> nat" where
  "passes_left req v =
     (lim_max_provider_switches (rq_resource_constraints req) - lv_switches v) *
       (lim_max_retries (rq_resource_constraints req) + 1) +
     (lim_max_retries (rq_resource_constraints req) + 1 - lv_attempts v)"

lemma loop_pass_Continue:
  assumes "loop_pass cfg req v st = (Continue v', st1)"
  shows "passes_left req v' < passes_left req v" "kept (Suc 0) st st1"
    "lv_index v < length (lc_providers cfg) \<Longrightarrow> lv_index v' < length (lc_providers cfg)"
proof -
  have limit: "lv_attempts v \<le> lim_max_retries (rq_resource_constraints req)"
    using assms by (auto simp: loop_pass_def Let_def split: if_splits)
  from body_ok_loop_pass [of cfg req v st] assms
  have vars: "next_vars cfg req (attempt v) v'" and "kept (Suc 0) st st1"
    by (simp_all add: body_ok_def)
  then show "kept (Suc 0) st st1" by simp
  show "lv_index v < length (lc_providers cfg) \<Longrightarrow> lv_index v' < length (lc_providers cfg)"
    using vars by (auto simp: next_vars_def attempt_def)
  define r s where "r = lim_max_retries (rq_resource_constraints req)"
    and "s = lim_max_provider_switches (rq_resource_constraints req)"
  from vars consider "lv_attempts v' = lv_attempts v + 1" "lv_switches v' = lv_switches v"
    | "lv_attempts v' = 0" "lv_switches v' = lv_switches v + 1" "lv_switches v' \<le> s"
    by (auto simp: next_vars_def attempt_def s_def)
  then show "passes_left req v' < passes_left req v"
  proof cases
    case 1
    with limit show ?thesis by (simp add: passes_left_def)
  next
    case 2
    then have "s - lv_switches v = Suc (s - lv_switches v')" by simp
    with 2 limit show ?thesis by (simp add: passes_left_def flip: r_def s_def)
  qed
qed

lemma run_passes_total:
  assumes "passes_left req v < fuel"
  shows "\<exists>x st'. run_passes fuel cfg req v st = Some (x, st')"
  using assms
proof (induction fuel arbitrary: v st)
  case (Suc fuel)
  obtain b st1 where pass: "loop_pass cfg req v st = (b, st1)" by fastforce
  show ?case
  proof (cases b)
    case (Continue v')
    with pass loop_pass_Continue(1) [of cfg req v st v' st1] Suc.prems
    have "passes_left req v' < fuel" by simp
    then show ?thesis using Suc.IH pass Continue by simp
  qed (simp_all add: pass)
qed simp

text \<open>What the passes keep: at most one actuation each, and the result fits the state.\<close>

definition outcome_ok ::
    "'w loop_config \<Rightarrow> execution_request \<Rightarrow> nat \<Rightarrow> 'w loop_state \<Rightarrow>
     (loop_exn + loop_result) \<times> 'w loop_state \<Rightarrow> bool" where
  "outcome_ok cfg req n st0 y =
     (case y of
        (Inl e, st) \<Rightarrow> kept n st0 st
      | (Inr r, st) \<Rightarrow>
          kept n st0 st \<and> closed_result st r \<or>
          kept n st0 (st\<lparr>lt_completed := lt_completed st0\<rparr>) \<and> admitted_result cfg req st0 st r)"

lemma outcome_ok_later:
  assumes "kept m st0 st1" "outcome_ok cfg req n st1 y"
  shows "outcome_ok cfg req (m + n) st0 y"
proof (cases y)
  case (Pair x st)
  show ?thesis
  proof (cases x)
    case (Inl e)
    with Pair assms show ?thesis by (simp add: outcome_ok_def kept_trans)
  next
    case (Inr r)
    have completed: "lt_completed st1 = lt_completed st0" using assms(1) by (simp add: kept_def)
    from Pair Inr assms(2) consider "kept n st1 st" "closed_result st r"
      | "kept n st1 (st\<lparr>lt_completed := lt_completed st1\<rparr>)" "admitted_result cfg req st1 st r"
      by (auto simp: outcome_ok_def)
    then show ?thesis
    proof cases
      case 1
      with Pair Inr assms(1) show ?thesis by (simp add: outcome_ok_def kept_trans)
    next
      case 2
      with Pair Inr assms(1) completed show ?thesis
        using kept_trans [OF assms(1) 2(1)] by (simp add: outcome_ok_def admitted_result_def)
    qed
  qed
qed

lemma outcome_ok_weaken: "outcome_ok cfg req m st0 y \<Longrightarrow> m \<le> n \<Longrightarrow> outcome_ok cfg req n st0 y"
  using outcome_ok_later [of "n - m" st0 st0 cfg req m y] by simp

lemma exhausted_pass:
  assumes "passes_left req v = 0"
  shows "loop_pass cfg req v st = returning (typed_block cfg req
    (Text ''TYPED_BLOCK_BUDGET_EXHAUSTED'') Provider_unavailable st)"
  using assms by (simp add: passes_left_def loop_pass_def)

lemma typed_block_closed:
  "outcome_ok cfg req n st (Inr (fst (typed_block cfg req reason broken st)),
     snd (typed_block cfg req reason broken st))"
  by (simp add: outcome_ok_def typed_block_def Let_def kept_emit closed_result_def result_of_def)

lemma run_passes_ok:
  assumes "run_passes fuel cfg req v st = Some y"
  shows "outcome_ok cfg req (passes_left req v) st y"
  using assms
proof (induction fuel arbitrary: v st)
  case (Suc fuel)
  show ?case
  proof (cases "passes_left req v = 0")
    case True
    with Suc.prems show ?thesis by (auto simp: exhausted_pass typed_block_closed)
  next
    case False
    then have one: "Suc 0 \<le> passes_left req v" by simp
    obtain b st1 where pass: "loop_pass cfg req v st = (b, st1)" by fastforce
    note ok = body_ok_loop_pass [of cfg req v st, unfolded pass]
    show ?thesis
    proof (cases b)
      case (Continue v')
      note c = loop_pass_Continue [OF pass [unfolded Continue]]
      have "outcome_ok cfg req (passes_left req v') st1 y"
        using Suc.IH Suc.prems pass Continue by simp
      from outcome_ok_weaken [OF outcome_ok_later [OF c(2) this]] c(1) show ?thesis by simp
    next
      case (Escaped e)
      with ok have "outcome_ok cfg req (Suc 0) st (Inl e, st1)"
        by (simp add: body_ok_def outcome_ok_def)
      from outcome_ok_weaken [OF this one] show ?thesis using Suc.prems pass Escaped by simp
    next
      case (Returned r)
      with ok have "outcome_ok cfg req (Suc 0) st (Inr r, st1)"
        by (simp add: body_ok_def outcome_ok_def)
      from outcome_ok_weaken [OF this one] show ?thesis using Suc.prems pass Returned by simp
    qed
  qed
qed simp

section \<open>Gates\<close>

text \<open>A gate reads the world and leaves it alone; it stops with an answer that reports the
  (empty) ledger of the run.\<close>

definition gate_answer :: "'w loop_config \<Rightarrow> execution_request \<Rightarrow> 'w loop_state \<Rightarrow> loop_result \<Rightarrow> bool"
  where
  "gate_answer cfg req st r \<longleftrightarrow> lr_actuation_count r = 0 \<and> lr_actuations r = [] \<and>
     (lr_receipt r = None \<and> lr_outcome r = outcome_value Refuse \<and> lr_standing r = REFUSED \<or>
      lr_receipt r = None \<and> lr_outcome r = outcome_value Typed_block \<and> lr_standing r = BLOCKED \<or>
      (\<exists>x. lr_receipt r = Some x \<and> lr_outcome r = outcome_value Recover \<and> lr_standing r = ALIVE \<and>
         lt_completed st (rq_idempotency_key req) = Some (lc_request_digest cfg req, x)))"

definition inert :: "'w loop_state \<Rightarrow> 'w loop_state \<Rightarrow> bool" where
  "inert st st' \<longleftrightarrow> lt_world st' = lt_world st \<and> lt_actuations st' = lt_actuations st \<and>
     lt_completed st' = lt_completed st \<and> lt_unreconciled st' = lt_unreconciled st"

definition gate_ok :: "'w loop_config \<Rightarrow> execution_request \<Rightarrow> 'w gate \<Rightarrow> bool" where
  "gate_ok cfg req gate \<longleftrightarrow>
     (\<forall>st. lt_actuations st = [] \<longrightarrow> inert st (snd (gate st)) \<and>
        (\<forall>r. fst (gate st) = Some r \<longrightarrow> gate_answer cfg req st r) \<and>
        (fst (gate st) = None \<longrightarrow> snd (gate st) = st))"

lemma gate_answer_refuse:
  "lt_actuations st = [] \<Longrightarrow> gate_answer cfg req st' (fst (refuse cfg req reason ep broken extra st))"
  by (simp add: gate_answer_def refuse_def Let_def result_of_def emit_def)

lemma inert_emit [simp]: "inert st (emit cfg req d st)"
  by (simp add: inert_def emit_def)

lemma inert_refuse [simp]: "inert st (snd (refuse cfg req reason ep broken extra st))"
  by (simp add: refuse_def Let_def)

lemma inert_typed_block [simp]: "inert st (snd (typed_block cfg req reason broken st))"
  by (simp add: typed_block_def Let_def)

lemma inert_refl [simp]: "inert st st"
  by (simp add: inert_def)

lemma gate_answer_block:
  "lt_actuations st = [] \<Longrightarrow> gate_answer cfg req st' (fst (typed_block cfg req reason broken st))"
  by (simp add: gate_answer_def typed_block_def Let_def result_of_def emit_def)

lemma gates_ok:
  "gate_ok cfg req (authority_gate cfg req)" "gate_ok cfg req (feasibility_gate cfg req)"
  "gate_ok cfg req (resource_gate cfg req)"
  by (simp_all add: gate_ok_def authority_gate_def expiry_gate_def feasibility_gate_def
      resource_gate_def Let_def gate_answer_refuse gate_answer_block)

lemma dedupe_gate_ok: "gate_ok cfg req (dedupe_gate cfg req)"
  unfolding gate_ok_def
proof (intro allI impI)
  fix st :: "'a loop_state"
  assume empty: "lt_actuations st = []"
  show "inert st (snd (dedupe_gate cfg req st)) \<and>
    (\<forall>r. fst (dedupe_gate cfg req st) = Some r \<longrightarrow> gate_answer cfg req st r) \<and>
    (fst (dedupe_gate cfg req st) = None \<longrightarrow> snd (dedupe_gate cfg req st) = st)"
  proof (cases "lt_completed st (rq_idempotency_key req)")
    case (Some entry)
    then show ?thesis
      using empty by (cases entry)
        (simp add: dedupe_gate_def gate_answer_refuse Let_def, simp add: gate_answer_def result_of_def emit_def)
  next
    case None
    show ?thesis
    proof (cases "lt_unreconciled st (rq_idempotency_key req)")
      case (Some prior)
      obtain d reason broken ledger where prior: "prior = (d, reason, broken, ledger)"
        by (cases prior) auto
      show ?thesis
        using None Some empty by (cases "d = lc_request_digest cfg req")
          (simp_all add: prior dedupe_gate_def unreconciled_gate_def Let_def gate_answer_def
            without_ledger_def refuse_def result_of_def emit_def inert_def)
    qed (simp add: None dedupe_gate_def unreconciled_gate_def)
  qed
qed

lemma first_block_ok:
  "\<forall>g \<in> set gates. gate_ok cfg req g \<Longrightarrow> gate_ok cfg req (first_block gates)"
proof (induction gates)
  case Nil
  show ?case by (simp add: gate_ok_def)
next
  case (Cons g gates)
  then have g: "gate_ok cfg req g" and rest: "gate_ok cfg req (first_block gates)" by auto
  show ?case
    unfolding gate_ok_def
  proof (intro allI impI)
    fix st :: "'a loop_state"
    assume empty: "lt_actuations st = []"
    obtain x st1 where gate: "g st = (x, st1)" by fastforce
    then show "inert st (snd (first_block (g # gates) st)) \<and>
      (\<forall>r. fst (first_block (g # gates) st) = Some r \<longrightarrow> gate_answer cfg req st r) \<and>
      (fst (first_block (g # gates) st) = None \<longrightarrow> snd (first_block (g # gates) st) = st)"
      using g [unfolded gate_ok_def, rule_format, OF empty]
        rest [unfolded gate_ok_def, rule_format, OF empty]
      by (cases x) auto
  qed
qed

lemma run_gates_ok: "gate_ok cfg req (run_gates cfg req)"
  unfolding run_gates_def
  by (rule first_block_ok) (simp add: gates_ok dedupe_gate_ok)

end
