(* ===== verification/Loop_Props.thy ===== *)
theory Loop_Props
  imports Loop_Facts
begin

text \<open>
  The contract of the execution loop: every run ends within its budgets in a legal, typed
  outcome; ALIVE comes with a verified, attributed effect; a request that was answered or
  left unreconciled actuations is never executed again; no effect is executed under an expired
  grant. Four theorems show on concrete providers where effects escape the ledger or a receipt
  names a subject that was not the verified one.
\<close>

section \<open>One run\<close>

definition fresh_run :: "'w loop_state \<Rightarrow> 'w loop_state" where
  "fresh_run st = st\<lparr>lt_events := [], lt_actuations := []\<rparr>"

lemma fresh_run_simps [simp]:
  "lt_world (fresh_run st) = lt_world st" "lt_actuations (fresh_run st) = []"
  "lt_completed (fresh_run st) = lt_completed st" "lt_unreconciled (fresh_run st) = lt_unreconciled st"
  by (simp_all add: fresh_run_def)

lemma initial_passes:
  "passes_left req \<lparr>lv_subject_before = s, lv_switches = 0, lv_attempts = 0, lv_moves = 0,
     lv_index = i, lv_faults = 0\<rparr> = pass_bound req - 1"
  by (simp add: passes_left_def pass_bound_def algebra_simps)

text \<open>A run is answered by a gate, or goes through the loop.\<close>

lemma run_body_cases:
  obtains (gate) r st1 where "run_body (pass_bound req) cfg req st = Some (Inr r, st1)"
      "run_gates cfg req (fresh_run st) = (Some r, st1)"
      "gate_answer cfg req (fresh_run st) r" "inert (fresh_run st) st1"
  | (loop) y where "run_body (pass_bound req) cfg req st = Some y"
      "run_gates cfg req (fresh_run st) = (None, fresh_run st)"
      "outcome_ok cfg req (pass_bound req - 1) (fresh_run st) y"
proof -
  obtain a st1 where gates: "run_gates cfg req (fresh_run st) = (a, st1)" by fastforce
  note ok = run_gates_ok [of cfg req, unfolded gate_ok_def, rule_format, of "fresh_run st"]
  show thesis
  proof (cases a)
    case (Some r)
    with gates ok have "gate_answer cfg req (fresh_run st) r" "inert (fresh_run st) st1" by auto
    moreover have "run_body (pass_bound req) cfg req st = Some (Inr r, st1)"
      using gates Some by (simp add: run_body_def flip: fresh_run_def)
    ultimately show thesis using gates Some by (intro gate) simp_all
  next
    case None
    with gates ok have st1: "st1 = fresh_run st" by simp
    define st2 where "st2 = emit cfg req ((draft Execution_start (Text []))\<lparr>le_standing := Some UNKNOWN\<rparr>)
      (fresh_run st)"
    define k where "k = (\<lambda>subject st3. case next_capable_index cfg req 0 st3 of
        None \<Rightarrow> returning (typed_block cfg req (Text ''TYPED_BLOCK_DEPENDENCY_OUTAGE'')
          Dependency_outage st3)
      | Some i \<Rightarrow> (Continue \<lparr>lv_subject_before = subject, lv_switches = 0, lv_attempts = 0,
          lv_moves = 0, lv_index = i, lv_faults = 0\<rparr>, st3))"
    have st2: "kept 0 (fresh_run st) st2" unfolding st2_def by (intro kept_emit kept_refl)
    obtain b st4 where start: "resolve_fresh cfg req k st2 = (b, st4)" by fastforce
    have body: "run_body (pass_bound req) cfg req st = (case b of
        Escaped e \<Rightarrow> Some (Inl e, st4) | Returned r \<Rightarrow> Some (Inr r, st4)
      | Continue v \<Rightarrow> run_passes (pass_bound req) cfg req v st4)"
      using gates None start
      by (simp add: run_body_def Let_def st1 flip: fresh_run_def st2_def k_def split: pass.split)
    obtain y st5 where call: "outside (lp_resolve_subject (hd (lc_providers cfg)) (sj_repo (rq_subject req))) st2 = (y, st5)"
      by fastforce
    note st5 = kept_outside [OF call st2]
    have "(\<exists>e. b = Escaped e \<and> kept 0 (fresh_run st) st4) \<or>
      (\<exists>r. b = Returned r \<and> kept 0 (fresh_run st) st4 \<and> closed_result st4 r) \<or>
      (\<exists>v. b = Continue v \<and> kept 0 (fresh_run st) st4 \<and> passes_left req v = pass_bound req - 1)"
    proof (cases y)
      case (Inl e)
      then show ?thesis
        using start st5 by (cases "as_fault e")
          (auto simp: resolve_fresh_def call typed_block_def Let_def closed_result_def result_of_def
            intro!: kept_emit)
    next
      case (Inr s)
      define st6 where "st6 = (if sj_sha s \<noteq> sj_sha (rq_subject req)
        then emit cfg req ((draft Reconcile_replan
               (Stale_sha (take 12 (sj_sha (rq_subject req))) (take 12 (sj_sha s))))\<lparr>
               le_outcome := Some (outcome_value Replan)\<rparr>) st5 else st5)"
      have st6: "kept 0 (fresh_run st) st6" using st5 by (simp add: st6_def kept_emit)
      have "k s st6 = (b, st4)" using start call Inr by (simp add: resolve_fresh_def st6_def)
      then show ?thesis
        using st6 by (auto simp: k_def initial_passes typed_block_def Let_def closed_result_def
            result_of_def kept_emit split: option.splits)
    qed
    then show thesis
    proof (elim disjE exE conjE)
      fix e assume "b = Escaped e" "kept 0 (fresh_run st) st4"
      then show thesis
        using body gates None st1 outcome_ok_weaken [of cfg req 0 "fresh_run st" "(Inl e, st4)"]
        by (intro loop) (auto simp: outcome_ok_def)
    next
      fix r assume r: "b = Returned r" "kept 0 (fresh_run st) st4" "closed_result st4 r"
      then have "outcome_ok cfg req 0 (fresh_run st) (Inr r, st4)" by (simp add: outcome_ok_def)
      from outcome_ok_weaken [OF this] r body gates None st1 show thesis
        by (intro loop) auto
    next
      fix v assume v: "b = Continue v" "kept 0 (fresh_run st) st4" "passes_left req v = pass_bound req - 1"
      have "0 < pass_bound req" by (simp add: pass_bound_def)
      with v(3) obtain x st7 where run: "run_passes (pass_bound req) cfg req v st4 = Some (x, st7)"
        using run_passes_total [of req v "pass_bound req" cfg st4] by auto
      have "outcome_ok cfg req (pass_bound req - 1) (fresh_run st) (x, st7)"
        using outcome_ok_later [OF v(2) run_passes_ok [OF run]] v(3) by simp
      with run v(1) body gates None st1 show thesis by (intro loop) auto
    qed
  qed
qed

definition remember ::
    "'w loop_config \<Rightarrow> execution_request \<Rightarrow> loop_result \<Rightarrow> 'w loop_state \<Rightarrow> 'w loop_state" where
  "remember cfg req r st =
     (if lr_receipt r = None \<and> lr_actuation_count r > 0
      then st\<lparr>lt_unreconciled := (lt_unreconciled st)(rq_idempotency_key req \<mapsto>
             (lc_request_digest cfg req, lr_typed_reason r, lr_broken_term r, lr_actuations r))\<rparr>
      else st)"

lemma run_request_eq:
  "run_request cfg req st = (case run_body (pass_bound req) cfg req st of
       None \<Rightarrow> None
     | Some (Inl e, st1) \<Rightarrow> Some (Inl e, st1)
     | Some (Inr r, st1) \<Rightarrow> Some (Inr r, remember cfg req r st1))"
  by (simp add: run_request_def remember_def split: option.split sum.split)

lemma remember_simps [simp]:
  "lt_world (remember cfg req r st) = lt_world st"
  "lt_actuations (remember cfg req r st) = lt_actuations st"
  "lt_completed (remember cfg req r st) = lt_completed st"
  by (simp_all add: remember_def)

lemma run_request_cases:
  obtains (gate) r st1 where "run_request cfg req st = Some (Inr r, st1)"
      "run_gates cfg req (fresh_run st) = (Some r, st1)"
      "gate_answer cfg req (fresh_run st) r" "inert (fresh_run st) st1"
  | (escaped) e st1 where "run_request cfg req st = Some (Inl e, st1)"
      "kept (pass_bound req - 1) (fresh_run st) st1"
  | (closed) r st1 where "run_request cfg req st = Some (Inr r, remember cfg req r st1)"
      "kept (pass_bound req - 1) (fresh_run st) st1" "closed_result st1 r"
  | (admitted) r st1 where "run_request cfg req st = Some (Inr r, st1)"
      "kept (pass_bound req - 1) (fresh_run st) (st1\<lparr>lt_completed := lt_completed st\<rparr>)"
      "admitted_result cfg req (fresh_run st) st1 r"
proof (cases rule: run_body_cases [of req cfg st])
  case (gate r st1)
  then have "remember cfg req r st1 = st1" by (simp add: remember_def gate_answer_def)
  with gate that(1) show thesis by (simp add: run_request_eq)
next
  case (loop y)
  obtain x st1 where y: "y = (x, st1)" by (cases y)
  show thesis
  proof (cases x)
    case (Inl e)
    with loop y that(2) show thesis by (simp add: run_request_eq outcome_ok_def)
  next
    case (Inr r)
    from loop(3) y Inr consider "kept (pass_bound req - 1) (fresh_run st) st1" "closed_result st1 r"
      | "kept (pass_bound req - 1) (fresh_run st) (st1\<lparr>lt_completed := lt_completed st\<rparr>)"
        "admitted_result cfg req (fresh_run st) st1 r"
      by (auto simp: outcome_ok_def)
    then show thesis
    proof cases
      case 1
      with loop(1) y Inr that(3) show thesis by (simp add: run_request_eq)
    next
      case 2
      then have "remember cfg req r st1 = st1" by (auto simp: remember_def admitted_result_def)
      with 2 loop(1) y Inr that(4) show thesis by (simp add: run_request_eq)
    qed
  qed
qed

text \<open>C13: Every run ends within its budgets: it performs at most one witnessed actuation per attempt
  over all providers it may switch to, and unless a collaborator's exception escapes, it ends
  in a legal outcome that never waits for a human, ALIVE exactly when there is a receipt, and
  with the ledger's own count.\<close>

theorem loop_run_classified:
  "\<exists>x st'. run_request cfg req st = Some (x, st') \<and>
     length (lt_actuations st') \<le> (lim_max_retries (rq_resource_constraints req) + 1) *
       (lim_max_provider_switches (rq_resource_constraints req) + 1) \<and>
     (case x of
        Inl e \<Rightarrow> True
      | Inr r \<Rightarrow> lr_outcome r \<in> {outcome_value Recover, outcome_value Refuse, outcome_value Typed_block} \<and>
          lr_outcome r \<noteq> wait_for_human_to_notice \<and>
          (lr_standing r = ALIVE \<longleftrightarrow> lr_receipt r \<noteq> None) \<and>
          (lr_standing r = ALIVE \<longleftrightarrow> lr_outcome r = outcome_value Recover) \<and>
          lr_actuation_count r = length (lt_actuations st') \<and> lr_actuations r = lt_actuations st')"
proof (cases rule: run_request_cases [of cfg req st])
  case (gate r st1)
  then show ?thesis
    by (auto simp: gate_answer_def inert_def wait_for_human_to_notice_def)
next
  case (escaped e st1)
  then show ?thesis by (auto simp: kept_def pass_bound_def)
next
  case (closed r st1)
  then show ?thesis
    by (auto simp: kept_def pass_bound_def closed_result_def wait_for_human_to_notice_def)
next
  case (admitted r st1)
  then show ?thesis
    by (auto simp: kept_def pass_bound_def admitted_result_def wait_for_human_to_notice_def)
qed

text \<open>C8: A run that ends ALIVE either replays the receipt of the same request, or its receipt carries
  a digest the verifier accepted, accounts for every actuation of the run with exactly the last
  one admitted, and names a subject that the last effect left in place or declared; on the
  ordinary path that very subject was verified.\<close>

theorem loop_alive_is_verified:
  assumes "run_request cfg req st = Some (Inr r, st')" "lr_standing r = ALIVE"
  shows "\<exists>x. lr_receipt r = Some x \<and>
    (lt_completed st (rq_idempotency_key req) = Some (lc_request_digest cfg req, x) \<or>
     sound_receipt cfg req st' x)"
proof (cases rule: run_request_cases [of cfg req st])
  case (admitted r1 st1)
  with assms(1) show ?thesis by (auto simp: admitted_result_def)
next
  case (gate r1 st1)
  with assms show ?thesis by (auto simp: gate_answer_def)
next
  case (closed r1 st1)
  with assms show ?thesis by (auto simp: closed_result_def)
qed (use assms(1) in simp)

section \<open>Redelivery\<close>

definition known_keys :: "'w loop_state \<Rightarrow> string set" where
  "known_keys st = dom (lt_completed st) \<union> dom (lt_unreconciled st)"

fun run_requests :: "'w loop_config \<Rightarrow> execution_request list \<Rightarrow> 'w loop_state \<Rightarrow> 'w loop_state option"
  where
  "run_requests cfg [] st = Some st"
| "run_requests cfg (req # reqs) st =
     (case run_request cfg req st of
        None \<Rightarrow> None
      | Some (_, st1) \<Rightarrow> run_requests cfg reqs st1)"

lemma known_keys_remember: "known_keys st \<subseteq> known_keys (remember cfg req r st)"
  by (auto simp: known_keys_def remember_def)

lemma known_keys_eq:
  "lt_completed st' = lt_completed st \<Longrightarrow> lt_unreconciled st' = lt_unreconciled st \<Longrightarrow>
   known_keys st' = known_keys st"
  by (simp add: known_keys_def)

lemma known_keys_run:
  assumes "run_request cfg req st = Some (x, st')"
  shows "known_keys st \<subseteq> known_keys st'"
proof (cases rule: run_request_cases [of cfg req st])
  case (gate r st1)
  with assms known_keys_eq [of st1 st] show ?thesis by (auto simp: inert_def)
next
  case (escaped e st1)
  with assms known_keys_eq [of st1 st] show ?thesis by (auto simp: kept_def)
next
  case (closed r st1)
  with assms known_keys_eq [of st1 st] known_keys_remember [of st1 cfg req r] show ?thesis
    by (auto simp: kept_def)
next
  case (admitted r st1)
  with assms show ?thesis by (auto simp: admitted_result_def kept_def known_keys_def)
qed

lemma known_keys_runs: "run_requests cfg reqs st = Some st' \<Longrightarrow> known_keys st \<subseteq> known_keys st'"
proof (induction reqs arbitrary: st)
  case (Cons req reqs)
  then obtain x st1 where "run_request cfg req st = Some (x, st1)" "run_requests cfg reqs st1 = Some st'"
    by (auto split: option.splits)
  with Cons.IH known_keys_run show ?case by blast
qed simp

lemma run_remembers:
  assumes "run_request cfg req st = Some (Inr r, st')" "lr_receipt r \<noteq> None \<or> 0 < lr_actuation_count r"
  shows "rq_idempotency_key req \<in> known_keys st'"
proof (cases rule: run_request_cases [of cfg req st])
  case (gate r1 st1)
  with assms show ?thesis by (auto simp: gate_answer_def inert_def known_keys_def)
next
  case (closed r1 st1)
  with assms show ?thesis by (auto simp: closed_result_def known_keys_def remember_def)
next
  case (admitted r1 st1)
  with assms show ?thesis by (auto simp: admitted_result_def known_keys_def)
qed (use assms(1) in simp)

lemma dedupe_known: "rq_idempotency_key req \<in> known_keys st \<Longrightarrow> fst (dedupe_gate cfg req st) \<noteq> None"
  by (auto simp: known_keys_def dedupe_gate_def unreconciled_gate_def Let_def refuse_def
      split: option.split)

lemma gates_known:
  assumes "rq_idempotency_key req \<in> known_keys st"
  shows "fst (run_gates cfg req st) \<noteq> None \<or> lt_actuations st \<noteq> []"
proof -
  have "fst (first_block (gs @ [dedupe_gate cfg req]) st) \<noteq> None"
    if "\<forall>g \<in> set gs. gate_ok cfg req g" "lt_actuations st = []" for gs
    using that(1)
  proof (induction gs)
    case Nil
    then show ?case using dedupe_known [OF assms, of cfg] by (auto split: prod.split option.split)
  next
    case (Cons g gs)
    obtain x st1 where "g st = (x, st1)" by fastforce
    moreover have "x = None \<longrightarrow> st1 = st"
      using Cons.prems that(2) calculation by (auto simp: gate_ok_def)
    ultimately show ?case using Cons by (cases x) auto
  qed
  moreover have "\<forall>g \<in> set [authority_gate cfg req, feasibility_gate cfg req, resource_gate cfg req].
      gate_ok cfg req g" by (simp add: gates_ok)
  ultimately show ?thesis by (fastforce simp: run_gates_def)
qed

text \<open>C4: Once a run for an idempotency key has ended with a receipt or with witnessed actuations, then
  after any further runs every request under that key is answered without touching the
  outside world at all, and with no new actuation.\<close>

theorem loop_exactly_once:
  assumes "run_request cfg req st = Some (Inr r, st1)" "lr_receipt r \<noteq> None \<or> 0 < lr_actuation_count r"
    and "run_requests cfg reqs st1 = Some st2"
    and "rq_idempotency_key req' = rq_idempotency_key req"
  shows "\<exists>r' st3. run_request cfg req' st2 = Some (Inr r', st3) \<and> lt_world st3 = lt_world st2 \<and>
    lr_actuation_count r' = 0"
proof -
  have "rq_idempotency_key req' \<in> known_keys (fresh_run st2)"
    using run_remembers [OF assms(1,2)] known_keys_runs [OF assms(3)] assms(4)
    by (auto simp: known_keys_def)
  then have "fst (run_gates cfg req' (fresh_run st2)) \<noteq> None"
    using gates_known [of req' "fresh_run st2" cfg] by simp
  then show ?thesis
  proof (cases rule: run_body_cases [of req' cfg st2])
    case (gate r' st3)
    then have "run_request cfg req' st2 = Some (Inr r', st3)"
      by (simp add: run_request_eq remember_def gate_answer_def)
    with gate show ?thesis by (auto simp: inert_def gate_answer_def)
  qed simp
qed

section \<open>Expired grants\<close>

text \<open>The same collaborators, but a provider that is asked to execute under an expired grant does
  \<open>X\<close> instead.\<close>

definition late_provider ::
    "('w \<Rightarrow> int) \<Rightarrow> (execution_request \<Rightarrow> string \<Rightarrow> ('w, effect_report) outside) \<Rightarrow>
     'w loop_provider \<Rightarrow> 'w loop_provider" where
  "late_provider clock X p =
     p\<lparr>lp_execute := (\<lambda>r i w. if grant_expired r (clock w) then X r i w else lp_execute p r i w)\<rparr>"

definition late ::
    "(execution_request \<Rightarrow> string \<Rightarrow> ('w, effect_report) outside) \<Rightarrow> 'w loop_config \<Rightarrow> 'w loop_config"
  where
  "late X cfg = cfg\<lparr>lc_providers := map (late_provider (lc_now cfg) X) (lc_providers cfg)\<rparr>"

named_theorems late_rules \<open>what the other execute does not change\<close>

lemma late_provider_simps [late_rules]:
  "lp_capabilities (late_provider c X p) = lp_capabilities p"
  "lp_transport (late_provider c X p) = lp_transport p"
  "lp_availability (late_provider c X p) = lp_availability p"
  "lp_authority_ceiling (late_provider c X p) = lp_authority_ceiling p"
  "lp_receipt_protocol (late_provider c X p) = lp_receipt_protocol p"
  "lp_current_subject_sha (late_provider c X p) = lp_current_subject_sha p"
  "lp_resolve_subject (late_provider c X p) = lp_resolve_subject p"
  "lp_claim (late_provider c X p) = lp_claim p"
  "lp_fetch_receipt (late_provider c X p) = lp_fetch_receipt p"
  "lp_ack (late_provider c X p) = lp_ack p"
  by (simp_all add: late_provider_def)

lemma late_simps [late_rules]:
  "lc_verify (late X cfg) = lc_verify cfg" "lc_is_valid (late X cfg) = lc_is_valid cfg"
  "lc_disk_mb_available (late X cfg) = lc_disk_mb_available cfg"
  "lc_cpu_cores_available (late X cfg) = lc_cpu_cores_available cfg"
  "lc_events_digest (late X cfg) = lc_events_digest cfg"
  "lc_request_digest (late X cfg) = lc_request_digest cfg"
  "lc_providers (late X cfg) = map (late_provider (lc_now cfg) X) (lc_providers cfg)"
  "now (late X cfg) = now cfg" "advance (late X cfg) = advance cfg"
  by (simp_all add: late_def now_def advance_def fun_eq_iff)

lemma late_capable [late_rules]: "capable req (late_provider c X p) = capable req p"
  by (simp add: capable_def late_rules)

locale nonempty_loop =
  fixes cfg :: "'w loop_config"
  assumes providers: "lc_providers cfg \<noteq> []"
begin

abbreviation "L X \<equiv> late X cfg"

abbreviation "P X p \<equiv> late_provider (lc_now cfg) X p"

lemma late_hd [late_rules]:
  "hd (map (late_provider (lc_now cfg) X) (lc_providers cfg)) = P X (hd (lc_providers cfg))"
  using providers by (simp add: hd_map)

lemma late_emit [late_rules]: "emit (L X) = emit cfg"
  by (intro ext) (unfold emit_def event_objects_def late_rules, rule refl)

lemma late_refuse [late_rules]: "refuse (L X) = refuse cfg"
  by (intro ext) (unfold refuse_def late_rules, rule refl)

lemma late_typed_block [late_rules]: "typed_block (L X) = typed_block cfg"
  by (intro ext) (unfold typed_block_def late_rules, rule refl)

lemma late_verification_event [late_rules]: "verification_event (L X) req (P X p) = verification_event cfg req p"
  by (intro ext) (unfold verification_event_def late_rules, rule refl)

lemma late_verification_failed [late_rules]: "verification_failed (L X) = verification_failed cfg"
  by (intro ext) (unfold verification_failed_def late_rules, rule refl)

lemma late_digest_missing [late_rules]: "effect_digest_missing (L X) = effect_digest_missing cfg"
  by (intro ext) (unfold effect_digest_missing_def late_rules, rule refl)

lemma late_back_off [late_rules]: "back_off (L X) req (P X p) = back_off cfg req p"
  by (intro ext) (unfold back_off_def late_rules, rule refl)

lemma late_on_fault [late_rules]: "on_transport_fault (L X) req (P X p) = on_transport_fault cfg req p"
  by (intro ext) (unfold on_transport_fault_def late_rules, rule refl)

lemma late_record [late_rules]: "record_actuation (L X) req (P X p) = record_actuation cfg req p"
  by (intro ext) (unfold record_actuation_def late_rules, rule refl)

lemma late_build [late_rules]: "build_receipt (L X) req (P X p) = build_receipt cfg req p"
  by (intro ext) (unfold build_receipt_def late_rules, rule refl)

lemma late_expiry [late_rules]: "expiry_gate (L X) = expiry_gate cfg"
  by (intro ext) (unfold expiry_gate_def late_rules, rule refl)

lemma late_authority [late_rules]: "authority_gate (L X) = authority_gate cfg"
  by (intro ext) (unfold authority_gate_def late_rules, rule refl)

lemma late_resource [late_rules]: "resource_gate (L X) = resource_gate cfg"
  by (intro ext) (unfold resource_gate_def late_rules, rule refl)

lemma late_unreconciled [late_rules]: "unreconciled_gate (L X) = unreconciled_gate cfg"
  by (intro ext) (unfold unreconciled_gate_def late_rules, rule refl)

lemma late_dedupe [late_rules]: "dedupe_gate (L X) = dedupe_gate cfg"
  by (intro ext) (unfold dedupe_gate_def late_rules, rule refl)

lemma late_feasibility [late_rules]: "feasibility_gate (L X) = feasibility_gate cfg"
proof -
  have "list_ex (capable req) (map (late_provider (lc_now cfg) X) ps) = list_ex (capable req) ps" for req ps
    by (induction ps) (simp_all add: late_capable)
  then show ?thesis by (intro ext) (unfold feasibility_gate_def late_rules, simp)
qed

lemma late_index [late_rules]: "next_capable_index (L X) req k = next_capable_index cfg req k"
proof (rule ext)
  fix st :: "'w loop_state"
  have "find (\<lambda>i. lp_availability (map (P X) (lc_providers cfg) ! i) (lt_world st) \<and>
      capable req (map (P X) (lc_providers cfg) ! i)) [k..<length (lc_providers cfg)] =
    find (\<lambda>i. lp_availability (lc_providers cfg ! i) (lt_world st) \<and>
      capable req (lc_providers cfg ! i)) [k..<length (lc_providers cfg)]"
    by (rule find_cong) (auto simp: late_rules)
  then show "next_capable_index (L X) req k st = next_capable_index cfg req k st"
    by (simp add: next_capable_index_def late_rules)
qed

lemma late_gates [late_rules]: "run_gates (L X) = run_gates cfg"
  by (intro ext) (unfold run_gates_def late_rules, rule refl)

lemma late_resolve [late_rules]: "resolve_fresh (L X) = resolve_fresh cfg"
  by (intro ext) (unfold resolve_fresh_def late_rules, rule refl)

lemma late_replan [late_rules]: "replan (L X) req (P X p) = replan cfg req p"
  by (intro ext) (unfold replan_def late_rules, rule refl)

lemma late_admit [late_rules]: "admit_receipt (L X) req (P X p) = admit_receipt cfg req p"
  by (intro ext) (unfold admit_receipt_def late_rules, rule refl)

lemma late_finish [late_rules]: "finish_receipt (L X) req (P X p) = finish_receipt cfg req p"
  by (intro ext) (unfold finish_receipt_def late_rules, rule refl)

lemma late_verify_effect [late_rules]: "verify_effect (L X) req (P X p) = verify_effect cfg req p"
  by (intro ext) (unfold verify_effect_def late_rules, rule refl)

lemma late_ack [late_rules]: "ack_receipt (L X) req (P X p) = ack_receipt cfg req p"
  by (intro ext) (unfold ack_receipt_def late_rules, rule refl)

lemma late_retry [late_rules]:
  "verify_retry (L X) req (P X p) s d n k verdict st = verify_retry cfg req p s d n k verdict st"
proof (induction n arbitrary: k verdict st)
  case 0
  then show ?case by (cases verdict) simp
next
  case (Suc n)
  obtain verified why where verdict: "verdict = (verified, why)" by (cases verdict)
  show ?case unfolding verdict verify_retry.simps late_rules Suc.IH ..
qed

lemma late_post_verify [late_rules]: "post_verify (L X) req (P X p) = post_verify cfg req p"
  by (intro ext) (unfold post_verify_def late_rules, rule refl)

lemma late_journal [late_rules]: "journal_path (L X) req (P X p) = journal_path cfg req p"
  by (intro ext) (unfold journal_path_def late_rules, rule refl)

lemma late_crash [late_rules]: "crash_path (L X) req (P X p) = crash_path cfg req p"
  by (intro ext) (unfold crash_path_def late_rules, rule refl)

lemma late_live [late_rules]: "live_path (L X) req (P X p) = live_path cfg req p"
  by (intro ext) (unfold live_path_def late_rules, rule refl)

lemma late_nth: "i < length (lc_providers cfg) \<Longrightarrow> lc_providers (L X) ! i = P X (lc_providers cfg ! i)"
  by (simp add: late_rules)

lemma late_substitute [late_rules]: "substitute (L X) req kind v st = substitute cfg req kind v st"
proof (cases "next_capable_index cfg req (lv_index v + 1) st")
  case None
  then show ?thesis unfolding substitute_def late_rules by simp
next
  case (Some i)
  then have "map (P X) (lc_providers cfg) ! i = P X (lc_providers cfg ! i)"
    using next_capable_index_SomeD [OF Some] by simp
  then show ?thesis
    unfolding substitute_def late_rules Some option.case by (simp only: late_rules)
qed

lemma late_claim_fault [late_rules]: "claim_fault (L X) req (P X p) = claim_fault cfg req p"
  by (intro ext) (unfold claim_fault_def late_rules, rule refl)

lemma late_execute_fault [late_rules]: "execute_fault (L X) req (P X p) = execute_fault cfg req p"
  by (intro ext) (unfold execute_fault_def late_rules, rule refl)

lemma late_execute_step:
  assumes "\<not> grant_expired req (now cfg st)"
  shows "execute_step (L X) req (P X p) pin v st = execute_step cfg req p pin v st"
proof -
  have "outside (lp_execute (P X p) req (pn_provider_execution_id pin)) st =
      outside (lp_execute p req (pn_provider_execution_id pin)) st"
    using assms by (simp add: outside_def late_provider_def now_def)
  then show ?thesis unfolding execute_step_def late_rules by simp
qed

lemma late_pass:
  assumes "lv_index v < length (lc_providers cfg)"
  shows "loop_pass (L X) req v st = loop_pass cfg req v st"
proof -
  have step: "(case expiry_gate cfg req s of (None, s') \<Rightarrow> execute_step (L X) req (P X p) pin w s'
      | (Some r, s') \<Rightarrow> (Returned r, s')) =
    (case expiry_gate cfg req s of (None, s') \<Rightarrow> execute_step cfg req p pin w s'
      | (Some r, s') \<Rightarrow> (Returned r, s'))" for s p pin w
    by (cases rule: expiry_gate_cases [of cfg req s]) (simp_all add: late_execute_step)
  have nth: "map (P X) (lc_providers cfg) ! lv_index (v\<lparr>lv_attempts := n\<rparr>) =
      P X (lc_providers cfg ! lv_index (v\<lparr>lv_attempts := n\<rparr>))" for n
    using assms by simp
  show ?thesis
    unfolding loop_pass_def Let_def late_rules nth step ..
qed

lemma late_passes:
  "lv_index v < length (lc_providers cfg) \<Longrightarrow> run_passes n (L X) req v st = run_passes n cfg req v st"
proof (induction n arbitrary: v st)
  case (Suc n)
  obtain b st1 where pass: "loop_pass cfg req v st = (b, st1)" by fastforce
  show ?case
  proof (cases b)
    case (Continue v')
    with loop_pass_Continue(3) [OF pass [unfolded Continue]] Suc pass late_pass [OF Suc.prems]
    show ?thesis by simp
  qed (use pass late_pass [OF Suc.prems] in simp_all)
qed simp

lemma late_run: "run_request (L X) req st = run_request cfg req st"
proof -
  have "run_body n (L X) req st = run_body n cfg req st" for n
  proof -
    define start where "start = (\<lambda>subject st3. case next_capable_index cfg req 0 st3 of
        None \<Rightarrow> returning (typed_block cfg req (Text ''TYPED_BLOCK_DEPENDENCY_OUTAGE'')
          Dependency_outage st3)
      | Some i \<Rightarrow> (Continue \<lparr>lv_subject_before = subject, lv_switches = 0, lv_attempts = 0,
          lv_moves = 0, lv_index = i, lv_faults = 0\<rparr>, st3))"
    have index: "lv_index v < length (lc_providers cfg)"
      if "resolve_fresh cfg req start s = (Continue v, s')" for s v s'
      using that
      by (auto simp: resolve_fresh_def start_def split: prod.splits sum.splits option.splits
          dest!: next_capable_index_SomeD)
    have eq: "(case resolve_fresh cfg req start s of (Escaped e, s') \<Rightarrow> Some (Inl e, s')
        | (Returned r, s') \<Rightarrow> Some (Inr r, s') | (Continue v, s') \<Rightarrow> run_passes n (L X) req v s') =
      (case resolve_fresh cfg req start s of (Escaped e, s') \<Rightarrow> Some (Inl e, s')
        | (Returned r, s') \<Rightarrow> Some (Inr r, s') | (Continue v, s') \<Rightarrow> run_passes n cfg req v s')" for s
      using index [of s] by (auto simp: late_passes split: prod.split pass.split)
    show ?thesis unfolding run_body_def Let_def late_rules start_def [symmetric] eq ..
  qed
  then show ?thesis unfolding run_request_def late_rules by simp
qed

end

text \<open>The model's loop: the constructor refuses an empty sequence of providers.\<close>

interpretation two_provider: nonempty_loop "cfg\<lparr>lc_providers := p # ps\<rparr>" for cfg :: "'w loop_config" and p ps
  by unfold_locales simp

text \<open>C19: No provider is ever asked to execute under an expired grant: whatever \<open>execute\<close> would do at
  a tick at which the grant has expired, the run is the same.\<close>

theorem expired_never_executes:
  assumes "make_loop cfg w = Inr st0"
  shows "run_request (late X cfg) req st = run_request cfg req st"
proof -
  have "lc_providers cfg \<noteq> []" using assms by (auto simp: make_loop_def split: if_splits)
  then obtain p ps where "lc_providers cfg = p # ps" by (cases "lc_providers cfg") auto
  then have "cfg\<lparr>lc_providers := p # ps\<rparr> = cfg" by simp
  with two_provider.late_run [where cfg = cfg and p = p and ps = ps] show ?thesis by simp
qed

section \<open>A concrete provider\<close>

text \<open>
  A world that counts the effects really applied and the reads of the subject, and a provider
  built from how its \<open>execute\<close>, \<open>fetch_receipt\<close> and \<open>ack\<close> end.
\<close>

record demo_world =
  dw_effects :: nat
  dw_reads :: nat
  dw_clock :: int

definition demo_request :: execution_request where
  "demo_request =
     \<lparr>rq_work_order = ''wo'', rq_capability_requirements = [''deploy''],
      rq_subject = \<lparr>sj_repo = ''repo'', sj_sha = ''aaaaaaa''\<rparr>,
      rq_authority = \<lparr>ag_ceiling = ''DO'', ag_grant = ''g'', ag_actor = ''a'',
        ag_expires_at_tick = Some 50\<rparr>,
      rq_evidence_requirements = [''tests''],
      rq_resource_constraints = \<lparr>lim_deadline_ticks = 200, lim_max_retries = 3,
        lim_max_provider_switches = 2, lim_max_subject_moves = 2, lim_disk_budget_mb = 0,
        lim_cpu_budget_cores = 0\<rparr>,
      rq_idempotency_key = ''wo''\<rparr>"

definition demo_effect :: effect_report where
  "demo_effect = \<lparr>ef_subject_after_sha = None, ef_effect_digest = Some ''d'', ef_consequence = []\<rparr>"

definition demo_provider ::
    "(execution_request \<Rightarrow> string \<Rightarrow> (demo_world, effect_report) outside) \<Rightarrow>
     (demo_world, effect_report option) outside \<Rightarrow> (demo_world, unit) outside \<Rightarrow>
     (demo_world \<Rightarrow> string) \<Rightarrow> demo_world loop_provider" where
  "demo_provider execute fetch ack sha =
     \<lparr>lp_capabilities = [''deploy''], lp_transport = ''t'', lp_availability = (\<lambda>_. True),
      lp_authority_ceiling = ''DO'', lp_receipt_protocol = ''r'',
      lp_current_subject_sha = (\<lambda>_ w. (Inr (sha w), w\<lparr>dw_reads := dw_reads w + 1\<rparr>)),
      lp_resolve_subject = (\<lambda>repo w. (Inr \<lparr>sj_repo = repo, sj_sha = ''aaaaaaa''\<rparr>, w)),
      lp_claim = (\<lambda>_ w. (Inr \<lparr>pn_provider_execution_id = ''x'', pn_pinned_subject_sha = ''aaaaaaa''\<rparr>, w)),
      lp_execute = execute, lp_fetch_receipt = (\<lambda>_. fetch), lp_ack = (\<lambda>_. ack)\<rparr>"

definition demo_loop :: "demo_world loop_provider \<Rightarrow> demo_world loop_config" where
  "demo_loop p =
     \<lparr>lc_providers = [p],
      lc_verify = (\<lambda>subject d _ w. (Inr (sj_sha subject \<in> {''aaaaaaa'', ''bbbbbbb''}, ''checked''), w)),
      lc_is_valid = (\<lambda>_ _. True), lc_disk_mb_available = (\<lambda>_. 1), lc_cpu_cores_available = (\<lambda>_. 1),
      lc_now = dw_clock, lc_advance = (\<lambda>n w. w\<lparr>dw_clock := dw_clock w + n\<rparr>),
      lc_events_digest = (\<lambda>_. ''e''), lc_request_digest = rq_work_order\<rparr>"

definition demo_start :: "demo_world loop_state" where
  "demo_start = new_loop \<lparr>dw_effects = 0, dw_reads = 0, dw_clock = 0\<rparr>"

definition apply_effect :: "demo_world \<Rightarrow> demo_world" where
  "apply_effect w = w\<lparr>dw_effects := dw_effects w + 1\<rparr>"

definition steady :: "demo_world \<Rightarrow> string" where
  "steady _ = ''aaaaaaa''"

abbreviation good_ack :: "(demo_world, unit) outside" where
  "good_ack \<equiv> (\<lambda>w. (Inr (), w))"

definition plain_provider :: "demo_world loop_provider" where
  "plain_provider = demo_provider (\<lambda>_ _ w. (Inr demo_effect, apply_effect w)) (\<lambda>w. (Inr None, w)) good_ack steady"

definition run_twice ::
    "demo_world loop_provider \<Rightarrow> (loop_exn + loop_result) option \<times> (loop_exn + loop_result) option \<times> nat" where
  "run_twice p =
     (case run_request (demo_loop p) demo_request demo_start of
        None \<Rightarrow> (None, None, 0)
      | Some (x, st) \<Rightarrow>
          (case run_request (demo_loop p) demo_request st of
             None \<Rightarrow> (Some x, None, dw_effects (lt_world st))
           | Some (y, st') \<Rightarrow> (Some x, Some y, dw_effects (lt_world st'))))"

definition seen :: "(loop_exn + loop_result) option \<Rightarrow> string \<times> nat" where
  "seen x = (case x of None \<Rightarrow> (''none'', 0) | Some (Inl _) \<Rightarrow> (''escaped'', 0)
     | Some (Inr r) \<Rightarrow> (lr_outcome r, lr_actuation_count r))"

lemmas demo_loop_simps = run_request_def run_body_def run_gates_def authority_gate_def
  expiry_gate_def grant_expired_def feasibility_gate_def resource_gate_def dedupe_gate_def
  unreconciled_gate_def without_ledger_def Let_def resolve_fresh_def outside_def next_capable_index_def
  capable_def ceiling_at_least_def ceiling_rank_def emit_def now_def draft_def
  event_objects_def loop_pass_def execute_step_def live_path_def calling_def record_actuation_def
  subject_attributable_def digest_missing_def effect_digest_text_def with_subject_def make_subject_def
  valid_sha_def verification_event_def post_verify_def finish_receipt_def build_receipt_def advance_def
  ack_receipt_def admit_receipt_def result_of_def typed_block_def pass_bound_def
  crash_path_def journal_path_def execute_fault_def back_off_def verify_effect_def replan_def
  verification_failed_def refuse_def

lemmas demo_simps = demo_request_def demo_effect_def demo_provider_def demo_loop_def demo_start_def
  apply_effect_def steady_def plain_provider_def new_loop_def run_twice_def seen_def

lemma upper_DO [simp]: "upper ''DO'' = ''DO''"
  by code_simp

lemma plain_run: "case run_twice plain_provider of (x, y, n) \<Rightarrow>
    seen x = (''Recover'', 1) \<and> seen y = (''Recover'', 0) \<and> n = 1"
  by (simp add: demo_simps demo_loop_simps eval_nat_numeral)

lemma plain_first:
  "\<exists>r st'. run_request (demo_loop plain_provider) demo_request demo_start = Some (Inr r, st') \<and>
     lr_standing r = ALIVE \<and> lr_receipt r \<noteq> None \<and> lt_completed demo_start = (\<lambda>_. None)"
  by (simp add: demo_simps demo_loop_simps eval_nat_numeral)

theorem loop_alive_is_verified_witness:
  "\<exists>r st' x. run_request (demo_loop plain_provider) demo_request demo_start = Some (Inr r, st') \<and>
     lr_receipt r = Some x \<and> sound_receipt (demo_loop plain_provider) demo_request st' x"
proof -
  obtain r st' where run: "run_request (demo_loop plain_provider) demo_request demo_start = Some (Inr r, st')"
      "lr_standing r = ALIVE" "lt_completed demo_start = (\<lambda>_. None)"
    using plain_first by blast
  from loop_alive_is_verified [OF run(1,2)] run(1,3) show ?thesis by auto
qed

text \<open>The same request again, after another run, and another request under its key.\<close>

theorem loop_exactly_once_witness:
  "\<exists>r1 r2 st1 st2 st3. run_request (demo_loop plain_provider) demo_request demo_start = Some (Inr r1, st1) \<and>
     run_requests (demo_loop plain_provider) [demo_request\<lparr>rq_idempotency_key := ''other''\<rparr>] st1 = Some st2 \<and>
     run_request (demo_loop plain_provider) (demo_request\<lparr>rq_work_order := ''changed''\<rparr>) st2 = Some (Inr r2, st3) \<and>
     lt_world st3 = lt_world st2 \<and> lr_actuation_count r2 = 0"
proof -
  obtain r1 st1 where run: "run_request (demo_loop plain_provider) demo_request demo_start = Some (Inr r1, st1)"
      "lr_receipt r1 \<noteq> None" using plain_first by blast
  obtain x st2 where "run_request (demo_loop plain_provider)
      (demo_request\<lparr>rq_idempotency_key := ''other''\<rparr>) st1 = Some (x, st2)"
    by (cases rule: run_request_cases [of "demo_loop plain_provider"
          "demo_request\<lparr>rq_idempotency_key := ''other''\<rparr>" st1]) auto
  then have rest: "run_requests (demo_loop plain_provider)
      [demo_request\<lparr>rq_idempotency_key := ''other''\<rparr>] st1 = Some st2" by simp
  have "rq_idempotency_key (demo_request\<lparr>rq_work_order := ''changed''\<rparr>) = rq_idempotency_key demo_request"
    by simp
  from loop_exactly_once [OF run(1) disjI1 [OF run(2)] rest this] run(1) rest show ?thesis by blast
qed

text \<open>A provider that would break under an expired grant is never asked to.\<close>

theorem expired_never_executes_witness:
  "\<exists>st0. make_loop (demo_loop plain_provider) \<lparr>dw_effects = 0, dw_reads = 0, dw_clock = 0\<rparr> = Inr st0 \<and>
     run_request (late (\<lambda>_ _ w. (Inl (Other_exn (key_error ''expired'')), w)) (demo_loop plain_provider))
       demo_request st0 = run_request (demo_loop plain_provider) demo_request st0"
proof -
  have "make_loop (demo_loop plain_provider) \<lparr>dw_effects = 0, dw_reads = 0, dw_clock = 0\<rparr> = Inr demo_start"
    by (simp add: make_loop_def demo_loop_def demo_start_def)
  from this expired_never_executes [OF this] show ?thesis by blast
qed

section \<open>Effects outside the ledger\<close>

text \<open>
  A transport fault that says the effect was applied before it: only a crashed worker's
  \<open>applied_before\<close> is read, so the request is executed again. Two effects, one in the ledger.
\<close>

definition lost_response :: "demo_world loop_provider" where
  "lost_response = demo_provider
     (\<lambda>_ _ w. (if dw_effects w = 0 then Inl (Transport_fault ''timeout'' 1 True) else Inr demo_effect,
        apply_effect w)) (\<lambda>w. (Inr None, w)) good_ack steady"

theorem applied_fault_reexecutes:
  "case run_request (demo_loop lost_response) demo_request demo_start of
     Some (Inr r, st) \<Rightarrow> lr_standing r = ALIVE \<and> lr_actuation_count r = 1 \<and>
       dw_effects (lt_world st) = 2
   | _ \<Rightarrow> False"
  by (simp add: lost_response_def demo_simps demo_loop_simps eval_nat_numeral)

text \<open>
  A worker that crashed after the effect and whose journal is empty: the run knows of the
  actuation and blocks, but the ledger is empty, the key is not remembered, and a redelivery
  executes again.
\<close>

definition lost_journal :: "demo_world loop_provider" where
  "lost_journal = demo_provider
     (\<lambda>_ _ w. (Inl (Worker_crashed True ''after''), apply_effect w)) (\<lambda>w. (Inr None, w)) good_ack steady"

theorem lost_receipt_not_remembered:
  "case run_twice lost_journal of (x, y, n) \<Rightarrow>
     seen x = (''TypedBlock'', 0) \<and> seen y = (''TypedBlock'', 0) \<and> n = 2"
  by (simp add: lost_journal_def demo_simps demo_loop_simps eval_nat_numeral)

text \<open>
  An exception that escapes after the actuation (here from the recovery of a lost
  acknowledgement, with the receipt already built) leaves nothing behind: a redelivery executes
  again.
\<close>

definition lost_ack :: "demo_world loop_provider" where
  "lost_ack = demo_provider (\<lambda>_ _ w. (Inr demo_effect, apply_effect w))
     (\<lambda>w. (Inl (Transport_fault ''partition'' 1 False), w))
     (\<lambda>w. (Inl (Transport_fault ''partition'' 1 False), w)) steady"

theorem escaped_run_reexecutes:
  "case run_twice lost_ack of (x, y, n) \<Rightarrow> seen x = (''escaped'', 0) \<and> seen y = (''escaped'', 0) \<and> n = 2"
  by (simp add: lost_ack_def demo_simps demo_loop_simps eval_nat_numeral)

text \<open>
  On the journal path the subject is read twice: the receipt names the first reading, the
  verifier sees the second, and nothing compares them.
\<close>

definition journal_provider :: "demo_world loop_provider" where
  "journal_provider = demo_provider
     (\<lambda>_ _ w. (Inl (Worker_crashed True ''after''), apply_effect w)) (\<lambda>w. (Inr (Some demo_effect), w)) good_ack
     (\<lambda>w. if dw_reads w = 0 then ''aaaaaaa'' else ''bbbbbbb'')"

definition rejecting :: "demo_world loop_config \<Rightarrow> demo_world loop_config" where
  "rejecting cfg = cfg\<lparr>lc_verify := (\<lambda>subject d _ w. (Inr (sj_sha subject = ''bbbbbbb'', ''checked''), w))\<rparr>"

theorem journal_receipt_names_unverified_subject:
  "case run_request (rejecting (demo_loop journal_provider)) demo_request demo_start of
     Some (Inr r, st) \<Rightarrow> lr_standing r = ALIVE \<and>
       map_option (sj_sha \<circ> xr_subject_after) (lr_receipt r) = Some ''aaaaaaa'' \<and>
       (\<forall>d w. lc_verify (rejecting (demo_loop journal_provider)) \<lparr>sj_repo = ''repo'', sj_sha = ''aaaaaaa''\<rparr>
          d demo_request w = (Inr (False, ''checked''), w))
   | _ \<Rightarrow> False"
  by (simp add: rejecting_def journal_provider_def demo_simps demo_loop_simps eval_nat_numeral)

text \<open>
  The log declares object identifiers where it should declare object types: no type of any of
  its objects is among the declared ones.
\<close>

definition one_event :: loop_result where
  "one_event = (result_of Refuse REFUSED FAILED None None None
     (emit (demo_loop plain_provider) demo_request (draft Refuse_event (Text [])) demo_start))"

theorem log_declares_identifiers:
  "(\<forall>(t, i) \<in> set (ll_objects (loop_log_sections [one_event])).
      t \<notin> set (ll_object_types (loop_log_sections [one_event])))"
  by (simp add: loop_log_sections_def log_objects_def one_event_def result_of_def emit_def draft_def
      event_objects_def demo_simps Let_def)

end
