(* ===== verification/Autonomic.thy ===== *)
theory Autonomic
  imports Crown
begin

text \<open>
  The autonomic layer over the broker: \<open>AutonomicController\<close> of \<open>src/gymact/autonomic.py\<close> (one
  bounded MONITOR, ANALYZE, PLAN, EXECUTE, KNOWLEDGE cycle over a production runtime),
  \<open>AutonomicAutomation\<close> of \<open>src/gymact/automation.py\<close>, and the plan binding of
  \<open>src/gymact/planning.py\<close>. The grant issuer is injected policy: a function of the world that
  may raise. An exception that leaves \<open>run\<close> is \<open>Inl\<close>, with the runtime as it was left.
\<close>

section \<open>Vocabulary\<close>

datatype autonomic_phase = MONITOR | ANALYZE | PLAN | EXECUTE | KNOWLEDGE

datatype failure_class =
    Fc_none | Fc_configuration | Fc_authority | Fc_dependency | Fc_capability | Fc_execution
  | Fc_verification | Fc_uncertain

record phase_record =
  ph_phase :: autonomic_phase
  ph_standing :: standing
  ph_reason :: string
  ph_evidence_refs :: "string list"

record autonomic_knowledge =
  kn_failure_class :: failure_class
  kn_pre_state_digest :: "string option"
  kn_post_state_digest :: "string option"
  kn_verification_ref :: "string option"
  kn_verified :: bool
  kn_world_changed :: "bool option"
  kn_evidence_refs :: "string list"

record grant_issue =
  gi_standing :: standing
  gi_grant :: "execution_grant option"
  gi_reason :: string

definition admitted_issue_requires_grant :: "grant_issue \<Rightarrow> grant_issue res" where
  "admitted_issue_requires_grant issue =
     (if gi_standing issue = ALIVE \<and> gi_grant issue = None
      then Inl (value_error ''ALIVE_GRANT_ISSUE_REQUIRES_GRANT'') else Inr issue)"

text \<open>\<open>GrantIssuer.issue(action, prepared, admitted_observation_ref, authority_ref)\<close>.\<close>

type_synonym 'w grant_issuer =
  "action_definition \<Rightarrow> prepared_action \<Rightarrow> string \<Rightarrow> string option \<Rightarrow> 'w \<Rightarrow> grant_issue res \<times> 'w"

definition bounded_grant ::
    "string \<Rightarrow> string \<Rightarrow> action_definition \<Rightarrow> prepared_action \<Rightarrow> string \<Rightarrow> string \<Rightarrow> execution_grant res"
  where
  "bounded_grant issuer_principal policy_revision action prepared admitted_observation_ref authority_ref =
     bind_res (require_nonempty [issuer_principal, ac_semantic_id action, ac_capability_ref action,
         authority_ref, policy_revision, admitted_observation_ref, pa_idempotency_key prepared]) (\<lambda>_.
       Inr \<lparr>eg_principal = issuer_principal, eg_delegated_principal = None,
         eg_action_ref = ac_semantic_id action, eg_subject = pa_subject prepared,
         eg_capability_ref = ac_capability_ref action, eg_authority_ref = authority_ref,
         eg_policy_revision = policy_revision,
         eg_admitted_observation_ref = admitted_observation_ref,
         eg_intended_effects = ac_expected_effects action,
         eg_scope_refs = [sr_semantic_id (pa_subject prepared), sr_provider_ref (pa_subject prepared)],
         eg_expires_at = None, eg_nonce = pa_idempotency_key prepared\<rparr>)"

definition bounded_issue :: "string list \<Rightarrow> string \<Rightarrow> string \<Rightarrow> 'w grant_issuer" where
  "bounded_issue allowed issuer_principal policy_revision action prepared admitted_observation_ref
       authority_ref w =
     (case authority_ref of
        Some ref \<Rightarrow>
          if ref \<in> set allowed
          then bind_res (bounded_grant issuer_principal policy_revision action prepared
                   admitted_observation_ref ref) (\<lambda>grant.
                 admitted_issue_requires_grant
                   \<lparr>gi_standing = ALIVE, gi_grant = Some grant, gi_reason = ''GRANT_ISSUED''\<rparr>)
          else Inr \<lparr>gi_standing = REFUSED, gi_grant = None, gi_reason = ''AUTHORITY_NOT_ADMITTED''\<rparr>
      | None \<Rightarrow> Inr \<lparr>gi_standing = REFUSED, gi_grant = None, gi_reason = ''AUTHORITY_NOT_ADMITTED''\<rparr>,
      w)"

record consequence_request =
  cq_request_id :: string
  cq_provider :: string
  cq_scenario :: "string option"
  cq_config :: dict
  cq_capability_ref :: "string option"
  cq_capability_binding :: "string option"
  cq_payload :: dict
  cq_expected :: dict
  cq_authority_ref :: "string option"
  cq_subject_revision :: "string option"
  cq_action_ref :: "string option"
  cq_input_schema :: dict
  cq_idempotency_key :: string
  cq_require_verification :: bool

definition consequence_request_validate :: "consequence_request \<Rightarrow> consequence_request res" where
  "consequence_request_validate r =
     bind_res (require_nonempty [cq_request_id r, cq_provider r, cq_idempotency_key r]) (\<lambda>_.
       if cq_capability_ref r \<noteq> None \<and> cq_capability_binding r \<noteq> None
       then Inl (value_error ''CAPABILITY_SELECTOR_MUST_USE_REF_OR_BINDING_NOT_BOTH'')
       else if cq_require_verification r \<and> cq_expected r = []
       then Inl (value_error ''VERIFIED_AUTONOMIC_EXECUTION_REQUIRES_EXPECTED_STATE'')
       else Inr r)"

record autonomic_outcome =
  ao_request_id :: string
  ao_provider :: string
  ao_standing :: standing
  ao_episode_id :: "string option"
  ao_capability_ref :: "string option"
  ao_reason :: string
  ao_verified :: bool
  ao_cleanup_standing :: "standing option"
  ao_phase_records :: "phase_record list"
  ao_knowledge :: autonomic_knowledge
  ao_receipt_ids :: "string list"

section \<open>Analysis\<close>

definition select_capability ::
    "capability list \<Rightarrow> consequence_request \<Rightarrow> capability option \<times> standing \<times> string" where
  "select_capability items request =
     (let do_capabilities = filter (\<lambda>c. cap_consequence c = CONS_DO) items;
          matches = (case cq_capability_ref request of
              Some ref \<Rightarrow> filter (\<lambda>c. cap_iri c = ref) do_capabilities
            | None \<Rightarrow>
                (case cq_capability_binding request of
                   Some binding \<Rightarrow> filter (\<lambda>c. cap_binding c = binding) do_capabilities
                 | None \<Rightarrow> do_capabilities))
      in case matches of
           [] \<Rightarrow> (None, UNSUPPORTED, ''NO_MATCHING_DO_CAPABILITY'')
         | [c] \<Rightarrow> (Some c, STRUCTURAL, ''CAPABILITY_SELECTED'')
         | _ \<Rightarrow> (None, REQUIRES_CONFIGURATION, ''AMBIGUOUS_DO_CAPABILITY''))"

text \<open>\<open>str.upper\<close> on ASCII letters, and \<open>needle in s\<close>.\<close>

definition ascii_upper :: "string \<Rightarrow> string" where
  "ascii_upper s = map (\<lambda>c. if 97 \<le> (of_char c :: nat) \<and> (of_char c :: nat) \<le> 122
     then char_of ((of_char c :: nat) - 32) else c) s"

fun occurs_in :: "string \<Rightarrow> string \<Rightarrow> bool" where
  "occurs_in needle [] \<longleftrightarrow> needle = []"
| "occurs_in needle (c # s) \<longleftrightarrow> starts_with needle (c # s) \<or> occurs_in needle s"

definition mentions :: "string list \<Rightarrow> string \<Rightarrow> bool" where
  "mentions needles s \<longleftrightarrow> list_ex (\<lambda>needle. occurs_in needle s) needles"

definition failure_class_of :: "standing \<Rightarrow> string \<Rightarrow> failure_class" where
  "failure_class_of standing reason =
     (let s = ascii_upper reason
      in if standing = ALIVE then Fc_none
         else if standing = UNCERTAIN then Fc_uncertain
         else if mentions [''AUTHORITY'', ''GRANT'', ''POLICY''] s then Fc_authority
         else if mentions [''CONFIG'', ''AMBIGUOUS''] s then Fc_configuration
         else if mentions [''CAPABILITY'', ''UNSUPPORTED''] s then Fc_capability
         else if mentions [''VERIFY'', ''POSTCONDITION''] s then Fc_verification
         else if mentions [''MISSING'', ''UNAVAILABLE'', ''DEPEND''] s then Fc_dependency
         else Fc_execution)"

section \<open>The closing step\<close>

text \<open>What \<open>_finish\<close> takes besides the request, the phase records and the episode.\<close>

record closing =
  fi_standing :: standing
  fi_reason :: string
  fi_capability_ref :: "string option"
  fi_verified :: bool
  fi_pre_state_digest :: "string option"
  fi_post_state_digest :: "string option"
  fi_verification_ref :: "string option"
  fi_world_changed :: "bool option"

definition plain_closing :: "standing \<Rightarrow> string \<Rightarrow> closing" where
  "plain_closing stand reason =
     \<lparr>fi_standing = stand, fi_reason = reason, fi_capability_ref = None, fi_verified = False,
      fi_pre_state_digest = None, fi_post_state_digest = None, fi_verification_ref = None,
      fi_world_changed = None\<rparr>"

definition unchanged_closing :: "standing \<Rightarrow> string \<Rightarrow> string option \<Rightarrow> string \<Rightarrow> closing" where
  "unchanged_closing stand reason capability_ref state_digest =
     (plain_closing stand reason)
       \<lparr>fi_capability_ref := capability_ref, fi_pre_state_digest := Some state_digest,
        fi_post_state_digest := Some state_digest, fi_world_changed := Some False\<rparr>"

definition add_ref :: "string \<Rightarrow> string list \<Rightarrow> string list" where
  "add_ref ref refs = (if ref \<in> set refs then refs else refs @ [ref])"

definition gathered_evidence ::
    "('p, 'h, 'w) gym \<Rightarrow> string option \<Rightarrow> phase_record list \<Rightarrow> string list" where
  "gathered_evidence g episode_id records =
     fold add_ref (concat (map ph_evidence_refs records))
       (case episode_id of
          None \<Rightarrow> []
        | Some eid \<Rightarrow> fold add_ref (map rc_receipt_id (episode_receipts g eid)) [])"

definition closed_outcome ::
    "consequence_request \<Rightarrow> phase_record list \<Rightarrow> string option \<Rightarrow> closing \<Rightarrow> standing option \<Rightarrow>
       string list \<Rightarrow> autonomic_outcome" where
  "closed_outcome request records episode_id c cleanup evidence =
     \<lparr>ao_request_id = cq_request_id request, ao_provider = cq_provider request,
      ao_standing = fi_standing c, ao_episode_id = episode_id,
      ao_capability_ref = fi_capability_ref c, ao_reason = fi_reason c,
      ao_verified = fi_verified c, ao_cleanup_standing = cleanup, ao_phase_records = records,
      ao_knowledge =
        \<lparr>kn_failure_class = failure_class_of (fi_standing c) (fi_reason c),
         kn_pre_state_digest = fi_pre_state_digest c,
         kn_post_state_digest = fi_post_state_digest c,
         kn_verification_ref = fi_verification_ref c, kn_verified = fi_verified c,
         kn_world_changed = fi_world_changed c, kn_evidence_refs = evidence\<rparr>,
      ao_receipt_ids = evidence\<rparr>"

definition finish ::
    "('p, 'h, 'w) gym_config \<Rightarrow> consequence_request \<Rightarrow> phase_record list \<Rightarrow> string option \<Rightarrow> closing \<Rightarrow>
       (('p, 'h, 'w) gym, autonomic_outcome) action" where
  "finish cfg request records episode_id c g =
     (case episode_id of
        None \<Rightarrow>
          (Inr (closed_outcome request records None c None (gathered_evidence g None records)), g)
      | Some eid \<Rightarrow>
          (case teardown cfg eid (cq_authority_ref request) g of
             (r, g1) \<Rightarrow>
               (Inr (closed_outcome request records (Some eid) c
                   (Some (case r of Inl _ \<Rightarrow> BLOCKED | Inr cleanup \<Rightarrow> rc_standing cleanup))
                   (gathered_evidence g1 (Some eid) records)), g1)))"

section \<open>The cycle\<close>

definition or_default :: "string option \<Rightarrow> string \<Rightarrow> string" where
  "or_default s fallback = (case s of None \<Rightarrow> fallback | Some t \<Rightarrow> if t = [] then fallback else t)"

definition autonomic_subject :: "consequence_request \<Rightarrow> episode \<Rightarrow> subject_ref res" where
  "autonomic_subject request episode =
     bind_res (require_nonempty [ep_environment_id episode, cq_provider request]) (\<lambda>_.
       Inr \<lparr>sr_semantic_id = ep_environment_id episode, sr_provider_ref = cq_provider request,
         sr_revision = cq_subject_revision request\<rparr>)"

definition autonomic_action :: "consequence_request \<Rightarrow> capability \<Rightarrow> action_definition" where
  "autonomic_action request cap =
     \<lparr>ac_semantic_id = or_default (cq_action_ref request)
        (''urn:gymact:autonomic-action:'' @ cq_provider request @ '':'' @ cap_binding cap),
      ac_provider_ref = cq_provider request, ac_capability_ref = cap_iri cap,
      ac_subject_type = ''urn:gymact:Environment'', ac_input_schema = cq_input_schema request,
      ac_output_schema = [], ac_preconditions = [],
      ac_authority = \<lparr>ar_capability_refs = [cap_iri cap], ar_policy_refs = [],
        ar_autonomous_policy_may_be_stricter = True\<rparr>,
      ac_expected_effects = [\<lparr>ee_predicate = ''urn:gymact:predicate:partial-state-equals'',
        ee_parameters = cq_expected request\<rparr>],
      ac_verification = \<lparr>vs_kind = EXACT_STATE,
        vs_observer_ref = ''urn:gymact:observer:environment-verify'',
        vs_expected = cq_expected request, vs_minimum_confidence = SAME_PROVIDER_OBSERVED,
        vs_settle_timeout_s = 0, vs_quorum = 1\<rparr>,
      ac_idempotency = CONDITIONALLY_IDEMPOTENT, ac_idempotency_fields = [''idempotency_key''],
      ac_reversal = REVERSAL_UNKNOWN, ac_compensation_action_ref = None,
      ac_cost = \<lparr>co_monetary = 0, co_expected_wall_time_s = 0, co_compute_units = 0,
        co_expected_human_approvals = 0, co_expected_failure_probability = 0\<rparr>,
      ac_locality = \<lparr>cl_execution_site = ''unspecified'', cl_observer_site = ''unspecified'',
        cl_estimated_hops = None, cl_estimated_effect_latency_s = None,
        cl_estimated_observation_latency_s = None\<rparr>,
      ac_standing = STRUCTURAL, ac_evidence_refs = []\<rparr>"

definition make_action :: "consequence_request \<Rightarrow> capability \<Rightarrow> action_definition res" where
  "make_action request cap =
     (let action = autonomic_action request cap
      in bind_res (require_nonempty [ac_semantic_id action, ac_provider_ref action,
             ac_capability_ref action, ac_subject_type action]) (\<lambda>_.
           enforce_execution_semantics action))"

text \<open>\<open>digest(value)\<close>, which raises on a value without canonical form.\<close>

definition canonical_digest :: "('p, 'h, 'w) gym_config \<Rightarrow> json \<Rightarrow> string res" where
  "canonical_digest cfg v =
     (case gc_size cfg v of
        None \<Rightarrow> Inl (Raised ''CanonicalizationError'' [])
      | Some _ \<Rightarrow> Inr (gc_digest cfg v))"

definition construct_attempt ::
    "('p, 'h, 'w) gym_config \<Rightarrow> (dict \<Rightarrow> dict \<Rightarrow> exn option) \<Rightarrow> consequence_request \<Rightarrow> episode \<Rightarrow>
       observation \<Rightarrow> capability \<Rightarrow> (action_definition \<times> prepared_action) res" where
  "construct_attempt cfg validate request episode initial cap =
     bind_res (autonomic_subject request episode) (\<lambda>subject.
     bind_res (make_action request cap) (\<lambda>action.
     bind_res (canonical_digest cfg (JObj [(''request_id'', JStr (cq_request_id request)),
         (''observation'', JStr (ob_state_digest initial)),
         (''action'', JStr (ac_semantic_id action)), (''payload'', JObj (cq_payload request))]))
       (\<lambda>admission_digest.
     bind_res (construct_prepared_action validate action (ep_episode_id episode) subject
         (cq_payload request) admission_digest (cq_idempotency_key request) None) (\<lambda>prepared.
       Inr (action, prepared)))))"

definition issue_grant ::
    "'w grant_issuer \<Rightarrow> action_definition \<Rightarrow> prepared_action \<Rightarrow> string \<Rightarrow> string option \<Rightarrow>
       (('p, 'h, 'w) gym, grant_issue) action" where
  "issue_grant issue action prepared observation_ref authority_ref g =
     (case issue action prepared observation_ref authority_ref (g_world g) of
        (r, w) \<Rightarrow> (r, g\<lparr>g_world := w\<rparr>))"

text \<open>The EXECUTE and KNOWLEDGE steps, given the grant.\<close>

definition executed_closing :: "observation \<Rightarrow> capability \<Rightarrow> verified_transition \<Rightarrow> closing" where
  "executed_closing initial cap t =
     (let execute_reason = or_default (rc_reason (vt_receipt t)) ''BRCE_EXECUTION_COMPLETED'';
          verified = (case vt_verification t of None \<Rightarrow> False | Some v \<Rightarrow> vr_passed v)
      in \<lparr>fi_standing = vt_standing t,
          fi_reason = (if vt_standing t = ALIVE \<and> verified then ''VERIFIED_CONSEQUENCE_ADMITTED''
                       else execute_reason),
          fi_capability_ref = Some (cap_iri cap), fi_verified = verified,
          fi_pre_state_digest = Some (ob_state_digest initial),
          fi_post_state_digest = Some (case vt_verification t of
              Some v \<Rightarrow> vr_state_digest v
            | None \<Rightarrow> (case ar_observation (vt_actuation t) of
                  Some seen \<Rightarrow> ob_state_digest seen
                | None \<Rightarrow> ob_state_digest initial)),
          fi_verification_ref = map_option vr_verification_id (vt_verification t),
          fi_world_changed = rc_world_changed (vt_receipt t)\<rparr>)"

definition executed_records :: "closing \<Rightarrow> verified_transition \<Rightarrow> phase_record list" where
  "executed_records c t =
     [\<lparr>ph_phase = EXECUTE, ph_standing = vt_standing t,
       ph_reason = or_default (rc_reason (vt_receipt t)) ''BRCE_EXECUTION_COMPLETED'',
       ph_evidence_refs = [rc_receipt_id (vt_receipt t)]\<rparr>,
      \<lparr>ph_phase = KNOWLEDGE, ph_standing = vt_standing t, ph_reason = fi_reason c,
       ph_evidence_refs = [rc_receipt_id (vt_receipt t)]\<rparr>]"

definition autonomic_execute ::
    "('p, 'h, 'w) gym_config \<Rightarrow> int \<Rightarrow> consequence_request \<Rightarrow> phase_record list \<Rightarrow> episode \<Rightarrow>
       observation \<Rightarrow> capability \<Rightarrow> action_definition \<Rightarrow> prepared_action \<Rightarrow> execution_grant \<Rightarrow>
       (('p, 'h, 'w) gym, autonomic_outcome) action" where
  "autonomic_execute cfg moment request records episode initial cap action prepared grant =
     bind_act (broker_execute Production_runtime cfg
         \<lparr>br_action = action, br_prepared = prepared, br_grant = grant,
          br_current_revision = cq_subject_revision request, br_expected = cq_expected request\<rparr>
         moment) (\<lambda>t.
       let c = executed_closing initial cap t
       in finish cfg request (records @ executed_records c t) (Some (ep_episode_id episode)) c)"

text \<open>The PLAN step: no issuer, a refusal of the issuer, or a grant.\<close>

definition plan_record :: "standing \<Rightarrow> string \<Rightarrow> phase_record" where
  "plan_record stand reason =
     \<lparr>ph_phase = PLAN, ph_standing = stand, ph_reason = reason, ph_evidence_refs = []\<rparr>"

definition autonomic_plan ::
    "('p, 'h, 'w) gym_config \<Rightarrow> 'w grant_issuer option \<Rightarrow> (dict \<Rightarrow> dict \<Rightarrow> exn option) \<Rightarrow> int \<Rightarrow>
       consequence_request \<Rightarrow> phase_record list \<Rightarrow> episode \<Rightarrow> observation \<Rightarrow> capability \<Rightarrow>
       (('p, 'h, 'w) gym, autonomic_outcome) action" where
  "autonomic_plan cfg issuer validate moment request records episode initial cap =
     bind_act (pure_res (construct_attempt cfg validate request episode initial cap))
       (\<lambda>(action, prepared).
         let refused = (\<lambda>stand reason. finish cfg request (records @ [plan_record stand reason])
               (Some (ep_episode_id episode))
               (unchanged_closing stand reason (Some (cap_iri cap)) (ob_state_digest initial)))
         in case issuer of
              None \<Rightarrow> refused REFUSED ''EXECUTION_GRANT_ISSUER_REQUIRED''
            | Some issue \<Rightarrow>
                bind_act (issue_grant issue action prepared
                    (''urn:gymact:observation:'' @ ob_state_digest initial)
                    (cq_authority_ref request)) (\<lambda>issued.
                  case gi_grant issued of
                    None \<Rightarrow> refused (gi_standing issued) (gi_reason issued)
                  | Some grant \<Rightarrow>
                      if gi_standing issued \<noteq> ALIVE
                      then refused (gi_standing issued) (gi_reason issued)
                      else autonomic_execute cfg moment request
                        (records @ [plan_record (gi_standing issued) (gi_reason issued)])
                        episode initial cap action prepared grant))"

text \<open>\<open>materialization.observation or await observe\<close>, and \<open>capabilities(episode_id)\<close>.\<close>

definition first_look ::
    "('p, 'h, 'w) gym_config \<Rightarrow> materialization_result \<Rightarrow> episode \<Rightarrow>
       (('p, 'h, 'w) gym, observation) action" where
  "first_look cfg m episode =
     (case mr_observation m of
        Some seen \<Rightarrow> pure_res (Inr seen)
      | None \<Rightarrow> observe cfg (ep_episode_id episode))"

definition offered ::
    "('p, 'h, 'w) gym_config \<Rightarrow> episode \<Rightarrow> (('p, 'h, 'w) gym, capability list) action" where
  "offered cfg episode = bind_act (episode_state (ep_episode_id episode)) (capabilities cfg)"

definition autonomic_choose ::
    "('p, 'h, 'w) gym_config \<Rightarrow> 'w grant_issuer option \<Rightarrow> (dict \<Rightarrow> dict \<Rightarrow> exn option) \<Rightarrow> int \<Rightarrow>
       consequence_request \<Rightarrow> phase_record list \<Rightarrow> materialization_result \<Rightarrow> episode \<Rightarrow>
       observation \<Rightarrow> capability list \<Rightarrow> (('p, 'h, 'w) gym, autonomic_outcome) action" where
  "autonomic_choose cfg issuer validate moment request records m episode initial items =
     (case select_capability items request of
        (selected, stand, reason) \<Rightarrow>
          (let records1 = records @ [\<lparr>ph_phase = ANALYZE, ph_standing = stand,
                 ph_reason = reason, ph_evidence_refs = [rc_receipt_id (mr_receipt m)]\<rparr>]
           in case selected of
                None \<Rightarrow> finish cfg request records1 (Some (ep_episode_id episode))
                  (unchanged_closing stand reason None (ob_state_digest initial))
              | Some cap \<Rightarrow>
                  autonomic_plan cfg issuer validate moment request records1 episode initial cap))"

definition autonomic_analyze ::
    "('p, 'h, 'w) gym_config \<Rightarrow> 'w grant_issuer option \<Rightarrow> (dict \<Rightarrow> dict \<Rightarrow> exn option) \<Rightarrow> int \<Rightarrow>
       consequence_request \<Rightarrow> phase_record list \<Rightarrow> materialization_result \<Rightarrow> episode \<Rightarrow>
       (('p, 'h, 'w) gym, autonomic_outcome) action" where
  "autonomic_analyze cfg issuer validate moment request records m episode =
     bind_act (first_look cfg m episode) (\<lambda>initial.
     bind_act (offered cfg episode) (\<lambda>items.
       autonomic_choose cfg issuer validate moment request records m episode initial items))"

definition autonomic_run ::
    "('p, 'h, 'w) gym_config \<Rightarrow> 'w grant_issuer option \<Rightarrow> (dict \<Rightarrow> dict \<Rightarrow> exn option) \<Rightarrow> int \<Rightarrow>
       consequence_request \<Rightarrow> (('p, 'h, 'w) gym, autonomic_outcome) action" where
  "autonomic_run cfg issuer validate moment request =
     bind_act (create_episode cfg (cq_provider request) (cq_scenario request)
         (Some (cq_config request)) (cq_authority_ref request)
         (Some (cq_idempotency_key request @ '':materialize''))) (\<lambda>m.
       let records = [\<lparr>ph_phase = MONITOR, ph_standing = mr_standing m,
             ph_reason = or_default (rc_reason (mr_receipt m)) ''WORLD_MATERIALIZED'',
             ph_evidence_refs = [rc_receipt_id (mr_receipt m)]\<rparr>];
           abandoned = (\<lambda>episode_id. finish cfg request records episode_id
             (plain_closing (mr_standing m)
               (or_default (rc_reason (mr_receipt m)) ''MATERIALIZATION_NOT_ACCEPTED'')))
       in case mr_episode m of
            None \<Rightarrow> abandoned None
          | Some episode \<Rightarrow>
              if \<not> mr_accepted m then abandoned (Some (ep_episode_id episode))
              else autonomic_analyze cfg issuer validate moment request records m episode)"

section \<open>Batches\<close>

record automation_policy =
  ap_max_concurrency :: nat
  ap_max_requests :: nat

record automation_batch =
  ab_outcomes :: "autonomic_outcome list"
  ab_standing_counts :: "(string \<times> nat) list"
  ab_verified_count :: nat

definition all_verified :: "automation_batch \<Rightarrow> bool" where
  "all_verified b \<longleftrightarrow> ab_outcomes b \<noteq> [] \<and> ab_verified_count b = length (ab_outcomes b)"

text \<open>
  The task group with \<open>max_concurrency = 1\<close>: the tasks pass the semaphore in some order, one
  after the other; an exception cancels those that wait.
\<close>

fun run_in_order ::
    "(consequence_request \<Rightarrow> ('s, autonomic_outcome) action) \<Rightarrow> consequence_request list \<Rightarrow> nat list \<Rightarrow>
       autonomic_outcome option list \<Rightarrow> ('s, autonomic_outcome option list) action" where
  "run_in_order run requests [] results s = (Inr results, s)"
| "run_in_order run requests (i # order) results s =
     (case run (requests ! i) s of
        (Inl e, s1) \<Rightarrow> (Inl (Raised ''ExceptionGroup'' ''unhandled errors in a TaskGroup''), s1)
      | (Inr outcome, s1) \<Rightarrow> run_in_order run requests order (results[i := Some outcome]) s1)"

definition standing_counts :: "autonomic_outcome list \<Rightarrow> (string \<times> nat) list" where
  "standing_counts outcomes =
     (let values = map (standing_value \<circ> ao_standing) outcomes
      in map (\<lambda>v. (v, count_list values v)) (sort (remdups values)))"

definition batch_of :: "autonomic_outcome list \<Rightarrow> automation_batch" where
  "batch_of outcomes =
     \<lparr>ab_outcomes = outcomes, ab_standing_counts = standing_counts outcomes,
      ab_verified_count =
        length (filter (\<lambda>r. ao_standing r = ALIVE \<and> ao_verified r) outcomes)\<rparr>"

definition automation_run ::
    "automation_policy \<Rightarrow> (consequence_request \<Rightarrow> ('s, autonomic_outcome) action) \<Rightarrow> nat list \<Rightarrow>
       consequence_request list \<Rightarrow> ('s, automation_batch) action" where
  "automation_run policy run order requests =
     (if length requests > ap_max_requests policy
      then pure_res (Inl (value_error (''REFUSED:AUTOMATION_REQUEST_LIMIT_EXCEEDED:'' @
        nat_decimal (length requests) @ ''>'' @ nat_decimal (ap_max_requests policy))))
      else if card (set (map cq_request_id requests)) \<noteq> length requests
      then pure_res (Inl (value_error ''REFUSED:DUPLICATE_AUTOMATION_REQUEST_ID''))
      else if requests = []
      then pure_res (Inr \<lparr>ab_outcomes = [], ab_standing_counts = [], ab_verified_count = 0\<rparr>)
      else bind_act (run_in_order run requests order (replicate (length requests) None)) (\<lambda>results.
        let outcomes = List.map_filter id results
        in if length outcomes \<noteq> length requests
           then pure_res (Inl (Raised ''RuntimeError'' ''AUTOMATION_RESULT_CARDINALITY_VIOLATION''))
           else pure_res (Inr (batch_of outcomes))))"

section \<open>Plans\<close>

record plan_provenance =
  pp_plan_id :: string
  pp_plan_version :: "string option"
  pp_plan_step_id :: "string option"
  pp_parent_step_ids :: "string list"
  pp_planning_receipt :: "string option"
  pp_expected_state_digest :: "string option"
  pp_precondition_digest :: "string option"
  pp_postcondition_digest :: "string option"
  pp_supersedes_plan :: "string option"
  pp_required_authority_classes :: "string list"

definition plan_json :: "plan_provenance \<Rightarrow> json" where
  "plan_json p =
     JObj [(''plan_id'', JStr (pp_plan_id p)), (''plan_version'', opt_json (pp_plan_version p)),
       (''plan_step_id'', opt_json (pp_plan_step_id p)),
       (''parent_step_ids'', strs_json (pp_parent_step_ids p)),
       (''planning_receipt'', opt_json (pp_planning_receipt p)),
       (''expected_state_digest'', opt_json (pp_expected_state_digest p)),
       (''precondition_digest'', opt_json (pp_precondition_digest p)),
       (''postcondition_digest'', opt_json (pp_postcondition_digest p)),
       (''supersedes_plan'', opt_json (pp_supersedes_plan p)),
       (''required_authority_classes'', strs_json (pp_required_authority_classes p))]"

definition plan_digest :: "digest_fun \<Rightarrow> plan_provenance \<Rightarrow> string" where
  "plan_digest H p = H (plan_json p)"

record planned_request =
  pl_request :: broker_request
  pl_plan_provenance :: plan_provenance

definition require_exact_plan_binding :: "digest_fun \<Rightarrow> planned_request \<Rightarrow> planned_request res" where
  "require_exact_plan_binding H planned =
     (if pa_planning_provenance_digest (br_prepared (pl_request planned)) \<noteq>
         Some (plan_digest H (pl_plan_provenance planned))
      then Inl (value_error ''PLAN_PROVENANCE_BINDING_MISMATCH'') else Inr planned)"

record plan_receipt_binding =
  pb_plan_digest :: string
  pb_receipt_id :: string
  pb_receipt_digest :: string
  pb_binding_digest :: string

definition manufacture_binding ::
    "digest_fun \<Rightarrow> plan_provenance \<Rightarrow> receipt \<Rightarrow> plan_receipt_binding res" where
  "manufacture_binding H plan receipt =
     (let plan_d = plan_digest H plan; receipt_d = H (receipt_json receipt)
      in if rc_planning_provenance_digest receipt \<noteq> Some plan_d
         then Inl (value_error ''RECEIPT_PLAN_PROVENANCE_MISMATCH'')
         else Inr \<lparr>pb_plan_digest = plan_d, pb_receipt_id = rc_receipt_id receipt,
           pb_receipt_digest = receipt_d,
           pb_binding_digest = H (JObj [(''schema'', JStr ''urn:gymact:plan-receipt-binding:1''),
             (''plan_digest'', JStr plan_d), (''receipt_id'', JStr (rc_receipt_id receipt)),
             (''receipt_digest'', JStr receipt_d)])\<rparr>)"

record planned_transition =
  pt_transition :: verified_transition
  pt_binding :: plan_receipt_binding

definition bind_plan :: "digest_fun \<Rightarrow> broker_request \<Rightarrow> plan_provenance \<Rightarrow> planned_request res" where
  "bind_plan H request provenance =
     require_exact_plan_binding H
       \<lparr>pl_request = request\<lparr>br_prepared := (br_prepared request)
          \<lparr>pa_planning_provenance_digest := Some (plan_digest H provenance)\<rparr>\<rparr>,
        pl_plan_provenance = provenance\<rparr>"

definition execute_planned ::
    "runtime_kind \<Rightarrow> ('p, 'h, 'w) gym_config \<Rightarrow> planned_request \<Rightarrow> int \<Rightarrow>
       (('p, 'h, 'w) gym, planned_transition) action" where
  "execute_planned kind cfg planned moment =
     bind_act (broker_execute kind cfg (pl_request planned) moment) (\<lambda>t.
     bind_act (pure_res (manufacture_binding (gc_digest cfg) (pl_plan_provenance planned)
         (vt_receipt t))) (\<lambda>binding.
       pure_res (Inr \<lparr>pt_transition = t, pt_binding = binding\<rparr>)))"

end
