(* ===== verification/Autonomic_Demo.thy ===== *)
theory Autonomic_Demo
  imports Autonomic Crown_Props
begin

text \<open>
  A concrete cycle of \<open>AutonomicController.run\<close> (\<open>src/gymact/autonomic.py\<close>) on the memory
  provider, evaluated from the materialization to the teardown. The witnesses of the
  controller's properties rest on it.
\<close>

section \<open>A run of the controller\<close>

definition demo_consequence :: consequence_request where
  "demo_consequence =
     \<lparr>cq_request_id = ''q1'', cq_provider = ''memory'', cq_scenario = None,
      cq_config = [(''requires_authority'', JBool True)],
      cq_capability_ref = Some ''urn:gymact:memory:capability:set'', cq_capability_binding = None,
      cq_payload = [(''key'', JStr ''door''), (''value'', JStr ''open'')],
      cq_expected = [(''door'', JStr ''open'')], cq_authority_ref = Some ''board'',
      cq_subject_revision = None, cq_action_ref = Some ''urn:open'', cq_input_schema = [],
      cq_idempotency_key = ''k'', cq_require_verification = True\<rparr>"

abbreviation demo_issuer :: "memory_world grant_issuer" where
  "demo_issuer \<equiv> bounded_issue [''board''] ''urn:alice'' ''p1''"

lemma demo_digest_nonempty: "demo_digest (JObj xs) \<noteq> []"
  by simp

lemmas demo_cycle_start =
  autonomic_run_def demo_consequence_def create_episode_def or_default_def
  require_canonical_json_def materialization_intent_json_def autonomic_analyze_def first_look_def
  offered_def autonomic_choose_def select_capability_def autonomic_plan_def construct_attempt_def
  autonomic_subject_def make_action_def autonomic_action_def canonical_digest_def demo_eval

lemmas demo_cycle_intent =
  require_nonempty_def enforce_execution_semantics_def construct_prepared_action_def bind_res_def
  issue_grant_def bounded_issue_def bounded_grant_def admitted_issue_requires_grant_def
  bind_act_def pure_res_def demo_digest_nonempty

lemmas demo_cycle_execute =
  autonomic_execute_def broker_execute_def execute_admitted_def admit_execution_iff closes_def
  expired_def effect_eq_def or_else_def admitted_intent_def execute_verified_def
  require_canonical_json_def actuation_intent_json_def demo_eval demo_verify_eval

lemmas demo_cycle_bind =
  transition_verified_def record_built_def combinatorial_binding_is_atomic_def receipt_core_def
  verification_receipt_def follow_up_def bound_receipt_def grant_fields_def

lemmas demo_cycle_finish =
  finish_def executed_closing_def closed_outcome_def teardown_def teardown_locked_def
  teardown_do_def teardown_receipt_def recovery_receipt_def memory_defs demo_eval

text \<open>Closing never raises and keeps the standing, whatever the teardown does.\<close>

lemma finish_standing:
  "(case finish cfg request records (Some eid) c g of
      (Inr out, g') \<Rightarrow> ao_standing out = s | (Inl e, g') \<Rightarrow> False) \<longleftrightarrow> fi_standing c = s"
  by (simp add: finish_def closed_outcome_def split: prod.splits)

lemma demo_run: "case autonomic_run demo (Some demo_issuer) (\<lambda>_ _. None) 0 demo_consequence demo_g1 of
    (Inr out, g) \<Rightarrow> ao_standing out = ALIVE | (Inl e, g) \<Rightarrow> False"
  by (simp add: demo_cycle_start del: demo_digest.simps,
    simp add: demo_cycle_intent del: demo_digest.simps,
    simp add: demo_cycle_execute finish_standing del: demo_digest.simps,
    simp add: demo_eval demo_cycle_bind finish_standing executed_closing_def del: demo_digest.simps)

lemma demo_run_ungranted: "case autonomic_run demo None (\<lambda>_ _. None) 0 demo_consequence demo_g1 of
    (Inr out, g) \<Rightarrow> ao_standing out = REFUSED \<and> ao_cleanup_standing out = Some ALIVE
  | (Inl e, g) \<Rightarrow> False"
  by (simp add: demo_cycle_start del: demo_digest.simps,
    simp add: demo_cycle_intent unchanged_closing_def plain_closing_def del: demo_digest.simps,
    simp add: demo_cycle_finish del: demo_digest.simps)

text \<open>The request of the broker's demonstration, bound to a plan.\<close>

definition demo_plan :: plan_provenance where
  "demo_plan =
     \<lparr>pp_plan_id = ''plan'', pp_plan_version = None, pp_plan_step_id = Some ''s1'',
      pp_parent_step_ids = [], pp_planning_receipt = None, pp_expected_state_digest = None,
      pp_precondition_digest = None, pp_postcondition_digest = None, pp_supersedes_plan = None,
      pp_required_authority_classes = []\<rparr>"

definition demo_planned :: planned_request where
  "demo_planned =
     \<lparr>pl_request = demo_request\<lparr>br_prepared := (br_prepared demo_request)
        \<lparr>pa_planning_provenance_digest := Some (plan_digest demo_digest demo_plan)\<rparr>\<rparr>,
      pl_plan_provenance = demo_plan\<rparr>"

lemma demo_planned_bound: "bind_plan demo_digest demo_request demo_plan = Inr demo_planned"
  by (simp add: bind_plan_def require_exact_plan_binding_def demo_planned_def)

lemma demo_planned_returns:
  "case broker_execute Production_runtime demo (pl_request demo_planned) 0 demo_g2 of
     (Inr t, g) \<Rightarrow> vt_standing t = ALIVE | (Inl e, g) \<Rightarrow> False"
  by (simp add: demo_planned_def demo_request_defs demo_cycle_execute del: demo_digest.simps,
    simp add: demo_eval demo_verify_eval demo_cycle_bind del: demo_digest.simps)

lemma demo_batch_returns:
  "case automation_run \<lparr>ap_max_concurrency = 1, ap_max_requests = 2\<rparr>
       (autonomic_run demo None (\<lambda>_ _. None) 0) [0] [demo_consequence] demo_g1 of
     (Inr b, g) \<Rightarrow> True | (Inl e, g) \<Rightarrow> False"
  using demo_run_ungranted
  by (cases "autonomic_run demo None (\<lambda>_ _. None) 0 demo_consequence demo_g1")
    (auto simp: automation_run_def bind_act_def Let_def pure_res_def List.map_filter_def split: sum.splits)

end
