(* ===== verification/Autonomic_Props.thy ===== *)
theory Autonomic_Props
  imports Autonomic_Demo
begin

text \<open>
  The autonomic controller does not go around the broker: a run that reports a verified
  consequence went through an issued grant and an independent verification, every receipt it
  reports is evidence, and without a grant nothing is actuated. Plans stay bound to the
  receipts they lead to; batches report in the order of their requests.
\<close>

section \<open>Runs of the controller are runs of the runtime\<close>

lemma finish_returns:
  assumes "finish cfg request records eid c g = (x, g')"
  shows "(gym_step cfg)\<^sup>*\<^sup>* g g'"
    and "\<exists>cleanup. x = Inr (closed_outcome request records eid c cleanup
           (gathered_evidence g' eid records)) \<and> (cleanup = None \<longleftrightarrow> eid = None)"
  using assms by (auto simp: finish_def split: option.splits prod.splits dest: step_teardown)

lemma issue_grant_step: "issue_grant issue a p ref auth g = (x, g') \<Longrightarrow> gym_step cfg g g'"
  by (auto simp: issue_grant_def split: prod.splits intro: gym_step.outside)

lemma capabilities_step: "capabilities cfg st g = (x, g') \<Longrightarrow> gym_step cfg g g'"
  by (auto dest!: capabilities_frame intro: gym_step.outside)

lemma autonomic_execute_steps:
  "autonomic_execute cfg moment request records ep initial cap a p grant g = (x, g') \<Longrightarrow>
     (gym_step cfg)\<^sup>*\<^sup>* g g'"
  unfolding autonomic_execute_def Let_def
  by (erule bind_act_steps) (auto intro: broker_execute_steps finish_returns)

lemma autonomic_plan_steps:
  assumes "autonomic_plan cfg issuer validate moment request records ep initial cap g = (x, g')"
  shows "(gym_step cfg)\<^sup>*\<^sup>* g g'"
  using assms unfolding autonomic_plan_def Let_def
  by (elim bind_act_cases)
    (auto split: option.splits if_splits prod.splits elim!: bind_act_steps
      intro: finish_returns autonomic_execute_steps r_into_rtranclp issue_grant_step)

lemma look_steps:
  "first_look cfg m ep g = (x, g') \<Longrightarrow> (gym_step cfg)\<^sup>*\<^sup>* g g'"
  "offered cfg ep g = (y, g') \<Longrightarrow> (gym_step cfg)\<^sup>*\<^sup>* g g'"
  by (auto simp: first_look_def offered_def split: option.splits elim!: bind_act_cases
      dest!: episode_state_same dest: step_observe capabilities_step)

lemma autonomic_choose_steps:
  "autonomic_choose cfg issuer validate moment request records m ep initial items g = (x, g') \<Longrightarrow>
     (gym_step cfg)\<^sup>*\<^sup>* g g'"
  by (auto simp: autonomic_choose_def Let_def split: prod.splits option.splits
      intro: finish_returns autonomic_plan_steps)

lemma autonomic_analyze_steps:
  "autonomic_analyze cfg issuer validate moment request records m ep g = (x, g') \<Longrightarrow>
     (gym_step cfg)\<^sup>*\<^sup>* g g'"
  unfolding autonomic_analyze_def
  by (elim bind_act_steps) (auto elim!: bind_act_steps intro: look_steps autonomic_choose_steps)

lemma autonomic_run_steps:
  assumes "autonomic_run cfg issuer validate moment request g = (x, g')"
  shows "(gym_step cfg)\<^sup>*\<^sup>* g g'"
  using assms unfolding autonomic_run_def Let_def
  by (rule bind_act_steps)
    (auto split: option.splits if_splits intro: finish_returns autonomic_analyze_steps dest: step_create)

lemma reachable_steps: "reachable cfg g \<Longrightarrow> (gym_step cfg)\<^sup>*\<^sup>* g g' \<Longrightarrow> reachable cfg g'"
  by (auto simp: reachable_def intro: rtranclp_trans)

lemma in_ledger_steps:
  assumes "reachable cfg g" "(gym_step cfg)\<^sup>*\<^sup>* g g'" "in_ledger g r"
  shows "in_ledger g' r"
  using in_ledger_evolves [OF reachable_inv [OF assms(1)]
      reachable_inv [OF reachable_steps [OF assms(1,2)]] gym_steps_evolve [OF assms(2)] assms(3)] .

section \<open>Evidence\<close>

text \<open>Every identifier in a list names a receipt of the ledger.\<close>

definition evidenced :: "('p, 'h, 'w) gym \<Rightarrow> string list \<Rightarrow> bool" where
  "evidenced g ids \<longleftrightarrow> (\<forall>i \<in> set ids. ledger_find (g_ledger g) i \<noteq> None)"

lemma evidenced_simps [simp]:
  "evidenced g []" "evidenced g (xs @ ys) \<longleftrightarrow> evidenced g xs \<and> evidenced g ys"
  "evidenced g [i] \<longleftrightarrow> ledger_find (g_ledger g) i \<noteq> None"
  by (auto simp: evidenced_def)

lemma in_ledger_evidenced: "in_ledger g r \<Longrightarrow> ledger_find (g_ledger g) (rc_receipt_id r) \<noteq> None"
  by (auto simp: in_ledger_def)

lemma materialization_cached: "gym_inv cfg g \<Longrightarrow>
    g_materialization_idempotency g key = Some y \<Longrightarrow> in_ledger g (mr_receipt (yr_result y))"
  unfolding gym_inv_def by blast

lemma set_fold_add_ref [simp]: "set (fold add_ref xs refs) = set xs \<union> set refs"
  by (induction xs arbitrary: refs) (auto simp: add_ref_def)

lemma distinct_fold_add_ref: "distinct refs \<Longrightarrow> distinct (fold add_ref xs refs)"
  by (induction xs arbitrary: refs) (auto simp: add_ref_def)

lemma evidenced_steps:
  assumes "reachable cfg g" "(gym_step cfg)\<^sup>*\<^sup>* g g'" "evidenced g ids"
  shows "evidenced g' ids"
proof -
  obtain s where s: "ml_records (g_ledger g') = ml_records (g_ledger g) @ s"
    using gym_steps_evolve [OF assms(2)] by (auto simp: evolves_def)
  have "gym_inv cfg g" "gym_inv cfg g'"
    using reachable_inv reachable_steps assms(1,2) by blast+
  with s assms(3) show ?thesis
    by (auto simp: evidenced_def ledger_find_def gym_inv_def ledger_inv_def find_append)
qed

lemma evidenced_gathered:
  assumes "gym_inv cfg g" "evidenced g (concat (map ph_evidence_refs records))"
  shows "evidenced g (gathered_evidence g eid records)" "distinct (gathered_evidence g eid records)"
proof -
  have "evidenced g (map rc_receipt_id (g_receipts g i))" for i
    using assms(1) in_ledger_evidenced [of g] by (simp add: gym_inv_def evidenced_def)
  with assms(2) show "evidenced g (gathered_evidence g eid records)"
    by (auto simp: gathered_evidence_def evidenced_def episode_receipts_def split: option.splits)
  show "distinct (gathered_evidence g eid records)"
    by (simp add: gathered_evidence_def distinct_fold_add_ref split: option.splits)
qed

lemma create_episode_recorded:
  assumes "create_episode cfg p sc c a k g = (Inr m, g')" "gym_inv cfg g"
  shows "in_ledger g' (mr_receipt m)"
proof -
  obtain i h where i: "materialize cfg i h = (Inr m, g')" and h: "gym_inv cfg h"
    using assms by (auto simp: create_episode_def Let_def split: option.splits elim!: bind_act_InrE)
  have inv: "gym_inv cfg g'" by (rule materialize_inv [OF i h])
  show ?thesis
  proof (cases "g_materialization_idempotency h (mi_idempotency_key i)")
    case None
    from materialize_fresh_outcome [OF i None] have "g_materialization_idempotency g'
        (mi_idempotency_key i) = Some \<lparr>yr_intent_digest = gc_digest cfg
          (materialization_intent_json i), yr_result = m\<rparr>" by (simp add: mat_outcome_def)
    from materialization_cached [OF inv this] show ?thesis by simp
  next
    case (Some y)
    show ?thesis
    proof (cases "yr_intent_digest y = gc_digest cfg (materialization_intent_json i)")
      case True
      with i Some have "m = yr_result y" "g' = h" by (auto simp: materialize_def)
      with materialization_cached [OF h Some] show ?thesis by simp
    next
      case False
      with i Some have "materialize_conflict cfg i y h = (Inr m, g')" by (simp add: materialize_def)
      then show ?thesis
        using h unfolding materialize_conflict_def materialization_result_def Let_def
        by (auto elim!: bind_act_InrE dest!: record_receipt_recorded)
    qed
  qed
qed

lemma broker_execute_recorded:
  assumes "broker_execute kind cfg q moment g = (Inr t, g')" "reachable cfg g"
  shows "in_ledger g' (vt_receipt t)"
proof -
  have inv: "gym_inv cfg h" if "execute_verified kind cfg i expected g = (x, h)" for i expected x h
    using reachable_inv [OF reachable_steps [OF assms(2) execute_verified_steps [OF that]]] .
  show ?thesis
    using assms(1) reachable_inv [OF assms(2)]
    unfolding broker_execute_def execute_admitted_def refuse_admission_def Let_def
    by (auto split: if_splits elim!: bind_act_InrE dest!: inv record_built_step)
qed

section \<open>A consequence that is reported alive\<close>

text \<open>The transition a run reports: verified for the request and chained in the ledger.\<close>

definition reports ::
    "consequence_request \<Rightarrow> capability \<Rightarrow> execution_grant \<Rightarrow> verified_transition \<Rightarrow> autonomic_outcome \<Rightarrow>
       ('p, 'h, 'w) gym \<Rightarrow> bool" where
  "reports request cap grant t out g \<longleftrightarrow>
     ao_verified out \<and> ao_capability_ref out = Some (cap_iri cap) \<and>
     (\<exists>v. vt_verification t = Some v \<and> vr_passed v \<and> vr_expected v = cq_expected request) \<and>
     bound_chain g t \<and> rc_receipt_id (vt_receipt t) \<in> set (ao_receipt_ids out) \<and>
     rc_principal (vt_receipt t) = Some (eg_principal grant) \<and>
     map ph_phase (ao_phase_records out) = [MONITOR, ANALYZE, PLAN, EXECUTE, KNOWLEDGE]"

lemma bound_chain_steps:
  "bound_chain g t \<Longrightarrow> reachable cfg g \<Longrightarrow> (gym_step cfg)\<^sup>*\<^sup>* g g' \<Longrightarrow> bound_chain g' t"
  unfolding bound_chain_def using in_ledger_steps by blast

lemma executed_closing_simps [simp]:
  "fi_standing (executed_closing initial cap t) = vt_standing t"
  "fi_capability_ref (executed_closing initial cap t) = Some (cap_iri cap)"
  "fi_verified (executed_closing initial cap t) \<longleftrightarrow>
     (\<exists>v. vt_verification t = Some v \<and> vr_passed v)"
  by (auto simp: executed_closing_def Let_def split: option.splits)

lemma closed_outcome_simps [simp]:
  "ao_standing (closed_outcome q rs eid c cl ev) = fi_standing c"
  "ao_verified (closed_outcome q rs eid c cl ev) = fi_verified c"
  "ao_capability_ref (closed_outcome q rs eid c cl ev) = fi_capability_ref c"
  "ao_receipt_ids (closed_outcome q rs eid c cl ev) = ev"
  "ao_phase_records (closed_outcome q rs eid c cl ev) = rs"
  "ao_request_id (closed_outcome q rs eid c cl ev) = cq_request_id q"
  by (simp_all add: closed_outcome_def)

lemma unchanged_closing_simps [simp]:
  "fi_standing (unchanged_closing stand reason ref d) = stand"
  "\<not> fi_verified (unchanged_closing stand reason ref d)"
  "fi_standing (plain_closing stand reason) = stand" "\<not> fi_verified (plain_closing stand reason)"
  by (simp_all add: unchanged_closing_def plain_closing_def)

lemma set_gathered_evidence:
  "set (concat (map ph_evidence_refs records)) \<subseteq> set (gathered_evidence g eid records)"
  by (auto simp: gathered_evidence_def split: option.splits)

lemma autonomic_execute_alive:
  assumes "autonomic_execute cfg moment request records ep initial cap a p grant g = (Inr out, g')"
    and "reachable cfg g" "ao_standing out = ALIVE"
    and "map ph_phase records = [MONITOR, ANALYZE, PLAN]"
  shows "\<exists>t. reports request cap grant t out g'"
proof -
  let ?q = "\<lparr>br_action = a, br_prepared = p, br_grant = grant,
    br_current_revision = cq_subject_revision request, br_expected = cq_expected request\<rparr>"
  obtain t g1 where t: "broker_execute Production_runtime cfg ?q moment g = (Inr t, g1)"
    and fin: "finish cfg request (records @ executed_records (executed_closing initial cap t) t)
      (Some (ep_episode_id ep)) (executed_closing initial cap t) g1 = (Inr out, g')"
    using assms(1) unfolding autonomic_execute_def Let_def by (auto elim!: bind_act_InrE)
  from finish_returns(2) [OF fin] obtain cleanup where out: "out = closed_outcome request
      (records @ executed_records (executed_closing initial cap t) t) (Some (ep_episode_id ep))
      (executed_closing initial cap t) cleanup (gathered_evidence g' (Some (ep_episode_id ep))
        (records @ executed_records (executed_closing initial cap t) t))" by auto
  have alive: "vt_standing t = ALIVE" using assms(3) by (simp add: out)
  have "bound_chain g' t"
    using broker_alive [OF assms(2) t alive] finish_returns(1) [OF fin]
      reachable_steps [OF assms(2) broker_execute_steps [OF t]] by (blast intro: bound_chain_steps)
  moreover have "rc_receipt_id (vt_receipt t) \<in> set (ao_receipt_ids out)"
    using set_gathered_evidence [of "records @ executed_records (executed_closing initial cap t) t"]
    by (auto simp: out executed_records_def)
  moreover have "map ph_phase (ao_phase_records out) = [MONITOR, ANALYZE, PLAN, EXECUTE, KNOWLEDGE]"
    using assms(4) by (simp add: out executed_records_def)
  moreover have "ao_verified out" "ao_capability_ref out = Some (cap_iri cap)"
    using broker_alive [OF assms(2) t alive] by (auto simp: out)
  ultimately show ?thesis
    using broker_alive [OF assms(2) t alive] unfolding reports_def by auto
qed

text \<open>
  What the controller asks of the authority that issues its grants: an ALIVE answer carries a
  grant, given under an admitted reference and in the name of a known principal.
\<close>

locale grant_authority =
  fixes issue :: "'w grant_issuer" and admits :: "string option \<Rightarrow> bool" and owner :: string
  assumes alive_has_grant: "issue a p ref auth w = (Inr gi, w') \<Longrightarrow> gi_standing gi = ALIVE \<Longrightarrow>
      \<exists>grant. gi_grant gi = Some grant"
    and grant_is_admitted: "issue a p ref auth w = (Inr gi, w') \<Longrightarrow> gi_standing gi = ALIVE \<Longrightarrow>
      gi_grant gi = Some grant \<Longrightarrow> admits auth \<and> eg_principal grant = owner"
begin

lemma issued:
  assumes "issue_grant issue a p ref auth g = (Inr gi, g')" "gi_standing gi = ALIVE"
  obtains grant where "gi_grant gi = Some grant" "admits auth" "eg_principal grant = owner"
proof -
  from assms(1) obtain w' where "issue a p ref auth (g_world g) = (Inr gi, w')"
    by (auto simp: issue_grant_def split: prod.splits)
  with alive_has_grant grant_is_admitted assms(2) that show thesis by blast
qed

lemma plan_alive:
  assumes "autonomic_plan cfg (Some issue) validate moment request records ep initial cap g = (Inr out, g')"
    and "reachable cfg g" "ao_standing out = ALIVE" "map ph_phase records = [MONITOR, ANALYZE]"
  shows "admits (cq_authority_ref request) \<and>
    (\<exists>grant t. eg_principal grant = owner \<and> reports request cap grant t out g')"
proof -
  obtain a p gi g1 where gi: "issue_grant issue a p
      (''urn:gymact:observation:'' @ ob_state_digest initial) (cq_authority_ref request) g = (Inr gi, g1)"
    and rest: "(case gi_grant gi of
        None \<Rightarrow> finish cfg request (records @ [plan_record (gi_standing gi) (gi_reason gi)])
          (Some (ep_episode_id ep)) (unchanged_closing (gi_standing gi) (gi_reason gi)
            (Some (cap_iri cap)) (ob_state_digest initial))
      | Some grant \<Rightarrow>
          if gi_standing gi \<noteq> ALIVE
          then finish cfg request (records @ [plan_record (gi_standing gi) (gi_reason gi)])
            (Some (ep_episode_id ep)) (unchanged_closing (gi_standing gi) (gi_reason gi)
              (Some (cap_iri cap)) (ob_state_digest initial))
          else autonomic_execute cfg moment request
            (records @ [plan_record (gi_standing gi) (gi_reason gi)]) ep initial cap a p grant) g1 =
      (Inr out, g')"
    using assms(1) unfolding autonomic_plan_def Let_def by (auto elim!: bind_act_InrE)
  have alive: "gi_standing gi = ALIVE"
    using rest assms(3) by (auto split: option.splits if_splits dest!: finish_returns(2))
  from issued [OF gi alive] obtain grant where grant: "gi_grant gi = Some grant"
    "admits (cq_authority_ref request)" "eg_principal grant = owner" .
  have "reachable cfg g1" by (rule reachable_step [OF assms(2) issue_grant_step [OF gi]])
  with rest grant alive assms(3,4) have "\<exists>t. reports request cap grant t out g'"
    by (intro autonomic_execute_alive) (auto simp: plan_record_def)
  with grant show ?thesis by blast
qed

lemma analyze_alive:
  assumes "autonomic_analyze cfg (Some issue) validate moment request records m ep g = (Inr out, g')"
    and "reachable cfg g" "ao_standing out = ALIVE" "map ph_phase records = [MONITOR]"
  shows "admits (cq_authority_ref request) \<and>
    (\<exists>items cap grant t. fst (select_capability items request) = Some cap \<and>
       eg_principal grant = owner \<and> reports request cap grant t out g')"
proof -
  obtain initial items g1 g2 where look: "first_look cfg m ep g = (Inr initial, g1)"
      "offered cfg ep g1 = (Inr items, g2)"
    and rest: "autonomic_choose cfg (Some issue) validate moment request records m ep initial items g2 =
      (Inr out, g')"
    using assms(1) unfolding autonomic_analyze_def by (auto elim!: bind_act_InrE)
  have "reachable cfg g2"
    using reachable_steps [OF reachable_steps [OF assms(2) look_steps(1)] look_steps(2)] look by blast
  obtain selected stand reason where sel: "select_capability items request = (selected, stand, reason)"
    by (cases "select_capability items request") auto
  have "stand = UNSUPPORTED \<or> stand = REQUIRES_CONFIGURATION" if "selected = None"
    using sel that by (auto simp: select_capability_def Let_def split: list.splits)
  with rest sel assms(3) obtain cap where cap: "selected = Some cap"
    by (auto simp: autonomic_choose_def Let_def split: option.splits dest!: finish_returns(2))
  from rest sel cap assms(4) obtain records1 where plan:
    "autonomic_plan cfg (Some issue) validate moment request records1 ep initial cap g2 = (Inr out, g')"
    "map ph_phase records1 = [MONITOR, ANALYZE]"
    by (auto simp: autonomic_choose_def Let_def)
  have "fst (select_capability items request) = Some cap" using sel cap by simp
  with plan_alive [OF plan(1) \<open>reachable cfg g2\<close> assms(3) plan(2)] show ?thesis by blast
qed

end

text \<open>The issuer that ships with the controller.\<close>

lemma bounded_issue_alive:
  "bounded_issue allowed owner policy a p ref auth w = (Inr gi, w') \<Longrightarrow> gi_standing gi = ALIVE \<Longrightarrow>
     \<exists>r grant. auth = Some r \<and> r \<in> set allowed \<and> gi_grant gi = Some grant \<and> eg_principal grant = owner"
  by (auto simp: bounded_issue_def bounded_grant_def bind_res_Inr_iff admitted_issue_requires_grant_def
      split: option.splits if_splits)

interpretation bounded: grant_authority "bounded_issue allowed owner policy"
    "\<lambda>auth. \<exists>r \<in> set allowed. auth = Some r" owner
  by unfold_locales (blast dest: bounded_issue_alive, fastforce dest: bounded_issue_alive)

lemma create_episode_fresh:
  assumes "create_episode cfg p sc (Some c) a (Some k) g = (Inr m, g')"
    and "g_materialization_idempotency g k = None"
  shows "mr_standing m = ALIVE \<longleftrightarrow> mr_accepted m" "mr_accepted m \<Longrightarrow> mr_episode m \<noteq> None"
    "mr_accepted m \<Longrightarrow> mr_observation m \<noteq> None"
proof -
  let ?i = "\<lparr>mi_provider = p, mi_scenario = sc, mi_config = c, mi_authority_ref = a,
    mi_principal = None, mi_idempotency_key = k\<rparr>"
  have "materialize cfg ?i g = (Inr m, g')"
    using assms(1) by (auto simp: create_episode_def Let_def elim!: bind_act_InrE)
  from materialize_fresh_outcome [OF this] assms(2) have "mat_outcome cfg ?i g m g'" by simp
  then show "mr_standing m = ALIVE \<longleftrightarrow> mr_accepted m" "mr_accepted m \<Longrightarrow> mr_episode m \<noteq> None"
    "mr_accepted m \<Longrightarrow> mr_observation m \<noteq> None"
    by (auto simp: mat_outcome_def)
qed

lemma selected_capability:
  "fst (select_capability items request) = Some cap \<Longrightarrow>
     cap \<in> set items \<and> cap_consequence cap = CONS_DO \<and>
     (\<forall>ref. cq_capability_ref request = Some ref \<longrightarrow> cap_iri cap = ref)"
  by (auto simp: select_capability_def Let_def filter_eq_Cons_iff split: list.splits option.splits)



section \<open>Evidence of every run\<close>

text \<open>What every returned outcome has, whatever the issuer does.\<close>

definition well_evidenced :: "consequence_request \<Rightarrow> autonomic_outcome \<Rightarrow> ('p, 'h, 'w) gym \<Rightarrow> bool" where
  "well_evidenced request out g \<longleftrightarrow>
     ao_request_id out = cq_request_id request \<and>
     evidenced g (ao_receipt_ids out) \<and> distinct (ao_receipt_ids out) \<and> ao_receipt_ids out \<noteq> [] \<and>
     (ao_cleanup_standing out = None \<longleftrightarrow> ao_episode_id out = None) \<and>
     (\<exists>n. map ph_phase (ao_phase_records out) = take (Suc n) [MONITOR, ANALYZE, PLAN, EXECUTE, KNOWLEDGE])"

abbreviation all_phases :: "autonomic_phase list" where
  "all_phases \<equiv> [MONITOR, ANALYZE, PLAN, EXECUTE, KNOWLEDGE]"

text \<open>The records collected so far: the first \<open>Suc n\<close> phases, with their evidence.\<close>

definition trail :: "('p, 'h, 'w) gym \<Rightarrow> phase_record list \<Rightarrow> nat \<Rightarrow> bool" where
  "trail g records n \<longleftrightarrow>
     evidenced g (concat (map ph_evidence_refs records)) \<and>
     map ph_phase records = take (Suc n) all_phases \<and> records \<noteq> [] \<and> ph_evidence_refs (hd records) \<noteq> []"

lemma trail_steps:
  "trail g records n \<Longrightarrow> reachable cfg g \<Longrightarrow> (gym_step cfg)\<^sup>*\<^sup>* g g' \<Longrightarrow> trail g' records n"
  unfolding trail_def using evidenced_steps by blast

lemma trail_snoc:
  "trail g records n \<Longrightarrow> n < 4 \<Longrightarrow> ph_phase r = all_phases ! Suc n \<Longrightarrow> evidenced g (ph_evidence_refs r) \<Longrightarrow>
     trail g (records @ [r]) (Suc n)"
  unfolding trail_def
  by (simp add: take_Suc_conv_app_nth del: nth_Cons_Suc take_Suc_Cons)

lemma finish_well_evidenced:
  assumes "finish cfg request records eid c g = (Inr out, g')" "reachable cfg g" "trail g records n"
  shows "well_evidenced request out g'"
proof -
  note fin = finish_returns [OF assms(1)]
  from fin(2) obtain cl where out: "out = closed_outcome request records eid c cl
      (gathered_evidence g' eid records)" "cl = None \<longleftrightarrow> eid = None" by auto
  have "set (ph_evidence_refs (hd records)) \<subseteq> set (gathered_evidence g' eid records)"
    using set_gathered_evidence [of records g' eid] assms(3) by (cases records) (auto simp: trail_def)
  then have "gathered_evidence g' eid records \<noteq> []" using assms(3) by (auto simp: trail_def)
  moreover note trail_steps [OF assms(3,2) fin(1)]
  ultimately show ?thesis
    using evidenced_gathered [OF reachable_inv [OF reachable_steps [OF assms(2) fin(1)]]] out
    by (auto simp: well_evidenced_def closed_outcome_def trail_def)
qed

lemma execute_well_evidenced:
  assumes "autonomic_execute cfg moment request records ep initial cap a p grant g = (Inr out, g')"
    and "reachable cfg g" "trail g records 2"
  shows "well_evidenced request out g'"
proof -
  let ?q = "\<lparr>br_action = a, br_prepared = p, br_grant = grant,
    br_current_revision = cq_subject_revision request, br_expected = cq_expected request\<rparr>"
  obtain t g1 where t: "broker_execute Production_runtime cfg ?q moment g = (Inr t, g1)"
    and fin: "finish cfg request (records @ executed_records (executed_closing initial cap t) t)
      (Some (ep_episode_id ep)) (executed_closing initial cap t) g1 = (Inr out, g')"
    using assms(1) unfolding autonomic_execute_def Let_def by (auto elim!: bind_act_InrE)
  note steps = broker_execute_steps [OF t]
  have "evidenced g1 [rc_receipt_id (vt_receipt t)]"
    using in_ledger_evidenced [OF broker_execute_recorded [OF t assms(2)]] by simp
  then have "trail g1 ((records @ [hd (executed_records (executed_closing initial cap t) t)]) @
      [last (executed_records (executed_closing initial cap t) t)]) (Suc (Suc 2))"
    using trail_steps [OF assms(3,2) steps]
    by (intro trail_snoc) (auto simp: executed_records_def)
  then have "trail g1 (records @ executed_records (executed_closing initial cap t) t) 4"
    by (simp add: executed_records_def)
  with finish_well_evidenced [OF fin reachable_steps [OF assms(2) steps]] show ?thesis .
qed

lemma plan_well_evidenced:
  assumes "autonomic_plan cfg issuer validate moment request records ep initial cap g = (Inr out, g')"
    and "reachable cfg g" "trail g records (Suc 0)"
  shows "well_evidenced request out g'"
proof -
  have step: "trail h (records @ [plan_record stand reason]) 2" if "trail h records (Suc 0)"
    for h :: "('a, 'b, 'c) gym" and stand reason
    using trail_snoc [OF that] by (simp add: plan_record_def eval_nat_numeral)
  have fin: "well_evidenced request out g'"
    if "finish cfg request (records @ [plan_record stand reason]) eid c h = (Inr out, g')"
      "reachable cfg h" "trail h records (Suc 0)" for stand reason eid c h
    using finish_well_evidenced [OF that(1,2) step [OF that(3)]] .
  have exe: "well_evidenced request out g'"
    if "autonomic_execute cfg moment request (records @ [plan_record stand reason]) ep initial cap a p
        grant h = (Inr out, g')" "reachable cfg h" "trail h records (Suc 0)" for stand reason a p grant h
    using execute_well_evidenced [OF that(1,2) step [OF that(3)]] .
  have issued: "reachable cfg h \<and> trail h records (Suc 0)"
    if "issue_grant issue a p ref auth g = (x, h)" for issue a p ref auth x h
    using issue_grant_step [OF that] assms(2,3) trail_steps reachable_step by blast
  show ?thesis
    using assms unfolding autonomic_plan_def Let_def
    by (auto elim!: bind_act_InrE split: option.splits if_splits dest!: issued)
      (rule fin exe; assumption)+
qed

lemma analyze_well_evidenced:
  assumes "autonomic_analyze cfg issuer validate moment request records m ep g = (Inr out, g')"
    and "reachable cfg g" "trail g records 0" "in_ledger g (mr_receipt m)"
  shows "well_evidenced request out g'"
proof -
  obtain initial items g1 g2 where look: "first_look cfg m ep g = (Inr initial, g1)"
      "offered cfg ep g1 = (Inr items, g2)"
    and rest: "autonomic_choose cfg issuer validate moment request records m ep initial items g2 =
      (Inr out, g')"
    using assms(1) unfolding autonomic_analyze_def by (auto elim!: bind_act_InrE)
  have steps: "(gym_step cfg)\<^sup>*\<^sup>* g g2"
    using look_steps(1) [OF look(1)] look_steps(2) [OF look(2)] by (rule rtranclp_trans)
  note reach = reachable_steps [OF assms(2) steps]
  obtain selected stand reason where sel: "select_capability items request = (selected, stand, reason)"
    by (cases "select_capability items request") auto
  have "trail g2 (records @ [\<lparr>ph_phase = ANALYZE, ph_standing = stand, ph_reason = reason,
      ph_evidence_refs = [rc_receipt_id (mr_receipt m)]\<rparr>]) (Suc 0)"
    using in_ledger_evidenced [OF in_ledger_steps [OF assms(2) steps assms(4)]]
    by (intro trail_snoc trail_steps [OF assms(3,2) steps]) auto
  with rest sel reach show ?thesis
    by (auto simp: autonomic_choose_def Let_def split: option.splits
        dest: finish_well_evidenced plan_well_evidenced)
qed

text \<open>C25: Whatever the issuer, the provider and the verdicts are: an outcome that the controller
  returns went through a first part of the five phases, reports at least one receipt and only
  receipts that are in the ledger, each once, and has a cleanup standing exactly when an episode
  existed.\<close>

theorem autonomic_evidenced:
  assumes "reachable cfg g"
    and "autonomic_run cfg issuer validate moment request g = (Inr out, g')"
  shows "well_evidenced request out g'"
proof -
  obtain m g1 where m: "create_episode cfg (cq_provider request) (cq_scenario request)
      (Some (cq_config request)) (cq_authority_ref request)
      (Some (cq_idempotency_key request @ '':materialize'')) g = (Inr m, g1)"
    using assms(2) unfolding autonomic_run_def by (auto elim!: bind_act_InrE)
  let ?monitor = "[\<lparr>ph_phase = MONITOR, ph_standing = mr_standing m,
    ph_reason = or_default (rc_reason (mr_receipt m)) ''WORLD_MATERIALIZED'',
    ph_evidence_refs = [rc_receipt_id (mr_receipt m)]\<rparr>]"
  have rec: "in_ledger g1 (mr_receipt m)"
    by (rule create_episode_recorded [OF m reachable_inv [OF assms(1)]])
  have reach: "reachable cfg g1" by (rule reachable_step [OF assms(1) step_create [OF m]])
  have "trail g1 ?monitor 0" using in_ledger_evidenced [OF rec] by (simp add: trail_def)
  with assms(2) m rec reach show ?thesis
    unfolding autonomic_run_def
    by (auto simp: bind_act_def Let_def split: option.splits if_splits
        dest: finish_well_evidenced analyze_well_evidenced)
qed

theorem autonomic_evidenced_witness:
  "\<exists>out g. autonomic_run demo (Some demo_issuer) (\<lambda>_ _. None) 0 demo_consequence demo_g1 =
     (Inr out, g) \<and> ao_standing out = ALIVE \<and> well_evidenced demo_consequence out g"
proof (cases "autonomic_run demo (Some demo_issuer) (\<lambda>_ _. None) 0 demo_consequence demo_g1")
  case (Pair x g)
  with demo_run obtain out where "x = Inr out" "ao_standing out = ALIVE"
    by (cases x) auto
  with Pair autonomic_evidenced [OF reachable_demo_g1] show ?thesis by blast
qed

section \<open>No grant, no actuation\<close>

text \<open>Without these the simplifier looks into the branches of a case distinction.\<close>

lemmas case_weak_congs =
  option.case_cong_weak sum.case_cong_weak prod.case_cong_weak exn.case_cong_weak if_weak_cong

lemma with_actuate_frame [simp]:
  "gc_size (with_actuate cfg f) = gc_size cfg" "fresh_uuid (with_actuate cfg f) = fresh_uuid cfg"
  "error_digest (with_actuate cfg f) = error_digest cfg"
  "env_teardown (gc_spi (with_actuate cfg f)) = env_teardown (gc_spi cfg)"
  "provider_materialize (gc_spi (with_actuate cfg f)) = provider_materialize (gc_spi cfg)"
  "provider_requires_authority (gc_spi (with_actuate cfg f)) = provider_requires_authority (gc_spi cfg)"
  "admit_capabilities (with_actuate cfg f) = admit_capabilities cfg"
  by (auto simp: with_actuate_def fun_eq_iff fresh_uuid_def error_digest_def admit_capabilities_def
      split: result_splits)

lemma with_actuate_materialize [simp]:
  "create_episode (with_actuate cfg f) = create_episode cfg"
proof -
  have result: "materialization_result (with_actuate cfg f) = materialization_result cfg"
    by (simp add: fun_eq_iff materialization_result_def)
  have refuse: "materialize_refuse (with_actuate cfg f) = materialize_refuse cfg"
    "materialize_conflict (with_actuate cfg f) = materialize_conflict cfg"
    by (simp_all add: fun_eq_iff materialize_refuse_def materialize_conflict_def result)
  have "materialize_admit (with_actuate cfg f) = materialize_admit cfg"
    by (auto simp: fun_eq_iff materialize_admit_def refuse result Let_def split: result_splits)
  then have "materialize_with (with_actuate cfg f) = materialize_with cfg"
    by (auto simp: fun_eq_iff materialize_with_def refuse Let_def split: result_splits)
  then have "materialize (with_actuate cfg f) = materialize cfg"
    by (auto simp: fun_eq_iff materialize_def refuse Let_def split: result_splits)
  then show ?thesis by (simp add: create_episode_def [abs_def] Let_def cong del: case_weak_congs)
qed

lemma with_actuate_teardown [simp]: "teardown (with_actuate cfg f) = teardown cfg"
proof -
  have receipt: "teardown_receipt (with_actuate cfg f) = teardown_receipt cfg"
    by (simp add: fun_eq_iff teardown_receipt_def recovery_receipt_def)
  have "teardown_do (with_actuate cfg f) = teardown_do cfg"
    by (rule ext)+ (auto simp: teardown_do_def receipt split: result_splits)
  then have "teardown_locked (with_actuate cfg f) = teardown_locked cfg"
    by (simp add: teardown_locked_def [abs_def] receipt cong del: case_weak_congs)
  then show ?thesis by (simp add: teardown_def [abs_def] cong del: case_weak_congs)
qed

lemma with_actuate_digest [simp]: "canonical_digest (with_actuate cfg f) = canonical_digest cfg"
  by (simp add: canonical_digest_def [abs_def] cong del: case_weak_congs)

lemma with_actuate_controller [simp]:
  "finish (with_actuate cfg f) = finish cfg" "first_look (with_actuate cfg f) = first_look cfg"
  "offered (with_actuate cfg f) = offered cfg"
  "construct_attempt (with_actuate cfg f) = construct_attempt cfg"
  by (simp_all add: finish_def [abs_def] first_look_def [abs_def] observe_def [abs_def]
      offered_def [abs_def] construct_attempt_def [abs_def] cong del: case_weak_congs)

text \<open>An issuer that gives no grant for the request.\<close>

definition ungranted :: "'w grant_issuer option \<Rightarrow> string option \<Rightarrow> bool" where
  "ungranted issuer auth \<longleftrightarrow>
     (case issuer of
        None \<Rightarrow> True
      | Some issue \<Rightarrow> \<forall>a p ref w. case fst (issue a p ref auth w) of
            Inl e \<Rightarrow> True | Inr gi \<Rightarrow> gi_grant gi = None)"

lemma bounded_ungranted:
  "\<forall>ref. auth = Some ref \<longrightarrow> ref \<notin> set allowed \<Longrightarrow> ungranted (Some (bounded_issue allowed owner policy)) auth"
  by (auto simp: ungranted_def bounded_issue_def split: option.splits)

lemma plan_ungranted:
  assumes "ungranted issuer (cq_authority_ref request)"
  shows "autonomic_plan (with_actuate cfg f) issuer validate moment request records ep initial cap g =
      autonomic_plan cfg issuer validate moment request records ep initial cap g \<and>
    (\<forall>out g'. autonomic_plan cfg issuer validate moment request records ep initial cap g = (Inr out, g') \<longrightarrow>
       \<not> ao_verified out)"
proof (cases "construct_attempt cfg validate request ep initial cap")
  case (Inl e)
  then show ?thesis by (simp add: autonomic_plan_def bind_act_def)
next
  case (Inr ap)
  obtain a p where ap: "ap = (a, p)" by (cases ap)
  show ?thesis
  proof (cases issuer)
    case None
    with Inr ap show ?thesis
      by (auto simp: autonomic_plan_def bind_act_def dest!: finish_returns(2))
  next
    case (Some issue)
    obtain x w where x: "issue a p (''urn:gymact:observation:'' @ ob_state_digest initial)
        (cq_authority_ref request) (g_world g) = (x, w)" by fastforce
    have "fst (issue a p (''urn:gymact:observation:'' @ ob_state_digest initial)
        (cq_authority_ref request) (g_world g)) = Inr gi \<Longrightarrow> gi_grant gi = None" for gi
      using assms Some unfolding ungranted_def by (auto split: sum.splits)
    with Inr ap Some x show ?thesis
      by (cases x) (auto simp: autonomic_plan_def bind_act_def issue_grant_def dest!: finish_returns(2))
  qed
qed

text \<open>C24: Without a grant the controller does not act: if it has no issuer, or one that gives no grant
  for the request's authority reference (as the bounded issuer for a reference it does not
  list), then the run is the same whatever the provider's actuate would do, and it reports no
  verified consequence.\<close>

theorem autonomic_needs_grant:
  assumes "ungranted issuer (cq_authority_ref request)"
  shows "autonomic_run (with_actuate cfg f) issuer validate moment request g =
      autonomic_run cfg issuer validate moment request g \<and>
    (\<forall>out g'. autonomic_run cfg issuer validate moment request g = (Inr out, g') \<longrightarrow> \<not> ao_verified out)"
proof -
  have plan: "autonomic_plan (with_actuate cfg f) issuer validate moment request records ep initial cap =
      autonomic_plan cfg issuer validate moment request records ep initial cap" for records ep initial cap
    using plan_ungranted [OF assms] by blast
  have choose: "autonomic_choose (with_actuate cfg f) issuer validate moment request records m ep initial items =
      autonomic_choose cfg issuer validate moment request records m ep initial items" for records m ep initial items
    by (simp add: autonomic_choose_def Let_def plan cong del: case_weak_congs)
  have not_chosen: "\<not> ao_verified out"
    if "autonomic_choose cfg issuer validate moment request records m ep initial items h = (Inr out, g')"
    for records m ep initial items h out g'
  proof (cases "select_capability items request")
    case (fields selected stand reason)
    with that show ?thesis
      by (cases selected)
        (auto simp: autonomic_choose_def Let_def dest!: finish_returns(2)
          dest: plan_ungranted [OF assms, THEN conjunct2, rule_format])
  qed
  have analyze: "autonomic_analyze (with_actuate cfg f) issuer validate moment request records m ep =
      autonomic_analyze cfg issuer validate moment request records m ep" for records m ep
    by (simp add: autonomic_analyze_def choose)
  have unverified: "\<not> ao_verified out"
    if "autonomic_analyze cfg issuer validate moment request records m ep h = (Inr out, g')"
    for records m ep h out g'
    using that unfolding autonomic_analyze_def by (auto elim!: bind_act_InrE dest: not_chosen)
  have "autonomic_run (with_actuate cfg f) issuer validate moment request =
      autonomic_run cfg issuer validate moment request"
    by (simp add: autonomic_run_def analyze Let_def cong del: case_weak_congs)
  moreover have "\<not> ao_verified out"
    if "autonomic_run cfg issuer validate moment request g = (Inr out, g')" for out g'
    using that unfolding autonomic_run_def
    by (auto simp: Let_def split: option.splits if_splits elim!: bind_act_InrE
        dest!: finish_returns(2) dest: unverified)
  ultimately show ?thesis by simp
qed

theorem autonomic_needs_grant_witness:
  "\<exists>out g. autonomic_run (with_actuate demo (\<lambda>_ _ _ w. (Done [], w))) None (\<lambda>_ _. None) 0 demo_consequence demo_g1 =
     (Inr out, g) \<and> ao_standing out = REFUSED \<and> \<not> ao_verified out"
proof (cases "autonomic_run demo None (\<lambda>_ _. None) 0 demo_consequence demo_g1")
  case (Pair x g)
  with demo_run_ungranted obtain out where "x = Inr out" "ao_standing out = REFUSED"
    by (cases x) auto
  with Pair autonomic_needs_grant [of None demo_consequence demo _ "\<lambda>_ _. None" 0 demo_g1]
  show ?thesis by (simp add: ungranted_def)
qed

section \<open>Plans stay bound\<close>

lemma broker_receipt_plan:
  assumes "broker_execute kind cfg q moment g = (Inr t, g')"
  shows "rc_planning_provenance_digest (vt_receipt t) = pa_planning_provenance_digest (br_prepared q)"
  using assms unfolding broker_execute_def execute_admitted_def refuse_admission_def Let_def
  by (auto simp: bound_receipt_def grant_fields_def split: if_splits elim!: bind_act_InrE)

text \<open>A request bound to a plan always passes the binding's validator; executing it does exactly
  what the broker does, raises only what the broker raises, and binds the plan's digest and the
  digest of the very receipt in the ledger. A request whose prepared action names another plan
  digest is not accepted.\<close>

theorem planned_receipt_bound:
  assumes "reachable cfg g" "bind_plan (gc_digest cfg) q plan = Inr planned"
  shows "(case broker_execute kind cfg (pl_request planned) moment g of
      (Inl e, g') \<Rightarrow> execute_planned kind cfg planned moment g = (Inl e, g')
    | (Inr t, g') \<Rightarrow> \<exists>b. execute_planned kind cfg planned moment g =
          (Inr \<lparr>pt_transition = t, pt_binding = b\<rparr>, g') \<and>
        pb_plan_digest b = plan_digest (gc_digest cfg) plan \<and>
        pb_receipt_id b = rc_receipt_id (vt_receipt t) \<and>
        pb_receipt_digest b = gc_digest cfg (receipt_json (vt_receipt t)) \<and>
        in_ledger g' (vt_receipt t)) \<and>
    (\<forall>other. require_exact_plan_binding (gc_digest cfg) (planned\<lparr>pl_plan_provenance := other\<rparr>) =
        Inr (planned\<lparr>pl_plan_provenance := other\<rparr>) \<longrightarrow>
      plan_digest (gc_digest cfg) other = plan_digest (gc_digest cfg) plan)"
proof -
  have planned: "planned = \<lparr>pl_request = q\<lparr>br_prepared := (br_prepared q)
          \<lparr>pa_planning_provenance_digest := Some (plan_digest (gc_digest cfg) plan)\<rparr>\<rparr>,
        pl_plan_provenance = plan\<rparr>"
    using assms(2) by (simp add: bind_plan_def require_exact_plan_binding_def)
  obtain x g' where x: "broker_execute kind cfg (pl_request planned) moment g = (x, g')" by fastforce
  have "\<exists>b. execute_planned kind cfg planned moment g = (Inr \<lparr>pt_transition = t, pt_binding = b\<rparr>, g') \<and>
        pb_plan_digest b = plan_digest (gc_digest cfg) plan \<and>
        pb_receipt_id b = rc_receipt_id (vt_receipt t) \<and>
        pb_receipt_digest b = gc_digest cfg (receipt_json (vt_receipt t)) \<and>
        in_ledger g' (vt_receipt t)" if "x = Inr t" for t
    using x that broker_receipt_plan [of kind cfg "pl_request planned" moment g t g']
      broker_execute_recorded [of kind cfg "pl_request planned" moment g t g'] assms(1)
    by (simp add: execute_planned_def manufacture_binding_def bind_act_def Let_def planned)
  with x show ?thesis
    by (cases x) (auto simp: execute_planned_def bind_act_def planned require_exact_plan_binding_def)
qed

theorem planned_receipt_bound_witness:
  "\<exists>t b g. execute_planned Production_runtime demo demo_planned 0 demo_g2 =
     (Inr \<lparr>pt_transition = t, pt_binding = b\<rparr>, g) \<and> vt_standing t = ALIVE \<and>
     pb_plan_digest b = plan_digest demo_digest demo_plan \<and> in_ledger g (vt_receipt t)"
proof (cases "broker_execute Production_runtime demo (pl_request demo_planned) 0 demo_g2")
  case (Pair x g)
  with demo_planned_returns obtain t where t: "x = Inr t" "vt_standing t = ALIVE" by (cases x) auto
  have digest: "gc_digest demo = demo_digest" by (simp add: demo_cfg_def)
  from planned_receipt_bound [OF reachable_demo(1), of demo_request demo_plan demo_planned Production_runtime 0]
    demo_planned_bound Pair t
  show ?thesis by (auto simp: digest)
qed

section \<open>Batches\<close>

lemma autonomic_run_request_id:
  assumes "autonomic_run cfg issuer validate moment request g = (Inr out, g')"
  shows "ao_request_id out = cq_request_id request"
  using assms
  unfolding autonomic_run_def autonomic_analyze_def autonomic_choose_def autonomic_plan_def
    autonomic_execute_def Let_def
  by (auto split: option.splits if_splits prod.splits elim!: bind_act_InrE dest!: finish_returns(2))

lemma run_in_order_returns:
  assumes "run_in_order run requests order results s = (Inr results', s')"
    and "\<And>request out s s'. run request s = (Inr out, s') \<Longrightarrow> ao_request_id out = cq_request_id request"
    and "length results = length requests"
    and "\<forall>i < length requests. \<forall>out. results ! i = Some out \<longrightarrow> ao_request_id out = cq_request_id (requests ! i)"
  shows "length results' = length requests \<and>
    (\<forall>i < length requests. \<forall>out. results' ! i = Some out \<longrightarrow> ao_request_id out = cq_request_id (requests ! i)) \<and>
    (\<forall>i < length requests. i \<in> set order \<or> results ! i \<noteq> None \<longrightarrow> results' ! i \<noteq> None)"
  using assms(1,3,4)
proof (induction order arbitrary: results s)
  case Nil
  then show ?case by simp
next
  case (Cons i order)
  obtain out s1 where out: "run (requests ! i) s = (Inr out, s1)"
    "run_in_order run requests order (results[i := Some out]) s1 = (Inr results', s')"
    using Cons.prems(1) by (auto split: prod.splits sum.splits)
  have ids: "\<forall>j < length requests. \<forall>x. results[i := Some out] ! j = Some x \<longrightarrow>
      ao_request_id x = cq_request_id (requests ! j)"
  proof (intro allI impI)
    fix j x
    assume "j < length requests" "results[i := Some out] ! j = Some x"
    with Cons.prems(2,3) assms(2) [OF out(1)] show "ao_request_id x = cq_request_id (requests ! j)"
      by (cases "i = j") auto
  qed
  have kept: "results[i := Some out] ! j \<noteq> None" if "j < length requests" "j = i \<or> results ! j \<noteq> None" for j
    using that Cons.prems(2) by (cases "i = j") auto
  have "length (results[i := Some out]) = length requests" using Cons.prems(2) by simp
  note IH = Cons.IH [OF out(2) this ids]
  have "results' ! j \<noteq> None" if "j < length requests" "j \<in> set (i # order) \<or> results ! j \<noteq> None" for j
    using IH kept [OF that(1)] that by (metis set_ConsD)
  with IH show ?case by blast
qed

lemma map_filter_all: "None \<notin> set xs \<Longrightarrow> map Some (List.map_filter id xs) = xs"
proof (induction xs)
  case (Cons x xs)
  then show ?case by (cases x) (auto simp: List.map_filter_def)
qed (simp add: List.map_filter_def)

lemma sum_count_list: "set ys \<subseteq> set vs \<Longrightarrow> distinct vs \<Longrightarrow> (\<Sum>v \<leftarrow> vs. count_list ys v) = length ys"
  by (simp add: sum_list_distinct_conv_sum_set sum_count_set)

lemma standing_counts_total: "sum_list (map snd (standing_counts outs)) = length outs"
  by (simp add: standing_counts_def Let_def comp_def sum_count_list)

lemma verified_all_iff: "length (filter P xs) = length xs \<longleftrightarrow> list_all P xs"
  by (metis filter_id_conv length_filter_less list_all_iff nat_neq_iff)

text \<open>A batch that returns reports one outcome per request, in the order of the requests whatever
  the order in which the tasks ran, with standing counts that add up, and says all verified
  exactly if there is a request and every outcome is ALIVE and verified; a batch with a repeated
  identifier or too many requests starts nothing. The cardinality error cannot occur.\<close>

theorem batch_in_request_order:
  assumes "distinct order" "set order = {..<length requests}"
    and "automation_run policy (autonomic_run cfg issuer validate moment) order requests g = (x, g')"
  shows "(case x of
      Inr b \<Rightarrow> map ao_request_id (ab_outcomes b) = map cq_request_id requests \<and>
        distinct (map cq_request_id requests) \<and> length requests \<le> ap_max_requests policy \<and>
        sum_list (map snd (ab_standing_counts b)) = length requests \<and>
        (all_verified b \<longleftrightarrow> requests \<noteq> [] \<and>
           list_all (\<lambda>r. ao_standing r = ALIVE \<and> ao_verified r) (ab_outcomes b))
    | Inl e \<Rightarrow> exn_type e \<noteq> ''RuntimeError'' \<and> (exn_type e = ''ValueError'' \<longrightarrow> g' = g))"
proof -
  let ?run = "autonomic_run cfg issuer validate moment"
  have id: "ao_request_id out = cq_request_id request" if "?run request h = (Inr out, h')" for request out h h'
    using that by (rule autonomic_run_request_id)
  have full: "\<exists>outs. List.map_filter id results = outs \<and> length outs = length requests \<and>
      map ao_request_id outs = map cq_request_id requests"
    if "run_in_order ?run requests order (replicate (length requests) None) g = (Inr results, h)"
    for results h
  proof -
    from run_in_order_returns [OF that id] assms(2)
    have res: "length results = length requests" "None \<notin> set results"
      "\<forall>i < length requests. \<forall>out. results ! i = Some out \<longrightarrow> ao_request_id out = cq_request_id (requests ! i)"
      by (auto simp: in_set_conv_nth)
    from map_filter_all [OF res(2)] have "length (List.map_filter id results) = length requests"
      "\<forall>i < length requests. results ! i = Some (List.map_filter id results ! i)"
      using res(1) by (metis length_map, metis length_map nth_map)
    with res(3) show ?thesis by (auto intro: nth_equalityI)
  qed
  have raised: "e = Raised ''ExceptionGroup'' ''unhandled errors in a TaskGroup''"
    if "run_in_order ?run requests order results h = (Inl e, h')" for results h e h'
    using that by (induction order arbitrary: results h) (auto split: prod.splits sum.splits)
  show ?thesis
  proof (cases "length requests > ap_max_requests policy \<or> requests = [] \<or>
      card (set (map cq_request_id requests)) \<noteq> length requests")
    case True
    with assms(3) show ?thesis
      by (auto simp: automation_run_def all_verified_def split: if_splits)
  next
    case False
    then have checks: "length requests \<le> ap_max_requests policy" "requests \<noteq> []"
      "distinct (map cq_request_id requests)"
      by (auto intro: card_distinct simp: not_less)
    obtain y h where y: "run_in_order ?run requests order (replicate (length requests) None) g = (y, h)"
      by fastforce
    show ?thesis
    proof (cases y)
      case (Inl e)
      with raised [of "replicate (length requests) None" g e h] y
      have "e = Raised ''ExceptionGroup'' ''unhandled errors in a TaskGroup''" by simp
      with Inl y False assms(3) show ?thesis
        by (auto simp: automation_run_def bind_act_def)
    next
      case (Inr results)
      with y full obtain outs where outs: "List.map_filter id results = outs"
        "length outs = length requests" "map ao_request_id outs = map cq_request_id requests" by blast
      with y Inr False assms(3) have "x = Inr (batch_of outs)"
        by (auto simp: automation_run_def bind_act_def)
      with outs checks show ?thesis
        using verified_all_iff [of _ outs]
        by (auto simp: batch_of_def all_verified_def standing_counts_total)
    qed
  qed
qed

theorem batch_in_request_order_witness:
  "\<exists>b g. automation_run \<lparr>ap_max_concurrency = 1, ap_max_requests = 2\<rparr>
       (autonomic_run demo None (\<lambda>_ _. None) 0) [0] [demo_consequence] demo_g1 = (Inr b, g) \<and>
     map ao_request_id (ab_outcomes b) = [''q1''] \<and>
     sum_list (map snd (ab_standing_counts b)) = 1"
proof (cases "automation_run \<lparr>ap_max_concurrency = 1, ap_max_requests = 2\<rparr>
    (autonomic_run demo None (\<lambda>_ _. None) 0) [0] [demo_consequence] demo_g1")
  case (Pair x g)
  with demo_batch_returns obtain b where b: "x = Inr b" by (cases x) auto
  have "distinct [0 :: nat]" "set [0] = {..<length [demo_consequence]}" by auto
  from batch_in_request_order [OF this Pair] b Pair show ?thesis
    by (simp add: demo_consequence_def)
qed

section \<open>Runs that do not finish\<close>

text \<open>The input schema refuses the payload: \<open>run\<close> raises, and the episode it opened stays open.\<close>

theorem refused_payload_leaves_episode:
  "case autonomic_run demo (Some demo_issuer) (\<lambda>_ _. Some (Raised ''ValidationError'' [])) 0
       demo_consequence demo_g1 of
     (Inl e, g) \<Rightarrow> e = value_error ''PRECONDITION_REFUSED:INPUT_SCHEMA'' \<and>
       g_episodes g ''u'' \<noteq> None \<and> g_teardown_receipts g ''u'' = None
   | (Inr out, g) \<Rightarrow> False"
  by (simp add: demo_cycle_start del: demo_digest.simps,
    simp add: demo_cycle_intent del: demo_digest.simps)

text \<open>
  The same request again, after a run that tore its episode down: the materialization is
  answered from its idempotency key, and the capabilities of the closed episode are looked up.
\<close>

theorem rerun_meets_closed_episode:
  "case autonomic_run demo None (\<lambda>_ _. None) 0 demo_consequence demo_g1 of
     (Inr out, g) \<Rightarrow>
       ao_cleanup_standing out = Some ALIVE \<and>
       (case autonomic_run demo None (\<lambda>_ _. None) 0 demo_consequence g of
          (Inl e, _) \<Rightarrow> exn_type e = ''KeyError''
        | (Inr again, _) \<Rightarrow> False)
   | (Inl e, g) \<Rightarrow> False"
  by (simp add: demo_cycle_start del: demo_digest.simps,
    simp add: demo_cycle_intent unchanged_closing_def plain_closing_def del: demo_digest.simps,
    simp add: demo_cycle_finish del: demo_digest.simps,
    simp add: demo_cycle_start del: demo_digest.simps)

end
