(* ===== verification/Composition.thy ===== *)
theory Composition
  imports Prelude "HOL-Library.Sublist"
begin

text \<open>
  The composition gate, \<open>src/gymact/composition.py\<close>: does a required set of capabilities need a
  new provider, or do the known components supply it? A text that the code formats is the
  constructor of its template with the values it shows; \<open>sorted\<close> is kept in those values.
\<close>

section \<open>Components, classifications and decisions\<close>

datatype decision = REUSE | COMPOSE | ADAPT | CREATE_PROVIDER | BLOCKED_DISCOVERY

datatype gap_kind = World_physics | Orchestration

record capability_evidence =
  ce_capability_id :: string
  ce_evidence_ref :: string
  ce_evidence_kind :: string
  ce_standing :: string
  ce_subject_identity :: string

record component_capabilities =
  cc_component_ref :: string
  cc_capabilities :: "capability_evidence list"

record capability_classification =
  cf_capability_id :: string
  cf_kind :: gap_kind
  cf_reason :: string

record capability_contract =
  ct_name :: string
  ct_required_capabilities :: "string set"

datatype decision_reason =
    Single_component
  | Composed nat
  | Unclassified "string list"
  | New_physics "string list"
  | Wiring_only "string list"

record composition_decision =
  cd_contract_name :: string
  cd_covered_requirements :: "string set"
  cd_residual_requirements :: "string set"
  cd_unclassified_residual :: "string set"
  cd_orchestration_residual :: "string set"
  cd_physics_residual :: "string set"
  cd_selected_components :: "string list"
  cd_decision :: decision
  cd_reason :: decision_reason

definition trusted_standings :: "string list" where
  "trusted_standings = [''ALIVE'', ''PARTIAL_ALIVE'']"

definition supplies :: "component_capabilities \<Rightarrow> string set" where
  "supplies c =
     set (map ce_capability_id
       (filter (\<lambda>e. ce_standing e \<in> set trusted_standings) (cc_capabilities c)))"

section \<open>The residual\<close>

text \<open>The loop over the inventory: a component is selected for what it adds.\<close>

fun select_components ::
    "string set \<Rightarrow> component_capabilities list \<Rightarrow> string list \<Rightarrow> string set \<Rightarrow>
       string list \<times> string set" where
  "select_components required [] selected covered = (selected, covered)"
| "select_components required (component # rest) selected covered =
     (let overlap = supplies component \<inter> required
      in if overlap - covered \<noteq> {}
         then select_components required rest (selected @ [cc_component_ref component])
                (covered \<union> overlap)
         else select_components required rest selected covered)"

text \<open>The dictionary comprehension \<open>by_id\<close>: a later entry of an id replaces an earlier one.\<close>

definition classification_of :: "capability_classification list \<Rightarrow> string \<Rightarrow> gap_kind option" where
  "classification_of classifications cap =
     map_of (map (\<lambda>c. (cf_capability_id c, cf_kind c)) (rev classifications)) cap"

definition decide ::
    "string list \<Rightarrow> string set \<Rightarrow> string set \<Rightarrow> string set \<Rightarrow> string set \<Rightarrow> decision \<times> decision_reason"
  where
  "decide selected residual unclassified orchestration physics =
     (if residual = {}
      then if length selected \<le> 1 then (REUSE, Single_component)
           else (COMPOSE, Composed (length selected))
      else if unclassified \<noteq> {}
      then (BLOCKED_DISCOVERY, Unclassified (sorted_list_of_set unclassified))
      else if physics \<noteq> {} then (CREATE_PROVIDER, New_physics (sorted_list_of_set physics))
      else (ADAPT, Wiring_only (sorted_list_of_set orchestration)))"

definition of_kind ::
    "capability_classification list \<Rightarrow> gap_kind option \<Rightarrow> string set \<Rightarrow> string set" where
  "of_kind classifications kind = Set.filter (\<lambda>cap. classification_of classifications cap = kind)"

definition compute_residual ::
    "capability_contract \<Rightarrow> component_capabilities list \<Rightarrow> capability_classification list \<Rightarrow>
       composition_decision" where
  "compute_residual contract inventory classifications =
     (let required = ct_required_capabilities contract;
          (selected, covered) = select_components required inventory [] {};
          residual = required - covered;
          unclassified = of_kind classifications None residual;
          orchestration = of_kind classifications (Some Orchestration) residual;
          physics = of_kind classifications (Some World_physics) residual;
          (verdict, reason) = decide selected residual unclassified orchestration physics
      in \<lparr>cd_contract_name = ct_name contract, cd_covered_requirements = covered,
          cd_residual_requirements = residual, cd_unclassified_residual = unclassified,
          cd_orchestration_residual = orchestration, cd_physics_residual = physics,
          cd_selected_components = selected, cd_decision = verdict, cd_reason = reason\<rparr>)"

text \<open>\<open>CreateNotAuthorized\<close> with the values of its text.\<close>

datatype create_refusal = Create_not_authorized string decision_reason "string list"

definition assert_create_authorized ::
    "capability_contract \<Rightarrow> component_capabilities list \<Rightarrow> capability_classification list \<Rightarrow>
       create_refusal + composition_decision" where
  "assert_create_authorized contract inventory classifications =
     (let result = compute_residual contract inventory classifications
      in if cd_decision result \<noteq> CREATE_PROVIDER
         then Inl (Create_not_authorized (ct_name contract) (cd_reason result)
                (cd_selected_components result))
         else Inr result)"

section \<open>What the gate decides\<close>

definition supplied :: "component_capabilities list \<Rightarrow> string set" where
  "supplied inventory = (\<Union>c \<in> set inventory. supplies c)"

lemma supplied_simps [simp]:
  "supplied [] = {}" "supplied (c # cs) = supplies c \<union> supplied cs"
  by (simp_all add: supplied_def)

text \<open>Every component of a list adds a required capability to those before it.\<close>

fun progressive :: "string set \<Rightarrow> string set \<Rightarrow> component_capabilities list \<Rightarrow> bool" where
  "progressive required covered [] \<longleftrightarrow> True"
| "progressive required covered (c # cs) \<longleftrightarrow>
     supplies c \<inter> required - covered \<noteq> {} \<and> progressive required (covered \<union> supplies c \<inter> required) cs"

text \<open>The selection: a progressive part of the inventory that covers what the inventory covers.\<close>

definition selection ::
    "string set \<Rightarrow> string set \<Rightarrow> component_capabilities list \<Rightarrow> component_capabilities list \<Rightarrow> bool" where
  "selection required covered inventory chosen \<longleftrightarrow>
     subseq chosen inventory \<and> progressive required covered chosen \<and>
     covered \<union> required \<inter> supplied chosen = covered \<union> required \<inter> supplied inventory"

lemma select_components_selection:
  "\<exists>chosen. selection required covered inventory chosen \<and>
     select_components required inventory selected covered =
       (selected @ map cc_component_ref chosen, covered \<union> required \<inter> supplied inventory)"
proof (induction required inventory selected covered rule: select_components.induct)
  case (2 required c rest selected covered)
  show ?case
  proof (cases "supplies c \<inter> required - covered = {}")
    case True
    then have *: "covered \<union> required \<inter> supplied (c # rest) = covered \<union> required \<inter> supplied rest" by auto
    from 2(2) [OF refl] True obtain chosen where "selection required covered rest chosen"
      "select_components required rest selected covered =
         (selected @ map cc_component_ref chosen, covered \<union> required \<inter> supplied rest)"
      by auto
    then show ?thesis using True *
      by (intro exI [of _ chosen]) (auto simp: selection_def)
  next
    case False
    let ?now = "covered \<union> supplies c \<inter> required"
    have *: "?now \<union> required \<inter> supplied cs = covered \<union> required \<inter> supplied (c # cs)" for cs by auto
    from 2(1) [OF refl] False obtain chosen where "selection required ?now rest chosen"
      "select_components required rest (selected @ [cc_component_ref c]) ?now =
         ((selected @ [cc_component_ref c]) @ map cc_component_ref chosen,
          ?now \<union> required \<inter> supplied rest)"
      by auto
    then show ?thesis using False
      by (intro exI [of _ "c # chosen"]) (simp only: selection_def *, simp add: Let_def)
  qed
qed (simp add: selection_def)

lemma of_kind_empty:
  "of_kind classifications kind residual = {} \<longleftrightarrow>
     \<not> (\<exists>cap \<in> residual. classification_of classifications cap = kind)"
  by (auto simp: of_kind_def)

lemma compute_residual_eq:
  assumes "select_components (ct_required_capabilities contract) inventory [] {} = (selected, covered)"
    and "ct_required_capabilities contract - covered = residual"
  shows "cd_covered_requirements (compute_residual contract inventory classifications) = covered"
    and "cd_residual_requirements (compute_residual contract inventory classifications) = residual"
    and "cd_selected_components (compute_residual contract inventory classifications) = selected"
    and "cd_decision (compute_residual contract inventory classifications) =
      fst (decide selected residual (of_kind classifications None residual)
        (of_kind classifications (Some Orchestration) residual)
        (of_kind classifications (Some World_physics) residual))"
  unfolding compute_residual_def assms(1) Let_def prod.case assms(2)
  by (simp_all add: case_prod_beta)

text \<open>A component that claims capabilities at a trusted standing.\<close>

definition claim :: "string \<Rightarrow> capability_evidence" where
  "claim cap = \<lparr>ce_capability_id = cap, ce_evidence_ref = [], ce_evidence_kind = [],
     ce_standing = ''ALIVE'', ce_subject_identity = []\<rparr>"

definition component :: "string \<Rightarrow> string list \<Rightarrow> component_capabilities" where
  "component ref caps = \<lparr>cc_component_ref = ref, cc_capabilities = map claim caps\<rparr>"

lemma supplies_component [simp]: "supplies (component ref caps) = set caps"
  by (simp add: supplies_def component_def claim_def trusted_standings_def filter_map comp_def)



section \<open>Where the code and its documentation part\<close>

text \<open>
  A component that supplies a part comes before one that supplies all of it: both are selected,
  and the decision says that no single component suffices.
\<close>

theorem compose_overlooks_single:
  "let d = compute_residual \<lparr>ct_name = ''c'', ct_required_capabilities = {''x'', ''y''}\<rparr>
       [component ''A'' [''x''], component ''B'' [''x'', ''y'']] []
   in cd_decision d = COMPOSE \<and> cd_selected_components d = [''A'', ''B''] \<and>
      {''x'', ''y''} \<subseteq> supplies (component ''B'' [''x'', ''y''])"
  by (simp add: compute_residual_def Let_def decide_def) (simp add: component_def)

text \<open>Creation is authorised although one missing capability is only orchestration.\<close>

theorem create_with_orchestration_residual:
  "let d = compute_residual \<lparr>ct_name = ''c'', ct_required_capabilities = {''x'', ''y''}\<rparr> []
       [\<lparr>cf_capability_id = ''x'', cf_kind = World_physics, cf_reason = []\<rparr>,
        \<lparr>cf_capability_id = ''y'', cf_kind = Orchestration, cf_reason = []\<rparr>]
   in cd_decision d = CREATE_PROVIDER \<and> cd_orchestration_residual d = {''y''}"
  by (auto simp: compute_residual_def Let_def decide_def of_kind_def classification_of_def)

end
