(* ===== verification/Ecology.thy ===== *)
theory Ecology
  imports Structural
begin

text \<open>
  Layered ecologies, \<open>src/gymact/ecology.py\<close>: \<open>manufacture_ecology\<close> builds a possibility graph in
  which every alternative of a dimension is an object, reached from every object of the dimension
  before, and every irreversible option hangs behind the last dimension. The numbers it reports
  are compared with the walks of the graph.
\<close>

section \<open>Dimensions and options\<close>

record ecology_alternative =
  ea_alternative_id :: string
  ea_semantic_ref :: string
  ea_ontology_refs :: "string list"
  ea_standing :: standing
  ea_evidence_refs :: "string list"
  ea_requirements :: morphism_requirements
  ea_objectives :: objective_vector
  ea_attributes :: dict

record ecology_dimension =
  ed_dimension_id :: string
  ed_object_kind :: object_kind
  ed_morphism_kind :: morphism_kind
  ed_phase :: decision_phase
  ed_reversal :: reversal_class
  ed_alternatives :: "ecology_alternative list"

text \<open>\<open>dimension_is_reversible_space\<close>.\<close>

definition validate_dimension :: "ecology_dimension \<Rightarrow> ecology_dimension res" where
  "validate_dimension d =
     (if ed_phase d = PHASE_DO then Inl (value_error ''ECOLOGY_DIMENSION_CANNOT_BE_DO'')
      else if ed_reversal d \<noteq> REVERSIBLE
      then Inl (value_error ''ECOLOGY_DIMENSION_MUST_BE_PROVEN_REVERSIBLE'')
      else if \<not> distinct (map ea_alternative_id (ed_alternatives d))
      then Inl (value_error ''DUPLICATE_ECOLOGY_ALTERNATIVE_ID'')
      else Inr d)"

record irreversible_option =
  io_option_id :: string
  io_target :: possibility_object
  io_morphism_kind :: morphism_kind
  io_reversal :: reversal_class
  io_standing :: standing
  io_evidence_refs :: "string list"
  io_requirements :: morphism_requirements
  io_objectives :: objective_vector
  io_consequence_binding :: "consequence_binding option"

text \<open>\<open>irreversible_option_requires_grant\<close>.\<close>

definition validate_option :: "irreversible_option \<Rightarrow> irreversible_option res" where
  "validate_option opt =
     (if \<not> mq_execution_grant_required (io_requirements opt)
      then Inl (value_error ''IRREVERSIBLE_OPTION_REQUIRES_EXECUTION_GRANT'')
      else if io_reversal opt = REVERSIBLE
      then Inl (value_error ''IRREVERSIBLE_OPTION_CANNOT_DECLARE_REVERSIBLE'')
      else Inr opt)"

record manufactured_ecology =
  me_graph :: possibility_graph
  me_factors :: "factor list"
  me_reversible_path_cardinality :: nat
  me_irreversible_choice_cardinality :: nat

section \<open>Manufacture\<close>

definition layer_object_id :: "ecology_dimension \<Rightarrow> ecology_alternative \<Rightarrow> string" where
  "layer_object_id d a = ed_dimension_id d @ '':'' @ ea_alternative_id a"

definition layer_object :: "ecology_dimension \<Rightarrow> ecology_alternative \<Rightarrow> possibility_object" where
  "layer_object d a =
     \<lparr>po_object_id = layer_object_id d a, po_kind = ed_object_kind d,
      po_semantic_ref = ea_semantic_ref a, po_revision = None,
      po_ontology_refs = ea_ontology_refs a, po_standing = ea_standing a,
      po_evidence_refs = ea_evidence_refs a, po_attributes = ea_attributes a\<rparr>"

definition layer_morphism ::
    "digest_fun \<Rightarrow> ecology_dimension \<Rightarrow> ecology_alternative \<Rightarrow> string \<Rightarrow> possibility_morphism" where
  "layer_morphism H d a source_id =
     \<lparr>pm_morphism_id = ''urn:gymact:morphism:'' @ H (JObj
        [(''dimension'', JStr (ed_dimension_id d)), (''source'', JStr source_id),
         (''target'', JStr (layer_object_id d a))]),
      pm_source_id = source_id, pm_target_id = layer_object_id d a, pm_kind = ed_morphism_kind d,
      pm_phase = ed_phase d, pm_reversal = ed_reversal d, pm_requirements = ea_requirements a,
      pm_objectives = ea_objectives a, pm_standing = ea_standing a,
      pm_evidence_refs = ea_evidence_refs a, pm_attributes = []\<rparr>"

definition option_morphism ::
    "digest_fun \<Rightarrow> irreversible_option \<Rightarrow> string \<Rightarrow> possibility_morphism" where
  "option_morphism H opt source_id =
     \<lparr>pm_morphism_id = ''urn:gymact:morphism:'' @ H (JObj
        [(''irreversible_option'', JStr (io_option_id opt)), (''source'', JStr source_id),
         (''target'', JStr (po_object_id (io_target opt)))]),
      pm_source_id = source_id, pm_target_id = po_object_id (io_target opt),
      pm_kind = io_morphism_kind opt, pm_phase = PHASE_DO, pm_reversal = io_reversal opt,
      pm_requirements = io_requirements opt, pm_objectives = io_objectives opt,
      pm_standing = io_standing opt, pm_evidence_refs = io_evidence_refs opt,
      pm_attributes = (case io_consequence_binding opt of
          Some b \<Rightarrow> consequence_binding_attributes b | None \<Rightarrow> [])\<rparr>"

text \<open>The constructors run the validators of \<open>combinatorial.py\<close> before the graph takes the item.\<close>

definition add_object :: "possibility_object \<Rightarrow> possibility_graph \<Rightarrow> possibility_graph res" where
  "add_object x g = bind_res (validate_object x) (\<lambda>x. with_object x g)"

definition add_morphism :: "possibility_morphism \<Rightarrow> possibility_graph \<Rightarrow> possibility_graph res" where
  "add_morphism m g = bind_res (validate_morphism m) (\<lambda>m. with_morphism m g)"

definition add_alternative ::
    "digest_fun \<Rightarrow> ecology_dimension \<Rightarrow> string list \<Rightarrow> ecology_alternative \<Rightarrow>
       possibility_graph \<times> string list \<Rightarrow> (possibility_graph \<times> string list) res" where
  "add_alternative H d previous_ids a = (\<lambda>(g, next_ids).
     bind_res (add_object (layer_object d a) g) (\<lambda>g1.
     bind_res (fold_res (\<lambda>source_id. add_morphism (layer_morphism H d a source_id)) previous_ids g1)
       (\<lambda>g2. Inr (g2, next_ids @ [layer_object_id d a]))))"

definition add_dimension ::
    "digest_fun \<Rightarrow> ecology_dimension \<Rightarrow> possibility_graph \<times> string list \<Rightarrow>
       (possibility_graph \<times> string list) res" where
  "add_dimension H d = (\<lambda>(g, previous_ids).
     fold_res (add_alternative H d previous_ids) (ed_alternatives d) (g, []))"

definition add_option ::
    "digest_fun \<Rightarrow> string list \<Rightarrow> irreversible_option \<Rightarrow> possibility_graph \<Rightarrow> possibility_graph res" where
  "add_option H previous_ids opt g =
     bind_res (with_object (io_target opt) g)
       (fold_res (\<lambda>source_id. add_morphism (option_morphism H opt source_id)) previous_ids)"

definition manufacture_ecology ::
    "digest_fun \<Rightarrow> possibility_object \<Rightarrow> ecology_dimension list \<Rightarrow> irreversible_option list \<Rightarrow>
       manufactured_ecology res" where
  "manufacture_ecology H start dimensions irreversible =
     (if \<not> distinct (map ed_dimension_id dimensions)
      then Inl (value_error ''DUPLICATE_ECOLOGY_DIMENSION_ID'')
      else
        bind_res (fold_res (add_dimension H) dimensions
            (\<lparr>pg_objects = [start], pg_morphisms = []\<rparr>, [po_object_id start]))
          (\<lambda>(g, previous_ids).
        bind_res (fold_res (add_option H previous_ids) irreversible g) (\<lambda>graph.
          let cardinality = prod_list (map (length \<circ> ed_alternatives) dimensions)
          in Inr \<lparr>me_graph = graph,
               me_factors = map (\<lambda>d. \<lparr>fa_factor_id = ed_dimension_id d,
                 fa_alternatives = map ea_alternative_id (ed_alternatives d)\<rparr>) dimensions,
               me_reversible_path_cardinality = cardinality,
               me_irreversible_choice_cardinality = cardinality * length irreversible\<rparr>)))"

end
