(* ===== verification/Ecology_Props.thy ===== *)
theory Ecology_Props
  imports Ecology
begin

text \<open>
  What a manufactured ecology is: a well-formed graph whose reversible walks through all the
  dimensions are the choices of one alternative per dimension, each once, and whose DO edges
  lead from every complete choice to every option; and where the reported numbers and the
  graph part.
\<close>

section \<open>The edges that are meant\<close>

abbreviation layer_ids :: "ecology_dimension \<Rightarrow> string list" where
  "layer_ids d \<equiv> map (layer_object_id d) (ed_alternatives d)"

fun meant_edges ::
    "digest_fun \<Rightarrow> string list \<Rightarrow> ecology_dimension list \<Rightarrow> possibility_morphism set" where
  "meant_edges H previous_ids [] = {}"
| "meant_edges H previous_ids (d # ds) =
     {layer_morphism H d a s |a s. a \<in> set (ed_alternatives d) \<and> s \<in> set previous_ids} \<union>
     meant_edges H (layer_ids d) ds"

fun last_ids :: "string list \<Rightarrow> ecology_dimension list \<Rightarrow> string list" where
  "last_ids previous_ids [] = previous_ids"
| "last_ids previous_ids (d # ds) = last_ids (layer_ids d) ds"

definition option_edges ::
    "digest_fun \<Rightarrow> string list \<Rightarrow> irreversible_option list \<Rightarrow> possibility_morphism set" where
  "option_edges H previous_ids options =
     {option_morphism H opt s |opt s. opt \<in> set options \<and> s \<in> set previous_ids}"

section \<open>The graph built so far\<close>

text \<open>The graph \<open>h\<close> comes from \<open>g\<close> by adding objects with the ids and the edges given.\<close>

definition grown ::
    "possibility_graph \<Rightarrow> string set \<Rightarrow> possibility_morphism set \<Rightarrow> possibility_graph \<Rightarrow> bool" where
  "grown g ids edges h \<longleftrightarrow>
     extends_graph g h \<and> (\<forall>m \<in> edges. keeps_morphism h m) \<and>
     set (object_ids h) = ids \<union> set (object_ids g) \<and>
     set (pg_morphisms h) \<subseteq> edges \<union> set (pg_morphisms g) \<and>
     (distinct (object_ids g) \<longrightarrow> distinct (object_ids h)) \<and>
     (distinct (morphism_ids g) \<longrightarrow> distinct (morphism_ids h))"

lemma grown_refl [simp]: "grown g {} {} g"
  by (simp add: grown_def)

lemma grown_trans: "grown g a x h \<Longrightarrow> grown h b y k \<Longrightarrow> grown g (a \<union> b) (x \<union> y) k"
  unfolding grown_def by (auto intro: extends_graph_trans keeps_extends)

lemma grown_object: "add_object x g = Inr h \<Longrightarrow> grown g {po_object_id x} {} h"
  unfolding add_object_def validate_object_def grown_def
  by (auto simp: bind_res_Inr_iff morphism_ids_def dest: with_object_step)

lemma grown_target: "with_object x g = Inr h \<Longrightarrow> grown g {po_object_id x} {} h"
  unfolding grown_def by (auto simp: morphism_ids_def dest: with_object_step)

lemma grown_morphism: "add_morphism m g = Inr h \<Longrightarrow> grown g {} {m} h"
  unfolding add_morphism_def validate_morphism_def grown_def
  by (auto simp: bind_res_Inr_iff object_ids_def split: if_splits dest: with_morphism_step)

lemma grown_fold:
  assumes "\<And>x g h. f x g = Inr h \<Longrightarrow> grown g (ids x) (edges x) h"
  shows "fold_res f xs g = Inr h \<Longrightarrow> grown g (\<Union>x \<in> set xs. ids x) (\<Union>x \<in> set xs. edges x) h"
proof (induction xs arbitrary: g)
  case (Cons x xs)
  then obtain k where "f x g = Inr k" "fold_res f xs k = Inr h" by (auto simp: bind_res_Inr_iff)
  with Cons.IH assms show ?case by (fastforce dest: grown_trans)
qed simp

lemma grown_morphisms:
  assumes "fold_res (\<lambda>s. add_morphism (edge s)) ss g = Inr h"
  shows "grown g {} (edge ` set ss) h"
  using grown_fold [where ids = "\<lambda>_. {}", OF grown_morphism assms]
  by (simp add: UNION_singleton_eq_range)

lemma add_alternative_grown:
  assumes "add_alternative H d previous a (g, nexts) = Inr (h, nexts')"
  shows "grown g {layer_object_id d a} (layer_morphism H d a ` set previous) h \<and>
    nexts' = nexts @ [layer_object_id d a]"
proof -
  from assms obtain g1 where g1: "add_object (layer_object d a) g = Inr g1"
    "fold_res (\<lambda>s. add_morphism (layer_morphism H d a s)) previous g1 = Inr h"
    "nexts' = nexts @ [layer_object_id d a]"
    by (auto simp: add_alternative_def bind_res_Inr_iff)
  from grown_trans [OF grown_object [OF g1(1)] grown_morphisms [OF g1(2)]] g1(3) show ?thesis
    by (simp add: layer_object_def)
qed

lemma add_alternatives_grown:
  "fold_res (add_alternative H d previous) as (g, nexts) = Inr (h, nexts') \<Longrightarrow>
     grown g (layer_object_id d ` set as) {layer_morphism H d a s |a s. a \<in> set as \<and> s \<in> set previous} h \<and>
     nexts' = nexts @ map (layer_object_id d) as"
proof (induction as arbitrary: g nexts)
  case (Cons a as)
  then obtain g1 nexts1 where step: "add_alternative H d previous a (g, nexts) = Inr (g1, nexts1)"
    "fold_res (add_alternative H d previous) as (g1, nexts1) = Inr (h, nexts')"
    by (auto simp: bind_res_Inr_iff)
  have "layer_morphism H d a ` set previous \<union> {layer_morphism H d a s |a s. a \<in> set as \<and> s \<in> set previous} =
    {layer_morphism H d b s |b s. b \<in> set (a # as) \<and> s \<in> set previous}" by auto
  with add_alternative_grown [OF step(1)] Cons.IH [OF step(2)] show ?case
    by (auto dest: grown_trans)
qed simp

lemma add_dimensions_grown:
  "fold_res (add_dimension H) ds (g, previous) = Inr (h, previous') \<Longrightarrow>
     grown g (set (concat (map layer_ids ds))) (meant_edges H previous ds) h \<and>
     previous' = last_ids previous ds"
proof (induction ds arbitrary: g previous)
  case (Cons d ds)
  then obtain g1 ids where first: "add_dimension H d (g, previous) = Inr (g1, ids)"
    and rest: "fold_res (add_dimension H) ds (g1, ids) = Inr (h, previous')"
    by (auto simp: bind_res_Inr_iff)
  from first have step: "grown g (layer_object_id d ` set (ed_alternatives d))
      {layer_morphism H d a s |a s. a \<in> set (ed_alternatives d) \<and> s \<in> set previous} g1"
    "ids = layer_ids d"
    using add_alternatives_grown [of H d previous "ed_alternatives d" g "[]" g1 ids]
    by (simp_all add: add_dimension_def)
  from grown_trans [OF step(1)] Cons.IH [OF rest [unfolded step(2)]] show ?case by auto
qed simp

lemma add_option_grown:
  assumes "add_option H previous opt g = Inr h"
  shows "grown g {po_object_id (io_target opt)} (option_morphism H opt ` set previous) h"
proof -
  from assms obtain g1 where g1: "with_object (io_target opt) g = Inr g1"
    "fold_res (\<lambda>s. add_morphism (option_morphism H opt s)) previous g1 = Inr h"
    by (auto simp: add_option_def bind_res_Inr_iff)
  from grown_trans [OF grown_target [OF g1(1)] grown_morphisms [OF g1(2)]] show ?thesis by simp
qed

lemma add_options_grown:
  assumes "fold_res (add_option H previous) options g = Inr h"
  shows "grown g ((po_object_id \<circ> io_target) ` set options) (option_edges H previous options) h"
proof -
  have "(\<Union>opt \<in> set options. option_morphism H opt ` set previous) = option_edges H previous options"
    by (auto simp: option_edges_def)
  moreover have "(\<Union>opt \<in> set options. {po_object_id (io_target opt)}) = (po_object_id \<circ> io_target) ` set options"
    by auto
  moreover note grown_fold [where f = "add_option H previous" and ids = "\<lambda>opt. {po_object_id (io_target opt)}"
    and edges = "\<lambda>opt. option_morphism H opt ` set previous", OF add_option_grown assms]
  ultimately show ?thesis by simp
qed

text \<open>The whole construction.\<close>

lemma manufacture_grown:
  assumes "manufacture_ecology H start dims options = Inr e"
  shows "grown \<lparr>pg_objects = [start], pg_morphisms = []\<rparr>
      (set (concat (map layer_ids dims)) \<union> (po_object_id \<circ> io_target) ` set options)
      (meant_edges H [po_object_id start] dims \<union>
         option_edges H (last_ids [po_object_id start] dims) options) (me_graph e) \<and>
    me_reversible_path_cardinality e = prod_list (map (length \<circ> ed_alternatives) dims) \<and>
    me_irreversible_choice_cardinality e =
      prod_list (map (length \<circ> ed_alternatives) dims) * length options"
proof -
  from assms obtain g previous where
    "fold_res (add_dimension H) dims (\<lparr>pg_objects = [start], pg_morphisms = []\<rparr>, [po_object_id start]) =
       Inr (g, previous)"
    "fold_res (add_option H previous) options g = Inr (me_graph e)"
    "me_reversible_path_cardinality e = prod_list (map (length \<circ> ed_alternatives) dims)"
    "me_irreversible_choice_cardinality e =
      prod_list (map (length \<circ> ed_alternatives) dims) * length options"
    by (auto simp: manufacture_ecology_def bind_res_Inr_iff Let_def split: if_splits)
  then show ?thesis
    by (blast dest: add_dimensions_grown add_options_grown intro: grown_trans)
qed

lemma edge_simps [simp]:
  "pm_source_id (layer_morphism H d a s) = s" "pm_source_id (option_morphism H opt s) = s"
  "pm_target_id (layer_morphism H d a s) = layer_object_id d a"
  "pm_target_id (option_morphism H opt s) = po_object_id (io_target opt)"
  "pm_phase (layer_morphism H d a s) = ed_phase d" "pm_phase (option_morphism H opt s) = PHASE_DO"
  by (simp_all add: layer_morphism_def option_morphism_def)

section \<open>Walks through the dimensions\<close>

definition steps :: "possibility_graph \<Rightarrow> string \<Rightarrow> possibility_morphism set" where
  "steps g i = {m \<in> set (pg_morphisms g). pm_source_id m = i \<and> pm_phase m \<noteq> PHASE_DO}"

definition do_edges :: "possibility_graph \<Rightarrow> string \<Rightarrow> possibility_morphism set" where
  "do_edges g i = {m \<in> set (pg_morphisms g). pm_source_id m = i \<and> pm_phase m = PHASE_DO}"

fun choice_walk :: "possibility_graph \<Rightarrow> string \<Rightarrow> possibility_morphism list \<Rightarrow> bool" where
  "choice_walk g i [] \<longleftrightarrow> True"
| "choice_walk g i (e # es) \<longleftrightarrow> e \<in> steps g i \<and> choice_walk g (pm_target_id e) es"

fun walk_end :: "string \<Rightarrow> possibility_morphism list \<Rightarrow> string" where
  "walk_end i [] = i"
| "walk_end i (e # es) = walk_end (pm_target_id e) es"

text \<open>The edges that leave one layer reach every object of the next one, each once.\<close>

fun layered :: "possibility_graph \<Rightarrow> string list \<Rightarrow> string list list \<Rightarrow> bool" where
  "layered g previous [] \<longleftrightarrow> True"
| "layered g previous (ids # rest) \<longleftrightarrow>
     (\<forall>s \<in> set previous. bij_betw pm_target_id (steps g s) (set ids)) \<and> layered g ids rest"

lemma layered_walks:
  "layered g previous idss \<Longrightarrow> s \<in> set previous \<Longrightarrow>
     bij_betw (map pm_target_id) {es. choice_walk g s es \<and> length es = length idss}
       (set (product_lists idss))"
proof (induction idss arbitrary: previous s)
  case Nil
  have "{es. choice_walk g s es \<and> length es = length ([] :: string list list)} = {[]}" by auto
  then show ?case by (simp add: bij_betw_def)
next
  case (Cons ids rest)
  let ?walks = "\<lambda>i. {es. choice_walk g i es \<and> length es = length rest}"
  from Cons.prems have first: "inj_on pm_target_id (steps g s)" "pm_target_id ` steps g s = set ids"
    by (auto simp: bij_betw_def)
  have later: "inj_on (map pm_target_id) (?walks i)"
    "map pm_target_id ` ?walks i = set (product_lists rest)" if "i \<in> set ids" for i
    using Cons.IH [of ids i] Cons.prems that by (auto simp: bij_betw_def)
  have target: "pm_target_id e \<in> set ids" if "e \<in> steps g s" for e using first(2) that by auto
  have split: "{es. choice_walk g s es \<and> length es = length (ids # rest)} =
      (\<Union>e \<in> steps g s. (#) e ` ?walks (pm_target_id e))"
    by (auto simp: length_Suc_conv)
  have "map pm_target_id ` (\<Union>e \<in> steps g s. (#) e ` ?walks (pm_target_id e)) =
      (\<Union>e \<in> steps g s. (#) (pm_target_id e) ` (map pm_target_id ` ?walks (pm_target_id e)))"
    by (simp add: image_UN image_image)
  also have "\<dots> = (\<Union>e \<in> steps g s. (#) (pm_target_id e) ` set (product_lists rest))"
    using later(2) target by simp
  also have "\<dots> = (\<Union>i \<in> set ids. (#) i ` set (product_lists rest))"
    unfolding first(2) [symmetric] by simp
  finally have image: "map pm_target_id ` (\<Union>e \<in> steps g s. (#) e ` ?walks (pm_target_id e)) =
      set (product_lists (ids # rest))" by simp
  have "inj_on (map pm_target_id) (\<Union>e \<in> steps g s. (#) e ` ?walks (pm_target_id e))"
  proof (rule inj_onI)
    fix xs ys
    assume "xs \<in> (\<Union>e \<in> steps g s. (#) e ` ?walks (pm_target_id e))"
      "ys \<in> (\<Union>e \<in> steps g s. (#) e ` ?walks (pm_target_id e))"
      and eq: "map pm_target_id xs = map pm_target_id ys"
    then obtain x xs' y ys' where parts: "xs = x # xs'" "ys = y # ys'" "x \<in> steps g s" "y \<in> steps g s"
      "xs' \<in> ?walks (pm_target_id x)" "ys' \<in> ?walks (pm_target_id y)" by auto
    with eq first(1) have "x = y" by (auto dest: inj_onD)
    with parts eq later(1) [OF target [OF parts(3)]] show "xs = ys" by (auto dest: inj_onD)
  qed
  with image show ?case unfolding bij_betw_def split by blast
qed

lemma meant_edges_ends:
  "m \<in> meant_edges H previous ds \<Longrightarrow>
     pm_source_id m \<in> set previous \<union> set (concat (map layer_ids ds)) \<and>
     pm_target_id m \<in> set (concat (map layer_ids ds))"
  by (induction ds arbitrary: previous) fastforce+

lemma meant_edges_phase:
  "\<forall>d \<in> set ds. validate_dimension d = Inr d \<Longrightarrow> m \<in> meant_edges H previous ds \<Longrightarrow> pm_phase m \<noteq> PHASE_DO"
  by (induction ds arbitrary: previous)
    (auto simp: validate_dimension_def split: if_splits)

lemma keeps_morphism_same:
  assumes "keeps_morphism g m"
  obtains y where "y \<in> set (pg_morphisms g)" "pm_source_id y = pm_source_id m"
    "pm_target_id y = pm_target_id m" "pm_phase y = pm_phase m"
proof -
  from assms obtain y where y: "y \<in> set (pg_morphisms g)" "y = m \<or> morphism_eq y m"
    by (auto simp: keeps_morphism_def)
  from y(2) have "y\<lparr>pm_attributes := []\<rparr> = m\<lparr>pm_attributes := []\<rparr>"
    by (auto simp: morphism_eq_def)
  then have "pm_source_id y = pm_source_id m" "pm_target_id y = pm_target_id m" "pm_phase y = pm_phase m"
    by (metis possibility_morphism.select_convs possibility_morphism.surjective
        possibility_morphism.update_convs(11))+
  with y(1) show thesis by (rule that)
qed

lemma meant_layered:
  assumes "\<forall>m \<in> set (pg_morphisms g). pm_phase m \<noteq> PHASE_DO \<longrightarrow>
      pm_source_id m \<in> old \<or> m \<in> meant_edges H previous ds"
    and "\<forall>m \<in> meant_edges H previous ds. pm_phase m \<noteq> PHASE_DO \<and> keeps_morphism g m"
    and "distinct (previous @ concat (map layer_ids ds))"
    and "old \<inter> set (previous @ concat (map layer_ids ds)) = {}"
  shows "layered g previous (map layer_ids ds)"
  using assms
proof (induction ds arbitrary: previous old)
  case (Cons d ds)
  have rest: "layered g (layer_ids d) (map layer_ids ds)"
  proof (rule Cons.IH [of "old \<union> set previous"])
    have "set (previous @ concat (map layer_ids (d # ds))) =
        set previous \<union> set (layer_ids d @ concat (map layer_ids ds))"
      "set previous \<inter> set (layer_ids d @ concat (map layer_ids ds)) = {}"
      using Cons.prems(3) by (simp_all del: set_concat)
    with Cons.prems(4) show "(old \<union> set previous) \<inter> set (layer_ids d @ concat (map layer_ids ds)) = {}"
      by blast
  qed (use Cons.prems in auto)
  have "bij_betw pm_target_id (steps g s) (set (layer_ids d))" if s: "s \<in> set previous" for s
  proof -
    have edges: "\<exists>a \<in> set (ed_alternatives d). m = layer_morphism H d a s" if "m \<in> steps g s" for m
    proof -
      from that Cons.prems(1,4) s have "m \<in> meant_edges H previous (d # ds)" "pm_source_id m = s"
        by (auto simp: steps_def)
      moreover have "m \<notin> meant_edges H (layer_ids d) ds"
        using meant_edges_ends [of m H "layer_ids d" ds] s Cons.prems(3) \<open>pm_source_id m = s\<close> by auto
      ultimately show ?thesis by (auto simp: layer_morphism_def)
    qed
    have "inj_on (layer_object_id d) (set (ed_alternatives d))"
      using Cons.prems(3) by (simp add: distinct_map)
    then have "inj_on pm_target_id (steps g s)"
      by (intro inj_onI) (auto dest!: edges dest: inj_onD)
    moreover have "\<exists>m \<in> steps g s. pm_target_id m = layer_object_id d a"
      if "a \<in> set (ed_alternatives d)" for a
    proof -
      from that s have "layer_morphism H d a s \<in> meant_edges H previous (d # ds)" by auto
      from bspec [OF Cons.prems(2) this] have "keeps_morphism g (layer_morphism H d a s)"
        "ed_phase d \<noteq> PHASE_DO" by simp_all
      then show ?thesis
        by (auto elim!: keeps_morphism_same simp: steps_def)
    qed
    ultimately show ?thesis by (force simp: bij_betw_def dest: edges)
  qed
  with rest show ?case by simp
qed simp

lemma last_ids_subset: "set (last_ids previous ds) \<subseteq> set previous \<union> set (concat (map layer_ids ds))"
  by (induction ds arbitrary: previous) fastforce+

lemma last_ids_later: "ds \<noteq> [] \<Longrightarrow> set (last_ids previous ds) \<subseteq> set (concat (map layer_ids ds))"
  using last_ids_subset by (cases ds) fastforce+

lemma walk_end_layer:
  "layered g previous (map layer_ids ds) \<Longrightarrow> distinct (previous @ concat (map layer_ids ds)) \<Longrightarrow>
     s \<in> set previous \<Longrightarrow> choice_walk g s es \<Longrightarrow> length es \<le> length ds \<Longrightarrow>
     (walk_end s es \<in> set (last_ids previous ds) \<longleftrightarrow> length es = length ds)"
proof (induction es arbitrary: previous ds s)
  case Nil
  with last_ids_later [of ds previous] show ?case by (cases ds) auto
next
  case (Cons e es)
  then obtain d ds' where ds: "ds = d # ds'" by (cases ds) auto
  from Cons.prems ds have "pm_target_id e \<in> set (layer_ids d)" by (auto simp: bij_betw_def)
  with Cons.IH [of "layer_ids d" ds' "pm_target_id e"] Cons.prems ds show ?case by auto
qed

text \<open>The reversible walks from an object through a number of dimensions.\<close>

definition complete_choices :: "possibility_graph \<Rightarrow> string \<Rightarrow> nat \<Rightarrow> possibility_morphism list set" where
  "complete_choices g i n = {es. choice_walk g i es \<and> length es = n}"

abbreviation target_ids :: "irreversible_option list \<Rightarrow> string list" where
  "target_ids options \<equiv> map (\<lambda>opt. po_object_id (io_target opt)) options"

abbreviation ecology_ids ::
    "possibility_object \<Rightarrow> ecology_dimension list \<Rightarrow> irreversible_option list \<Rightarrow> string list" where
  "ecology_ids start dims options \<equiv>
     po_object_id start # concat (map layer_ids dims) @ target_ids options"

section \<open>A manufactured ecology\<close>

lemma ecology_well_formed:
  assumes "manufacture_ecology H start dims options = Inr e"
  shows "well_formed (me_graph e)"
proof -
  let ?start = "[po_object_id start]"
  note g = manufacture_grown [OF assms, THEN conjunct1]
  have ids: "set (object_ids (me_graph e)) =
      insert (po_object_id start) (set (concat (map layer_ids dims)) \<union> set (target_ids options))"
    and edges: "set (pg_morphisms (me_graph e)) \<subseteq>
      meant_edges H ?start dims \<union> option_edges H (last_ids ?start dims) options"
    and unique: "distinct (object_ids (me_graph e))" "distinct (morphism_ids (me_graph e))"
    using g by (auto simp: grown_def object_ids_def morphism_ids_def)
  have "pm_source_id m \<in> set (object_ids (me_graph e)) \<and> pm_target_id m \<in> set (object_ids (me_graph e))"
    if "m \<in> set (pg_morphisms (me_graph e))" for m
  proof (cases "m \<in> meant_edges H ?start dims")
    case True
    from meant_edges_ends [OF this] show ?thesis unfolding ids by auto
  next
    case False
    with that edges show ?thesis
      using last_ids_subset [of ?start dims] unfolding ids option_edges_def by fastforce
  qed
  with unique show ?thesis by (simp add: well_formed_iff)
qed

lemma ecology_layered:
  assumes "manufacture_ecology H start dims options = Inr e"
    and "\<forall>d \<in> set dims. validate_dimension d = Inr d"
    and "distinct (ecology_ids start dims options)"
  shows "layered (me_graph e) [po_object_id start] (map layer_ids dims)"
    and "s \<in> set (last_ids [po_object_id start] dims) \<Longrightarrow>
      bij_betw pm_target_id (do_edges (me_graph e) s) (set (target_ids options))"
    and "s \<notin> set (last_ids [po_object_id start] dims) \<Longrightarrow> do_edges (me_graph e) s = {}"
proof -
  let ?start = "[po_object_id start]"
  let ?last = "last_ids ?start dims"
  note g = manufacture_grown [OF assms(1), THEN conjunct1]
  have edges: "set (pg_morphisms (me_graph e)) \<subseteq>
      meant_edges H ?start dims \<union> option_edges H ?last options"
    and kept: "\<forall>m \<in> meant_edges H ?start dims \<union> option_edges H ?last options.
      keeps_morphism (me_graph e) m"
    using g by (auto simp: grown_def)
  note phase = meant_edges_phase [OF assms(2), of _ H ?start]
  show "layered (me_graph e) ?start (map layer_ids dims)"
    using edges kept phase assms(3)
    by (intro meant_layered [of _ "{}" H]) (auto simp: option_edges_def)
  have do: "\<exists>opt \<in> set options. m = option_morphism H opt s \<and> s \<in> set ?last"
    if "m \<in> do_edges (me_graph e) s" for m s
  proof -
    from that have m: "m \<in> set (pg_morphisms (me_graph e))" "pm_source_id m = s" "pm_phase m = PHASE_DO"
      by (simp_all add: do_edges_def)
    with edges phase have "m \<in> option_edges H ?last options" by blast
    with m(2) show ?thesis by (auto simp: option_edges_def)
  qed
  show "do_edges (me_graph e) s = {}" if "s \<notin> set ?last"
    using do that by blast
  show "bij_betw pm_target_id (do_edges (me_graph e) s) (set (target_ids options))" if "s \<in> set ?last"
  proof -
    have "inj_on (\<lambda>opt. po_object_id (io_target opt)) (set options)"
      using assms(3) by (simp add: distinct_map)
    then have "inj_on pm_target_id (do_edges (me_graph e) s)"
      by (intro inj_onI) (auto dest!: do dest: inj_onD)
    moreover have "\<exists>m \<in> do_edges (me_graph e) s. pm_target_id m = po_object_id (io_target opt)"
      if "opt \<in> set options" for opt
    proof -
      have "keeps_morphism (me_graph e) (option_morphism H opt s)"
        using kept that \<open>s \<in> set ?last\<close> by (auto simp: option_edges_def)
      then show ?thesis by (auto elim!: keeps_morphism_same simp: do_edges_def)
    qed
    ultimately show ?thesis by (force simp: bij_betw_def dest: do)
  qed
qed

section \<open>A small ecology\<close>

definition demo_edge_digest :: digest_fun where
  "demo_edge_digest v =
     (case v of JObj [_, (_, JStr s), (_, JStr t)] \<Rightarrow> s @ ''>'' @ t | _ \<Rightarrow> [])"

definition demo_alternative :: "string \<Rightarrow> ecology_alternative" where
  "demo_alternative i =
     \<lparr>ea_alternative_id = i, ea_semantic_ref = ''urn:alternative'', ea_ontology_refs = [],
      ea_standing = CANDIDATE, ea_evidence_refs = [],
      ea_requirements = \<lparr>mq_capability_refs = [], mq_policy_refs = [], mq_evidence_refs = [],
        mq_required_revision = None, mq_execution_grant_required = False\<rparr>,
      ea_objectives = zero_objectives, ea_attributes = []\<rparr>"

definition demo_dimension :: "string \<Rightarrow> string list \<Rightarrow> ecology_dimension" where
  "demo_dimension i alternatives =
     \<lparr>ed_dimension_id = i, ed_object_kind = PLANNER, ed_morphism_kind = K_REALIZE,
      ed_phase = PHASE_SELECT, ed_reversal = REVERSIBLE,
      ed_alternatives = map demo_alternative alternatives\<rparr>"

definition demo_option :: irreversible_option where
  "demo_option =
     \<lparr>io_option_id = ''o'', io_target = demo_object ''t'', io_morphism_kind = K_ACTUATE,
      io_reversal = IRREVERSIBLE, io_standing = CANDIDATE, io_evidence_refs = [],
      io_requirements = \<lparr>mq_capability_refs = [], mq_policy_refs = [], mq_evidence_refs = [],
        mq_required_revision = None, mq_execution_grant_required = True\<rparr>,
      io_objectives = zero_objectives, io_consequence_binding = None\<rparr>"

lemmas demo_ecology_eval =
  manufacture_ecology_def add_dimension_def add_alternative_def add_option_def add_object_def
  add_morphism_def validate_object_def validate_morphism_def forbid_authority_payload_def
  with_object_def with_morphism_def layer_object_def layer_morphism_def option_morphism_def
  layer_object_id_def demo_edge_digest_def demo_dimension_def demo_alternative_def demo_option_def
  demo_object_def bind_res_def Let_def

lemma demo_ecology:
  "\<exists>e. manufacture_ecology demo_edge_digest (demo_object ''s'') [demo_dimension ''a'' [''1'', ''2'']]
     [demo_option] = Inr e \<and> me_reversible_path_cardinality e = 2 \<and>
     me_irreversible_choice_cardinality e = 2"
  by (simp add: demo_ecology_eval)



section \<open>Where the numbers and the graph part\<close>

text \<open>
  Object ids are dimension id, colon, alternative id: two alternatives of different dimensions
  can have the same one. Equal objects are merged without an error, and a DO edge then leaves a
  choice that has decided only the first of the two dimensions.
\<close>

theorem merged_alternatives_skip_dimension:
  "case manufacture_ecology demo_edge_digest (demo_object ''s'')
       [demo_dimension ''a'' [''b:c'', ''z''], demo_dimension ''a:b'' [''c'', ''y'']] [demo_option] of
     Inr e \<Rightarrow> me_irreversible_choice_cardinality e = 4 \<and>
       (let m = layer_morphism demo_edge_digest (demo_dimension ''a'' []) (demo_alternative ''b:c'') ''s''
        in choice_walk (me_graph e) ''s'' [m] \<and> do_edges (me_graph e) (walk_end ''s'' [m]) \<noteq> {})
   | Inl _ \<Rightarrow> False"
proof -
  have "option_morphism demo_edge_digest demo_option ''a:b:c'' \<in> do_edges g ''a:b:c''"
    if "option_morphism demo_edge_digest demo_option ''a:b:c'' \<in> set (pg_morphisms g)" for g
    using that by (simp add: do_edges_def)
  then have nonempty: "option_morphism demo_edge_digest demo_option ''a:b:c'' \<in> set (pg_morphisms g) \<Longrightarrow>
      do_edges g ''a:b:c'' \<noteq> {}" for g by blast
  have "case manufacture_ecology demo_edge_digest (demo_object ''s'')
       [demo_dimension ''a'' [''b:c'', ''z''], demo_dimension ''a:b'' [''c'', ''y'']] [demo_option] of
     Inr e \<Rightarrow> me_irreversible_choice_cardinality e = 4 \<and>
       layer_morphism demo_edge_digest (demo_dimension ''a'' []) (demo_alternative ''b:c'') ''s''
         \<in> set (pg_morphisms (me_graph e)) \<and>
       option_morphism demo_edge_digest demo_option ''a:b:c'' \<in> set (pg_morphisms (me_graph e))
   | Inl _ \<Rightarrow> False"
    by (simp add: demo_ecology_eval object_eq_def)
  then show ?thesis
    by (auto simp: steps_def demo_dimension_def demo_alternative_def layer_object_id_def
        dest: nonempty split: sum.splits)
qed

text \<open>Option ids are not compared: an option given twice counts twice and is one edge.\<close>

theorem repeated_option_counts_twice:
  "\<exists>e. manufacture_ecology demo_edge_digest (demo_object ''s'') [] [demo_option, demo_option] = Inr e \<and>
     me_irreversible_choice_cardinality e = 2 \<and> length (pg_morphisms (me_graph e)) = 1"
  by (simp add: demo_ecology_eval morphism_eq_def object_eq_def)

end
