(* ===== verification/Transport.thy ===== *)
theory Transport
  imports Prelude
begin

text \<open>
  Optimal transport between finite measures: the certificate checker of
  \<open>src/gymact/explore_kantorovich_duality/\<close> and the second, independent one of
  \<open>src/gymact/explore_kantorovich_independent/\<close>. A \<open>Fraction\<close> is a rational. A dictionary is an
  association list in its order; a set that the code iterates over is a list of its elements in
  that order. A typed refusal carries its code; the text of its detail is left out.
\<close>

section \<open>Refusals and loops\<close>

abbreviation duality_refusal :: "string \<Rightarrow> exn" where
  "duality_refusal code \<equiv> Raised ''DualityRefusal'' code"

abbreviation independent_refusal :: "string \<Rightarrow> exn" where
  "independent_refusal code \<equiv> Raised ''IndependentVerifierRefusal'' code"

text \<open>A loop whose body returns nothing or raises, and a guard.\<close>

fun each :: "('a \<Rightarrow> unit res) \<Rightarrow> 'a list \<Rightarrow> unit res" where
  "each f [] = Inr ()"
| "each f (x # xs) = bind_res (f x) (\<lambda>_. each f xs)"

definition ensure :: "bool \<Rightarrow> exn \<Rightarrow> unit res" where
  "ensure b e = (if b then Inr () else Inl e)"

text \<open>\<open>d[k]\<close> and \<open>d.get(k, 0)\<close>.\<close>

definition item :: "(string \<times> 'v) list \<Rightarrow> string \<Rightarrow> 'v res" where
  "item d k = (case map_of d k of None \<Rightarrow> Inl (key_error k) | Some v \<Rightarrow> Inr v)"

definition get_zero :: "('k \<times> rat) list \<Rightarrow> 'k \<Rightarrow> rat" where
  "get_zero d k = (case map_of d k of None \<Rightarrow> 0 | Some v \<Rightarrow> v)"

section \<open>Measures, metrics, plans and potentials\<close>

record finite_measure =
  fm_mass :: "(string \<times> rat) list"

definition fm_support :: "finite_measure \<Rightarrow> string list" where
  "fm_support m = map fst (fm_mass m)"

definition normalize_measure :: "(string \<times> rat) list \<Rightarrow> finite_measure res" where
  "normalize_measure values =
     (if values = [] then Inl (duality_refusal ''EMPTY_MEASURE'')
      else if list_ex (\<lambda>(k, v). v < 0) values then Inl (duality_refusal ''NEGATIVE_MASS'')
      else
        let total = sum_list (map snd values)
        in if total \<le> 0 then Inl (duality_refusal ''ZERO_MASS'')
           else Inr \<lparr>fm_mass = map (\<lambda>(k, v). (k, v / total)) (filter (\<lambda>(k, v). v \<noteq> 0) values)\<rparr>)"

record ground_metric =
  gm_cost :: "((string \<times> string) \<times> rat) list"

definition metric :: "ground_metric \<Rightarrow> string \<Rightarrow> string \<Rightarrow> rat" where
  "metric m x y = get_zero (gm_cost m) (x, y)"

definition metric_pair :: "((string \<times> string) \<times> rat) list \<Rightarrow> string \<Rightarrow> string \<Rightarrow> unit res" where
  "metric_pair c x y =
     bind_res (ensure (\<not> (map_of c (x, y) = None \<and> x \<noteq> y)) (duality_refusal ''MISSING_GROUND_COST''))
       (\<lambda>_. bind_res (ensure (0 \<le> get_zero c (x, y)) (duality_refusal ''NEGATIVE_GROUND_COST''))
       (\<lambda>_. ensure (get_zero c (x, y) = get_zero c (y, x)) (duality_refusal ''ASYMMETRIC_GROUND_COST'')))"

definition metric_admit :: "string list \<Rightarrow> ((string \<times> string) \<times> rat) list \<Rightarrow> ground_metric res" where
  "metric_admit support c =
     bind_res (each (\<lambda>x. bind_res (ensure (get_zero c (x, x) = 0) (duality_refusal ''NONZERO_DIAGONAL''))
         (\<lambda>_. each (metric_pair c x) support)) support)
       (\<lambda>_. bind_res (each (\<lambda>x. each (\<lambda>y. each (\<lambda>z.
           ensure (get_zero c (x, z) \<le> get_zero c (x, y) + get_zero c (y, z))
             (duality_refusal ''TRIANGLE_VIOLATION'')) support) support) support)
       (\<lambda>_. Inr \<lparr>gm_cost = c\<rparr>))"

record transport_plan =
  tp_flow :: "((string \<times> string) \<times> rat) list"

definition row_sum :: "transport_plan \<Rightarrow> string \<Rightarrow> rat" where
  "row_sum p x = sum_list (map snd (filter (\<lambda>((i, _), _). i = x) (tp_flow p)))"

definition column_sum :: "transport_plan \<Rightarrow> string \<Rightarrow> rat" where
  "column_sum p y = sum_list (map snd (filter (\<lambda>((_, j), _). j = y) (tp_flow p)))"

text \<open>The checks of a plan against both marginals, with the refusals of the caller.\<close>

definition marginals ::
    "(string \<Rightarrow> exn) \<Rightarrow> transport_plan \<Rightarrow> finite_measure \<Rightarrow> finite_measure \<Rightarrow> unit res" where
  "marginals refuse p source target =
     bind_res (each (\<lambda>(x, mass). ensure (row_sum p x = mass) (refuse ''SOURCE_MASS_MISMATCH''))
         (fm_mass source))
       (\<lambda>_. each (\<lambda>(y, mass). ensure (column_sum p y = mass) (refuse ''TARGET_MASS_MISMATCH''))
         (fm_mass target))"

definition plan_admit ::
    "transport_plan \<Rightarrow> finite_measure \<Rightarrow> finite_measure \<Rightarrow> transport_plan res" where
  "plan_admit p source target =
     bind_res (ensure (\<not> list_ex (\<lambda>(_, v). v < 0) (tp_flow p)) (duality_refusal ''NEGATIVE_FLOW''))
       (\<lambda>_. bind_res (marginals duality_refusal p source target) (\<lambda>_. Inr p))"

record dual_potential =
  dp_u :: "(string \<times> rat) list"
  dp_v :: "(string \<times> rat) list"

definition keys_match :: "(string \<times> rat) list \<Rightarrow> string list \<Rightarrow> bool" where
  "keys_match d ks \<longleftrightarrow> set (map fst d) = set ks"

text \<open>\<open>f(u[x] + v[y])\<close>, which raises for a missing node.\<close>

definition with_potentials ::
    "dual_potential \<Rightarrow> string \<Rightarrow> string \<Rightarrow> (rat \<Rightarrow> unit res) \<Rightarrow> unit res" where
  "with_potentials q x y f =
     bind_res (item (dp_u q) x) (\<lambda>a. bind_res (item (dp_v q) y) (\<lambda>b. f (a + b)))"

definition potential_admit ::
    "dual_potential \<Rightarrow> string list \<Rightarrow> string list \<Rightarrow> ground_metric \<Rightarrow> dual_potential res" where
  "potential_admit q source_support target_support m =
     bind_res (ensure (keys_match (dp_u q) source_support \<and> keys_match (dp_v q) target_support)
         (duality_refusal ''DUAL_SUPPORT_MISMATCH''))
       (\<lambda>_. bind_res (each (\<lambda>x. each (\<lambda>y. with_potentials q x y (\<lambda>s.
           ensure (s \<le> metric m x y) (duality_refusal ''DUAL_INFEASIBLE''))) target_support) source_support)
       (\<lambda>_. Inr q))"

section \<open>Certificates\<close>

definition complementary_slackness ::
    "transport_plan \<Rightarrow> dual_potential \<Rightarrow> ground_metric \<Rightarrow> unit res" where
  "complementary_slackness p q m =
     each (\<lambda>((x, y), mass).
       if mass > 0
       then with_potentials q x y (\<lambda>s.
         ensure (s = metric m x y) (duality_refusal ''COMPLEMENTARY_SLACKNESS_VIOLATION''))
       else Inr ()) (tp_flow p)"

definition primal_cost :: "transport_plan \<Rightarrow> ground_metric \<Rightarrow> rat" where
  "primal_cost p m = sum_list (map (\<lambda>((i, j), mass). mass * metric m i j) (tp_flow p))"

text \<open>\<open>sum(mass[x] * u[x] for x in mass)\<close>.\<close>

fun weighted_sum :: "(string \<times> rat) list \<Rightarrow> (string \<times> rat) list \<Rightarrow> rat res" where
  "weighted_sum [] d = Inr 0"
| "weighted_sum ((x, mass) # rest) d =
     bind_res (item d x) (\<lambda>a. bind_res (weighted_sum rest d) (\<lambda>s. Inr (mass * a + s)))"

definition dual_value :: "dual_potential \<Rightarrow> finite_measure \<Rightarrow> finite_measure \<Rightarrow> rat res" where
  "dual_value q source target =
     bind_res (weighted_sum (fm_mass source) (dp_u q)) (\<lambda>left.
     bind_res (weighted_sum (fm_mass target) (dp_v q)) (\<lambda>right. Inr (left + right)))"

record duality_certificate =
  dc_primal :: rat
  dc_dual :: rat

definition dc_gap :: "duality_certificate \<Rightarrow> rat" where
  "dc_gap c = dc_primal c - dc_dual c"

definition certify ::
    "transport_plan \<Rightarrow> dual_potential \<Rightarrow> finite_measure \<Rightarrow> finite_measure \<Rightarrow> ground_metric \<Rightarrow>
       duality_certificate res" where
  "certify p q source target m =
     bind_res (plan_admit p source target) (\<lambda>_.
     bind_res (potential_admit q (fm_support source) (fm_support target) m) (\<lambda>_.
     bind_res (complementary_slackness p q m) (\<lambda>_.
     bind_res (dual_value q source target) (\<lambda>d.
       let c = primal_cost p m
       in if c \<noteq> d then Inl (duality_refusal ''STRONG_DUALITY_GAP'')
          else Inr \<lparr>dc_primal = c, dc_dual = d\<rparr>))))"

record check_result =
  ck_primal :: rat
  ck_dual :: rat
  ck_gap :: rat

definition independent_check ::
    "transport_plan \<Rightarrow> dual_potential \<Rightarrow> finite_measure \<Rightarrow> finite_measure \<Rightarrow> ground_metric \<Rightarrow>
       check_result res" where
  "independent_check p q source target m =
     bind_res (certify p q source target m) (\<lambda>c.
       Inr \<lparr>ck_primal = dc_primal c, ck_dual = dc_dual c, ck_gap = dc_gap c\<rparr>)"

definition normalize_gauge :: "dual_potential \<Rightarrow> dual_potential" where
  "normalize_gauge q =
     (let shift = (if dp_u q = [] then 0 else get_zero (dp_u q) (Min (set (map fst (dp_u q)))))
      in \<lparr>dp_u = map (\<lambda>(k, v). (k, v - shift)) (dp_u q),
          dp_v = map (\<lambda>(k, v). (k, v + shift)) (dp_v q)\<rparr>)"

definition perturb_plan :: "transport_plan \<Rightarrow> string \<times> string \<Rightarrow> rat \<Rightarrow> transport_plan" where
  "perturb_plan p edge delta =
     \<lparr>tp_flow = dict_set edge (get_zero (tp_flow p) edge + delta) (tp_flow p)\<rparr>"

definition perturb_potential :: "dual_potential \<Rightarrow> string \<Rightarrow> rat \<Rightarrow> dual_potential res" where
  "perturb_potential q node delta =
     (case map_of (dp_u q) node of
        Some a \<Rightarrow> Inr (q\<lparr>dp_u := dict_set node (a + delta) (dp_u q)\<rparr>)
      | None \<Rightarrow> bind_res (item (dp_v q) node) (\<lambda>b.
          Inr (q\<lparr>dp_v := dict_set node (b + delta) (dp_v q)\<rparr>)))"

section \<open>The independent verifier\<close>

definition verify_marginals ::
    "transport_plan \<Rightarrow> finite_measure \<Rightarrow> finite_measure \<Rightarrow> unit res" where
  "verify_marginals p source target =
     bind_res (ensure (\<not> list_ex (\<lambda>(_, v). v < 0) (tp_flow p)) (independent_refusal ''NEGATIVE_FLOW''))
       (\<lambda>_. bind_res (ensure
           (list_all (\<lambda>((x, y), _). x \<in> set (fm_support source) \<and> y \<in> set (fm_support target)) (tp_flow p))
           (independent_refusal ''FLOW_SUPPORT_MISMATCH''))
       (\<lambda>_. marginals independent_refusal p source target))"

text \<open>The loop that refuses a negative slack and keeps the largest one.\<close>

fun largest_slack ::
    "dual_potential \<Rightarrow> ground_metric \<Rightarrow> (string \<times> string) list \<Rightarrow> rat \<Rightarrow> rat res" where
  "largest_slack q m [] best = Inr best"
| "largest_slack q m ((x, y) # rest) best =
     bind_res (item (dp_u q) x) (\<lambda>a. bind_res (item (dp_v q) y) (\<lambda>b.
       let slack = metric m x y - a - b
       in if slack < 0 then Inl (independent_refusal ''DUAL_INFEASIBLE'')
          else largest_slack q m rest (max best slack)))"

definition verify_dual_feasibility ::
    "dual_potential \<Rightarrow> finite_measure \<Rightarrow> finite_measure \<Rightarrow> ground_metric \<Rightarrow> rat res" where
  "verify_dual_feasibility q source target m =
     (if \<not> (keys_match (dp_u q) (fm_support source) \<and> keys_match (dp_v q) (fm_support target))
      then Inl (independent_refusal ''DUAL_SUPPORT_MISMATCH'')
      else largest_slack q m (List.product (fm_support source) (fm_support target)) 0)"

fun reduced_costs ::
    "dual_potential \<Rightarrow> ground_metric \<Rightarrow> (string \<times> string) list \<Rightarrow>
       ((string \<times> string) \<times> rat) list res" where
  "reduced_costs q m [] = Inr []"
| "reduced_costs q m ((x, y) # rest) =
     bind_res (item (dp_u q) x) (\<lambda>a. bind_res (item (dp_v q) y) (\<lambda>b.
     bind_res (reduced_costs q m rest) (\<lambda>s. Inr (((x, y), metric m x y - a - b) # s))))"

text \<open>\<open>verify_complementarity\<close>: the number of edges that carry flow, or the first with slack.\<close>

fun active_arcs ::
    "((string \<times> string) \<times> rat) list \<Rightarrow> ((string \<times> string) \<times> rat) list \<Rightarrow> nat res" where
  "active_arcs slack [] = Inr 0"
| "active_arcs slack ((edge, amount) # rest) =
     (if amount > 0
      then (case map_of slack edge of
              None \<Rightarrow> Inl (key_error (fst edge))
            | Some s \<Rightarrow>
                if s \<noteq> 0 then Inl (independent_refusal ''COMPLEMENTARITY_VIOLATION'')
                else bind_res (active_arcs slack rest) (\<lambda>n. Inr (Suc n)))
      else active_arcs slack rest)"

record independent_witness =
  iw_primal :: rat
  iw_dual :: rat
  iw_gap :: rat
  iw_max_slack :: rat
  iw_active_arcs :: nat

definition iw_optimal :: "independent_witness \<Rightarrow> bool" where
  "iw_optimal w \<longleftrightarrow> iw_gap w = 0"

definition verify_transport ::
    "transport_plan \<Rightarrow> dual_potential \<Rightarrow> finite_measure \<Rightarrow> finite_measure \<Rightarrow> ground_metric \<Rightarrow>
       independent_witness res" where
  "verify_transport p q source target m =
     bind_res (verify_marginals p source target) (\<lambda>_.
     bind_res (verify_dual_feasibility q source target m) (\<lambda>max_slack.
     bind_res (reduced_costs q m (List.product (fm_support source) (fm_support target))) (\<lambda>slack.
     bind_res (active_arcs slack (tp_flow p)) (\<lambda>active.
     bind_res (dual_value q source target) (\<lambda>d.
       let c = primal_cost p m; gap = c - d
       in if gap \<noteq> 0 then Inl (independent_refusal ''STRONG_DUALITY_GAP'')
          else Inr \<lparr>iw_primal = c, iw_dual = d, iw_gap = gap, iw_max_slack = max_slack,
                 iw_active_arcs = active\<rparr>)))))"

record differential_result =
  df_manufacturer_primal :: rat
  df_manufacturer_dual :: rat
  df_independent_primal :: rat
  df_independent_dual :: rat

text \<open>\<open>compare\<close>; the two engine identities are constants that differ.\<close>

definition compare_verifiers ::
    "transport_plan \<Rightarrow> dual_potential \<Rightarrow> finite_measure \<Rightarrow> finite_measure \<Rightarrow> ground_metric \<Rightarrow>
       differential_result res" where
  "compare_verifiers p q source target m =
     bind_res (certify p q source target m) (\<lambda>c.
     bind_res (verify_transport p q source target m) (\<lambda>w.
       if (dc_primal c, dc_dual c) \<noteq> (iw_primal w, iw_dual w)
       then Inl (independent_refusal ''VERIFIER_DIVERGENCE'')
       else Inr \<lparr>df_manufacturer_primal = dc_primal c, df_manufacturer_dual = dc_dual c,
              df_independent_primal = iw_primal w, df_independent_dual = iw_dual w\<rparr>))"

record oracle_agreement =
  oa_primary :: rat
  oa_exhaustive :: rat
  oa_dual :: rat

definition admit_oracle_agreement ::
    "rat \<Rightarrow> rat \<Rightarrow> independent_witness \<Rightarrow> oracle_agreement res" where
  "admit_oracle_agreement primary exhaustive w =
     (if primary \<noteq> exhaustive then Inl (independent_refusal ''PRIMAL_ORACLE_DIVERGENCE'')
      else if primary \<noteq> iw_primal w \<or> primary \<noteq> iw_dual w
      then Inl (independent_refusal ''PRIMAL_DUAL_ORACLE_DIVERGENCE'')
      else Inr \<lparr>oa_primary = primary, oa_exhaustive = exhaustive, oa_dual = iw_dual w\<rparr>)"

end
