(* ===== verification/Transport_Dual.thy ===== *)
theory Transport_Dual
  imports Transport
begin

text \<open>
  Recovering a dual from a plan, \<open>construct_dual\<close> of
  \<open>src/gymact/explore_kantorovich_independent/\<close>: the components of the graph of used edges by
  breadth-first search (\<open>tight_components.py\<close>), offsets between the components by Bellman and
  Ford's relaxation (\<open>component_offsets.py\<close>), the potential (\<open>primal_to_dual.py\<close>). A dictionary
  that is only looked up is an association list as well; the queue is a list.
\<close>

section \<open>Components of tight edges\<close>

record tight_components =
  tc_source_component :: "(string \<times> nat) list"
  tc_target_component :: "(string \<times> nat) list"
  tc_base_u :: "(string \<times> rat) list"
  tc_base_v :: "(string \<times> rat) list"
  tc_count :: nat

datatype side = Source_side | Target_side

type_synonym neighbors = "(string \<times> string list) list"

text \<open>The loop over the flow that fills both neighbour dictionaries.\<close>

fun add_neighbors ::
    "((string \<times> string) \<times> rat) list \<Rightarrow> neighbors \<Rightarrow> neighbors \<Rightarrow> (neighbors \<times> neighbors) res" where
  "add_neighbors [] sn tn = Inr (sn, tn)"
| "add_neighbors (((x, y), amount) # flow) sn tn =
     (if amount > 0
      then bind_res (item sn x) (\<lambda>ys. bind_res (item tn y) (\<lambda>xs.
             add_neighbors flow (dict_set x (ys @ [y]) sn) (dict_set y (xs @ [x]) tn)))
      else add_neighbors flow sn tn)"

text \<open>The local dictionaries of the search.\<close>

record search_state =
  ss_sc :: "(string \<times> nat) list"
  ss_tc :: "(string \<times> nat) list"
  ss_u :: "(string \<times> rat) list"
  ss_v :: "(string \<times> rat) list"

fun visit_targets ::
    "ground_metric \<Rightarrow> nat \<Rightarrow> string \<Rightarrow> string list \<Rightarrow> search_state \<Rightarrow> (side \<times> string) list \<Rightarrow>
       (search_state \<times> (side \<times> string) list) res" where
  "visit_targets m component node [] st queue = Inr (st, queue)"
| "visit_targets m component node (y # ys) st queue =
     bind_res (item (ss_u st) node) (\<lambda>un.
       let implied = metric m node y - un
       in case map_of (ss_v st) y of
            Some known \<Rightarrow>
              if known \<noteq> implied then Inl (independent_refusal ''INCONSISTENT_TIGHT_CYCLE'')
              else visit_targets m component node ys st queue
          | None \<Rightarrow>
              visit_targets m component node ys
                (st\<lparr>ss_v := dict_set y implied (ss_v st), ss_tc := dict_set y component (ss_tc st)\<rparr>)
                (queue @ [(Target_side, y)]))"

fun visit_sources ::
    "ground_metric \<Rightarrow> nat \<Rightarrow> string \<Rightarrow> string list \<Rightarrow> search_state \<Rightarrow> (side \<times> string) list \<Rightarrow>
       (search_state \<times> (side \<times> string) list) res" where
  "visit_sources m component node [] st queue = Inr (st, queue)"
| "visit_sources m component node (x # xs) st queue =
     bind_res (item (ss_v st) node) (\<lambda>vn.
       let implied = metric m x node - vn
       in case map_of (ss_u st) x of
            Some known \<Rightarrow>
              if known \<noteq> implied then Inl (independent_refusal ''INCONSISTENT_TIGHT_CYCLE'')
              else visit_sources m component node xs st queue
          | None \<Rightarrow>
              visit_sources m component node xs
                (st\<lparr>ss_u := dict_set x implied (ss_u st), ss_sc := dict_set x component (ss_sc st)\<rparr>)
                (queue @ [(Source_side, x)]))"

text \<open>Nodes that the search can still reach.\<close>

definition open_nodes :: "neighbors \<Rightarrow> (string \<times> rat) list \<Rightarrow> string set" where
  "open_nodes ns d = (\<Union>l \<in> set (map snd ns). set l) - set (map fst d)"

lemma finite_open_nodes [simp]: "finite (open_nodes ns d)"
  by (simp add: open_nodes_def)

lemma visit_targets_measure:
  "visit_targets m c node ys st queue = Inr (st', queue') \<Longrightarrow> set ys \<subseteq> (\<Union>l \<in> set (map snd sn). set l) \<Longrightarrow>
     ss_u st' = ss_u st \<and>
     card (open_nodes sn (ss_v st')) + length queue' \<le> card (open_nodes sn (ss_v st)) + length queue \<and>
     card (open_nodes sn (ss_v st')) \<le> card (open_nodes sn (ss_v st))"
proof (induction m c node ys st queue rule: visit_targets.induct)
  case (2 m c node y ys st queue)
  from "2.prems"(1) obtain un where un: "item (ss_u st) node = Inr un" by (auto simp: bind_res_Inr_iff)
  show ?case
  proof (cases "map_of (ss_v st) y")
    case None
    let ?st = "st\<lparr>ss_v := dict_set y (metric m node y - un) (ss_v st), ss_tc := dict_set y c (ss_tc st)\<rparr>"
    have "open_nodes sn (ss_v st) = insert y (open_nodes sn (ss_v ?st))" "y \<notin> open_nodes sn (ss_v ?st)"
      using None "2.prems"(2) by (auto simp: open_nodes_def keys_dict_set map_of_eq_None_iff)
    then have "card (open_nodes sn (ss_v st)) = Suc (card (open_nodes sn (ss_v ?st)))" by simp
    moreover have "visit_targets m c node ys ?st (queue @ [(Target_side, y)]) = Inr (st', queue')"
      using "2.prems"(1) un None by (simp add: Let_def)
    note "2.IH"(1) [OF refl None this]
    ultimately show ?thesis using "2.prems"(2) by simp
  next
    case (Some known)
    with "2.IH"(2) [OF refl Some] "2.prems" un show ?thesis by (simp add: Let_def split: if_splits)
  qed
qed simp

lemma visit_sources_measure:
  "visit_sources m c node xs st queue = Inr (st', queue') \<Longrightarrow> set xs \<subseteq> (\<Union>l \<in> set (map snd tn). set l) \<Longrightarrow>
     ss_v st' = ss_v st \<and>
     card (open_nodes tn (ss_u st')) + length queue' \<le> card (open_nodes tn (ss_u st)) + length queue \<and>
     card (open_nodes tn (ss_u st')) \<le> card (open_nodes tn (ss_u st))"
proof (induction m c node xs st queue rule: visit_sources.induct)
  case (2 m c node x xs st queue)
  from "2.prems"(1) obtain vn where vn: "item (ss_v st) node = Inr vn" by (auto simp: bind_res_Inr_iff)
  show ?case
  proof (cases "map_of (ss_u st) x")
    case None
    let ?st = "st\<lparr>ss_u := dict_set x (metric m x node - vn) (ss_u st), ss_sc := dict_set x c (ss_sc st)\<rparr>"
    have "open_nodes tn (ss_u st) = insert x (open_nodes tn (ss_u ?st))" "x \<notin> open_nodes tn (ss_u ?st)"
      using None "2.prems"(2) by (auto simp: open_nodes_def keys_dict_set map_of_eq_None_iff)
    then have "card (open_nodes tn (ss_u st)) = Suc (card (open_nodes tn (ss_u ?st)))" by simp
    moreover have "visit_sources m c node xs ?st (queue @ [(Source_side, x)]) = Inr (st', queue')"
      using "2.prems"(1) vn None by (simp add: Let_def)
    note "2.IH"(1) [OF refl None this]
    ultimately show ?thesis using "2.prems"(2) by simp
  next
    case (Some known)
    with "2.IH"(2) [OF refl Some] "2.prems" vn show ?thesis by (simp add: Let_def split: if_splits)
  qed
qed simp

lemma item_neighbors: "item ns k = Inr l \<Longrightarrow> set l \<subseteq> (\<Union>l \<in> set (map snd ns). set l)"
  by (force simp: item_def split: option.splits dest: map_of_SomeD)

text \<open>The \<open>while queue\<close> loop: a node enters the queue when it gets its value, so it ends.\<close>

function search ::
    "ground_metric \<Rightarrow> nat \<Rightarrow> neighbors \<Rightarrow> neighbors \<Rightarrow> (side \<times> string) list \<Rightarrow> search_state \<Rightarrow>
       search_state res" where
  "search m component sn tn [] st = Inr st"
| "search m component sn tn ((Source_side, node) # queue) st =
     (case item sn node of
        Inl e \<Rightarrow> Inl e
      | Inr ys \<Rightarrow>
          (case visit_targets m component node ys st queue of
             Inl e \<Rightarrow> Inl e
           | Inr (st', queue') \<Rightarrow> search m component sn tn queue' st'))"
| "search m component sn tn ((Target_side, node) # queue) st =
     (case item tn node of
        Inl e \<Rightarrow> Inl e
      | Inr xs \<Rightarrow>
          (case visit_sources m component node xs st queue of
             Inl e \<Rightarrow> Inl e
           | Inr (st', queue') \<Rightarrow> search m component sn tn queue' st'))"
  by pat_completeness auto
termination
  by (relation "measure (\<lambda>(m, c, sn, tn, queue, st).
      card (open_nodes sn (ss_v st)) + card (open_nodes tn (ss_u st)) + length queue)")
    (auto dest!: item_neighbors dest: visit_targets_measure visit_sources_measure
      simp: less_Suc_eq_le)

section \<open>All components\<close>

text \<open>The loop over the roots in sorted order, then the targets that no source reaches.\<close>

fun search_roots ::
    "ground_metric \<Rightarrow> neighbors \<Rightarrow> neighbors \<Rightarrow> string list \<Rightarrow> nat \<Rightarrow> search_state \<Rightarrow>
       (nat \<times> search_state) res" where
  "search_roots m sn tn [] component st = Inr (component, st)"
| "search_roots m sn tn (start # roots) component st =
     (if map_of (ss_sc st) start \<noteq> None then search_roots m sn tn roots component st
      else bind_res (search m component sn tn [(Source_side, start)]
             (st\<lparr>ss_u := dict_set start 0 (ss_u st), ss_sc := dict_set start component (ss_sc st)\<rparr>))
           (search_roots m sn tn roots (Suc component)))"

fun add_isolated :: "string list \<Rightarrow> nat \<Rightarrow> search_state \<Rightarrow> nat \<times> search_state" where
  "add_isolated [] component st = (component, st)"
| "add_isolated (y # ys) component st =
     (if map_of (ss_tc st) y \<noteq> None then add_isolated ys component st
      else add_isolated ys (Suc component)
        (st\<lparr>ss_tc := dict_set y component (ss_tc st), ss_v := dict_set y 0 (ss_v st)\<rparr>))"

definition derive_tight_components ::
    "transport_plan \<Rightarrow> string list \<Rightarrow> string list \<Rightarrow> ground_metric \<Rightarrow> tight_components res" where
  "derive_tight_components p source_support target_support m =
     bind_res (add_neighbors (tp_flow p) (map (\<lambda>x. (x, [])) source_support)
         (map (\<lambda>y. (y, [])) target_support)) (\<lambda>(sn, tn).
     bind_res (search_roots m sn tn (sort source_support) 0
         \<lparr>ss_sc = [], ss_tc = [], ss_u = [], ss_v = []\<rparr>) (\<lambda>(component, st).
       let (count, final) = add_isolated (sort target_support) component st
       in Inr \<lparr>tc_source_component = ss_sc final, tc_target_component = ss_tc final,
            tc_base_u = ss_u final, tc_base_v = ss_v final, tc_count = count\<rparr>))"

section \<open>Offsets between components\<close>

type_synonym offset_edge = "nat \<times> nat \<times> rat"

text \<open>The double loop over the supports: a negative bound inside a component refuses.\<close>

fun offset_edges ::
    "tight_components \<Rightarrow> ground_metric \<Rightarrow> (string \<times> string) list \<Rightarrow> offset_edge list res" where
  "offset_edges c m [] = Inr []"
| "offset_edges c m ((x, y) # rest) =
     bind_res (item (tc_source_component c) x) (\<lambda>a.
     bind_res (item (tc_target_component c) y) (\<lambda>b.
     bind_res (item (tc_base_u c) x) (\<lambda>bu.
     bind_res (item (tc_base_v c) y) (\<lambda>bv.
       let bound = metric m x y - bu - bv
       in if a = b
          then if bound < 0 then Inl (independent_refusal ''INTRA_COMPONENT_DUAL_INFEASIBLE'')
               else offset_edges c m rest
          else bind_res (offset_edges c m rest) (\<lambda>es. Inr ((b, a, bound) # es))))))"

text \<open>One pass of the relaxation over the edges, with the flag \<open>changed\<close>.\<close>

fun relax_edges :: "offset_edge list \<Rightarrow> rat list \<Rightarrow> bool \<Rightarrow> rat list \<times> bool" where
  "relax_edges [] distance changed = (distance, changed)"
| "relax_edges ((origin, destination, weight) # es) distance changed =
     (let candidate = distance ! origin + weight
      in if candidate < distance ! destination
         then relax_edges es (distance[destination := candidate]) True
         else relax_edges es distance changed)"

fun relax_rounds :: "nat \<Rightarrow> offset_edge list \<Rightarrow> rat list \<Rightarrow> rat list" where
  "relax_rounds 0 es distance = distance"
| "relax_rounds (Suc n) es distance =
     (let (distance', changed) = relax_edges es distance False
      in if changed then relax_rounds n es distance' else distance')"

definition solve_component_offsets ::
    "tight_components \<Rightarrow> finite_measure \<Rightarrow> finite_measure \<Rightarrow> ground_metric \<Rightarrow> rat list res" where
  "solve_component_offsets c source target m =
     bind_res (offset_edges c m (List.product (fm_support source) (fm_support target))) (\<lambda>es.
       let distance = relax_rounds (tc_count c - 1) es (replicate (tc_count c) 0)
       in if list_ex (\<lambda>(origin, destination, weight).
                distance ! origin + weight < distance ! destination) es
          then Inl (independent_refusal ''DUAL_OFFSET_NEGATIVE_CYCLE'')
          else Inr distance)"

section \<open>The dual\<close>

text \<open>A dictionary comprehension whose values may raise.\<close>

fun collect :: "(string \<Rightarrow> rat res) \<Rightarrow> string list \<Rightarrow> (string \<times> rat) list res" where
  "collect f [] = Inr []"
| "collect f (k # ks) = bind_res (f k) (\<lambda>v. bind_res (collect f ks) (\<lambda>d. Inr ((k, v) # d)))"

definition construct_dual ::
    "transport_plan \<Rightarrow> finite_measure \<Rightarrow> finite_measure \<Rightarrow> ground_metric \<Rightarrow> dual_potential res" where
  "construct_dual p source target m =
     bind_res (verify_marginals p source target) (\<lambda>_.
     bind_res (derive_tight_components p (fm_support source) (fm_support target) m) (\<lambda>c.
     bind_res (solve_component_offsets c source target m) (\<lambda>offsets.
     bind_res (collect (\<lambda>x. bind_res (item (tc_base_u c) x) (\<lambda>bu.
         bind_res (item (tc_source_component c) x) (\<lambda>a. Inr (bu + offsets ! a)))) (fm_support source)) (\<lambda>u.
     bind_res (collect (\<lambda>y. bind_res (item (tc_base_v c) y) (\<lambda>bv.
         bind_res (item (tc_target_component c) y) (\<lambda>b. Inr (bv - offsets ! b)))) (fm_support target)) (\<lambda>v.
       let q = normalize_gauge \<lparr>dp_u = u, dp_v = v\<rparr>
       in bind_res (verify_dual_feasibility q source target m) (\<lambda>_. Inr q))))))"

end
