(* ===== verification/Transport_Props.thy ===== *)
theory Transport_Props
  imports Transport
begin

text \<open>
  Certificates of optimal transport are sound and complete: \<open>certify\<close> returns exactly for a
  feasible plan and a feasible dual of the same value, such a plan is optimal, its last check can
  never fail, and the independent verifier never diverges from it.
\<close>

section \<open>What the checks mean\<close>

lemma each_Inr: "each f xs = Inr u \<longleftrightarrow> (\<forall>x \<in> set xs. f x = Inr ())"
  by (induction xs) (auto simp: bind_res_Inr_iff)

lemma ensure_Inr [simp]: "ensure b e = Inr u \<longleftrightarrow> b"
  by (simp add: ensure_def)

lemma item_Inr [simp]: "item d k = Inr v \<longleftrightarrow> map_of d k = Some v"
  by (simp add: item_def split: option.splits)

lemma get_zero_Some: "map_of d k = Some v \<Longrightarrow> get_zero d k = v"
  by (simp add: get_zero_def)

text \<open>The keys of a dictionary differ; a measure is one.\<close>

definition is_dict :: "('k \<times> 'v) list \<Rightarrow> bool" where
  "is_dict d \<longleftrightarrow> distinct (map fst d)"

abbreviation u_of :: "dual_potential \<Rightarrow> string \<Rightarrow> rat" where
  "u_of q \<equiv> get_zero (dp_u q)"

abbreviation v_of :: "dual_potential \<Rightarrow> string \<Rightarrow> rat" where
  "v_of q \<equiv> get_zero (dp_v q)"

text \<open>A plan that moves exactly the source to the target; it may list unused edges.\<close>

definition transports :: "transport_plan \<Rightarrow> finite_measure \<Rightarrow> finite_measure \<Rightarrow> bool" where
  "transports p source target \<longleftrightarrow>
     (\<forall>(e, a) \<in> set (tp_flow p). 0 \<le> a) \<and>
     (\<forall>((x, y), a) \<in> set (tp_flow p). 0 < a \<longrightarrow> x \<in> set (fm_support source) \<and> y \<in> set (fm_support target)) \<and>
     (\<forall>(x, mass) \<in> set (fm_mass source). row_sum p x = mass) \<and>
     (\<forall>(y, mass) \<in> set (fm_mass target). column_sum p y = mass)"

definition dual_feasible ::
    "dual_potential \<Rightarrow> finite_measure \<Rightarrow> finite_measure \<Rightarrow> ground_metric \<Rightarrow> bool" where
  "dual_feasible q source target m \<longleftrightarrow>
     keys_match (dp_u q) (fm_support source) \<and> keys_match (dp_v q) (fm_support target) \<and>
     (\<forall>x \<in> set (fm_support source). \<forall>y \<in> set (fm_support target). u_of q x + v_of q y \<le> metric m x y)"

text \<open>The value of the dual, where the dual covers both supports.\<close>

definition dual_sum :: "dual_potential \<Rightarrow> finite_measure \<Rightarrow> finite_measure \<Rightarrow> rat" where
  "dual_sum q source target =
     sum_list (map (\<lambda>(x, mass). mass * u_of q x) (fm_mass source)) +
     sum_list (map (\<lambda>(y, mass). mass * v_of q y) (fm_mass target))"

lemma keys_match_None: "keys_match d ks \<Longrightarrow> map_of d k = None \<longleftrightarrow> k \<notin> set ks"
  by (simp add: keys_match_def map_of_eq_None_iff)

lemma keys_match_Some:
  assumes "keys_match d ks" "k \<in> set ks"
  shows "map_of d k = Some (get_zero d k)"
  using keys_match_None [OF assms(1), of k] assms(2) by (cases "map_of d k") (simp_all add: get_zero_def)

lemma weighted_sum_eq:
  "\<forall>(x, mass) \<in> set xs. map_of d x \<noteq> None \<Longrightarrow>
     weighted_sum xs d = Inr (sum_list (map (\<lambda>(x, mass). mass * get_zero d x) xs))"
  by (induction xs) (auto simp: item_def get_zero_def)

lemma dual_value_eq:
  assumes "keys_match (dp_u q) (fm_support source)" "keys_match (dp_v q) (fm_support target)"
  shows "dual_value q source target = Inr (dual_sum q source target)"
proof -
  have supp: "x \<in> set (fm_support mu)" if "(x, mass) \<in> set (fm_mass mu)" for x mass mu
    using that unfolding fm_support_def by (metis fst_conv image_eqI list.set_map)
  have "map_of (dp_u q) x \<noteq> None" if "(x, mass) \<in> set (fm_mass source)" for x mass
    using keys_match_None [OF assms(1)] supp [OF that] by blast
  moreover have "map_of (dp_v q) y \<noteq> None" if "(y, mass) \<in> set (fm_mass target)" for y mass
    using keys_match_None [OF assms(2)] supp [OF that] by blast
  ultimately have "\<forall>(x, mass) \<in> set (fm_mass source). map_of (dp_u q) x \<noteq> None"
    "\<forall>(y, mass) \<in> set (fm_mass target). map_of (dp_v q) y \<noteq> None" by blast+
  then show ?thesis by (simp add: dual_value_def weighted_sum_eq dual_sum_def)
qed

lemma potential_admit_iff:
  "potential_admit q (fm_support source) (fm_support target) m = Inr r \<longleftrightarrow>
     r = q \<and> dual_feasible q source target m"
proof -
  have "with_potentials q x y (\<lambda>s. ensure (s \<le> metric m x y) e) = Inr () \<longleftrightarrow>
      u_of q x + v_of q y \<le> metric m x y"
    if "keys_match (dp_u q) (fm_support source)" "keys_match (dp_v q) (fm_support target)"
      "x \<in> set (fm_support source)" "y \<in> set (fm_support target)" for x y e
    using keys_match_Some [OF that(1,3)] keys_match_Some [OF that(2,4)]
    by (simp add: with_potentials_def item_def)
  then show ?thesis
    by (auto simp: potential_admit_def dual_feasible_def bind_res_Inr_iff each_Inr)
qed

lemma plan_admit_iff:
  "plan_admit p source target = Inr r \<longleftrightarrow>
     r = p \<and> (\<forall>(e, a) \<in> set (tp_flow p). 0 \<le> a) \<and>
     (\<forall>(x, mass) \<in> set (fm_mass source). row_sum p x = mass) \<and>
     (\<forall>(y, mass) \<in> set (fm_mass target). column_sum p y = mass)"
  by (auto simp: plan_admit_def marginals_def bind_res_Inr_iff each_Inr list_ex_iff not_less
      split: prod.splits)

lemma slackness_iff:
  assumes "keys_match (dp_u q) (fm_support source)" "keys_match (dp_v q) (fm_support target)"
  shows "complementary_slackness p q m = Inr r \<longleftrightarrow>
    (\<forall>((x, y), a) \<in> set (tp_flow p). 0 < a \<longrightarrow>
       x \<in> set (fm_support source) \<and> y \<in> set (fm_support target) \<and> u_of q x + v_of q y = metric m x y)"
proof -
  have "with_potentials q x y (\<lambda>s. ensure (s = metric m x y) e) = Inr () \<longleftrightarrow>
      x \<in> set (fm_support source) \<and> y \<in> set (fm_support target) \<and> u_of q x + v_of q y = metric m x y"
    for x y e
  proof -
    have "map_of (dp_u q) x = None \<longleftrightarrow> x \<notin> set (fm_support source)"
      "map_of (dp_v q) y = None \<longleftrightarrow> y \<notin> set (fm_support target)"
      using keys_match_None [OF assms(1)] keys_match_None [OF assms(2)] by auto
    then show ?thesis
      by (auto simp: with_potentials_def item_def get_zero_Some split: option.splits)
  qed
  then show ?thesis by (auto simp: complementary_slackness_def each_Inr split: prod.splits)
qed

section \<open>Weak duality\<close>

text \<open>Summing over the edges of a plan is summing over its rows and over its columns.\<close>

lemma sum_rows:
  assumes "finite K" "\<forall>((x, y), a) \<in> set fl. a \<noteq> 0 \<longrightarrow> x \<in> K"
  shows "sum_list (map (\<lambda>((x, y), a). a * f x) fl) = (\<Sum>x \<in> K. row_sum \<lparr>tp_flow = fl\<rparr> x * f x)"
  using assms(2)
proof (induction fl)
  case Nil
  show ?case by (simp add: row_sum_def)
next
  case (Cons e fl)
  obtain i j a where e: "e = ((i, j), a)" by (metis surj_pair)
  have "row_sum \<lparr>tp_flow = e # fl\<rparr> x * f x =
      (if x = i then a * f i else 0) + row_sum \<lparr>tp_flow = fl\<rparr> x * f x" for x
    by (auto simp: row_sum_def e algebra_simps)
  moreover have "(\<Sum>x \<in> K. if x = i then a * f i else 0) = a * f i"
    using Cons.prems e assms(1) by auto
  ultimately show ?case using Cons e by (simp add: sum.distrib)
qed

lemma sum_columns:
  assumes "finite K" "\<forall>((x, y), a) \<in> set fl. a \<noteq> 0 \<longrightarrow> y \<in> K"
  shows "sum_list (map (\<lambda>((x, y), a). a * f y) fl) = (\<Sum>y \<in> K. column_sum \<lparr>tp_flow = fl\<rparr> y * f y)"
  using assms(2)
proof (induction fl)
  case Nil
  show ?case by (simp add: column_sum_def)
next
  case (Cons e fl)
  obtain i j a where e: "e = ((i, j), a)" by (metis surj_pair)
  have "column_sum \<lparr>tp_flow = e # fl\<rparr> y * f y =
      (if y = j then a * f j else 0) + column_sum \<lparr>tp_flow = fl\<rparr> y * f y" for y
    by (auto simp: column_sum_def e algebra_simps)
  moreover have "(\<Sum>y \<in> K. if y = j then a * f j else 0) = a * f j"
    using Cons.prems e assms(1) by auto
  ultimately show ?case using Cons e by (simp add: sum.distrib)
qed

lemma sum_dict:
  "is_dict xs \<Longrightarrow> sum_list (map (\<lambda>(x, a). a * f x) xs) = (\<Sum>x \<in> set (map fst xs). get_zero xs x * f x)"
proof (induction xs)
  case (Cons e xs)
  obtain k a where e: "e = (k, a)" by (metis surj_pair)
  have "(\<Sum>x \<in> set (map fst xs). get_zero (e # xs) x * f x) = (\<Sum>x \<in> set (map fst xs). get_zero xs x * f x)"
    using Cons.prems e by (intro sum.cong) (auto simp: is_dict_def get_zero_def)
  then show ?case using Cons e by (auto simp: is_dict_def get_zero_def)
qed simp

lemma sum_flow_add:
  "sum_list (map (\<lambda>((x, y), a). a * f x) fl) + sum_list (map (\<lambda>((x, y), a). a * g y) fl) =
     sum_list (map (\<lambda>((x, y), a). a * (f x + g y)) fl)" for f g :: "string \<Rightarrow> rat"
  by (induction fl) (auto simp: algebra_simps)

lemma dict_item: "is_dict d \<Longrightarrow> (k, v) \<in> set d \<Longrightarrow> get_zero d k = v"
  by (simp add: is_dict_def get_zero_def)

lemma plan_eta: "\<lparr>tp_flow = tp_flow p\<rparr> = p"
  by simp

lemma dual_over_flow:
  assumes "is_dict (fm_mass source)" "is_dict (fm_mass target)" "transports p source target"
  shows "dual_sum q source target =
    sum_list (map (\<lambda>((x, y), a). a * (u_of q x + v_of q y)) (tp_flow p))"
proof -
  let ?S = "set (map fst (fm_mass source))" and ?T = "set (map fst (fm_mass target))"
  have flow: "\<forall>((x, y), a) \<in> set (tp_flow p). a \<noteq> 0 \<longrightarrow> x \<in> ?S"
    "\<forall>((x, y), a) \<in> set (tp_flow p). a \<noteq> 0 \<longrightarrow> y \<in> ?T"
    using assms(3) unfolding transports_def fm_support_def by fastforce+
  have rows: "get_zero (fm_mass source) x = row_sum p x" if "x \<in> ?S" for x
  proof -
    from that obtain mass where "(x, mass) \<in> set (fm_mass source)" by auto
    with assms(1,3) dict_item show ?thesis unfolding transports_def by fastforce
  qed
  have columns: "get_zero (fm_mass target) y = column_sum p y" if "y \<in> ?T" for y
  proof -
    from that obtain mass where "(y, mass) \<in> set (fm_mass target)" by auto
    with assms(2,3) dict_item show ?thesis unfolding transports_def by fastforce
  qed
  have "(\<Sum>x \<in> ?S. get_zero (fm_mass source) x * u_of q x) = (\<Sum>x \<in> ?S. row_sum p x * u_of q x)"
    "(\<Sum>y \<in> ?T. get_zero (fm_mass target) y * v_of q y) = (\<Sum>y \<in> ?T. column_sum p y * v_of q y)"
    using rows columns by (auto intro!: sum.cong simp del: set_map)
  then have "dual_sum q source target =
      (\<Sum>x \<in> ?S. row_sum p x * u_of q x) + (\<Sum>y \<in> ?T. column_sum p y * v_of q y)"
    unfolding dual_sum_def sum_dict [OF assms(1)] sum_dict [OF assms(2)] by (rule arg_cong2)
  also have "\<dots> = sum_list (map (\<lambda>((x, y), a). a * u_of q x) (tp_flow p)) +
      sum_list (map (\<lambda>((x, y), a). a * v_of q y) (tp_flow p))"
    using sum_rows [OF _ flow(1), of "u_of q"] sum_columns [OF _ flow(2), of "v_of q"]
    by (simp add: plan_eta)
  also have "\<dots> = sum_list (map (\<lambda>((x, y), a). a * (u_of q x + v_of q y)) (tp_flow p))"
    by (simp add: sum_flow_add)
  finally show ?thesis .
qed

lemma primal_minus_dual:
  assumes "is_dict (fm_mass source)" "is_dict (fm_mass target)" "transports p source target"
  shows "primal_cost p m - dual_sum q source target =
    sum_list (map (\<lambda>((x, y), a). a * (metric m x y - u_of q x - v_of q y)) (tp_flow p))"
proof -
  have "sum_list (map (\<lambda>((x, y), a). a * metric m x y) fl) -
      sum_list (map (\<lambda>((x, y), a). a * (u_of q x + v_of q y)) fl) =
    sum_list (map (\<lambda>((x, y), a). a * (metric m x y - u_of q x - v_of q y)) fl)" for fl
    by (induction fl) (auto simp: algebra_simps)
  then show ?thesis unfolding dual_over_flow [OF assms] primal_cost_def .
qed

lemma slack_nonneg:
  assumes "transports p source target" "dual_feasible q source target m" "((x, y), a) \<in> set (tp_flow p)"
  shows "0 \<le> a * (metric m x y - u_of q x - v_of q y)"
proof (cases "a = 0")
  case False
  with assms(1,3) have "0 < a" "x \<in> set (fm_support source)" "y \<in> set (fm_support target)"
    unfolding transports_def by fastforce+
  with assms(2) have "u_of q x + v_of q y \<le> metric m x y" by (simp add: dual_feasible_def)
  with \<open>0 < a\<close> show ?thesis by (intro mult_nonneg_nonneg) simp_all
qed simp

lemma weak_duality:
  assumes "is_dict (fm_mass source)" "is_dict (fm_mass target)" "transports p source target"
    "dual_feasible q source target m"
  shows "dual_sum q source target \<le> primal_cost p m"
proof -
  have "0 \<le> primal_cost p m - dual_sum q source target"
    unfolding primal_minus_dual [OF assms(1-3)]
    using slack_nonneg [OF assms(3,4)] by (intro sum_list_nonneg) auto
  then show ?thesis by simp
qed

text \<open>The two values agree exactly if every used edge is tight.\<close>

lemma tight_iff:
  assumes "is_dict (fm_mass source)" "is_dict (fm_mass target)" "transports p source target"
    "dual_feasible q source target m"
  shows "primal_cost p m = dual_sum q source target \<longleftrightarrow>
    (\<forall>((x, y), a) \<in> set (tp_flow p). 0 < a \<longrightarrow> u_of q x + v_of q y = metric m x y)"
proof -
  have "primal_cost p m = dual_sum q source target \<longleftrightarrow>
      primal_cost p m - dual_sum q source target = 0" by simp
  also have "\<dots> \<longleftrightarrow> (\<forall>((x, y), a) \<in> set (tp_flow p). a * (metric m x y - u_of q x - v_of q y) = 0)"
    unfolding primal_minus_dual [OF assms(1-3)]
    using slack_nonneg [OF assms(3,4)] by (subst sum_list_nonneg_eq_0_iff) auto
  finally have "primal_cost p m = dual_sum q source target \<longleftrightarrow>
      (\<forall>((x, y), a) \<in> set (tp_flow p). a * (metric m x y - u_of q x - v_of q y) = 0)" .
  moreover have "0 \<le> a" if "((x, y), a) \<in> set (tp_flow p)" for x y a
    using that assms(3) unfolding transports_def by fastforce
  ultimately show ?thesis by (fastforce simp: order_le_less)
qed

section \<open>A small transport problem\<close>

definition demo_source :: finite_measure where
  "demo_source = \<lparr>fm_mass = [(''a'', 1 / 2), (''b'', 1 / 2)]\<rparr>"

definition demo_target :: finite_measure where
  "demo_target = \<lparr>fm_mass = [(''b'', 1)]\<rparr>"

definition demo_metric :: ground_metric where
  "demo_metric = \<lparr>gm_cost = [((''a'', ''b''), 2), ((''b'', ''a''), 2)]\<rparr>"

definition demo_transport :: transport_plan where
  "demo_transport = \<lparr>tp_flow = [((''a'', ''b''), 1 / 2), ((''b'', ''b''), 1 / 2)]\<rparr>"

definition demo_potential :: dual_potential where
  "demo_potential = \<lparr>dp_u = [(''a'', 2), (''b'', 0)], dp_v = [(''b'', 0)]\<rparr>"

lemmas demo_transport_eval =
  demo_source_def demo_target_def demo_metric_def demo_transport_def demo_potential_def
  fm_support_def metric_def get_zero_def keys_match_def row_sum_def column_sum_def

lemma demo_dicts: "is_dict (fm_mass demo_source)" "is_dict (fm_mass demo_target)"
  by (simp_all add: is_dict_def demo_transport_eval)

lemma demo_certified:
  "certify demo_transport demo_potential demo_source demo_target demo_metric =
     Inr \<lparr>dc_primal = 1, dc_dual = 1\<rparr>"
  by (simp add: certify_def plan_admit_def marginals_def potential_admit_def ensure_def
      with_potentials_def item_def complementary_slackness_def dual_value_def primal_cost_def
      demo_transport_eval)

section \<open>The certificate checker\<close>

definition tight ::
    "transport_plan \<Rightarrow> dual_potential \<Rightarrow> finite_measure \<Rightarrow> finite_measure \<Rightarrow> ground_metric \<Rightarrow> bool" where
  "tight p q source target m \<longleftrightarrow>
     transports p source target \<and> dual_feasible q source target m \<and>
     primal_cost p m = dual_sum q source target"

lemma checks_tight:
  assumes "is_dict (fm_mass source)" "is_dict (fm_mass target)"
  shows "plan_admit p source target = Inr p \<and>
    potential_admit q (fm_support source) (fm_support target) m = Inr q \<and>
    complementary_slackness p q m = Inr () \<longleftrightarrow> tight p q source target m"
proof (cases "dual_feasible q source target m")
  case True
  then have keys: "keys_match (dp_u q) (fm_support source)" "keys_match (dp_v q) (fm_support target)"
    by (simp_all add: dual_feasible_def)
  have "plan_admit p source target = Inr p \<and> complementary_slackness p q m = Inr () \<longleftrightarrow>
      transports p source target \<and>
      (\<forall>((x, y), a) \<in> set (tp_flow p). 0 < a \<longrightarrow> u_of q x + v_of q y = metric m x y)"
    unfolding plan_admit_iff slackness_iff [OF keys] transports_def by fastforce
  then show ?thesis
    using True tight_iff [OF assms _ True] by (auto simp: tight_def potential_admit_iff)
qed (simp add: tight_def potential_admit_iff)

lemma certify_InrD:
  assumes "certify p q source target m = Inr c"
  shows "plan_admit p source target = Inr p" "potential_admit q (fm_support source) (fm_support target) m = Inr q"
    "complementary_slackness p q m = Inr ()"
  using assms by (auto simp: certify_def bind_res_Inr_iff plan_admit_def potential_admit_def)

lemma certify_tight:
  assumes "tight p q source target m"
    and "is_dict (fm_mass source)" "is_dict (fm_mass target)"
  shows "certify p q source target m =
    Inr \<lparr>dc_primal = primal_cost p m, dc_dual = primal_cost p m\<rparr>"
proof -
  have "dual_value q source target = Inr (primal_cost p m)"
    using assms(1) dual_value_eq [of q source target] by (simp add: tight_def dual_feasible_def)
  with checks_tight [OF assms(2,3), of p q m] assms(1) show ?thesis
    by (simp add: certify_def Let_def)
qed

lemma each_Inl: "each f xs = Inl e \<Longrightarrow> \<exists>x \<in> set xs. f x = Inl e"
  by (induction xs) (auto simp: bind_res_Inl_iff)

lemma ensure_Inl [simp]: "ensure b e = Inl e' \<longleftrightarrow> \<not> b \<and> e' = e"
  by (auto simp: ensure_def)

lemma with_potentials_Inl:
  "with_potentials q x y f = Inl e \<Longrightarrow> exn_type e = ''KeyError'' \<or> (\<exists>s. f s = Inl e)"
  by (auto simp: with_potentials_def item_def bind_res_Inl_iff split: option.splits)

lemma checks_no_gap:
  defines "gap \<equiv> duality_refusal ''STRONG_DUALITY_GAP''"
  shows "plan_admit p source target \<noteq> Inl gap"
    "potential_admit q (fm_support source) (fm_support target) m \<noteq> Inl gap"
    "complementary_slackness p q m \<noteq> Inl gap"
  by (auto simp: gap_def plan_admit_def marginals_def potential_admit_def complementary_slackness_def
      bind_res_Inl_iff split: if_splits dest!: each_Inl with_potentials_Inl)

text \<open>C28: over measures that are dictionaries, a certificate is issued exactly for a
  plan that moves the source to the target and a feasible dual of the same value; its two values
  are the cost of the plan, and no plan between these measures is cheaper. The final check for a
  gap between the two values can never refuse: the checks before it exclude a gap.\<close>

theorem certificate_exact:
  assumes "is_dict (fm_mass source)" "is_dict (fm_mass target)"
  shows "(certify p q source target m = Inr c \<longleftrightarrow>
      transports p source target \<and> dual_feasible q source target m \<and>
      primal_cost p m = dual_sum q source target \<and>
      c = \<lparr>dc_primal = primal_cost p m, dc_dual = primal_cost p m\<rparr>) \<and>
    (certify p q source target m = Inr c \<longrightarrow>
      (\<forall>p'. transports p' source target \<longrightarrow> dc_primal c \<le> primal_cost p' m)) \<and>
    certify p q source target m \<noteq> Inl (duality_refusal ''STRONG_DUALITY_GAP'')"
proof -
  have iff: "certify p q source target m = Inr c \<longleftrightarrow>
      tight p q source target m \<and> c = \<lparr>dc_primal = primal_cost p m, dc_dual = primal_cost p m\<rparr>"
    using certify_InrD checks_tight [OF assms] certify_tight [OF _ assms] by fastforce
  have least: "primal_cost p m \<le> primal_cost p' m"
    if "tight p q source target m" "transports p' source target" for p'
    using that weak_duality [OF assms that(2), of q m] by (simp add: tight_def)
  have "certify p q source target m \<noteq> Inl (duality_refusal ''STRONG_DUALITY_GAP'')"
  proof
    assume gap: "certify p q source target m = Inl (duality_refusal ''STRONG_DUALITY_GAP'')"
    have "plan_admit p source target = Inr p \<and>
      potential_admit q (fm_support source) (fm_support target) m = Inr q \<and>
      complementary_slackness p q m = Inr ()"
      using gap checks_no_gap(1) [of p source target] checks_no_gap(2) [of q source target m]
        checks_no_gap(3) [of p q m]
      by (cases "plan_admit p source target"; cases "potential_admit q (fm_support source) (fm_support target) m";
          cases "complementary_slackness p q m")
        (auto simp: certify_def plan_admit_iff potential_admit_iff)
    with checks_tight [OF assms] certify_tight [OF _ assms] gap show False by fastforce
  qed
  with iff least show ?thesis by (auto simp: tight_def)
qed

theorem certificate_exact_witness:
  "transports demo_transport demo_source demo_target \<and>
   dual_feasible demo_potential demo_source demo_target demo_metric \<and>
   primal_cost demo_transport demo_metric = 1"
  using certificate_exact [OF demo_dicts, of demo_transport demo_potential demo_metric
      "\<lparr>dc_primal = 1, dc_dual = 1\<rparr>"] demo_certified
  by simp

section \<open>The independent verifier\<close>

definition slack :: "dual_potential \<Rightarrow> ground_metric \<Rightarrow> string \<times> string \<Rightarrow> rat" where
  "slack q m e = metric m (fst e) (snd e) - u_of q (fst e) - v_of q (snd e)"

abbreviation all_pairs :: "finite_measure \<Rightarrow> finite_measure \<Rightarrow> (string \<times> string) list" where
  "all_pairs source target \<equiv> List.product (fm_support source) (fm_support target)"

text \<open>Every edge a plan lists, also an unused one, lies in the supports.\<close>

definition listed_within :: "transport_plan \<Rightarrow> finite_measure \<Rightarrow> finite_measure \<Rightarrow> bool" where
  "listed_within p source target \<longleftrightarrow> set (map fst (tp_flow p)) \<subseteq> set (all_pairs source target)"

lemma listed_within_iff:
  "list_all (\<lambda>((x, y), _). x \<in> set (fm_support source) \<and> y \<in> set (fm_support target)) (tp_flow p) \<longleftrightarrow>
     listed_within p source target"
  by (auto simp: listed_within_def list_all_iff split: prod.splits)

lemma verify_marginals_iff:
  "verify_marginals p source target = Inr u \<longleftrightarrow>
     transports p source target \<and> listed_within p source target"
proof -
  have "(\<forall>((x, y), a) \<in> set (tp_flow p). 0 < a \<longrightarrow> x \<in> set (fm_support source) \<and> y \<in> set (fm_support target))"
    if "listed_within p source target"
    using that unfolding listed_within_iff [symmetric] list_all_iff by fastforce
  then show ?thesis
    unfolding verify_marginals_def listed_within_iff transports_def
    by (auto simp: marginals_def bind_res_Inr_iff each_Inr list_ex_iff not_less split: prod.splits)
qed

lemma item_match: "keys_match d ks \<Longrightarrow> k \<in> set ks \<Longrightarrow> item d k = Inr (get_zero d k)"
  by (simp add: keys_match_Some)

lemma largest_slack_eq:
  assumes "keys_match (dp_u q) (fm_support source)" "keys_match (dp_v q) (fm_support target)"
    and "set pairs \<subseteq> set (all_pairs source target)"
  shows "largest_slack q m pairs best =
    (if \<forall>e \<in> set pairs. 0 \<le> slack q m e then Inr (Max (insert best (slack q m ` set pairs)))
     else Inl (independent_refusal ''DUAL_INFEASIBLE''))"
  using assms(3)
proof (induction pairs arbitrary: best)
  case (Cons e pairs)
  obtain x y where e: "e = (x, y)" by (metis surj_pair)
  with Cons.prems have "item (dp_u q) x = Inr (u_of q x)" "item (dp_v q) y = Inr (v_of q y)"
    using assms(1,2) item_match by auto
  then have step: "largest_slack q m (e # pairs) best =
      (if slack q m e < 0 then Inl (independent_refusal ''DUAL_INFEASIBLE'')
       else largest_slack q m pairs (max best (slack q m e)))"
    by (simp add: e Let_def slack_def item_def)
  have most: "Max (insert best (slack q m ` set (e # pairs))) =
      Max (insert (max best (slack q m e)) (slack q m ` set pairs))"
    by (cases "pairs = []") (simp_all add: max.assoc)
  have "set pairs \<subseteq> set (all_pairs source target)" using Cons.prems by simp
  note IH = Cons.IH [OF this, of "max best (slack q m e)"]
  show ?case unfolding step IH most by (simp only: list.set ball_simps not_less [symmetric]) simp
qed simp

lemma reduced_costs_eq:
  assumes "keys_match (dp_u q) (fm_support source)" "keys_match (dp_v q) (fm_support target)"
    and "set pairs \<subseteq> set (all_pairs source target)"
  shows "reduced_costs q m pairs = Inr (map (\<lambda>e. (e, slack q m e)) pairs)"
  using assms(3)
proof (induction pairs)
  case (Cons e pairs)
  obtain x y where e: "e = (x, y)" by (metis surj_pair)
  with Cons.prems have "item (dp_u q) x = Inr (u_of q x)" "item (dp_v q) y = Inr (v_of q y)"
    using assms(1,2) item_match by auto
  with Cons show ?case by (simp add: e slack_def item_def)
qed simp

lemma map_of_slack:
  "map_of (map (\<lambda>e. (e, slack q m e)) pairs) e = (if e \<in> set pairs then Some (slack q m e) else None)"
  by (induction pairs) auto

lemma active_arcs_eq:
  "set (map fst fl) \<subseteq> set pairs \<Longrightarrow>
     active_arcs (map (\<lambda>e. (e, slack q m e)) pairs) fl =
       (if \<forall>(e, a) \<in> set fl. 0 < a \<longrightarrow> slack q m e = 0 then Inr (length (filter (\<lambda>(e, a). 0 < a) fl))
        else Inl (independent_refusal ''COMPLEMENTARITY_VIOLATION''))"
proof (induction fl)
  case (Cons d fl)
  obtain e a where d: "d = (e, a)" by (metis surj_pair)
  with Cons.prems have "map_of (map (\<lambda>e. (e, slack q m e)) pairs) e = Some (slack q m e)"
    "set (map fst fl) \<subseteq> set pairs" by (simp_all add: map_of_slack)
  with Cons.IH d show ?case by simp
qed simp

text \<open>The witness the verifier gives.\<close>

definition witness_of ::
    "transport_plan \<Rightarrow> dual_potential \<Rightarrow> finite_measure \<Rightarrow> finite_measure \<Rightarrow> ground_metric \<Rightarrow>
       independent_witness" where
  "witness_of p q source target m =
     \<lparr>iw_primal = primal_cost p m, iw_dual = primal_cost p m, iw_gap = 0,
      iw_max_slack = Max (insert 0 (slack q m ` set (all_pairs source target))),
      iw_active_arcs = length (filter (\<lambda>(e, a). 0 < a) (tp_flow p))\<rparr>"

lemma dual_feasible_slack:
  "dual_feasible q source target m \<longleftrightarrow>
     keys_match (dp_u q) (fm_support source) \<and> keys_match (dp_v q) (fm_support target) \<and>
     (\<forall>e \<in> set (all_pairs source target). 0 \<le> slack q m e)"
  unfolding dual_feasible_def by (auto simp: slack_def algebra_simps)

lemma verify_transport_eq:
  assumes "is_dict (fm_mass source)" "is_dict (fm_mass target)"
  shows "verify_transport p q source target m = Inr w \<longleftrightarrow>
    tight p q source target m \<and> listed_within p source target \<and> w = witness_of p q source target m"
proof (cases "transports p source target \<and> listed_within p source target \<and> dual_feasible q source target m")
  case True
  then have keys: "keys_match (dp_u q) (fm_support source)" "keys_match (dp_v q) (fm_support target)"
    and listed: "set (map fst (tp_flow p)) \<subseteq> set (all_pairs source target)"
    by (simp_all add: dual_feasible_def listed_within_def)
  have tight: "tight p q source target m \<longleftrightarrow> (\<forall>(e, a) \<in> set (tp_flow p). 0 < a \<longrightarrow> slack q m e = 0)"
  proof -
    have "(\<forall>((x, y), a) \<in> set (tp_flow p). 0 < a \<longrightarrow> u_of q x + v_of q y = metric m x y) \<longleftrightarrow>
        (\<forall>(e, a) \<in> set (tp_flow p). 0 < a \<longrightarrow> slack q m e = 0)"
      by (fastforce simp: slack_def)
    with tight_iff [OF assms, of p q m] True show ?thesis by (simp add: tight_def)
  qed
  have marginals: "verify_marginals p source target = Inr ()" using True verify_marginals_iff by blast
  have feasible: "verify_dual_feasibility q source target m =
      Inr (Max (insert 0 (slack q m ` set (all_pairs source target))))"
    using largest_slack_eq [OF keys order_refl, of m 0] True keys
    by (simp add: verify_dual_feasibility_def dual_feasible_slack del: set_product)
  have run: "verify_transport p q source target m =
      bind_res (active_arcs (map (\<lambda>e. (e, slack q m e)) (all_pairs source target)) (tp_flow p)) (\<lambda>active.
        let gap = primal_cost p m - dual_sum q source target
        in if gap \<noteq> 0 then Inl (independent_refusal ''STRONG_DUALITY_GAP'')
           else Inr \<lparr>iw_primal = primal_cost p m, iw_dual = dual_sum q source target, iw_gap = gap,
             iw_max_slack = Max (insert 0 (slack q m ` set (all_pairs source target))),
             iw_active_arcs = active\<rparr>)"
    unfolding verify_transport_def marginals feasible reduced_costs_eq [OF keys order_refl]
      dual_value_eq [OF keys] by (simp only: bind_res_simps Let_def)
  show ?thesis
  proof (cases "tight p q source target m")
    case True
    then have "primal_cost p m = dual_sum q source target" by (simp add: tight_def)
    moreover have "listed_within p source target" using listed by (simp add: listed_within_def)
    moreover have "active_arcs (map (\<lambda>e. (e, slack q m e)) (all_pairs source target)) (tp_flow p) =
        Inr (length (filter (\<lambda>(e, a). 0 < a) (tp_flow p)))"
      using active_arcs_eq [OF listed, of q m] True unfolding tight by simp
    ultimately show ?thesis using True unfolding run by (auto simp: witness_of_def)
  next
    case False
    then show ?thesis using active_arcs_eq [OF listed, of q m] unfolding run tight by auto
  qed
next
  case False
  have "verify_transport p q source target m \<noteq> Inr w"
  proof
    assume "verify_transport p q source target m = Inr w"
    then obtain s where "verify_marginals p source target = Inr ()"
      and s: "verify_dual_feasibility q source target m = Inr s"
      by (auto simp: verify_transport_def bind_res_Inr_iff)
    then have "transports p source target \<and> listed_within p source target"
      using verify_marginals_iff by blast
    moreover from s have keys: "keys_match (dp_u q) (fm_support source)" "keys_match (dp_v q) (fm_support target)"
      by (auto simp: verify_dual_feasibility_def split: if_splits)
    moreover from s keys largest_slack_eq [OF keys order_refl, of m 0]
    have "\<forall>e \<in> set (all_pairs source target). 0 \<le> slack q m e"
      by (auto simp: verify_dual_feasibility_def split: if_splits)
    ultimately show False using False by (simp add: dual_feasible_slack)
  qed
  with False show ?thesis by (auto simp: tight_def)
qed

text \<open>How the two checkers can fail.\<close>

lemma item_Inl: "item d k = Inl e \<Longrightarrow> e = key_error k"
  by (simp add: item_def split: option.splits)

lemma weighted_sum_Inl: "weighted_sum xs d = Inl e \<Longrightarrow> exn_type e = ''KeyError''"
  by (induction xs d rule: weighted_sum.induct) (auto simp: bind_res_Inl_iff dest: item_Inl)

lemma dual_value_Inl: "dual_value q source target = Inl e \<Longrightarrow> exn_type e = ''KeyError''"
  by (auto simp: dual_value_def bind_res_Inl_iff dest: weighted_sum_Inl)

lemma largest_slack_Inl:
  "largest_slack q m pairs best = Inl e \<Longrightarrow>
     exn_type e = ''KeyError'' \<or> e = independent_refusal ''DUAL_INFEASIBLE''"
  by (induction q m pairs best rule: largest_slack.induct)
    (auto simp: bind_res_Inl_iff Let_def split: if_splits dest: item_Inl)

lemma reduced_costs_Inl: "reduced_costs q m pairs = Inl e \<Longrightarrow> exn_type e = ''KeyError''"
  by (induction q m pairs rule: reduced_costs.induct) (auto simp: bind_res_Inl_iff dest: item_Inl)

lemma active_arcs_Inl:
  "active_arcs slacks fl = Inl e \<Longrightarrow>
     exn_type e = ''KeyError'' \<or> e = independent_refusal ''COMPLEMENTARITY_VIOLATION''"
  by (induction slacks fl rule: active_arcs.induct)
    (auto simp: bind_res_Inl_iff split: if_splits option.splits)

lemma certify_Inl:
  "certify p q source target m = Inl e \<Longrightarrow> exn_type e \<in> {''DualityRefusal'', ''KeyError''}"
  by (auto simp: certify_def plan_admit_def marginals_def potential_admit_def complementary_slackness_def
      bind_res_Inl_iff Let_def split: if_splits dest!: each_Inl with_potentials_Inl dual_value_Inl)

lemma verify_transport_Inl:
  "verify_transport p q source target m = Inl e \<Longrightarrow>
     exn_type e = ''KeyError'' \<or> exn_message e \<noteq> ''VERIFIER_DIVERGENCE''"
  by (auto simp: verify_transport_def verify_marginals_def verify_dual_feasibility_def marginals_def
      bind_res_Inl_iff Let_def split: if_splits
      dest!: each_Inl dual_value_Inl largest_slack_Inl reduced_costs_Inl active_arcs_Inl)

text \<open>C30: the independent verifier accepts exactly what the certificate checker
  accepts, with the same two values, if every edge the plan lists lies in the supports; its
  witness has gap zero, the largest slack over all pairs and the number of used edges. The
  comparison of the two never reports that they diverge, and succeeds exactly when the
  independent verifier does.\<close>

theorem verifiers_agree:
  assumes "is_dict (fm_mass source)" "is_dict (fm_mass target)"
  shows "(verify_transport p q source target m = Inr w \<longleftrightarrow>
      certify p q source target m = Inr \<lparr>dc_primal = primal_cost p m, dc_dual = primal_cost p m\<rparr> \<and>
      listed_within p source target \<and> w = witness_of p q source target m) \<and>
    compare_verifiers p q source target m \<noteq> Inl (independent_refusal ''VERIFIER_DIVERGENCE'') \<and>
    ((\<exists>d. compare_verifiers p q source target m = Inr d) \<longleftrightarrow>
     (\<exists>w. verify_transport p q source target m = Inr w))"
proof -
  have certified: "(\<exists>c. certify p q source target m = Inr c) \<longleftrightarrow> tight p q source target m"
    using certify_InrD checks_tight [OF assms] certify_tight [OF _ assms] by metis
  note verified = verify_transport_eq [OF assms, of p q m]
  have codes: "verify_transport p q source target m \<noteq> Inl (independent_refusal ''VERIFIER_DIVERGENCE'')"
    "certify p q source target m \<noteq> Inl (independent_refusal ''VERIFIER_DIVERGENCE'')"
    using verify_transport_Inl certify_Inl by fastforce+
  show ?thesis
  proof (cases "tight p q source target m")
    case True
    from certify_tight [OF this assms] have c: "certify p q source target m =
        Inr \<lparr>dc_primal = primal_cost p m, dc_dual = primal_cost p m\<rparr>" .
    show ?thesis
    proof (cases "verify_transport p q source target m")
      case (Inl e)
      with c codes verified True show ?thesis by (auto simp: compare_verifiers_def)
    next
      case (Inr w')
      with verified True have "w' = witness_of p q source target m" "listed_within p source target" by auto
      with c Inr show ?thesis by (auto simp: compare_verifiers_def witness_of_def)
    qed
  next
    case False
    with certified obtain e where e: "certify p q source target m = Inl e"
      by (cases "certify p q source target m") auto
    with False verified codes show ?thesis by (auto simp: compare_verifiers_def)
  qed
qed

theorem verifiers_agree_witness:
  "verify_transport demo_transport demo_potential demo_source demo_target demo_metric =
     Inr (witness_of demo_transport demo_potential demo_source demo_target demo_metric)"
  using verifiers_agree [OF demo_dicts, of demo_transport demo_potential demo_metric
      "witness_of demo_transport demo_potential demo_source demo_target demo_metric"] demo_certified
  by (simp add: listed_within_def primal_cost_def demo_transport_eval)

section \<open>Where the checker and its refusals part\<close>

text \<open>
  \<open>TransportPlan.admit\<close> does not look at edges outside the supports: a plan that also moves mass
  between unknown points is admitted, and \<open>certify\<close> then raises \<open>KeyError\<close> instead of refusing.
\<close>

theorem foreign_flow_admitted:
  "let p = demo_transport\<lparr>tp_flow := tp_flow demo_transport @ [((''y'', ''z''), 5)]\<rparr>
   in plan_admit p demo_source demo_target = Inr p \<and>
      certify p demo_potential demo_source demo_target demo_metric = Inl (key_error ''y'')"
  by (simp add: certify_def plan_admit_def marginals_def potential_admit_def ensure_def
      with_potentials_def item_def complementary_slackness_def demo_transport_eval)

text \<open>An unused edge outside the supports is certified by the one and refused by the other.\<close>

theorem unused_foreign_edge_splits_verifiers:
  "let p = demo_transport\<lparr>tp_flow := tp_flow demo_transport @ [((''y'', ''z''), 0)]\<rparr>
   in certify p demo_potential demo_source demo_target demo_metric = Inr \<lparr>dc_primal = 1, dc_dual = 1\<rparr> \<and>
      verify_transport p demo_potential demo_source demo_target demo_metric =
        Inl (independent_refusal ''FLOW_SUPPORT_MISMATCH'')"
  by (simp add: certify_def plan_admit_def marginals_def potential_admit_def ensure_def
      with_potentials_def item_def complementary_slackness_def dual_value_def primal_cost_def
      verify_transport_def verify_marginals_def demo_transport_eval)

end
