(* ===== verification/Transport_Dual_Props.thy ===== *)
theory Transport_Dual_Props
  imports Transport_Dual Transport_Props
begin

text \<open>
  The search of \<open>tight_components.py\<close>: its invariant, and what the components it returns promise.
  Every node has a component and a value, and the values of a used edge add up to its cost.
\<close>

section \<open>The neighbour dictionaries\<close>

definition used :: "((string \<times> string) \<times> rat) list \<Rightarrow> (string \<times> string) set" where
  "used flow = {e. \<exists>a. (e, a) \<in> set flow \<and> 0 < a}"

lemma used_simps [simp]:
  "used [] = {}" "used ((e, a) # flow) = (if 0 < a then insert e (used flow) else used flow)"
  by (auto simp: used_def)

definition neighbors_of :: "neighbors \<Rightarrow> string \<Rightarrow> string set" where
  "neighbors_of ns k = (case map_of ns k of None \<Rightarrow> {} | Some l \<Rightarrow> set l)"

lemma add_neighbors_spec:
  "add_neighbors flow sn tn = Inr (sn', tn') \<Longrightarrow>
     (\<forall>k. map_of sn' k = None \<longleftrightarrow> map_of sn k = None) \<and> (\<forall>k. map_of tn' k = None \<longleftrightarrow> map_of tn k = None) \<and>
     (\<forall>x. neighbors_of sn' x = neighbors_of sn x \<union> {y. (x, y) \<in> used flow}) \<and>
     (\<forall>y. neighbors_of tn' y = neighbors_of tn y \<union> {x. (x, y) \<in> used flow})"
proof (induction flow sn tn rule: add_neighbors.induct)
  case (2 x y amount flow sn tn)
  show ?case
  proof (cases "0 < amount")
    case True
    with "2.prems" obtain ys xs where l: "map_of sn x = Some ys" "map_of tn y = Some xs"
      "add_neighbors flow (dict_set x (ys @ [y]) sn) (dict_set y (xs @ [x]) tn) = Inr (sn', tn')"
      by (auto simp: bind_res_Inr_iff)
    from "2.IH"(1) [OF True l(3)] l(1,2) True show ?thesis
      by (auto simp: neighbors_of_def split: if_splits)
  next
    case False
    with 2 show ?thesis by simp
  qed
qed simp

lemma add_neighbors_returns:
  "\<forall>(x, y) \<in> used flow. map_of sn x \<noteq> None \<and> map_of tn y \<noteq> None \<Longrightarrow>
     \<exists>r. add_neighbors flow sn tn = Inr r"
proof (induction flow sn tn rule: add_neighbors.induct)
  case (2 x y amount flow sn tn)
  show ?case
  proof (cases "0 < amount")
    case True
    with "2.prems" obtain ys xs where l: "map_of sn x = Some ys" "map_of tn y = Some xs" by auto
    have "\<forall>(x', y') \<in> used flow. map_of (dict_set x (ys @ [y]) sn) x' \<noteq> None \<and>
        map_of (dict_set y (xs @ [x]) tn) y' \<noteq> None"
      using "2.prems" True by auto
    from "2.IH"(1) [OF True this] l True show ?thesis by (simp add: item_def)
  next
    case False
    with 2 show ?thesis by simp
  qed
qed simp

section \<open>Visiting the neighbours of a node\<close>

lemma visit_targets_spec:
  "visit_targets m c node ys st queue = Inr (st', queue') \<Longrightarrow> map_of (ss_u st) node = Some a \<Longrightarrow>
     ss_u st' = ss_u st \<and> ss_sc st' = ss_sc st \<and>
     (\<forall>y. map_of (ss_v st') y = (if y \<in> set ys \<and> map_of (ss_v st) y = None
        then Some (metric m node y - a) else map_of (ss_v st) y)) \<and>
     (\<forall>y. map_of (ss_tc st') y = (if y \<in> set ys \<and> map_of (ss_v st) y = None
        then Some c else map_of (ss_tc st) y)) \<and>
     set queue' = set queue \<union> {(Target_side, y) |y. y \<in> set ys \<and> map_of (ss_v st) y = None} \<and>
     (\<forall>y \<in> set ys. map_of (ss_v st) y \<in> {None, Some (metric m node y - a)})"
proof (induction m c node ys st queue rule: visit_targets.induct)
  case (2 m c node y ys st queue)
  then have u: "item (ss_u st) node = Inr a" by simp
  show ?case
  proof (cases "map_of (ss_v st) y")
    case None
    let ?st = "st\<lparr>ss_v := dict_set y (metric m node y - a) (ss_v st), ss_tc := dict_set y c (ss_tc st)\<rparr>"
    have run: "visit_targets m c node ys ?st (queue @ [(Target_side, y)]) = Inr (st', queue')"
      using "2.prems"(1) u None by (simp add: Let_def)
    have "map_of (ss_u ?st) node = Some a" using "2.prems"(2) by simp
    note IH = "2.IH"(1) [OF refl None run this]
    have "map_of (ss_v st') z = (if z \<in> set (y # ys) \<and> map_of (ss_v st) z = None
        then Some (metric m node z - a) else map_of (ss_v st) z)"
      "map_of (ss_tc st') z = (if z \<in> set (y # ys) \<and> map_of (ss_v st) z = None
        then Some c else map_of (ss_tc st) z)"
      "z \<in> set (y # ys) \<Longrightarrow> map_of (ss_v st) z \<in> {None, Some (metric m node z - a)}" for z
      using IH None by (cases "z = y"; auto)+
    moreover have "set queue' = set queue \<union> {(Target_side, z) |z. z \<in> set (y # ys) \<and> map_of (ss_v st) z = None}"
      using IH None by auto
    moreover have "ss_u st' = ss_u st" "ss_sc st' = ss_sc st" using IH by simp_all
    ultimately show ?thesis by blast
  next
    case (Some known)
    with "2.prems"(1) u have known: "\<not> known \<noteq> metric m node y - a"
      and run: "visit_targets m c node ys st queue = Inr (st', queue')"
      by (auto simp: Let_def split: if_splits)
    from "2.IH"(2) [OF refl Some known run "2.prems"(2)] Some known show ?thesis by auto
  qed
qed simp

lemma visit_sources_spec:
  "visit_sources m c node xs st queue = Inr (st', queue') \<Longrightarrow> map_of (ss_v st) node = Some b \<Longrightarrow>
     ss_v st' = ss_v st \<and> ss_tc st' = ss_tc st \<and>
     (\<forall>x. map_of (ss_u st') x = (if x \<in> set xs \<and> map_of (ss_u st) x = None
        then Some (metric m x node - b) else map_of (ss_u st) x)) \<and>
     (\<forall>x. map_of (ss_sc st') x = (if x \<in> set xs \<and> map_of (ss_u st) x = None
        then Some c else map_of (ss_sc st) x)) \<and>
     set queue' = set queue \<union> {(Source_side, x) |x. x \<in> set xs \<and> map_of (ss_u st) x = None} \<and>
     (\<forall>x \<in> set xs. map_of (ss_u st) x \<in> {None, Some (metric m x node - b)})"
proof (induction m c node xs st queue rule: visit_sources.induct)
  case (2 m c node x xs st queue)
  then have v: "item (ss_v st) node = Inr b" by simp
  show ?case
  proof (cases "map_of (ss_u st) x")
    case None
    let ?st = "st\<lparr>ss_u := dict_set x (metric m x node - b) (ss_u st), ss_sc := dict_set x c (ss_sc st)\<rparr>"
    have run: "visit_sources m c node xs ?st (queue @ [(Source_side, x)]) = Inr (st', queue')"
      using "2.prems"(1) v None by (simp add: Let_def)
    have "map_of (ss_v ?st) node = Some b" using "2.prems"(2) by simp
    note IH = "2.IH"(1) [OF refl None run this]
    have "map_of (ss_u st') z = (if z \<in> set (x # xs) \<and> map_of (ss_u st) z = None
        then Some (metric m z node - b) else map_of (ss_u st) z)"
      "map_of (ss_sc st') z = (if z \<in> set (x # xs) \<and> map_of (ss_u st) z = None
        then Some c else map_of (ss_sc st) z)"
      "z \<in> set (x # xs) \<Longrightarrow> map_of (ss_u st) z \<in> {None, Some (metric m z node - b)}" for z
      using IH None by (cases "z = x"; auto)+
    moreover have "set queue' = set queue \<union> {(Source_side, z) |z. z \<in> set (x # xs) \<and> map_of (ss_u st) z = None}"
      using IH None by auto
    moreover have "ss_v st' = ss_v st" "ss_tc st' = ss_tc st" using IH by simp_all
    ultimately show ?thesis by blast
  next
    case (Some known)
    with "2.prems"(1) v have known: "\<not> known \<noteq> metric m x node - b"
      and run: "visit_sources m c node xs st queue = Inr (st', queue')"
      by (auto simp: Let_def split: if_splits)
    from "2.IH"(2) [OF refl Some known run "2.prems"(2)] Some known show ?thesis by auto
  qed
qed simp

section \<open>The invariant of the search\<close>

text \<open>Both ends of an edge have their value, the edge is tight, the component is the same.\<close>

definition fits :: "ground_metric \<Rightarrow> search_state \<Rightarrow> string \<Rightarrow> string \<Rightarrow> bool" where
  "fits m st x y \<longleftrightarrow>
     (\<exists>a b k. map_of (ss_u st) x = Some a \<and> map_of (ss_v st) y = Some b \<and> a + b = metric m x y \<and>
        map_of (ss_sc st) x = Some k \<and> map_of (ss_tc st) y = Some k)"

definition search_inv ::
    "ground_metric \<Rightarrow> nat \<Rightarrow> (string \<times> string) set \<Rightarrow> (side \<times> string) list \<Rightarrow> search_state \<Rightarrow> bool" where
  "search_inv m c edges queue st \<longleftrightarrow>
     (\<forall>x. map_of (ss_u st) x = None \<longleftrightarrow> map_of (ss_sc st) x = None) \<and>
     (\<forall>y. map_of (ss_v st) y = None \<longleftrightarrow> map_of (ss_tc st) y = None) \<and>
     (\<forall>x. (Source_side, x) \<in> set queue \<longrightarrow> map_of (ss_sc st) x = Some c) \<and>
     (\<forall>y. (Target_side, y) \<in> set queue \<longrightarrow> map_of (ss_tc st) y = Some c) \<and>
     (\<forall>x y. (x, y) \<in> edges \<longrightarrow> map_of (ss_u st) x \<noteq> None \<longrightarrow> (Source_side, x) \<notin> set queue \<longrightarrow> fits m st x y) \<and>
     (\<forall>x y. (x, y) \<in> edges \<longrightarrow> map_of (ss_v st) y \<noteq> None \<longrightarrow> (Target_side, y) \<notin> set queue \<longrightarrow> fits m st x y) \<and>
     (\<forall>x k. map_of (ss_sc st) x = Some k \<longrightarrow> k \<le> c) \<and> (\<forall>y k. map_of (ss_tc st) y = Some k \<longrightarrow> k \<le> c)"

lemma search_inv_source:
  assumes inv: "search_inv m c edges ((Source_side, node) # queue) st"
    and visit: "visit_targets m c node ys st queue = Inr (st', queue')"
    and ys: "set ys = {y. (node, y) \<in> edges}"
  shows "search_inv m c edges queue' st'"
proof -
  from inv have sc: "map_of (ss_sc st) node = Some c" by (auto simp: search_inv_def)
  with inv obtain a where a: "map_of (ss_u st) node = Some a"
    unfolding search_inv_def by (metis not_None_eq)
  note spec = visit_targets_spec [OF visit a]
  have keeps: "fits m st' x y" if "fits m st x y" for x y
    using that spec unfolding fits_def by auto
  have node: "fits m st' node y" if "(node, y) \<in> edges" for y
  proof (cases "map_of (ss_v st) y")
    case None
    with that ys spec a sc show ?thesis by (auto simp: fits_def)
  next
    case (Some b)
    with that ys spec have b: "b = metric m node y - a" by auto
    have "map_of (ss_tc st) y = Some c"
    proof (cases "(Target_side, y) \<in> set queue")
      case True
      with inv show ?thesis by (simp add: search_inv_def)
    next
      case False
      with inv that Some have "fits m st node y" by (simp add: search_inv_def)
      with sc show ?thesis by (auto simp: fits_def)
    qed
    with Some b spec a sc show ?thesis by (auto simp: fits_def)
  qed
  show ?thesis
    unfolding search_inv_def
  proof (intro conjI allI impI)
    fix x y
    assume e: "(x, y) \<in> edges"
    show "fits m st' x y" if "map_of (ss_u st') x \<noteq> None" "(Source_side, x) \<notin> set queue'"
      using that e node keeps inv spec by (cases "x = node") (auto simp: search_inv_def)
    show "fits m st' x y" if "map_of (ss_v st') y \<noteq> None" "(Target_side, y) \<notin> set queue'"
      using that e keeps inv spec by (auto simp: search_inv_def split: if_splits)
  qed (use inv spec in \<open>auto simp: search_inv_def split: if_splits\<close>)
qed

lemma search_inv_target:
  assumes inv: "search_inv m c edges ((Target_side, node) # queue) st"
    and visit: "visit_sources m c node xs st queue = Inr (st', queue')"
    and xs: "set xs = {x. (x, node) \<in> edges}"
  shows "search_inv m c edges queue' st'"
proof -
  from inv have tc: "map_of (ss_tc st) node = Some c" by (auto simp: search_inv_def)
  with inv obtain b where b: "map_of (ss_v st) node = Some b"
    unfolding search_inv_def by (metis not_None_eq)
  note spec = visit_sources_spec [OF visit b]
  have keeps: "fits m st' x y" if "fits m st x y" for x y
    using that spec unfolding fits_def by auto
  have node: "fits m st' x node" if "(x, node) \<in> edges" for x
  proof (cases "map_of (ss_u st) x")
    case None
    with that xs spec b tc show ?thesis by (auto simp: fits_def)
  next
    case (Some a)
    with that xs spec have a: "a = metric m x node - b" by auto
    have "map_of (ss_sc st) x = Some c"
    proof (cases "(Source_side, x) \<in> set queue")
      case True
      with inv show ?thesis by (simp add: search_inv_def)
    next
      case False
      with inv that Some have "fits m st x node" by (simp add: search_inv_def)
      with tc show ?thesis by (auto simp: fits_def)
    qed
    with Some a spec b tc show ?thesis by (auto simp: fits_def)
  qed
  show ?thesis
    unfolding search_inv_def
  proof (intro conjI allI impI)
    fix x y
    assume e: "(x, y) \<in> edges"
    show "fits m st' x y" if "map_of (ss_v st') y \<noteq> None" "(Target_side, y) \<notin> set queue'"
      using that e node keeps inv spec by (cases "y = node") (auto simp: search_inv_def)
    show "fits m st' x y" if "map_of (ss_u st') x \<noteq> None" "(Source_side, x) \<notin> set queue'"
      using that e keeps inv spec by (auto simp: search_inv_def split: if_splits)
  qed (use inv spec in \<open>auto simp: search_inv_def split: if_splits\<close>)
qed

text \<open>The dictionaries list the neighbours in the edges.\<close>

definition lists_edges :: "neighbors \<Rightarrow> neighbors \<Rightarrow> (string \<times> string) set \<Rightarrow> bool" where
  "lists_edges sn tn edges \<longleftrightarrow>
     (\<forall>x. neighbors_of sn x = {y. (x, y) \<in> edges}) \<and> (\<forall>y. neighbors_of tn y = {x. (x, y) \<in> edges})"

lemma item_neighbors_of: "item ns k = Inr l \<Longrightarrow> set l = neighbors_of ns k"
  by (simp add: neighbors_of_def)

lemma item_edges:
  assumes "lists_edges sn tn edges"
  shows "item sn x = Inr ys \<Longrightarrow> set ys = {y. (x, y) \<in> edges}"
    and "item tn y = Inr xs \<Longrightarrow> set xs = {x. (x, y) \<in> edges}"
  using assms item_neighbors_of unfolding lists_edges_def by metis+

lemma search_keeps_inv:
  "search m c sn tn queue st = Inr st' \<Longrightarrow> lists_edges sn tn edges \<Longrightarrow> search_inv m c edges queue st \<Longrightarrow>
     search_inv m c edges [] st'"
proof (induction m c sn tn queue st rule: search.induct)
  case (2 m c sn tn node queue st)
  then obtain ys st1 queue1 where step: "item sn node = Inr ys"
    "visit_targets m c node ys st queue = Inr (st1, queue1)" "search m c sn tn queue1 st1 = Inr st'"
    by (auto split: sum.splits)
  from search_inv_source [OF "2.prems"(3) step(2) item_edges(1) [OF "2.prems"(2) step(1)]]
  show ?case using "2.IH" step "2.prems"(2) by simp
next
  case (3 m c sn tn node queue st)
  then obtain xs st1 queue1 where step: "item tn node = Inr xs"
    "visit_sources m c node xs st queue = Inr (st1, queue1)" "search m c sn tn queue1 st1 = Inr st'"
    by (auto split: sum.splits)
  from search_inv_target [OF "3.prems"(3) step(2) item_edges(2) [OF "3.prems"(2) step(1)]]
  show ?case using "3.IH" step "3.prems"(2) by simp
qed simp

text \<open>The search only adds values.\<close>

lemma search_keeps:
  "search m c sn tn queue st = Inr st' \<Longrightarrow> search_inv m c edges queue st \<Longrightarrow> lists_edges sn tn edges \<Longrightarrow>
     map_of (ss_sc st) \<subseteq>\<^sub>m map_of (ss_sc st')"
proof (induction m c sn tn queue st rule: search.induct)
  case (2 m c sn tn node queue st)
  then obtain ys st1 queue1 where step: "item sn node = Inr ys"
    "visit_targets m c node ys st queue = Inr (st1, queue1)" "search m c sn tn queue1 st1 = Inr st'"
    by (auto split: sum.splits)
  from "2.prems"(2) obtain a where "map_of (ss_u st) node = Some a"
    unfolding search_inv_def by (metis list.set_intros(1) not_None_eq)
  from visit_targets_spec [OF step(2) this] have "ss_sc st1 = ss_sc st" by simp
  moreover note inv = search_inv_source [OF "2.prems"(2) step(2) item_edges(1) [OF "2.prems"(3) step(1)]]
  note "2.IH" [OF step(1,2) refl step(3) inv "2.prems"(3)]
  ultimately show ?case by simp
next
  case (3 m c sn tn node queue st)
  then obtain xs st1 queue1 where step: "item tn node = Inr xs"
    "visit_sources m c node xs st queue = Inr (st1, queue1)" "search m c sn tn queue1 st1 = Inr st'"
    by (auto split: sum.splits)
  from "3.prems"(2) obtain b where "map_of (ss_v st) node = Some b"
    unfolding search_inv_def by (metis list.set_intros(1) not_None_eq)
  from visit_sources_spec [OF step(2) this] "3.prems"(2)
  have "map_of (ss_sc st) \<subseteq>\<^sub>m map_of (ss_sc st1)"
    by (auto simp: map_le_def search_inv_def)
  moreover note inv = search_inv_target [OF "3.prems"(2) step(2) item_edges(2) [OF "3.prems"(3) step(1)]]
  note "3.IH" [OF step(1,2) refl step(3) inv "3.prems"(3)]
  ultimately show ?case by (rule map_le_trans)
qed simp

text \<open>Between two searches: every edge with a node that has a value fits.\<close>

definition search_done :: "ground_metric \<Rightarrow> nat \<Rightarrow> (string \<times> string) set \<Rightarrow> search_state \<Rightarrow> bool" where
  "search_done m c edges st \<longleftrightarrow>
     (\<forall>x. map_of (ss_u st) x = None \<longleftrightarrow> map_of (ss_sc st) x = None) \<and>
     (\<forall>y. map_of (ss_v st) y = None \<longleftrightarrow> map_of (ss_tc st) y = None) \<and>
     (\<forall>x y. (x, y) \<in> edges \<longrightarrow> map_of (ss_sc st) x \<noteq> None \<or> map_of (ss_tc st) y \<noteq> None \<longrightarrow> fits m st x y) \<and>
     (\<forall>x k. map_of (ss_sc st) x = Some k \<longrightarrow> k < c) \<and> (\<forall>y k. map_of (ss_tc st) y = Some k \<longrightarrow> k < c)"

lemma search_done_empty [simp]: "search_done m c edges \<lparr>ss_sc = [], ss_tc = [], ss_u = [], ss_v = []\<rparr>"
  by (simp add: search_done_def)

lemma search_done_inv:
  assumes "search_inv m c edges [] st"
  shows "search_done m (Suc c) edges st"
proof -
  have "fits m st x y" if "(x, y) \<in> edges" "map_of (ss_sc st) x \<noteq> None \<or> map_of (ss_tc st) y \<noteq> None" for x y
    using assms that unfolding search_inv_def by (metis empty_iff empty_set)
  then show ?thesis using assms by (auto simp: search_done_def search_inv_def less_Suc_eq_le)
qed

lemma search_inv_root:
  assumes "search_done m c edges st" "map_of (ss_sc st) r = None"
  shows "search_inv m c edges [(Source_side, r)]
    (st\<lparr>ss_u := dict_set r 0 (ss_u st), ss_sc := dict_set r c (ss_sc st)\<rparr>)"
proof -
  let ?st = "st\<lparr>ss_u := dict_set r 0 (ss_u st), ss_sc := dict_set r c (ss_sc st)\<rparr>"
  have fits: "fits m ?st x y" if "(x, y) \<in> edges" "map_of (ss_sc st) x \<noteq> None \<or> map_of (ss_tc st) y \<noteq> None" for x y
  proof -
    from assms(1) that have "fits m st x y" unfolding search_done_def by metis
    with assms show ?thesis by (auto simp: fits_def search_done_def)
  qed
  have sc: "map_of (ss_u st) x = None \<longleftrightarrow> map_of (ss_sc st) x = None"
    "map_of (ss_v st) y = None \<longleftrightarrow> map_of (ss_tc st) y = None" for x y
    using assms(1) unfolding search_done_def by metis+
  show ?thesis
    unfolding search_inv_def
  proof (intro conjI allI impI)
    fix x y
    assume e: "(x, y) \<in> edges"
    show "fits m ?st x y" if "map_of (ss_u ?st) x \<noteq> None" "(Source_side, x) \<notin> set [(Source_side, r)]"
      using that sc(1) [of x] by (intro fits [OF e]) auto
    show "fits m ?st x y" if "map_of (ss_v ?st) y \<noteq> None" "(Target_side, y) \<notin> set [(Source_side, r)]"
      using that sc(2) [of y] by (intro fits [OF e]) auto
  qed (use sc assms in \<open>auto simp: search_done_def less_imp_le split: if_splits\<close>)
qed

text \<open>After the roots: every root has a component, and the search is done.\<close>

lemma search_roots_done:
  "search_roots m sn tn roots c st = Inr (c', st') \<Longrightarrow> lists_edges sn tn edges \<Longrightarrow>
     search_done m c edges st \<Longrightarrow>
     search_done m c' edges st' \<and> (\<forall>r \<in> set roots. map_of (ss_sc st') r \<noteq> None) \<and>
     map_of (ss_sc st) \<subseteq>\<^sub>m map_of (ss_sc st')"
proof (induction m sn tn roots c st rule: search_roots.induct)
  case (2 m sn tn r roots c st)
  show ?case
  proof (cases "map_of (ss_sc st) r")
    case None
    let ?st = "st\<lparr>ss_u := dict_set r 0 (ss_u st), ss_sc := dict_set r c (ss_sc st)\<rparr>"
    from "2.prems"(1) None obtain st1 where
      run: "search m c sn tn [(Source_side, r)] ?st = Inr st1"
      and rest: "search_roots m sn tn roots (Suc c) st1 = Inr (c', st')"
      by (auto simp: bind_res_Inr_iff)
    note inv = search_inv_root [OF "2.prems"(3) None]
    note keeps = search_keeps [OF run inv "2.prems"(2)]
    have "\<not> map_of (ss_sc st) r \<noteq> None" using None by simp
    note IH = "2.IH"(2) [OF this rest "2.prems"(2) search_done_inv [OF search_keeps_inv [OF run "2.prems"(2) inv]]]
    have old: "map_of (ss_sc st) \<subseteq>\<^sub>m map_of (ss_sc ?st)" using None by (auto simp: map_le_def)
    have "map_of (ss_sc st1) r = Some c" using keeps by (auto simp: map_le_def)
    then have "map_of (ss_sc st') r = Some c" using IH unfolding map_le_def by (metis domI)
    moreover have "map_of (ss_sc st) \<subseteq>\<^sub>m map_of (ss_sc st')"
      using old keeps IH map_le_trans by blast
    ultimately show ?thesis using IH by auto
  next
    case (Some k)
    from "2.prems"(1) Some have "search_roots m sn tn roots c st = Inr (c', st')" by simp
    note IH = "2.IH"(1) [OF _ this "2.prems"(2,3)]
    then have "map_of (ss_sc st') r = Some k" using Some unfolding map_le_def by (metis domI option.distinct(1))
    with IH Some show ?thesis by simp
  qed
qed simp

section \<open>The derived components\<close>

lemma isolated_node:
  assumes "search_done m c edges st" "\<forall>x y. (x, y) \<in> edges \<longrightarrow> fits m st x y" "map_of (ss_tc st) y = None"
  defines "st' \<equiv> st\<lparr>ss_tc := dict_set y c (ss_tc st), ss_v := dict_set y 0 (ss_v st)\<rparr>"
  shows "search_done m (Suc c) edges st'" "\<forall>x y. (x, y) \<in> edges \<longrightarrow> fits m st' x y"
proof -
  have fits: "fits m st' x z" if "(x, z) \<in> edges" for x z
  proof -
    from assms(2) that have "fits m st x z" by blast
    moreover from this assms(3) have "z \<noteq> y" by (auto simp: fits_def)
    ultimately show ?thesis by (simp add: fits_def st'_def)
  qed
  then show "\<forall>x y. (x, y) \<in> edges \<longrightarrow> fits m st' x y" by blast
  from assms(1) fits show "search_done m (Suc c) edges st'"
    unfolding search_done_def by (auto simp: st'_def less_Suc_eq)
qed

lemma add_isolated_done:
  "add_isolated ys c st = (c', st') \<Longrightarrow> search_done m c edges st \<Longrightarrow> \<forall>x y. (x, y) \<in> edges \<longrightarrow> fits m st x y \<Longrightarrow>
     search_done m c' edges st' \<and> (\<forall>x y. (x, y) \<in> edges \<longrightarrow> fits m st' x y) \<and>
     (\<forall>y \<in> set ys. map_of (ss_tc st') y \<noteq> None) \<and> ss_sc st' = ss_sc st \<and>
     map_of (ss_tc st) \<subseteq>\<^sub>m map_of (ss_tc st')"
proof (induction ys c st rule: add_isolated.induct)
  case (2 y ys c st)
  show ?case
  proof (cases "map_of (ss_tc st) y")
    case None
    let ?st = "st\<lparr>ss_tc := dict_set y c (ss_tc st), ss_v := dict_set y 0 (ss_v st)\<rparr>"
    have run: "add_isolated ys (Suc c) ?st = (c', st')" using "2.prems"(1) None by simp
    note IH = "2.IH"(2) [OF _ run isolated_node [OF "2.prems"(2,3) None]]
    have old: "map_of (ss_tc st) \<subseteq>\<^sub>m map_of (ss_tc ?st)" using None by (auto simp: map_le_def)
    have "map_of (ss_tc ?st) y = Some c" by simp
    then have "map_of (ss_tc st') y = Some c" using IH None unfolding map_le_def by (metis domI)
    with IH None map_le_trans [OF old] show ?thesis by (simp add: fun_upd_def)
  next
    case (Some k)
    from "2.prems"(1) Some have "add_isolated ys c st = (c', st')" by simp
    note IH = "2.IH"(1) [OF _ this "2.prems"(2,3)]
    then have "map_of (ss_tc st') y = Some k" using Some unfolding map_le_def by (metis domI option.distinct(1))
    with IH Some show ?thesis by simp
  qed
qed (simp add: search_done_def)

text \<open>What the components are used for.\<close>

definition tight_base :: "ground_metric \<Rightarrow> tight_components \<Rightarrow> string \<Rightarrow> string \<Rightarrow> bool" where
  "tight_base m c x y \<longleftrightarrow>
     (\<exists>a b k. map_of (tc_base_u c) x = Some a \<and> map_of (tc_base_v c) y = Some b \<and> a + b = metric m x y \<and>
        map_of (tc_source_component c) x = Some k \<and> map_of (tc_target_component c) y = Some k)"

definition covers :: "tight_components \<Rightarrow> string list \<Rightarrow> string list \<Rightarrow> bool" where
  "covers c xs ys \<longleftrightarrow>
     (\<forall>x \<in> set xs. (\<exists>a. map_of (tc_base_u c) x = Some a) \<and>
        (\<exists>k < tc_count c. map_of (tc_source_component c) x = Some k)) \<and>
     (\<forall>y \<in> set ys. (\<exists>b. map_of (tc_base_v c) y = Some b) \<and>
        (\<exists>k < tc_count c. map_of (tc_target_component c) y = Some k))"

lemma neighbors_empty: "neighbors_of (map (\<lambda>x. (x, [])) xs) k = {}"
  by (induction xs) (auto simp: neighbors_of_def split: if_splits option.splits)

lemma derived_components:
  assumes "derive_tight_components p xs ys m = Inr c" "used (tp_flow p) \<subseteq> set xs \<times> set ys"
  shows "covers c xs ys \<and> (\<forall>x y. (x, y) \<in> used (tp_flow p) \<longrightarrow> tight_base m c x y)"
proof -
  from assms(1) obtain sn tn k st where
    nb: "add_neighbors (tp_flow p) (map (\<lambda>x. (x, [])) xs) (map (\<lambda>y. (y, [])) ys) = Inr (sn, tn)" and
    roots: "search_roots m sn tn (sort xs) 0 \<lparr>ss_sc = [], ss_tc = [], ss_u = [], ss_v = []\<rparr> = Inr (k, st)"
    by (auto simp: derive_tight_components_def bind_res_Inr_iff)
  obtain k' st' where iso: "add_isolated (sort ys) k st = (k', st')" by (metis surj_pair)
  have c: "c = \<lparr>tc_source_component = ss_sc st', tc_target_component = ss_tc st', tc_base_u = ss_u st',
      tc_base_v = ss_v st', tc_count = k'\<rparr>"
    using assms(1) nb roots iso by (simp add: derive_tight_components_def)
  have "lists_edges sn tn (used (tp_flow p))"
    using add_neighbors_spec [OF nb] by (simp add: lists_edges_def neighbors_empty)
  note roots_done = search_roots_done [OF roots this search_done_empty]
  have "fits m st x y" if "(x, y) \<in> used (tp_flow p)" for x y
  proof -
    have "x \<in> set (sort xs)" using that assms(2) by auto
    with roots_done have "map_of (ss_sc st) x \<noteq> None" by blast
    with roots_done that show ?thesis unfolding search_done_def by blast
  qed
  note final = add_isolated_done [OF iso roots_done [THEN conjunct1], rule_format, OF this]
  have sources: "\<exists>a k. map_of (ss_u st') x = Some a \<and> map_of (ss_sc st') x = Some k \<and> k < k'" if "x \<in> set xs" for x
    using final roots_done that unfolding search_done_def by (metis not_None_eq set_sort)
  have targets: "\<exists>b k. map_of (ss_v st') y = Some b \<and> map_of (ss_tc st') y = Some k \<and> k < k'" if "y \<in> set ys" for y
    using final that unfolding search_done_def by (metis not_None_eq set_sort)
  have "covers c xs ys"
    using sources targets by (fastforce simp: covers_def c)
  moreover have "tight_base m c x y" if "(x, y) \<in> used (tp_flow p)" for x y
  proof -
    from final that have "fits m st' x y" by blast
    then show ?thesis by (simp add: tight_base_def c fits_def)
  qed
  ultimately show ?thesis by blast
qed

end
