(* ===== verification/Transport_Offsets.thy ===== *)
theory Transport_Offsets
  imports Transport_Dual
begin

text \<open>
  Bellman and Ford's relaxation in \<open>component_offsets.py\<close>: if the bounds between the components
  have a solution, the relaxation finds one within its rounds and is never refused.
\<close>

section \<open>Chains of edges\<close>

fun chain :: "nat \<Rightarrow> offset_edge list \<Rightarrow> nat \<Rightarrow> bool" where
  "chain a [] b \<longleftrightarrow> a = b"
| "chain a ((origin, destination, weight) # es) b \<longleftrightarrow> origin = a \<and> chain destination es b"

definition weight_of :: "offset_edge list \<Rightarrow> rat" where
  "weight_of es = sum_list (map (\<lambda>(origin, destination, weight). weight) es)"

lemma weight_of_simps [simp]:
  "weight_of [] = 0" "weight_of ((a, b, w) # es) = w + weight_of es"
  "weight_of (es @ fs) = weight_of es + weight_of fs"
  by (simp_all add: weight_of_def)

lemma chain_append: "chain a (es @ fs) b \<longleftrightarrow> (\<exists>c. chain a es c \<and> chain c fs b)"
  by (induction a es b rule: chain.induct) auto

text \<open>A chain split after its first edges, at the node reached there.\<close>

definition nodes_of :: "nat \<Rightarrow> offset_edge list \<Rightarrow> nat list" where
  "nodes_of a es = a # map (\<lambda>(origin, destination, weight). destination) es"

lemma chain_split:
  "chain a es b \<Longrightarrow> i \<le> length es \<Longrightarrow>
     chain a (take i es) (nodes_of a es ! i) \<and> chain (nodes_of a es ! i) (drop i es) b"
proof (induction a es b arbitrary: i rule: chain.induct)
  case (2 a x y w es b)
  show ?case
  proof (cases i)
    case 0
    with 2 show ?thesis by (simp add: nodes_of_def)
  next
    case (Suc j)
    with "2.prems" "2.IH" [of j] show ?thesis by (simp add: nodes_of_def)
  qed
qed (simp add: nodes_of_def)

text \<open>A solution of the bounds: its differences bound the weight of a chain.\<close>

definition solves :: "(nat \<Rightarrow> rat) \<Rightarrow> offset_edge list \<Rightarrow> bool" where
  "solves t es \<longleftrightarrow> (\<forall>(origin, destination, weight) \<in> set es. t destination \<le> t origin + weight)"

lemma solves_chain:
  "chain a fs b \<Longrightarrow> set fs \<subseteq> set es \<Longrightarrow> solves t es \<Longrightarrow> t b \<le> t a + weight_of fs"
proof (induction a fs b rule: chain.induct)
  case (2 a x y w fs b)
  then have "t b \<le> t y + weight_of fs" "t y \<le> t x + w" by (auto simp: solves_def)
  with "2.prems"(1) show ?case by simp
qed simp

definition ends_below :: "nat \<Rightarrow> offset_edge list \<Rightarrow> bool" where
  "ends_below n es \<longleftrightarrow> (\<forall>(origin, destination, weight) \<in> set es. origin < n \<and> destination < n)"

text \<open>A cycle has no negative weight, so a chain can be shortened to fewer edges than nodes.\<close>

lemma short_chain:
  assumes "solves t es" "ends_below n es"
  shows "chain a fs b \<Longrightarrow> set fs \<subseteq> set es \<Longrightarrow> a < n \<Longrightarrow>
     \<exists>gs. chain a gs b \<and> set gs \<subseteq> set es \<and> length gs < n \<and> weight_of gs \<le> weight_of fs"
proof (induction fs rule: length_induct)
  case (1 fs)
  show ?case
  proof (cases "length fs < n")
    case True
    with "1.prems" show ?thesis by blast
  next
    case False
    have "set (nodes_of a fs) \<subseteq> {..<n}"
      using assms(2) "1.prems"(2,3) unfolding nodes_of_def ends_below_def by fastforce
    then have "card (set (nodes_of a fs)) \<le> n" using card_mono [of "{..<n}"] by fastforce
    then have "\<not> distinct (nodes_of a fs)"
      using False distinct_card [of "nodes_of a fs"] by (auto simp: nodes_of_def)
    then obtain i j where ij: "i < j" "j < length (nodes_of a fs)" "nodes_of a fs ! i = nodes_of a fs ! j"
      unfolding distinct_conv_nth by (metis nat_neq_iff)
    then have j: "j \<le> length fs" by (simp add: nodes_of_def)
    let ?c = "nodes_of a fs ! i" and ?es = "take i fs" and ?cycle = "take (j - i) (drop i fs)" and ?fs = "drop j fs"
    have parts: "fs = ?es @ ?cycle @ ?fs"
      using ij(1) by (metis append_take_drop_id drop_drop le_add_diff_inverse2 less_imp_le)
    have left: "chain a ?es ?c" using chain_split [OF "1.prems"(1), of i] ij j by simp
    have right: "chain ?c ?fs b" using chain_split [OF "1.prems"(1) j] ij(3) by simp
    have "chain a (take j fs) ?c" using chain_split [OF "1.prems"(1) j] ij(3) by simp
    then have cycle: "chain ?c ?cycle ?c"
      using chain_split [of a "take j fs" ?c i] ij j
      by (simp add: nodes_of_def drop_take nth_Cons split: nat.splits)
    have "set ?cycle \<subseteq> set es"
      using "1.prems"(2) by (meson in_set_dropD in_set_takeD subset_code(1))
    from solves_chain [OF cycle this assms(1)] have "0 \<le> weight_of ?cycle" by simp
    then have weight: "weight_of (?es @ ?fs) \<le> weight_of fs"
      by (subst (3) parts) simp
    have "length (?es @ ?fs) < length fs" using ij(1) j by simp
    moreover have "chain a (?es @ ?fs) b" using left right chain_append by blast
    moreover have "set (?es @ ?fs) \<subseteq> set es"
      using "1.prems"(2) set_take_subset set_drop_subset by fastforce
    ultimately obtain gs where "chain a gs b \<and> set gs \<subseteq> set es \<and> length gs < n \<and> weight_of gs \<le> weight_of (?es @ ?fs)"
      using "1.IH" "1.prems"(3) by blast
    with weight show ?thesis using order_trans by blast
  qed
qed

section \<open>One pass\<close>

lemma relax_edges_mono:
  "relax_edges es d changed = (d', changed') \<Longrightarrow>
     length d' = length d \<and> (\<forall>v < length d. d' ! v \<le> d ! v) \<and> (changed \<longrightarrow> changed')"
proof (induction es d changed rule: relax_edges.induct)
  case (2 origin destination weight es d changed)
  let ?c = "d ! origin + weight"
  show ?case
  proof (cases "?c < d ! destination")
    case True
    with "2.prems" have run: "relax_edges es (d[destination := ?c]) True = (d', changed')" by (simp add: Let_def)
    from "2.IH"(1) [OF refl True run] True
    have "length d' = length d" "changed'" "\<forall>v < length d. d' ! v \<le> d[destination := ?c] ! v" by simp_all
    moreover have "d[destination := ?c] ! v \<le> d ! v" if "v < length d" for v
      using True that by (cases "v = destination") simp_all
    ultimately show ?thesis by (meson order_trans)
  next
    case False
    with "2.prems" have "relax_edges es d changed = (d', changed')" by (simp add: Let_def)
    with "2.IH"(2) [OF refl False] show ?thesis by simp
  qed
qed simp

lemma relax_edges_edge:
  "relax_edges es d changed = (d', changed') \<Longrightarrow> ends_below (length d) es \<Longrightarrow>
     \<forall>(a, b, w) \<in> set es. d' ! b \<le> d ! a + w"
proof (induction es d changed rule: relax_edges.induct)
  case (2 origin destination weight es d changed)
  let ?c = "d ! origin + weight"
  from "2.prems"(2) have ends: "origin < length d" "destination < length d" "ends_below (length d) es"
    by (auto simp: ends_below_def)
  show ?case
  proof (cases "?c < d ! destination")
    case True
    let ?d = "d[destination := ?c]"
    from True "2.prems" have run: "relax_edges es ?d True = (d', changed')" by (simp add: Let_def)
    have "?d ! v \<le> d ! v" if "v < length d" for v
      using True that by (cases "v = destination") simp_all
    moreover have "\<forall>(a, b, w) \<in> set es. d' ! b \<le> ?d ! a + w"
      using "2.IH"(1) [OF refl True run] ends(3) by simp
    moreover have "d' ! destination \<le> ?c"
      using relax_edges_mono [OF run] ends(2) by (metis length_list_update nth_list_update_eq)
    ultimately show ?thesis using ends(3) unfolding ends_below_def by fastforce
  next
    case False
    with "2.prems" have run: "relax_edges es d changed = (d', changed')" by (simp add: Let_def)
    have "d' ! destination \<le> d ! destination" using relax_edges_mono [OF run] ends(2) by blast
    with False "2.IH"(2) [OF refl False run ends(3)] show ?thesis by auto
  qed
qed simp

text \<open>A pass that changes nothing found every bound satisfied.\<close>

lemma relax_edges_stable:
  "relax_edges es d False = (d', False) \<Longrightarrow> d' = d"
proof (induction es)
  case (Cons e es)
  obtain a b w where e: "e = (a, b, w)" by (metis prod_cases3)
  show ?case
  proof (cases "d ! a + w < d ! b")
    case True
    with Cons.prems e have "relax_edges es (d[b := d ! a + w]) True = (d', False)" by (simp add: Let_def)
    from relax_edges_mono [OF this] show ?thesis by simp
  next
    case False
    with Cons e show ?thesis by (simp add: Let_def)
  qed
qed simp

text \<open>Every distance is the weight of a chain.\<close>

definition reached :: "offset_edge list \<Rightarrow> rat list \<Rightarrow> bool" where
  "reached es d \<longleftrightarrow>
     (\<forall>v < length d. \<exists>a < length d. \<exists>fs. chain a fs v \<and> set fs \<subseteq> set es \<and> weight_of fs = d ! v)"

lemma relax_edges_reached:
  "relax_edges fs d changed = (d', changed') \<Longrightarrow> set fs \<subseteq> set es \<Longrightarrow> ends_below (length d) es \<Longrightarrow>
     reached es d \<Longrightarrow> reached es d'"
proof (induction fs d changed rule: relax_edges.induct)
  case (2 origin destination weight fs d changed)
  let ?c = "d ! origin + weight"
  from "2.prems"(2,3) have ends: "origin < length d" "destination < length d" "set fs \<subseteq> set es"
    by (auto simp: ends_below_def)
  show ?case
  proof (cases "?c < d ! destination")
    case True
    let ?d = "d[destination := ?c]"
    from True "2.prems" have run: "relax_edges fs ?d True = (d', changed')" by (simp add: Let_def)
    from "2.prems"(4) ends(1) obtain a gs where a: "a < length d" "chain a gs origin" "set gs \<subseteq> set es"
      "weight_of gs = d ! origin" unfolding reached_def by blast
    have "chain a (gs @ [(origin, destination, weight)]) destination"
      using a(2) by (simp add: chain_append)
    moreover have "set (gs @ [(origin, destination, weight)]) \<subseteq> set es" using a(3) "2.prems"(2) by simp
    moreover have "weight_of (gs @ [(origin, destination, weight)]) = ?c" using a(4) by simp
    ultimately have "\<exists>a < length d. \<exists>fs. chain a fs destination \<and> set fs \<subseteq> set es \<and> weight_of fs = ?c"
      using a(1) by blast
    then have "reached es ?d"
      using "2.prems"(4) ends(2) unfolding reached_def by (simp add: nth_list_update)
    with "2.IH"(1) [OF refl True run ends(3)] "2.prems"(3) show ?thesis by simp
  next
    case False
    with "2.prems" have "relax_edges fs d changed = (d', changed')" by (simp add: Let_def)
    with "2.IH"(2) [OF refl False] "2.prems" ends(3) show ?thesis by simp
  qed
qed simp

section \<open>All rounds\<close>

lemma relax_rounds_length: "length (relax_rounds n es d) = length d"
  by (induction n es d rule: relax_rounds.induct)
    (auto simp: Let_def split: prod.splits dest: relax_edges_mono)

lemma relax_rounds_reached:
  "ends_below (length d) es \<Longrightarrow> reached es d \<Longrightarrow> reached es (relax_rounds n es d)"
proof (induction n es d rule: relax_rounds.induct)
  case (2 n es d)
  obtain d' changed where run: "relax_edges es d False = (d', changed)" by (metis surj_pair)
  with relax_edges_mono [OF run] relax_edges_reached [OF run order_refl "2.prems"] "2.IH" [OF run [symmetric] refl] "2.prems"
  show ?case by simp
qed simp

text \<open>After \<open>n\<close> rounds no chain of at most \<open>n\<close> edges is shorter.\<close>

lemma relax_rounds_chain:
  "ends_below (length d) es \<Longrightarrow> chain a fs b \<Longrightarrow> set fs \<subseteq> set es \<Longrightarrow> length fs \<le> n \<Longrightarrow> b < length d \<Longrightarrow>
     relax_rounds n es d ! b \<le> d ! a + weight_of fs"
proof (induction n es d arbitrary: a fs rule: relax_rounds.induct)
  case (2 n es d)
  obtain d' changed where run: "relax_edges es d False = (d', changed)" by (metis surj_pair)
  note mono = relax_edges_mono [OF run]
  show ?case
  proof (cases changed)
    case True
    have ends: "ends_below (length d') es" using "2.prems"(1) mono by simp
    have bd: "b < length d'" using "2.prems"(5) mono by simp
    note IH = "2.IH" [OF run [symmetric] refl True ends _ _ _ bd]
    have rounds: "relax_rounds (Suc n) es d = relax_rounds n es d'" using run True by simp
    show ?thesis
    proof (cases fs)
      case Nil
      with IH [of b "[]"] mono "2.prems"(2,5) rounds show ?thesis by fastforce
    next
      case (Cons e gs)
      obtain x y w where e: "e = (x, y, w)" by (metis prod_cases3)
      have "relax_rounds n es d' ! b \<le> d' ! y + weight_of gs"
        using IH [of y gs] "2.prems"(2-4) Cons e by simp
      moreover have "d' ! y \<le> d ! x + w"
        using relax_edges_edge [OF run "2.prems"(1)] "2.prems"(3) Cons e by auto
      ultimately show ?thesis using rounds "2.prems"(2) Cons e by simp
    qed
  next
    case False
    with run have "relax_edges es d False = (d', False)" by simp
    then have d: "d' = d" by (rule relax_edges_stable)
    then have "solves ((!) d) es"
      using relax_edges_edge [OF run "2.prems"(1)] by (simp add: solves_def)
    from solves_chain [OF "2.prems"(2,3) this] show ?thesis using run False d by simp
  qed
qed simp

text \<open>Bounds that have a solution are met after as many rounds as there are other nodes.\<close>

lemma relax_rounds_solves:
  assumes "solves t es" "ends_below n es"
  shows "solves ((!) (relax_rounds (n - 1) es (replicate n 0))) es"
  unfolding solves_def
proof clarify
  let ?d = "replicate n (0 :: rat)"
  let ?r = "relax_rounds (n - 1) es ?d"
  fix x y w
  assume e: "(x, y, w) \<in> set es"
  with assms(2) have xy: "x < n" "y < n" by (auto simp: ends_below_def)
  have "reached es ?d" by (auto simp: reached_def intro!: exI [of _ "[]"])
  then have "reached es ?r" using relax_rounds_reached assms(2) by simp
  then obtain a fs where a: "a < n" "chain a fs x" "set fs \<subseteq> set es" "weight_of fs = ?r ! x"
    using xy(1) unfolding reached_def relax_rounds_length by auto
  have "chain a (fs @ [(x, y, w)]) y" using a(2) by (simp add: chain_append)
  moreover have "set (fs @ [(x, y, w)]) \<subseteq> set es" using a(3) e by simp
  ultimately obtain gs where g: "chain a gs y" "set gs \<subseteq> set es" "length gs < n"
    "weight_of gs \<le> weight_of (fs @ [(x, y, w)])"
    using short_chain [OF assms] a(1) by blast
  have "?r ! y \<le> ?d ! a + weight_of gs"
    using relax_rounds_chain [OF _ g(1,2), of ?d] assms(2) g(3) xy(2) by simp
  with g(4) a(1,4) show "?r ! y \<le> ?r ! x + w" by simp
qed

end
