(* ===== verification/Transport_Dual_Exact.thy ===== *)
theory Transport_Dual_Exact
  imports Transport_Dual_Props Transport_Offsets
begin

text \<open>
  \<open>construct_dual\<close> returns a dual exactly when the plan has a certificate: what it returns makes
  every used edge tight, and when some dual does, neither the search nor the relaxation refuses.
\<close>

section \<open>The search against a given dual\<close>

text \<open>The values of a component differ from those of the dual by a constant.\<close>

definition against ::
    "(string \<Rightarrow> rat) \<Rightarrow> (string \<Rightarrow> rat) \<Rightarrow> (nat \<Rightarrow> rat) \<Rightarrow> search_state \<Rightarrow> bool" where
  "against U V t st \<longleftrightarrow>
     (\<forall>x a k. map_of (ss_u st) x = Some a \<longrightarrow> map_of (ss_sc st) x = Some k \<longrightarrow> a = U x - t k) \<and>
     (\<forall>y b k. map_of (ss_v st) y = Some b \<longrightarrow> map_of (ss_tc st) y = Some k \<longrightarrow> b = V y + t k)"

text \<open>The dual is tight on every edge, and both dictionaries know the ends.\<close>

definition tight_graph ::
    "(string \<Rightarrow> rat) \<Rightarrow> (string \<Rightarrow> rat) \<Rightarrow> ground_metric \<Rightarrow> neighbors \<Rightarrow> neighbors \<Rightarrow>
       (string \<times> string) set \<Rightarrow> bool" where
  "tight_graph U V m sn tn edges \<longleftrightarrow>
     lists_edges sn tn edges \<and>
     (\<forall>x y. (x, y) \<in> edges \<longrightarrow> U x + V y = metric m x y \<and> map_of sn x \<noteq> None \<and> map_of tn y \<noteq> None)"

definition known_nodes :: "neighbors \<Rightarrow> neighbors \<Rightarrow> (side \<times> string) list \<Rightarrow> bool" where
  "known_nodes sn tn queue \<longleftrightarrow>
     (\<forall>x. (Source_side, x) \<in> set queue \<longrightarrow> map_of sn x \<noteq> None) \<and>
     (\<forall>y. (Target_side, y) \<in> set queue \<longrightarrow> map_of tn y \<noteq> None)"

lemma visit_targets_returns:
  "map_of (ss_u st) node = Some a \<Longrightarrow> \<forall>y \<in> set ys. map_of (ss_v st) y \<in> {None, Some (metric m node y - a)} \<Longrightarrow>
     \<exists>r. visit_targets m c node ys st queue = Inr r"
proof (induction m c node ys st queue rule: visit_targets.induct)
  case (2 m c node y ys st queue)
  show ?case
  proof (cases "map_of (ss_v st) y")
    case None
    let ?st = "st\<lparr>ss_v := dict_set y (metric m node y - a) (ss_v st), ss_tc := dict_set y c (ss_tc st)\<rparr>"
    have "map_of (ss_u ?st) node = Some a"
      "\<forall>z \<in> set ys. map_of (ss_v ?st) z \<in> {None, Some (metric m node z - a)}" using "2.prems" by auto
    from "2.IH"(1) [OF refl None this] "2.prems"(1) None show ?thesis by (simp add: Let_def item_def)
  next
    case (Some known)
    with "2.IH"(2) [OF refl Some, of a] "2.prems" show ?thesis by (simp add: Let_def item_def)
  qed
qed simp

lemma visit_sources_returns:
  "map_of (ss_v st) node = Some b \<Longrightarrow> \<forall>x \<in> set xs. map_of (ss_u st) x \<in> {None, Some (metric m x node - b)} \<Longrightarrow>
     \<exists>r. visit_sources m c node xs st queue = Inr r"
proof (induction m c node xs st queue rule: visit_sources.induct)
  case (2 m c node x xs st queue)
  show ?case
  proof (cases "map_of (ss_u st) x")
    case None
    let ?st = "st\<lparr>ss_u := dict_set x (metric m x node - b) (ss_u st), ss_sc := dict_set x c (ss_sc st)\<rparr>"
    have "map_of (ss_v ?st) node = Some b"
      "\<forall>z \<in> set xs. map_of (ss_u ?st) z \<in> {None, Some (metric m z node - b)}" using "2.prems" by auto
    from "2.IH"(1) [OF refl None this] "2.prems"(1) None show ?thesis by (simp add: Let_def item_def)
  next
    case (Some known)
    with "2.IH"(2) [OF refl Some, of b] "2.prems" show ?thesis by (simp add: Let_def item_def)
  qed
qed simp

text \<open>Two ends of an edge that both have a value are in one component, unless one is queued.\<close>

lemma search_inv_component:
  assumes "search_inv m c edges queue st" "(x, y) \<in> edges"
  shows "map_of (ss_sc st) x = Some c \<Longrightarrow> map_of (ss_v st) y \<noteq> None \<Longrightarrow> map_of (ss_tc st) y = Some c"
    and "map_of (ss_tc st) y = Some c \<Longrightarrow> map_of (ss_u st) x \<noteq> None \<Longrightarrow> map_of (ss_sc st) x = Some c"
proof -
  show "map_of (ss_tc st) y = Some c" if "map_of (ss_sc st) x = Some c" "map_of (ss_v st) y \<noteq> None"
  proof (cases "(Target_side, y) \<in> set queue")
    case False
    with assms that(2) have "fits m st x y" unfolding search_inv_def by metis
    with that(1) show ?thesis by (auto simp: fits_def)
  qed (use assms(1) in \<open>simp add: search_inv_def\<close>)
  show "map_of (ss_sc st) x = Some c" if "map_of (ss_tc st) y = Some c" "map_of (ss_u st) x \<noteq> None"
  proof (cases "(Source_side, x) \<in> set queue")
    case False
    with assms that(2) have "fits m st x y" unfolding search_inv_def by metis
    with that(1) show ?thesis by (auto simp: fits_def)
  qed (use assms(1) in \<open>simp add: search_inv_def\<close>)
qed

lemma visit_targets_against:
  assumes inv: "search_inv m c edges ((Source_side, node) # queue) st" and ag: "against U V t st"
    and graph: "tight_graph U V m sn tn edges" and ys: "set ys = {y. (node, y) \<in> edges}"
    and known: "known_nodes sn tn queue"
  shows "\<exists>st' queue'. visit_targets m c node ys st queue = Inr (st', queue') \<and> against U V t st' \<and>
    known_nodes sn tn queue'"
proof -
  from inv have sc: "map_of (ss_sc st) node = Some c" by (auto simp: search_inv_def)
  with inv obtain a where a: "map_of (ss_u st) node = Some a"
    unfolding search_inv_def by (metis not_None_eq)
  with ag sc have a_eq: "a = U node - t c" by (simp add: against_def)
  have implied: "metric m node y - a = V y + t c" if "y \<in> set ys" for y
    using graph ys that by (auto simp: tight_graph_def a_eq algebra_simps)
  have "map_of (ss_v st) y \<in> {None, Some (metric m node y - a)}" if y: "y \<in> set ys" for y
  proof (cases "map_of (ss_v st) y")
    case (Some b)
    have "(node, y) \<in> edges" using y ys by simp
    with search_inv_component(1) [OF inv this] sc Some have "map_of (ss_tc st) y = Some c" by simp
    with ag Some implied [OF y] show ?thesis by (simp add: against_def)
  qed simp
  with visit_targets_returns [OF a] obtain st' queue' where
    run: "visit_targets m c node ys st queue = Inr (st', queue')" by (metis surj_pair)
  note spec = visit_targets_spec [OF run a]
  have "against U V t st'"
    using spec ag implied unfolding against_def by (auto split: if_splits)
  moreover have "known_nodes sn tn queue'"
    using spec known graph ys unfolding known_nodes_def tight_graph_def by auto
  ultimately show ?thesis using run by blast
qed

lemma visit_sources_against:
  assumes inv: "search_inv m c edges ((Target_side, node) # queue) st" and ag: "against U V t st"
    and graph: "tight_graph U V m sn tn edges" and xs: "set xs = {x. (x, node) \<in> edges}"
    and known: "known_nodes sn tn queue"
  shows "\<exists>st' queue'. visit_sources m c node xs st queue = Inr (st', queue') \<and> against U V t st' \<and>
    known_nodes sn tn queue'"
proof -
  from inv have tc: "map_of (ss_tc st) node = Some c" by (auto simp: search_inv_def)
  with inv obtain b where b: "map_of (ss_v st) node = Some b"
    unfolding search_inv_def by (metis not_None_eq)
  with ag tc have b_eq: "b = V node + t c" by (simp add: against_def)
  have implied: "metric m x node - b = U x - t c" if "x \<in> set xs" for x
  proof -
    from graph xs that have "U x + V node = metric m x node" by (auto simp: tight_graph_def)
    then show ?thesis by (simp add: b_eq)
  qed
  have "map_of (ss_u st) x \<in> {None, Some (metric m x node - b)}" if x: "x \<in> set xs" for x
  proof (cases "map_of (ss_u st) x")
    case (Some a)
    have "(x, node) \<in> edges" using x xs by simp
    with search_inv_component(2) [OF inv this] tc Some have "map_of (ss_sc st) x = Some c" by simp
    with ag Some implied [OF x] show ?thesis by (simp add: against_def)
  qed simp
  with visit_sources_returns [OF b] obtain st' queue' where
    run: "visit_sources m c node xs st queue = Inr (st', queue')" by (metis surj_pair)
  note spec = visit_sources_spec [OF run b]
  have "against U V t st'"
    using spec ag implied unfolding against_def by (auto split: if_splits)
  moreover have "known_nodes sn tn queue'"
    using spec known graph xs unfolding known_nodes_def tight_graph_def by auto
  ultimately show ?thesis using run by blast
qed

lemma search_returns:
  "search_inv m c edges queue st \<Longrightarrow> against U V t st \<Longrightarrow> tight_graph U V m sn tn edges \<Longrightarrow>
     known_nodes sn tn queue \<Longrightarrow>
     \<exists>st'. search m c sn tn queue st = Inr st' \<and> against U V t st'"
proof (induction m c sn tn queue st rule: search.induct)
  case (2 m c sn tn node queue st)
  from "2.prems"(3) have edges: "lists_edges sn tn edges" by (simp add: tight_graph_def)
  from "2.prems"(4) obtain ys where ys: "item sn node = Inr ys" by (auto simp: known_nodes_def)
  note nb = item_edges(1) [OF edges ys]
  have "known_nodes sn tn queue" using "2.prems"(4) by (simp add: known_nodes_def)
  from visit_targets_against [OF "2.prems"(1,2,3) nb this] obtain st' queue' where
    v: "visit_targets m c node ys st queue = Inr (st', queue')" "against U V t st'" "known_nodes sn tn queue'"
    by blast
  from "2.IH" [OF ys v(1) refl search_inv_source [OF "2.prems"(1) v(1) nb] v(2) "2.prems"(3) v(3)]
  show ?case by (simp add: ys v(1))
next
  case (3 m c sn tn node queue st)
  from "3.prems"(3) have edges: "lists_edges sn tn edges" by (simp add: tight_graph_def)
  from "3.prems"(4) obtain xs where xs: "item tn node = Inr xs" by (auto simp: known_nodes_def)
  note nb = item_edges(2) [OF edges xs]
  have "known_nodes sn tn queue" using "3.prems"(4) by (simp add: known_nodes_def)
  from visit_sources_against [OF "3.prems"(1,2,3) nb this] obtain st' queue' where
    v: "visit_sources m c node xs st queue = Inr (st', queue')" "against U V t st'" "known_nodes sn tn queue'"
    by blast
  from "3.IH" [OF xs v(1) refl search_inv_target [OF "3.prems"(1) v(1) nb] v(2) "3.prems"(3) v(3)]
  show ?case by (simp add: xs v(1))
qed simp

lemma search_roots_returns:
  "search_done m c edges st \<Longrightarrow> against U V t st \<Longrightarrow> tight_graph U V m sn tn edges \<Longrightarrow>
     \<forall>r \<in> set roots. map_of sn r \<noteq> None \<Longrightarrow>
     \<exists>c' st' t'. search_roots m sn tn roots c st = Inr (c', st') \<and> against U V t' st'"
proof (induction m sn tn roots c st arbitrary: t rule: search_roots.induct)
  case (2 m sn tn r roots c st)
  show ?case
  proof (cases "map_of (ss_sc st) r")
    case None
    let ?st = "st\<lparr>ss_u := dict_set r 0 (ss_u st), ss_sc := dict_set r c (ss_sc st)\<rparr>"
    have "against U V (t(c := U r)) ?st"
      using "2.prems"(1,2) None unfolding against_def search_done_def by (auto split: if_splits)
    moreover have "known_nodes sn tn [(Source_side, r)]" using "2.prems"(4) by (simp add: known_nodes_def)
    moreover note inv = search_inv_root [OF "2.prems"(1) None]
    ultimately obtain st1 where
      run: "search m c sn tn [(Source_side, r)] ?st = Inr st1" and ag: "against U V (t(c := U r)) st1"
      using search_returns "2.prems"(3) by blast
    have "lists_edges sn tn edges" using "2.prems"(3) by (simp add: tight_graph_def)
    note sd = search_done_inv [OF search_keeps_inv [OF run this inv]]
    have "\<not> map_of (ss_sc st) r \<noteq> None" using None by simp
    from "2.IH"(2) [OF this sd ag "2.prems"(3)] "2.prems"(4) None run show ?thesis by simp
  next
    case (Some k)
    with "2.IH"(1) [OF _ "2.prems"(1-3)] "2.prems"(4) show ?thesis by simp
  qed
qed auto

lemma add_isolated_against:
  "add_isolated ys c st = (c', st') \<Longrightarrow> search_done m c edges st \<Longrightarrow> \<forall>x y. (x, y) \<in> edges \<longrightarrow> fits m st x y \<Longrightarrow>
     against U V t st \<Longrightarrow> \<exists>t'. against U V t' st'"
proof (induction ys c st arbitrary: t rule: add_isolated.induct)
  case (2 y ys c st)
  show ?case
  proof (cases "map_of (ss_tc st) y")
    case None
    let ?st = "st\<lparr>ss_tc := dict_set y c (ss_tc st), ss_v := dict_set y 0 (ss_v st)\<rparr>"
    have run: "add_isolated ys (Suc c) ?st = (c', st')" using "2.prems"(1) None by simp
    have "against U V (t(c := - V y)) ?st"
      using "2.prems"(2,4) None unfolding against_def search_done_def by (auto split: if_splits)
    with "2.IH"(2) [OF _ run isolated_node [OF "2.prems"(2,3) None]] None show ?thesis by simp
  next
    case (Some k)
    with "2.IH"(1) "2.prems" show ?thesis by simp
  qed
qed auto

lemma derive_returns:
  assumes "used (tp_flow p) \<subseteq> set xs \<times> set ys" "\<forall>x y. (x, y) \<in> used (tp_flow p) \<longrightarrow> U x + V y = metric m x y"
  shows "\<exists>c t. derive_tight_components p xs ys m = Inr c \<and>
    (\<forall>x a k. map_of (tc_base_u c) x = Some a \<longrightarrow> map_of (tc_source_component c) x = Some k \<longrightarrow> a = U x - t k) \<and>
    (\<forall>y b k. map_of (tc_base_v c) y = Some b \<longrightarrow> map_of (tc_target_component c) y = Some k \<longrightarrow> b = V y + t k)"
proof -
  let ?sn = "map (\<lambda>x. (x, [])) xs :: neighbors" and ?tn = "map (\<lambda>y. (y, [])) ys :: neighbors"
    and ?st = "\<lparr>ss_sc = [], ss_tc = [], ss_u = [], ss_v = []\<rparr>" and ?E = "used (tp_flow p)"
  have keys: "map_of (map (\<lambda>x. (x, [])) zs) z \<noteq> None \<longleftrightarrow> z \<in> set zs" for zs :: "string list" and z
    by (force simp: map_of_eq_None_iff)
  have "\<forall>(x, y) \<in> ?E. map_of ?sn x \<noteq> None \<and> map_of ?tn y \<noteq> None"
    unfolding keys using assms(1) by blast
  from add_neighbors_returns [OF this] obtain sn tn where
    nb: "add_neighbors (tp_flow p) ?sn ?tn = Inr (sn, tn)" by (metis surj_pair)
  note spec = add_neighbors_spec [OF nb]
  have known: "map_of sn x \<noteq> None \<longleftrightarrow> x \<in> set xs" "map_of tn y \<noteq> None \<longleftrightarrow> y \<in> set ys" for x y
    using spec keys by metis+
  have edges: "lists_edges sn tn ?E" using spec by (simp add: lists_edges_def neighbors_empty)
  then have graph: "tight_graph U V m sn tn ?E"
    unfolding tight_graph_def known using assms by blast
  have "against U V (\<lambda>_. 0) ?st" by (simp add: against_def)
  moreover have "\<forall>r \<in> set (sort xs). map_of sn r \<noteq> None" unfolding known by simp
  ultimately obtain k st t where roots: "search_roots m sn tn (sort xs) 0 ?st = Inr (k, st)"
    and ag: "against U V t st"
    using search_roots_returns [OF search_done_empty _ graph] by blast
  note roots_done = search_roots_done [OF roots edges search_done_empty]
  have fits: "\<forall>x y. (x, y) \<in> ?E \<longrightarrow> fits m st x y"
    using roots_done assms(1) unfolding search_done_def by (metis mem_Sigma_iff set_sort subset_eq)
  obtain k' st' where iso: "add_isolated (sort ys) k st = (k', st')" by (metis surj_pair)
  from add_isolated_against [OF iso roots_done [THEN conjunct1] fits ag] obtain t' where "against U V t' st'" by blast
  then show ?thesis
    using nb roots iso by (auto simp: derive_tight_components_def against_def intro!: exI [of _ t'])
qed

section \<open>The offsets\<close>

abbreviation source_of :: "tight_components \<Rightarrow> string \<Rightarrow> nat" where
  "source_of c x \<equiv> the (map_of (tc_source_component c) x)"

abbreviation target_of :: "tight_components \<Rightarrow> string \<Rightarrow> nat" where
  "target_of c y \<equiv> the (map_of (tc_target_component c) y)"

abbreviation base_sum :: "tight_components \<Rightarrow> string \<Rightarrow> string \<Rightarrow> rat" where
  "base_sum c x y \<equiv> get_zero (tc_base_u c) x + get_zero (tc_base_v c) y"

lemma covers_item:
  assumes "covers c xs ys"
  shows "x \<in> set xs \<Longrightarrow> item (tc_base_u c) x = Inr (get_zero (tc_base_u c) x)"
    "x \<in> set xs \<Longrightarrow> item (tc_source_component c) x = Inr (source_of c x)"
    "y \<in> set ys \<Longrightarrow> item (tc_base_v c) y = Inr (get_zero (tc_base_v c) y)"
    "y \<in> set ys \<Longrightarrow> item (tc_target_component c) y = Inr (target_of c y)"
    "x \<in> set xs \<Longrightarrow> source_of c x < tc_count c" "y \<in> set ys \<Longrightarrow> target_of c y < tc_count c"
  using assms unfolding covers_def item_def get_zero_def by fastforce+

lemma offset_edges_eq:
  assumes "covers c xs ys"
  shows "set pairs \<subseteq> set xs \<times> set ys \<Longrightarrow> offset_edges c m pairs =
    (if \<forall>(x, y) \<in> set pairs. source_of c x = target_of c y \<longrightarrow> base_sum c x y \<le> metric m x y
     then Inr (map (\<lambda>(x, y). (target_of c y, source_of c x, metric m x y - base_sum c x y))
       (filter (\<lambda>(x, y). source_of c x \<noteq> target_of c y) pairs))
     else Inl (independent_refusal ''INTRA_COMPONENT_DUAL_INFEASIBLE''))"
proof (induction pairs)
  case (Cons e pairs)
  obtain x y where e: "e = (x, y)" by (metis surj_pair)
  with Cons.prems have "x \<in> set xs" "y \<in> set ys" "set pairs \<subseteq> set xs \<times> set ys" by auto
  then have step: "offset_edges c m (e # pairs) =
      (if source_of c x = target_of c y
       then if base_sum c x y \<le> metric m x y then offset_edges c m pairs
            else Inl (independent_refusal ''INTRA_COMPONENT_DUAL_INFEASIBLE'')
       else bind_res (offset_edges c m pairs) (\<lambda>es.
         Inr ((target_of c y, source_of c x, metric m x y - base_sum c x y) # es)))"
    unfolding e offset_edges.simps using covers_item [OF assms, of x] covers_item [OF assms, of y]
    by (simp only: bind_res_simps Let_def) (simp add: algebra_simps)
  show ?case
    unfolding step using Cons.IH [OF \<open>set pairs \<subseteq> set xs \<times> set ys\<close>]
    by (simp only: e list.set ball_simps prod.case filter.simps list.map) simp
qed simp

text \<open>Offsets that meet every bound between two components.\<close>

definition offsets_fit :: "tight_components \<Rightarrow> ground_metric \<Rightarrow> string list \<Rightarrow> string list \<Rightarrow> (nat \<Rightarrow> rat) \<Rightarrow> bool" where
  "offsets_fit c m xs ys t \<longleftrightarrow>
     (\<forall>x \<in> set xs. \<forall>y \<in> set ys. base_sum c x y + t (source_of c x) - t (target_of c y) \<le> metric m x y)"

lemma not_solves:
  "list_ex (\<lambda>(origin, destination, weight). d ! origin + weight < d ! destination) es \<longleftrightarrow> \<not> solves ((!) d) es"
  by (fastforce simp: solves_def list_ex_iff not_le)

lemma solve_offsets_fit:
  assumes "covers c (fm_support source) (fm_support target)"
  shows "solve_component_offsets c source target m = Inr d \<Longrightarrow>
      offsets_fit c m (fm_support source) (fm_support target) ((!) d)"
    and "offsets_fit c m (fm_support source) (fm_support target) t \<Longrightarrow>
      \<exists>d. solve_component_offsets c source target m = Inr d"
proof -
  let ?xs = "fm_support source" and ?ys = "fm_support target"
  let ?pairs = "List.product ?xs ?ys"
  let ?es = "map (\<lambda>(x, y). (target_of c y, source_of c x, metric m x y - base_sum c x y))
    (filter (\<lambda>(x, y). source_of c x \<noteq> target_of c y) ?pairs)"
  let ?d = "relax_rounds (tc_count c - 1) ?es (replicate (tc_count c) 0)"
  let ?within = "\<forall>(x, y) \<in> set ?pairs. source_of c x = target_of c y \<longrightarrow> base_sum c x y \<le> metric m x y"
  have "set ?pairs \<subseteq> set ?xs \<times> set ?ys" by simp
  note es = offset_edges_eq [OF assms this, of m]
  have run: "solve_component_offsets c source target m =
      (if ?within then if solves ((!) ?d) ?es then Inr ?d else Inl (independent_refusal ''DUAL_OFFSET_NEGATIVE_CYCLE'')
       else Inl (independent_refusal ''INTRA_COMPONENT_DUAL_INFEASIBLE''))"
    unfolding solve_component_offsets_def es not_solves Let_def
    by (simp only: bind_res_simps if_distrib [of "\<lambda>r. bind_res r f" for f] if_not_P split: if_split) blast
  have fit: "offsets_fit c m ?xs ?ys t \<longleftrightarrow> ?within \<and> solves t ?es" for t
    unfolding offsets_fit_def solves_def by (fastforce simp: algebra_simps)
  show "offsets_fit c m ?xs ?ys ((!) d)" if "solve_component_offsets c source target m = Inr d"
    using that unfolding run fit by (auto split: if_splits)
  have ends: "ends_below (tc_count c) ?es"
    using covers_item(5,6) [OF assms] by (auto simp: ends_below_def)
  show "\<exists>d. solve_component_offsets c source target m = Inr d" if "offsets_fit c m ?xs ?ys t"
  proof -
    from that have within: ?within and t: "solves t ?es" unfolding fit by blast+
    show ?thesis unfolding run if_P [OF within] if_P [OF relax_rounds_solves [OF t ends]] by blast
  qed
qed

section \<open>The dual\<close>

lemma collect_eq: "\<forall>k \<in> set ks. f k = Inr (g k) \<Longrightarrow> collect f ks = Inr (map (\<lambda>k. (k, g k)) ks)"
  by (induction ks) simp_all

lemma get_zero_map: "k \<in> set ks \<Longrightarrow> get_zero (map (\<lambda>k. (k, g k)) ks) k = g k"
  by (simp add: get_zero_def map_of_map_restrict restrict_map_def)

definition offset_dual :: "tight_components \<Rightarrow> string list \<Rightarrow> string list \<Rightarrow> (nat \<Rightarrow> rat) \<Rightarrow> dual_potential" where
  "offset_dual c xs ys t =
     \<lparr>dp_u = map (\<lambda>x. (x, get_zero (tc_base_u c) x + t (source_of c x))) xs,
      dp_v = map (\<lambda>y. (y, get_zero (tc_base_v c) y - t (target_of c y))) ys\<rparr>"

text \<open>The gauge moves a constant from one side to the other.\<close>

lemma normalize_gauge_sum:
  assumes "x \<in> set (map fst (dp_u q))" "y \<in> set (map fst (dp_v q))"
  shows "u_of (normalize_gauge q) x + v_of (normalize_gauge q) y = u_of q x + v_of q y"
proof -
  have shift: "get_zero (map (\<lambda>(k, v). (k, f v)) d) k = f (get_zero d k)"
    if "k \<in> set (map fst d)" for f :: "rat \<Rightarrow> rat" and d and k :: string
    using that by (induction d) (auto simp: get_zero_def)
  show ?thesis by (simp add: normalize_gauge_def Let_def shift [OF assms(1)] shift [OF assms(2)])
qed

lemma normalize_gauge_keys [simp]:
  "keys_match (dp_u (normalize_gauge q)) ks \<longleftrightarrow> keys_match (dp_u q) ks"
  "keys_match (dp_v (normalize_gauge q)) ks \<longleftrightarrow> keys_match (dp_v q) ks"
  by (simp_all add: keys_match_def normalize_gauge_def Let_def case_prod_beta comp_def)

lemma offset_dual_sum:
  assumes "x \<in> set xs" "y \<in> set ys"
  shows "u_of (normalize_gauge (offset_dual c xs ys t)) x + v_of (normalize_gauge (offset_dual c xs ys t)) y =
    base_sum c x y + t (source_of c x) - t (target_of c y)"
proof -
  have "x \<in> set (map fst (dp_u (offset_dual c xs ys t)))" "y \<in> set (map fst (dp_v (offset_dual c xs ys t)))"
    using assms by (simp_all add: offset_dual_def comp_def)
  from normalize_gauge_sum [OF this] show ?thesis
    using assms by (simp add: offset_dual_def get_zero_map)
qed

lemma offset_dual_feasible:
  "dual_feasible (normalize_gauge (offset_dual c (fm_support source) (fm_support target) t)) source target m \<longleftrightarrow>
     offsets_fit c m (fm_support source) (fm_support target) t"
  by (simp add: dual_feasible_def offsets_fit_def offset_dual_sum)
    (simp add: offset_dual_def keys_match_def comp_def)

lemma verify_dual_feasibility_iff:
  "(\<exists>s. verify_dual_feasibility q source target m = Inr s) \<longleftrightarrow> dual_feasible q source target m"
proof (cases "keys_match (dp_u q) (fm_support source) \<and> keys_match (dp_v q) (fm_support target)")
  case True
  then show ?thesis
    using largest_slack_eq [of q source target "all_pairs source target" m 0]
    by (simp add: verify_dual_feasibility_def dual_feasible_slack)
next
  case False
  then show ?thesis by (auto simp: verify_dual_feasibility_def dual_feasible_def)
qed

text \<open>What is left of the construction once the components are known.\<close>

lemma construct_dual_eq:
  assumes "verify_marginals p source target = Inr ()"
    "derive_tight_components p (fm_support source) (fm_support target) m = Inr c"
    "covers c (fm_support source) (fm_support target)"
  shows "construct_dual p source target m = Inr q \<longleftrightarrow>
    (\<exists>d. solve_component_offsets c source target m = Inr d \<and>
       q = normalize_gauge (offset_dual c (fm_support source) (fm_support target) ((!) d)))"
proof -
  let ?xs = "fm_support source" and ?ys = "fm_support target"
  have u: "collect (\<lambda>x. bind_res (item (tc_base_u c) x) (\<lambda>bu.
      bind_res (item (tc_source_component c) x) (\<lambda>a. Inr (bu + d ! a)))) ?xs =
    Inr (dp_u (offset_dual c ?xs ?ys ((!) d)))" for d
    using covers_item(1,2) [OF assms(3)] by (simp add: offset_dual_def collect_eq del: item_Inr)
  have v: "collect (\<lambda>y. bind_res (item (tc_base_v c) y) (\<lambda>bv.
      bind_res (item (tc_target_component c) y) (\<lambda>b. Inr (bv - d ! b)))) ?ys =
    Inr (dp_v (offset_dual c ?xs ?ys ((!) d)))" for d
    using covers_item(3,4) [OF assms(3)] by (simp add: offset_dual_def collect_eq del: item_Inr)
  have eta: "\<lparr>dp_u = dp_u q, dp_v = dp_v q\<rparr> = q" for q by simp
  have run: "construct_dual p source target m = bind_res (solve_component_offsets c source target m) (\<lambda>d.
      let q = normalize_gauge (offset_dual c ?xs ?ys ((!) d))
      in bind_res (verify_dual_feasibility q source target m) (\<lambda>_. Inr q))"
    unfolding construct_dual_def assms(1,2) by (simp only: bind_res_simps u v eta)
  have "\<exists>s. verify_dual_feasibility (normalize_gauge (offset_dual c ?xs ?ys ((!) d))) source target m = Inr s"
    if "solve_component_offsets c source target m = Inr d" for d
    unfolding verify_dual_feasibility_iff offset_dual_feasible using solve_offsets_fit(1) [OF assms(3) that] .
  then show ?thesis unfolding run by (fastforce simp: bind_res_Inr_iff Let_def)
qed

lemma transports_used:
  "transports p source target \<Longrightarrow> used (tp_flow p) \<subseteq> set (fm_support source) \<times> set (fm_support target)"
  unfolding transports_def used_def by fastforce

lemma tight_used:
  assumes "is_dict (fm_mass source)" "is_dict (fm_mass target)"
  shows "tight p q source target m \<longleftrightarrow> transports p source target \<and> dual_feasible q source target m \<and>
    (\<forall>x y. (x, y) \<in> used (tp_flow p) \<longrightarrow> u_of q x + v_of q y = metric m x y)"
proof -
  have "(\<forall>((x, y), a) \<in> set (tp_flow p). 0 < a \<longrightarrow> u_of q x + v_of q y = metric m x y) \<longleftrightarrow>
      (\<forall>x y. (x, y) \<in> used (tp_flow p) \<longrightarrow> u_of q x + v_of q y = metric m x y)"
    unfolding used_def by fastforce
  with tight_iff [OF assms] show ?thesis unfolding tight_def by blast
qed

lemma construct_dual_tight:
  assumes "is_dict (fm_mass source)" "is_dict (fm_mass target)" "construct_dual p source target m = Inr q"
  shows "tight p q source target m \<and> listed_within p source target"
proof -
  let ?xs = "fm_support source" and ?ys = "fm_support target"
  from assms(3) obtain c where marginals: "verify_marginals p source target = Inr ()"
    and c: "derive_tight_components p ?xs ?ys m = Inr c"
    unfolding construct_dual_def by (auto simp: bind_res_Inr_iff)
  from marginals have p: "transports p source target" "listed_within p source target"
    unfolding verify_marginals_iff by auto
  note base = derived_components [OF c transports_used [OF p(1)]]
  with construct_dual_eq [OF marginals c] assms(3) obtain d where
    d: "solve_component_offsets c source target m = Inr d" and q: "q = normalize_gauge (offset_dual c ?xs ?ys ((!) d))"
    by blast
  have "dual_feasible q source target m"
    unfolding q offset_dual_feasible using solve_offsets_fit(1) base d by blast
  moreover have "u_of q x + v_of q y = metric m x y" if e: "(x, y) \<in> used (tp_flow p)" for x y
  proof -
    from e transports_used [OF p(1)] have "x \<in> set ?xs" "y \<in> set ?ys" by auto
    note sum = offset_dual_sum [OF this, of c "(!) d"]
    from base e have "tight_base m c x y" by blast
    then show ?thesis unfolding tight_base_def q sum by (auto simp: get_zero_Some)
  qed
  ultimately show ?thesis using p tight_used [OF assms(1,2)] by blast
qed

lemma construct_dual_returns:
  assumes "is_dict (fm_mass source)" "is_dict (fm_mass target)"
    "listed_within p source target" "tight p q source target m"
  shows "\<exists>q. construct_dual p source target m = Inr q"
proof -
  let ?xs = "fm_support source" and ?ys = "fm_support target"
  from assms(4) have p: "transports p source target" "dual_feasible q source target m"
    "\<forall>x y. (x, y) \<in> used (tp_flow p) \<longrightarrow> u_of q x + v_of q y = metric m x y"
    unfolding tight_used [OF assms(1,2)] by auto
  have marginals: "verify_marginals p source target = Inr ()"
    unfolding verify_marginals_iff using p(1) assms(3) by blast
  from derive_returns [OF transports_used [OF p(1)] p(3)] obtain c t where
    c: "derive_tight_components p ?xs ?ys m = Inr c" and
    u: "\<And>x a k. map_of (tc_base_u c) x = Some a \<Longrightarrow> map_of (tc_source_component c) x = Some k \<Longrightarrow> a = u_of q x - t k" and
    v: "\<And>y b k. map_of (tc_base_v c) y = Some b \<Longrightarrow> map_of (tc_target_component c) y = Some k \<Longrightarrow> b = v_of q y + t k"
    by blast
  from derived_components [OF c transports_used [OF p(1)]] have covers: "covers c ?xs ?ys" by blast
  have "base_sum c x y + t (source_of c x) - t (target_of c y) = u_of q x + v_of q y"
    if "x \<in> set ?xs" "y \<in> set ?ys" for x y
  proof -
    from covers that obtain a k b l where "map_of (tc_base_u c) x = Some a"
      "map_of (tc_source_component c) x = Some k" "map_of (tc_base_v c) y = Some b"
      "map_of (tc_target_component c) y = Some l" unfolding covers_def by metis
    moreover from this u v have "a = u_of q x - t k" "b = v_of q y + t l" by blast+
    ultimately show ?thesis by (simp add: get_zero_Some)
  qed
  then have "offsets_fit c m ?xs ?ys t" using p(2) by (simp add: offsets_fit_def dual_feasible_def)
  with construct_dual_eq [OF marginals c covers] solve_offsets_fit(2) [OF covers] show ?thesis by blast
qed

text \<open>C29: a dual is constructed exactly for the plans that list edges of the
  supports only and have a certificate with some dual, whatever that one is: neither the search
  of the components nor the relaxation of their offsets refuses such a plan. The dual that is
  returned is one: the certificate checker and the independent verifier both accept it, and no
  plan between the two measures is cheaper.\<close>

theorem construct_dual_exact:
  assumes "is_dict (fm_mass source)" "is_dict (fm_mass target)"
  shows "((\<exists>q. construct_dual p source target m = Inr q) \<longleftrightarrow>
      listed_within p source target \<and> (\<exists>q c. certify p q source target m = Inr c)) \<and>
    (construct_dual p source target m = Inr q \<longrightarrow>
      certify p q source target m = Inr \<lparr>dc_primal = primal_cost p m, dc_dual = primal_cost p m\<rparr> \<and>
      verify_transport p q source target m = Inr (witness_of p q source target m) \<and>
      (\<forall>p'. transports p' source target \<longrightarrow> primal_cost p m \<le> primal_cost p' m))"
proof -
  have certified: "(\<exists>c. certify p q source target m = Inr c) \<longleftrightarrow> tight p q source target m" for q
    using certify_InrD checks_tight [OF assms] certify_tight [OF _ assms] by metis
  have least: "primal_cost p m \<le> primal_cost p' m"
    if "tight p q source target m" "transports p' source target" for p'
    using that weak_duality [OF assms that(2), of q m] by (simp add: tight_def)
  have "(\<exists>q. construct_dual p source target m = Inr q) \<longleftrightarrow>
      listed_within p source target \<and> (\<exists>q c. certify p q source target m = Inr c)"
    using construct_dual_tight [OF assms] construct_dual_returns [OF assms] certified by metis
  moreover have "certify p q source target m = Inr \<lparr>dc_primal = primal_cost p m, dc_dual = primal_cost p m\<rparr> \<and>
      verify_transport p q source target m = Inr (witness_of p q source target m) \<and>
      (\<forall>p'. transports p' source target \<longrightarrow> primal_cost p m \<le> primal_cost p' m)"
    if "construct_dual p source target m = Inr q"
    using construct_dual_tight [OF assms that] least certify_tight [OF _ assms]
      verify_transport_eq [OF assms] by blast
  ultimately show ?thesis by blast
qed

theorem construct_dual_exact_witness:
  "\<exists>q. construct_dual demo_transport demo_source demo_target demo_metric = Inr q \<and>
     verify_transport demo_transport q demo_source demo_target demo_metric =
       Inr (witness_of demo_transport q demo_source demo_target demo_metric)"
proof -
  have "listed_within demo_transport demo_source demo_target"
    by (simp add: listed_within_def demo_transport_eval)
  then obtain q where q: "construct_dual demo_transport demo_source demo_target demo_metric = Inr q"
    using construct_dual_exact [OF demo_dicts, of demo_transport demo_metric] demo_certified by blast
  with construct_dual_exact [OF demo_dicts, of demo_transport demo_metric q] show ?thesis by blast
qed

end
