(* ===== verification/Survival.thy ===== *)
theory Survival
  imports Json
begin

text \<open>
  Survival experiments, \<open>survival_experiment.py\<close> and \<open>survival_manifest.py\<close> of
  \<open>src/gymact/\<close>: the cross product of scenarios, policies, perturbation levels and repetitions,
  the identities of its cases, the manifest that freezes them and its replay. The constant fields
  \<open>authority\<close>, \<open>grants_do_authority\<close> and \<open>actuation_performed\<close> are left out of the records and kept
  in the dumps that are hashed.
\<close>

section \<open>Strings\<close>

text \<open>\<open>str.strip\<close> on characters below 256.\<close>

definition py_space :: "char \<Rightarrow> bool" where
  "py_space c \<longleftrightarrow>
     (let n = (of_char c :: nat)
      in 9 \<le> n \<and> n \<le> 13 \<or> 28 \<le> n \<and> n \<le> 32 \<or> n = 133 \<or> n = 160)"

definition py_strip :: "string \<Rightarrow> string" where
  "py_strip s = rev (dropWhile py_space (rev (dropWhile py_space s)))"

section \<open>Scenarios, policies, factors\<close>

datatype information_topology =
    ISOLATED | STAR | TREE | MESH | BLACKBOARD | BROADCAST | AUTHORITY_FILTERED | RECEIPT_ONLY

fun topology_value :: "information_topology \<Rightarrow> string" where
  "topology_value ISOLATED = ''isolated''"
| "topology_value STAR = ''star''"
| "topology_value TREE = ''tree''"
| "topology_value MESH = ''mesh''"
| "topology_value BLACKBOARD = ''blackboard''"
| "topology_value BROADCAST = ''broadcast''"
| "topology_value AUTHORITY_FILTERED = ''authority-filtered''"
| "topology_value RECEIPT_ONLY = ''receipt-only''"

datatype tool_policy = TOOL_NONE | TOOL_OPTIONAL | TOOL_MANDATORY

fun tool_policy_value :: "tool_policy \<Rightarrow> string" where
  "tool_policy_value TOOL_NONE = ''none''"
| "tool_policy_value TOOL_OPTIONAL = ''optional''"
| "tool_policy_value TOOL_MANDATORY = ''mandatory''"

datatype machinery =
    LLM_NATIVE | LLM_TOOLS | SELECTIVE_LLM | PLANNER_LLM_RESIDUE | FORMAL_GENERATED

fun machinery_value :: "machinery \<Rightarrow> string" where
  "machinery_value LLM_NATIVE = ''llm-native''"
| "machinery_value LLM_TOOLS = ''llm-tools''"
| "machinery_value SELECTIVE_LLM = ''selective-llm''"
| "machinery_value PLANNER_LLM_RESIDUE = ''planner-llm-residue''"
| "machinery_value FORMAL_GENERATED = ''formal-generated''"

record survival_scenario =
  scen_id :: string
  scen_subject :: string
  scen_workload_id :: string
  scen_horizon :: nat
  scen_terminal_predicate_ref :: string

record survival_policy =
  spol_id :: string
  spol_machinery :: machinery
  spol_topology :: information_topology
  spol_tool_policy :: tool_policy

record survival_factor =
  sfac_name :: string
  sfac_levels :: "string list"

text \<open>\<open>require_distinct_levels\<close>.\<close>

definition validate_factor :: "survival_factor \<Rightarrow> survival_factor res" where
  "validate_factor f =
     (if sfac_levels f = [] then Inl (value_error ''SURVIVAL_FACTOR_LEVEL_REQUIRED'')
      else if list_ex (\<lambda>l. py_strip l = [] \<or> l \<noteq> py_strip l) (sfac_levels f)
      then Inl (value_error ''SURVIVAL_FACTOR_LEVEL_INVALID'')
      else if \<not> distinct (sfac_levels f) then Inl (value_error ''SURVIVAL_FACTOR_LEVEL_DUPLICATE'')
      else Inr f)"

record factor_assignment =
  fa_name :: string
  fa_level :: string

record survival_cell =
  cl_scenario :: survival_scenario
  cl_policy :: survival_policy

definition cell_id :: "survival_cell \<Rightarrow> string" where
  "cell_id c = scen_id (cl_scenario c) @ ''::'' @ spol_id (cl_policy c)"

record survival_run_case =
  rc_cell :: survival_cell
  rc_assignments :: "factor_assignment list"
  rc_repetition :: nat
  rc_seed :: nat

section \<open>Dumps and identities\<close>

abbreviation nat_json :: "nat \<Rightarrow> json" where
  "nat_json n \<equiv> JInt (int n)"

definition scenario_json :: "survival_scenario \<Rightarrow> json" where
  "scenario_json s = JObj
     [(''scenario_id'', JStr (scen_id s)), (''subject'', JStr (scen_subject s)),
      (''workload_id'', JStr (scen_workload_id s)), (''horizon'', nat_json (scen_horizon s)),
      (''terminal_predicate_ref'', JStr (scen_terminal_predicate_ref s))]"

definition policy_json :: "survival_policy \<Rightarrow> json" where
  "policy_json p = JObj
     [(''policy_id'', JStr (spol_id p)), (''machinery'', JStr (machinery_value (spol_machinery p))),
      (''information_topology'', JStr (topology_value (spol_topology p))),
      (''tool_policy'', JStr (tool_policy_value (spol_tool_policy p))),
      (''authority_ceiling'', JStr ''OBSERVE|SELECT|CONSTRUCT''),
      (''grants_do_authority'', JBool False)]"

definition factor_json :: "survival_factor \<Rightarrow> json" where
  "factor_json f = JObj [(''name'', JStr (sfac_name f)), (''levels'', strs_json (sfac_levels f))]"

definition assignment_json :: "factor_assignment \<Rightarrow> json" where
  "assignment_json a = JObj [(''name'', JStr (fa_name a)), (''level'', JStr (fa_level a))]"

definition factor_digest :: "digest_fun \<Rightarrow> survival_run_case \<Rightarrow> string" where
  "factor_digest H c = H (JArr (map assignment_json (rc_assignments c)))"

definition analysis_policy_id :: "digest_fun \<Rightarrow> survival_run_case \<Rightarrow> string" where
  "analysis_policy_id H c =
     (if rc_assignments c = [] then spol_id (cl_policy (rc_cell c))
      else spol_id (cl_policy (rc_cell c)) @ ''::'' @ take 16 (factor_digest H c))"

definition case_id :: "digest_fun \<Rightarrow> survival_run_case \<Rightarrow> string" where
  "case_id H c =
     cell_id (rc_cell c) @ ''::'' @ take 16 (H (JObj
       [(''cell_id'', JStr (cell_id (rc_cell c))),
        (''assignments'', JArr (map assignment_json (rc_assignments c))),
        (''repetition'', nat_json (rc_repetition c)), (''seed'', nat_json (rc_seed c))]))"

section \<open>Steps and episodes\<close>

datatype survival_phase = PH_OBSERVE | PH_SELECT | PH_CONSTRUCT | PH_VERIFY | PH_DO

fun survival_phase_value :: "survival_phase \<Rightarrow> string" where
  "survival_phase_value PH_OBSERVE = ''OBSERVE''"
| "survival_phase_value PH_SELECT = ''SELECT''"
| "survival_phase_value PH_CONSTRUCT = ''CONSTRUCT''"
| "survival_phase_value PH_VERIFY = ''VERIFY''"
| "survival_phase_value PH_DO = ''DO''"

record survival_step =
  st_step :: nat
  st_phase :: survival_phase
  st_exact_subject :: bool
  st_authorized :: bool
  st_admitted :: bool
  st_receipt_id :: "string option"
  st_terminal_ready :: bool
  st_tool_invoked :: bool
  st_llm_tokens :: nat
  st_replay_verified :: bool
  st_guards_installed :: "string list"

text \<open>A step with the defaults of the class.\<close>

definition plain_step :: "nat \<Rightarrow> survival_phase \<Rightarrow> survival_step" where
  "plain_step n phase =
     \<lparr>st_step = n, st_phase = phase, st_exact_subject = True, st_authorized = True, st_admitted = True,
      st_receipt_id = None, st_terminal_ready = True, st_tool_invoked = False, st_llm_tokens = 0,
      st_replay_verified = False, st_guards_installed = []\<rparr>"

definition step_json :: "survival_step \<Rightarrow> json" where
  "step_json s = JObj
     [(''step'', nat_json (st_step s)), (''phase'', JStr (survival_phase_value (st_phase s))),
      (''exact_subject'', JBool (st_exact_subject s)), (''authorized'', JBool (st_authorized s)),
      (''admitted'', JBool (st_admitted s)), (''receipt_id'', opt_json (st_receipt_id s)),
      (''terminal_ready'', JBool (st_terminal_ready s)), (''tool_invoked'', JBool (st_tool_invoked s)),
      (''llm_tokens'', nat_json (st_llm_tokens s)), (''replay_verified'', JBool (st_replay_verified s)),
      (''guards_installed'', strs_json (st_guards_installed s))]"

record survival_episode =
  ep_episode_id :: string
  ep_cell :: survival_cell
  ep_steps :: "survival_step list"
  ep_run_case :: "survival_run_case option"

text \<open>\<open>bind_steps_to_horizon\<close>.\<close>

definition validate_episode :: "survival_episode \<Rightarrow> survival_episode res" where
  "validate_episode e =
     (let values = map st_step (ep_steps e)
      in if \<not> distinct values then Inl (value_error ''SURVIVAL_STEP_DUPLICATE'')
         else if values \<noteq> [] \<and> Max (set values) > scen_horizon (cl_scenario (ep_cell e))
         then Inl (value_error ''SURVIVAL_STEP_EXCEEDS_HORIZON'')
         else if \<exists>c \<in> set_option (ep_run_case e). rc_cell c \<noteq> ep_cell e
         then Inl (value_error ''SURVIVAL_RUN_CASE_CELL_MISMATCH'')
         else Inr e)"

text \<open>The \<open>gymact\<close> section of a document, and the document.\<close>

definition gymact_section :: "digest_fun \<Rightarrow> survival_episode \<Rightarrow> dict" where
  "gymact_section H e =
     (let scenario = cl_scenario (ep_cell e); p = cl_policy (ep_cell e); rc = ep_run_case e
      in [(''scenario_id'', JStr (scen_id scenario)),
          (''terminal_predicate_ref'', JStr (scen_terminal_predicate_ref scenario)),
          (''machinery'', JStr (machinery_value (spol_machinery p))),
          (''information_topology'', JStr (topology_value (spol_topology p))),
          (''tool_policy'', JStr (tool_policy_value (spol_tool_policy p))),
          (''authority_ceiling'', JStr ''OBSERVE|SELECT|CONSTRUCT''),
          (''grants_do_authority'', JBool False),
          (''run_case_id'', opt_json (map_option (case_id H) rc)),
          (''repetition'', case rc of Some c \<Rightarrow> nat_json (rc_repetition c) | None \<Rightarrow> JNull),
          (''seed'', case rc of Some c \<Rightarrow> nat_json (rc_seed c) | None \<Rightarrow> JNull),
          (''factor_assignments'', JArr (case rc of
             Some c \<Rightarrow> map assignment_json (rc_assignments c) | None \<Rightarrow> []))])"

definition autofde_document :: "digest_fun \<Rightarrow> survival_episode \<Rightarrow> dict" where
  "autofde_document H e =
     (let scenario = cl_scenario (ep_cell e)
      in [(''schema'', JStr ''autofde-lab.premature-actuation-episode/1''),
          (''subject'', JStr (scen_subject scenario)), (''workload_id'', JStr (scen_workload_id scenario)),
          (''policy_id'', JStr (case ep_run_case e of
             Some c \<Rightarrow> analysis_policy_id H c | None \<Rightarrow> spol_id (cl_policy (ep_cell e)))),
          (''episode_id'', JStr (ep_episode_id e)), (''horizon'', nat_json (scen_horizon scenario)),
          (''events'', JArr (map step_json (sort_key st_step (ep_steps e)))),
          (''gymact'', JObj (gymact_section H e))])"

section \<open>The experiment\<close>

record survival_experiment =
  sx_experiment_id :: string
  sx_scenarios :: "survival_scenario list"
  sx_policies :: "survival_policy list"
  sx_factors :: "survival_factor list"
  sx_repetitions :: nat
  sx_seed_base :: nat
  sx_max_cases :: nat

definition case_count :: "survival_experiment \<Rightarrow> nat" where
  "case_count e =
     length (sx_scenarios e) * length (sx_policies e) *
       prod_list (map (\<lambda>f. length (sfac_levels f)) (sx_factors e)) * sx_repetitions e"

text \<open>\<open>require_closed_unique_factors\<close>.\<close>

definition validate_experiment :: "survival_experiment \<Rightarrow> survival_experiment res" where
  "validate_experiment e =
     (if sx_scenarios e = [] \<or> sx_policies e = [] then Inl (value_error ''SURVIVAL_FACTORS_EMPTY'')
      else if \<not> distinct (map scen_id (sx_scenarios e))
      then Inl (value_error ''SURVIVAL_SCENARIO_ID_DUPLICATE'')
      else if \<not> distinct (map spol_id (sx_policies e))
      then Inl (value_error ''SURVIVAL_POLICY_ID_DUPLICATE'')
      else if \<not> distinct (map sfac_name (sx_factors e))
      then Inl (value_error ''SURVIVAL_FACTOR_NAME_DUPLICATE'')
      else if case_count e > sx_max_cases e
      then Inl (value_error (''SURVIVAL_MAX_CASES_EXCEEDED:'' @ nat_decimal (case_count e) @ ''>'' @
        nat_decimal (sx_max_cases e)))
      else Inr e)"

definition matrix :: "survival_experiment \<Rightarrow> survival_cell list" where
  "matrix e = concat (map (\<lambda>s. map (\<lambda>p. \<lparr>cl_scenario = s, cl_policy = p\<rparr>) (sx_policies e)) (sx_scenarios e))"

text \<open>\<open>itertools.product\<close>: the last factor varies fastest.\<close>

definition level_matrix :: "survival_experiment \<Rightarrow> string list list" where
  "level_matrix e =
     (if sx_factors e \<noteq> [] then product_lists (map sfac_levels (sx_factors e)) else [[]])"

definition assignments_of :: "survival_experiment \<Rightarrow> string list \<Rightarrow> factor_assignment list" where
  "assignments_of e levels =
     map (\<lambda>(f, l). \<lparr>fa_name = sfac_name f, fa_level = l\<rparr>) (zip (sx_factors e) levels)"

text \<open>The three loops, with the counter \<open>ordinal\<close> and the list \<open>cases\<close>.\<close>

definition add_case ::
    "survival_experiment \<Rightarrow> survival_cell \<Rightarrow> factor_assignment list \<Rightarrow> nat \<Rightarrow>
       survival_run_case list \<times> nat \<Rightarrow> survival_run_case list \<times> nat" where
  "add_case e c assignments repetition = (\<lambda>(cs, ordinal).
     (cs @ [\<lparr>rc_cell = c, rc_assignments = assignments, rc_repetition = repetition,
        rc_seed = sx_seed_base e + ordinal\<rparr>], Suc ordinal))"

definition add_levels ::
    "survival_experiment \<Rightarrow> survival_cell \<Rightarrow> string list \<Rightarrow>
       survival_run_case list \<times> nat \<Rightarrow> survival_run_case list \<times> nat" where
  "add_levels e c levels = fold (add_case e c (assignments_of e levels)) [0..<sx_repetitions e]"

definition add_cell ::
    "survival_experiment \<Rightarrow> survival_cell \<Rightarrow>
       survival_run_case list \<times> nat \<Rightarrow> survival_run_case list \<times> nat" where
  "add_cell e c = fold (add_levels e c) (level_matrix e)"

definition cases_of :: "survival_experiment \<Rightarrow> survival_run_case list res" where
  "cases_of e =
     (let cs = fst (fold (add_cell e) (matrix e) ([], 0))
      in if length cs \<noteq> case_count e
         then Inl (Raised ''AssertionError'' ''SURVIVAL_FACTORIAL_CLOSURE_BROKEN'')
         else Inr cs)"

section \<open>Manifests\<close>

record manifest_case =
  mc_case_id :: string
  mc_analysis_policy_id :: string
  mc_scenario_id :: string
  mc_policy_id :: string
  mc_repetition :: nat
  mc_seed :: nat
  mc_factor_digest :: string

definition manifest_case_of :: "digest_fun \<Rightarrow> survival_run_case \<Rightarrow> manifest_case" where
  "manifest_case_of H c =
     \<lparr>mc_case_id = case_id H c, mc_analysis_policy_id = analysis_policy_id H c,
      mc_scenario_id = scen_id (cl_scenario (rc_cell c)), mc_policy_id = spol_id (cl_policy (rc_cell c)),
      mc_repetition = rc_repetition c, mc_seed = rc_seed c, mc_factor_digest = factor_digest H c\<rparr>"

record survival_manifest =
  sm_experiment_id :: string
  sm_experiment_digest :: string
  sm_cases :: "manifest_case list"

definition manifest_case_json :: "manifest_case \<Rightarrow> json" where
  "manifest_case_json c = JObj
     [(''case_id'', JStr (mc_case_id c)), (''analysis_policy_id'', JStr (mc_analysis_policy_id c)),
      (''scenario_id'', JStr (mc_scenario_id c)), (''policy_id'', JStr (mc_policy_id c)),
      (''repetition'', nat_json (mc_repetition c)), (''seed'', nat_json (mc_seed c)),
      (''factor_digest'', JStr (mc_factor_digest c))]"

definition manifest_digest :: "digest_fun \<Rightarrow> survival_manifest \<Rightarrow> string" where
  "manifest_digest H m = H (JObj
     [(''schema_version'', JStr ''gymact.survival-manifest/1''),
      (''experiment_id'', JStr (sm_experiment_id m)),
      (''experiment_digest'', JStr (sm_experiment_digest m)),
      (''cases'', JArr (map manifest_case_json (sm_cases m))),
      (''authority'', JStr ''none''), (''actuation_performed'', JBool False)])"

definition experiment_json :: "survival_experiment \<Rightarrow> json" where
  "experiment_json e = JObj
     [(''experiment_id'', JStr (sx_experiment_id e)),
      (''scenarios'', JArr (map scenario_json (sx_scenarios e))),
      (''policies'', JArr (map policy_json (sx_policies e))),
      (''factors'', JArr (map factor_json (sx_factors e))),
      (''repetitions'', nat_json (sx_repetitions e)), (''seed_base'', nat_json (sx_seed_base e)),
      (''max_cases'', nat_json (sx_max_cases e))]"

definition experiment_digest :: "digest_fun \<Rightarrow> survival_experiment \<Rightarrow> string" where
  "experiment_digest H e = H (experiment_json e)"

definition build_survival_manifest :: "digest_fun \<Rightarrow> survival_experiment \<Rightarrow> survival_manifest res" where
  "build_survival_manifest H e =
     bind_res (cases_of e) (\<lambda>cs. Inr
       \<lparr>sm_experiment_id = sx_experiment_id e, sm_experiment_digest = experiment_digest H e,
        sm_cases = map (manifest_case_of H) cs\<rparr>)"

text \<open>
  The comparison that both replays end with, over the dictionaries \<open>{c.id: c}\<close>: identifiers of
  the left list only, of the right list only, and of both with different contents.
\<close>

definition by_id :: "('c \<Rightarrow> string) \<Rightarrow> 'c list \<Rightarrow> string \<Rightarrow> 'c option" where
  "by_id key cs = map_of (rev (map (\<lambda>c. (key c, c)) cs))"

definition sorted_ids :: "('c \<Rightarrow> string) \<Rightarrow> (string \<Rightarrow> bool) \<Rightarrow> 'c list \<Rightarrow> string list" where
  "sorted_ids key P cs = sort (remdups (filter P (map key cs)))"

definition drift_report :: "string \<Rightarrow> ('c \<Rightarrow> string) \<Rightarrow> 'c list \<Rightarrow> 'c list \<Rightarrow> string list" where
  "drift_report prefix key left right =
     map (\<lambda>k. prefix @ ''_MISSING:'' @ k) (sorted_ids key (\<lambda>k. k \<notin> set (map key right)) left) @
     map (\<lambda>k. prefix @ ''_EXTRA:'' @ k) (sorted_ids key (\<lambda>k. k \<notin> set (map key left)) right) @
     map (\<lambda>k. prefix @ ''_DRIFT:'' @ k) (filter (\<lambda>k. by_id key left k \<noteq> by_id key right k)
       (sorted_ids key (\<lambda>k. k \<in> set (map key right)) left))"

record replay_result =
  rr_expected_digest :: string
  rr_replay_digest :: string
  rr_matched :: bool
  rr_mismatches :: "string list"

definition replay_survival_manifest ::
    "digest_fun \<Rightarrow> survival_experiment \<Rightarrow> survival_manifest \<Rightarrow> replay_result res" where
  "replay_survival_manifest H e m =
     bind_res (build_survival_manifest H e) (\<lambda>current.
       let mismatches =
             (if sm_experiment_id m \<noteq> sx_experiment_id e then [''EXPERIMENT_ID_MISMATCH''] else []) @
             (if sm_experiment_digest m \<noteq> experiment_digest H e then [''EXPERIMENT_DIGEST_MISMATCH''] else []) @
             (if length (sm_cases current) \<noteq> length (sm_cases m) then [''CASE_COUNT_MISMATCH''] else []) @
             (if \<not> distinct (map mc_case_id (sm_cases m)) then [''MANIFEST_CASE_ID_DUPLICATE''] else []) @
             drift_report ''CASE'' mc_case_id (sm_cases m) (sm_cases current)
       in Inr \<lparr>rr_expected_digest = manifest_digest H m, rr_replay_digest = manifest_digest H current,
            rr_matched = (mismatches = []), rr_mismatches = mismatches\<rparr>)"

end
