(* ===== verification/Survival_Campaign.thy ===== *)
theory Survival_Campaign
  imports Survival
begin

text \<open>
  Fault plans, campaigns and the canonical suite of survival experiments:
  \<open>survival_faults.py\<close>, \<open>survival_campaign.py\<close> and \<open>survival_suite.py\<close> of \<open>src/gymact/\<close>.
\<close>

section \<open>Faults\<close>

datatype survival_fault_kind =
    WRONG_SUBJECT | AUTHORITY_DROP | ADMISSION_DROP | RECEIPT_DROP | PREMATURE_TERMINAL
  | TOOL_BLACKOUT | REPLAY_CORRUPTION | LLM_TOKEN_BURST

fun fault_kind_value :: "survival_fault_kind \<Rightarrow> string" where
  "fault_kind_value WRONG_SUBJECT = ''wrong_subject''"
| "fault_kind_value AUTHORITY_DROP = ''authority_drop''"
| "fault_kind_value ADMISSION_DROP = ''admission_drop''"
| "fault_kind_value RECEIPT_DROP = ''receipt_drop''"
| "fault_kind_value PREMATURE_TERMINAL = ''premature_terminal''"
| "fault_kind_value TOOL_BLACKOUT = ''tool_blackout''"
| "fault_kind_value REPLAY_CORRUPTION = ''replay_corruption''"
| "fault_kind_value LLM_TOKEN_BURST = ''llm_token_burst''"

record survival_fault =
  sf_kind :: survival_fault_kind
  sf_target_step :: nat
  sf_magnitude :: nat

text \<open>\<open>validate_magnitude\<close>.\<close>

definition validate_fault :: "survival_fault \<Rightarrow> survival_fault res" where
  "validate_fault f =
     (if sf_kind f = LLM_TOKEN_BURST \<and> sf_magnitude f < 1
      then Inl (value_error ''SURVIVAL_LLM_BURST_MAGNITUDE_REQUIRED'')
      else if sf_kind f \<noteq> LLM_TOKEN_BURST \<and> sf_magnitude f \<noteq> 0
      then Inl (value_error ''SURVIVAL_FAULT_MAGNITUDE_NOT_APPLICABLE'')
      else Inr f)"

record survival_fault_plan =
  sp_plan_id :: string
  sp_faults :: "survival_fault list"

text \<open>\<open>validate_unique_targets\<close>.\<close>

definition validate_plan :: "survival_fault_plan \<Rightarrow> survival_fault_plan res" where
  "validate_plan p =
     (if \<not> distinct (map (\<lambda>f. (sf_target_step f, sf_kind f)) (sp_faults p))
      then Inl (value_error ''SURVIVAL_FAULT_DUPLICATE'') else Inr p)"

definition fault_json :: "survival_fault \<Rightarrow> json" where
  "fault_json f = JObj
     [(''kind'', JStr (fault_kind_value (sf_kind f))), (''target_step'', nat_json (sf_target_step f)),
      (''magnitude'', nat_json (sf_magnitude f))]"

definition plan_digest :: "digest_fun \<Rightarrow> survival_fault_plan \<Rightarrow> string" where
  "plan_digest H p = H (JObj
     [(''plan_id'', JStr (sp_plan_id p)), (''faults'', JArr (map fault_json (sp_faults p))),
      (''authority'', JStr ''none''), (''actuation_performed'', JBool False)])"

record fault_application =
  fp_plan_digest :: string
  fp_input_digest :: string
  fp_output_digest :: string
  fp_touched_steps :: "nat list"

definition require_do :: "survival_step \<Rightarrow> survival_fault \<Rightarrow> unit res" where
  "require_do s f =
     (if st_phase s \<noteq> PH_DO
      then Inl (value_error (''SURVIVAL_FAULT_REQUIRES_DO:'' @ fault_kind_value (sf_kind f) @ '':step='' @
        nat_decimal (sf_target_step f)))
      else Inr ())"

text \<open>\<open>_mutate\<close>; \<open>model_copy\<close> runs no validator.\<close>

definition mutate_step :: "survival_step \<Rightarrow> survival_fault \<Rightarrow> survival_step res" where
  "mutate_step s f =
     (case sf_kind f of
        WRONG_SUBJECT \<Rightarrow> bind_res (require_do s f) (\<lambda>_. Inr (s\<lparr>st_exact_subject := False\<rparr>))
      | AUTHORITY_DROP \<Rightarrow> bind_res (require_do s f) (\<lambda>_. Inr (s\<lparr>st_authorized := False\<rparr>))
      | ADMISSION_DROP \<Rightarrow> bind_res (require_do s f) (\<lambda>_. Inr (s\<lparr>st_admitted := False\<rparr>))
      | RECEIPT_DROP \<Rightarrow> bind_res (require_do s f) (\<lambda>_.
          Inr (s\<lparr>st_receipt_id := None, st_replay_verified := False\<rparr>))
      | PREMATURE_TERMINAL \<Rightarrow> bind_res (require_do s f) (\<lambda>_. Inr (s\<lparr>st_terminal_ready := False\<rparr>))
      | TOOL_BLACKOUT \<Rightarrow> Inr (s\<lparr>st_tool_invoked := False\<rparr>)
      | REPLAY_CORRUPTION \<Rightarrow> bind_res (require_do s f) (\<lambda>_. Inr (s\<lparr>st_replay_verified := False\<rparr>))
      | LLM_TOKEN_BURST \<Rightarrow> Inr (s\<lparr>st_llm_tokens := st_llm_tokens s + sf_magnitude f\<rparr>))"

text \<open>The loop over the faults, with \<open>by_step\<close> and \<open>touched\<close>.\<close>

fun apply_faults ::
    "survival_fault list \<Rightarrow> (nat \<times> survival_step) list \<Rightarrow> nat list \<Rightarrow>
       ((nat \<times> survival_step) list \<times> nat list) res" where
  "apply_faults [] by_step touched = Inr (by_step, touched)"
| "apply_faults (f # fs) by_step touched =
     (case map_of by_step (sf_target_step f) of
        None \<Rightarrow> Inl (value_error (''SURVIVAL_FAULT_TARGET_MISSING:'' @ nat_decimal (sf_target_step f)))
      | Some s \<Rightarrow> bind_res (mutate_step s f) (\<lambda>s'.
          apply_faults fs (dict_set (sf_target_step f) s' by_step) (touched @ [sf_target_step f])))"

definition apply_survival_fault_plan ::
    "digest_fun \<Rightarrow> survival_step list \<Rightarrow> survival_fault_plan \<Rightarrow>
       (survival_step list \<times> fault_application) res" where
  "apply_survival_fault_plan H steps p =
     (let by_step = fold (\<lambda>s. dict_set (st_step s) s) steps []
      in if length by_step \<noteq> length steps
         then Inl (value_error ''SURVIVAL_FAULT_INPUT_STEP_DUPLICATE'')
         else bind_res (apply_faults (sp_faults p) by_step []) (\<lambda>(after, touched).
           let output = map snd (sort_key fst after)
           in Inr (output,
             \<lparr>fp_plan_digest = plan_digest H p, fp_input_digest = H (JArr (map step_json steps)),
              fp_output_digest = H (JArr (map step_json output)),
              fp_touched_steps = sort (remdups touched)\<rparr>)))"

definition do_only :: "survival_fault_kind \<Rightarrow> bool" where
  "do_only k \<longleftrightarrow> k \<in> {WRONG_SUBJECT, AUTHORITY_DROP, ADMISSION_DROP, RECEIPT_DROP, PREMATURE_TERMINAL,
     REPLAY_CORRUPTION}"

definition single_fault_plan :: "nat \<Rightarrow> survival_step \<Rightarrow> survival_fault_kind \<Rightarrow> survival_fault_plan res" where
  "single_fault_plan burst s k =
     bind_res (validate_fault
         \<lparr>sf_kind = k, sf_target_step = st_step s,
          sf_magnitude = (if k = LLM_TOKEN_BURST then burst else 0)\<rparr>) (\<lambda>f.
       validate_plan
         \<lparr>sp_plan_id = ''fault:'' @ fault_kind_value k @ '':step-'' @ nat_decimal (st_step s),
          sp_faults = [f]\<rparr>)"

text \<open>The two loops over the steps and the kinds.\<close>

fun single_fault_plans ::
    "nat \<Rightarrow> (survival_step \<times> survival_fault_kind) list \<Rightarrow> survival_fault_plan list res" where
  "single_fault_plans burst [] = Inr []"
| "single_fault_plans burst ((s, k) # rest) =
     (if do_only k \<and> st_phase s \<noteq> PH_DO then single_fault_plans burst rest
      else bind_res (single_fault_plan burst s k) (\<lambda>p.
        bind_res (single_fault_plans burst rest) (\<lambda>ps. Inr (p # ps))))"

definition manufacture_single_fault_plans ::
    "survival_step list \<Rightarrow> survival_fault_kind list \<Rightarrow> nat \<Rightarrow> survival_fault_plan list res" where
  "manufacture_single_fault_plans steps kinds burst =
     single_fault_plans burst (List.product steps kinds)"

section \<open>Templates and specifications\<close>

record trace_template =
  tt_template_id :: string
  tt_steps :: "survival_step list"

definition validate_template :: "trace_template \<Rightarrow> trace_template res" where
  "validate_template t =
     (let numbers = map st_step (tt_steps t)
      in if numbers = [] then Inl (value_error ''SURVIVAL_TEMPLATE_EMPTY'')
         else if \<not> distinct numbers then Inl (value_error ''SURVIVAL_TEMPLATE_STEP_DUPLICATE'')
         else if numbers \<noteq> sort numbers then Inl (value_error ''SURVIVAL_TEMPLATE_STEP_ORDER'')
         else Inr t)"

definition template_json :: "trace_template \<Rightarrow> json" where
  "template_json t = JObj
     [(''template_id'', JStr (tt_template_id t)), (''steps'', JArr (map step_json (tt_steps t)))]"

definition template_digest :: "digest_fun \<Rightarrow> trace_template \<Rightarrow> string" where
  "template_digest H t = H (template_json t)"

record campaign_spec =
  cs_campaign_id :: string
  cs_experiment :: survival_experiment
  cs_template :: trace_template
  cs_fault_kinds :: "survival_fault_kind list"
  cs_include_baseline :: bool
  cs_llm_burst_magnitude :: nat
  cs_max_campaign_cases :: nat

definition fault_plans :: "campaign_spec \<Rightarrow> survival_fault_plan list res" where
  "fault_plans spec =
     manufacture_single_fault_plans (tt_steps (cs_template spec)) (cs_fault_kinds spec)
       (cs_llm_burst_magnitude spec)"

definition variants_per_run_case :: "campaign_spec \<Rightarrow> nat res" where
  "variants_per_run_case spec =
     bind_res (fault_plans spec) (\<lambda>plans. Inr (length plans + (if cs_include_baseline spec then 1 else 0)))"

definition campaign_case_count :: "campaign_spec \<Rightarrow> nat res" where
  "campaign_case_count spec =
     bind_res (variants_per_run_case spec) (\<lambda>n. Inr (case_count (cs_experiment spec) * n))"

text \<open>\<open>validate_horizon_and_width\<close>; the steps of a template are not empty.\<close>

definition validate_spec :: "campaign_spec \<Rightarrow> campaign_spec res" where
  "validate_spec spec =
     (let max_step = Max (set (map st_step (tt_steps (cs_template spec))));
          too_short = map scen_id (filter (\<lambda>s. scen_horizon s < max_step) (sx_scenarios (cs_experiment spec)))
      in if too_short \<noteq> []
         then Inl (value_error (''SURVIVAL_TEMPLATE_EXCEEDS_SCENARIO_HORIZON:'' @ join '','' (sort too_short)))
         else if \<not> distinct (cs_fault_kinds spec)
         then Inl (value_error ''SURVIVAL_CAMPAIGN_FAULT_KIND_DUPLICATE'')
         else bind_res (campaign_case_count spec) (\<lambda>n.
           if n > cs_max_campaign_cases spec
           then Inl (value_error (''SURVIVAL_CAMPAIGN_MAX_CASES_EXCEEDED:'' @ nat_decimal n @ ''>'' @
             nat_decimal (cs_max_campaign_cases spec)))
           else Inr spec))"

definition spec_digest :: "digest_fun \<Rightarrow> campaign_spec \<Rightarrow> string" where
  "spec_digest H spec = H (JObj
     [(''campaign_id'', JStr (cs_campaign_id spec)),
      (''experiment'', experiment_json (cs_experiment spec)),
      (''template'', template_json (cs_template spec)),
      (''fault_kinds'', JArr (map (JStr \<circ> fault_kind_value) (cs_fault_kinds spec))),
      (''include_baseline'', JBool (cs_include_baseline spec)),
      (''llm_burst_magnitude'', nat_json (cs_llm_burst_magnitude spec)),
      (''authority'', JStr ''none''), (''actuation_performed'', JBool False)])"

section \<open>Campaigns\<close>

record campaign_case =
  cc_campaign_id :: string
  cc_campaign_spec_digest :: string
  cc_run_case :: survival_run_case
  cc_template_digest :: string
  cc_fault_plan :: "survival_fault_plan option"
  cc_steps :: "survival_step list"

definition variant_id :: "campaign_case \<Rightarrow> string" where
  "variant_id c = (case cc_fault_plan c of None \<Rightarrow> ''baseline'' | Some p \<Rightarrow> sp_plan_id p)"

definition campaign_case_id :: "digest_fun \<Rightarrow> campaign_case \<Rightarrow> string" where
  "campaign_case_id H c =
     case_id H (cc_run_case c) @ ''::'' @ take 16 (H (JObj
       [(''campaign'', JStr (cc_campaign_id c)), (''variant'', JStr (variant_id c))]))"

definition to_episode :: "digest_fun \<Rightarrow> campaign_case \<Rightarrow> survival_episode res" where
  "to_episode H c = validate_episode
     \<lparr>ep_episode_id = campaign_case_id H c, ep_cell = rc_cell (cc_run_case c), ep_steps = cc_steps c,
      ep_run_case = Some (cc_run_case c)\<rparr>"

text \<open>\<open>SurvivalCampaignCase.to_autofde_document\<close>: the document of the episode with six more keys.\<close>

definition campaign_document :: "digest_fun \<Rightarrow> campaign_case \<Rightarrow> dict res" where
  "campaign_document H c =
     bind_res (to_episode H c) (\<lambda>e. Inr (dict_set ''gymact'' (JObj (fold (\<lambda>(k, v). dict_set k v)
       [(''synthetic'', JBool True), (''campaign_id'', JStr (cc_campaign_id c)),
        (''campaign_spec_digest'', JStr (cc_campaign_spec_digest c)),
        (''template_digest'', JStr (cc_template_digest c)),
        (''fault_plan_id'', opt_json (map_option sp_plan_id (cc_fault_plan c))),
        (''fault_plan_digest'', opt_json (map_option (plan_digest H) (cc_fault_plan c)))]
       (gymact_section H e))) (autofde_document H e)))"

record survival_campaign =
  cp_campaign_id :: string
  cp_spec_digest :: string
  cp_cases :: "campaign_case list"

definition campaign_digest :: "digest_fun \<Rightarrow> survival_campaign \<Rightarrow> string" where
  "campaign_digest H c = H (JObj
     [(''campaign_id'', JStr (cp_campaign_id c)), (''spec_digest'', JStr (cp_spec_digest c)),
      (''case_ids'', strs_json (map (campaign_case_id H) (cp_cases c)))])"

definition make_case ::
    "digest_fun \<Rightarrow> campaign_spec \<Rightarrow> survival_run_case \<Rightarrow> survival_fault_plan option \<Rightarrow>
       survival_step list \<Rightarrow> campaign_case" where
  "make_case H spec rc p steps =
     \<lparr>cc_campaign_id = cs_campaign_id spec, cc_campaign_spec_digest = spec_digest H spec,
      cc_run_case = rc, cc_template_digest = template_digest H (cs_template spec),
      cc_fault_plan = p, cc_steps = steps\<rparr>"

text \<open>The inner loop over the plans and the outer loop over the run cases.\<close>

fun plan_cases ::
    "digest_fun \<Rightarrow> campaign_spec \<Rightarrow> survival_run_case \<Rightarrow> survival_fault_plan list \<Rightarrow>
       campaign_case list res" where
  "plan_cases H spec rc [] = Inr []"
| "plan_cases H spec rc (p # ps) =
     bind_res (apply_survival_fault_plan H (tt_steps (cs_template spec)) p) (\<lambda>(mutated, application).
       if fp_plan_digest application \<noteq> plan_digest H p
       then Inl (Raised ''AssertionError'' ''SURVIVAL_CAMPAIGN_FAULT_RECEIPT_MISMATCH'')
       else bind_res (plan_cases H spec rc ps) (\<lambda>cs. Inr (make_case H spec rc (Some p) mutated # cs)))"

fun run_cases ::
    "digest_fun \<Rightarrow> campaign_spec \<Rightarrow> survival_fault_plan list \<Rightarrow> survival_run_case list \<Rightarrow>
       campaign_case list res" where
  "run_cases H spec plans [] = Inr []"
| "run_cases H spec plans (rc # rcs) =
     bind_res (plan_cases H spec rc plans) (\<lambda>variants.
     bind_res (run_cases H spec plans rcs) (\<lambda>cs. Inr
       ((if cs_include_baseline spec then [make_case H spec rc None (tt_steps (cs_template spec))] else []) @
        variants @ cs)))"

definition manufacture_survival_campaign :: "digest_fun \<Rightarrow> campaign_spec \<Rightarrow> survival_campaign res" where
  "manufacture_survival_campaign H spec =
     bind_res (fault_plans spec) (\<lambda>plans.
     bind_res (cases_of (cs_experiment spec)) (\<lambda>rcs.
     bind_res (run_cases H spec plans rcs) (\<lambda>cs.
     bind_res (campaign_case_count spec) (\<lambda>n.
       if length cs \<noteq> n
       then Inl (Raised ''AssertionError'' ''SURVIVAL_CAMPAIGN_CARTESIAN_CLOSURE_BROKEN'')
       else if card (set (map (campaign_case_id H) cs)) \<noteq> length cs
       then Inl (Raised ''AssertionError'' ''SURVIVAL_CAMPAIGN_CASE_ID_COLLISION'')
       else Inr \<lparr>cp_campaign_id = cs_campaign_id spec, cp_spec_digest = spec_digest H spec,
              cp_cases = cs\<rparr>))))"

definition replay_survival_campaign ::
    "digest_fun \<Rightarrow> campaign_spec \<Rightarrow> survival_campaign \<Rightarrow> replay_result res" where
  "replay_survival_campaign H spec expected =
     bind_res (manufacture_survival_campaign H spec) (\<lambda>replay.
       let mismatches =
             (if cp_campaign_id expected \<noteq> cs_campaign_id spec then [''CAMPAIGN_ID_MISMATCH''] else []) @
             (if cp_spec_digest expected \<noteq> spec_digest H spec then [''CAMPAIGN_SPEC_DIGEST_MISMATCH''] else []) @
             (if length (cp_cases expected) \<noteq> length (cp_cases replay)
              then [''CAMPAIGN_CASE_COUNT_MISMATCH''] else []) @
             (if \<not> distinct (map (campaign_case_id H) (cp_cases expected))
              then [''EXPECTED_CAMPAIGN_CASE_ID_DUPLICATE''] else []) @
             (if \<not> distinct (map (campaign_case_id H) (cp_cases replay))
              then [''REPLAY_CAMPAIGN_CASE_ID_DUPLICATE''] else []) @
             drift_report ''CAMPAIGN_CASE'' (campaign_case_id H) (cp_cases expected) (cp_cases replay)
       in Inr \<lparr>rr_expected_digest = campaign_digest H expected,
            rr_replay_digest = campaign_digest H replay,
            rr_matched = (mismatches = []), rr_mismatches = mismatches\<rparr>)"

section \<open>The canonical suite\<close>

definition canonical_policy_suite :: "survival_policy list" where
  "canonical_policy_suite =
     [\<lparr>spol_id = ''llm-native'', spol_machinery = LLM_NATIVE, spol_topology = ISOLATED,
       spol_tool_policy = TOOL_NONE\<rparr>,
      \<lparr>spol_id = ''llm-tools'', spol_machinery = LLM_TOOLS, spol_topology = BROADCAST,
       spol_tool_policy = TOOL_MANDATORY\<rparr>,
      \<lparr>spol_id = ''selective-llm'', spol_machinery = SELECTIVE_LLM, spol_topology = AUTHORITY_FILTERED,
       spol_tool_policy = TOOL_OPTIONAL\<rparr>,
      \<lparr>spol_id = ''planner-llm-residue'', spol_machinery = PLANNER_LLM_RESIDUE,
       spol_topology = BLACKBOARD, spol_tool_policy = TOOL_OPTIONAL\<rparr>,
      \<lparr>spol_id = ''formal-generated'', spol_machinery = FORMAL_GENERATED, spol_topology = RECEIPT_ONLY,
       spol_tool_policy = TOOL_OPTIONAL\<rparr>]"

definition canonical_fault_suite :: "survival_factor list" where
  "canonical_fault_suite =
     [\<lparr>sfac_name = ''authority'', sfac_levels = [''full'', ''filtered'', ''expired'']\<rparr>,
      \<lparr>sfac_name = ''transport'', sfac_levels = [''stable'', ''lossy'', ''reordered'']\<rparr>,
      \<lparr>sfac_name = ''evidence'', sfac_levels = [''complete'', ''delayed'', ''missing'']\<rparr>,
      \<lparr>sfac_name = ''terminal_signal'', sfac_levels = [''exact'', ''stale'', ''false_positive'']\<rparr>]"

definition canonical_fault_kinds :: "survival_fault_kind list" where
  "canonical_fault_kinds =
     [WRONG_SUBJECT, AUTHORITY_DROP, ADMISSION_DROP, RECEIPT_DROP, PREMATURE_TERMINAL, TOOL_BLACKOUT,
      REPLAY_CORRUPTION, LLM_TOKEN_BURST]"

text \<open>The check that the argument is an integer and not a boolean is the type here.\<close>

definition canonical_trace_template :: "int \<Rightarrow> trace_template res" where
  "canonical_trace_template horizon =
     (if horizon < 3 then Inl (value_error ''SURVIVAL_CANONICAL_TEMPLATE_HORIZON_MIN_3'')
      else let h = nat horizon in validate_template
        \<lparr>tt_template_id = ''canonical:observe-verify-do:h'' @ nat_decimal h,
         tt_steps =
           [(plain_step 1 PH_OBSERVE)\<lparr>st_tool_invoked := True\<rparr>,
            plain_step (h - 1) PH_VERIFY,
            (plain_step h PH_DO)\<lparr>st_receipt_id := Some ''synthetic:baseline-receipt'',
              st_replay_verified := True\<rparr>]\<rparr>)"

end
