(* ===== verification/Survival_Observation.thy ===== *)
theory Survival_Observation
  imports Survival_Campaign
begin

text \<open>
  Observation closures, \<open>survival_observation.py\<close> and \<open>survival_campaign_observation.py\<close> of
  \<open>src/gymact/\<close>: which manifested cases a list of documents covers. A document is a dictionary of
  JSON values. \<open>repr\<close> stands for \<open>str\<close> of a float, a list or a dictionary, \<open>parse\<close> for \<open>int\<close>
  of a string.
\<close>

section \<open>Conversions\<close>

fun py_str :: "(json \<Rightarrow> string) \<Rightarrow> json \<Rightarrow> string" where
  "py_str repr JNull = ''None''"
| "py_str repr (JBool b) = (if b then ''True'' else ''False'')"
| "py_str repr (JInt i) = (if i < 0 then CHR ''-'' # nat_decimal (nat (- i)) else nat_decimal (nat i))"
| "py_str repr (JStr s) = s"
| "py_str repr v = repr v"

text \<open>\<open>int(v)\<close>: a float is truncated towards zero.\<close>

fun py_int :: "(string \<Rightarrow> int option) \<Rightarrow> json \<Rightarrow> int res" where
  "py_int parse (JBool b) = Inr (if b then 1 else 0)"
| "py_int parse (JInt i) = Inr i"
| "py_int parse (JFloat q) = Inr (if q < 0 then - \<lfloor>- q\<rfloor> else \<lfloor>q\<rfloor>)"
| "py_int parse (JStr s) =
     (case parse s of Some i \<Rightarrow> Inr i | None \<Rightarrow> Inl (value_error ''invalid literal for int()''))"
| "py_int parse v = Inl (Raised ''TypeError'' ''int() argument must be a string or a real number'')"

text \<open>\<open>d.get(k, default)\<close>.\<close>

definition dict_get :: "dict \<Rightarrow> string \<Rightarrow> json \<Rightarrow> json" where
  "dict_get d k v = (case map_of d k of Some x \<Rightarrow> x | None \<Rightarrow> v)"

text \<open>\<open>bool(v)\<close>.\<close>

fun py_bool :: "json \<Rightarrow> bool" where
  "py_bool JNull = False"
| "py_bool (JBool b) = b"
| "py_bool (JInt i) = (i \<noteq> 0)"
| "py_bool (JFloat q) = (q \<noteq> 0)"
| "py_bool (JStr s) = (s \<noteq> [])"
| "py_bool (JArr xs) = (xs \<noteq> [])"
| "py_bool (JObj xs) = (xs \<noteq> [])"

section \<open>Closures\<close>

record observation_closure =
  oc_digest :: string
  oc_expected_case_count :: nat
  oc_observed_unique_case_count :: nat
  oc_missing_case_ids :: "string list"
  oc_unknown_case_ids :: "string list"
  oc_duplicate_case_ids :: "string list"
  oc_identity_drift_episode_ids :: "string list"
  oc_complete :: bool
  oc_standing :: string

text \<open>What both functions compute from the expected and the observed identifiers.\<close>

definition observation_closure_of ::
    "string \<Rightarrow> string list \<Rightarrow> string list \<Rightarrow> string list \<Rightarrow> observation_closure" where
  "observation_closure_of digest expected observed drift =
     (let missing = sort (remdups (filter (\<lambda>k. k \<notin> set observed) expected));
          unknown = sort (remdups (filter (\<lambda>k. k \<notin> set expected) observed));
          duplicates = sort (remdups (filter (\<lambda>k. count_list observed k > 1) observed));
          drift_ids = sort (remdups drift);
          complete = (missing = [] \<and> unknown = [] \<and> duplicates = [] \<and> drift_ids = [])
      in \<lparr>oc_digest = digest, oc_expected_case_count = card (set expected),
          oc_observed_unique_case_count = card (set observed \<inter> set expected),
          oc_missing_case_ids = missing, oc_unknown_case_ids = unknown,
          oc_duplicate_case_ids = duplicates, oc_identity_drift_episode_ids = drift_ids,
          oc_complete = complete, oc_standing = (if complete then ''STRUCTURAL'' else ''PARTIAL'')\<rparr>)"

definition episode_id_of :: "(json \<Rightarrow> string) \<Rightarrow> dict \<Rightarrow> string" where
  "episode_id_of repr d =
     (let s = py_strip (py_str repr (dict_get d ''episode_id'' (JStr [])))
      in if s = [] then ''<missing-episode-id>'' else s)"

definition gymact_of :: "dict \<Rightarrow> dict option" where
  "gymact_of d = (case map_of d ''gymact'' of Some (JObj g) \<Rightarrow> Some g | _ \<Rightarrow> None)"

text \<open>The disjunction of four comparisons, from left to right; \<open>int\<close> may raise.\<close>

definition drifts ::
    "(json \<Rightarrow> string) \<Rightarrow> (string \<Rightarrow> int option) \<Rightarrow> dict \<Rightarrow> dict \<Rightarrow> manifest_case \<Rightarrow> bool res" where
  "drifts repr parse d g expected =
     (if py_str repr (dict_get d ''policy_id'' (JStr [])) \<noteq> mc_analysis_policy_id expected then Inr True
      else if py_str repr (dict_get g ''scenario_id'' (JStr [])) \<noteq> mc_scenario_id expected then Inr True
      else bind_res (py_int parse (dict_get g ''repetition'' (JInt (-1)))) (\<lambda>repetition.
        if repetition \<noteq> int (mc_repetition expected) then Inr True
        else bind_res (py_int parse (dict_get g ''seed'' (JInt (-1)))) (\<lambda>seed.
          Inr (seed \<noteq> int (mc_seed expected)))))"

text \<open>One document: the lists \<open>observed_ids\<close> and \<open>drift\<close> afterwards.\<close>

definition observe_document ::
    "(json \<Rightarrow> string) \<Rightarrow> (string \<Rightarrow> int option) \<Rightarrow> survival_manifest \<Rightarrow> dict \<Rightarrow>
       string list \<times> string list \<Rightarrow> (string list \<times> string list) res" where
  "observe_document repr parse m d = (\<lambda>(observed, drift).
     let episode_id = episode_id_of repr d
     in case gymact_of d of
          None \<Rightarrow> Inr (observed, drift @ [episode_id])
        | Some g \<Rightarrow>
            let k = py_strip (py_str repr (dict_get g ''run_case_id'' (JStr [])))
            in if k = [] then Inr (observed, drift @ [episode_id])
               else case by_id mc_case_id (sm_cases m) k of
                      None \<Rightarrow> Inr (observed @ [k], drift)
                    | Some expected \<Rightarrow> bind_res (drifts repr parse d g expected) (\<lambda>b.
                        Inr (observed @ [k], if b then drift @ [episode_id] else drift)))"

definition qualify_observation_closure ::
    "digest_fun \<Rightarrow> (json \<Rightarrow> string) \<Rightarrow> (string \<Rightarrow> int option) \<Rightarrow> survival_manifest \<Rightarrow> dict list \<Rightarrow>
       observation_closure res" where
  "qualify_observation_closure H repr parse m documents =
     bind_res (fold_res (observe_document repr parse m) documents ([], [])) (\<lambda>(observed, drift).
       Inr (observation_closure_of (manifest_digest H m) (map mc_case_id (sm_cases m)) observed drift))"

section \<open>Closures of campaigns\<close>

definition campaign_drifts ::
    "digest_fun \<Rightarrow> (json \<Rightarrow> string) \<Rightarrow> survival_campaign \<Rightarrow> dict \<Rightarrow> dict \<Rightarrow> campaign_case \<Rightarrow> bool" where
  "campaign_drifts H repr c d g expected \<longleftrightarrow>
     py_str repr (dict_get g ''campaign_id'' (JStr [])) \<noteq> cp_campaign_id c \<or>
     py_str repr (dict_get g ''campaign_spec_digest'' (JStr [])) \<noteq> cp_spec_digest c \<or>
     py_str repr (dict_get g ''run_case_id'' (JStr [])) \<noteq> case_id H (cc_run_case expected) \<or>
     dict_get g ''fault_plan_id'' JNull \<noteq> opt_json (map_option sp_plan_id (cc_fault_plan expected)) \<or>
     \<not> py_bool (dict_get g ''synthetic'' JNull) \<or>
     py_str repr (dict_get d ''policy_id'' (JStr [])) \<noteq> analysis_policy_id H (cc_run_case expected)"

definition observe_campaign_document ::
    "digest_fun \<Rightarrow> (json \<Rightarrow> string) \<Rightarrow> survival_campaign \<Rightarrow> dict \<Rightarrow>
       string list \<times> string list \<Rightarrow> string list \<times> string list" where
  "observe_campaign_document H repr c d = (\<lambda>(observed, drift).
     let episode_id = episode_id_of repr d
     in case gymact_of d of
          None \<Rightarrow> (observed @ [episode_id], drift @ [episode_id])
        | Some g \<Rightarrow>
            (observed @ [episode_id],
             case by_id (campaign_case_id H) (cp_cases c) episode_id of
               None \<Rightarrow> drift
             | Some expected \<Rightarrow>
                 if campaign_drifts H repr c d g expected then drift @ [episode_id] else drift))"

definition qualify_campaign_observation_closure ::
    "digest_fun \<Rightarrow> (json \<Rightarrow> string) \<Rightarrow> survival_campaign \<Rightarrow> dict list \<Rightarrow> observation_closure" where
  "qualify_campaign_observation_closure H repr c documents =
     (let (observed, drift) = fold (observe_campaign_document H repr c) documents ([], [])
      in observation_closure_of (campaign_digest H c) (map (campaign_case_id H) (cp_cases c)) observed drift)"

end
