(* ===== verification/Survival_Props.thy ===== *)
theory Survival_Props
  imports Survival_Observation "HOL-Library.Multiset"
begin

text \<open>
  Survival experiments enumerate exactly their factors, campaigns exactly their variants; a replay
  accepts exactly the campaigns with the manufactured cases, and the documents a campaign exports
  close it.
\<close>

section \<open>The factorial\<close>

text \<open>What is enumerated, without the seeds.\<close>

definition combinations ::
    "survival_experiment \<Rightarrow> (survival_cell \<times> factor_assignment list \<times> nat) list" where
  "combinations e = concat (map (\<lambda>c. concat (map (\<lambda>l. map (\<lambda>r. (c, assignments_of e l, r))
     [0..<sx_repetitions e]) (level_matrix e))) (matrix e))"

definition numbered ::
    "survival_experiment \<Rightarrow> nat \<Rightarrow> (survival_cell \<times> factor_assignment list \<times> nat) list \<Rightarrow>
       survival_run_case list" where
  "numbered e k ts = map (\<lambda>(i, c, a, r). \<lparr>rc_cell = c, rc_assignments = a, rc_repetition = r,
     rc_seed = sx_seed_base e + i\<rparr>) (enumerate k ts)"

lemma numbered_simps [simp]:
  "numbered e k [] = []"
  "numbered e k ((c, a, r) # ts) =
     \<lparr>rc_cell = c, rc_assignments = a, rc_repetition = r, rc_seed = sx_seed_base e + k\<rparr> # numbered e (Suc k) ts"
  by (simp_all add: numbered_def)

lemma numbered_append: "numbered e k (ts @ us) = numbered e k ts @ numbered e (k + length ts) us"
  by (simp add: numbered_def enumerate_append_eq)

lemma fold_numbered:
  assumes "\<And>x cs k. f x (cs, k) = (cs @ numbered e k (g x), k + length (g x))"
  shows "fold f xs (cs, k) = (cs @ numbered e k (concat (map g xs)), k + length (concat (map g xs)))"
  by (induction xs arbitrary: cs k) (simp_all add: assms numbered_append add.assoc)

lemma add_levels_eq:
  "add_levels e c l (cs, k) =
     (cs @ numbered e k (map (\<lambda>r. (c, assignments_of e l, r)) [0..<sx_repetitions e]), k + sx_repetitions e)"
proof -
  have "add_case e c (assignments_of e l) r (cs, k) =
      (cs @ numbered e k [(c, assignments_of e l, r)], k + length [(c, assignments_of e l, r)])" for r cs k
    by (simp add: add_case_def)
  from fold_numbered [of "add_case e c (assignments_of e l)" e "\<lambda>r. [(c, assignments_of e l, r)]", OF this]
  show ?thesis
    by (simp add: add_levels_def concat_map_singleton)
qed

lemma add_cell_eq:
  "add_cell e c (cs, k) =
     (let g = concat (map (\<lambda>l. map (\<lambda>r. (c, assignments_of e l, r)) [0..<sx_repetitions e]) (level_matrix e))
      in (cs @ numbered e k g, k + length g))"
  unfolding add_cell_def Let_def
  by (rule fold_numbered) (simp add: add_levels_eq)

lemma all_cells_eq:
  "fold (add_cell e) (matrix e) ([], 0) = (numbered e 0 (combinations e), length (combinations e))"
  using fold_numbered [of "add_cell e" e
    "\<lambda>c. concat (map (\<lambda>l. map (\<lambda>r. (c, assignments_of e l, r)) [0..<sx_repetitions e]) (level_matrix e))"
    "matrix e" "[]" 0]
  by (simp add: add_cell_eq Let_def combinations_def)

lemma length_level_matrix: "length (level_matrix e) = prod_list (map (\<lambda>f. length (sfac_levels f)) (sx_factors e))"
  by (simp add: level_matrix_def length_product_lists prod_list.eq_foldr comp_def)

lemma length_combinations: "length (combinations e) = case_count e"
  by (simp add: combinations_def length_concat comp_def sum_list_triv matrix_def length_level_matrix
      case_count_def mult_ac)

lemma cases_of_eq: "cases_of e = Inr (numbered e 0 (combinations e))"
  by (simp add: cases_of_def all_cells_eq length_combinations numbered_def)

lemma numbered_fields:
  "map rc_seed (numbered e k ts) = [sx_seed_base e + k..<sx_seed_base e + k + length ts]"
  "map (\<lambda>c. (rc_cell c, rc_assignments c, rc_repetition c)) (numbered e k ts) = ts"
proof (induction ts arbitrary: k)
  case (Cons t ts)
  obtain c a r where t: "t = (c, a, r)" by (metis prod_cases3)
  { case 1 show ?case using Cons.IH(1) [of "Suc k"] by (simp add: t upt_conv_Cons del: upt_Suc) }
  { case 2 show ?case using Cons.IH(2) by (simp add: t) }
qed simp_all

lemma set_level_matrix:
  "set (level_matrix e) = {ls. list_all2 (\<lambda>l f. l \<in> set (sfac_levels f)) ls (sx_factors e)}"
  by (auto simp: level_matrix_def product_lists_set list_all2_map2)

lemma assignments_inj:
  "length ls = length (sx_factors e) \<Longrightarrow> length ls' = length (sx_factors e) \<Longrightarrow>
     assignments_of e ls = assignments_of e ls' \<Longrightarrow> ls = ls'"
proof -
  have "map fa_level (assignments_of e ls) = ls" if "length ls = length (sx_factors e)" for ls
    using that by (simp add: assignments_of_def comp_def case_prod_beta)
  then show "length ls = length (sx_factors e) \<Longrightarrow> length ls' = length (sx_factors e) \<Longrightarrow>
     assignments_of e ls = assignments_of e ls' \<Longrightarrow> ls = ls'" by metis
qed

lemma set_matrix: "set (matrix e) = {\<lparr>cl_scenario = s, cl_policy = p\<rparr> |s p. s \<in> set (sx_scenarios e) \<and> p \<in> set (sx_policies e)}"
  by (auto simp: matrix_def)

lemma set_combinations:
  "set (combinations e) =
     {(\<lparr>cl_scenario = s, cl_policy = p\<rparr>, assignments_of e ls, r) |s p ls r.
        s \<in> set (sx_scenarios e) \<and> p \<in> set (sx_policies e) \<and>
        list_all2 (\<lambda>l f. l \<in> set (sfac_levels f)) ls (sx_factors e) \<and> r < sx_repetitions e}"
proof -
  have levels: "list_all2 (\<lambda>l f. l \<in> set (sfac_levels f)) ls (sx_factors e) \<longleftrightarrow> ls \<in> set (level_matrix e)" for ls
    by (simp add: set_level_matrix)
  show ?thesis unfolding levels by (fastforce simp: combinations_def matrix_def)
qed

lemma validate_experiment_iff:
  "validate_experiment e = Inr x \<longleftrightarrow> x = e \<and> sx_scenarios e \<noteq> [] \<and> sx_policies e \<noteq> [] \<and>
     distinct (map scen_id (sx_scenarios e)) \<and> distinct (map spol_id (sx_policies e)) \<and>
     distinct (map sfac_name (sx_factors e)) \<and> case_count e \<le> sx_max_cases e"
  by (auto simp: validate_experiment_def)

text \<open>Blocks that differ in what they start from are distinct together.\<close>

lemma distinct_blocks:
  "distinct xs \<Longrightarrow> (\<And>x. x \<in> set xs \<Longrightarrow> distinct (f x)) \<Longrightarrow>
     (\<And>x y z. x \<in> set xs \<Longrightarrow> y \<in> set xs \<Longrightarrow> z \<in> set (f x) \<Longrightarrow> z \<in> set (f y) \<Longrightarrow> x = y) \<Longrightarrow>
     distinct (concat (map f xs))"
proof (induction xs)
  case (Cons x xs)
  have "distinct (concat (map f xs))" using Cons by auto
  moreover have "set (f x) \<inter> set (concat (map f xs)) = {}" using Cons.prems by fastforce
  ultimately show ?case using Cons.prems(2) by simp
qed simp

lemma distinct_combinations:
  assumes "validate_experiment e = Inr e" "\<forall>f \<in> set (sx_factors e). validate_factor f = Inr f"
  shows "distinct (combinations e)"
proof -
  have scenarios: "distinct (sx_scenarios e)" "distinct (sx_policies e)"
    using assms(1) unfolding validate_experiment_iff by (auto intro: distinct_map [THEN iffD1, THEN conjunct1])
  have "distinct (matrix e)"
    unfolding matrix_def using scenarios by (intro distinct_blocks) (auto simp: distinct_map inj_on_def)
  moreover have "distinct (level_matrix e)"
  proof -
    have "distinct (sfac_levels f)" if "f \<in> set (sx_factors e)" for f
      using assms(2) that by (auto simp: validate_factor_def split: if_splits)
    then show ?thesis by (auto simp: level_matrix_def intro!: distinct_product_lists)
  qed
  moreover have "ls = ls'" if "ls \<in> set (level_matrix e)" "ls' \<in> set (level_matrix e)"
    "assignments_of e ls = assignments_of e ls'" for ls ls'
    using that assignments_inj unfolding set_level_matrix by (blast dest: list_all2_lengthD)
  ultimately show ?thesis
    unfolding combinations_def by (intro distinct_blocks) (auto simp: distinct_map inj_on_def)
qed

text \<open>Over validated factors an experiment enumerates its cases without failing: as
  many as \<open>case_count\<close> says and no more than its bound, every combination of scenario, policy,
  levels and repetition exactly once, numbered by consecutive seeds from \<open>seed_base\<close>. The check
  that the factorial is closed never fails.\<close>

theorem cases_exact:
  assumes "validate_experiment e = Inr e" "\<forall>f \<in> set (sx_factors e). validate_factor f = Inr f"
  shows "\<exists>cs. cases_of e = Inr cs \<and> length cs = case_count e \<and> case_count e \<le> sx_max_cases e \<and>
    map rc_seed cs = [sx_seed_base e..<sx_seed_base e + case_count e] \<and>
    distinct (map (\<lambda>c. (rc_cell c, rc_assignments c, rc_repetition c)) cs) \<and>
    set (map (\<lambda>c. (rc_cell c, rc_assignments c, rc_repetition c)) cs) =
      {(\<lparr>cl_scenario = s, cl_policy = p\<rparr>, assignments_of e ls, r) |s p ls r.
         s \<in> set (sx_scenarios e) \<and> p \<in> set (sx_policies e) \<and>
         list_all2 (\<lambda>l f. l \<in> set (sfac_levels f)) ls (sx_factors e) \<and> r < sx_repetitions e}"
proof -
  note fields = numbered_fields [of e 0 "combinations e"]
  have "length (numbered e 0 (combinations e)) = case_count e"
    using arg_cong [OF fields(2), of length] by (simp add: length_combinations)
  moreover have "case_count e \<le> sx_max_cases e" using assms(1) by (simp add: validate_experiment_iff)
  ultimately show ?thesis
    using distinct_combinations [OF assms] fields set_combinations [of e]
    by (intro exI [of _ "numbered e 0 (combinations e)"]) (simp only: cases_of_eq length_combinations add_0_right)
qed

section \<open>A small campaign\<close>

definition demo_survival :: survival_experiment where
  "demo_survival =
     \<lparr>sx_experiment_id = ''demo'',
      sx_scenarios = [\<lparr>scen_id = ''s'', scen_subject = ''subject'', scen_workload_id = ''w'', scen_horizon = 3,
        scen_terminal_predicate_ref = ''done''\<rparr>],
      sx_policies = take 2 canonical_policy_suite, sx_factors = take 1 canonical_fault_suite,
      sx_repetitions = 1, sx_seed_base = 0, sx_max_cases = 100000\<rparr>"

definition demo_steps :: "survival_step list" where
  "demo_steps =
     [(plain_step 1 PH_OBSERVE)\<lparr>st_tool_invoked := True\<rparr>, plain_step 2 PH_VERIFY,
      (plain_step 3 PH_DO)\<lparr>st_receipt_id := Some ''synthetic:baseline-receipt'', st_replay_verified := True\<rparr>]"

definition demo_template :: trace_template where
  "demo_template = \<lparr>tt_template_id = ''canonical:observe-verify-do:h3'', tt_steps = demo_steps\<rparr>"

definition demo_spec :: campaign_spec where
  "demo_spec =
     \<lparr>cs_campaign_id = ''demo'', cs_experiment = demo_survival, cs_template = demo_template,
      cs_fault_kinds = canonical_fault_kinds, cs_include_baseline = True, cs_llm_burst_magnitude = 100,
      cs_max_campaign_cases = 250000\<rparr>"

lemma demo_template_canonical: "canonical_trace_template 3 = Inr demo_template"
  by code_simp

lemma demo_template_valid: "validate_template demo_template = Inr demo_template"
  by (simp add: demo_template_def demo_steps_def validate_template_def plain_step_def)

lemma demo_survival_valid: "validate_experiment demo_survival = Inr demo_survival"
  by (simp add: validate_experiment_iff demo_survival_def case_count_def canonical_policy_suite_def
      canonical_fault_suite_def)

lemma demo_factors_valid: "\<forall>f \<in> set (sx_factors demo_survival). validate_factor f = Inr f"
  by (simp add: demo_survival_def canonical_fault_suite_def validate_factor_def py_strip_def py_space_def
      Let_def)

theorem cases_exact_witness:
  "\<exists>cs. cases_of demo_survival = Inr cs \<and> length cs = 6 \<and> map rc_seed cs = [0, 1, 2, 3, 4, 5]"
proof -
  have "case_count demo_survival = 6"
    by (simp add: demo_survival_def case_count_def canonical_policy_suite_def canonical_fault_suite_def)
  moreover have "sx_seed_base demo_survival = 0" by (simp add: demo_survival_def)
  ultimately show ?thesis
    using cases_exact [OF demo_survival_valid demo_factors_valid] by (auto simp: upt_rec)
qed

section \<open>Single faults\<close>

lemma dict_set_new: "k \<notin> fst ` set d \<Longrightarrow> dict_set k v d = d @ [(k, v)]"
  by (induction k v d rule: dict_set.induct) auto

lemma fold_dict_set:
  "distinct (map f xs) \<Longrightarrow> f ` set xs \<inter> fst ` set d = {} \<Longrightarrow>
     fold (\<lambda>x. dict_set (f x) x) xs d = d @ map (\<lambda>x. (f x, x)) xs"
proof (induction xs arbitrary: d)
  case (Cons x xs)
  then have "dict_set (f x) x d = d @ [(f x, x)]" by (simp add: dict_set_new)
  then show ?case using Cons by auto
qed simp

lemma dict_set_map:
  "distinct (map f xs) \<Longrightarrow> x \<in> set xs \<Longrightarrow>
     dict_set (f x) v (map (\<lambda>y. (f y, y)) xs) = map (\<lambda>y. (f y, if y = x then v else y)) xs"
proof (induction xs)
  case (Cons y xs)
  show ?case
  proof (cases "y = x")
    case True
    with Cons.prems(1) have "map (\<lambda>z. (f z, if z = x then v else z)) xs = map (\<lambda>z. (f z, z)) xs"
      by (intro map_cong) auto
    with True show ?thesis by simp
  next
    case False
    with Cons show ?thesis by auto
  qed
qed simp

lemma map_of_steps: "distinct (map f xs) \<Longrightarrow> x \<in> set xs \<Longrightarrow> map_of (map (\<lambda>y. (f y, y)) xs) (f x) = Some x"
  by (rule map_of_is_SomeI) (auto simp: comp_def)

text \<open>The fault a plan carries, where the constructors accept it.\<close>

definition the_fault :: "nat \<Rightarrow> survival_step \<Rightarrow> survival_fault_kind \<Rightarrow> survival_fault" where
  "the_fault burst s k =
     \<lparr>sf_kind = k, sf_target_step = st_step s, sf_magnitude = (if k = LLM_TOKEN_BURST then burst else 0)\<rparr>"

definition the_plan :: "nat \<Rightarrow> survival_step \<Rightarrow> survival_fault_kind \<Rightarrow> survival_fault_plan" where
  "the_plan burst s k =
     \<lparr>sp_plan_id = ''fault:'' @ fault_kind_value k @ '':step-'' @ nat_decimal (st_step s),
      sp_faults = [the_fault burst s k]\<rparr>"

definition lawful :: "survival_step \<times> survival_fault_kind \<Rightarrow> bool" where
  "lawful e \<longleftrightarrow> (do_only (snd e) \<longrightarrow> st_phase (fst e) = PH_DO)"

lemma single_fault_plan_eq: "1 \<le> burst \<Longrightarrow> single_fault_plan burst s k = Inr (the_plan burst s k)"
  by (simp add: single_fault_plan_def validate_fault_def validate_plan_def the_plan_def the_fault_def)

lemma single_fault_plans_eq:
  "1 \<le> burst \<Longrightarrow> single_fault_plans burst es = Inr (map (\<lambda>(s, k). the_plan burst s k) (filter lawful es))"
  by (induction burst es rule: single_fault_plans.induct)
    (simp_all add: single_fault_plan_eq lawful_def)

lemma mutate_step_returns:
  "lawful (s, k) \<Longrightarrow> \<exists>s'. mutate_step s (the_fault burst s k) = Inr s' \<and> st_step s' = st_step s"
  by (cases k) (auto simp: mutate_step_def require_do_def the_fault_def lawful_def do_only_def)

lemma validate_template_iff:
  "validate_template t = Inr t' \<longleftrightarrow> t' = t \<and> tt_steps t \<noteq> [] \<and> distinct (map st_step (tt_steps t)) \<and>
     sorted (map st_step (tt_steps t))"
proof -
  have order: "map st_step (tt_steps t) \<noteq> sort (map st_step (tt_steps t)) \<longleftrightarrow> \<not> sorted (map st_step (tt_steps t))"
    using sorted_sort sort_key_id_if_sorted [of "\<lambda>x. x" "map st_step (tt_steps t)"]
    by (metis map_ident)
  show ?thesis unfolding validate_template_def Let_def order by auto
qed

definition faulted :: "nat \<Rightarrow> survival_step list \<Rightarrow> survival_step \<Rightarrow> survival_fault_kind \<Rightarrow> survival_step list" where
  "faulted burst steps s k =
     map (\<lambda>x. if x = s then case_sum (\<lambda>_. s) (\<lambda>s'. s') (mutate_step s (the_fault burst s k)) else x) steps"

lemma apply_single:
  assumes "distinct (map st_step steps)" "sorted (map st_step steps)" "s \<in> set steps" "lawful (s, k)"
  shows "\<exists>application. apply_survival_fault_plan H steps (the_plan burst s k) =
      Inr (faulted burst steps s k, application) \<and>
    fp_plan_digest application = plan_digest H (the_plan burst s k) \<and>
    fp_touched_steps application = [st_step s]"
proof -
  obtain s' where s': "mutate_step s (the_fault burst s k) = Inr s'" "st_step s' = st_step s"
    using mutate_step_returns [OF assms(4)] by blast
  let ?d = "map (\<lambda>y. (st_step y, y)) steps" and ?after = "map (\<lambda>y. (st_step y, if y = s then s' else y)) steps"
  have init: "fold (\<lambda>x. dict_set (st_step x) x) steps [] = ?d"
    using fold_dict_set [OF assms(1), of "[]"] by simp
  have "apply_faults [the_fault burst s k] ?d [] = Inr (?after, [st_step s])"
    using map_of_steps [OF assms(1,3)] dict_set_map [OF assms(1,3), of s'] s'(1)
    by (simp add: the_fault_def)
  moreover have "sort_key fst ?after = ?after"
    using assms(2) by (intro sort_key_id_if_sorted) (simp add: comp_def)
  moreover have "map snd ?after = faulted burst steps s k" by (simp add: comp_def faulted_def s'(1))
  ultimately show ?thesis
    by (simp add: apply_survival_fault_plan_def init Let_def the_plan_def)
qed

section \<open>Campaigns\<close>

text \<open>The lawful single faults of a specification, in the order of the loops.\<close>

definition spec_faults :: "campaign_spec \<Rightarrow> (survival_step \<times> survival_fault_kind) list" where
  "spec_faults spec = filter lawful (List.product (tt_steps (cs_template spec)) (cs_fault_kinds spec))"

lemma fault_plans_eq:
  "1 \<le> cs_llm_burst_magnitude spec \<Longrightarrow>
     fault_plans spec = Inr (map (\<lambda>(s, k). the_plan (cs_llm_burst_magnitude spec) s k) (spec_faults spec))"
  by (simp add: fault_plans_def manufacture_single_fault_plans_def single_fault_plans_eq spec_faults_def)

definition fault_case ::
    "digest_fun \<Rightarrow> campaign_spec \<Rightarrow> survival_run_case \<Rightarrow> survival_step \<times> survival_fault_kind \<Rightarrow> campaign_case" where
  "fault_case H spec rc = (\<lambda>(s, k).
     make_case H spec rc (Some (the_plan (cs_llm_burst_magnitude spec) s k))
       (faulted (cs_llm_burst_magnitude spec) (tt_steps (cs_template spec)) s k))"

definition case_variants :: "digest_fun \<Rightarrow> campaign_spec \<Rightarrow> survival_run_case \<Rightarrow> campaign_case list" where
  "case_variants H spec rc =
     (if cs_include_baseline spec then [make_case H spec rc None (tt_steps (cs_template spec))] else []) @
     map (fault_case H spec rc) (spec_faults spec)"

lemma plan_cases_eq:
  assumes "validate_template (cs_template spec) = Inr t"
  shows "set es \<subseteq> set (spec_faults spec) \<Longrightarrow>
    plan_cases H spec rc (map (\<lambda>(s, k). the_plan (cs_llm_burst_magnitude spec) s k) es) =
      Inr (map (fault_case H spec rc) es)"
proof (induction es)
  case (Cons e es)
  obtain s k where e: "e = (s, k)" by (metis surj_pair)
  with Cons.prems have "s \<in> set (tt_steps (cs_template spec))" "lawful (s, k)" by (auto simp: spec_faults_def)
  with assms apply_single [of "tt_steps (cs_template spec)" s k H] obtain application where
    "apply_survival_fault_plan H (tt_steps (cs_template spec)) (the_plan (cs_llm_burst_magnitude spec) s k) =
      Inr (faulted (cs_llm_burst_magnitude spec) (tt_steps (cs_template spec)) s k, application)"
    "fp_plan_digest application = plan_digest H (the_plan (cs_llm_burst_magnitude spec) s k)"
    unfolding validate_template_iff by blast
  with Cons show ?case by (simp add: e fault_case_def)
qed simp

lemma run_cases_eq:
  assumes "validate_template (cs_template spec) = Inr t"
  shows "run_cases H spec (map (\<lambda>(s, k). the_plan (cs_llm_burst_magnitude spec) s k) (spec_faults spec)) rcs =
    Inr (concat (map (case_variants H spec) rcs))"
  by (induction rcs) (simp_all add: plan_cases_eq [OF assms] case_variants_def)

lemma length_case_variants:
  "length (concat (map (case_variants H spec) rcs)) =
     length rcs * (length (spec_faults spec) + (if cs_include_baseline spec then 1 else 0))"
  by (induction rcs) (simp_all add: case_variants_def algebra_simps)

lemma campaign_case_count_eq:
  "1 \<le> cs_llm_burst_magnitude spec \<Longrightarrow> campaign_case_count spec =
     Inr (case_count (cs_experiment spec) *
       (length (spec_faults spec) + (if cs_include_baseline spec then 1 else 0)))"
  by (simp add: campaign_case_count_def variants_per_run_case_def fault_plans_eq)

lemma numbered_length: "length (numbered e k ts) = length ts"
  by (simp add: numbered_def)

lemma manufacture_eq:
  fixes H :: digest_fun
  assumes "validate_template (cs_template spec) = Inr t" "1 \<le> cs_llm_burst_magnitude spec"
    and "cases_of (cs_experiment spec) = Inr rcs"
  defines "cs \<equiv> concat (map (case_variants H spec) rcs)"
  shows "manufacture_survival_campaign H spec =
    (if distinct (map (campaign_case_id H) cs)
     then Inr \<lparr>cp_campaign_id = cs_campaign_id spec, cp_spec_digest = spec_digest H spec, cp_cases = cs\<rparr>
     else Inl (Raised ''AssertionError'' ''SURVIVAL_CAMPAIGN_CASE_ID_COLLISION''))"
proof -
  have "length rcs = case_count (cs_experiment spec)"
    using assms(3) by (auto simp: cases_of_eq numbered_length length_combinations)
  then have "length cs = case_count (cs_experiment spec) *
      (length (spec_faults spec) + (if cs_include_baseline spec then 1 else 0))"
    by (simp add: cs_def length_case_variants)
  moreover have "card (set (map (campaign_case_id H) cs)) = length cs \<longleftrightarrow> distinct (map (campaign_case_id H) cs)"
    using card_distinct [of "map (campaign_case_id H) cs"] distinct_card [of "map (campaign_case_id H) cs"]
    by auto
  ultimately show ?thesis
    by (simp add: manufacture_survival_campaign_def fault_plans_eq [OF assms(2)] assms(3)
        run_cases_eq [OF assms(1)] campaign_case_count_eq [OF assms(2)] flip: cs_def)
qed

lemma validate_spec_horizon:
  assumes "validate_spec spec = Inr x" "s \<in> set (sx_scenarios (cs_experiment spec))"
    "t \<in> set (tt_steps (cs_template spec))"
  shows "st_step t \<le> scen_horizon s"
proof -
  let ?max = "Max (set (map st_step (tt_steps (cs_template spec))))"
  have "filter (\<lambda>s. scen_horizon s < ?max) (sx_scenarios (cs_experiment spec)) = []"
    using assms(1) by (auto simp: validate_spec_def Let_def split: if_splits)
  with assms(2) have "?max \<le> scen_horizon s" by (auto simp: filter_empty_conv not_less)
  moreover have "st_step t \<le> ?max" using assms(3) by (intro Max_ge) auto
  ultimately show ?thesis by simp
qed

lemma faulted_numbers:
  assumes "lawful (s, k)"
  shows "map st_step (faulted burst steps s k) = map st_step steps"
proof -
  from mutate_step_returns [OF assms] obtain s' where "mutate_step s (the_fault burst s k) = Inr s'"
    "st_step s' = st_step s" by blast
  then show ?thesis by (simp add: faulted_def comp_def cong: map_cong)
qed

lemma to_episode_returns:
  assumes "validate_template (cs_template spec) = Inr t" "validate_spec spec = Inr x"
    and "cases_of (cs_experiment spec) = Inr rcs" "rc \<in> set rcs" "c \<in> set (case_variants H spec rc)"
  shows "to_episode H c = Inr
    \<lparr>ep_episode_id = campaign_case_id H c, ep_cell = rc_cell rc, ep_steps = cc_steps c, ep_run_case = Some rc\<rparr>"
proof -
  have rc: "cc_run_case c = rc" and numbers: "map st_step (cc_steps c) = map st_step (tt_steps (cs_template spec))"
    using assms(5) faulted_numbers
    by (auto simp: case_variants_def fault_case_def make_case_def spec_faults_def split: if_splits)
  have "(rc_cell rc, rc_assignments rc, rc_repetition rc) \<in> set (combinations (cs_experiment spec))"
    using assms(3,4) numbered_fields(2) [of "cs_experiment spec" 0 "combinations (cs_experiment spec)"]
    by (metis (mono_tags, lifting) cases_of_eq image_eqI list.set_map sum.inject(2))
  then have "cl_scenario (rc_cell rc) \<in> set (sx_scenarios (cs_experiment spec))"
    by (auto simp: set_combinations)
  from validate_spec_horizon [OF assms(2) this]
  have "\<forall>n \<in> set (map st_step (tt_steps (cs_template spec))). n \<le> scen_horizon (cl_scenario (rc_cell rc))"
    by auto
  then have "\<not> scen_horizon (cl_scenario (rc_cell rc)) < Max (set (map st_step (cc_steps c)))"
    if "map st_step (cc_steps c) \<noteq> []"
    using that unfolding numbers not_less by (subst Max_le_iff) auto
  moreover have "distinct (map st_step (cc_steps c))"
    using assms(1) unfolding numbers validate_template_iff by simp
  ultimately show ?thesis by (auto simp: to_episode_def validate_episode_def Let_def rc)
qed

lemma variant_listing:
  "map (\<lambda>c. (cc_run_case c, cc_fault_plan c)) (case_variants H spec rc) =
     map (Pair rc) ((if cs_include_baseline spec then [None] else []) @
       map Some (map (\<lambda>(s, k). the_plan (cs_llm_burst_magnitude spec) s k) (spec_faults spec)))"
  by (simp add: case_variants_def fault_case_def make_case_def case_prod_beta comp_def)

lemma variants_listing:
  "map (\<lambda>c. (cc_run_case c, cc_fault_plan c)) (concat (map (case_variants H spec) rcs)) =
     List.product rcs ((if cs_include_baseline spec then [None] else []) @
       map Some (map (\<lambda>(s, k). the_plan (cs_llm_burst_magnitude spec) s k) (spec_faults spec)))"
  by (induction rcs) (simp_all only: list.map concat.simps map_append variant_listing product.simps)

lemma variant_steps:
  assumes "validate_template (cs_template spec) = Inr t" "c \<in> set (case_variants H spec rc)"
  shows "case cc_fault_plan c of None \<Rightarrow> cc_steps c = tt_steps (cs_template spec)
    | Some p \<Rightarrow> \<exists>a. apply_survival_fault_plan H (tt_steps (cs_template spec)) p = Inr (cc_steps c, a)"
proof -
  from assms(1) have steps: "distinct (map st_step (tt_steps (cs_template spec)))"
    "sorted (map st_step (tt_steps (cs_template spec)))" unfolding validate_template_iff by auto
  show ?thesis
    using assms(2) apply_single [OF steps, of _ _ H "cs_llm_burst_magnitude spec"]
    by (fastforce simp: case_variants_def fault_case_def make_case_def spec_faults_def split: if_splits)
qed


lemma demo_spec_valid: "validate_spec demo_spec = Inr demo_spec"
proof -
  have "length (spec_faults demo_spec) = 12"
    by (simp add: spec_faults_def demo_spec_def demo_template_def demo_steps_def canonical_fault_kinds_def
        lawful_def do_only_def plain_step_def)
  moreover have "case_count (cs_experiment demo_spec) = 6"
    by (simp add: demo_spec_def demo_survival_def case_count_def canonical_policy_suite_def
        canonical_fault_suite_def)
  ultimately have "campaign_case_count demo_spec = Inr 78"
    using campaign_case_count_eq [of demo_spec] by (simp add: demo_spec_def)
  moreover have "st_step ` set (tt_steps (cs_template demo_spec)) = {1, 2, 3}"
    by (simp add: demo_spec_def demo_template_def demo_steps_def plain_step_def)
  moreover have "sx_scenarios (cs_experiment demo_spec) = [\<lparr>scen_id = ''s'', scen_subject = ''subject'',
      scen_workload_id = ''w'', scen_horizon = 3, scen_terminal_predicate_ref = ''done''\<rparr>]"
    "distinct (cs_fault_kinds demo_spec)" "cs_max_campaign_cases demo_spec = 250000"
    by (simp_all add: demo_spec_def demo_survival_def canonical_fault_kinds_def)
  ultimately show ?thesis by (simp add: validate_spec_def)
qed


text \<open>
  A blackout of a step that invokes no tool changes nothing: the variants for the last two steps of
  the canonical template are the baseline again.
\<close>

theorem blackout_without_tool_is_baseline:
  "\<exists>a b. apply_survival_fault_plan H demo_steps (the_plan 100 (demo_steps ! 1) TOOL_BLACKOUT) = Inr (demo_steps, a) \<and>
     apply_survival_fault_plan H demo_steps (the_plan 100 (demo_steps ! 2) TOOL_BLACKOUT) = Inr (demo_steps, b)"
proof -
  have "distinct (map st_step demo_steps)" "sorted (map st_step demo_steps)"
    by (simp_all add: demo_steps_def plain_step_def)
  note single = apply_single [OF this, where H = H and burst = 100 and k = TOOL_BLACKOUT]
  have "faulted 100 demo_steps (demo_steps ! 1) TOOL_BLACKOUT = demo_steps"
    "faulted 100 demo_steps (demo_steps ! 2) TOOL_BLACKOUT = demo_steps"
    by (simp_all add: faulted_def demo_steps_def plain_step_def mutate_step_def the_fault_def)
  moreover have "demo_steps ! 1 \<in> set demo_steps" "demo_steps ! 2 \<in> set demo_steps"
    by (simp_all add: demo_steps_def)
  ultimately show ?thesis using single by (simp add: lawful_def do_only_def) metis
qed

section \<open>Replays\<close>

lemma by_id_distinct:
  "distinct (map f cs) \<Longrightarrow> by_id f cs k = Some c \<longleftrightarrow> c \<in> set cs \<and> f c = k"
  unfolding by_id_def by (subst map_of_eq_Some_iff) (auto simp: rev_map [symmetric] comp_def)

lemma sorted_ids_empty: "sorted_ids f P cs = [] \<longleftrightarrow> (\<forall>c \<in> set cs. \<not> P (f c))"
proof -
  have "sorted_ids f P cs = [] \<longleftrightarrow> set (sorted_ids f P cs) = {}" by simp
  then show ?thesis unfolding sorted_ids_def by auto
qed

lemma set_sorted_ids: "set (sorted_ids f P cs) = {f c |c. c \<in> set cs \<and> P (f c)}"
  unfolding sorted_ids_def by auto

lemma drift_report_empty:
  assumes "distinct (map f left)" "distinct (map f right)"
  shows "drift_report prefix f left right = [] \<longleftrightarrow> mset left = mset right"
proof
  assume empty: "drift_report prefix f left right = []"
  then have keys: "\<forall>c \<in> set left. f c \<in> f ` set right" "\<forall>c \<in> set right. f c \<in> f ` set left"
    by (simp_all add: drift_report_def sorted_ids_empty)
  from empty have "\<forall>k \<in> set (sorted_ids f (\<lambda>k. k \<in> set (map f right)) left). by_id f left k = by_id f right k"
    by (simp add: drift_report_def filter_empty_conv)
  then have same: "by_id f left (f c) = by_id f right (f c)" if "c \<in> set left" for c
    using that keys(1) unfolding set_sorted_ids by fastforce
  have "c \<in> set right" if "c \<in> set left" for c
    using same [OF that] that by_id_distinct [OF assms(1)] by_id_distinct [OF assms(2)] by metis
  moreover have "c \<in> set left" if "c \<in> set right" for c
  proof -
    from that keys(2) obtain c' where c': "c' \<in> set left" "f c' = f c" by force
    with same [OF c'(1)] that show ?thesis
      using by_id_distinct [OF assms(1)] by_id_distinct [OF assms(2)] by metis
  qed
  ultimately have "set left = set right" by blast
  then show "mset left = mset right"
    using assms by (simp add: distinct_map set_eq_iff_mset_eq_distinct)
next
  assume "mset left = mset right"
  then have sets: "set left = set right" by (rule mset_eq_setD)
  have "by_id f left k = Some c \<longleftrightarrow> by_id f right k = Some c" for k c
    unfolding by_id_distinct [OF assms(1)] by_id_distinct [OF assms(2)] sets ..
  then have "by_id f left k = by_id f right k" for k by (metis option.exhaust)
  then show "drift_report prefix f left right = []"
    by (simp add: drift_report_def sorted_ids_empty sets)
qed

lemma flag_empty [simp]: "(if b then [x] else []) = [] \<longleftrightarrow> \<not> b"
  by simp

lemma manufacture_distinct:
  "manufacture_survival_campaign H spec = Inr c \<Longrightarrow>
     distinct (map (campaign_case_id H) (cp_cases c)) \<and> cp_campaign_id c = cs_campaign_id spec \<and>
     cp_spec_digest c = spec_digest H spec"
  by (auto simp: manufacture_survival_campaign_def bind_res_Inr_iff card_distinct split: if_splits
      intro!: card_distinct)

text \<open>C33: where the campaign of a specification can be manufactured, a replay
  returns, and it matches exactly the campaigns with the identifier, the digest of the specification
  and the same cases, each as often, in any order; in particular the manufactured one. Otherwise
  the replay names at least one mismatch.\<close>

theorem campaign_replay_exact:
  assumes "manufacture_survival_campaign H spec = Inr c"
  shows "\<exists>r. replay_survival_campaign H spec expected = Inr r \<and>
    (rr_matched r \<longleftrightarrow> cp_campaign_id expected = cs_campaign_id spec \<and>
       cp_spec_digest expected = spec_digest H spec \<and> mset (cp_cases expected) = mset (cp_cases c)) \<and>
    (rr_matched r \<longleftrightarrow> rr_mismatches r = [])"
proof -
  note d = manufacture_distinct [OF assms]
  have "distinct (map (campaign_case_id H) (cp_cases expected))" if "mset (cp_cases expected) = mset (cp_cases c)"
    using d that by (metis mset_eq_imp_distinct_iff mset_map)
  then have same: "length (cp_cases expected) = length (cp_cases c) \<and>
      distinct (map (campaign_case_id H) (cp_cases expected)) \<and>
      drift_report ''CAMPAIGN_CASE'' (campaign_case_id H) (cp_cases expected) (cp_cases c) = [] \<longleftrightarrow>
      mset (cp_cases expected) = mset (cp_cases c)"
    using drift_report_empty [of "campaign_case_id H" "cp_cases expected" "cp_cases c"] d
      mset_eq_length [of "cp_cases expected" "cp_cases c"] by blast
  have "replay_survival_campaign H spec expected = Inr r \<Longrightarrow>
      (rr_matched r \<longleftrightarrow> rr_mismatches r = []) \<and>
      (rr_mismatches r = [] \<longleftrightarrow> cp_campaign_id expected = cs_campaign_id spec \<and>
       cp_spec_digest expected = spec_digest H spec \<and>
       length (cp_cases expected) = length (cp_cases c) \<and>
       distinct (map (campaign_case_id H) (cp_cases expected)) \<and>
       drift_report ''CAMPAIGN_CASE'' (campaign_case_id H) (cp_cases expected) (cp_cases c) = [])" for r
    using d by (auto simp: replay_survival_campaign_def assms Let_def)
  moreover have "\<exists>r. replay_survival_campaign H spec expected = Inr r"
    by (simp add: replay_survival_campaign_def assms Let_def)
  ultimately show ?thesis unfolding same by blast
qed

text \<open>A campaign of one case, for a scenario identifier.\<close>

definition one_case_spec :: "string \<Rightarrow> campaign_spec" where
  "one_case_spec sid =
     \<lparr>cs_campaign_id = ''one'',
      cs_experiment =
        \<lparr>sx_experiment_id = ''one'',
         sx_scenarios = [\<lparr>scen_id = sid, scen_subject = ''subject'', scen_workload_id = ''w'',
           scen_horizon = 3, scen_terminal_predicate_ref = ''done''\<rparr>],
         sx_policies = take 1 canonical_policy_suite, sx_factors = [], sx_repetitions = 1,
         sx_seed_base = 0, sx_max_cases = 100\<rparr>,
      cs_template = demo_template, cs_fault_kinds = [], cs_include_baseline = True,
      cs_llm_burst_magnitude = 100, cs_max_campaign_cases = 100\<rparr>"

definition one_run_case :: "string \<Rightarrow> survival_run_case" where
  "one_run_case sid =
     \<lparr>rc_cell = \<lparr>cl_scenario = hd (sx_scenarios (cs_experiment (one_case_spec sid))),
        cl_policy = hd canonical_policy_suite\<rparr>, rc_assignments = [], rc_repetition = 0, rc_seed = 0\<rparr>"

definition one_case :: "digest_fun \<Rightarrow> string \<Rightarrow> campaign_case" where
  "one_case H sid = make_case H (one_case_spec sid) (one_run_case sid) None demo_steps"

definition one_campaign :: "digest_fun \<Rightarrow> string \<Rightarrow> survival_campaign" where
  "one_campaign H sid = \<lparr>cp_campaign_id = ''one'', cp_spec_digest = spec_digest H (one_case_spec sid),
     cp_cases = [one_case H sid]\<rparr>"

lemma one_cases: "cases_of (cs_experiment (one_case_spec sid)) = Inr [one_run_case sid]"
  by (simp add: cases_of_eq combinations_def matrix_def level_matrix_def assignments_of_def one_case_spec_def
      one_run_case_def canonical_policy_suite_def)

lemma one_template: "cs_template (one_case_spec sid) = demo_template" "1 \<le> cs_llm_burst_magnitude (one_case_spec sid)"
  by (simp_all add: one_case_spec_def)

lemma product_Nil [simp]: "List.product xs [] = []"
  by (induction xs) simp_all

lemma one_manufactured: "manufacture_survival_campaign H (one_case_spec sid) = Inr (one_campaign H sid)"
proof -
  have "case_variants H (one_case_spec sid) (one_run_case sid) = [one_case H sid]"
    by (simp add: case_variants_def spec_faults_def one_case_def one_case_spec_def demo_template_def
        case_prod_beta)
  then show ?thesis
    using manufacture_eq [OF _ one_template(2) one_cases, of sid demo_template H] demo_template_valid
    by (simp add: one_template(1) one_campaign_def) (simp add: one_case_spec_def)
qed

definition demo_digest :: digest_fun where
  "demo_digest v = ''0123456789abcdef''"

theorem campaign_replay_exact_witness:
  "\<exists>r. replay_survival_campaign demo_digest (one_case_spec ''s'') (one_campaign demo_digest ''s'') = Inr r \<and>
     rr_matched r"
  using campaign_replay_exact [OF one_manufactured, of demo_digest "''s''" "one_campaign demo_digest ''s''"]
  by (auto simp: one_campaign_def) (simp add: one_case_spec_def)

lemma right_ids_distinct:
  assumes "distinct (map f left)" "length left = length right" "drift_report prefix f left right = []"
  shows "distinct (map f right)"
proof -
  from assms(3) have "f ` set left = f ` set right"
    by (auto simp: drift_report_def sorted_ids_empty)
  then have "card (set (map f right)) = length (map f right)"
    using distinct_card [OF assms(1)] assms(2) by simp
  then show ?thesis by (rule card_distinct)
qed

text \<open>
  The replay of a manifest: it matches exactly the manifests of the experiment's identifier and
  digest with the same cases in any order, provided that no two of them share an identifier.
\<close>

theorem manifest_replay_exact:
  assumes "build_survival_manifest H e = Inr current"
  shows "\<exists>r. replay_survival_manifest H e m = Inr r \<and>
    (rr_matched r \<longleftrightarrow> sm_experiment_id m = sx_experiment_id e \<and>
       sm_experiment_digest m = experiment_digest H e \<and> distinct (map mc_case_id (sm_cases m)) \<and>
       mset (sm_cases m) = mset (sm_cases current))"
proof -
  let ?same = "length (sm_cases current) = length (sm_cases m) \<and> distinct (map mc_case_id (sm_cases m)) \<and>
    drift_report ''CASE'' mc_case_id (sm_cases m) (sm_cases current) = []"
  have same: "?same \<longleftrightarrow> distinct (map mc_case_id (sm_cases m)) \<and> mset (sm_cases m) = mset (sm_cases current)"
  proof
    assume ?same
    then show "distinct (map mc_case_id (sm_cases m)) \<and> mset (sm_cases m) = mset (sm_cases current)"
      using right_ids_distinct [of mc_case_id "sm_cases m" "sm_cases current" "''CASE''"]
        drift_report_empty [of mc_case_id "sm_cases m" "sm_cases current" "''CASE''"] by simp
  next
    assume r: "distinct (map mc_case_id (sm_cases m)) \<and> mset (sm_cases m) = mset (sm_cases current)"
    then have "distinct (map mc_case_id (sm_cases current))" by (metis mset_eq_imp_distinct_iff mset_map)
    with r show ?same
      using drift_report_empty [of mc_case_id "sm_cases m" "sm_cases current" "''CASE''"]
        mset_eq_length [of "sm_cases m" "sm_cases current"] by simp
  qed
  have "replay_survival_manifest H e m = Inr r \<Longrightarrow>
      rr_matched r \<longleftrightarrow> sm_experiment_id m = sx_experiment_id e \<and>
        sm_experiment_digest m = experiment_digest H e \<and> ?same" for r
    by (auto simp: replay_survival_manifest_def assms Let_def)
  moreover have "\<exists>r. replay_survival_manifest H e m = Inr r"
    by (simp add: replay_survival_manifest_def assms Let_def)
  ultimately show ?thesis unfolding same by blast
qed

theorem manifest_replay_exact_witness:
  "\<exists>m r. build_survival_manifest demo_digest (cs_experiment (one_case_spec ''s'')) = Inr m \<and>
     replay_survival_manifest demo_digest (cs_experiment (one_case_spec ''s'')) m = Inr r \<and> rr_matched r"
proof -
  let ?e = "cs_experiment (one_case_spec ''s'')"
  let ?m = "\<lparr>sm_experiment_id = sx_experiment_id ?e, sm_experiment_digest = experiment_digest demo_digest ?e,
    sm_cases = [manifest_case_of demo_digest (one_run_case ''s'')]\<rparr>"
  have m: "build_survival_manifest demo_digest ?e = Inr ?m" by (simp add: build_survival_manifest_def one_cases)
  from manifest_replay_exact [OF m, of ?m] m show ?thesis by (auto intro!: exI [of _ ?m])
qed

section \<open>Observation\<close>

lemma sort_empty [simp]: "sort xs = [] \<longleftrightarrow> xs = []"
  by (metis set_sort set_empty)

lemma distinct_count: "(\<forall>k \<in> set xs. \<not> 1 < count_list xs k) \<longleftrightarrow> distinct xs"
proof -
  have "(\<forall>k \<in> set xs. \<not> 1 < count_list xs k) \<longleftrightarrow> (\<forall>k \<in> set xs. count_list xs k = 1)"
    using count_list_0_iff [of xs] by (metis One_nat_def less_one linorder_neqE_nat)
  also have "\<dots> \<longleftrightarrow> distinct xs"
    by (induction xs) (auto simp: count_list_0_iff)
  finally show ?thesis .
qed

lemma observation_complete:
  "oc_complete (observation_closure_of dg expected observed drift) \<longleftrightarrow>
     drift = [] \<and> distinct observed \<and> set observed = set expected"
  by (auto simp: observation_closure_of_def Let_def filter_empty_conv simp flip: distinct_count)

text \<open>A document that fits: it names the campaign, the case, the fault and the policy.\<close>

definition document_fits ::
    "digest_fun \<Rightarrow> (json \<Rightarrow> string) \<Rightarrow> survival_campaign \<Rightarrow> dict \<Rightarrow> bool" where
  "document_fits H repr c d \<longleftrightarrow>
     (\<exists>g. gymact_of d = Some g \<and>
        (\<forall>x. by_id (campaign_case_id H) (cp_cases c) (episode_id_of repr d) = Some x \<longrightarrow>
           \<not> campaign_drifts H repr c d g x))"

lemma observe_documents:
  "fold (observe_campaign_document H repr c) ds (observed, drift) =
     (observed @ map (episode_id_of repr) ds,
      drift @ map (episode_id_of repr) (filter (\<lambda>d. \<not> document_fits H repr c d) ds))"
proof (induction ds arbitrary: observed drift)
  case (Cons d ds)
  have "observe_campaign_document H repr c d (observed, drift) =
      (observed @ [episode_id_of repr d],
       if document_fits H repr c d then drift else drift @ [episode_id_of repr d])"
    by (auto simp: observe_campaign_document_def document_fits_def Let_def split: option.splits)
  with Cons show ?case by simp
qed simp

lemma campaign_closure_iff:
  assumes "distinct (map (campaign_case_id H) (cp_cases c))"
  shows "oc_complete (qualify_campaign_observation_closure H repr c ds) \<longleftrightarrow>
    mset (map (episode_id_of repr) ds) = mset (map (campaign_case_id H) (cp_cases c)) \<and>
    (\<forall>d \<in> set ds. document_fits H repr c d)"
proof -
  have "distinct (map (episode_id_of repr) ds) \<and>
      set (map (episode_id_of repr) ds) = set (map (campaign_case_id H) (cp_cases c)) \<longleftrightarrow>
      mset (map (episode_id_of repr) ds) = mset (map (campaign_case_id H) (cp_cases c))"
    using assms set_eq_iff_mset_eq_distinct mset_eq_setD mset_eq_imp_distinct_iff by metis
  moreover have "oc_complete (qualify_campaign_observation_closure H repr c ds) \<longleftrightarrow>
      (\<forall>d \<in> set ds. document_fits H repr c d) \<and> distinct (map (episode_id_of repr) ds) \<and>
      set (map (episode_id_of repr) ds) = set (map (campaign_case_id H) (cp_cases c))"
    by (simp add: qualify_campaign_observation_closure_def observe_documents observation_complete
        filter_empty_conv del: set_map)
  ultimately show ?thesis by blast
qed

text \<open>What a document of a campaign says.\<close>

lemma campaign_document_fields:
  assumes "to_episode H x = Inr
    \<lparr>ep_episode_id = campaign_case_id H x, ep_cell = rc_cell rc, ep_steps = cc_steps x, ep_run_case = Some rc\<rparr>"
  shows "\<exists>d g. campaign_document H x = Inr d \<and> gymact_of d = Some g \<and>
    map_of d ''episode_id'' = Some (JStr (campaign_case_id H x)) \<and>
    map_of d ''policy_id'' = Some (JStr (analysis_policy_id H rc)) \<and>
    map_of g ''campaign_id'' = Some (JStr (cc_campaign_id x)) \<and>
    map_of g ''campaign_spec_digest'' = Some (JStr (cc_campaign_spec_digest x)) \<and>
    map_of g ''run_case_id'' = Some (JStr (case_id H rc)) \<and>
    map_of g ''fault_plan_id'' = Some (opt_json (map_option sp_plan_id (cc_fault_plan x))) \<and>
    map_of g ''synthetic'' = Some (JBool True)"
  unfolding campaign_document_def assms bind_res_simps
  by (intro exI conjI, rule refl, simp add: gymact_of_def)
    (simp_all add: autofde_document_def gymact_section_def Let_def)

text \<open>An identifier without spaces at its ends is not changed by \<open>strip\<close>.\<close>

lemma py_strip_id:
  assumes "xs \<noteq> []" "\<not> py_space (hd xs)" "\<not> py_space (last xs)"
  shows "py_strip xs = xs"
proof -
  have "dropWhile py_space xs = xs" using assms(1,2) by (cases xs) simp_all
  moreover have "dropWhile py_space (rev xs) = rev xs"
    using assms(1,3) by (cases xs rule: rev_cases) simp_all
  ultimately show ?thesis by (simp add: py_strip_def)
qed

definition plain_digests :: "digest_fun \<Rightarrow> bool" where
  "plain_digests H \<longleftrightarrow> (\<forall>v. H v \<noteq> [] \<and> (\<forall>ch \<in> set (H v). \<not> py_space ch))"

lemma campaign_case_id_strip:
  assumes "plain_digests H" "scen_id (cl_scenario (rc_cell (cc_run_case x))) \<noteq> []"
    "\<not> py_space (hd (scen_id (cl_scenario (rc_cell (cc_run_case x)))))"
  shows "py_strip (campaign_case_id H x) = campaign_case_id H x" "campaign_case_id H x \<noteq> []"
proof -
  have tail: "take 16 (H v) \<noteq> []" "\<not> py_space (last (take 16 (H v)))" for v
  proof -
    show ne: "take 16 (H v) \<noteq> []" using assms(1) by (simp add: plain_digests_def)
    have "last (take 16 (H v)) \<in> set (H v)" using last_in_set [OF ne] by (rule in_set_takeD)
    with assms(1) show "\<not> py_space (last (take 16 (H v)))" by (simp add: plain_digests_def)
  qed
  show "py_strip (campaign_case_id H x) = campaign_case_id H x"
    using assms(2,3) tail by (intro py_strip_id) (simp_all add: campaign_case_id_def case_id_def cell_id_def)
  show "campaign_case_id H x \<noteq> []" by (simp add: campaign_case_id_def)
qed

lemma case_scenarios:
  assumes "cases_of e = Inr rcs" "rc \<in> set rcs"
  shows "cl_scenario (rc_cell rc) \<in> set (sx_scenarios e)"
proof -
  have "(rc_cell rc, rc_assignments rc, rc_repetition rc) \<in> set (combinations e)"
    using assms numbered_fields(2) [of e 0 "combinations e"]
    by (metis (mono_tags, lifting) cases_of_eq image_eqI list.set_map sum.inject(2))
  then show ?thesis by (auto simp: set_combinations)
qed

text \<open>The document of a case of a manufactured campaign fits and carries the identifier of the case.\<close>

lemma case_document:
  assumes "validate_template (cs_template spec) = Inr t" "validate_spec spec = Inr y"
    and "1 \<le> cs_llm_burst_magnitude spec" "manufacture_survival_campaign H spec = Inr c" "x \<in> set (cp_cases c)"
    and "plain_digests H"
    and "\<forall>s \<in> set (sx_scenarios (cs_experiment spec)). scen_id s \<noteq> [] \<and> \<not> py_space (hd (scen_id s))"
  shows "\<exists>d. campaign_document H x = Inr d \<and> episode_id_of repr d = campaign_case_id H x \<and>
    document_fits H repr c d"
proof -
  obtain rcs where rcs: "cases_of (cs_experiment spec) = Inr rcs" by (simp add: cases_of_eq)
  note m = manufacture_eq [OF assms(1,3) rcs, of H] and distinct = manufacture_distinct [OF assms(4)]
  from m assms(4,5) obtain rc where rc: "rc \<in> set rcs" "x \<in> set (case_variants H spec rc)"
    by (auto split: if_splits)
  then have fields: "cc_run_case x = rc" "cc_campaign_id x = cs_campaign_id spec"
    "cc_campaign_spec_digest x = spec_digest H spec"
    by (auto simp: case_variants_def fault_case_def make_case_def split: if_splits)
  from campaign_document_fields [OF to_episode_returns [OF assms(1,2) rcs rc]] obtain d g where
    d: "campaign_document H x = Inr d" "gymact_of d = Some g"
      "map_of d ''episode_id'' = Some (JStr (campaign_case_id H x))"
      "map_of d ''policy_id'' = Some (JStr (analysis_policy_id H rc))"
      "map_of g ''campaign_id'' = Some (JStr (cc_campaign_id x))"
      "map_of g ''campaign_spec_digest'' = Some (JStr (cc_campaign_spec_digest x))"
      "map_of g ''run_case_id'' = Some (JStr (case_id H rc))"
      "map_of g ''fault_plan_id'' = Some (opt_json (map_option sp_plan_id (cc_fault_plan x)))"
      "map_of g ''synthetic'' = Some (JBool True)" by blast
  have "scen_id (cl_scenario (rc_cell rc)) \<noteq> []" "\<not> py_space (hd (scen_id (cl_scenario (rc_cell rc))))"
    using assms(7) case_scenarios [OF rcs rc(1)] by blast+
  with campaign_case_id_strip [OF assms(6), of x] fields(1) d(3)
  have id: "episode_id_of repr d = campaign_case_id H x" by (simp add: episode_id_of_def dict_get_def)
  have "by_id (campaign_case_id H) (cp_cases c) (campaign_case_id H x) = Some x"
    using distinct assms(5) by (simp add: by_id_distinct)
  then have "document_fits H repr c d"
    using d fields distinct by (simp add: document_fits_def id campaign_drifts_def dict_get_def)
  with d(1) id show ?thesis by blast
qed

text \<open>C32: every case of a manufactured campaign exports its document, and
  the documents of all cases, in any order, close the campaign: nothing is missing, unknown,
  repeated or drifted. This needs digests without spaces, which \<open>hexdigest\<close> returns, and scenario
  identifiers that do not begin with a space. A list of documents with one of them left out or
  added a second time does not close it.\<close>

theorem campaign_documents_close:
  assumes "validate_template (cs_template spec) = Inr (cs_template spec)" "validate_spec spec = Inr spec"
    and "1 \<le> cs_llm_burst_magnitude spec" "manufacture_survival_campaign H spec = Inr c" "plain_digests H"
    and "\<forall>s \<in> set (sx_scenarios (cs_experiment spec)). scen_id s \<noteq> [] \<and> \<not> py_space (hd (scen_id s))"
  shows "\<exists>ds. list_all2 (\<lambda>x d. campaign_document H x = Inr d) (cp_cases c) ds \<and>
    (\<forall>documents. set documents \<subseteq> set ds \<longrightarrow>
       (oc_complete (qualify_campaign_observation_closure H repr c documents) \<longleftrightarrow> mset documents = mset ds))"
proof -
  let ?doc = "\<lambda>x. case_sum (\<lambda>_. []) (\<lambda>d. d) (campaign_document H x)"
  note doc = case_document [OF assms(1-4) _ assms(5,6), where repr = repr]
  have distinct: "distinct (map (campaign_case_id H) (cp_cases c))"
    using manufacture_distinct [OF assms(4)] by blast
  let ?ds = "map ?doc (cp_cases c)"
  have docs: "campaign_document H x = Inr (?doc x)" "episode_id_of repr (?doc x) = campaign_case_id H x"
    "document_fits H repr c (?doc x)" if "x \<in> set (cp_cases c)" for x
    using doc [OF that] by auto
  have ids: "map (episode_id_of repr) ?ds = map (campaign_case_id H) (cp_cases c)" using docs(2) by simp
  have "oc_complete (qualify_campaign_observation_closure H repr c documents) \<longleftrightarrow> mset documents = mset ?ds"
    if sub: "set documents \<subseteq> set ?ds" for documents
  proof -
    have "\<forall>d \<in> set documents. document_fits H repr c d" using sub docs(3) by auto
    then have "oc_complete (qualify_campaign_observation_closure H repr c documents) \<longleftrightarrow>
        mset (map (episode_id_of repr) documents) = mset (map (episode_id_of repr) ?ds)"
      by (simp only: campaign_closure_iff [OF distinct] ids) simp
    also have "\<dots> \<longleftrightarrow> mset documents = mset ?ds"
    proof
      assume same: "mset (map (episode_id_of repr) documents) = mset (map (episode_id_of repr) ?ds)"
      have d: "distinct (map (episode_id_of repr) ?ds)" using distinct unfolding ids .
      then have "distinct (map (episode_id_of repr) documents)" using same by (metis mset_eq_imp_distinct_iff)
      moreover have "set documents = set ?ds"
      proof -
        have image: "episode_id_of repr ` set documents = episode_id_of repr ` set ?ds"
          using mset_eq_setD [OF same] by (simp only: set_map)
        have "inj_on (episode_id_of repr) (set ?ds)" using d by (simp only: distinct_map)
        from inj_on_image_eq_iff [OF this sub order_refl] image show ?thesis by blast
      qed
      ultimately show "mset documents = mset ?ds" using d by (simp only: distinct_map set_eq_iff_mset_eq_distinct)
    qed (metis mset_map)
    finally show ?thesis .
  qed
  moreover have "list_all2 (\<lambda>x d. campaign_document H x = Inr d) (cp_cases c) ?ds"
    using docs(1) by (simp add: list_all2_conv_all_nth)
  ultimately show ?thesis by blast
qed

lemma one_spec_valid: "validate_spec (one_case_spec sid) = Inr (one_case_spec sid)"
proof -
  have "campaign_case_count (one_case_spec sid) = Inr 1"
    unfolding campaign_case_count_eq [OF one_template(2)]
    by (simp add: spec_faults_def one_case_spec_def case_count_def canonical_policy_suite_def)
  moreover have "Max (set (map st_step (tt_steps (cs_template (one_case_spec sid))))) = 3"
    by (simp add: one_case_spec_def demo_template_def demo_steps_def plain_step_def)
  ultimately show ?thesis
    by (simp add: validate_spec_def) (simp add: one_case_spec_def)
qed

lemma one_template_valid:
  "validate_template (cs_template (one_case_spec sid)) = Inr (cs_template (one_case_spec sid))"
  using demo_template_valid by (simp add: one_template(1))

theorem campaign_documents_close_witness:
  "\<exists>ds. list_all2 (\<lambda>x d. campaign_document demo_digest x = Inr d)
       (cp_cases (one_campaign demo_digest ''s'')) ds \<and>
     oc_complete (qualify_campaign_observation_closure demo_digest (\<lambda>_. [])
       (one_campaign demo_digest ''s'') ds)"
proof -
  have "plain_digests demo_digest" by (simp add: plain_digests_def demo_digest_def py_space_def)
  moreover have "\<forall>s \<in> set (sx_scenarios (cs_experiment (one_case_spec ''s''))). scen_id s \<noteq> [] \<and> \<not> py_space (hd (scen_id s))"
    by (simp add: one_case_spec_def py_space_def)
  ultimately show ?thesis
    using campaign_documents_close [OF one_template_valid one_spec_valid one_template(2) one_manufactured]
    by blast
qed

text \<open>
  A scenario identifier may begin with a space. \<open>strip\<close> removes it from the identifier that the
  document carries, so the campaign's own document is unknown and its case stays missing.
\<close>

lemma py_strip_shorter: "py_space c \<Longrightarrow> length (py_strip (c # s)) \<le> length s"
  unfolding py_strip_def by (simp add: order_trans [OF length_dropWhile_le])

theorem leading_space_never_closes:
  "\<exists>d. manufacture_survival_campaign H (one_case_spec '' s'') = Inr (one_campaign H '' s'') \<and>
     campaign_document H (one_case H '' s'') = Inr d \<and>
     \<not> oc_complete (qualify_campaign_observation_closure H repr (one_campaign H '' s'') [d])"
proof -
  let ?c = "one_campaign H '' s''" and ?x = "one_case H '' s''"
  have "?x \<in> set (case_variants H (one_case_spec '' s'') (one_run_case '' s''))"
    by (simp add: case_variants_def one_case_def one_case_spec_def demo_template_def)
  from campaign_document_fields [OF to_episode_returns [OF one_template_valid one_spec_valid one_cases _ this]]
  obtain d where d: "campaign_document H ?x = Inr d" "map_of d ''episode_id'' = Some (JStr (campaign_case_id H ?x))"
    by auto
  obtain rest where id: "campaign_case_id H ?x = CHR '' '' # rest"
    by (simp add: campaign_case_id_def case_id_def cell_id_def one_case_def make_case_def one_run_case_def
        one_case_spec_def)
  have "episode_id_of repr d \<noteq> campaign_case_id H ?x"
    using d(2) py_strip_shorter [of "CHR '' ''" rest]
    by (auto simp: episode_id_of_def dict_get_def id Let_def py_space_def)
  then have "mset (map (episode_id_of repr) [d]) \<noteq> mset (map (campaign_case_id H) (cp_cases ?c))"
    by (simp add: one_campaign_def)
  moreover have "distinct (map (campaign_case_id H) (cp_cases ?c))" by (simp add: one_campaign_def)
  ultimately show ?thesis using d(1) one_manufactured campaign_closure_iff by blast
qed

end
