(* ===== verification/Spec2Isabelle.thy ===== *)
theory Spec2Isabelle
  imports Kernel_Lifecycle Kernel_Props Crown_Props Cut_Props Structural Powl_Gaps Powl_Conformance
    Guard_Resume Attestation Retirement_Props Loop_Props Autonomic_Props Composition Ecology_Props
    Transport_Dual_Exact Survival_Props
begin

text \<open>
  GymAct: an authority-gated runtime in which agents act on environments and every
  consequence leaves evidence. This root theory imports the whole development; it holds no
  definitions. File names below are relative to \<open>src/gymact/\<close> of the repository's source
  package (\<open>src/src/gymact/\<close> in this tree).

  PARTS AND HOW THEY INTERACT. An environment is reached through a provider
  (\<open>providers.py\<close>). The kernel (\<open>kernel.py\<close>, \<open>runtime.py\<close>) materializes episodes over
  providers, asks an authority resolver (\<open>authority.py\<close>) and a capability scope
  (\<open>agent.py\<close>) before it actuates, judges postconditions with a verifier
  (\<open>verification.py\<close>), and appends a receipt of every outcome to a hash-chained ledger
  (\<open>evidence.py\<close>, \<open>sqlite_ledger.py\<close>). On a production runtime only the broker
  (\<open>brce.py\<close>, \<open>crown_runtime.py\<close>) may actuate, for a prepared intent under a grant
  (\<open>action_contract.py\<close>). A possibility graph (\<open>combinatorial.py\<close>, \<open>maximal.py\<close>) is explored
  over proven-reversible edges, one DO edge of the closure is cut (\<open>cut.py\<close>,
  \<open>dcm_runtime.py\<close>) and handed to the broker; routes are compiled for reuse
  (\<open>compileout_graph.py\<close>). The ledger is read back by \<open>replay.py\<close>, \<open>process.py\<close> and
  \<open>attestation.py\<close>. Apart from that, \<open>powl/\<close> runs partially ordered workflows whose leaves
  are bound to kernel capabilities, and \<open>execution_loop.py\<close> runs one bounded task against a
  provider with its own journal.

  THEORIES AND WHAT THEY MODEL.
  \<^item> \<open>Prelude\<close>, \<open>Json\<close>: the error types, the exception monad over a world, JSON-shaped
    Python values with Python's \<open>==\<close> (also \<open>True == 1\<close>), canonical dumps as a parameter.
  \<^item> \<open>Models\<close>: \<open>models.py\<close>, \<open>limits.py\<close>; records, validators and \<open>model_dump\<close>.
  \<^item> \<open>Evidence\<close>: \<open>MemoryReceiptLedger\<close> and the locale \<open>receipt_ledger\<close>, the contract the kernel
    uses (\<open>append\<close> is idempotent per intent, refuses another intent under a key, extends the
    chain by one).
  \<^item> \<open>Authority\<close>, \<open>Verification\<close>, \<open>Providers\<close>: resolvers, scopes, the recursive subset judge, the
    environment interface and the in-memory environment.
  \<^item> \<open>Kernel\<close>: class \<open>GymAct\<close>, one definition per method and per step of \<open>act\<close>, \<open>materialize\<close>,
    \<open>teardown\<close>; state in the record \<open>gym\<close>. \<open>Kernel_Facts\<close> is the invariant and its preservation,
    \<open>Kernel_Runs\<close> the step relation with reachability and monotonicity, \<open>Kernel_Props\<close> and
    \<open>Kernel_Lifecycle\<close> the properties, \<open>Kernel_Demo\<close> the concrete run the witnesses use.
  \<^item> \<open>Action_Contract\<close>, \<open>Crown\<close>, \<open>Crown_Props\<close>: contracts, admission, \<open>execute_verified\<close>,
    reconciliation and the broker.
  \<^item> \<open>Combinatorial\<close>, \<open>Exploration\<close>, \<open>Exploration_Props\<close>, \<open>Structural\<close>: graphs and their
    validators, union, binding, the two explorers (soundness, completeness, termination),
    Pareto selection and the cycle scan.
  \<^item> \<open>Cut\<close>, \<open>Cut_Props\<close>: the irreversible cut, the decision court, compiled routes.
  \<^item> \<open>Powl_Algebra\<close>, \<open>Powl_Order\<close>, \<open>Powl_Validate\<close>, \<open>Powl_Normalize\<close>: the node algebra
    (\<open>powl/algebra.py\<close>, \<open>frequency.py\<close>, \<open>bounds.py\<close>, \<open>refusals.py\<close>), Warshall's closure and the
    reduction against their specification, \<open>powl/validate.py\<close> against a declarative
    well-formedness, \<open>powl/identity.py\<close> and \<open>powl/normalize.py\<close>.
  \<^item> \<open>Powl_Executor\<close>, \<open>Powl_Facts\<close>, \<open>Powl_Runs\<close>, \<open>Powl_Liveness\<close>, \<open>Powl_Counters\<close>, \<open>Powl_Gaps\<close>:
    the marking executor \<open>powl/executor.py\<close>, its invariant, replay, progress, bounds, and the
    concrete models on which it does not do what is documented.
  \<^item> \<open>Powl_Runner\<close>, \<open>Powl_Conformance\<close>: \<open>powl/runner.py\<close>, \<open>spec.py\<close>, \<open>ocel_bridge.py\<close>,
    \<open>conformance.py\<close>.
  \<^item> \<open>Guard_Executor\<close>, \<open>Guard_Facts\<close>, \<open>Guard_Termination\<close>, \<open>Guard_Schedule\<close>, \<open>Guard_Resume\<close>:
    \<open>powl/guard_executor.py\<close>.
  \<^item> \<open>Ledger_Codec\<close>, \<open>Sqlite_Ledger\<close>: reading a receipt back from its JSON
    (\<open>Receipt.model_validate\<close>) and the durable ledger \<open>sqlite_ledger.py\<close> as a table of rows with
    its queries and its transaction; the locale \<open>ledger_refinement\<close>, interpreted on it, says that
    a ledger refines the in-memory one over any sequence of appends.
  \<^item> \<open>Replay\<close>, \<open>Attestation\<close>: \<open>replay.py\<close> and \<open>process.py\<close>, \<open>attestation.py\<close> with Base64 over
    bytes; a signing key is the locale \<open>checkpoint_key\<close>, interpreted on the HMAC key.
  \<^item> \<open>Retirement\<close>, \<open>Retirement_Props\<close>: \<open>decision_cache.py\<close>, \<open>intelligence.py\<close>, \<open>compileout.py\<close>,
    \<open>retirement.py\<close> and \<open>possibility_index.py\<close>: reuse of decisions and of compiled recipes, the
    three dispositions of a recurring class, the index over observed combinations.
  \<^item> \<open>Execution_Loop\<close>, \<open>Loop_Facts\<close>, \<open>Loop_Props\<close>: \<open>execution_loop.py\<close>; the state of
    \<open>AutonomousLoop\<close> is \<open>loop_state\<close>, the local variables of \<open>_run\<close> are \<open>loop_vars\<close>, one iteration
    of its \<open>while\<close> is \<open>loop_pass\<close> with one definition per branch, \<open>run\<close> is \<open>run_request\<close>.
    \<open>Loop_Facts\<close> is the invariant of a pass and the classification of a run.
  \<^item> \<open>Autonomic\<close>, \<open>Autonomic_Demo\<close>, \<open>Autonomic_Props\<close>: \<open>autonomic.py\<close>, \<open>automation.py\<close> and
    \<open>planning.py\<close>. \<open>AutonomicController.run\<close> is \<open>autonomic_run\<close>, one definition per phase;
    the grant issuer is a parameter with the locale \<open>grant_authority\<close>, interpreted on the
    bounded issuer. A batch runs its tasks one after the other in any order.
  \<^item> \<open>Composition\<close>: \<open>composition.py\<close>, the gate before a new provider.
  \<^item> \<open>Ecology\<close>, \<open>Ecology_Props\<close>: \<open>ecology.py\<close> over
    \<open>Combinatorial\<close>; the walks of the manufactured graph against the numbers it reports.
  \<^item> \<open>Transport\<close>, \<open>Transport_Props\<close>: \<open>explore_kantorovich_duality/\<close> and
    \<open>explore_kantorovich_independent/\<close>: plans and duals over finite measures with exact
    fractions, the certificate checker, the independent verifier and their comparison.
  \<^item> \<open>Transport_Dual\<close>, \<open>Transport_Dual_Props\<close>, \<open>Transport_Offsets\<close>, \<open>Transport_Dual_Exact\<close>:
    the dual recovered from a plan: breadth-first search over the tight edges
    (\<open>tight_components.py\<close>), Bellman and Ford's relaxation between the components
    (\<open>component_offsets.py\<close>), \<open>construct_dual\<close>. \<open>Transport_Offsets\<close> is the relaxation alone.
  \<^item> \<open>Survival\<close>, \<open>Survival_Campaign\<close>, \<open>Survival_Observation\<close>, \<open>Survival_Props\<close>:
    \<open>survival_experiment.py\<close> and \<open>survival_manifest.py\<close>; \<open>survival_faults.py\<close>,
    \<open>survival_campaign.py\<close> and \<open>survival_suite.py\<close>; \<open>survival_observation.py\<close> and
    \<open>survival_campaign_observation.py\<close>. Cases are numbered by loops over the factors, a campaign
    is its run cases times the baseline and the lawful single faults.
  CONVENTIONS. A frozen model is a record whose fields keep their Python names behind a
  prefix naming the class; its validator is a function to the error it raises or the value.
  A raise is \<open>Inl\<close> of an error value, \<open>None\<close> is an option. Objects with mutable state are records
  passed through; collaborators that the caller injects (providers, resolvers, verifiers,
  callbacks, clocks, uuid streams) are function arguments that act on a world of type \<open>'w\<close> and
  may raise. Digests (BLAKE3 or SHA-256 over canonical JSON) are the argument \<open>H\<close>; no theorem
  assumes that \<open>H\<close> is injective: collisions appear in the conclusions. Floats are rationals.

  WHAT THE LEMMAS SHOW. The kernel's group: no actuation without a receipt, once per key,
  none without the semantic and the authority gates, verification independent of what the
  provider claims, terminal teardown, restore after checkpoint. The broker's group: ALIVE only
  after admission, acceptance and verification. The exploration's group: what is returned is
  exactly the bounded reversible closure when not truncated and sound always; a cut comes
  out of it. The workflows' group: the validator is exact, runs fire only what is enabled,
  stay within their bounds, never deadlock on required work, and every pipeline run ends in
  a classified result. The records' group: the durable ledger answers every append as the
  in-memory one, replay and lifecycle checks find exactly the disagreements, a checkpoint pins
  the ledger it was made of, decisions and compiled recipes are reused only under their identity
  and retirement follows exactly its thresholds. The execution loop's group: every run ends
  within its budgets in a legal outcome, ALIVE only with a verified receipt, an actuated key is
  not actuated again by a run that remembers it, and nothing executes under an expired grant. The controller's group: the autonomic
  cycle reports ALIVE only for what the broker verified under an issued grant, never acts without
  one, reports only evidence of the ledger, and plans and batches keep their bindings and order. The decision to create a provider and the
  numbers of a layered ecology are characterised exactly. A transport certificate is issued
  exactly for a plan and a dual of equal value, which proves the plan optimal, and a dual is
  constructed exactly when some certificate exists. Survival campaigns list every case once,
  replay exactly up to order, and are closed by their own documents.
  Theorems named \<open>..._reuse_unreceipted\<close>, \<open>..._ignores_binding\<close>,
  \<open>optional_never_run\<close>, \<open>empty_block_deadlocks\<close>, \<open>stale_closure_accepted\<close>,
  \<open>recorded_log_rejected\<close>, \<open>resume_...\<close>, \<open>mixed_guards_crash\<close>, \<open>applied_fault_reexecutes\<close>,
  \<open>lost_receipt_not_remembered\<close>, \<open>escaped_run_reexecutes\<close>, \<open>retirement_counts_repetitions\<close>,
  \<open>refused_payload_leaves_episode\<close>, \<open>rerun_meets_closed_episode\<close>, \<open>compose_overlooks_single\<close>,
  \<open>merged_alternatives_skip_dimension\<close>, \<open>foreign_flow_admitted\<close>, \<open>leading_space_never_closes\<close> and the others in the findings show
  on concrete inputs where the code and its documentation part.

  BOUNDS AND FUEL. The explorers' loops carry the bounds of the code (depth, paths, edges) and
  a fuel that is shown to suffice. The pipeline runner's loop recurses on its fire budget,
  which the code itself carries. The guard executor's walks take fuel because the repetition
  callback may go on for ever; \<open>execute_terminates\<close> shows that one more than the bound on
  repetitions is enough, for every input. The execution loop's fuel is \<open>pass_bound\<close>, (retries + 1) times
  (provider switches + 1) plus one, and \<open>run_passes_total\<close> shows that it never runs out. The search for tight components
  ends because a node is queued once, and the relaxation of their offsets takes the rounds the
  code gives it, which \<open>relax_rounds_solves\<close> shows to be enough. Width-limited integers do not occur: Python's are
  unbounded and are \<open>int\<close>, or \<open>nat\<close> where a validator refuses negative values.

  NOT MODELLED. Batches of the autonomic controller with more than one task at a time. Of the execution loop: the check for invisible characters in identifiers, and
  the times, ids and attribute texts of its event log. Of the durable ledger: connections, file
  locks and crashes of SQLite (a transaction is atomic). Time outs are an outcome of the call and not a duration; calls on one episode
  are serialised by its lock and so are atomic steps, except those that waited for the lock.
  The thread pool of the guard executor (only \<open>max_workers = 1\<close>), pydantic's coercions, the
  projections to RDF and OCEL (rdflib, pySHACL), the agents around language models, network
  providers, the command line, the example worlds and the experiment and scoring surfaces
  are left out: they are input and output around the parts above, or third-party calls.
\<close>

end
